(* ===== verification/Prelude.thy ===== *)
theory Prelude
  imports Complex_Main "HOL-Library.Char_ord" "HOL-Library.List_Lexorder"
begin

text \<open>
  What every component shares: the errors the Python code can raise, the result
  type of a fallible operation with its sequencing operator, the table operations
  that the SQL of the source amounts to (select by predicate, update by key), the
  rendering of integers, and lemmas on lists that several components use.

  A function that may raise returns \<open>err + 'a\<close>. A function that writes to the
  database takes the database and returns \<open>err + ('a \<times> db)\<close>: on \<open>Inl\<close> no
  database is returned, because the request's transaction is rolled back by its
  caller when an exception leaves the handler.
\<close>

section \<open>Errors\<close>

text \<open>
  The message of an exception is kept as its template (the literal parts, with a
  pair of braces for each interpolated value) and the interpolated values.
  Punctuation outside ASCII is written in ASCII.
\<close>

datatype arg = AStr string | AInt int | ADec rat | AOpt "string option"

datatype detail = Msg string "arg list" | Joined "detail list"

datatype err =
    HTTPException nat detail
  | ValueError detail
  | RuntimeError detail
  | KeyError string
  | TypeError
  | ZeroDivision
  | NoResultFound
  | MultipleResultsFound
  | IntegrityError string

type_synonym 'a res = "err + 'a"

named_theorems res_simps \<open>inversion of sequenced fallible operations\<close>

section \<open>Sequencing fallible operations\<close>

definition bnd :: "'a res \<Rightarrow> ('a \<Rightarrow> 'b res) \<Rightarrow> 'b res" where
  "bnd m f = (case m of Inl e \<Rightarrow> Inl e | Inr x \<Rightarrow> f x)"

text \<open>\<open>if c: raise e\<close> in front of the rest of a function.\<close>

definition raise_if :: "bool \<Rightarrow> err \<Rightarrow> 'a res \<Rightarrow> 'a res" where
  "raise_if c e rest = (if c then Inl e else rest)"

lemma bnd_simps [simp]: "bnd (Inl e) f = Inl e" "bnd (Inr x) f = f x"
  by (simp_all add: bnd_def)

lemma bnd_eq_Inr [res_simps]: "bnd m f = Inr y \<longleftrightarrow> (\<exists>x. m = Inr x \<and> f x = Inr y)"
  by (cases m) simp_all

lemma bnd_eq_Inl [res_simps]:
  "bnd m f = Inl e \<longleftrightarrow> m = Inl e \<or> (\<exists>x. m = Inr x \<and> f x = Inl e)"
  by (cases m) auto

lemma bnd_InrE:
  assumes "bnd m f = Inr y"
  obtains x where "m = Inr x" and "f x = Inr y"
  using assms by (auto simp: bnd_eq_Inr)

lemma raise_if_eq_Inr [res_simps]: "raise_if c e r = Inr y \<longleftrightarrow> \<not> c \<and> r = Inr y"
  by (simp add: raise_if_def)

lemma raise_if_True [simp]: "raise_if True e r = Inl e"
  by (simp add: raise_if_def)

lemma raise_if_False [simp]: "raise_if False e r = r"
  by (simp add: raise_if_def)

text \<open>A loop whose body may raise: stops at the first error.\<close>

fun map_res :: "('a \<Rightarrow> 'b res) \<Rightarrow> 'a list \<Rightarrow> 'b list res" where
  "map_res f [] = Inr []"
| "map_res f (x # xs) = bnd (f x) (\<lambda>y. bnd (map_res f xs) (\<lambda>ys. Inr (y # ys)))"

lemma map_res_Inr_iff:
  "map_res f xs = Inr ys \<longleftrightarrow> list_all2 (\<lambda>x y. f x = Inr y) xs ys"
  by (induction xs arbitrary: ys) (auto simp: bnd_eq_Inr list_all2_Cons1)

lemma map_res_length: "map_res f xs = Inr ys \<Longrightarrow> length ys = length xs"
  by (auto simp: map_res_Inr_iff dest: list_all2_lengthD)

lemma map_res_total: "(\<And>x. x \<in> set xs \<Longrightarrow> f x = Inr (g x)) \<Longrightarrow> map_res f xs = Inr (map g xs)"
  by (induction xs) auto

text \<open>A loop that threads a state through a body that may raise.\<close>

fun fold_res :: "('a \<Rightarrow> 's \<Rightarrow> 's res) \<Rightarrow> 'a list \<Rightarrow> 's \<Rightarrow> 's res" where
  "fold_res f [] s = Inr s"
| "fold_res f (x # xs) s = bnd (f x s) (fold_res f xs)"

lemma fold_res_inv:
  assumes "fold_res f xs s = Inr t" and "P s"
    and "\<And>x s t. x \<in> set xs \<Longrightarrow> f x s = Inr t \<Longrightarrow> P s \<Longrightarrow> P t"
  shows "P t"
  using assms by (induction xs arbitrary: s) (auto simp: bnd_eq_Inr)

section \<open>Tables\<close>

text \<open>
  A table is the list of its rows in insertion order. \<open>find\<close> is
  \<open>select ... scalars().first()\<close>; \<open>scalar_one_or_none\<close> raises when several rows match.
\<close>

definition scalar_one_or_none :: "('r \<Rightarrow> bool) \<Rightarrow> 'r list \<Rightarrow> 'r option res" where
  "scalar_one_or_none P rows =
     (case filter P rows of [] \<Rightarrow> Inr None | [r] \<Rightarrow> Inr (Some r) | _ \<Rightarrow> Inl MultipleResultsFound)"

definition scalar_one :: "('r \<Rightarrow> bool) \<Rightarrow> 'r list \<Rightarrow> 'r res" where
  "scalar_one P rows =
     (case filter P rows of [] \<Rightarrow> Inl NoResultFound | [r] \<Rightarrow> Inr r | _ \<Rightarrow> Inl MultipleResultsFound)"

text \<open>The rows that satisfy a predicate, changed in place.\<close>

definition upd_rows :: "('r \<Rightarrow> bool) \<Rightarrow> ('r \<Rightarrow> 'r) \<Rightarrow> 'r list \<Rightarrow> 'r list" where
  "upd_rows P f rows = map (\<lambda>r. if P r then f r else r) rows"

lemma scalar_one_or_none_SomeD:
  "scalar_one_or_none P rows = Inr (Some r) \<Longrightarrow> r \<in> set rows \<and> P r"
  by (auto simp: scalar_one_or_none_def filter_eq_Cons_iff split: list.splits)

lemma scalar_one_or_none_NoneD:
  "scalar_one_or_none P rows = Inr None \<Longrightarrow> filter P rows = []"
  by (auto simp: scalar_one_or_none_def split: list.splits)

lemma scalar_oneD: "scalar_one P rows = Inr r \<Longrightarrow> r \<in> set rows \<and> P r"
  by (auto simp: scalar_one_def filter_eq_Cons_iff split: list.splits)

lemma scalar_one_or_none_cong_append:
  "\<not> P r \<Longrightarrow> scalar_one_or_none P (rows @ [r]) = scalar_one_or_none P rows"
  by (simp add: scalar_one_or_none_def)

lemma length_upd_rows [simp]: "length (upd_rows P f rows) = length rows"
  by (simp add: upd_rows_def)

lemma map_upd_rows:
  "(\<And>r. P r \<Longrightarrow> g (f r) = g r) \<Longrightarrow> map g (upd_rows P f rows) = map g rows"
  by (simp add: upd_rows_def comp_def)

lemma upd_rows_none: "(\<And>r. r \<in> set rows \<Longrightarrow> \<not> P r) \<Longrightarrow> upd_rows P f rows = rows"
  by (auto simp: upd_rows_def map_idI)

lemma set_upd_rowsE:
  assumes "r \<in> set (upd_rows P f rows)"
  obtains r0 where "r0 \<in> set rows" and "r = (if P r0 then f r0 else r0)"
  using assms by (auto simp: upd_rows_def)

lemma find_None_filter: "find P xs = None \<longleftrightarrow> filter P xs = []"
  by (auto simp: find_None_iff filter_empty_conv)

lemma find_SomeD: "find P xs = Some x \<Longrightarrow> x \<in> set xs \<and> P x"
  by (metis find_Some_iff nth_mem)

section \<open>Sums over rows\<close>

text \<open>\<open>sum((f(r) for r in rows), ZERO)\<close>\<close>

definition sum_of :: "('r \<Rightarrow> rat) \<Rightarrow> 'r list \<Rightarrow> rat" where
  "sum_of f rows = sum_list (map f rows)"

lemma sum_of_simps [simp]:
  "sum_of f [] = 0" "sum_of f (r # rs) = f r + sum_of f rs"
  "sum_of f (rs @ ss) = sum_of f rs + sum_of f ss"
  by (simp_all add: sum_of_def)

lemma sum_of_map: "sum_of f (map g xs) = sum_of (f \<circ> g) xs"
  by (simp add: sum_of_def comp_def)

lemma sum_of_add: "sum_of (\<lambda>r. f r + g r) xs = sum_of f xs + sum_of g xs"
  by (induction xs) auto

lemma sum_of_diff: "sum_of (\<lambda>r. f r - g r) xs = sum_of f xs - sum_of g xs"
  by (induction xs) auto

lemma sum_of_uminus: "sum_of (\<lambda>r. - f r) xs = - sum_of f xs"
  by (induction xs) auto

lemma sum_of_zero: "(\<And>r. r \<in> set xs \<Longrightarrow> f r = 0) \<Longrightarrow> sum_of f xs = 0"
  by (induction xs) auto

lemma sum_of_cong: "(\<And>r. r \<in> set xs \<Longrightarrow> f r = g r) \<Longrightarrow> sum_of f xs = sum_of g xs"
  by (induction xs) auto

lemma sum_of_nonneg: "(\<And>r. r \<in> set xs \<Longrightarrow> 0 \<le> f r) \<Longrightarrow> 0 \<le> sum_of f xs"
  by (induction xs) auto

lemma sum_of_partition:
  "sum_of f (filter P xs) + sum_of f (filter (\<lambda>x. \<not> P x) xs) = sum_of f xs"
  by (induction xs) auto

lemma sum_of_filter_if: "sum_of f (filter P xs) = sum_of (\<lambda>x. if P x then f x else 0) xs"
  by (induction xs) auto

text \<open>
  Rows grouped by a key: when every group sums to zero, so does every selection of
  whole groups. This is what lifts a per-entry balance to a balance over any set of
  entries.
\<close>

lemma sum_groups_zero:
  assumes "\<And>k. sum_of f (filter (\<lambda>x. key x = k) xs) = 0"
  shows "sum_of f (filter (\<lambda>x. P (key x)) xs) = 0"
  using assms
proof (induction "length xs" arbitrary: xs rule: less_induct)
  case less
  show ?case
  proof (cases xs)
    case Nil
    then show ?thesis by simp
  next
    case (Cons x xs')
    let ?in = "filter (\<lambda>y. key y = key x) xs" and ?out = "filter (\<lambda>y. key y \<noteq> key x) xs"
    have small: "length ?out < length xs"
      by (rule length_filter_less [of x]) (simp_all add: Cons)
    have groups: "sum_of f (filter (\<lambda>y. key y = k) ?out) = 0" for k
    proof (cases "k = key x")
      case True
      then show ?thesis by (simp add: conj_commute)
    next
      case False
      then have "filter (\<lambda>y. key y = k) ?out = filter (\<lambda>y. key y = k) xs"
        by (auto intro: filter_cong)
      then show ?thesis using less.prems by simp
    qed
    from small groups have out: "sum_of f (filter (\<lambda>y. P (key y)) ?out) = 0"
      by (rule less.hyps)
    have "sum_of f (filter (\<lambda>y. P (key y)) ?in) = (if P (key x) then sum_of f ?in else 0)"
      by (auto simp: filter_empty_conv intro!: arg_cong [of _ _ "sum_of f"] filter_cong)
    also have "\<dots> = 0" using less.prems by simp
    finally have inn: "sum_of f (filter (\<lambda>y. P (key y)) ?in) = 0" .
    have "sum_of f (filter (\<lambda>y. key y = key x) (filter (\<lambda>y. P (key y)) xs))
        + sum_of f (filter (\<lambda>y. key y \<noteq> key x) (filter (\<lambda>y. P (key y)) xs))
        = sum_of f (filter (\<lambda>y. P (key y)) xs)"
      by (rule sum_of_partition)
    moreover have "filter (\<lambda>y. key y = key x) (filter (\<lambda>y. P (key y)) xs) = filter (\<lambda>y. P (key y)) ?in"
      by (auto simp: conj_commute)
    moreover have "filter (\<lambda>y. key y \<noteq> key x) (filter (\<lambda>y. P (key y)) xs) = filter (\<lambda>y. P (key y)) ?out"
      by (auto simp: conj_commute)
    ultimately show ?thesis using inn out by simp
  qed
qed

end
