(* ===== verification/Decimals.thy ===== *)
theory Decimals
  imports Prelude
begin

text \<open>
  Python's \<open>decimal.Decimal\<close> as the source uses it. A Decimal is modelled by its
  numerical value, a rational; its exponent is made explicit where it can be seen
  (\<open>quantize\<close>, \<open>str\<close>). \<open>quantize\<close> is modelled with both rounding modes the
  source uses: the context default ROUND_HALF_EVEN (\<open>v.quantize(q)\<close>) and
  ROUND_HALF_UP (where it is passed explicitly). Division rounds its quotient to
  the context precision of 28 significant digits (\<open>ctx\<close>), and raises on a zero
  divisor; products are rounded to it as well (\<open>dmul\<close>). Sums and differences are exact
  here: \<open>ctx_id\<close> shows that the context leaves every value of fewer than 28 digits
  unchanged, and the columns the amounts live in (at most NUMERIC(18,2), NUMERIC(18,6),
  NUMERIC(14,3)) keep the sums of the source below that.
\<close>

type_synonym dec = rat

section \<open>Integers as text\<close>

definition digit_char :: "int \<Rightarrow> char" where
  "digit_char d = char_of (48 + d)"

text \<open>\<open>str(n)\<close> of a non-negative \<open>n\<close>\<close>

fun str_nat :: "int \<Rightarrow> string" where
  "str_nat n = (if n < 10 then [digit_char n] else str_nat (n div 10) @ [digit_char (n mod 10)])"

declare str_nat.simps [simp del]

definition str_int :: "int \<Rightarrow> string" where
  "str_int i = (if i < 0 then ''-'' @ str_nat (- i) else str_nat i)"

text \<open>\<open>f"{n:03d}"\<close> for a non-negative \<open>n\<close>: \<open>zpad 3 n\<close>\<close>

definition zpad :: "nat \<Rightarrow> int \<Rightarrow> string" where
  "zpad w n = replicate (w - length (str_nat n)) (CHR ''0'') @ str_nat n"

definition int_of_str :: "string \<Rightarrow> int" where
  "int_of_str s = foldl (\<lambda>a c. 10 * a + (of_char c - 48)) 0 s"

lemma int_of_str_snoc: "int_of_str (s @ [c]) = 10 * int_of_str s + (of_char c - 48)"
  by (simp add: int_of_str_def)

lemma of_digit_char: "0 \<le> d \<Longrightarrow> d < 10 \<Longrightarrow> of_char (digit_char d) = 48 + d"
  by (simp add: digit_char_def)

lemma int_of_str_str_nat [simp]: "0 \<le> n \<Longrightarrow> int_of_str (str_nat n) = n"
proof (induction n rule: str_nat.induct)
  case (1 n)
  show ?case
  proof (cases "n < 10")
    case True
    then show ?thesis using "1.prems"
      by (subst str_nat.simps) (simp add: int_of_str_def of_digit_char)
  next
    case False
    then have "int_of_str (str_nat n) = 10 * (n div 10) + n mod 10"
      using 1 by (subst str_nat.simps) (simp add: int_of_str_snoc of_digit_char)
    then show ?thesis by simp
  qed
qed

lemma int_of_str_zpad [simp]: "0 \<le> n \<Longrightarrow> int_of_str (zpad w n) = n"
proof -
  have "int_of_str (replicate k (CHR ''0'') @ s) = int_of_str s" for k s
    by (induction k) (simp_all add: int_of_str_def)
  then show "0 \<le> n \<Longrightarrow> ?thesis" by (simp add: zpad_def)
qed

lemma str_nat_inj: "0 \<le> m \<Longrightarrow> 0 \<le> n \<Longrightarrow> str_nat m = str_nat n \<longleftrightarrow> m = n"
  by (metis int_of_str_str_nat)

lemma zpad_inj: "zpad v m = zpad w n \<Longrightarrow> 0 \<le> m \<Longrightarrow> 0 \<le> n \<Longrightarrow> m = n"
  by (metis int_of_str_zpad)

lemma length_zpad_ge: "w \<le> length (zpad w n)"
  by (simp add: zpad_def)

definition ndigits :: "int \<Rightarrow> nat" where
  "ndigits n = length (str_nat n)"

lemma ndigits_pos: "0 < ndigits n"
  by (subst ndigits_def, subst str_nat.simps) simp

lemma ndigits_step: "10 \<le> n \<Longrightarrow> ndigits n = Suc (ndigits (n div 10))"
  by (subst ndigits_def, subst str_nat.simps) (simp add: ndigits_def)

lemma ndigits_small: "n < 10 \<Longrightarrow> ndigits n = 1"
  by (subst ndigits_def, subst str_nat.simps) simp

lemma ndigits_upper: "n < 10 ^ ndigits n"
proof (induction n rule: str_nat.induct)
  case (1 n)
  show ?case
  proof (cases "n < 10")
    case False
    then have "n div 10 < 10 ^ ndigits (n div 10)" using 1 by simp
    then have "n < 10 * 10 ^ ndigits (n div 10)" by linarith
    with False show ?thesis by (simp add: ndigits_step)
  qed (simp add: ndigits_small)
qed

lemma ndigits_lower: "0 < n \<Longrightarrow> 10 ^ (ndigits n - 1) \<le> n"
proof (induction n rule: str_nat.induct)
  case (1 n)
  show ?case
  proof (cases "n < 10")
    case True
    then show ?thesis using "1.prems" by (simp add: ndigits_small)
  next
    case False
    then have "0 < n div 10" by simp
    with False have "10 ^ (ndigits (n div 10) - 1) \<le> n div 10" using 1 by simp
    then have "10 * 10 ^ (ndigits (n div 10) - 1) \<le> n" by linarith
    then have "10 ^ Suc (ndigits (n div 10) - 1) \<le> n" by simp
    with False ndigits_pos [of "n div 10"] show ?thesis by (simp add: ndigits_step)
  qed
qed

lemma zpad_length_eq: "0 \<le> n \<Longrightarrow> n < 10 ^ w \<Longrightarrow> 0 < w \<Longrightarrow> length (zpad w n) = w"
proof -
  assume n: "0 \<le> n" "n < 10 ^ w" and w: "0 < w"
  have "ndigits n \<le> w"
  proof (cases "n = 0")
    case True
    then show ?thesis using w by (simp add: ndigits_small)
  next
    case False
    then have "(10::int) ^ (ndigits n - 1) < 10 ^ w"
      using ndigits_lower [of n] n by linarith
    then have "ndigits n - 1 < w" by simp
    then show ?thesis by simp
  qed
  then show ?thesis by (simp add: zpad_def ndigits_def)
qed

section \<open>Rounding modes\<close>

text \<open>
  The contract of a rounding mode: a nearest integer, exact on integers, symmetric
  and monotone. Both modes of the source meet it, and everything below about
  quantised amounts is proved from it once.
\<close>

definition at_scale :: "nat \<Rightarrow> dec \<Rightarrow> bool" where
  "at_scale n x \<longleftrightarrow> of_int \<lfloor>x * 10 ^ n\<rfloor> = x * 10 ^ n"

definition quant :: "(rat \<Rightarrow> int) \<Rightarrow> nat \<Rightarrow> dec \<Rightarrow> dec" where
  "quant rnd n x = of_int (rnd (x * 10 ^ n)) / 10 ^ n"

lemma at_scale_iff: "at_scale n x \<longleftrightarrow> (\<exists>k::int. x = of_int k / 10 ^ n)"
proof
  assume "at_scale n x"
  then have "x = of_int \<lfloor>x * 10 ^ n\<rfloor> / 10 ^ n"
    unfolding at_scale_def by (metis nonzero_mult_div_cancel_right power_not_zero zero_neq_numeral)
  then show "\<exists>k::int. x = of_int k / 10 ^ n" by blast
next
  assume "\<exists>k::int. x = of_int k / 10 ^ n"
  then show "at_scale n x" by (auto simp: at_scale_def)
qed

named_theorems scale_intros \<open>values at a decimal scale\<close>

lemma at_scale_0 [simp, scale_intros]: "at_scale n 0"
  by (simp add: at_scale_def)

lemma at_scale_add [scale_intros]: "at_scale n x \<Longrightarrow> at_scale n y \<Longrightarrow> at_scale n (x + y)"
  by (auto simp: at_scale_iff add_divide_distrib [symmetric] simp flip: of_int_add)

lemma at_scale_uminus [scale_intros]: "at_scale n x \<Longrightarrow> at_scale n (- x)"
  by (auto simp: at_scale_iff) (metis minus_divide_left of_int_minus)

lemma at_scale_diff [scale_intros]: "at_scale n x \<Longrightarrow> at_scale n y \<Longrightarrow> at_scale n (x - y)"
  by (metis at_scale_add at_scale_uminus uminus_add_conv_diff add.commute)

lemma at_scale_int [scale_intros]: "at_scale n (of_int k)"
  by (simp add: at_scale_iff, rule exI [of _ "k * 10 ^ n"]) simp

lemma at_scale_mult_int [scale_intros]: "at_scale n x \<Longrightarrow> at_scale n (x * of_int k)"
  by (auto simp: at_scale_iff simp flip: of_int_mult)

lemma at_scale_sum_of [scale_intros]:
  "(\<And>r. r \<in> set rs \<Longrightarrow> at_scale n (f r)) \<Longrightarrow> at_scale n (sum_of f rs)"
  by (induction rs) (auto intro: scale_intros)

lemma at_scale_min [scale_intros]: "at_scale n x \<Longrightarrow> at_scale n y \<Longrightarrow> at_scale n (min x y)"
  by (simp add: min_def)

lemma at_scale_mono: "at_scale m x \<Longrightarrow> m \<le> n \<Longrightarrow> at_scale n x"
proof -
  assume "at_scale m x" and mn: "m \<le> n"
  then obtain k where k: "x = of_int k / 10 ^ m" by (auto simp: at_scale_iff)
  have "(10::rat) ^ n = 10 ^ m * 10 ^ (n - m)" using mn by (simp flip: power_add)
  then have "x = of_int (k * 10 ^ (n - m)) / 10 ^ n" using k by simp
  then show ?thesis using at_scale_iff by blast
qed

locale rounding =
  fixes rnd :: "rat \<Rightarrow> int"
  assumes rnd_int: "rnd (of_int k) = k"
    and rnd_close: "\<bar>of_int (rnd x) - x\<bar> \<le> 1 / 2"
    and rnd_minus: "rnd (- x) = - rnd x"
    and rnd_mono: "x \<le> y \<Longrightarrow> rnd x \<le> rnd y"
begin

lemma quant_scale: "at_scale n (quant rnd n x)"
  by (auto simp: quant_def at_scale_iff)

lemma quant_id: "at_scale n x \<Longrightarrow> quant rnd n x = x"
  by (auto simp: quant_def at_scale_iff rnd_int)

lemma quant_idem: "quant rnd n (quant rnd n x) = quant rnd n x"
  by (rule quant_id [OF quant_scale])

lemma quant_minus: "quant rnd n (- x) = - quant rnd n x"
  by (simp add: quant_def rnd_minus)

lemma quant_mono: "x \<le> y \<Longrightarrow> quant rnd n x \<le> quant rnd n y"
  by (simp add: quant_def divide_right_mono rnd_mono)

lemma quant_0: "quant rnd n 0 = 0"
  by (rule quant_id) simp

lemma quant_nonneg: "0 \<le> x \<Longrightarrow> 0 \<le> quant rnd n x"
  using quant_mono [of 0 x n] by (simp add: quant_0)

lemma quant_nonpos: "x \<le> 0 \<Longrightarrow> quant rnd n x \<le> 0"
  using quant_mono [of x 0 n] by (simp add: quant_0)

lemma quant_close: "\<bar>quant rnd n x - x\<bar> \<le> 1 / (2 * 10 ^ n)"
proof -
  have "quant rnd n x - x = (of_int (rnd (x * 10 ^ n)) - x * 10 ^ n) / 10 ^ n"
    by (simp add: quant_def diff_divide_distrib)
  then have "\<bar>quant rnd n x - x\<bar> = \<bar>of_int (rnd (x * 10 ^ n)) - x * 10 ^ n\<bar> / 10 ^ n"
    by (simp add: abs_divide)
  also have "\<dots> \<le> (1 / 2) / 10 ^ n"
    by (rule divide_right_mono [OF rnd_close]) simp
  finally show ?thesis by (simp add: mult.commute)
qed

lemma quant_add_scaled: "at_scale n y \<Longrightarrow> quant rnd n (x + y) = quant rnd n x + y \<longleftrightarrow>
    rnd ((x + y) * 10 ^ n) = rnd (x * 10 ^ n) + \<lfloor>y * 10 ^ n\<rfloor>"
proof -
  assume y: "at_scale n y"
  then have "y = of_int \<lfloor>y * 10 ^ n\<rfloor> / 10 ^ n"
    unfolding at_scale_def by (metis nonzero_mult_div_cancel_right power_not_zero zero_neq_numeral)
  then have "quant rnd n x + y = of_int (rnd (x * 10 ^ n) + \<lfloor>y * 10 ^ n\<rfloor>) / 10 ^ n"
    by (metis (no_types) add_divide_distrib of_int_add quant_def)
  then show ?thesis by (simp add: quant_def divide_cancel_right del: of_int_add)
qed

end

definition half_even :: "rat \<Rightarrow> int" where
  "half_even x =
     (let f = \<lfloor>x\<rfloor>; d = x - of_int f in
      if d < 1 / 2 then f else if 1 / 2 < d then f + 1 else if even f then f else f + 1)"

definition half_up :: "rat \<Rightarrow> int" where
  "half_up x = (if 0 \<le> x then \<lfloor>x + 1 / 2\<rfloor> else - \<lfloor>- x + 1 / 2\<rfloor>)"

lemma half_even_bounds: "\<lfloor>x\<rfloor> \<le> half_even x" "half_even x \<le> \<lfloor>x\<rfloor> + 1"
  by (auto simp: half_even_def Let_def)

lemma half_even_minus: "half_even (- x) = - half_even x"
proof (cases "x = of_int \<lfloor>x\<rfloor>")
  case True
  then obtain k where "x = of_int k" by blast
  then show ?thesis by (simp add: half_even_def Let_def flip: of_int_minus)
next
  case False
  have lt: "of_int \<lfloor>x\<rfloor> < x" using False of_int_floor_le [of x] by linarith
  have "\<lfloor>- x\<rfloor> = - \<lfloor>x\<rfloor> - 1"
    using lt floor_correct [of x] by (intro floor_unique) auto
  then show ?thesis by (auto simp: half_even_def Let_def)
qed

lemma half_even_close: "\<bar>of_int (half_even x) - x\<bar> \<le> 1 / 2"
  using floor_correct [of x] by (auto simp: half_even_def Let_def abs_le_iff)

lemma half_even_mono:
  assumes "x \<le> y"
  shows "half_even x \<le> half_even y"
proof (cases "\<lfloor>x\<rfloor> = \<lfloor>y\<rfloor>")
  case True
  with assms show ?thesis by (auto simp: half_even_def Let_def)
next
  case False
  with assms have "\<lfloor>x\<rfloor> + 1 \<le> \<lfloor>y\<rfloor>" using floor_mono by fastforce
  then show ?thesis using half_even_bounds(2) [of x] half_even_bounds(1) [of y] by linarith
qed

interpretation he: rounding half_even
proof
  show "half_even (of_int k) = k" for k by (simp add: half_even_def Let_def)
qed (rule half_even_close half_even_minus half_even_mono, assumption?)+

lemma half_up_close: "\<bar>of_int (half_up x) - x\<bar> \<le> 1 / 2"
proof (cases "0 \<le> x")
  case True
  then have "half_up x = \<lfloor>x + 1/2\<rfloor>" by (simp add: half_up_def)
  then show ?thesis using floor_correct [of "x + 1/2"] by linarith
next
  case False
  then have "half_up x = - \<lfloor>- x + 1/2\<rfloor>" by (simp add: half_up_def)
  then show ?thesis using floor_correct [of "- x + 1/2"] by linarith
qed

lemma half_up_int: "half_up (of_int k) = k"
proof -
  have "\<lfloor>of_int m + 1 / 2 :: rat\<rfloor> = m" for m by (rule floor_unique) auto
  from this [of k] this [of "- k"] show ?thesis by (simp add: half_up_def)
qed

lemma half_up_minus: "half_up (- x) = - half_up x"
proof (cases "x = 0")
  case True
  then show ?thesis using half_up_int [of 0] by simp
qed (auto simp: half_up_def)

lemma half_up_mono:
  assumes "x \<le> y"
  shows "half_up x \<le> half_up y"
proof (cases "x < 0 \<and> 0 \<le> y")
  case True
  then have "0 \<le> \<lfloor>- x + 1 / 2\<rfloor>" and "0 \<le> \<lfloor>y + 1 / 2\<rfloor>" by simp_all
  moreover from True have "half_up x = - \<lfloor>- x + 1 / 2\<rfloor>" "half_up y = \<lfloor>y + 1 / 2\<rfloor>"
    by (simp_all add: half_up_def)
  ultimately show ?thesis by linarith
next
  case False
  have "\<lfloor>x + 1 / 2\<rfloor> \<le> \<lfloor>y + 1 / 2\<rfloor>" and "\<lfloor>- y + 1 / 2\<rfloor> \<le> \<lfloor>- x + 1 / 2\<rfloor>"
    using assms by (auto intro: floor_mono)
  with False assms show ?thesis by (auto simp: half_up_def)
qed

interpretation hu: rounding half_up
  by unfold_locales (rule half_up_int half_up_close half_up_minus half_up_mono, assumption?)+

text \<open>\<open>v.quantize(Decimal(10) ** -n)\<close>, and the same with \<open>rounding=ROUND_HALF_UP\<close>.\<close>

definition quantize :: "nat \<Rightarrow> dec \<Rightarrow> dec" where
  "quantize n x = quant half_even n x"

definition quantize_up :: "nat \<Rightarrow> dec \<Rightarrow> dec" where
  "quantize_up n x = quant half_up n x"

abbreviation q_money :: "dec \<Rightarrow> dec" where "q_money \<equiv> quantize 2"
abbreviation q_grams :: "dec \<Rightarrow> dec" where "q_grams \<equiv> quantize 3"
abbreviation q_fx :: "dec \<Rightarrow> dec" where "q_fx \<equiv> quantize 6"

lemma quantize_scale [simp, scale_intros]: "at_scale n (quantize n x)"
  by (simp add: quantize_def he.quant_scale)

lemma quantize_id [simp]: "at_scale n x \<Longrightarrow> quantize n x = x"
  by (simp add: quantize_def he.quant_id)

lemma quantize_0 [simp]: "quantize n 0 = 0"
  by simp

lemma quantize_minus: "quantize n (- x) = - quantize n x"
  by (simp add: quantize_def he.quant_minus)

lemma quantize_mono: "x \<le> y \<Longrightarrow> quantize n x \<le> quantize n y"
  by (simp add: quantize_def he.quant_mono)

lemma quantize_nonneg [simp]: "0 \<le> x \<Longrightarrow> 0 \<le> quantize n x"
  by (simp add: quantize_def he.quant_nonneg)

lemma quantize_nonpos: "x \<le> 0 \<Longrightarrow> quantize n x \<le> 0"
  by (simp add: quantize_def he.quant_nonpos)

lemma quantize_close: "\<bar>quantize n x - x\<bar> \<le> 1 / (2 * 10 ^ n)"
  by (simp add: quantize_def he.quant_close)

lemma quantize_up_scale [simp, scale_intros]: "at_scale n (quantize_up n x)"
  by (simp add: quantize_up_def hu.quant_scale)

lemma quantize_up_id [simp]: "at_scale n x \<Longrightarrow> quantize_up n x = x"
  by (simp add: quantize_up_def hu.quant_id)

lemma quantize_up_mono: "x \<le> y \<Longrightarrow> quantize_up n x \<le> quantize_up n y"
  by (simp add: quantize_up_def hu.quant_mono)

lemma quantize_up_nonneg: "0 \<le> x \<Longrightarrow> 0 \<le> quantize_up n x"
  by (simp add: quantize_up_def hu.quant_nonneg)

lemma quantize_up_close: "\<bar>quantize_up n x - x\<bar> \<le> 1 / (2 * 10 ^ n)"
  by (simp add: quantize_up_def hu.quant_close)

section \<open>Division at the context precision\<close>

text \<open>
  How many fractional digits a quotient keeps so that it has 28 significant ones:
  below 1, the leading zeros after the point come on top.
\<close>

definition frac_digits :: "rat \<Rightarrow> int" where
  "frac_digits x =
     (if 1 \<le> \<bar>x\<bar> then 28 - int (ndigits \<lfloor>\<bar>x\<bar>\<rfloor>)
      else 27 + int (ndigits (\<lceil>1 / \<bar>x\<bar>\<rceil> - 1)))"

definition ctx :: "rat \<Rightarrow> dec" where
  "ctx x =
     (if x = 0 then 0
      else let s = frac_digits x in
        if 0 \<le> s then of_int (half_even (x * 10 ^ nat s)) / 10 ^ nat s
        else of_int (half_even (x / 10 ^ nat (- s))) * 10 ^ nat (- s))"

definition ddiv :: "dec \<Rightarrow> dec \<Rightarrow> dec res" where
  "ddiv a b = (if b = 0 then Inl ZeroDivision else Inr (ctx (a / b)))"

text \<open>A product, and a quotient by a non-zero constant.\<close>

definition dmul :: "dec \<Rightarrow> dec \<Rightarrow> dec" where
  "dmul a b = ctx (a * b)"

definition dquot :: "dec \<Rightarrow> dec \<Rightarrow> dec" where
  "dquot a b = ctx (a / b)"

lemma ctx_0 [simp]: "ctx 0 = 0"
  by (simp add: ctx_def)

lemma ctx_nonneg: "0 \<le> x \<Longrightarrow> 0 \<le> ctx x"
  using half_even_mono [of 0 "x * 10 ^ nat (frac_digits x)"]
    half_even_mono [of 0 "x / 10 ^ nat (- frac_digits x)"] he.rnd_int [of 0]
  by (simp add: ctx_def Let_def)

lemma ddiv_Inr [simp]: "ddiv a b = Inr c \<longleftrightarrow> b \<noteq> 0 \<and> c = ctx (a / b)"
  by (auto simp: ddiv_def)

lemma dmul_nonneg: "0 \<le> a \<Longrightarrow> 0 \<le> b \<Longrightarrow> 0 \<le> dmul a b"
  by (simp add: dmul_def ctx_nonneg)

lemma dquot_nonneg: "0 \<le> a \<Longrightarrow> 0 < b \<Longrightarrow> 0 \<le> dquot a b"
  by (simp add: dquot_def ctx_nonneg)

lemma frac_digits_enough:
  assumes small: "\<bar>x\<bar> * 10 ^ n < 10 ^ 28" and nz: "x \<noteq> 0"
  shows "int n \<le> frac_digits x"
proof (cases "1 \<le> \<bar>x\<bar>")
  case True
  let ?m = "\<lfloor>\<bar>x\<bar>\<rfloor>"
  have "0 < ?m" using True by (simp add: less_floor_iff)
  then have "10 ^ (ndigits ?m - 1) \<le> ?m" by (rule ndigits_lower)
  then have "of_int (10 ^ (ndigits ?m - 1)) \<le> \<bar>x\<bar>" by (simp only: le_floor_iff)
  then have "(10::rat) ^ (ndigits ?m - 1) * 10 ^ n \<le> \<bar>x\<bar> * 10 ^ n" by simp
  then have "(10::rat) ^ (ndigits ?m - 1 + n) < 10 ^ 28" unfolding power_add using small by linarith
  then have "ndigits ?m - 1 + n < 28" by (subst (asm) power_strict_increasing_iff) auto
  then show ?thesis using True ndigits_pos [of ?m] by (simp add: frac_digits_def)
next
  case False
  let ?m = "\<lceil>1 / \<bar>x\<bar>\<rceil> - 1"
  have "?m < 10 ^ ndigits ?m" by (rule ndigits_upper)
  then have "\<lceil>1 / \<bar>x\<bar>\<rceil> \<le> 10 ^ ndigits ?m" by linarith
  then have "1 / \<bar>x\<bar> \<le> of_int (10 ^ ndigits ?m)" by (simp only: ceiling_le_iff)
  then have "1 \<le> 10 ^ ndigits ?m * \<bar>x\<bar>" using nz by (simp add: divide_le_eq)
  then have "10 ^ n \<le> 10 ^ ndigits ?m * \<bar>x\<bar> * 10 ^ n" by simp
  also have "\<dots> < 10 ^ ndigits ?m * 10 ^ 28" using small by (simp add: mult.assoc)
  finally have "(10::rat) ^ n < 10 ^ (ndigits ?m + 28)" by (simp add: power_add)
  then have "n < ndigits ?m + 28" by (subst (asm) power_strict_increasing_iff) auto
  then show ?thesis using False by (simp add: frac_digits_def)
qed

lemma ctx_id:
  assumes "at_scale n x" and "\<bar>x\<bar> * 10 ^ n < 10 ^ 28"
  shows "ctx x = x"
proof (cases "x = 0")
  case False
  then have n: "int n \<le> frac_digits x" using assms(2) by (rule frac_digits_enough [rotated])
  then have "at_scale (nat (frac_digits x)) x" using assms(1) by (auto intro: at_scale_mono)
  then have "quantize (nat (frac_digits x)) x = x" by simp
  then show ?thesis using n False by (simp add: ctx_def Let_def quantize_def quant_def)
qed simp

section \<open>Decimals as text\<close>

text \<open>\<open>str(d)\<close> of a value whose exponent is \<open>-n\<close>, as \<open>quantize\<close> leaves it\<close>

definition str_dec :: "nat \<Rightarrow> dec \<Rightarrow> string" where
  "str_dec n x =
     (let k = \<lfloor>\<bar>x\<bar> * 10 ^ n\<rfloor> in
      (if x < 0 then ''-'' else []) @ str_nat (k div 10 ^ n)
        @ (if n = 0 then [] else CHR ''.'' # zpad n (k mod 10 ^ n)))"

end
