(* ===== verification/Dates.thy ===== *)
theory Dates
  imports Decimals
begin

text \<open>
  The part of \<open>datetime\<close> and \<open>calendar\<close> the source uses: calendar dates with their
  order, proleptic ordinals (for \<open>(a - b).days\<close>), \<open>monthrange\<close>, \<open>strftime\<close> and
  \<open>isoformat\<close>; instants as microseconds counted from 0001-01-01T00:00 (so that an
  instant is its ordinal day times 86400000000 plus the time of day).
\<close>

section \<open>Dates\<close>

datatype date = Date (d_year: int) (d_month: int) (d_day: int)

definition is_leap :: "int \<Rightarrow> bool" where
  "is_leap y \<longleftrightarrow> y mod 4 = 0 \<and> (y mod 100 \<noteq> 0 \<or> y mod 400 = 0)"

text \<open>\<open>calendar.monthrange(y, m)[1]\<close>\<close>

definition days_in_month :: "int \<Rightarrow> int \<Rightarrow> int" where
  "days_in_month y m =
     (if m = 2 then (if is_leap y then 29 else 28)
      else if m = 4 \<or> m = 6 \<or> m = 9 \<or> m = 11 then 30 else 31)"

definition valid_date :: "date \<Rightarrow> bool" where
  "valid_date d \<longleftrightarrow> 1 \<le> d_year d \<and> d_year d \<le> 9999 \<and> 1 \<le> d_month d \<and> d_month d \<le> 12
     \<and> 1 \<le> d_day d \<and> d_day d \<le> days_in_month (d_year d) (d_month d)"

definition days_before_year :: "int \<Rightarrow> int" where
  "days_before_year y = (let z = y - 1 in z * 365 + z div 4 - z div 100 + z div 400)"

definition days_before_month :: "int \<Rightarrow> int \<Rightarrow> int" where
  "days_before_month y m =
     [0, 31, 59, 90, 120, 151, 181, 212, 243, 273, 304, 334] ! nat (m - 1)
     + (if 2 < m \<and> is_leap y then 1 else 0)"

definition toordinal :: "date \<Rightarrow> int" where
  "toordinal d = days_before_year (d_year d) + days_before_month (d_year d) (d_month d) + d_day d"

text \<open>\<open>date.fromordinal\<close>, as the standard library computes it.\<close>

definition fromordinal :: "int \<Rightarrow> date" where
  "fromordinal ord =
     (let n = ord - 1;
          n400 = n div 146097; n = n mod 146097;
          n100 = n div 36524; n = n mod 36524;
          n4 = n div 1461; n = n mod 1461;
          n1 = n div 365; n = n mod 365;
          y = n400 * 400 + 1 + n100 * 100 + n4 * 4 + n1
      in if n1 = 4 \<or> n100 = 4 then Date (y - 1) 12 31
         else let m = (n + 50) div 32;
                  m = (if days_before_month y m > n then m - 1 else m)
              in Date y m (n - days_before_month y m + 1))"

instantiation date :: linorder
begin

definition less_eq_date :: "date \<Rightarrow> date \<Rightarrow> bool" where
  "less_eq_date a b \<longleftrightarrow> d_year a < d_year b \<or> d_year a = d_year b \<and>
     (d_month a < d_month b \<or> d_month a = d_month b \<and> d_day a \<le> d_day b)"

definition less_date :: "date \<Rightarrow> date \<Rightarrow> bool" where
  "less_date a b \<longleftrightarrow> d_year a < d_year b \<or> d_year a = d_year b \<and>
     (d_month a < d_month b \<or> d_month a = d_month b \<and> d_day a < d_day b)"

instance
  by standard (auto simp: less_eq_date_def less_date_def intro: date.expand)

end

lemma date_in_year:
  "1 \<le> d_month d \<Longrightarrow> d_month d \<le> 12 \<Longrightarrow> 1 \<le> d_day d \<Longrightarrow> d_day d \<le> 31 \<Longrightarrow>
   Date y 1 1 \<le> d \<and> d \<le> Date y 12 31 \<longleftrightarrow> d_year d = y"
  by (auto simp: less_eq_date_def)

lemma month_cases:
  assumes "1 \<le> (m::int)" "m \<le> 12"
  shows "m = 1 \<or> m = 2 \<or> m = 3 \<or> m = 4 \<or> m = 5 \<or> m = 6 \<or> m = 7 \<or> m = 8 \<or> m = 9
    \<or> m = 10 \<or> m = 11 \<or> m = 12"
  using assms by arith

lemma days_before_month_less:
  assumes "1 \<le> m" "m < k" "k \<le> 12"
  shows "days_before_month y m + days_in_month y m \<le> days_before_month y k"
proof -
  have "1 \<le> k" "m \<le> 12" using assms by linarith+
  from month_cases [OF assms(1) this(2)] month_cases [OF this(1) assms(3)] assms(2)
  show ?thesis by (elim disjE; simp add: days_before_month_def days_in_month_def)
qed

lemma days_before_month_end:
  assumes "1 \<le> m" "m \<le> 12"
  shows "days_before_month y m + days_in_month y m \<le> 365 + (if is_leap y then 1 else 0)"
  using month_cases [OF assms]
  by (elim disjE; simp add: days_before_month_def days_in_month_def)

lemma days_before_month_nonneg:
  assumes "1 \<le> m" "m \<le> 12"
  shows "0 \<le> days_before_month y m"
  using month_cases [OF assms] by (elim disjE; simp add: days_before_month_def)

lemma days_before_year_step:
  "days_before_year (y + 1) = days_before_year y + 365 + (if is_leap y then 1 else 0)"
proof -
  have step: "y div k = (y - 1) div k + (if y mod k = 0 then 1 else 0)" if "0 < k" for k :: int
  proof -
    have y: "y = k * (y div k) + y mod k" by simp
    have b: "0 \<le> y mod k" "y mod k < k" using that by simp_all
    show ?thesis
    proof (cases "y mod k = 0")
      case True
      have "(y - 1) div k = y div k - 1"
        by (rule int_div_pos_eq [where r = "k - 1"]) (use y True that in \<open>simp_all add: algebra_simps\<close>)
      with True show ?thesis by simp
    next
      case False
      have "(y - 1) div k = y div k"
        by (rule int_div_pos_eq [where r = "y mod k - 1"]) (use y b False that in linarith)+
      with False show ?thesis by simp
    qed
  qed
  obtain a b c a' b' c' where abc: "a = y div 4" "b = y div 100" "c = y div 400"
    "a' = (y - 1) div 4" "b' = (y - 1) div 100" "c' = (y - 1) div 400"
    by blast
  have e: "a = a' + (if y mod 4 = 0 then 1 else 0)" "b = b' + (if y mod 100 = 0 then 1 else 0)"
    "c = c' + (if y mod 400 = 0 then 1 else 0)"
    using step [of 4] step [of 100] step [of 400] by (simp_all only: abc zero_less_numeral)
  have d: "y mod 400 = 0 \<longrightarrow> y mod 100 = 0" "y mod 100 = 0 \<longrightarrow> y mod 4 = 0"
    by presburger+
  have l: "days_before_year (y + 1) = y * 365 + a - b + c"
    "days_before_year y = (y - 1) * 365 + a' - b' + c'"
    by (simp_all add: days_before_year_def Let_def abc)
  show ?thesis
    unfolding l is_leap_def
    by (cases "y mod 4 = 0"; cases "y mod 100 = 0"; cases "y mod 400 = 0"; use e d in \<open>simp only: if_True if_False simp_thms; simp\<close>)
qed

lemma days_before_year_mono:
  assumes "y < z"
  shows "days_before_year y + 365 + (if is_leap y then 1 else 0) \<le> days_before_year z"
proof -
  have "days_before_year (y + 1) \<le> days_before_year (y + 1 + int k)" for k
  proof (induction k)
    case (Suc k)
    then show ?case using days_before_year_step [of "y + 1 + int k"] by (simp add: algebra_simps)
  qed simp
  from this [of "nat (z - (y + 1))"] assms show ?thesis
    by (simp add: days_before_year_step)
qed

text \<open>The order on dates is the order of their ordinals.\<close>

lemma toordinal_less:
  assumes "valid_date a" "valid_date b" "a < b"
  shows "toordinal a < toordinal b"
proof -
  note va = assms(1) [unfolded valid_date_def] and vb = assms(2) [unfolded valid_date_def]
  consider (year) "d_year a < d_year b"
    | (month) "d_year a = d_year b" "d_month a < d_month b"
    | (day) "d_year a = d_year b" "d_month a = d_month b" "d_day a < d_day b"
    using assms(3) by (auto simp: less_date_def)
  then show ?thesis
  proof cases
    case year
    have "days_before_month (d_year a) (d_month a) + d_day a
        \<le> 365 + (if is_leap (d_year a) then 1 else 0)"
      using days_before_month_end [of "d_month a" "d_year a"] va by linarith
    then show ?thesis
      using days_before_year_mono [OF year] days_before_month_nonneg [of "d_month b" "d_year b"] vb
      unfolding toordinal_def by linarith
  next
    case month
    then have "days_before_month (d_year a) (d_month a) + days_in_month (d_year a) (d_month a)
        \<le> days_before_month (d_year a) (d_month b)"
      using va vb by (intro days_before_month_less) auto
    then show ?thesis using month va vb unfolding toordinal_def by simp
  next
    case day
    then show ?thesis by (simp add: toordinal_def)
  qed
qed

section \<open>Dates as text\<close>

text \<open>\<open>d.strftime("%Y%m%d")\<close> and \<open>d.isoformat()\<close>\<close>

definition day_key :: "date \<Rightarrow> string" where
  "day_key d = str_nat (d_year d) @ zpad 2 (d_month d) @ zpad 2 (d_day d)"

definition date_iso :: "date \<Rightarrow> string" where
  "date_iso d = zpad 4 (d_year d) @ ''-'' @ zpad 2 (d_month d) @ ''-'' @ zpad 2 (d_day d)"

lemma valid_date_two_digits:
  "valid_date d \<Longrightarrow> length (zpad 2 (d_month d)) = 2 \<and> length (zpad 2 (d_day d)) = 2"
  by (auto simp: valid_date_def days_in_month_def split: if_splits intro!: zpad_length_eq)

lemma day_key_inj:
  assumes "valid_date a" "valid_date b" "day_key a = day_key b"
  shows "a = b"
proof -
  have eqs: "str_nat (d_year a) = str_nat (d_year b)" "zpad 2 (d_month a) = zpad 2 (d_month b)"
    "zpad 2 (d_day a) = zpad 2 (d_day b)"
    using assms valid_date_two_digits [OF assms(1)] valid_date_two_digits [OF assms(2)]
    by (simp_all add: day_key_def)
  have "d_year a = d_year b" using eqs(1) assms(1,2) by (simp add: str_nat_inj valid_date_def)
  moreover have "d_month a = d_month b"
    using zpad_inj [OF eqs(2)] assms(1,2) by (simp add: valid_date_def)
  moreover have "d_day a = d_day b"
    using zpad_inj [OF eqs(3)] assms(1,2) by (simp add: valid_date_def)
  ultimately show ?thesis by (rule date.expand [OF conjI [OF _ conjI]])
qed

section \<open>Instants\<close>

type_synonym instant = int

definition us_per_day :: int where "us_per_day = 86400000000"

text \<open>A \<open>datetime\<close>: wall-clock microseconds and, when it is aware, its UTC offset.\<close>

datatype datetime = Datetime (dt_wall: int) (dt_offset: "int option")

definition utc_instant :: "datetime \<Rightarrow> instant" where
  "utc_instant t = (case dt_offset t of None \<Rightarrow> dt_wall t | Some off \<Rightarrow> dt_wall t - off)"

definition utc_datetime :: "instant \<Rightarrow> datetime" where
  "utc_datetime t = Datetime t (Some 0)"

text \<open>\<open>t.date()\<close> of a UTC datetime\<close>

definition date_of :: "instant \<Rightarrow> date" where
  "date_of t = fromordinal (t div us_per_day)"

text \<open>\<open>isoformat()\<close> of an aware UTC datetime; the microseconds are left out when they are 0.\<close>

definition utc_iso :: "instant \<Rightarrow> string" where
  "utc_iso t =
     (let r = t mod us_per_day; us = r mod 1000000; s = r div 1000000 in
      date_iso (date_of t) @ ''T'' @ zpad 2 (s div 3600) @ '':'' @ zpad 2 (s div 60 mod 60) @ '':''
        @ zpad 2 (s mod 60) @ (if us = 0 then [] else CHR ''.'' # zpad 6 us) @ ''+00:00'')"

end
