(* ===== verification/Models.thy ===== *)
theory Models
  imports Dates
begin

text \<open>
  The data model of \<open>app/models/__init__.py\<close>: its enums as datatypes, its tables'
  rows as records (a column is the field of its name with the table's prefix), and
  the database as one record with a list of rows per table, in insertion order.
  NUMERIC columns are decimals, JSON columns Python values. Left out of the rows are
  the \<open>created_at\<close> / \<open>updated_at\<close> columns the database fills in and no modelled
  code reads, and relationship attributes, which are joins on the key columns here.

  Two pieces of the environment are part of the state: the clock that
  \<open>datetime.now(timezone.utc)\<close> and \<open>date.today()\<close> read, and the supply of fresh
  primary keys (\<open>uuid4\<close>), modelled by a counter so that a key is never handed out twice.
\<close>

section \<open>Enums\<close>

datatype role = ADMIN | CASHIER | ACCOUNTANT | MANAGER
datatype karat = K18 | K21 | K22 | K24
datatype account_type = ASSET | LIABILITY | EQUITY | INCOME | EXPENSE
datatype denomination = MONEY | METAL | DUAL
datatype normal_balance = DEBIT | CREDIT
datatype period_status = PERIOD_OPEN | PERIOD_CLOSED
datatype bank_account_type = BA_CASH | BA_BANK | BA_PETTY_CASH
datatype statement_line_status = UNMATCHED | MATCHED
datatype reconciliation_status = REC_OPEN | REC_COMPLETED
datatype ar_invoice_status = AR_OPEN | AR_PARTIAL | AR_PAID | AR_VOID
datatype vendor_bill_status = BILL_OPEN | BILL_PARTIAL | BILL_PAID | BILL_VOID
datatype order_status = COMPLETED | REFUNDED | PARTIALLY_REFUNDED | VOIDED
datatype payment_method = PAY_CASH | PAY_CARD | PAY_MIXED | PAY_CREDIT
datatype lot_source = SRC_BUYBACK | SRC_MELT | SRC_SUPPLIER | SRC_SEED | SRC_ADJUSTMENT
datatype adjustment_reason = LOSS | THEFT | GIFT | SAMPLE | CORRECTION
datatype buyback_kind = BB_PURE_GOLD | BB_COIN | BB_OUNCE | BB_USED_PRODUCT
datatype buyback_price_mode = PRICE_FORMULA | PRICE_MANUAL
datatype product_status = AVAILABLE | SOLD | MELTED | RESERVED | INACTIVE
datatype supplier_purchase_mode = MODE_CASH | MODE_GOLD | MODE_MIXED
datatype stock_take_status = DRAFT | SUBMITTED | CLOSED
datatype stock_take_line_resolution = PENDING | APPROVED | REJECTED | NO_VARIANCE
datatype adjustment_target = TARGET_LOT | TARGET_PRODUCT | TARGET_COIN_STOCK | TARGET_OUNCE_STOCK
datatype margin_mode = MARGIN_USD | MARGIN_PERCENT
datatype buyback_margin_mode = USD_PER_GRAM | BUYBACK_PERCENT
datatype order_item_kind = ITEM_PRODUCT | ITEM_COIN | ITEM_OUNCE
datatype supplier_item_kind = SI_PRODUCT | SI_COIN | SI_OUNCE | SI_PURE_GOLD
datatype debt_unit = DEBT_CASH | DEBT_GOLD
datatype stock_take_ref_type = REF_COIN_STOCK | REF_OUNCE_STOCK

text \<open>The string value of an enum member (\<open>.value\<close>), where the code uses it.\<close>

fun karat_value :: "karat \<Rightarrow> string" where
  "karat_value K18 = ''K18''"
| "karat_value K21 = ''K21''"
| "karat_value K22 = ''K22''"
| "karat_value K24 = ''K24''"

fun bank_account_type_value :: "bank_account_type \<Rightarrow> string" where
  "bank_account_type_value BA_CASH = ''CASH''"
| "bank_account_type_value BA_BANK = ''BANK''"
| "bank_account_type_value BA_PETTY_CASH = ''PETTY_CASH''"

fun debt_unit_value :: "debt_unit \<Rightarrow> string" where
  "debt_unit_value DEBT_CASH = ''CASH''"
| "debt_unit_value DEBT_GOLD = ''GOLD''"

lemma karat_value_inj: "karat_value k = karat_value k' \<longleftrightarrow> k = k'"
  by (cases k; cases k') simp_all

lemma karat_value_not_Nil [simp]: "karat_value k \<noteq> []"
  by (cases k) simp_all

section \<open>Python values in JSON columns and hash inputs\<close>

datatype pyval =
    PNone
  | PBool bool
  | PInt int
  | PStr string
  | PDec nat dec
  | PDate date
  | PDateTime datetime
  | PList "pyval list"
  | PDict "(string \<times> pyval) list"

definition popt :: "string option \<Rightarrow> pyval" where
  "popt s = (case s of None \<Rightarrow> PNone | Some t \<Rightarrow> PStr t)"

section \<open>Settings, products, orders\<close>

record user =
  us_id :: string
  us_email :: string
  us_name :: string
  us_password_hash :: string
  us_role :: role
  us_is_active :: bool
  us_token_version :: int

record category =
  ct_id :: string
  ct_name_en :: string
  ct_name_ar :: string
  ct_slug :: string
  ct_is_active :: bool

record settings =
  store_name :: string
  store_name_ar :: "string option"
  logo_url :: "string option"
  store_address :: string
  store_phone :: string
  vat_number :: "string option"
  default_margin_pct :: dec
  default_making_charge :: dec
  markup_k18 :: dec
  markup_k21 :: dec
  markup_k24 :: dec
  vat_percent :: dec
  lbp_exchange_rate :: dec
  max_discount_percent :: dec
  receipt_footer :: "string option"
  gold_refresh_minutes :: int
  nisab_grams :: dec
  default_buyback_margin_mode :: buyback_margin_mode
  default_buyback_margin_value :: dec
  buyback_rate_drift_pct_max :: dec
  accounting_auto_post_enabled :: bool

record product =
  pr_id :: string
  pr_code :: string
  pr_name_en :: string
  pr_name_ar :: string
  pr_category :: string
  pr_category_id :: "string option"
  pr_karat :: karat
  pr_weight_grams :: dec
  pr_margin_percent :: dec
  pr_making_charge :: dec
  pr_photos :: "pyval list"
  pr_is_active :: bool
  pr_on_hand_qty :: int
  pr_min_stock_qty :: "int option"
  pr_is_used :: bool
  pr_cost_basis_usd :: "dec option"
  pr_stone_value_usd :: "dec option"
  pr_stone_cost_usd :: "dec option"
  pr_stone_carats :: "dec option"
  pr_stone_count :: "int option"
  pr_stone_cert :: "string option"
  pr_stone_note :: "string option"
  pr_status :: product_status
  pr_source_ref_type :: "string option"
  pr_source_ref_id :: "string option"

record order_item =
  oi_id :: string
  oi_order_id :: string
  oi_item_kind :: order_item_kind
  oi_product_id :: "string option"
  oi_coin_type_id :: "string option"
  oi_ounce_type_id :: "string option"
  oi_quantity :: int
  oi_product_code :: string
  oi_product_name :: string
  oi_karat :: karat
  oi_weight_grams :: dec
  oi_gold_rate_at_sale :: dec
  oi_margin_percent :: dec
  oi_making_charge :: dec
  oi_final_price :: dec
  oi_cost_basis_usd :: "dec option"
  oi_stone_value_at_sale :: "dec option"
  oi_stone_cost_at_sale :: "dec option"
  oi_refunded_qty :: int
  oi_refunded_amount :: dec
  oi_refunded_at :: "instant option"

text \<open>An order carries its items: the relationship the code always loads with it.\<close>

record order =
  or_id :: string
  or_order_number :: string
  or_status :: order_status
  or_payment_method :: payment_method
  or_customer_name :: "string option"
  or_customer_id :: "string option"
  or_cashier_id :: string
  or_subtotal :: dec
  or_vat_percent :: dec
  or_vat_amount :: dec
  or_discount_percent :: dec
  or_discount_amount :: dec
  or_total_usd :: dec
  or_total_lbp :: dec
  or_lbp_exchange_rate :: dec
  or_voided_at :: "instant option"
  or_voided_by :: "string option"
  or_void_reason :: "string option"
  or_created_at :: "instant option"
  or_items :: "order_item list"

record gold_rate_history =
  gh_id :: string
  gh_rate_24k :: dec
  gh_rate_22k :: "dec option"
  gh_rate_21k :: "dec option"
  gh_rate_18k :: "dec option"
  gh_per_karat_backfilled :: bool
  gh_source :: string
  gh_fetched_at :: instant

record gold_rate_override =
  go_id :: string
  go_rate_24k :: dec
  go_set_by :: string
  go_set_at :: instant
  go_cleared_at :: "instant option"
  go_is_active :: bool

section \<open>Inventory\<close>

record gold_lot =
  lot_id :: string
  lot_karat :: karat
  lot_weight_grams :: dec
  lot_weight_remaining_grams :: dec
  lot_source :: lot_source
  lot_source_ref_type :: "string option"
  lot_source_ref_id :: "string option"
  lot_cost_basis_usd :: dec
  lot_acquired_at :: instant
  lot_notes :: "string option"
  lot_is_depleted :: bool

record gold_lot_consumption =
  gc_id :: string
  gc_lot_id :: string
  gc_grams :: dec
  gc_cost_basis_consumed_usd :: dec
  gc_ref_type :: string
  gc_ref_id :: string
  gc_created_by_user_id :: string

record inventory_ledger =
  il_id :: string
  il_event_type :: string
  il_actor_user_id :: string
  il_occurred_at :: instant
  il_ref_type :: string
  il_ref_id :: string
  il_payload :: pyval
  il_prev_hash :: string
  il_entry_hash :: string

record auth_audit_log =
  aa_id :: string
  aa_event_type :: string
  aa_occurred_at :: instant
  aa_user_id :: "string option"
  aa_claimed_email :: "string option"
  aa_client_ip :: "string option"
  aa_user_agent :: "string option"
  aa_detail :: "string option"
  aa_retention_until_at :: instant
  aa_prev_hash :: string
  aa_entry_hash :: string

text \<open>
  The three chain heads (inventory ledger, auth audit log, GL journal) are
  single-row tables whose row the migrations insert.
\<close>

record chain_head =
  latest_entry_hash :: string
  row_count :: nat

record manual_adjustment =
  ma_id :: string
  ma_target_type :: adjustment_target
  ma_target_id :: string
  ma_delta :: dec
  ma_reason :: adjustment_reason
  ma_notes :: string
  ma_occurred_at :: instant
  ma_actor_user_id :: string

record coin_type =
  co_id :: string
  co_code :: string
  co_name_en :: string
  co_name_ar :: string
  co_karat :: karat
  co_weight_grams :: dec
  co_markup_per_gram :: dec
  co_margin_mode :: margin_mode
  co_margin_value :: dec
  co_on_hand_qty :: int
  co_min_stock_qty :: "int option"
  co_photo_url :: "string option"
  co_is_active :: bool

record ounce_type =
  oz_id :: string
  oz_code :: string
  oz_name_en :: string
  oz_name_ar :: string
  oz_karat :: karat
  oz_weight_grams :: dec
  oz_markup_per_gram :: dec
  oz_margin_mode :: margin_mode
  oz_margin_value :: dec
  oz_on_hand_qty :: int
  oz_min_stock_qty :: "int option"
  oz_photo_url :: "string option"
  oz_is_active :: bool

record walkin_buyback =
  wb_id :: string
  wb_occurred_at :: "instant option"
  wb_seller_name :: string
  wb_seller_phone :: string
  wb_cashier_id :: string
  wb_kind :: buyback_kind
  wb_result_lot_id :: "string option"
  wb_coin_type_id :: "string option"
  wb_ounce_type_id :: "string option"
  wb_product_id :: "string option"
  wb_quantity :: "int option"
  wb_weight_grams :: "dec option"
  wb_karat :: "karat option"
  wb_buy_price_usd :: dec
  wb_gold_rate_at_buy :: dec
  wb_margin_mode :: "buyback_margin_mode option"
  wb_margin_value :: "dec option"
  wb_price_mode :: buyback_price_mode
  wb_notes :: "string option"

section \<open>Suppliers\<close>

record supplier =
  sup_id :: string
  sup_name :: string
  sup_contact_name :: "string option"
  sup_phone :: "string option"
  sup_email :: "string option"
  sup_address :: "string option"
  sup_default_currency :: string
  sup_payment_terms :: "string option"
  sup_notes :: "string option"
  sup_is_active :: bool

text \<open>The grams-by-karat JSON dictionaries hold decimals as text; here the decimals they hold.\<close>

record supplier_purchase =
  sp_id :: string
  sp_supplier_id :: string
  sp_occurred_at :: "instant option"
  sp_payment_mode :: supplier_purchase_mode
  sp_trade_markup_per_gram :: "dec option"
  sp_total_cash_due :: dec
  sp_total_grams_due_by_karat :: "(string \<times> dec) list"
  sp_cash_paid_at_creation :: dec
  sp_grams_paid_at_creation_by_karat :: "(string \<times> dec) list"
  sp_notes :: "string option"
  sp_created_by_user_id :: string

record supplier_purchase_item =
  si_id :: string
  si_purchase_id :: string
  si_item_kind :: supplier_item_kind
  si_product_id :: "string option"
  si_coin_type_id :: "string option"
  si_ounce_type_id :: "string option"
  si_lot_id :: "string option"
  si_quantity :: "int option"
  si_weight_grams :: "dec option"
  si_karat :: "karat option"
  si_unit_cost_usd :: dec
  si_notes :: "string option"

record supplier_payment =
  pay_id :: string
  pay_supplier_id :: string
  pay_paid_at :: "instant option"
  pay_unit :: debt_unit
  pay_karat :: "karat option"
  pay_amount :: dec
  pay_source_lot_ids :: "string list option"
  pay_paid_by_user_id :: string
  pay_notes :: "string option"

record supplier_balance =
  sb_supplier_id :: string
  sb_unit :: debt_unit
  sb_karat :: string
  sb_balance :: dec

section \<open>Zakat and stock-takes\<close>

record zakat_snapshot =
  zs_id :: string
  zs_taken_at :: instant
  zs_assessment_date :: date
  zs_taken_by_user_id :: string
  zs_notes :: "string option"
  zs_gold_rate_24k :: dec
  zs_gold_rate_source :: string
  zs_nisab_grams_used :: dec
  zs_total_au_grams :: dec
  zs_total_au_value_usd :: dec
  zs_zakat_au_grams :: dec
  zs_zakat_value_usd :: dec
  zs_meets_nisab :: bool
  zs_breakdown_by_karat :: pyval
  zs_integrity_hash :: string

record stock_take_line =
  stl_id :: string
  stl_stock_take_id :: string
  stl_ref_type :: stock_take_ref_type
  stl_ref_id :: string
  stl_counted_qty :: int
  stl_expected_qty_at_submit :: "int option"
  stl_variance :: "int option"
  stl_resolution :: stock_take_line_resolution
  stl_rejection_reason :: "string option"
  stl_adjustment_id :: "string option"
  stl_resolved_at :: "instant option"
  stl_resolved_by_user_id :: "string option"

record stock_take =
  sto_id :: string
  sto_started_at :: instant
  sto_started_by_user_id :: string
  sto_submitted_at :: "instant option"
  sto_closed_at :: "instant option"
  sto_status :: stock_take_status
  sto_notes :: "string option"

section \<open>General ledger\<close>

record gl_account =
  acc_id :: string
  acc_code :: string
  acc_name :: string
  acc_type :: account_type
  acc_parent_id :: "string option"
  acc_denomination :: denomination
  acc_currency :: "string option"
  acc_system_key :: "string option"
  acc_normal_balance :: normal_balance
  acc_is_active :: bool

record gl_period =
  per_id :: string
  per_year :: int
  per_no :: int
  per_status :: period_status
  per_closed_by_user_id :: "string option"
  per_closed_at :: "instant option"

definition GL_UNIQUE_LIVE_SOURCE_TYPES :: "string list" where
  "GL_UNIQUE_LIVE_SOURCE_TYPES =
     [''ORDER'', ''ORDER_REFUND'', ''SUPPLIER_PURCHASE'', ''SUPPLIER_PAYMENT'',
      ''BUYBACK'', ''MELT'', ''ADJUSTMENT'']"

record gl_journal_entry =
  je_id :: string
  je_entry_no :: string
  je_entry_date :: date
  je_period_id :: string
  je_memo :: string
  je_source_type :: string
  je_source_id :: "string option"
  je_reverses_entry_id :: "string option"
  je_actor_user_id :: string
  je_occurred_at :: instant
  je_prev_hash :: string
  je_entry_hash :: string

record gl_journal_line =
  jl_id :: string
  jl_entry_id :: string
  jl_line_no :: nat
  jl_account_id :: string
  jl_money_debit :: dec
  jl_money_credit :: dec
  jl_currency :: string
  jl_fx_rate :: dec
  jl_base_debit :: dec
  jl_base_credit :: dec
  jl_metal_debit_grams :: dec
  jl_metal_credit_grams :: dec
  jl_karat :: "string option"
  jl_memo :: string

record gl_entry_sequence =
  seq_day_key :: string
  seq_last_seq :: nat

section \<open>Cash and bank\<close>

record bank_account =
  ba_id :: string
  ba_name :: string
  ba_gl_account_id :: string
  ba_account_type :: bank_account_type
  ba_currency :: string
  ba_bank_name :: "string option"
  ba_account_number :: "string option"
  ba_opening_balance :: "dec option"
  ba_last_reconciled_at :: "instant option"
  ba_is_active :: bool

record bank_statement_line =
  bs_id :: string
  bs_bank_account_id :: string
  bs_stmt_date :: date
  bs_description :: string
  bs_amount :: dec
  bs_reference :: "string option"
  bs_matched_gl_line_id :: "string option"
  bs_reconciliation_id :: "string option"
  bs_status :: statement_line_status

record reconciliation =
  rc_id :: string
  rc_bank_account_id :: string
  rc_statement_date :: date
  rc_statement_balance :: dec
  rc_gl_balance :: dec
  rc_cleared_amount :: dec
  rc_difference :: dec
  rc_status :: reconciliation_status
  rc_started_by_user_id :: string
  rc_started_at :: instant
  rc_completed_at :: "instant option"

section \<open>Accounts receivable\<close>

record customer =
  cu_id :: string
  cu_name :: string
  cu_phone :: "string option"
  cu_email :: "string option"
  cu_currency :: string
  cu_credit_limit :: "dec option"
  cu_notes :: "string option"
  cu_is_active :: bool

record ar_invoice =
  inv_id :: string
  inv_no :: string
  inv_customer_id :: string
  inv_order_id :: "string option"
  inv_date :: date
  inv_due_date :: "date option"
  inv_currency :: string
  inv_fx_rate :: dec
  inv_subtotal :: dec
  inv_vat_amount :: dec
  inv_total :: dec
  inv_amount_paid :: dec
  inv_status :: ar_invoice_status
  inv_gl_entry_id :: "string option"
  inv_memo :: string

record ar_invoice_line =
  il_line_id :: string
  il_invoice_id :: string
  il_description :: string
  il_quantity :: int
  il_unit_price :: dec
  il_line_total :: dec

record ar_receipt =
  re_id :: string
  re_no :: string
  re_customer_id :: string
  re_date :: date
  re_currency :: string
  re_fx_rate :: dec
  re_amount :: dec
  re_payment_system_key :: string
  re_unapplied_amount :: dec
  re_gl_entry_id :: "string option"
  re_memo :: string

record ar_receipt_allocation =
  al_id :: string
  al_receipt_id :: string
  al_invoice_id :: string
  al_amount :: dec

section \<open>Expenses and purchasing, tax\<close>

record vendor_bill =
  vb_id :: string
  vb_no :: string
  vb_vendor_name :: string
  vb_supplier_id :: "string option"
  vb_date :: date
  vb_due_date :: "date option"
  vb_currency :: string
  vb_fx_rate :: dec
  vb_total :: dec
  vb_subtotal :: dec
  vb_vat_amount :: dec
  vb_tax_code_id :: "string option"
  vb_amount_paid :: dec
  vb_status :: vendor_bill_status
  vb_payment_system_key :: "string option"
  vb_gl_entry_id :: "string option"
  vb_memo :: string

record vendor_bill_line =
  vl_id :: string
  vl_bill_id :: string
  vl_description :: string
  vl_expense_account_id :: string
  vl_amount :: dec

record vendor_payment =
  vp_id :: string
  vp_no :: string
  vp_vendor_name :: string
  vp_date :: date
  vp_currency :: string
  vp_fx_rate :: dec
  vp_amount :: dec
  vp_payment_system_key :: string
  vp_unapplied_amount :: dec
  vp_gl_entry_id :: "string option"
  vp_memo :: string

record vendor_payment_allocation =
  va_id :: string
  va_payment_id :: string
  va_bill_id :: string
  va_amount :: dec

record tax_code =
  tc_id :: string
  tc_code :: string
  tc_name :: string
  tc_rate :: dec
  tc_is_active :: bool

section \<open>The database\<close>

record db =
  clock :: instant
  uid_next :: nat
  inv_ledger :: "inventory_ledger list"
  inv_head :: chain_head
  auth_log :: "auth_audit_log list"
  auth_head :: chain_head
  gl_accounts :: "gl_account list"
  gl_periods :: "gl_period list"
  gl_entries :: "gl_journal_entry list"
  gl_lines :: "gl_journal_line list"
  gl_head :: chain_head
  gl_seqs :: "gl_entry_sequence list"
  users :: "user list"
  categories :: "category list"
  products :: "product list"
  orders :: "order list"
  rate_history :: "gold_rate_history list"
  rate_overrides :: "gold_rate_override list"
  gold_lots :: "gold_lot list"
  lot_consumptions :: "gold_lot_consumption list"
  adjustments :: "manual_adjustment list"
  coin_types :: "coin_type list"
  ounce_types :: "ounce_type list"
  buybacks :: "walkin_buyback list"
  suppliers :: "supplier list"
  supplier_purchases :: "supplier_purchase list"
  supplier_purchase_items :: "supplier_purchase_item list"
  supplier_payments :: "supplier_payment list"
  supplier_balances :: "supplier_balance list"
  zakat_snapshots :: "zakat_snapshot list"
  stock_takes :: "stock_take list"
  stock_take_lines :: "stock_take_line list"
  bank_accounts :: "bank_account list"
  statement_lines :: "bank_statement_line list"
  reconciliations :: "reconciliation list"
  customers :: "customer list"
  ar_invoices :: "ar_invoice list"
  ar_invoice_lines :: "ar_invoice_line list"
  ar_receipts :: "ar_receipt list"
  ar_allocations :: "ar_receipt_allocation list"
  vendor_bills :: "vendor_bill list"
  vendor_bill_lines :: "vendor_bill_line list"
  vendor_payments :: "vendor_payment list"
  vendor_allocations :: "vendor_payment_allocation list"
  tax_codes :: "tax_code list"

text \<open>\<open>_uid()\<close>: a fresh primary key.\<close>

definition uid :: "nat \<Rightarrow> string" where
  "uid n = ''id'' @ str_nat (int n)"

definition fresh_uid :: "db \<Rightarrow> string \<times> db" where
  "fresh_uid d = (uid (uid_next d), d\<lparr>uid_next := Suc (uid_next d)\<rparr>)"

lemma uid_inj [simp]: "uid m = uid n \<longleftrightarrow> m = n"
  by (simp add: uid_def str_nat_inj)

text \<open>
  \<open>datetime.now(timezone.utc)\<close>: a reading of the clock. Two readings in a row differ
  (the clock has microseconds, and a database round trip lies between two readings).
\<close>

definition read_clock :: "db \<Rightarrow> instant \<times> db" where
  "read_clock d = (clock d, d\<lparr>clock := clock d + 1\<rparr>)"

text \<open>\<open>date.today()\<close>, on a server whose local time is UTC.\<close>

definition today :: "db \<Rightarrow> date" where
  "today d = date_of (clock d)"

text \<open>A new database: the chain heads at the genesis sentinel, every other table empty.\<close>

definition GENESIS_HASH :: string where "GENESIS_HASH = ''GENESIS''"

definition empty_db :: "instant \<Rightarrow> db" where
  "empty_db t = \<lparr>
     clock = t, uid_next = 0,
     inv_ledger = [], inv_head = \<lparr>latest_entry_hash = GENESIS_HASH, row_count = 0\<rparr>,
     auth_log = [], auth_head = \<lparr>latest_entry_hash = GENESIS_HASH, row_count = 0\<rparr>,
     gl_accounts = [], gl_periods = [], gl_entries = [], gl_lines = [],
     gl_head = \<lparr>latest_entry_hash = GENESIS_HASH, row_count = 0\<rparr>, gl_seqs = [],
     users = [], categories = [], products = [], orders = [], rate_history = [], rate_overrides = [],
     gold_lots = [], lot_consumptions = [], adjustments = [], coin_types = [], ounce_types = [], buybacks = [],
     suppliers = [], supplier_purchases = [], supplier_purchase_items = [],
     supplier_payments = [], supplier_balances = [],
     zakat_snapshots = [], stock_takes = [], stock_take_lines = [],
     bank_accounts = [], statement_lines = [], reconciliations = [],
     customers = [], ar_invoices = [], ar_invoice_lines = [], ar_receipts = [], ar_allocations = [],
     vendor_bills = [], vendor_bill_lines = [], vendor_payments = [], vendor_allocations = [],
     tax_codes = []\<rparr>"

end
