(* ===== verification/Json.thy ===== *)
theory Json
  imports Decimals
begin

text \<open>
  \<open>json.dumps(v, sort_keys=True, separators=(",", ":"))\<close> with the default
  \<open>ensure_ascii\<close>, on the values the hash inputs consist of. Strings are byte strings:
  a character is a code point below 256. The section on unambiguity shows that the
  text determines the value up to the order of object keys, which is what makes a hash
  over the text a hash over the facts.
\<close>

datatype json =
    JNull
  | JBool bool
  | JInt int
  | JStr string
  | JList "json list"
  | JObj "(string \<times> json) list"

section \<open>Rendering\<close>

text \<open>Escapes: the short ones, and \<open>\uXXXX\<close> for what is not printable ASCII.\<close>

definition hex_char :: "int \<Rightarrow> char" where
  "hex_char d = (if d < 10 then char_of (48 + d) else char_of (87 + d))"

definition json_esc :: "char \<Rightarrow> string" where
  "json_esc c =
     (let n = (of_char c :: int) in
      if n = 34 then [CHR 0x5C, CHR 0x22]
      else if n = 92 then [CHR 0x5C, CHR 0x5C]
      else if n = 10 then [CHR 0x5C, CHR ''n'']
      else if n = 13 then [CHR 0x5C, CHR ''r'']
      else if n = 9 then [CHR 0x5C, CHR ''t'']
      else if n = 12 then [CHR 0x5C, CHR ''f'']
      else if n = 8 then [CHR 0x5C, CHR ''b'']
      else if 32 \<le> n \<and> n \<le> 126 then [c]
      else [CHR 0x5C, CHR ''u'', CHR ''0'', CHR ''0'', hex_char (n div 16), hex_char (n mod 16)])"

definition json_str :: "string \<Rightarrow> string" where
  "json_str s = CHR 0x22 # concat (map json_esc s) @ [CHR 0x22]"

fun join :: "string \<Rightarrow> string list \<Rightarrow> string" where
  "join sep [] = []"
| "join sep [s] = s"
| "join sep (s # t # ss) = s @ sep @ join sep (t # ss)"

primrec dumps :: "json \<Rightarrow> string" where
  "dumps JNull = ''null''"
| "dumps (JBool b) = (if b then ''true'' else ''false'')"
| "dumps (JInt i) = str_int i"
| "dumps (JStr s) = json_str s"
| "dumps (JList vs) = ''['' @ join '','' (map dumps vs) @ '']''"
| "dumps (JObj kvs) =
     ''{'' @ join '','' (map (\<lambda>(k, s). json_str k @ '':'' @ s) (sort_key fst (map (map_prod id dumps) kvs))) @ ''}''"

section \<open>Unambiguity\<close>

text \<open>Keys sorted first, then written in the order they stand.\<close>

primrec jsort :: "json \<Rightarrow> json" where
  "jsort JNull = JNull"
| "jsort (JBool b) = JBool b"
| "jsort (JInt i) = JInt i"
| "jsort (JStr s) = JStr s"
| "jsort (JList vs) = JList (map jsort vs)"
| "jsort (JObj kvs) = JObj (sort_key fst (map (map_prod id jsort) kvs))"

primrec render :: "json \<Rightarrow> string" where
  "render JNull = ''null''"
| "render (JBool b) = (if b then ''true'' else ''false'')"
| "render (JInt i) = str_int i"
| "render (JStr s) = json_str s"
| "render (JList vs) = ''['' @ join '','' (map render vs) @ '']''"
| "render (JObj kvs) =
     ''{'' @ join '','' (map (\<lambda>(k, s). json_str k @ '':'' @ s) (map (map_prod id render) kvs)) @ ''}''"

lemma insort_key_map:
  "(\<And>p. fst (g p) = fst p) \<Longrightarrow> insort_key fst (g p) (map g ps) = map g (insort_key fst p ps)"
  by (induction ps) auto

lemma sort_key_map:
  "(\<And>p. fst (g p) = fst p) \<Longrightarrow> sort_key fst (map g ps) = map g (sort_key fst ps)"
  by (induction ps) (auto simp: insort_key_map)

lemma sort_key_map_prod:
  "sort_key fst (map (map_prod id f) ps) = map (map_prod id f) (sort_key fst ps)"
  by (rule sort_key_map) simp

lemma dumps_render: "dumps j = render (jsort j)"
proof (induction j)
  case (JObj kvs)
  then have "map (map_prod id dumps) kvs = map (map_prod id render) (map (map_prod id jsort) kvs)"
    by (auto simp: prod_set_defs)
  then show ?case by (simp only: dumps.simps jsort.simps render.simps sort_key_map_prod)
qed (auto cong: map_cong simp: comp_def)

text \<open>Where a value ends: at the end of the text or at a separator or bracket.\<close>

definition delim :: "string \<Rightarrow> bool" where
  "delim r \<longleftrightarrow> r = [] \<or> hd r = CHR '','' \<or> hd r = CHR '']'' \<or> hd r = CHR ''}''"

lemma delim_simps [simp]:
  "delim []" "delim (CHR '','' # r)" "delim (CHR '']'' # r)" "delim (CHR ''}'' # r)"
  by (simp_all add: delim_def)

text \<open>Reading one escaped character back.\<close>

definition unhex :: "char \<Rightarrow> int" where
  "unhex c = (if of_char c < (58::int) then of_char c - 48 else of_char c - 87)"

fun unesc :: "string \<Rightarrow> (char \<times> string) option" where
  "unesc [] = None"
| "unesc (c # r) =
     (if c \<noteq> CHR 0x5C then Some (c, r)
      else case r of
        [] \<Rightarrow> None
      | e # r' \<Rightarrow>
          if e = CHR ''n'' then Some (char_of (10::int), r')
          else if e = CHR ''r'' then Some (char_of (13::int), r')
          else if e = CHR ''t'' then Some (char_of (9::int), r')
          else if e = CHR ''f'' then Some (char_of (12::int), r')
          else if e = CHR ''b'' then Some (char_of (8::int), r')
          else if e = CHR ''u'' then (case r' of
              _ # _ # h # l # r'' \<Rightarrow> Some (char_of (16 * unhex h + unhex l), r'')
            | _ \<Rightarrow> None)
          else Some (e, r'))"

lemma unhex_hex_char: "0 \<le> d \<Longrightarrow> d < 16 \<Longrightarrow> unhex (hex_char d) = d"
  by (auto simp: unhex_def hex_char_def)

lemma of_char_bounds: "0 \<le> (of_char c :: int)" "(of_char c :: int) < 256"
proof -
  have c: "(of_char c :: int) = of_char c mod 256"
    by (simp add: of_char_mod_256)
  show "0 \<le> (of_char c :: int)" by (subst c) (rule pos_mod_sign, simp)
  show "(of_char c :: int) < 256" by (subst c) (rule pos_mod_bound, simp)
qed

lemma unesc_json_esc: "unesc (json_esc c @ r) = Some (c, r)"
proof -
  obtain n where n_def: "n = (of_char c :: int)" by simp
  have c: "c = char_of n" by (simp add: n_def)
  have n: "0 \<le> n" "n < 256" unfolding n_def by (rule of_char_bounds)+
  have hex: "16 * unhex (hex_char (n div 16)) + unhex (hex_char (n mod 16)) = n"
    using n by (simp add: unhex_hex_char div_less_iff_less_mult)
  show ?thesis
  proof (cases "n = 34 \<or> n = 92 \<or> n = 10 \<or> n = 13 \<or> n = 9 \<or> n = 12 \<or> n = 8")
    case True
    then show ?thesis unfolding json_esc_def Let_def n_def [symmetric] c
      by (elim disjE) (simp_all add: char_of_def)
  next
    case False
    then have ne: "c \<noteq> CHR 0x5C" unfolding n_def by auto
    show ?thesis
    proof (cases "32 \<le> n \<and> n \<le> 126")
      case True
      with False have "json_esc c = [c]" by (simp add: json_esc_def Let_def n_def)
      then show ?thesis using ne by simp
    next
      case plain: False
      with False have "json_esc c = [CHR 0x5C, CHR ''u'', CHR ''0'', CHR ''0'', hex_char (n div 16), hex_char (n mod 16)]"
        unfolding json_esc_def Let_def n_def [symmetric] by simp
      then show ?thesis by (simp only: append_Cons append_Nil) (simp add: hex c)
    qed
  qed
qed

lemma json_esc_prefix: "json_esc c @ r = json_esc d @ s \<Longrightarrow> c = d \<and> r = s"
  by (metis unesc_json_esc option.inject prod.inject)

lemma unesc_quote: "c # r = json_esc d @ s \<Longrightarrow> c \<noteq> CHR 0x22"
proof
  assume e: "c # r = json_esc d @ s" and c: "c = CHR 0x22"
  then have "unesc (CHR 0x22 # r) = Some (d, s)" by (metis unesc_json_esc)
  then have d: "d = CHR 0x22" by simp
  then show False using e c by (simp add: json_esc_def)
qed

lemma json_str_prefix:
  "json_str s @ r = json_str t @ r' \<Longrightarrow> s = t \<and> r = r'"
proof -
  have "concat (map json_esc s) @ CHR 0x22 # r = concat (map json_esc t) @ CHR 0x22 # r' \<Longrightarrow> s = t \<and> r = r'"
  proof (induction s arbitrary: t)
    case Nil
    then show ?case by (cases t) (auto dest: unesc_quote)
  next
    case (Cons c s)
    show ?case
    proof (cases t)
      case Nil
      then show ?thesis using Cons.prems by (auto dest: unesc_quote [OF sym])
    next
      case (Cons d t')
      then have "json_esc c @ (concat (map json_esc s) @ CHR 0x22 # r)
          = json_esc d @ (concat (map json_esc t') @ CHR 0x22 # r')"
        using Cons.prems by simp
      from json_esc_prefix [OF this] Cons.IH [of t'] Cons show ?thesis by simp
    qed
  qed
  then show "json_str s @ r = json_str t @ r' \<Longrightarrow> s = t \<and> r = r'" by (simp add: json_str_def)
qed

text \<open>The first character tells the kind of value.\<close>

definition num_char :: "char \<Rightarrow> bool" where
  "num_char c \<longleftrightarrow> c = CHR ''-'' \<or> 48 \<le> (of_char c :: int) \<and> (of_char c :: int) < 58"

lemma str_nat_chars: "0 \<le> n \<Longrightarrow> c \<in> set (str_nat n) \<Longrightarrow> 48 \<le> (of_char c :: int) \<and> (of_char c :: int) < 58"
proof (induction n rule: str_nat.induct)
  case (1 n)
  then show ?case
    by (cases "n < 10") (auto simp: str_nat.simps [of n] of_digit_char)
qed

lemma str_int_chars: "c \<in> set (str_int i) \<Longrightarrow> num_char c"
  using str_nat_chars [of i c] str_nat_chars [of "- i" c]
  by (auto simp: str_int_def num_char_def split: if_splits)

lemma str_nat_not_Nil [simp]: "str_nat n \<noteq> []"
  by (subst str_nat.simps) simp

lemma str_int_not_Nil [simp]: "str_int i \<noteq> []"
  by (simp add: str_int_def)

lemma str_int_inj: "str_int i = str_int j \<longleftrightarrow> i = j"
proof
  have neg: "CHR ''-'' \<notin> set (str_nat n)" if "0 \<le> n" for n
    using str_nat_chars [OF that, of "CHR ''-''"] by auto
  have hd: "str_nat n \<noteq> CHR ''-'' # s" if "0 \<le> n" for n s
    using neg [OF that] by (metis list.set_intros(1))
  assume e: "str_int i = str_int j"
  show "i = j"
  proof (cases "i < 0"; cases "j < 0")
    assume "i < 0" "j < 0"
    with e show ?thesis using str_nat_inj [of "- i" "- j"] by (simp add: str_int_def)
  next
    assume "\<not> i < 0" "\<not> j < 0"
    with e show ?thesis using str_nat_inj [of i j] by (simp add: str_int_def)
  qed (use e hd [of i] hd [of j] in \<open>auto simp: str_int_def dest: sym\<close>)
qed simp

lemma delim_not_num: "delim (c # r) \<Longrightarrow> \<not> num_char c"
  by (auto simp: delim_def num_char_def)

lemma str_int_prefix:
  assumes "str_int i @ r = str_int j @ r'" "delim r" "delim r'"
  shows "i = j \<and> r = r'"
proof -
  have tw: "takeWhile num_char (str_int k @ s) = str_int k" if "delim s" for k s
    using that delim_not_num by (cases s) (auto simp: takeWhile_append str_int_chars)
  have "str_int i = str_int j" using tw [OF assms(2), of i] tw [OF assms(3), of j] assms(1) by metis
  then show ?thesis using assms(1) by (simp add: str_int_inj)
qed

text \<open>A separated list between brackets: items that end recognisably can be told apart.\<close>

definition items_tail :: "('a \<Rightarrow> string) \<Rightarrow> 'a list \<Rightarrow> string" where
  "items_tail f xs = (if xs = [] then [] else CHR '','' # join '','' (map f xs))"

lemma join_Cons: "join '','' (map f (x # xs)) = f x @ items_tail f xs"
  by (cases xs) (simp_all add: items_tail_def)

lemma join_prefix:
  assumes item: "\<And>x y r r'. x \<in> set xs \<Longrightarrow> f x @ r = f y @ r' \<Longrightarrow> delim r \<Longrightarrow> delim r' \<Longrightarrow> x = y \<and> r = r'"
    and start: "\<And>x r c s. f x @ r = c # s \<Longrightarrow> \<not> delim (c # s)"
    and close: "c = CHR '']'' \<or> c = CHR ''}''"
    and eq: "join '','' (map f xs) @ c # r = join '','' (map f ys) @ c # r'"
  shows "xs = ys \<and> r = r'"
  using item eq
proof (induction xs arbitrary: ys)
  case Nil
  show ?case
  proof (cases ys)
    case (Cons y ys')
    then have "f y @ (items_tail f ys' @ c # r') = c # r"
      using Nil.prems(2) unfolding Cons join_Cons append_assoc by simp
    with start [OF this] close show ?thesis by auto
  qed (use Nil in simp)
next
  case (Cons x xs)
  have dl: "delim (items_tail f zs @ c # t)" for zs t
    using close by (auto simp: items_tail_def)
  show ?case
  proof (cases ys)
    case Nil
    then have "f x @ (items_tail f xs @ c # r) = c # r'"
      using Cons.prems(2) unfolding Nil join_Cons append_assoc by simp
    with start [OF this] close show ?thesis by auto
  next
    case ys: (Cons y ys')
    have "f x @ (items_tail f xs @ c # r) = f y @ (items_tail f ys' @ c # r')"
      using Cons.prems(2) unfolding ys join_Cons append_assoc .
    with Cons.prems(1) [of x] dl have x: "x = y" and t: "items_tail f xs @ c # r = items_tail f ys' @ c # r'"
      by auto
    show ?thesis
    proof (cases "xs = [] \<or> ys' = []")
      case True
      then show ?thesis using t close x ys by (auto simp: items_tail_def split: if_splits)
    next
      case False
      then have "join '','' (map f xs) @ c # r = join '','' (map f ys') @ c # r'"
        using t by (simp add: items_tail_def)
      with Cons.IH [of ys'] Cons.prems(1) x ys show ?thesis by auto
    qed
  qed
qed

lemma str_int_head: "str_int i @ r = c # s \<Longrightarrow> num_char c"
  by (cases "str_int i") (auto intro: str_int_chars [of _ i])

lemma render_start:
  assumes "render j @ r = c # s"
  shows "\<not> delim (c # s)"
proof (cases j)
  case (JInt i)
  with assms str_int_head [of i r c s] show ?thesis using delim_not_num by auto
qed (use assms in \<open>auto simp: delim_def json_str_def split: if_splits\<close>)

primrec json_kind :: "json \<Rightarrow> nat" where
  "json_kind JNull = 0"
| "json_kind (JBool b) = (if b then 1 else 2)"
| "json_kind (JInt i) = 6"
| "json_kind (JStr s) = 3"
| "json_kind (JList vs) = 4"
| "json_kind (JObj kvs) = 5"

definition char_kind :: "char \<Rightarrow> nat" where
  "char_kind c =
     (if c = CHR ''n'' then 0 else if c = CHR ''t'' then 1 else if c = CHR ''f'' then 2
      else if c = CHR 0x22 then 3 else if c = CHR ''['' then 4 else if c = CHR ''{'' then 5 else 6)"

lemma render_kind: "char_kind (hd (render j @ r)) = json_kind j"
proof (cases j)
  case (JInt i)
  have "num_char (hd (str_int i @ r))"
    using str_int_chars [OF hd_in_set [OF str_int_not_Nil]] by simp
  then show ?thesis using JInt by (auto simp: char_kind_def num_char_def)
qed (auto simp: char_kind_def json_str_def)

lemma same_kind: "render j @ r = render j' @ r' \<Longrightarrow> json_kind j = json_kind j'"
  by (metis render_kind)

definition member_text :: "string \<times> json \<Rightarrow> string" where
  "member_text p = json_str (fst p) @ '':'' @ render (snd p)"

lemma render_JObj: "render (JObj kvs) = ''{'' @ join '','' (map member_text kvs) @ ''}''"
  by (simp add: member_text_def [abs_def] comp_def case_prod_beta)

lemma render_prefix:
  "render j @ r = render j' @ r' \<Longrightarrow> delim r \<Longrightarrow> delim r' \<Longrightarrow> j = j' \<and> r = r'"
proof (induction j arbitrary: j' r r')
  case (JInt i)
  from same_kind [OF JInt.prems(1)] obtain k where "j' = JInt k"
    by (cases j') (auto split: if_splits)
  with JInt.prems str_int_prefix [of i r k r'] show ?case by simp
next
  case (JStr t)
  from same_kind [OF JStr.prems(1)] obtain u where "j' = JStr u"
    by (cases j') (auto split: if_splits)
  with JStr.prems json_str_prefix [of t r u r'] show ?case by simp
next
  case (JList vs)
  from same_kind [OF JList.prems(1)] obtain ws where j': "j' = JList ws"
    by (cases j') (auto split: if_splits)
  have "vs = ws \<and> r = r'"
  proof (rule join_prefix)
    show "x = y \<and> t = t'"
      if "x \<in> set vs" "render x @ t = render y @ t'" "delim t" "delim t'" for x y t t'
      using JList.IH that by blast
    show "join '','' (map render vs) @ CHR '']'' # r = join '','' (map render ws) @ CHR '']'' # r'"
      using JList.prems(1) j' by simp
  qed (auto dest: render_start)
  then show ?case using j' by simp
next
  case (JObj kvs)
  from same_kind [OF JObj.prems(1)] obtain mvs where j': "j' = JObj mvs"
    by (cases j') (auto split: if_splits)
  have "kvs = mvs \<and> r = r'"
  proof (rule join_prefix [where f = member_text])
    show "x = y \<and> t = t'"
      if x: "x \<in> set kvs" and e: "member_text x @ t = member_text y @ t'" and d: "delim t" "delim t'" for x y t t'
    proof -
      have "json_str (fst x) @ (CHR '':'' # render (snd x) @ t) = json_str (fst y) @ (CHR '':'' # render (snd y) @ t')"
        using e by (simp add: member_text_def)
      from json_str_prefix [OF this] have k: "fst x = fst y" and v: "render (snd x) @ t = render (snd y) @ t'"
        by simp_all
      have "snd x = snd y \<and> t = t'"
        by (rule JObj.IH [of x "snd x", OF x _ v d]) (cases x, simp)
      with k show ?thesis by (simp add: prod_eq_iff)
    qed
    show "join '','' (map member_text kvs) @ CHR ''}'' # r = join '','' (map member_text mvs) @ CHR ''}'' # r'"
      using JObj.prems(1) unfolding j' render_JObj by simp
  qed (auto simp: member_text_def json_str_def delim_def)
  then show ?case using j' by simp
next
  case JNull
  from same_kind [OF JNull.prems(1)] have "j' = JNull"
    by (cases j') (auto split: if_splits)
  with JNull show ?case by simp
next
  case (JBool b)
  from same_kind [OF JBool.prems(1)] have "j' = JBool b"
    by (cases j') (auto split: if_splits)
  with JBool show ?case by simp
qed

theorem dumps_unambiguous: "dumps j = dumps k \<longleftrightarrow> jsort j = jsort k"
  using render_prefix [of "jsort j" "[]" "jsort k" "[]"] by (auto simp: dumps_render)

text \<open>Objects with the same distinct keys in the same order, equal once sorted, are equal.\<close>

lemma sort_key_fst_inj:
  assumes "sort_key fst xs = sort_key fst ys" "map fst xs = map fst ys" "distinct (map fst xs)"
  shows "xs = ys"
proof -
  have same: "set xs = set ys" using arg_cong [OF assms(1), of set] by simp
  have len: "length xs = length ys" using arg_cong [OF assms(2), of length] by simp
  show ?thesis
  proof (rule nth_equalityI [OF len])
    fix i assume i: "i < length xs"
    have d: "distinct (map fst ys)" using assms(2,3) by simp
    have k: "fst (xs ! i) = fst (ys ! i)"
      using arg_cong [OF assms(2), of "\<lambda>l. l ! i"] i len by simp
    have "(fst (ys ! i), snd (xs ! i)) \<in> set ys"
      using nth_mem [OF i] by (simp add: k [symmetric] same)
    moreover have "(fst (ys ! i), snd (ys ! i)) \<in> set ys"
      using nth_mem [of i ys] i len by simp
    ultimately have this: "(fst (ys ! i), snd (xs ! i)) \<in> set ys" "(fst (ys ! i), snd (ys ! i)) \<in> set ys" .
    from eq_key_imp_eq_value [OF d this] k show "xs ! i = ys ! i" by (simp add: prod_eq_iff)
  qed
qed

end
