(* ===== verification/AuditChain.thy ===== *)
theory AuditChain
  imports Models Json
begin

text \<open>
  \<open>app/core/audit_chain.py\<close>: canonical serialisation, the three entry hashes and the
  three chain verifications. SHA-256 enters as the parameter \<open>sha\<close> (the hex digest of a
  blob), so every statement holds for whatever digest it computes; what tamper
  evidence needs of it, that no two of the blobs at hand collide, is a hypothesis.
\<close>

section \<open>Canonical serialisation\<close>

primrec canonical :: "pyval \<Rightarrow> json" where
  "canonical PNone = JNull"
| "canonical (PBool b) = JBool b"
| "canonical (PInt i) = JInt i"
| "canonical (PStr s) = JStr s"
| "canonical (PDec n x) = JStr (str_dec n x)"
| "canonical (PDate d) = JStr (date_iso d)"
| "canonical (PDateTime t) = JStr (utc_iso (utc_instant t))"
| "canonical (PList vs) = JList (map canonical vs)"
| "canonical (PDict kvs) = JObj (sort_key fst (map (map_prod id canonical) kvs))"

text \<open>A naive datetime counts as UTC, and the offset an aware one is written with is invisible.\<close>

lemma canonical_datetime_zone:
  "utc_instant s = utc_instant t \<Longrightarrow> canonical (PDateTime s) = canonical (PDateTime t)"
  by simp

text \<open>The blob hashed for a row: its chained fields, and the previous hash under \<open>__prev\<close>.\<close>

definition chain_blob :: "string \<Rightarrow> (string \<times> json) list \<Rightarrow> string" where
  "chain_blob prev flds = dumps (JObj (flds @ [(''__prev'', JStr prev)]))"

definition compute_hash :: "(string \<Rightarrow> string) \<Rightarrow> string \<Rightarrow> (string \<times> json) list \<Rightarrow> string res" where
  "compute_hash sha prev flds =
     raise_if (prev = []) (ValueError (Msg ''prev_hash must be a non-empty string'' []))
       (Inr (sha (chain_blob prev flds)))"

section \<open>The three entry hashes\<close>

record ledger_fields =
  lf_event_type :: string
  lf_actor_user_id :: string
  lf_occurred_at :: instant
  lf_ref_type :: string
  lf_ref_id :: string
  lf_payload :: pyval

definition ledger_chained :: "ledger_fields \<Rightarrow> (string \<times> json) list" where
  "ledger_chained f =
     [(''event_type'', JStr (lf_event_type f)),
      (''actor_user_id'', JStr (lf_actor_user_id f)),
      (''occurred_at'', canonical (PDateTime (utc_datetime (lf_occurred_at f)))),
      (''ref_type'', JStr (lf_ref_type f)),
      (''ref_id'', JStr (lf_ref_id f)),
      (''payload'', canonical (lf_payload f))]"

definition compute_ledger_entry_hash ::
    "(string \<Rightarrow> string) \<Rightarrow> string \<Rightarrow> ledger_fields \<Rightarrow> string res" where
  "compute_ledger_entry_hash sha prev f = compute_hash sha prev (ledger_chained f)"

definition ledger_row_fields :: "inventory_ledger \<Rightarrow> ledger_fields" where
  "ledger_row_fields r =
     \<lparr>lf_event_type = il_event_type r, lf_actor_user_id = il_actor_user_id r,
      lf_occurred_at = il_occurred_at r, lf_ref_type = il_ref_type r,
      lf_ref_id = il_ref_id r, lf_payload = il_payload r\<rparr>"

definition auth_chained :: "auth_audit_log \<Rightarrow> (string \<times> json) list" where
  "auth_chained r =
     [(''event_type'', JStr (aa_event_type r)),
      (''occurred_at'', canonical (PDateTime (utc_datetime (aa_occurred_at r)))),
      (''user_id'', canonical (popt (aa_user_id r))),
      (''claimed_email'', canonical (popt (aa_claimed_email r))),
      (''client_ip'', canonical (popt (aa_client_ip r))),
      (''user_agent'', canonical (popt (aa_user_agent r))),
      (''detail'', canonical (popt (aa_detail r)))]"

definition compute_auth_entry_hash ::
    "(string \<Rightarrow> string) \<Rightarrow> string \<Rightarrow> auth_audit_log \<Rightarrow> string res" where
  "compute_auth_entry_hash sha prev r = compute_hash sha prev (auth_chained r)"

record gl_header =
  hd_entry_no :: string
  hd_entry_date :: date
  hd_memo :: string
  hd_source_type :: string
  hd_source_id :: "string option"
  hd_reverses_entry_id :: "string option"
  hd_actor_user_id :: string
  hd_occurred_at :: instant

record gl_line_fields =
  lh_account_id :: string
  lh_money_debit :: dec
  lh_money_credit :: dec
  lh_currency :: string
  lh_fx_rate :: dec
  lh_base_debit :: dec
  lh_base_credit :: dec
  lh_metal_debit_grams :: dec
  lh_metal_credit_grams :: dec
  lh_karat :: "string option"
  lh_memo :: string

definition gl_line_json :: "gl_line_fields \<Rightarrow> json" where
  "gl_line_json l = JObj
     [(''account_id'', JStr (lh_account_id l)),
      (''money_debit'', canonical (PDec 2 (lh_money_debit l))),
      (''money_credit'', canonical (PDec 2 (lh_money_credit l))),
      (''currency'', JStr (lh_currency l)),
      (''fx_rate'', canonical (PDec 6 (lh_fx_rate l))),
      (''base_debit'', canonical (PDec 2 (lh_base_debit l))),
      (''base_credit'', canonical (PDec 2 (lh_base_credit l))),
      (''metal_debit_grams'', canonical (PDec 3 (lh_metal_debit_grams l))),
      (''metal_credit_grams'', canonical (PDec 3 (lh_metal_credit_grams l))),
      (''karat'', canonical (popt (lh_karat l))),
      (''memo'', JStr (lh_memo l))]"

definition gl_chained :: "gl_header \<times> gl_line_fields list \<Rightarrow> (string \<times> json) list" where
  "gl_chained hl = (case hl of (h, ls) \<Rightarrow>
     [(''entry_no'', JStr (hd_entry_no h)),
      (''entry_date'', canonical (PDate (hd_entry_date h))),
      (''memo'', JStr (hd_memo h)),
      (''source_type'', JStr (hd_source_type h)),
      (''source_id'', canonical (popt (hd_source_id h))),
      (''reverses_entry_id'', canonical (popt (hd_reverses_entry_id h))),
      (''actor_user_id'', JStr (hd_actor_user_id h)),
      (''occurred_at'', canonical (PDateTime (utc_datetime (hd_occurred_at h)))),
      (''lines'', JList (map gl_line_json ls))])"

definition compute_gl_entry_hash ::
    "(string \<Rightarrow> string) \<Rightarrow> string \<Rightarrow> gl_header \<Rightarrow> gl_line_fields list \<Rightarrow> string res" where
  "compute_gl_entry_hash sha prev h ls = compute_hash sha prev (gl_chained (h, ls))"

section \<open>Walking a chain\<close>

datatype chain_status = Intact | Broken | EmptyChain

record chain_break =
  cb_id :: string
  cb_expected_prev_hash :: string
  cb_actual_prev_hash :: string
  cb_expected_entry_hash :: string
  cb_actual_entry_hash :: string

record chain_report =
  cr_status :: chain_status
  cr_total_rows :: nat
  cr_first_break :: "chain_break option"

text \<open>
  The loop the three verifications share: \<open>expected\<close> is \<open>expected_prev\<close>, \<open>n\<close> the rows
  seen, \<open>recompute\<close> the row's own hash over its own \<open>prev_hash\<close>.
\<close>

fun walk_chain ::
    "('r \<Rightarrow> string) \<Rightarrow> ('r \<Rightarrow> string) \<Rightarrow> ('r \<Rightarrow> string) \<Rightarrow> ('r \<Rightarrow> string res) \<Rightarrow>
     string \<Rightarrow> nat \<Rightarrow> 'r list \<Rightarrow> chain_report res" where
  "walk_chain idf prevf hashf recompute expected n [] =
     Inr \<lparr>cr_status = (if 0 < n then Intact else EmptyChain),
          cr_total_rows = n, cr_first_break = None\<rparr>"
| "walk_chain idf prevf hashf recompute expected n (r # rs) =
     bnd (recompute r) (\<lambda>h.
       if prevf r \<noteq> expected \<or> hashf r \<noteq> h
       then Inr \<lparr>cr_status = Broken, cr_total_rows = Suc n,
                 cr_first_break = Some
                   \<lparr>cb_id = idf r, cb_expected_prev_hash = expected,
                    cb_actual_prev_hash = prevf r, cb_expected_entry_hash = h,
                    cb_actual_entry_hash = hashf r\<rparr>\<rparr>
       else walk_chain idf prevf hashf recompute (hashf r) (Suc n) rs)"

definition verify_chain :: "(string \<Rightarrow> string) \<Rightarrow> inventory_ledger list \<Rightarrow> chain_report res" where
  "verify_chain sha =
     walk_chain il_id il_prev_hash il_entry_hash
       (\<lambda>r. compute_ledger_entry_hash sha (il_prev_hash r) (ledger_row_fields r)) GENESIS_HASH 0"

definition verify_auth_chain :: "(string \<Rightarrow> string) \<Rightarrow> auth_audit_log list \<Rightarrow> chain_report res" where
  "verify_auth_chain sha =
     walk_chain aa_id aa_prev_hash aa_entry_hash
       (\<lambda>r. compute_auth_entry_hash sha (aa_prev_hash r) r) GENESIS_HASH 0"

text \<open>A GL row comes with its ordered lines.\<close>

definition entry_header :: "gl_journal_entry \<Rightarrow> gl_header" where
  "entry_header e =
     \<lparr>hd_entry_no = je_entry_no e, hd_entry_date = je_entry_date e, hd_memo = je_memo e,
      hd_source_type = je_source_type e, hd_source_id = je_source_id e,
      hd_reverses_entry_id = je_reverses_entry_id e, hd_actor_user_id = je_actor_user_id e,
      hd_occurred_at = je_occurred_at e\<rparr>"

definition line_fields :: "gl_journal_line \<Rightarrow> gl_line_fields" where
  "line_fields l =
     \<lparr>lh_account_id = jl_account_id l, lh_money_debit = jl_money_debit l,
      lh_money_credit = jl_money_credit l, lh_currency = jl_currency l, lh_fx_rate = jl_fx_rate l,
      lh_base_debit = jl_base_debit l, lh_base_credit = jl_base_credit l,
      lh_metal_debit_grams = jl_metal_debit_grams l, lh_metal_credit_grams = jl_metal_credit_grams l,
      lh_karat = jl_karat l, lh_memo = jl_memo l\<rparr>"

type_synonym gl_row = "gl_journal_entry \<times> gl_line_fields list"

definition verify_gl_chain :: "(string \<Rightarrow> string) \<Rightarrow> gl_row list \<Rightarrow> chain_report res" where
  "verify_gl_chain sha =
     walk_chain (je_id \<circ> fst) (je_prev_hash \<circ> fst) (je_entry_hash \<circ> fst)
       (\<lambda>r. compute_gl_entry_hash sha (je_prev_hash (fst r)) (entry_header (fst r)) (snd r))
       GENESIS_HASH 0"

section \<open>What a chain of hashes gives\<close>

text \<open>
  The contract of one of the three chains: a row stores a previous hash and an entry
  hash, and its hash is recomputed as \<open>sha\<close> of the blob over its chained fields; an
  empty previous hash is refused.
\<close>

locale hash_chain =
  fixes idf prevf hashf :: "'r \<Rightarrow> string"
    and recompute :: "'r \<Rightarrow> string res"
    and sha :: "string \<Rightarrow> string"
    and flds :: "'r \<Rightarrow> (string \<times> json) list"
    and facts :: "'r \<Rightarrow> 'f"
  assumes recompute_ok: "prevf r \<noteq> [] \<Longrightarrow> recompute r = Inr (sha (chain_blob (prevf r) (flds r)))"
    and recompute_empty: "prevf r = [] \<Longrightarrow> \<exists>e. recompute r = Inl e"
    and blob_facts: "chain_blob (prevf r) (flds r) = chain_blob (prevf s) (flds s)
      \<Longrightarrow> prevf r = prevf s \<and> facts r = facts s"
begin

text \<open>Row by row: each row names its predecessor's hash and carries its own.\<close>

fun linked :: "string \<Rightarrow> 'r list \<Rightarrow> bool" where
  "linked p [] \<longleftrightarrow> True"
| "linked p (r # rs) \<longleftrightarrow>
     prevf r = p \<and> p \<noteq> [] \<and> hashf r = sha (chain_blob p (flds r)) \<and> linked (hashf r) rs"

abbreviation last_hash :: "string \<Rightarrow> 'r list \<Rightarrow> string" where
  "last_hash p rs \<equiv> (if rs = [] then p else hashf (last rs))"

lemma linked_append:
  "linked p (rs @ ss) \<longleftrightarrow> linked p rs \<and> linked (last_hash p rs) ss"
  by (induction rs arbitrary: p) auto

lemma walk_linked:
  "linked p rs \<Longrightarrow> walk_chain idf prevf hashf recompute p n rs =
     Inr \<lparr>cr_status = (if 0 < n + length rs then Intact else EmptyChain),
          cr_total_rows = n + length rs, cr_first_break = None\<rparr>"
  by (induction rs arbitrary: p n) (auto simp: recompute_ok)

lemma walk_intact:
  assumes "walk_chain idf prevf hashf recompute p n rs = Inr rep" "cr_status rep \<noteq> Broken"
  shows "linked p rs"
  using assms
proof (induction rs arbitrary: p n)
  case (Cons r rs)
  then obtain h where "recompute r = Inr h" by (auto simp: bnd_eq_Inr)
  moreover from this have "prevf r \<noteq> []" using recompute_empty [of r] by auto
  ultimately show ?case using Cons by (auto simp: recompute_ok split: if_splits)
qed simp

lemma walk_iff:
  "(\<exists>rep. walk_chain idf prevf hashf recompute p 0 rs = Inr rep \<and> cr_status rep \<noteq> Broken)
     \<longleftrightarrow> linked p rs"
  using walk_linked [of p rs 0] walk_intact [of p 0 rs] by force

text \<open>A row that does not fit is reported, with its position, as the first break.\<close>

lemma walk_first_break:
  assumes "linked p rs" and "recompute r = Inr h"
    and "prevf r \<noteq> last_hash p rs \<or> hashf r \<noteq> h"
  shows "walk_chain idf prevf hashf recompute p n (rs @ r # ss) =
    Inr \<lparr>cr_status = Broken, cr_total_rows = Suc (n + length rs),
         cr_first_break = Some
           \<lparr>cb_id = idf r, cb_expected_prev_hash = last_hash p rs,
            cb_actual_prev_hash = prevf r, cb_expected_entry_hash = h,
            cb_actual_entry_hash = hashf r\<rparr>\<rparr>"
  using assms
proof (induction rs arbitrary: p n)
  case (Cons a as)
  then show ?case by (cases "as = []") (auto simp: recompute_ok)
qed simp

text \<open>
  Tamper evidence: two intact chains of the same length with the same final hash hold
  the same facts, row by row, unless two of the hashed blobs collide.
\<close>

definition blobs :: "'r list \<Rightarrow> string set" where
  "blobs rs = (\<lambda>r. chain_blob (prevf r) (flds r)) ` set rs"

lemma linked_same_facts:
  assumes "length rs = length ss" and "linked p rs" and "linked q ss"
    and "last_hash p rs = last_hash q ss"
    and "inj_on sha (blobs rs \<union> blobs ss)"
  shows "map facts rs = map facts ss"
  using assms
proof (induction rs arbitrary: ss rule: rev_induct)
  case (snoc r rs)
  obtain s ss' where ss: "ss = ss' @ [s]"
    using snoc.prems(1) by (cases ss rule: rev_cases) auto
  have r: "linked p rs" "prevf r = last_hash p rs" "hashf r = sha (chain_blob (prevf r) (flds r))"
    using snoc.prems(2) by (auto simp: linked_append split: if_splits)
  have s: "linked q ss'" "prevf s = last_hash q ss'" "hashf s = sha (chain_blob (prevf s) (flds s))"
    using snoc.prems(3) by (auto simp: ss linked_append split: if_splits)
  have "sha (chain_blob (prevf r) (flds r)) = sha (chain_blob (prevf s) (flds s))"
    using snoc.prems(4) r(3) s(3) by (simp add: ss)
  then have "chain_blob (prevf r) (flds r) = chain_blob (prevf s) (flds s)"
    by (rule inj_onD [OF snoc.prems(5)]) (simp_all add: blobs_def ss)
  then have b: "prevf r = prevf s" "facts r = facts s" using blob_facts by blast+
  have "inj_on sha (blobs rs \<union> blobs ss')"
    by (rule inj_on_subset [OF snoc.prems(5)]) (auto simp: blobs_def ss)
  with snoc.IH [of ss'] snoc.prems(1) r s b have "map facts rs = map facts ss'" by (simp add: ss)
  with b show ?case by (simp add: ss)
qed simp

end

section \<open>The three chains meet the contract\<close>

text \<open>Blobs over the same distinct keys are equal only if the values are, up to key order inside them.\<close>

lemma chain_blob_inj:
  assumes "chain_blob p f = chain_blob q g" "map fst f = map fst g"
    "distinct (map fst f)" "''__prev'' \<notin> set (map fst f)"
  shows "p = q \<and> map (map_prod id jsort) f = map (map_prod id jsort) g"
proof -
  let ?js = "map (map_prod id jsort)"
  have "sort_key fst (?js (f @ [(''__prev'', JStr p)])) = sort_key fst (?js (g @ [(''__prev'', JStr q)]))"
    using assms(1) unfolding chain_blob_def dumps_unambiguous jsort.simps by simp
  then have "?js (f @ [(''__prev'', JStr p)]) = ?js (g @ [(''__prev'', JStr q)])"
  proof (rule sort_key_fst_inj)
    show "map fst (?js (f @ [(''__prev'', JStr p)])) = map fst (?js (g @ [(''__prev'', JStr q)]))"
      using assms(2) by (simp add: comp_def)
    show "distinct (map fst (?js (f @ [(''__prev'', JStr p)])))"
      using assms(3,4) by (simp add: comp_def)
  qed
  then show ?thesis by simp
qed

lemma sort_key_sorted: "sorted (map f xs) \<Longrightarrow> sort_key f xs = xs"
  by (induction xs) (auto simp: insort_is_Cons)

lemma jsort_canonical: "jsort (canonical v) = canonical v"
proof (induction v)
  case (PDict kvs)
  then have "map (map_prod id jsort) (map (map_prod id canonical) kvs) = map (map_prod id canonical) kvs"
    by (auto simp: prod_set_defs)
  then have "map (map_prod id jsort) (sort_key fst (map (map_prod id canonical) kvs))
      = sort_key fst (map (map_prod id canonical) kvs)"
    by (simp only: sort_key_map_prod [symmetric])
  then show ?case by (simp add: sort_key_sorted)
qed (simp_all add: map_idI)

text \<open>The facts a row's hash covers.\<close>

definition ledger_facts :: "inventory_ledger \<Rightarrow> (string \<times> json) list" where
  "ledger_facts r = ledger_chained (ledger_row_fields r)"

definition gl_facts :: "gl_row \<Rightarrow> (string \<times> json) list" where
  "gl_facts r = gl_chained (entry_header (fst r), snd r)"

lemma jsort_gl_line_json: "jsort (gl_line_json l) = jsort (gl_line_json m) \<Longrightarrow> gl_line_json l = gl_line_json m"
proof -
  assume e: "jsort (gl_line_json l) = jsort (gl_line_json m)"
  obtain ps qs where pq: "gl_line_json l = JObj ps" "gl_line_json m = JObj qs"
    and k: "map fst ps = map fst qs" "distinct (map fst ps)"
    and js: "map (map_prod id jsort) ps = ps" "map (map_prod id jsort) qs = qs"
    by (simp add: gl_line_json_def jsort_canonical popt_def split: option.splits)
  have "ps = qs" by (rule sort_key_fst_inj [OF _ k]) (use e in \<open>simp add: pq js\<close>)
  then show ?thesis by (simp add: pq)
qed

lemma map_jsort_lines:
  "map (\<lambda>l. jsort (gl_line_json l)) ls = map (\<lambda>l. jsort (gl_line_json l)) ms
    \<Longrightarrow> map gl_line_json ls = map gl_line_json ms"
proof (induction ls arbitrary: ms)
  case (Cons l ls)
  then obtain m ms' where m: "ms = m # ms'" "jsort (gl_line_json l) = jsort (gl_line_json m)"
    and t: "map (\<lambda>l. jsort (gl_line_json l)) ls = map (\<lambda>l. jsort (gl_line_json l)) ms'"
    by (cases ms) simp_all
  show ?case using jsort_gl_line_json [OF m(2)] Cons.IH [OF t] by (simp add: m(1))
qed simp

interpretation lc: hash_chain il_id il_prev_hash il_entry_hash
  "\<lambda>r. compute_ledger_entry_hash sha (il_prev_hash r) (ledger_row_fields r)" sha ledger_facts ledger_facts
  for sha
proof
  show "il_prev_hash r = il_prev_hash s \<and> ledger_facts r = ledger_facts s"
    if "chain_blob (il_prev_hash r) (ledger_facts r) = chain_blob (il_prev_hash s) (ledger_facts s)" for r s
  proof -
    note chain_blob_inj [OF that]
    then show ?thesis
      by (simp add: ledger_facts_def ledger_chained_def jsort_canonical)
  qed
qed (simp_all add: compute_ledger_entry_hash_def compute_hash_def ledger_facts_def)

interpretation ac: hash_chain aa_id aa_prev_hash aa_entry_hash
  "\<lambda>r. compute_auth_entry_hash sha (aa_prev_hash r) r" sha auth_chained auth_chained
  for sha
proof
  show "aa_prev_hash r = aa_prev_hash s \<and> auth_chained r = auth_chained s"
    if "chain_blob (aa_prev_hash r) (auth_chained r) = chain_blob (aa_prev_hash s) (auth_chained s)" for r s
  proof -
    note chain_blob_inj [OF that]
    then show ?thesis by (simp add: auth_chained_def jsort_canonical)
  qed
qed (simp_all add: compute_auth_entry_hash_def compute_hash_def)

interpretation gc: hash_chain "je_id \<circ> fst" "je_prev_hash \<circ> fst" "je_entry_hash \<circ> fst"
  "\<lambda>r. compute_gl_entry_hash sha (je_prev_hash (fst r)) (entry_header (fst r)) (snd r)" sha gl_facts gl_facts
  for sha
proof
  show "(je_prev_hash \<circ> fst) r = (je_prev_hash \<circ> fst) s \<and> gl_facts r = gl_facts s"
    if "chain_blob ((je_prev_hash \<circ> fst) r) (gl_facts r) = chain_blob ((je_prev_hash \<circ> fst) s) (gl_facts s)" for r s
  proof -
    note chain_blob_inj [OF that]
    then show ?thesis
      by (auto simp: gl_facts_def gl_chained_def jsort_canonical comp_def dest: map_jsort_lines)
  qed
qed (simp_all add: compute_gl_entry_hash_def compute_hash_def gl_facts_def)

lemma verify_chain_iff:
  "(\<exists>rep. verify_chain sha rows = Inr rep \<and> cr_status rep \<noteq> Broken) \<longleftrightarrow> lc.linked sha GENESIS_HASH rows"
  unfolding verify_chain_def by (rule lc.walk_iff)

lemma verify_gl_chain_iff:
  "(\<exists>rep. verify_gl_chain sha rows = Inr rep \<and> cr_status rep \<noteq> Broken) \<longleftrightarrow> gc.linked sha GENESIS_HASH rows"
  unfolding verify_gl_chain_def by (rule gc.walk_iff)

end
