(* ===== verification/Ledger.thy ===== *)
theory Ledger
  imports AuditChain
begin

text \<open>
  \<open>app/core/ledger.py\<close>: the hash-chained inventory ledger. \<open>ledger_record\<close> is
  \<open>record()\<close>, the only writer of the log; every component that changes inventory or
  accounting state calls it inside the same transaction. The FOR UPDATE lock of
  \<open>lock_head\<close> serialises transactions, so one call sees the head the previous one left.
\<close>

section \<open>Event types\<close>

definition EVENT_LOT_CONSUMED :: string where "EVENT_LOT_CONSUMED = ''LOT_CONSUMED''"
definition EVENT_LOT_DEPLETED :: string where "EVENT_LOT_DEPLETED = ''LOT_DEPLETED''"
definition EVENT_GL_ENTRY_POSTED :: string where "EVENT_GL_ENTRY_POSTED = ''GL_ENTRY_POSTED''"
definition EVENT_GL_PERIOD_CLOSED :: string where "EVENT_GL_PERIOD_CLOSED = ''GL_PERIOD_CLOSED''"
definition EVENT_GL_PERIOD_REOPENED :: string where "EVENT_GL_PERIOD_REOPENED = ''GL_PERIOD_REOPENED''"
definition EVENT_GL_YEAR_CLOSED :: string where "EVENT_GL_YEAR_CLOSED = ''GL_YEAR_CLOSED''"
definition EVENT_GL_ACCOUNT_CREATED :: string where "EVENT_GL_ACCOUNT_CREATED = ''GL_ACCOUNT_CREATED''"
definition EVENT_GL_ACCOUNT_UPDATED :: string where "EVENT_GL_ACCOUNT_UPDATED = ''GL_ACCOUNT_UPDATED''"
definition EVENT_SALE_ON_STALE_RATE_ACK :: string where
  "EVENT_SALE_ON_STALE_RATE_ACK = ''SALE_ON_STALE_RATE_ACK''"

section \<open>Field differences\<close>

text \<open>Python's \<open>==\<close> on the values of a settings or staff row: numbers compare by value.\<close>

fun num_value :: "pyval \<Rightarrow> rat option" where
  "num_value (PBool b) = Some (if b then 1 else 0)"
| "num_value (PInt i) = Some (of_int i)"
| "num_value (PDec n x) = Some x"
| "num_value _ = None"

definition py_eq :: "pyval \<Rightarrow> pyval \<Rightarrow> bool" where
  "py_eq a b = (case (num_value a, num_value b) of
      (Some x, Some y) \<Rightarrow> x = y
    | _ \<Rightarrow> a = b)"

fun normalize_value :: "pyval \<Rightarrow> pyval" where
  "normalize_value (PDate d) = PStr (date_iso d)"
| "normalize_value (PDateTime t) = PStr (utc_iso (utc_instant t))"
| "normalize_value (PDec n x) = PStr (str_dec n x)"
| "normalize_value v = v"

definition dict_get :: "(string \<times> pyval) list \<Rightarrow> string \<Rightarrow> pyval" where
  "dict_get m k = (case map_of m k of None \<Rightarrow> PNone | Some v \<Rightarrow> v)"

definition field_diff ::
    "(string \<times> pyval) list \<Rightarrow> (string \<times> pyval) list \<Rightarrow> (string \<times> pyval) list" where
  "field_diff before after =
     map (\<lambda>k. (k, PDict [(''from'', normalize_value (dict_get before k)),
                        (''to'', normalize_value (dict_get after k))]))
       (filter (\<lambda>k. \<not> py_eq (dict_get before k) (dict_get after k))
         (remdups (map fst before @ map fst after)))"

lemma field_diff_keys:
  "k \<in> set (map fst (field_diff b a)) \<longleftrightarrow>
     k \<in> set (map fst b) \<union> set (map fst a) \<and> \<not> py_eq (dict_get b k) (dict_get a k)"
  by (force simp: field_diff_def)

section \<open>Appending\<close>

definition lock_head :: "db \<Rightarrow> chain_head" where
  "lock_head d = inv_head d"

definition ledger_record ::
    "(string \<Rightarrow> string) \<Rightarrow> string \<Rightarrow> string \<Rightarrow> string \<Rightarrow> string \<Rightarrow> pyval \<Rightarrow> db
     \<Rightarrow> (inventory_ledger \<times> db) res" where
  "ledger_record sha event_type actor ref_type ref_id payload d =
     (let head = lock_head d;
          (occurred_at, d) = read_clock d;
          f = \<lparr>lf_event_type = event_type, lf_actor_user_id = actor, lf_occurred_at = occurred_at,
               lf_ref_type = ref_type, lf_ref_id = ref_id, lf_payload = payload\<rparr>
      in bnd (compute_ledger_entry_hash sha (latest_entry_hash head) f) (\<lambda>h.
        raise_if (h \<in> set (map il_entry_hash (inv_ledger d))) (IntegrityError ''inventory_ledger.entry_hash'')
          (let (i, d) = fresh_uid d;
               entry = \<lparr>il_id = i, il_event_type = event_type, il_actor_user_id = actor,
                        il_occurred_at = occurred_at, il_ref_type = ref_type, il_ref_id = ref_id,
                        il_payload = payload, il_prev_hash = latest_entry_hash head, il_entry_hash = h\<rparr>
           in Inr (entry, d\<lparr>inv_ledger := inv_ledger d @ [entry],
                            inv_head := \<lparr>latest_entry_hash = h, row_count = Suc (row_count head)\<rparr>\<rparr>))))"

text \<open>What one call changes, and nothing else: one row, the head, one fresh key, one clock reading.\<close>

lemma ledger_record_frame:
  assumes "ledger_record sha ev ac rt ri p d = Inr (r, d')"
  shows "d' = d\<lparr>clock := clock d + 1, uid_next := Suc (uid_next d), inv_ledger := inv_ledger d @ [r], inv_head := inv_head d'\<rparr>"
    and "il_event_type r = ev" "il_actor_user_id r = ac" "il_ref_type r = rt" "il_ref_id r = ri"
    and "il_payload r = p" "il_occurred_at r = clock d" "il_id r = uid (uid_next d)"
  using assms
  by (auto simp: ledger_record_def Let_def fresh_uid_def read_clock_def lock_head_def res_simps split: if_splits)

lemma ledger_record_hash:
  assumes "ledger_record sha ev ac rt ri p d = Inr (r, d')"
  shows "il_prev_hash r = latest_entry_hash (inv_head d)" "latest_entry_hash (inv_head d) \<noteq> []"
    and "il_entry_hash r = sha (chain_blob (il_prev_hash r) (ledger_facts r))"
    and "inv_head d' = \<lparr>latest_entry_hash = il_entry_hash r, row_count = Suc (row_count (inv_head d))\<rparr>"
  using assms
  by (auto simp: ledger_record_def Let_def fresh_uid_def read_clock_def lock_head_def res_simps
      compute_ledger_entry_hash_def compute_hash_def ledger_facts_def ledger_row_fields_def)

text \<open>The head row agrees with the rows: it holds the last hash and their number.\<close>

definition ledger_ok :: "(string \<Rightarrow> string) \<Rightarrow> db \<Rightarrow> bool" where
  "ledger_ok sha d \<longleftrightarrow> lc.linked sha GENESIS_HASH (inv_ledger d)
     \<and> latest_entry_hash (inv_head d)
        = (if inv_ledger d = [] then GENESIS_HASH else il_entry_hash (last (inv_ledger d)))
     \<and> row_count (inv_head d) = length (inv_ledger d)"

lemma ledger_ok_empty: "ledger_ok sha (empty_db t)"
  by (simp add: ledger_ok_def empty_db_def)

lemma ledger_record_ok:
  assumes "ledger_record sha ev ac rt ri p d = Inr (r, d')" "ledger_ok sha d"
  shows "ledger_ok sha d'"
  using ledger_record_hash [OF assms(1)] ledger_record_frame(1) [OF assms(1)] assms(2)
  by (cases d') (simp add: ledger_ok_def lc.linked_append)

text \<open>
  Operations that leave the log alone leave \<open>ledger_ok\<close> alone.
\<close>

lemma ledger_ok_cong:
  "inv_ledger d' = inv_ledger d \<Longrightarrow> inv_head d' = inv_head d \<Longrightarrow> ledger_ok sha d' = ledger_ok sha d"
  by (simp add: ledger_ok_def)

end
