(* ===== verification/GL.thy ===== *)
theory GL
  imports Ledger
begin

text \<open>
  The posting engine of \<open>app/core/gl.py\<close>: validation, period and account resolution,
  entry numbers, duplicate refusal, posting and reversal. A proposed line is the
  \<open>GLLine\<close> dataclass; a posting request is the argument list of \<open>post_entry\<close>.
\<close>

definition SOURCE_MANUAL :: string where "SOURCE_MANUAL = ''MANUAL''"
definition SOURCE_OPENING :: string where "SOURCE_OPENING = ''OPENING''"
definition SOURCE_REVERSAL :: string where "SOURCE_REVERSAL = ''REVERSAL''"
definition SOURCE_YEAR_CLOSE :: string where "SOURCE_YEAR_CLOSE = ''YEAR_CLOSE''"

section \<open>Lines and their validation\<close>

text \<open>\<open>denomination = ""\<close> (not yet resolved) is \<open>None\<close>.\<close>

record gl_line =
  ln_account_id :: string
  ln_denomination :: "denomination option"
  ln_base_debit :: dec
  ln_base_credit :: dec
  ln_money_debit :: dec
  ln_money_credit :: dec
  ln_currency :: string
  ln_fx_rate :: dec
  ln_metal_debit_grams :: dec
  ln_metal_credit_grams :: dec
  ln_karat :: "string option"
  ln_memo :: string

text \<open>A line with the dataclass defaults.\<close>

definition GLLine :: "string \<Rightarrow> denomination option \<Rightarrow> string \<Rightarrow> gl_line" where
  "GLLine acc den memo =
     \<lparr>ln_account_id = acc, ln_denomination = den, ln_base_debit = 0, ln_base_credit = 0,
      ln_money_debit = 0, ln_money_credit = 0, ln_currency = ''USD'', ln_fx_rate = 1,
      ln_metal_debit_grams = 0, ln_metal_credit_grams = 0, ln_karat = None, ln_memo = memo\<rparr>"

definition has_money :: "gl_line \<Rightarrow> bool" where
  "has_money l \<longleftrightarrow> ln_base_debit l \<noteq> 0 \<or> ln_base_credit l \<noteq> 0
     \<or> ln_money_debit l \<noteq> 0 \<or> ln_money_credit l \<noteq> 0"

definition has_metal :: "gl_line \<Rightarrow> bool" where
  "has_metal l \<longleftrightarrow> ln_metal_debit_grams l \<noteq> 0 \<or> ln_metal_credit_grams l \<noteq> 0"

text \<open>\<open>str(x)\<close> of a karat or \<open>None\<close>, and truth of a karat\<close>

definition karat_str :: "string option \<Rightarrow> string" where
  "karat_str k = (case k of None \<Rightarrow> ''None'' | Some s \<Rightarrow> s)"

definition no_karat :: "gl_line \<Rightarrow> bool" where
  "no_karat l \<longleftrightarrow> ln_karat l = None \<or> ln_karat l = Some []"

definition metal_errors :: "gl_line list \<Rightarrow> detail list" where
  "metal_errors lines =
     concat (map (\<lambda>k.
         let here = filter (\<lambda>l. ln_karat l = Some k) lines;
             kd = sum_of ln_metal_debit_grams here; kc = sum_of ln_metal_credit_grams here
         in if kd \<noteq> kc
            then [Msg ''metal dimension unbalanced for {}: debit grams {} != credit grams {}''
                    [AStr k, ADec kd, ADec kc]]
            else [])
       (sort (remdups (map (\<lambda>l. karat_str (ln_karat l)) (filter has_metal lines)))))"

definition line_errors :: "gl_line \<Rightarrow> detail list" where
  "line_errors l =
     (if ln_denomination l = Some MONEY \<and> has_metal l
      then [Msg ''MONEY account {} cannot carry a metal component'' [AStr (ln_account_id l)]] else [])
     @ (if ln_denomination l = Some METAL \<and> has_money l
        then [Msg ''METAL account {} cannot carry a money component'' [AStr (ln_account_id l)]] else [])
     @ (if has_metal l \<and> no_karat l
        then [Msg ''metal line on {} requires a karat'' [AStr (ln_account_id l)]] else [])"

definition validate_balanced :: "gl_line list \<Rightarrow> detail list" where
  "validate_balanced lines =
     (if lines = [] then [Msg ''at least one line is required'' []]
      else
        (let md = sum_of ln_base_debit lines; mc = sum_of ln_base_credit lines in
           if md \<noteq> mc
           then [Msg ''money dimension unbalanced: base debits {} != base credits {}'' [ADec md, ADec mc]]
           else [])
        @ metal_errors lines @ concat (map line_errors lines))"

text \<open>
  What a balanced set of lines is: the design rule the module states. Both dimensions
  are asked of every karat, not only of those the code enumerates.
\<close>

definition balanced :: "gl_line list \<Rightarrow> bool" where
  "balanced lines \<longleftrightarrow>
     sum_of ln_base_debit lines = sum_of ln_base_credit lines \<and>
     (\<forall>k. sum_of ln_metal_debit_grams (filter (\<lambda>l. ln_karat l = k) lines)
        = sum_of ln_metal_credit_grams (filter (\<lambda>l. ln_karat l = k) lines))"

definition line_fits :: "gl_line \<Rightarrow> bool" where
  "line_fits l \<longleftrightarrow> (ln_denomination l = Some MONEY \<longrightarrow> \<not> has_metal l)
     \<and> (ln_denomination l = Some METAL \<longrightarrow> \<not> has_money l)
     \<and> (has_metal l \<longrightarrow> \<not> no_karat l)"

lemma line_errors_Nil: "line_errors l = [] \<longleftrightarrow> line_fits l"
  by (auto simp: line_errors_def line_fits_def)

lemma metal_errors_Nil:
  "metal_errors lines = [] \<longleftrightarrow>
     (\<forall>l \<in> set lines. has_metal l \<longrightarrow>
        (let here = filter (\<lambda>m. ln_karat m = Some (karat_str (ln_karat l))) lines
         in sum_of ln_metal_debit_grams here = sum_of ln_metal_credit_grams here))"
  by (auto simp: metal_errors_def Let_def)

lemma no_metal_sum:
  assumes "\<And>l. l \<in> set lines \<Longrightarrow> P l \<Longrightarrow> \<not> has_metal l"
  shows "sum_of ln_metal_debit_grams (filter P lines) = 0"
    and "sum_of ln_metal_credit_grams (filter P lines) = 0"
  using assms by (auto intro!: sum_of_zero simp: has_metal_def)

lemma validate_balanced_iff:
  "validate_balanced lines = [] \<longleftrightarrow> lines \<noteq> [] \<and> balanced lines \<and> (\<forall>l \<in> set lines. line_fits l)"
proof (cases "lines \<noteq> [] \<and> (\<forall>l \<in> set lines. line_fits l)")
  case True
  then have kar: "ln_karat l = Some (karat_str (ln_karat l))" if "l \<in> set lines" "has_metal l" for l
    using that by (auto simp: line_fits_def no_karat_def karat_str_def split: option.splits)
  have "metal_errors lines = [] \<longleftrightarrow>
      (\<forall>k. sum_of ln_metal_debit_grams (filter (\<lambda>l. ln_karat l = k) lines)
        = sum_of ln_metal_credit_grams (filter (\<lambda>l. ln_karat l = k) lines))" (is "?l \<longleftrightarrow> ?r")
  proof
    assume l: ?l
    show ?r
    proof
      fix k
      show "sum_of ln_metal_debit_grams (filter (\<lambda>l. ln_karat l = k) lines)
        = sum_of ln_metal_credit_grams (filter (\<lambda>l. ln_karat l = k) lines)"
      proof (cases "\<exists>l \<in> set lines. ln_karat l = k \<and> has_metal l")
        case True
        then show ?thesis using l kar by (auto simp: metal_errors_Nil Let_def)
      next
        case False
        then show ?thesis using no_metal_sum [of lines "\<lambda>l. ln_karat l = k"] by auto
      qed
    qed
  qed (simp add: metal_errors_Nil Let_def)
  with True show ?thesis
    by (auto simp: validate_balanced_def Let_def balanced_def line_errors_Nil)
next
  case False
  then show ?thesis by (auto simp: validate_balanced_def Let_def line_errors_Nil)
qed

section \<open>Periods, entry numbers, accounts\<close>

definition resolve_open_period :: "db \<Rightarrow> date \<Rightarrow> bool \<Rightarrow> gl_period res" where
  "resolve_open_period d entry_date allow_closed =
     bnd (scalar_one_or_none (\<lambda>p. per_year p = d_year entry_date \<and> per_no p = d_month entry_date)
            (gl_periods d)) (\<lambda>period.
       case period of
         None \<Rightarrow> Inl (HTTPException 422
                  (Msg ''No accounting period for {}-{}. Open it first.''
                     [AInt (d_year entry_date), AInt (d_month entry_date)]))
       | Some p \<Rightarrow>
           raise_if (per_status p \<noteq> PERIOD_OPEN \<and> \<not> allow_closed)
             (HTTPException 422 (Msg ''Accounting period {}-{} is CLOSED.''
                [AInt (d_year entry_date), AInt (d_month entry_date)]))
             (Inr p))"

text \<open>The counter row of a key, created at 0 when missing, then incremented.\<close>

definition bump_seq :: "string \<Rightarrow> db \<Rightarrow> nat \<times> db" where
  "bump_seq key d =
     (let d = (if find (\<lambda>s. seq_day_key s = key) (gl_seqs d) = None
               then d\<lparr>gl_seqs := gl_seqs d @ [\<lparr>seq_day_key = key, seq_last_seq = 0\<rparr>]\<rparr> else d);
          d = d\<lparr>gl_seqs := upd_rows (\<lambda>s. seq_day_key s = key)
                             (\<lambda>s. s\<lparr>seq_last_seq := Suc (seq_last_seq s)\<rparr>) (gl_seqs d)\<rparr>
      in (case find (\<lambda>s. seq_day_key s = key) (gl_seqs d) of None \<Rightarrow> 0 | Some s \<Rightarrow> seq_last_seq s, d))"

definition next_entry_no :: "db \<Rightarrow> date \<Rightarrow> string \<times> db" where
  "next_entry_no d entry_date =
     (let key = day_key entry_date; (n, d) = bump_seq key d
      in (''JE-'' @ key @ ''-'' @ zpad 3 (int n), d))"

definition resolve_line :: "db \<Rightarrow> gl_line \<Rightarrow> gl_line res" where
  "resolve_line d l =
     (case find (\<lambda>a. acc_id a = ln_account_id l) (gl_accounts d) of
        None \<Rightarrow> Inl (HTTPException 422 (Msg ''Unknown GL account {}'' [AStr (ln_account_id l)]))
      | Some a \<Rightarrow>
          raise_if (\<not> acc_is_active a)
            (HTTPException 422 (Msg ''GL account {} is inactive'' [AStr (acc_code a)]))
            (Inr (l\<lparr>ln_denomination := Some (acc_denomination a)\<rparr>)))"

definition resolve_denominations :: "db \<Rightarrow> gl_line list \<Rightarrow> gl_line list res" where
  "resolve_denominations d lines = map_res (resolve_line d) lines"

definition normalize_line_decimals :: "gl_line \<Rightarrow> gl_line" where
  "normalize_line_decimals l =
     l\<lparr>ln_money_debit := q_money (ln_money_debit l),
        ln_money_credit := q_money (ln_money_credit l),
        ln_base_debit := q_money (ln_base_debit l),
        ln_base_credit := q_money (ln_base_credit l),
        ln_fx_rate := q_fx (ln_fx_rate l),
        ln_metal_debit_grams := q_grams (ln_metal_debit_grams l),
        ln_metal_credit_grams := q_grams (ln_metal_credit_grams l)\<rparr>"

definition line_to_hash_dict :: "gl_line \<Rightarrow> gl_line_fields" where
  "line_to_hash_dict l =
     \<lparr>lh_account_id = ln_account_id l, lh_money_debit = ln_money_debit l,
      lh_money_credit = ln_money_credit l, lh_currency = ln_currency l, lh_fx_rate = ln_fx_rate l,
      lh_base_debit = ln_base_debit l, lh_base_credit = ln_base_credit l,
      lh_metal_debit_grams = ln_metal_debit_grams l, lh_metal_credit_grams = ln_metal_credit_grams l,
      lh_karat = ln_karat l, lh_memo = ln_memo l\<rparr>"

section \<open>Duplicates\<close>

definition find_reversal :: "db \<Rightarrow> string \<Rightarrow> gl_journal_entry option" where
  "find_reversal d entry_id = find (\<lambda>e. je_reverses_entry_id e = Some entry_id) (gl_entries d)"

text \<open>The live (forward) entries of a source.\<close>

definition live_for :: "string \<Rightarrow> string \<Rightarrow> gl_journal_entry \<Rightarrow> bool" where
  "live_for st si e \<longleftrightarrow> je_source_type e = st \<and> je_source_id e = Some si \<and> je_reverses_entry_id e = None"

definition refuse_duplicate_posting ::
    "db \<Rightarrow> string \<Rightarrow> string option \<Rightarrow> string option \<Rightarrow> unit res" where
  "refuse_duplicate_posting d source_type source_id reverses_entry_id =
     (case reverses_entry_id of
        Some rid \<Rightarrow>
          (case find_reversal d rid of
             Some existing \<Rightarrow> Inl (HTTPException 409
               (Msg ''This entry has already been reversed by {}.'' [AStr (je_entry_no existing)]))
           | None \<Rightarrow> Inr ())
      | None \<Rightarrow>
          (case source_id of
             None \<Rightarrow> Inr ()
           | Some si \<Rightarrow>
               if source_type \<in> set GL_UNIQUE_LIVE_SOURCE_TYPES
               then (case find (live_for source_type si) (gl_entries d) of
                       Some existing \<Rightarrow> Inl (HTTPException 409
                         (Msg ''A journal entry ({}) has already been posted for this source.''
                            [AStr (je_entry_no existing)]))
                     | None \<Rightarrow> Inr ())
               else Inr ()))"

text \<open>
  The unique indexes of the entries table: the reversal index and the live-source
  index, whose violations \<open>_duplicate_posting_detail\<close> answers with a 409, and the two
  unique columns, whose violation stays an integrity error.
\<close>

definition insert_entry :: "gl_journal_entry \<Rightarrow> db \<Rightarrow> db res" where
  "insert_entry e d =
     raise_if (je_reverses_entry_id e \<noteq> None
               \<and> je_reverses_entry_id e \<in> set (map je_reverses_entry_id (gl_entries d)))
       (HTTPException 409 (Msg ''This entry has already been reversed.'' []))
    (raise_if (je_reverses_entry_id e = None \<and> je_source_type e \<in> set GL_UNIQUE_LIVE_SOURCE_TYPES
               \<and> je_source_id e \<noteq> None
               \<and> (\<exists>f \<in> set (gl_entries d). live_for (je_source_type e) (the (je_source_id e)) f))
       (HTTPException 409 (Msg ''A journal entry has already been posted for this source.'' []))
    (raise_if (je_entry_no e \<in> set (map je_entry_no (gl_entries d)))
       (IntegrityError ''gl_journal_entries.entry_no'')
    (raise_if (je_entry_hash e \<in> set (map je_entry_hash (gl_entries d)))
       (IntegrityError ''gl_journal_entries.entry_hash'')
    (Inr (d\<lparr>gl_entries := gl_entries d @ [e]\<rparr>)))))"

section \<open>Posting\<close>

record post_request =
  pq_entry_date :: date
  pq_memo :: string
  pq_source_type :: string
  pq_source_id :: "string option"
  pq_lines :: "gl_line list"
  pq_actor_user_id :: string
  pq_reverses_entry_id :: "string option"
  pq_occurred_at :: "instant option"
  pq_allow_closed_period :: bool

text \<open>The arguments most callers leave at their defaults.\<close>

definition post_args ::
    "date \<Rightarrow> string \<Rightarrow> string \<Rightarrow> string option \<Rightarrow> gl_line list \<Rightarrow> string \<Rightarrow> post_request" where
  "post_args entry_date memo source_type source_id lines actor =
     \<lparr>pq_entry_date = entry_date, pq_memo = memo, pq_source_type = source_type,
      pq_source_id = source_id, pq_lines = lines, pq_actor_user_id = actor,
      pq_reverses_entry_id = None, pq_occurred_at = None, pq_allow_closed_period = False\<rparr>"

definition mk_line :: "string \<Rightarrow> string \<Rightarrow> nat \<Rightarrow> gl_line \<Rightarrow> gl_journal_line" where
  "mk_line i entry_id n l =
     \<lparr>jl_id = i, jl_entry_id = entry_id, jl_line_no = n, jl_account_id = ln_account_id l,
      jl_money_debit = ln_money_debit l, jl_money_credit = ln_money_credit l,
      jl_currency = ln_currency l, jl_fx_rate = ln_fx_rate l,
      jl_base_debit = ln_base_debit l, jl_base_credit = ln_base_credit l,
      jl_metal_debit_grams = ln_metal_debit_grams l, jl_metal_credit_grams = ln_metal_credit_grams l,
      jl_karat = ln_karat l, jl_memo = ln_memo l\<rparr>"

fun add_lines :: "string \<Rightarrow> nat \<Rightarrow> gl_line list \<Rightarrow> db \<Rightarrow> db" where
  "add_lines entry_id n [] d = d"
| "add_lines entry_id n (l # lns) d =
     (let (i, d) = fresh_uid d
      in add_lines entry_id (Suc n) lns (d\<lparr>gl_lines := gl_lines d @ [mk_line i entry_id n l]\<rparr>))"

definition post_entry :: "(string \<Rightarrow> string) \<Rightarrow> post_request \<Rightarrow> db \<Rightarrow> (gl_journal_entry \<times> db) res" where
  "post_entry sha q d =
     bnd (resolve_open_period d (pq_entry_date q) (pq_allow_closed_period q)) (\<lambda>period.
     bnd (resolve_denominations d (pq_lines q)) (\<lambda>resolved.
     let lines = map normalize_line_decimals resolved;
         errors = validate_balanced lines in
     raise_if (errors \<noteq> []) (HTTPException 422 (Joined errors))
     (let head = gl_head d in
     bnd (refuse_duplicate_posting d (pq_source_type q) (pq_source_id q) (pq_reverses_entry_id q)) (\<lambda>_.
     let (entry_no, d) = next_entry_no d (pq_entry_date q);
         (now, d) = read_clock d;
         occurred = (case pq_occurred_at q of None \<Rightarrow> now | Some t \<Rightarrow> t);
         header = \<lparr>hd_entry_no = entry_no, hd_entry_date = pq_entry_date q, hd_memo = pq_memo q,
                   hd_source_type = pq_source_type q, hd_source_id = pq_source_id q,
                   hd_reverses_entry_id = pq_reverses_entry_id q,
                   hd_actor_user_id = pq_actor_user_id q, hd_occurred_at = occurred\<rparr> in
     bnd (compute_gl_entry_hash sha (latest_entry_hash head) header (map line_to_hash_dict lines)) (\<lambda>h.
     let (i, d) = fresh_uid d;
         entry = \<lparr>je_id = i, je_entry_no = entry_no, je_entry_date = pq_entry_date q,
                  je_period_id = per_id period, je_memo = pq_memo q,
                  je_source_type = pq_source_type q, je_source_id = pq_source_id q,
                  je_reverses_entry_id = pq_reverses_entry_id q, je_actor_user_id = pq_actor_user_id q,
                  je_occurred_at = occurred, je_prev_hash = latest_entry_hash head,
                  je_entry_hash = h\<rparr> in
     bnd (insert_entry entry d) (\<lambda>d.
     let d = add_lines i 0 lines d;
         d = d\<lparr>gl_head := \<lparr>latest_entry_hash = h, row_count = Suc (row_count head)\<rparr>\<rparr> in
     bnd (ledger_record sha EVENT_GL_ENTRY_POSTED (pq_actor_user_id q) ''gl_journal_entry'' i
            (PDict [(''entry_no'', PStr entry_no), (''source_type'', PStr (pq_source_type q)),
                    (''source_id'', popt (pq_source_id q)), (''line_count'', PInt (int (length lines))),
                    (''base_debit_total'', PStr (str_dec 2 (sum_of ln_base_debit lines)))]) d) (\<lambda>(_, d).
     Inr (entry, d))))))))"

section \<open>Reversal\<close>

definition entry_lines :: "db \<Rightarrow> string \<Rightarrow> gl_journal_line list" where
  "entry_lines d entry_id = sort_key jl_line_no (filter (\<lambda>l. jl_entry_id l = entry_id) (gl_lines d))"

definition swap_line :: "gl_journal_line \<Rightarrow> gl_line" where
  "swap_line l =
     \<lparr>ln_account_id = jl_account_id l, ln_denomination = None,
      ln_base_debit = jl_base_credit l, ln_base_credit = jl_base_debit l,
      ln_money_debit = jl_money_credit l, ln_money_credit = jl_money_debit l,
      ln_currency = jl_currency l, ln_fx_rate = jl_fx_rate l,
      ln_metal_debit_grams = jl_metal_credit_grams l, ln_metal_credit_grams = jl_metal_debit_grams l,
      ln_karat = jl_karat l,
      ln_memo = (if jl_memo l = [] then ''reversal'' else ''reversal of '' @ jl_memo l)\<rparr>"

definition reversal_request ::
    "gl_journal_entry \<Rightarrow> gl_journal_line list \<Rightarrow> string \<Rightarrow> date \<Rightarrow> string \<Rightarrow> post_request" where
  "reversal_request original orig_lines actor entry_date memo =
     (post_args entry_date (if memo = [] then ''Reversal of '' @ je_entry_no original else memo)
        SOURCE_REVERSAL (Some (je_id original)) (map swap_line orig_lines) actor)
     \<lparr>pq_reverses_entry_id := Some (je_id original)\<rparr>"

definition reverse_entry ::
    "(string \<Rightarrow> string) \<Rightarrow> string \<Rightarrow> string \<Rightarrow> date \<Rightarrow> string \<Rightarrow> db \<Rightarrow> (gl_journal_entry \<times> db) res" where
  "reverse_entry sha original_entry_id actor entry_date memo d =
     (case find (\<lambda>e. je_id e = original_entry_id) (gl_entries d) of
        None \<Rightarrow> Inl (HTTPException 404 (Msg ''Entry to reverse not found'' []))
      | Some original \<Rightarrow>
          raise_if (je_reverses_entry_id original \<noteq> None)
            (HTTPException 409 (Msg ''Entry {} is a reversal and cannot itself be reversed. Post a correcting manual entry instead.''
               [AStr (je_entry_no original)]))
         (raise_if (je_source_type original = SOURCE_YEAR_CLOSE)
            (HTTPException 409 (Msg ''Entry {} is the closing entry of fiscal year {}. A closed year cannot be reopened by reversing its closing entry; adjust with a correcting manual entry in the current period instead.''
               [AStr (je_entry_no original), AInt (d_year (je_entry_date original))]))
         (case find_reversal d (je_id original) of
            Some existing \<Rightarrow> Inl (HTTPException 409 (Msg ''Entry {} has already been reversed by {}.''
              [AStr (je_entry_no original), AStr (je_entry_no existing)]))
          | None \<Rightarrow>
              post_entry sha
                (reversal_request original (entry_lines d original_entry_id) actor entry_date memo) d)))"

end
