(* ===== verification/GL_Invariants.thy ===== *)
theory GL_Invariants
  imports GL
begin

text \<open>
  What \<open>post_entry\<close> does to the database, in one lemma; the invariants of the journal
  (fresh ids, balanced entries, the hash chain, uniqueness of reversals and of live
  sources, order in time); and the interface through which every client of the
  posting engine inherits them: the locale \<open>journal_invariant\<close> asks an invariant
  for what posting, recording and unrelated writes must keep, and the components'
  theories prove inside it, once per operation, that the operation keeps it.
\<close>

section \<open>What a posting changes\<close>

definition new_lines :: "nat \<Rightarrow> string \<Rightarrow> gl_line list \<Rightarrow> gl_journal_line list" where
  "new_lines n eid ls = map (\<lambda>k. mk_line (uid (n + k)) eid k (ls ! k)) [0..<length ls]"

lemma add_lines_eq:
  "add_lines eid m ls d =
     d\<lparr>uid_next := uid_next d + length ls,
       gl_lines := gl_lines d @ map (\<lambda>k. mk_line (uid (uid_next d + k)) eid (m + k) (ls ! k)) [0..<length ls]\<rparr>"
proof (induction ls arbitrary: m d)
  case (Cons l ls)
  have "[0..<length (l # ls)] = 0 # map Suc [0..<length ls]"
    by (simp add: map_Suc_upt upt_conv_Cons del: upt_Suc)
  then show ?case by (simp add: Cons.IH fresh_uid_def comp_def del: upt_Suc)
qed simp

lemma bump_seq_frame: "bump_seq key d = (n, d') \<Longrightarrow> d' = d\<lparr>gl_seqs := gl_seqs d'\<rparr>"
  by (auto simp: bump_seq_def Let_def split: if_splits)

lemma next_entry_no_frame: "next_entry_no d ed = (no, d') \<Longrightarrow> d' = d\<lparr>gl_seqs := gl_seqs d'\<rparr>"
  by (auto simp: next_entry_no_def Let_def split: prod.splits dest: bump_seq_frame)

text \<open>The parts of the database that belong to the books.\<close>

definition books :: "db \<Rightarrow> gl_journal_entry list \<times> gl_journal_line list \<times> chain_head" where
  "books d = (gl_entries d, gl_lines d, gl_head d)"

text \<open>Everything a successful posting tells about the state before and after.\<close>

definition posted :: "(string \<Rightarrow> string) \<Rightarrow> post_request \<Rightarrow> db \<Rightarrow> gl_journal_entry \<Rightarrow> gl_line list \<Rightarrow> db \<Rightarrow> bool" where
  "posted sha q d e ls d' \<longleftrightarrow>
     (\<exists>rs. resolve_denominations d (pq_lines q) = Inr rs \<and> ls = map normalize_line_decimals rs)
     \<and> validate_balanced ls = []
     \<and> (\<exists>p. resolve_open_period d (pq_entry_date q) (pq_allow_closed_period q) = Inr p \<and> je_period_id e = per_id p)
     \<and> refuse_duplicate_posting d (pq_source_type q) (pq_source_id q) (pq_reverses_entry_id q) = Inr ()
     \<and> (\<exists>d1. next_entry_no d (pq_entry_date q) = (je_entry_no e, d1) \<and> gl_seqs d' = gl_seqs d1)
     \<and> je_id e = uid (uid_next d)
     \<and> je_entry_date e = pq_entry_date q \<and> je_memo e = pq_memo q
     \<and> je_source_type e = pq_source_type q \<and> je_source_id e = pq_source_id q
     \<and> je_reverses_entry_id e = pq_reverses_entry_id q \<and> je_actor_user_id e = pq_actor_user_id q
     \<and> je_occurred_at e = (case pq_occurred_at q of None \<Rightarrow> clock d | Some t \<Rightarrow> t)
     \<and> je_prev_hash e = latest_entry_hash (gl_head d) \<and> latest_entry_hash (gl_head d) \<noteq> []
     \<and> je_entry_hash e = sha (chain_blob (je_prev_hash e) (gl_facts (e, map line_to_hash_dict ls)))
     \<and> je_entry_no e \<notin> set (map je_entry_no (gl_entries d))
     \<and> je_entry_hash e \<notin> set (map je_entry_hash (gl_entries d))
     \<and> gl_entries d' = gl_entries d @ [e]
     \<and> gl_lines d' = gl_lines d @ new_lines (Suc (uid_next d)) (je_id e) ls
     \<and> gl_head d' = \<lparr>latest_entry_hash = je_entry_hash e, row_count = Suc (row_count (gl_head d))\<rparr>
     \<and> uid_next d < uid_next d'
     \<and> clock d < clock d'
     \<and> gl_accounts d' = gl_accounts d \<and> gl_periods d' = gl_periods d
     \<and> (\<exists>r. inv_ledger d' = inv_ledger d @ [r])
     \<and> (ledger_ok sha d \<longrightarrow> ledger_ok sha d')"

lemma post_entry_full:
  assumes "post_entry sha q d = Inr (e, d')"
  obtains ls where "posted sha q d e ls d'"
    and "d' = d\<lparr>clock := clock d', uid_next := uid_next d', inv_ledger := inv_ledger d', inv_head := inv_head d',
               gl_entries := gl_entries d', gl_lines := gl_lines d', gl_head := gl_head d', gl_seqs := gl_seqs d'\<rparr>"
proof -
  obtain no d1 where no: "next_entry_no d (pq_entry_date q) = (no, d1)" by fastforce
  from assms no obtain p rs where
    p: "resolve_open_period d (pq_entry_date q) (pq_allow_closed_period q) = Inr p"
    and rs: "resolve_denominations d (pq_lines q) = Inr rs"
    and val: "validate_balanced (map normalize_line_decimals rs) = []"
    and dup: "refuse_duplicate_posting d (pq_source_type q) (pq_source_id q) (pq_reverses_entry_id q) = Inr ()"
    by (auto simp: post_entry_def Let_def res_simps read_clock_def fresh_uid_def)
  let ?ls = "map normalize_line_decimals rs"
  let ?occ = "case pq_occurred_at q of None \<Rightarrow> clock d | Some t \<Rightarrow> t"
  let ?e = "\<lparr>je_id = uid (uid_next d), je_entry_no = no, je_entry_date = pq_entry_date q,
                  je_period_id = per_id p, je_memo = pq_memo q,
                  je_source_type = pq_source_type q, je_source_id = pq_source_id q,
                  je_reverses_entry_id = pq_reverses_entry_id q, je_actor_user_id = pq_actor_user_id q,
                  je_occurred_at = ?occ, je_prev_hash = latest_entry_hash (gl_head d),
                  je_entry_hash = je_entry_hash e\<rparr>"
  obtain sq where d1: "d1 = d\<lparr>gl_seqs := sq\<rparr>" using next_entry_no_frame [OF no] by blast
  have step: "latest_entry_hash (gl_head d) \<noteq> []"
    "e = ?e"
    "je_entry_hash e = sha (chain_blob (je_prev_hash e) (gl_facts (e, map line_to_hash_dict ?ls)))"
    "no \<notin> set (map je_entry_no (gl_entries d))"
    "je_entry_hash e \<notin> set (map je_entry_hash (gl_entries d))"
    "\<exists>r pl. ledger_record sha EVENT_GL_ENTRY_POSTED (pq_actor_user_id q) ''gl_journal_entry'' (uid (uid_next d)) pl
        (d\<lparr>gl_seqs := sq, clock := clock d + 1, gl_entries := gl_entries d @ [e],
           uid_next := Suc (uid_next d) + length ?ls,
           gl_lines := gl_lines d @ new_lines (Suc (uid_next d)) (uid (uid_next d)) ?ls,
           gl_head := \<lparr>latest_entry_hash = je_entry_hash e, row_count = Suc (row_count (gl_head d))\<rparr>\<rparr>) = Inr (r, d')"
    using assms p rs val dup no
    by (auto simp: post_entry_def Let_def res_simps d1 read_clock_def fresh_uid_def insert_entry_def add_lines_eq
        new_lines_def compute_gl_entry_hash_def compute_hash_def gl_facts_def entry_header_def raise_if_def
        cong: option.case_cong split: prod.splits if_splits)
  then obtain r pl where rec: "ledger_record sha EVENT_GL_ENTRY_POSTED (pq_actor_user_id q) ''gl_journal_entry''
        (uid (uid_next d)) pl
        (d\<lparr>gl_seqs := sq, clock := clock d + 1, gl_entries := gl_entries d @ [e],
           uid_next := Suc (uid_next d) + length ?ls,
           gl_lines := gl_lines d @ new_lines (Suc (uid_next d)) (uid (uid_next d)) ?ls,
           gl_head := \<lparr>latest_entry_hash = je_entry_hash e, row_count = Suc (row_count (gl_head d))\<rparr>\<rparr>) = Inr (r, d')" by blast
  obtain hd where hd: "hd = inv_head d'" by simp
  have fr: "d' = d\<lparr>gl_seqs := sq, clock := clock d + 2, gl_entries := gl_entries d @ [e],
           uid_next := Suc (Suc (uid_next d) + length ?ls),
           gl_lines := gl_lines d @ new_lines (Suc (uid_next d)) (uid (uid_next d)) ?ls,
           gl_head := \<lparr>latest_entry_hash = je_entry_hash e, row_count = Suc (row_count (gl_head d))\<rparr>,
           inv_ledger := inv_ledger d @ [r], inv_head := hd\<rparr>"
    unfolding hd by (rule trans [OF ledger_record_frame(1) [OF rec]], rule db.equality) simp_all
  have ok: "ledger_ok sha d \<Longrightarrow> ledger_ok sha d'"
    by (rule ledger_record_ok [OF rec]) (simp add: ledger_ok_def)
  have ids: "je_id e = uid (uid_next d)" "je_entry_no e = no" "je_entry_date e = pq_entry_date q"
    "je_memo e = pq_memo q" "je_period_id e = per_id p" "je_source_type e = pq_source_type q"
    "je_source_id e = pq_source_id q" "je_reverses_entry_id e = pq_reverses_entry_id q"
    "je_actor_user_id e = pq_actor_user_id q" "je_occurred_at e = ?occ"
    "je_prev_hash e = latest_entry_hash (gl_head d)"
    by (subst step(2), simp)+
  have "posted sha q d e ?ls d'"
    unfolding posted_def
    using p rs val dup no d1 step(1,3,4,5) ok ids by (simp add: fr)
  moreover have "d' = d\<lparr>clock := clock d', uid_next := uid_next d', inv_ledger := inv_ledger d', inv_head := inv_head d',
               gl_entries := gl_entries d', gl_lines := gl_lines d', gl_head := gl_head d', gl_seqs := gl_seqs d'\<rparr>"
    by (simp add: fr)
  ultimately show ?thesis by (rule that)
qed

lemma post_entry_posted: "post_entry sha q d = Inr (e, d') \<Longrightarrow> \<exists>ls. posted sha q d e ls d'"
  by (elim post_entry_full) blast

section \<open>The invariants of the journal\<close>

text \<open>Ids: entries have distinct ids already handed out, and every line belongs to an entry.\<close>

definition ids_ok :: "db \<Rightarrow> bool" where
  "ids_ok d \<longleftrightarrow> distinct (map je_id (gl_entries d))
     \<and> (\<forall>e \<in> set (gl_entries d). \<exists>k < uid_next d. je_id e = uid k)
     \<and> (\<forall>l \<in> set (gl_lines d). jl_entry_id l \<in> je_id ` set (gl_entries d))"

text \<open>Balance: debits are credits in base money, and in grams of each karat.\<close>

definition balanced_lines :: "gl_journal_line list \<Rightarrow> bool" where
  "balanced_lines ls \<longleftrightarrow>
     sum_of jl_base_debit ls = sum_of jl_base_credit ls \<and>
     (\<forall>k. sum_of jl_metal_debit_grams (filter (\<lambda>l. jl_karat l = k) ls)
        = sum_of jl_metal_credit_grams (filter (\<lambda>l. jl_karat l = k) ls))"

text \<open>The columns' scales, and a karat on every line that moves metal.\<close>

definition line_wf :: "gl_journal_line \<Rightarrow> bool" where
  "line_wf l \<longleftrightarrow>
     at_scale 2 (jl_base_debit l) \<and> at_scale 2 (jl_base_credit l)
     \<and> at_scale 2 (jl_money_debit l) \<and> at_scale 2 (jl_money_credit l) \<and> at_scale 6 (jl_fx_rate l)
     \<and> at_scale 3 (jl_metal_debit_grams l) \<and> at_scale 3 (jl_metal_credit_grams l)
     \<and> (jl_metal_debit_grams l \<noteq> 0 \<or> jl_metal_credit_grams l \<noteq> 0 \<longrightarrow> jl_karat l \<noteq> None \<and> jl_karat l \<noteq> Some [])"

definition lines_ok :: "db \<Rightarrow> bool" where
  "lines_ok d \<longleftrightarrow> (\<forall>i. balanced_lines (filter (\<lambda>l. jl_entry_id l = i) (gl_lines d)))
     \<and> (\<forall>l \<in> set (gl_lines d). line_wf l)"

text \<open>The rows the chain verification reads, in insertion order, and the head.\<close>

definition gl_rows :: "db \<Rightarrow> gl_row list" where
  "gl_rows d = map (\<lambda>e. (e, map line_fields (entry_lines d (je_id e)))) (gl_entries d)"

definition chain_ok :: "(string \<Rightarrow> string) \<Rightarrow> db \<Rightarrow> bool" where
  "chain_ok sha d \<longleftrightarrow> gc.linked sha GENESIS_HASH (gl_rows d)
     \<and> latest_entry_hash (gl_head d)
         = (if gl_entries d = [] then GENESIS_HASH else je_entry_hash (last (gl_entries d)))
     \<and> row_count (gl_head d) = length (gl_entries d)"

text \<open>At most one entry per entry number, per reversed entry, per live source of an order or adjustment.\<close>

definition unique_ok :: "db \<Rightarrow> bool" where
  "unique_ok d \<longleftrightarrow> distinct (map je_entry_no (gl_entries d))
     \<and> (\<forall>i. length (filter (\<lambda>e. je_reverses_entry_id e = Some i) (gl_entries d)) \<le> 1)
     \<and> (\<forall>st \<in> set GL_UNIQUE_LIVE_SOURCE_TYPES. \<forall>si. length (filter (live_for st si) (gl_entries d)) \<le> 1)"

text \<open>Time: entries are stamped in the order they are inserted, before the clock's next reading.\<close>

definition time_ok :: "db \<Rightarrow> bool" where
  "time_ok d \<longleftrightarrow> sorted_wrt (<) (map je_occurred_at (gl_entries d))
     \<and> (\<forall>e \<in> set (gl_entries d). je_occurred_at e < clock d)"

text \<open>Foreign key: every line is on an account, and accounts have distinct ids already handed out.\<close>

definition accounts_ok :: "db \<Rightarrow> bool" where
  "accounts_ok d \<longleftrightarrow> distinct (map acc_id (gl_accounts d))
     \<and> (\<forall>a \<in> set (gl_accounts d). \<exists>k < uid_next d. acc_id a = uid k)
     \<and> (\<forall>l \<in> set (gl_lines d). jl_account_id l \<in> acc_id ` set (gl_accounts d))"

text \<open>A reversal reverses an entry of the journal.\<close>

definition refs_ok :: "db \<Rightarrow> bool" where
  "refs_ok d \<longleftrightarrow> (\<forall>e \<in> set (gl_entries d). \<forall>i. je_reverses_entry_id e = Some i \<longrightarrow> i \<in> je_id ` set (gl_entries d))"

definition journal_ok :: "(string \<Rightarrow> string) \<Rightarrow> db \<Rightarrow> bool" where
  "journal_ok sha d \<longleftrightarrow> ids_ok d \<and> lines_ok d \<and> chain_ok sha d \<and> unique_ok d \<and> time_ok d
     \<and> accounts_ok d \<and> refs_ok d"

text \<open>
  What every caller of \<open>post_entry\<close> guarantees: the entry is stamped by the clock, and
  only \<open>reverse_entry\<close> names an entry to reverse, after its own guards.
\<close>

definition proper_request :: "db \<Rightarrow> post_request \<Rightarrow> bool" where
  "proper_request d q \<longleftrightarrow> pq_occurred_at q = None
     \<and> (\<forall>i. pq_reverses_entry_id q = Some i \<longrightarrow>
          (\<exists>f \<in> set (gl_entries d). je_id f = i \<and> je_reverses_entry_id f = None \<and> je_source_type f \<noteq> SOURCE_YEAR_CLOSE))"

lemma proper_post_args [simp]: "proper_request d (post_args dt m st si ls a)"
  by (simp add: proper_request_def post_args_def)

lemma journal_ok_empty: "journal_ok sha (empty_db t)"
  by (simp add: journal_ok_def ids_ok_def lines_ok_def chain_ok_def unique_ok_def time_ok_def
      accounts_ok_def refs_ok_def gl_rows_def balanced_lines_def empty_db_def)

subsection \<open>Posting keeps them\<close>

lemma sum_of_new_lines:
  assumes "\<And>i k l. f (mk_line i eid k l) = g l"
  shows "sum_of f (new_lines n eid ls) = sum_of g ls"
proof -
  have "map f (new_lines n eid ls) = map g (map (\<lambda>k. ls ! k) [0..<length ls])"
    by (simp add: new_lines_def assms)
  then show ?thesis by (simp only: sum_of_def map_nth)
qed

lemma mk_line_simps [simp]:
  "jl_account_id (mk_line i eid k l) = ln_account_id l" "jl_entry_id (mk_line i eid k l) = eid"
  "jl_base_debit (mk_line i eid k l) = ln_base_debit l" "jl_base_credit (mk_line i eid k l) = ln_base_credit l"
  by (simp_all add: mk_line_def)

lemma new_lines_entry: "l \<in> set (new_lines n eid ls) \<Longrightarrow> jl_entry_id l = eid"
  by (auto simp: new_lines_def mk_line_def)

lemma new_linesE:
  assumes "l \<in> set (new_lines n eid ls)"
  obtains i k m where "m \<in> set ls" and "l = mk_line i eid k m"
proof -
  from assms obtain k where "k < length ls" "l = mk_line (uid (n + k)) eid k (ls ! k)"
    by (auto simp: new_lines_def)
  then show ?thesis by (intro that [of "ls ! k"]) simp_all
qed

lemma balanced_new_lines: "balanced ls \<Longrightarrow> balanced_lines (new_lines n eid ls)"
  by (simp add: balanced_lines_def balanced_def sum_of_filter_if mk_line_def
      sum_of_new_lines [where f = jl_base_debit and g = ln_base_debit]
      sum_of_new_lines [where f = jl_base_credit and g = ln_base_credit]
      sum_of_new_lines [where f = "\<lambda>l. if jl_karat l = k then jl_metal_debit_grams l else 0"
                          and g = "\<lambda>l. if ln_karat l = k then ln_metal_debit_grams l else 0" for k]
      sum_of_new_lines [where f = "\<lambda>l. if jl_karat l = k then jl_metal_credit_grams l else 0"
                          and g = "\<lambda>l. if ln_karat l = k then ln_metal_credit_grams l else 0" for k])

lemma filter_new_lines:
  "filter (\<lambda>l. jl_entry_id l = i) (new_lines n eid ls) = (if i = eid then new_lines n eid ls else [])"
  by (auto simp: filter_empty_conv filter_id_conv dest: new_lines_entry)

lemma new_lines_sorted: "sort_key jl_line_no (new_lines n eid ls) = new_lines n eid ls"
  by (rule sort_key_sorted) (simp add: new_lines_def mk_line_def comp_def)

lemma line_fields_new_lines: "map line_fields (new_lines n eid ls) = map line_to_hash_dict ls"
proof -
  have "map line_fields (new_lines n eid ls) = map line_to_hash_dict (map (\<lambda>k. ls ! k) [0..<length ls])"
    by (simp add: new_lines_def line_fields_def mk_line_def line_to_hash_dict_def)
  then show ?thesis by (simp only: map_nth)
qed

text \<open>A posted entry's id is new: no entry and no line bears it.\<close>

lemma uid_next_fresh:
  assumes "ids_ok d"
  shows "uid (uid_next d) \<notin> je_id ` set (gl_entries d)"
    and "filter (\<lambda>l. jl_entry_id l = uid (uid_next d)) (gl_lines d) = []"
  using assms by (fastforce simp: ids_ok_def filter_empty_conv)+

lemma posted_ids_ok:
  assumes "posted sha q d e ls d'" "ids_ok d"
  shows "ids_ok d'"
proof -
  have e: "je_id e = uid (uid_next d)" "gl_entries d' = gl_entries d @ [e]"
    "gl_lines d' = gl_lines d @ new_lines (Suc (uid_next d)) (je_id e) ls" "uid_next d < uid_next d'"
    using assms(1) by (simp_all add: posted_def)
  have "\<exists>k < uid_next d'. je_id f = uid k" if "f \<in> set (gl_entries d')" for f
    using that e assms(2) by (auto simp: ids_ok_def intro: less_trans)
  then show ?thesis
    using e assms(2) uid_next_fresh(1) [OF assms(2)] by (auto simp: ids_ok_def dest: new_lines_entry)
qed

lemma validate_line_wf:
  assumes "validate_balanced (map normalize_line_decimals rs) = []" "m \<in> set (map normalize_line_decimals rs)"
  shows "line_wf (mk_line i eid k m)"
proof -
  from assms have "line_fits m" by (auto simp: validate_balanced_iff)
  moreover from assms(2) obtain r where "m = normalize_line_decimals r" by auto
  ultimately show ?thesis
    by (auto simp: line_wf_def mk_line_def normalize_line_decimals_def line_fits_def has_metal_def no_karat_def)
qed

lemma posted_lines_ok:
  assumes "posted sha q d e ls d'" "ids_ok d" "lines_ok d"
  shows "lines_ok d'"
proof -
  from assms(1) obtain rs where e: "je_id e = uid (uid_next d)" "ls = map normalize_line_decimals rs"
    "gl_lines d' = gl_lines d @ new_lines (Suc (uid_next d)) (je_id e) ls" "validate_balanced ls = []"
    by (auto simp: posted_def)
  have "balanced_lines (new_lines (Suc (uid_next d)) (je_id e) ls)"
    using e(4) by (auto simp: validate_balanced_iff intro: balanced_new_lines)
  moreover have "line_wf l" if "l \<in> set (new_lines (Suc (uid_next d)) (je_id e) ls)" for l
    using that validate_line_wf e(2,4) by (auto elim!: new_linesE)
  ultimately show ?thesis
    using assms(3) uid_next_fresh(2) [OF assms(2)] by (auto simp: lines_ok_def e(1,3) filter_new_lines)
qed

lemma posted_gl_rows:
  assumes "posted sha q d e ls d'" "ids_ok d"
  shows "gl_rows d' = gl_rows d @ [(e, map line_to_hash_dict ls)]"
proof -
  have e: "je_id e = uid (uid_next d)" "gl_entries d' = gl_entries d @ [e]"
    "gl_lines d' = gl_lines d @ new_lines (Suc (uid_next d)) (je_id e) ls"
    using assms(1) by (simp_all add: posted_def)
  have old: "entry_lines d' (je_id f) = entry_lines d (je_id f)" if "f \<in> set (gl_entries d)" for f
  proof -
    have "je_id f \<noteq> je_id e" using that uid_next_fresh(1) [OF assms(2)] e(1) by (metis imageI)
    then show ?thesis by (simp add: entry_lines_def e(3) filter_new_lines)
  qed
  have new: "entry_lines d' (je_id e) = new_lines (Suc (uid_next d)) (je_id e) ls"
    using uid_next_fresh(2) [OF assms(2)]
    by (simp add: entry_lines_def e(1,3) filter_new_lines new_lines_sorted)
  show ?thesis by (simp add: gl_rows_def e(2) new line_fields_new_lines) (simp add: old cong: map_cong)
qed

lemma posted_chain_ok:
  assumes "posted sha q d e ls d'" "ids_ok d" "chain_ok sha d"
  shows "chain_ok sha d'"
proof -
  have e: "gl_entries d' = gl_entries d @ [e]" "je_prev_hash e = latest_entry_hash (gl_head d)"
    "latest_entry_hash (gl_head d) \<noteq> []"
    "je_entry_hash e = sha (chain_blob (je_prev_hash e) (gl_facts (e, map line_to_hash_dict ls)))"
    "gl_head d' = \<lparr>latest_entry_hash = je_entry_hash e, row_count = Suc (row_count (gl_head d))\<rparr>"
    using assms(1) by (simp_all add: posted_def)
  have "gc.last_hash GENESIS_HASH (gl_rows d) = latest_entry_hash (gl_head d)"
    using assms(3) by (simp add: chain_ok_def gl_rows_def last_map)
  then show ?thesis
    using assms(3) e by (simp add: chain_ok_def posted_gl_rows [OF assms(1,2)] gc.linked_append split del: if_split)
qed

lemma posted_unique_ok:
  assumes "posted sha q d e ls d'" "unique_ok d"
  shows "unique_ok d'"
proof -
  have e: "gl_entries d' = gl_entries d @ [e]" "je_entry_no e \<notin> set (map je_entry_no (gl_entries d))"
    "refuse_duplicate_posting d (pq_source_type q) (pq_source_id q) (pq_reverses_entry_id q) = Inr ()"
    "je_source_type e = pq_source_type q" "je_source_id e = pq_source_id q"
    "je_reverses_entry_id e = pq_reverses_entry_id q"
    using assms(1) by (simp_all add: posted_def)
  have "filter (\<lambda>f. je_reverses_entry_id f = Some i) (gl_entries d) = []" if "je_reverses_entry_id e = Some i" for i
    using e(3) that
    by (simp add: e(6) refuse_duplicate_posting_def find_reversal_def find_None_filter split: option.splits)
  moreover have "filter (live_for st si) (gl_entries d) = []"
    if "live_for st si e" "st \<in> set GL_UNIQUE_LIVE_SOURCE_TYPES" for st si
    using e(3) that
    by (simp add: e(4-6) live_for_def [of st si e] refuse_duplicate_posting_def find_None_filter
        split: option.splits if_splits)
  ultimately show ?thesis
    using assms(2) e(1,2) by (simp add: unique_ok_def)
qed

lemma posted_time_ok:
  assumes "posted sha q d e ls d'" "time_ok d" "pq_occurred_at q = None"
  shows "time_ok d'"
  using assms by (auto simp: posted_def time_ok_def sorted_wrt_append)

lemma resolve_denominations_accounts:
  assumes "resolve_denominations d lns = Inr rs" "m \<in> set rs"
  shows "ln_account_id m \<in> acc_id ` set (gl_accounts d)"
  using assms unfolding resolve_denominations_def
proof (induction lns arbitrary: rs)
  case (Cons l lns)
  then obtain m0 ms where m: "resolve_line d l = Inr m0" "map_res (resolve_line d) lns = Inr ms" "rs = m0 # ms"
    by (auto simp: res_simps)
  have "ln_account_id m0 \<in> acc_id ` set (gl_accounts d)"
    using m(1) by (force simp: resolve_line_def res_simps split: option.splits dest!: find_SomeD)
  then show ?case using Cons m(2,3) by auto
qed simp

lemma uid_mono: "\<exists>k<n. x = uid k \<Longrightarrow> n \<le> m \<Longrightarrow> \<exists>k<m. x = uid k"
  using less_le_trans by blast

lemma posted_accounts_ok:
  assumes "posted sha q d e ls d'" "accounts_ok d"
  shows "accounts_ok d'"
proof -
  from assms(1) obtain rs where e: "ls = map normalize_line_decimals rs"
    "gl_lines d' = gl_lines d @ new_lines (Suc (uid_next d)) (je_id e) ls"
    "resolve_denominations d (pq_lines q) = Inr rs" "uid_next d < uid_next d'"
    "gl_accounts d' = gl_accounts d"
    by (auto simp: posted_def)
  have "jl_account_id l \<in> acc_id ` set (gl_accounts d)"
    if "l \<in> set (new_lines (Suc (uid_next d)) (je_id e) ls)" for l
    using that resolve_denominations_accounts [OF e(3)]
    by (auto simp: e(1) mk_line_def normalize_line_decimals_def elim!: new_linesE)
  moreover have "\<exists>k<uid_next d'. acc_id a = uid k" if "a \<in> set (gl_accounts d)" for a
    using that assms(2) e(4) by (auto simp: accounts_ok_def intro: less_trans)
  ultimately show ?thesis using assms(2) by (auto simp: accounts_ok_def e(2,5))
qed

lemma posted_refs_ok:
  assumes "posted sha q d e ls d'" "refs_ok d" "proper_request d q"
  shows "refs_ok d'"
  using assms by (fastforce simp: posted_def refs_ok_def proper_request_def)

lemma posted_journal_ok:
  assumes "posted sha q d e ls d'" "journal_ok sha d" "proper_request d q"
  shows "journal_ok sha d'"
  using assms(2,3) posted_refs_ok [OF assms(1)] posted_accounts_ok [OF assms(1)] posted_ids_ok [OF assms(1)] posted_lines_ok [OF assms(1)] posted_chain_ok [OF assms(1)]
    posted_unique_ok [OF assms(1)] posted_time_ok [OF assms(1)]
  by (simp add: journal_ok_def proper_request_def)

section \<open>The interface every client of the posting engine uses\<close>

text \<open>The parts an operation outside the posting engine leaves alone.\<close>

text \<open>
  The value of a counter: the number last handed out. Counters are kept per key; those
  of the entry numbers share their table with those of the document numbers, so a write
  elsewhere may bump a counter, but never takes one back.
\<close>

definition seq_count :: "gl_entry_sequence list \<Rightarrow> string \<Rightarrow> nat" where
  "seq_count seqs key = (case find (\<lambda>s. seq_day_key s = key) seqs of None \<Rightarrow> 0 | Some s \<Rightarrow> seq_last_seq s)"

definition same_books :: "db \<Rightarrow> db \<Rightarrow> bool" where
  "same_books d d' \<longleftrightarrow> (\<forall>k. seq_count (gl_seqs d) k \<le> seq_count (gl_seqs d') k) \<and> gl_entries d' = gl_entries d \<and> gl_lines d' = gl_lines d \<and> gl_head d' = gl_head d
     \<and> inv_ledger d' = inv_ledger d \<and> inv_head d' = inv_head d
     \<and> uid_next d \<le> uid_next d' \<and> clock d \<le> clock d'
     \<and> (\<exists>ks. map acc_id (gl_accounts d') = map acc_id (gl_accounts d) @ map uid ks
          \<and> distinct ks \<and> set ks \<subseteq> {uid_next d..<uid_next d'})"

lemma same_books_refl: "same_books d d"
  by (simp add: same_books_def)

lemma same_books_trans:
  assumes "same_books a b" "same_books b c"
  shows "same_books a c"
proof -
  from assms obtain ks js where
    k: "map acc_id (gl_accounts b) = map acc_id (gl_accounts a) @ map uid ks" "distinct ks" "set ks \<subseteq> {uid_next a..<uid_next b}"
    and j: "map acc_id (gl_accounts c) = map acc_id (gl_accounts b) @ map uid js" "distinct js" "set js \<subseteq> {uid_next b..<uid_next c}"
    by (auto simp: same_books_def)
  have le: "uid_next a \<le> uid_next b" "uid_next b \<le> uid_next c" using assms by (auto simp: same_books_def)
  have "map acc_id (gl_accounts c) = map acc_id (gl_accounts a) @ map uid (ks @ js)" by (simp add: k(1) j(1))
  moreover have "set ks \<inter> set js = {}" using k(3) j(3) by fastforce
  then have "distinct (ks @ js)" using k(2) j(2) by simp
  moreover have "set (ks @ js) \<subseteq> {uid_next a..<uid_next c}" using k(3) j(3) le by auto
  ultimately show ?thesis using assms unfolding same_books_def by (intro conjI exI [of _ "ks @ js"]) (auto intro: order_trans)
qed

lemma journal_ok_cong:
  assumes "gl_entries d' = gl_entries d" "gl_lines d' = gl_lines d" "gl_head d' = gl_head d"
    "uid_next d \<le> uid_next d'" "clock d \<le> clock d'" "journal_ok sha d" "accounts_ok d'"
  shows "journal_ok sha d'"
proof -
  have "gl_rows d' = gl_rows d" using assms by (simp add: gl_rows_def entry_lines_def)
  moreover have "\<exists>k<uid_next d'. je_id e = uid k" if "e \<in> set (gl_entries d)" for e
    using that assms(4,6) by (force simp: journal_ok_def ids_ok_def)
  moreover have "je_occurred_at e < clock d'" if "e \<in> set (gl_entries d)" for e
    using that assms(5,6) by (force simp: journal_ok_def time_ok_def)
  ultimately show ?thesis
    using assms by (simp add: journal_ok_def ids_ok_def lines_ok_def chain_ok_def unique_ok_def time_ok_def refs_ok_def)
qed

lemma same_books_accounts_ok:
  assumes "same_books d d'" "accounts_ok d"
  shows "accounts_ok d'"
proof -
  from assms(1) obtain ks where ks: "map acc_id (gl_accounts d') = map acc_id (gl_accounts d) @ map uid ks"
    "distinct ks" "set ks \<subseteq> {uid_next d..<uid_next d'}"
    and le: "uid_next d \<le> uid_next d'" and gl: "gl_lines d' = gl_lines d"
    by (auto simp: same_books_def)
  have ids: "acc_id ` set (gl_accounts d') = acc_id ` set (gl_accounts d) \<union> uid ` set ks"
    using arg_cong [OF ks(1), of set] by simp
  have old: "\<exists>k<uid_next d. i = uid k" if "i \<in> acc_id ` set (gl_accounts d)" for i
    using that assms(2) by (auto simp: accounts_ok_def)
  have new: "\<exists>k<uid_next d'. i = uid k" if "i \<in> uid ` set ks" for i
    using that ks(3) by auto
  have "\<exists>k<uid_next d'. i = uid k" if "i \<in> acc_id ` set (gl_accounts d')" for i
    using that old new uid_mono [OF _ le] unfolding ids by blast
  then have "\<forall>a\<in>set (gl_accounts d'). \<exists>k<uid_next d'. acc_id a = uid k" by simp
  moreover have "distinct (map acc_id (gl_accounts d'))"
  proof -
    have "acc_id ` set (gl_accounts d) \<inter> uid ` set ks = {}" using old ks(3) by force
    moreover have "distinct (map uid ks)" using ks(2) by (simp add: distinct_map inj_on_def)
    ultimately show ?thesis using assms(2) by (simp add: ks(1) accounts_ok_def)
  qed
  moreover have "\<forall>l\<in>set (gl_lines d'). jl_account_id l \<in> acc_id ` set (gl_accounts d')"
    using assms(2) by (simp add: accounts_ok_def ids gl)
  ultimately show ?thesis by (simp add: accounts_ok_def)
qed

text \<open>
  An invariant of the journal: kept by a posting (stamped by the clock), by a record in
  the inventory ledger, and by any write elsewhere. The components' theories extend
  the context with one lemma per operation.
\<close>

lemma reverse_entry_proper:
  assumes "reverse_entry sha i actor dt memo d = Inr (e, d')"
  obtains f where "f \<in> set (gl_entries d)" "je_id f = i"
    "je_reverses_entry_id f = None" "je_source_type f \<noteq> SOURCE_YEAR_CLOSE" "find_reversal d i = None"
    "proper_request d (reversal_request f (entry_lines d i) actor dt memo)"
    "post_entry sha (reversal_request f (entry_lines d i) actor dt memo) d = Inr (e, d')"
  using assms
  by (auto simp: reverse_entry_def res_simps proper_request_def reversal_request_def post_args_def
      split: option.splits dest!: find_SomeD)

locale journal_invariant =
  fixes sha :: "string \<Rightarrow> string" and Inv :: "db \<Rightarrow> bool"
  assumes inv_post: "post_entry sha q d = Inr (e, d') \<Longrightarrow> proper_request d q \<Longrightarrow> Inv d \<Longrightarrow> Inv d'"
    and inv_record: "ledger_record sha ev ac rt ri p d = Inr (r, d') \<Longrightarrow> Inv d \<Longrightarrow> Inv d'"
    and inv_frame: "same_books d d' \<Longrightarrow> Inv d \<Longrightarrow> Inv d'"
begin

lemma inv_reverse:
  assumes "reverse_entry sha i actor dt memo d = Inr (e, d')" "Inv d"
  shows "Inv d'"
  by (rule reverse_entry_proper [OF assms(1)]) (rule inv_post [OF _ _ assms(2)])

lemma inv_tick: "Inv d \<Longrightarrow> Inv (snd (read_clock d))"
  by (rule inv_frame [of d]) (simp_all add: same_books_def read_clock_def)

end

text \<open>The three invariants: the journal's, the inventory ledger's, and immutability.\<close>

definition extends :: "db \<Rightarrow> db \<Rightarrow> bool" where
  "extends d0 d \<longleftrightarrow> (\<exists>es. gl_entries d = gl_entries d0 @ es) \<and> (\<exists>ls. gl_lines d = gl_lines d0 @ ls)
     \<and> (\<exists>rs. inv_ledger d = inv_ledger d0 @ rs)"

interpretation jok: journal_invariant sha "journal_ok sha" for sha
proof
  fix q d e d' assume "post_entry sha q d = Inr (e, d')" "proper_request d q" "journal_ok sha d"
  then show "journal_ok sha d'"
    using post_entry_posted posted_journal_ok by blast
next
  fix ev ac rt ri p d r d' assume r: "ledger_record sha ev ac rt ri p d = Inr (r, d')" and i: "journal_ok sha d"
  obtain hd where d': "d' = d\<lparr>clock := clock d + 1, uid_next := Suc (uid_next d),
      inv_ledger := inv_ledger d @ [r], inv_head := hd\<rparr>"
    using ledger_record_frame(1) [OF r] by blast
  have "accounts_ok d'"
    using i uid_mono [where n = "uid_next d" and m = "Suc (uid_next d)"]
    by (simp add: journal_ok_def accounts_ok_def d')
  then show "journal_ok sha d'" using i by (intro journal_ok_cong [of d' d]) (simp_all add: d')
next
  fix d d' assume "same_books d d'" "journal_ok sha d"
  moreover from this have "accounts_ok d'" by (auto simp: journal_ok_def intro: same_books_accounts_ok)
  ultimately show "journal_ok sha d'" by (intro journal_ok_cong [of d' d]) (simp_all add: same_books_def)
qed

interpretation lok: journal_invariant sha "ledger_ok sha" for sha
proof
  fix q d e d' assume "post_entry sha q d = Inr (e, d')" "ledger_ok sha d"
  then show "ledger_ok sha d'" by (auto simp: posted_def dest!: post_entry_posted)
next
  fix d d' assume "same_books d d'" "ledger_ok sha d"
  then show "ledger_ok sha d'" by (simp add: same_books_def ledger_ok_cong [of d' d])
qed (rule ledger_record_ok)

interpretation ext: journal_invariant sha "extends d0" for sha d0
proof
  fix q d e d' assume "post_entry sha q d = Inr (e, d')" "extends d0 d"
  then show "extends d0 d'" by (auto simp: extends_def posted_def dest!: post_entry_posted)
next
  fix ev ac rt ri p d r d' assume r: "ledger_record sha ev ac rt ri p d = Inr (r, d')" and "extends d0 d"
  then show "extends d0 d'" by (subst ledger_record_frame(1) [OF r]) (auto simp: extends_def)
qed (auto simp: same_books_def extends_def)

text \<open>A fiscal year, once closed, stays closed: no operation reverses its closing entry.\<close>

definition year_closed :: "int \<Rightarrow> db \<Rightarrow> bool" where
  "year_closed y d \<longleftrightarrow> ids_ok d \<and> (\<exists>e \<in> set (gl_entries d). je_source_type e = SOURCE_YEAR_CLOSE
     \<and> Date y 1 1 \<le> je_entry_date e \<and> je_entry_date e \<le> Date y 12 31
     \<and> (\<forall>r \<in> set (gl_entries d). je_reverses_entry_id r \<noteq> Some (je_id e)))"

lemma year_closed_cong:
  assumes "gl_entries d' = gl_entries d" "gl_lines d' = gl_lines d" "uid_next d \<le> uid_next d'" "year_closed y d"
  shows "year_closed y d'"
proof -
  have "\<exists>k<uid_next d'. je_id e = uid k" if "e \<in> set (gl_entries d)" for e
    using that assms(3,4) uid_mono by (auto simp: year_closed_def ids_ok_def)
  then show ?thesis using assms by (simp add: year_closed_def ids_ok_def)
qed

interpretation yc: journal_invariant sha "year_closed y" for sha y
proof
  fix q d e d' assume p: "post_entry sha q d = Inr (e, d')" and pr: "proper_request d q" and c: "year_closed y d"
  from p obtain ls where po: "posted sha q d e ls d'" using post_entry_posted by blast
  from c obtain f where f: "f \<in> set (gl_entries d)" "je_source_type f = SOURCE_YEAR_CLOSE"
    "Date y 1 1 \<le> je_entry_date f" "je_entry_date f \<le> Date y 12 31"
    "\<forall>r \<in> set (gl_entries d). je_reverses_entry_id r \<noteq> Some (je_id f)" and ids: "ids_ok d"
    by (auto simp: year_closed_def)
  have "je_reverses_entry_id e \<noteq> Some (je_id f)"
  proof
    assume "je_reverses_entry_id e = Some (je_id f)"
    then have "pq_reverses_entry_id q = Some (je_id f)" using po by (simp add: posted_def)
    then obtain g where g: "g \<in> set (gl_entries d)" "je_id g = je_id f" "je_source_type g \<noteq> SOURCE_YEAR_CLOSE"
      using pr by (auto simp: proper_request_def)
    then have "g = f" using ids f(1) by (auto simp: ids_ok_def distinct_map inj_on_def)
    with g(3) f(2) show False by simp
  qed
  moreover have "gl_entries d' = gl_entries d @ [e]" using po by (simp add: posted_def)
  ultimately show "year_closed y d'"
    using f posted_ids_ok [OF po ids] unfolding year_closed_def by auto
next
  fix ev ac rt ri p d r d' assume r: "ledger_record sha ev ac rt ri p d = Inr (r, d')" and c: "year_closed y d"
  obtain hd where d': "d' = d\<lparr>clock := clock d + 1, uid_next := Suc (uid_next d),
      inv_ledger := inv_ledger d @ [r], inv_head := hd\<rparr>"
    using ledger_record_frame(1) [OF r] by blast
  from c show "year_closed y d'" by (rule year_closed_cong [rotated -1]) (simp_all add: d')
next
  fix d d' assume "same_books d d'" "year_closed y d"
  then show "year_closed y d'" by (intro year_closed_cong [of d' d]) (simp_all add: same_books_def)
qed

section \<open>Opening a period\<close>

text \<open>\<open>db.add(GLPeriod(...))\<close> and its flush: (year, period number) is unique.\<close>

definition add_period :: "int \<Rightarrow> int \<Rightarrow> period_status \<Rightarrow> db \<Rightarrow> (gl_period \<times> db) res" where
  "add_period y n st d =
     raise_if (\<exists>p \<in> set (gl_periods d). per_year p = y \<and> per_no p = n) (IntegrityError ''uq_gl_periods_year_period'')
       (let (i, d) = fresh_uid d;
            p = \<lparr>per_id = i, per_year = y, per_no = n, per_status = st,
                 per_closed_by_user_id = None, per_closed_at = None\<rparr>
        in Inr (p, d\<lparr>gl_periods := gl_periods d @ [p]\<rparr>))"

lemma add_period_frame:
  assumes "add_period y n st d = Inr (p, d')"
  shows "d' = d\<lparr>uid_next := Suc (uid_next d), gl_periods := gl_periods d @ [p]\<rparr>"
    and "per_year p = y" "per_no p = n" "per_status p = st"
  using assms by (auto simp: add_period_def res_simps Let_def fresh_uid_def)

lemma add_period_same_books: "add_period y n st d = Inr (p, d') \<Longrightarrow> same_books d d'"
  by (auto simp: same_books_def dest: add_period_frame)

end
