(* ===== verification/TrialBalance.thy ===== *)
theory TrialBalance
  imports GL_Invariants "HOL-Library.Multiset"
begin

text \<open>
  \<open>compute_trial_balance\<close> of \<open>app/core/gl.py\<close>: the SQL GROUP BY, the loop that folds the
  groups into per-account dictionaries and global totals, and the report. The lemmas
  show the report equals the line-by-line sums, and that both dimensions balance in
  every database the journal's invariants hold in.
\<close>

section \<open>The grouped query\<close>

definition dated :: "db \<Rightarrow> date \<Rightarrow> string \<Rightarrow> bool" where
  "dated d as_of entry_id \<longleftrightarrow>
     (\<exists>e \<in> set (gl_entries d). je_id e = entry_id \<and> je_entry_date e \<le> as_of)"

text \<open>Lines joined to their account, restricted to entries dated up to \<open>as_of\<close>.\<close>

definition tb_rows :: "db \<Rightarrow> date \<Rightarrow> (gl_account \<times> gl_journal_line) list" where
  "tb_rows d as_of =
     concat (map (\<lambda>l. case find (\<lambda>a. acc_id a = jl_account_id l) (gl_accounts d) of
                        None \<Rightarrow> [] | Some a \<Rightarrow> [(a, l)])
       (filter (\<lambda>l. dated d as_of (jl_entry_id l)) (gl_lines d)))"

record tb_group =
  tg_account :: gl_account
  tg_currency :: string
  tg_karat :: "string option"
  tg_base_debit :: dec
  tg_base_credit :: dec
  tg_money_debit :: dec
  tg_money_credit :: dec
  tg_metal_debit :: dec
  tg_metal_credit :: dec
  tg_metal_lines :: nat

type_synonym tb_key = "gl_account \<times> string \<times> string option"

definition tb_key :: "gl_account \<times> gl_journal_line \<Rightarrow> tb_key" where
  "tb_key r = (fst r, jl_currency (snd r), jl_karat (snd r))"

definition line_has_metal :: "gl_journal_line \<Rightarrow> bool" where
  "line_has_metal l \<longleftrightarrow> jl_metal_debit_grams l \<noteq> 0 \<or> jl_metal_credit_grams l \<noteq> 0"

definition tb_group_of :: "(gl_account \<times> gl_journal_line) list \<Rightarrow> tb_key \<Rightarrow> tb_group" where
  "tb_group_of rows k =
     (let g = map snd (filter (\<lambda>r. tb_key r = k) rows) in
      \<lparr>tg_account = fst k, tg_currency = fst (snd k), tg_karat = snd (snd k),
       tg_base_debit = sum_of jl_base_debit g, tg_base_credit = sum_of jl_base_credit g,
       tg_money_debit = sum_of jl_money_debit g, tg_money_credit = sum_of jl_money_credit g,
       tg_metal_debit = sum_of jl_metal_debit_grams g, tg_metal_credit = sum_of jl_metal_credit_grams g,
       tg_metal_lines = length (filter line_has_metal g)\<rparr>)"

definition tb_groups :: "db \<Rightarrow> date \<Rightarrow> tb_group list" where
  "tb_groups d as_of = (let rows = tb_rows d as_of
                        in map (tb_group_of rows) (remdups (map tb_key rows)))"

section \<open>The fold over the groups\<close>

text \<open>\<open>d.setdefault(k, default)\<close> followed by an in-place update of that value.\<close>

fun dict_upd :: "'k \<Rightarrow> 'v \<Rightarrow> ('v \<Rightarrow> 'v) \<Rightarrow> ('k \<times> 'v) list \<Rightarrow> ('k \<times> 'v) list" where
  "dict_upd k v f [] = [(k, f v)]"
| "dict_upd k v f ((k', w) # al) = (if k = k' then (k', f w) # al else (k', w) # dict_upd k v f al)"

record tb_bucket =
  tk_debit :: dec
  tk_credit :: dec

definition ZERO_BUCKET :: tb_bucket where "ZERO_BUCKET = \<lparr>tk_debit = 0, tk_credit = 0\<rparr>"

definition add_bucket :: "dec \<Rightarrow> dec \<Rightarrow> tb_bucket \<Rightarrow> tb_bucket" where
  "add_bucket a b v = \<lparr>tk_debit = tk_debit v + a, tk_credit = tk_credit v + b\<rparr>"

record tb_acct =
  ta_account_id :: string
  ta_code :: string
  ta_name :: string
  ta_type :: account_type
  ta_system_key :: "string option"
  ta_base_debit :: dec
  ta_base_credit :: dec
  ta_net_base :: dec
  ta_money_by_currency :: "(string \<times> tb_bucket) list"
  ta_metal_by_karat :: "(string \<times> tb_bucket) list"

definition new_acct :: "gl_account \<Rightarrow> tb_acct" where
  "new_acct a = \<lparr>ta_account_id = acc_id a, ta_code = acc_code a, ta_name = acc_name a, ta_type = acc_type a,
     ta_system_key = acc_system_key a, ta_base_debit = 0, ta_base_credit = 0, ta_net_base = 0,
     ta_money_by_currency = [], ta_metal_by_karat = []\<rparr>"

definition karat_key :: "string option \<Rightarrow> string" where
  "karat_key k = (case k of None \<Rightarrow> ''?'' | Some s \<Rightarrow> if s = [] then ''?'' else s)"

definition tb_add_acct :: "tb_group \<Rightarrow> tb_acct \<Rightarrow> tb_acct" where
  "tb_add_acct g a =
     a\<lparr>ta_base_debit := ta_base_debit a + q_money (tg_base_debit g),
        ta_base_credit := ta_base_credit a + q_money (tg_base_credit g),
        ta_money_by_currency := dict_upd (tg_currency g) ZERO_BUCKET
           (add_bucket (q_money (tg_money_debit g)) (q_money (tg_money_credit g))) (ta_money_by_currency a),
        ta_metal_by_karat :=
          (if tg_metal_lines g \<noteq> 0
           then dict_upd (karat_key (tg_karat g)) ZERO_BUCKET
                  (add_bucket (q_grams (tg_metal_debit g)) (q_grams (tg_metal_credit g))) (ta_metal_by_karat a)
           else ta_metal_by_karat a)\<rparr>"

record tb_state =
  ts_accounts :: "(string \<times> tb_acct) list"
  ts_total_d :: dec
  ts_total_c :: dec
  ts_metal :: "(string \<times> tb_bucket) list"

definition tb_step :: "tb_group \<Rightarrow> tb_state \<Rightarrow> tb_state" where
  "tb_step g s =
     \<lparr>ts_accounts = dict_upd (acc_id (tg_account g)) (new_acct (tg_account g)) (tb_add_acct g) (ts_accounts s),
      ts_total_d = ts_total_d s + q_money (tg_base_debit g),
      ts_total_c = ts_total_c s + q_money (tg_base_credit g),
      ts_metal = (if tg_metal_lines g \<noteq> 0
                  then dict_upd (karat_key (tg_karat g)) ZERO_BUCKET
                         (add_bucket (q_grams (tg_metal_debit g)) (q_grams (tg_metal_credit g))) (ts_metal s)
                  else ts_metal s)\<rparr>"

definition tb_fold :: "tb_group list \<Rightarrow> tb_state" where
  "tb_fold gs = fold tb_step gs \<lparr>ts_accounts = [], ts_total_d = 0, ts_total_c = 0, ts_metal = []\<rparr>"

section \<open>The report\<close>

definition q_bucket :: "nat \<Rightarrow> tb_bucket \<Rightarrow> tb_bucket" where
  "q_bucket n v = \<lparr>tk_debit = quantize n (tk_debit v), tk_credit = quantize n (tk_credit v)\<rparr>"

definition finish_acct :: "tb_acct \<Rightarrow> tb_acct" where
  "finish_acct a =
     (let a = a\<lparr>ta_base_debit := q_money (ta_base_debit a), ta_base_credit := q_money (ta_base_credit a)\<rparr>;
          a = a\<lparr>ta_net_base := q_money (ta_base_debit a - ta_base_credit a)\<rparr>
      in a\<lparr>ta_money_by_currency := map (map_prod id (q_bucket 2)) (sort_key fst (ta_money_by_currency a)),
            ta_metal_by_karat := map (map_prod id (q_bucket 3)) (sort_key fst (ta_metal_by_karat a))\<rparr>)"

record trial_balance =
  tb_as_of :: date
  tb_accounts :: "tb_acct list"
  tb_total_base_debit :: dec
  tb_total_base_credit :: dec
  tb_balanced :: bool
  tb_metal_by_karat :: "(string \<times> tb_bucket) list"
  tb_metal_balanced :: bool

definition compute_trial_balance :: "db \<Rightarrow> date \<Rightarrow> trial_balance" where
  "compute_trial_balance d as_of =
     (let s = tb_fold (tb_groups d as_of);
          metal = map (map_prod id (q_bucket 3)) (sort_key fst (ts_metal s))
      in \<lparr>tb_as_of = as_of,
          tb_accounts = map finish_acct (sort_key ta_code (map snd (ts_accounts s))),
          tb_total_base_debit = q_money (ts_total_d s), tb_total_base_credit = q_money (ts_total_c s),
          tb_balanced = (q_money (ts_total_d s) = q_money (ts_total_c s)),
          tb_metal_by_karat = metal,
          tb_metal_balanced = list_all (\<lambda>kv. tk_debit (snd kv) = tk_credit (snd kv)) metal\<rparr>)"

text \<open>The grams left on the debit side, per karat: \<open>net_grams\<close> of an account's bucket.\<close>

definition net_grams :: "tb_bucket \<Rightarrow> dec" where
  "net_grams v = q_grams (tk_debit v - tk_credit v)"

section \<open>What the fold computes\<close>

lemma dict_upd_keys: "set (map fst (dict_upd k v f al)) = insert k (set (map fst al))"
proof (induction al)
  case (Cons p al)
  then show ?case by (cases p) (simp add: insert_commute)
qed simp

lemma dict_upd_distinct: "distinct (map fst al) \<Longrightarrow> distinct (map fst (dict_upd k v f al))"
proof (induction al)
  case (Cons p al)
  then show ?case using dict_upd_keys [of k v f al] by (cases p) auto
qed simp

lemma map_of_dict_upd:
  "map_of (dict_upd k v f al) j =
     (if j = k then Some (f (case map_of al k of None \<Rightarrow> v | Some w \<Rightarrow> w)) else map_of al j)"
  by (induction al) auto

text \<open>Folding updates: the value at a key folds the updates of that key alone.\<close>

lemma map_of_fold_dict_upd:
  "map_of (fold (\<lambda>x. dict_upd (key x) (dflt x) (upd x)) xs al) j =
     (case filter (\<lambda>x. key x = j) xs of
        [] \<Rightarrow> map_of al j
      | y # ys \<Rightarrow> Some (fold upd (y # ys) (case map_of al j of None \<Rightarrow> dflt y | Some w \<Rightarrow> w)))"
  by (induction xs arbitrary: al) (auto simp: map_of_dict_upd split: list.splits option.splits)

lemma fold_dict_upd_distinct:
  "distinct (map fst al) \<Longrightarrow> distinct (map fst (fold (\<lambda>x. dict_upd (key x) (dflt x) (upd x)) xs al))"
  by (induction xs arbitrary: al) (auto intro: dict_upd_distinct)

lemma fold_dict_upd_keys:
  "set (map fst (fold (\<lambda>x. dict_upd (key x) (dflt x) (upd x)) xs al)) = set (map fst al) \<union> key ` set xs"
  by (induction xs arbitrary: al) (auto simp: dict_upd_keys simp del: set_map)

lemma fold_add_bucket:
  "fold (\<lambda>x. add_bucket (f x) (g x)) xs v = \<lparr>tk_debit = tk_debit v + sum_of f xs, tk_credit = tk_credit v + sum_of g xs\<rparr>"
  by (induction xs arbitrary: v) (simp_all add: add_bucket_def add.assoc)

lemma fold_tb_step:
  "fold tb_step gs s =
     \<lparr>ts_accounts = fold (\<lambda>g. dict_upd (acc_id (tg_account g)) (new_acct (tg_account g)) (tb_add_acct g)) gs (ts_accounts s),
      ts_total_d = ts_total_d s + sum_of (q_money \<circ> tg_base_debit) gs,
      ts_total_c = ts_total_c s + sum_of (q_money \<circ> tg_base_credit) gs,
      ts_metal = fold (\<lambda>g. dict_upd (karat_key (tg_karat g)) ZERO_BUCKET
                         (add_bucket (q_grams (tg_metal_debit g)) (q_grams (tg_metal_credit g))))
                   (filter (\<lambda>g. tg_metal_lines g \<noteq> 0) gs) (ts_metal s)\<rparr>"
  by (induction gs arbitrary: s) (simp_all add: tb_step_def)

lemma fold_tb_add_acct:
  "ta_account_id (fold tb_add_acct gs a) = ta_account_id a" "ta_code (fold tb_add_acct gs a) = ta_code a"
  "ta_name (fold tb_add_acct gs a) = ta_name a" "ta_type (fold tb_add_acct gs a) = ta_type a"
  "ta_system_key (fold tb_add_acct gs a) = ta_system_key a"
  "ta_base_debit (fold tb_add_acct gs a) = ta_base_debit a + sum_of (q_money \<circ> tg_base_debit) gs"
  "ta_base_credit (fold tb_add_acct gs a) = ta_base_credit a + sum_of (q_money \<circ> tg_base_credit) gs"
  by (induction gs arbitrary: a) (simp_all add: tb_add_acct_def)

text \<open>Grouping by key and summing the groups sums the rows.\<close>

lemma sum_groups:
  "distinct ks \<Longrightarrow> sum_of (\<lambda>k. sum_of f (filter (\<lambda>r. key r = k) rows)) ks
     = sum_of f (filter (\<lambda>r. key r \<in> set ks) rows)"
proof (induction ks)
  case (Cons k ks)
  have "sum_of f (filter (\<lambda>r. key r = k) rows) + sum_of f (filter (\<lambda>r. key r \<in> set ks) rows)
      = sum_of f (filter (\<lambda>r. key r \<in> set (k # ks)) rows)"
    unfolding sum_of_filter_if sum_of_add [symmetric]
    by (rule sum_of_cong) (use Cons.prems in auto)
  with Cons show ?case by simp
qed simp

lemma sum_groups_filter:
  "sum_of (\<lambda>k. sum_of f (filter (\<lambda>r. key r = k) rows)) (filter P (remdups (map key rows)))
     = sum_of f (filter (\<lambda>r. P (key r)) rows)"
proof -
  have "sum_of (\<lambda>k. sum_of f (filter (\<lambda>r. key r = k) rows)) (filter P (remdups (map key rows)))
      = sum_of f (filter (\<lambda>r. key r \<in> set (filter P (remdups (map key rows)))) rows)"
    by (rule sum_groups) simp
  also have "filter (\<lambda>r. key r \<in> set (filter P (remdups (map key rows)))) rows = filter (\<lambda>r. P (key r)) rows"
    by (rule filter_cong) auto
  finally show ?thesis .
qed

lemma tb_rows_account:
  "(a, l) \<in> set (tb_rows d as_of) \<Longrightarrow> a \<in> set (gl_accounts d) \<and> acc_id a = jl_account_id l
     \<and> l \<in> set (gl_lines d) \<and> dated d as_of (jl_entry_id l)"
  by (auto simp: tb_rows_def split: option.splits dest: find_SomeD dest!: sym [of "Some _"])

lemma tb_rows_lines:
  assumes "accounts_ok d"
  shows "map snd (tb_rows d as_of) = filter (\<lambda>l. dated d as_of (jl_entry_id l)) (gl_lines d)"
proof -
  have "map snd (concat (map (\<lambda>l. case find (\<lambda>a. acc_id a = jl_account_id l) (gl_accounts d) of
                        None \<Rightarrow> [] | Some a \<Rightarrow> [(a, l)]) ls)) = ls" if "set ls \<subseteq> set (gl_lines d)" for ls
    using that
  proof (induction ls)
    case (Cons l ls)
    then have "jl_account_id l \<in> acc_id ` set (gl_accounts d)" using assms by (auto simp: accounts_ok_def)
    then have "find (\<lambda>a. acc_id a = jl_account_id l) (gl_accounts d) \<noteq> None"
      by (auto simp: find_None_iff)
    then show ?case using Cons by auto
  qed simp
  then show ?thesis by (simp add: tb_rows_def)
qed

text \<open>A sum over the groups selected by account and karat is the sum over the lines so selected.\<close>

lemma tb_groups_sum:
  assumes "accounts_ok d"
    and proj: "\<And>rows k. f (tb_group_of rows k) = sum_of g (map snd (filter (\<lambda>r. tb_key r = k) rows))"
    and sel: "\<And>rows k. P (tb_group_of rows k) = Q (acc_id (fst k)) (snd (snd k))"
  shows "sum_of f (filter P (tb_groups d as_of))
    = sum_of g (filter (\<lambda>l. Q (jl_account_id l) (jl_karat l) \<and> dated d as_of (jl_entry_id l)) (gl_lines d))"
proof -
  let ?rows = "tb_rows d as_of"
  have "sum_of f (filter P (tb_groups d as_of))
      = sum_of (\<lambda>k. sum_of (g \<circ> snd) (filter (\<lambda>r. tb_key r = k) ?rows))
          (filter (\<lambda>k. Q (acc_id (fst k)) (snd (snd k))) (remdups (map tb_key ?rows)))"
    by (simp add: tb_groups_def Let_def filter_map sum_of_map comp_def proj sel)
  also have "\<dots> = sum_of (g \<circ> snd) (filter (\<lambda>r. Q (acc_id (fst (tb_key r))) (snd (snd (tb_key r)))) ?rows)"
    by (rule sum_groups_filter)
  also have "filter (\<lambda>r. Q (acc_id (fst (tb_key r))) (snd (snd (tb_key r)))) ?rows
      = filter (\<lambda>r. Q (jl_account_id (snd r)) (jl_karat (snd r))) ?rows"
    by (rule filter_cong) (auto simp: tb_key_def dest!: tb_rows_account)
  also have "sum_of (g \<circ> snd) \<dots> = sum_of g (filter (\<lambda>l. Q (jl_account_id l) (jl_karat l)) (map snd ?rows))"
    by (simp add: sum_of_map filter_map comp_def)
  finally show ?thesis by (simp add: tb_rows_lines [OF assms(1)] conj_commute)
qed

section \<open>Both dimensions balance\<close>

lemma tb_group_scaled:
  assumes "\<And>l. l \<in> set (gl_lines d) \<Longrightarrow> at_scale n (f l)" "k \<in> set (map tb_key (tb_rows d as_of))"
  shows "at_scale n (sum_of f (map snd (filter (\<lambda>r. tb_key r = k) (tb_rows d as_of))))"
  using assms(1) by (intro at_scale_sum_of) (auto dest: tb_rows_account)

lemma tb_groups_scaled:
  assumes "lines_ok d" "g \<in> set (tb_groups d as_of)"
  shows "q_money (tg_base_debit g) = tg_base_debit g" "q_money (tg_base_credit g) = tg_base_credit g"
    "q_grams (tg_metal_debit g) = tg_metal_debit g" "q_grams (tg_metal_credit g) = tg_metal_credit g"
  using assms
  by (auto simp: tb_groups_def Let_def tb_group_of_def lines_ok_def line_wf_def intro!: quantize_id tb_group_scaled)

text \<open>Sums over the lines of any selection of entries cancel.\<close>

lemma dated_base_balanced:
  assumes "lines_ok d"
  shows "sum_of jl_base_debit (filter (\<lambda>l. dated d as_of (jl_entry_id l)) (gl_lines d))
       = sum_of jl_base_credit (filter (\<lambda>l. dated d as_of (jl_entry_id l)) (gl_lines d))"
proof -
  have "sum_of (\<lambda>l. jl_base_debit l - jl_base_credit l)
      (filter (\<lambda>l. dated d as_of (jl_entry_id l)) (gl_lines d)) = 0"
    by (rule sum_groups_zero) (use assms in \<open>simp add: lines_ok_def balanced_lines_def sum_of_diff\<close>)
  then show ?thesis by (simp add: sum_of_diff)
qed

lemma dated_metal_balanced:
  assumes "lines_ok d"
  shows "sum_of jl_metal_debit_grams (filter (\<lambda>l. jl_karat l = k \<and> dated d as_of (jl_entry_id l)) (gl_lines d))
       = sum_of jl_metal_credit_grams (filter (\<lambda>l. jl_karat l = k \<and> dated d as_of (jl_entry_id l)) (gl_lines d))"
proof -
  have "sum_of (\<lambda>l. jl_metal_debit_grams l - jl_metal_credit_grams l)
      (filter (\<lambda>l. dated d as_of (jl_entry_id l)) (filter (\<lambda>l. jl_karat l = k) (gl_lines d))) = 0"
  proof (rule sum_groups_zero [where key = jl_entry_id and P = "dated d as_of"])
    fix i
    have "balanced_lines (filter (\<lambda>l. jl_entry_id l = i) (gl_lines d))" using assms by (simp add: lines_ok_def)
    then show "sum_of (\<lambda>l. jl_metal_debit_grams l - jl_metal_credit_grams l)
      (filter (\<lambda>l. jl_entry_id l = i) (filter (\<lambda>l. jl_karat l = k) (gl_lines d))) = 0"
      by (simp add: balanced_lines_def sum_of_diff conj_commute)
  qed
  then show ?thesis by (simp add: sum_of_diff conj_commute)
qed

lemma tb_totals:
  assumes "accounts_ok d" "lines_ok d"
  shows "ts_total_d (tb_fold (tb_groups d as_of))
           = sum_of jl_base_debit (filter (\<lambda>l. dated d as_of (jl_entry_id l)) (gl_lines d))"
    and "ts_total_c (tb_fold (tb_groups d as_of))
           = sum_of jl_base_credit (filter (\<lambda>l. dated d as_of (jl_entry_id l)) (gl_lines d))"
proof -
  have "sum_of (q_money \<circ> tg_base_debit) (tb_groups d as_of) = sum_of tg_base_debit (tb_groups d as_of)"
    "sum_of (q_money \<circ> tg_base_credit) (tb_groups d as_of) = sum_of tg_base_credit (tb_groups d as_of)"
    by (auto intro!: sum_of_cong simp: tb_groups_scaled [OF assms(2)])
  then show "ts_total_d (tb_fold (tb_groups d as_of))
           = sum_of jl_base_debit (filter (\<lambda>l. dated d as_of (jl_entry_id l)) (gl_lines d))"
    "ts_total_c (tb_fold (tb_groups d as_of))
           = sum_of jl_base_credit (filter (\<lambda>l. dated d as_of (jl_entry_id l)) (gl_lines d))"
    using tb_groups_sum [OF assms(1), where P = "\<lambda>_. True" and Q = "\<lambda>_ _. True" and f = tg_base_debit and g = jl_base_debit]
      tb_groups_sum [OF assms(1), where P = "\<lambda>_. True" and Q = "\<lambda>_ _. True" and f = tg_base_credit and g = jl_base_credit]
    by (simp_all add: tb_fold_def fold_tb_step tb_group_of_def Let_def)
qed

text \<open>
  A group without metal adds nothing, and a line with metal has a karat, so the bucket
  of a karat holds exactly the grams of the lines of that karat.
\<close>

lemma metal_karat:
  assumes "lines_ok d" "l \<in> set (gl_lines d)" "karat_key (jl_karat l) = k" "jl_karat l \<noteq> Some k"
  shows "jl_metal_debit_grams l = 0" "jl_metal_credit_grams l = 0"
  using assms by (auto simp: lines_ok_def line_wf_def karat_key_def split: option.splits if_splits)

lemma karat_key_sum:
  assumes "lines_ok d" "f = jl_metal_debit_grams \<or> f = jl_metal_credit_grams" "k \<noteq> []"
  shows "sum_of f (filter (\<lambda>l. karat_key (jl_karat l) = k \<and> P l) (gl_lines d))
       = sum_of f (filter (\<lambda>l. jl_karat l = Some k \<and> P l) (gl_lines d))"
  unfolding sum_of_filter_if
proof (rule sum_of_cong)
  fix l assume "l \<in> set (gl_lines d)"
  moreover have "karat_key (Some k) = k" using assms(3) by (simp add: karat_key_def)
  ultimately show "(if karat_key (jl_karat l) = k \<and> P l then f l else 0) = (if jl_karat l = Some k \<and> P l then f l else 0)"
    using metal_karat [OF assms(1), of l k] assms(2) by (cases "jl_karat l = Some k") auto
qed

lemma tb_metal_bucket:
  assumes "accounts_ok d" "lines_ok d"
    and "map_of (ts_metal (tb_fold (tb_groups d as_of))) k = Some v"
  shows "tk_debit v = tk_credit v"
proof -
  let ?gs = "filter (\<lambda>g. karat_key (tg_karat g) = k) (filter (\<lambda>g. tg_metal_lines g \<noteq> 0) (tb_groups d as_of))"
  let ?all = "filter (\<lambda>g. karat_key (tg_karat g) = k) (tb_groups d as_of)"
  have drop: "tg_metal_debit g = 0 \<and> tg_metal_credit g = 0"
    if "g \<in> set (tb_groups d as_of)" "tg_metal_lines g = 0" for g
  proof -
    from that(1) obtain k where g: "g = tb_group_of (tb_rows d as_of) k" by (auto simp: tb_groups_def Let_def)
    have "\<not> line_has_metal l" if "l \<in> set (map snd (filter (\<lambda>r. tb_key r = k) (tb_rows d as_of)))" for l
      using \<open>tg_metal_lines g = 0\<close> that by (simp only: g tb_group_of_def Let_def) (auto simp: filter_empty_conv)
    then show ?thesis
      unfolding g tb_group_of_def Let_def tb_group.simps line_has_metal_def
      by (intro conjI sum_of_zero) blast+
  qed
  have dropped: "sum_of tg_metal_debit ?gs = sum_of tg_metal_debit ?all"
    "sum_of tg_metal_credit ?gs = sum_of tg_metal_credit ?all"
    unfolding sum_of_filter_if by (auto intro!: sum_of_cong simp: drop)
  have v: "tk_debit v = sum_of (q_grams \<circ> tg_metal_debit) ?gs" "tk_credit v = sum_of (q_grams \<circ> tg_metal_credit) ?gs"
    using assms(3)
    by (auto simp: tb_fold_def fold_tb_step map_of_fold_dict_upd ZERO_BUCKET_def fold_add_bucket
        add_bucket_def comp_def split: list.splits)
  have "sum_of (q_grams \<circ> tg_metal_debit) ?gs = sum_of tg_metal_debit ?gs"
    "sum_of (q_grams \<circ> tg_metal_credit) ?gs = sum_of tg_metal_credit ?gs"
    by (auto intro!: sum_of_cong simp: tb_groups_scaled [OF assms(2)])
  moreover have "sum_of tg_metal_debit ?all
      = sum_of jl_metal_debit_grams (filter (\<lambda>l. karat_key (jl_karat l) = k \<and> dated d as_of (jl_entry_id l)) (gl_lines d))"
    "sum_of tg_metal_credit ?all
      = sum_of jl_metal_credit_grams (filter (\<lambda>l. karat_key (jl_karat l) = k \<and> dated d as_of (jl_entry_id l)) (gl_lines d))"
    by (rule tb_groups_sum [OF assms(1)]; simp add: tb_group_of_def Let_def)+
  moreover have "sum_of jl_metal_debit_grams (filter (\<lambda>l. karat_key (jl_karat l) = k \<and> dated d as_of (jl_entry_id l)) (gl_lines d))
     = sum_of jl_metal_credit_grams (filter (\<lambda>l. karat_key (jl_karat l) = k \<and> dated d as_of (jl_entry_id l)) (gl_lines d))"
  proof (cases "k = []")
    case True
    then have "karat_key (jl_karat l) \<noteq> k" for l :: gl_journal_line by (simp add: karat_key_def split: option.splits)
    then show ?thesis by simp
  next
    case False
    then show ?thesis
      by (simp add: karat_key_sum [OF assms(2)] dated_metal_balanced [OF assms(2)])
  qed
  ultimately show ?thesis using v dropped by simp
qed

lemma tb_is_balanced:
  assumes "accounts_ok d" "lines_ok d"
  shows "tb_balanced (compute_trial_balance d as_of)" "tb_metal_balanced (compute_trial_balance d as_of)"
proof -
  show "tb_balanced (compute_trial_balance d as_of)"
    by (simp add: compute_trial_balance_def Let_def tb_totals [OF assms] dated_base_balanced [OF assms(2)])
  have "distinct (map fst (ts_metal (tb_fold (tb_groups d as_of))))"
    by (simp add: tb_fold_def fold_tb_step fold_dict_upd_distinct)
  then have "tk_debit v = tk_credit v" if "(k, v) \<in> set (ts_metal (tb_fold (tb_groups d as_of)))" for k v
    using that by (intro tb_metal_bucket [OF assms, of as_of k]) simp
  then show "tb_metal_balanced (compute_trial_balance d as_of)"
    by (force simp: compute_trial_balance_def Let_def list_all_iff q_bucket_def)
qed

section \<open>The account rows\<close>

text \<open>What the lines of an account add up to, up to a date: the line-by-line replay.\<close>

definition account_total :: "(gl_journal_line \<Rightarrow> dec) \<Rightarrow> db \<Rightarrow> date \<Rightarrow> string \<Rightarrow> dec" where
  "account_total f d as_of i =
     sum_of f (filter (\<lambda>l. jl_account_id l = i \<and> dated d as_of (jl_entry_id l)) (gl_lines d))"

definition has_activity :: "db \<Rightarrow> date \<Rightarrow> string \<Rightarrow> bool" where
  "has_activity d as_of i \<longleftrightarrow> (\<exists>l \<in> set (gl_lines d). jl_account_id l = i \<and> dated d as_of (jl_entry_id l))"

text \<open>A row of the report for an account of the chart.\<close>

definition tb_row_for :: "db \<Rightarrow> date \<Rightarrow> gl_account \<Rightarrow> tb_acct \<Rightarrow> bool" where
  "tb_row_for d as_of a t \<longleftrightarrow>
     ta_account_id t = acc_id a \<and> ta_code t = acc_code a \<and> ta_name t = acc_name a \<and> ta_type t = acc_type a
     \<and> ta_system_key t = acc_system_key a
     \<and> ta_base_debit t = account_total jl_base_debit d as_of (acc_id a)
     \<and> ta_base_credit t = account_total jl_base_credit d as_of (acc_id a)
     \<and> ta_net_base t = ta_base_debit t - ta_base_credit t"

lemma tb_group_account:
  assumes "g \<in> set (tb_groups d as_of)"
  shows "tg_account g \<in> set (gl_accounts d)" "has_activity d as_of (acc_id (tg_account g))"
  using assms
  by (auto simp: tb_groups_def Let_def tb_group_of_def tb_key_def has_activity_def dest!: tb_rows_account)

lemma account_total_scaled:
  assumes "lines_ok d"
  shows "at_scale 2 (account_total jl_base_debit d as_of i)" "at_scale 2 (account_total jl_base_credit d as_of i)"
  using assms by (auto simp: account_total_def lines_ok_def line_wf_def intro!: at_scale_sum_of)

lemma tb_account_value:
  assumes "accounts_ok d" "lines_ok d" "map_of (ts_accounts (tb_fold (tb_groups d as_of))) i = Some t"
  shows "\<exists>a \<in> set (gl_accounts d). acc_id a = i \<and> tb_row_for d as_of a (finish_acct t) \<and> has_activity d as_of i"
proof -
  let ?gs = "filter (\<lambda>g. acc_id (tg_account g) = i) (tb_groups d as_of)"
  obtain g gs where gs: "?gs = g # gs" and t: "t = fold tb_add_acct (g # gs) (new_acct (tg_account g))"
    using assms(3) by (auto simp: tb_fold_def fold_tb_step map_of_fold_dict_upd split: list.splits)
  have g: "g \<in> set (tb_groups d as_of)" "acc_id (tg_account g) = i"
    using arg_cong [OF gs, of set] by auto
  have "sum_of (q_money \<circ> tg_base_debit) ?gs = sum_of tg_base_debit ?gs"
    "sum_of (q_money \<circ> tg_base_credit) ?gs = sum_of tg_base_credit ?gs"
    by (auto intro!: sum_of_cong simp: tb_groups_scaled [OF assms(2)])
  moreover have "sum_of tg_base_debit ?gs = account_total jl_base_debit d as_of i"
    "sum_of tg_base_credit ?gs = account_total jl_base_credit d as_of i"
    unfolding account_total_def
    by (rule tb_groups_sum [OF assms(1), where Q = "\<lambda>j _. j = i"]; simp add: tb_group_of_def Let_def)+
  ultimately have "ta_base_debit t = account_total jl_base_debit d as_of i"
    "ta_base_credit t = account_total jl_base_credit d as_of i"
    by (simp_all only: t fold_tb_add_acct gs) (simp_all add: new_acct_def)
  then have "tb_row_for d as_of (tg_account g) (finish_acct t)"
    by (simp add: tb_row_for_def finish_acct_def Let_def g(2) account_total_scaled [OF assms(2)] at_scale_diff
        t fold_tb_add_acct del: fold.simps) (simp add: new_acct_def g(2))
  with g tb_group_account [OF g(1)] show ?thesis by auto
qed

lemma tb_accounts_rows:
  assumes "accounts_ok d" "lines_ok d" "t \<in> set (tb_accounts (compute_trial_balance d as_of))"
  shows "\<exists>a \<in> set (gl_accounts d). tb_row_for d as_of a t \<and> has_activity d as_of (acc_id a)"
proof -
  have dist: "distinct (map fst (ts_accounts (tb_fold (tb_groups d as_of))))"
    by (simp add: tb_fold_def fold_tb_step fold_dict_upd_distinct)
  from assms(3) obtain i u where u: "(i, u) \<in> set (ts_accounts (tb_fold (tb_groups d as_of)))" "t = finish_acct u"
    by (auto simp: compute_trial_balance_def Let_def)
  from u(1) dist have "map_of (ts_accounts (tb_fold (tb_groups d as_of))) i = Some u" by simp
  from tb_account_value [OF assms(1,2) this] u(2) show ?thesis by blast
qed

lemma tb_accounts_complete:
  assumes "accounts_ok d" "lines_ok d" "has_activity d as_of i"
  shows "\<exists>t \<in> set (tb_accounts (compute_trial_balance d as_of)). ta_account_id t = i"
proof -
  from assms(3) obtain l where l: "l \<in> set (gl_lines d)" "jl_account_id l = i" "dated d as_of (jl_entry_id l)"
    by (auto simp: has_activity_def)
  then have "l \<in> set (map snd (tb_rows d as_of))" by (simp add: tb_rows_lines [OF assms(1)])
  then obtain a where a: "(a, l) \<in> set (tb_rows d as_of)" by auto
  then have "acc_id a = i" using l(2) tb_rows_account by blast
  moreover have "tb_group_of (tb_rows d as_of) (tb_key (a, l)) \<in> set (tb_groups d as_of)"
    using a by (force simp: tb_groups_def Let_def)
  ultimately have "i \<in> (\<lambda>g. acc_id (tg_account g)) ` set (tb_groups d as_of)"
    by (force simp: tb_group_of_def Let_def tb_key_def)
  then have "i \<in> set (map fst (ts_accounts (tb_fold (tb_groups d as_of))))"
    by (simp add: tb_fold_def fold_tb_step fold_dict_upd_keys del: set_map)
  then obtain u where u: "(i, u) \<in> set (ts_accounts (tb_fold (tb_groups d as_of)))" by auto
  then have "map_of (ts_accounts (tb_fold (tb_groups d as_of))) i = Some u"
    by (simp add: tb_fold_def fold_tb_step fold_dict_upd_distinct)
  then have "ta_account_id (finish_acct u) = i"
    using tb_account_value [OF assms(1,2)] by (fastforce simp: tb_row_for_def)
  then show ?thesis using u by (force simp: compute_trial_balance_def Let_def)
qed

lemma tb_accounts_distinct:
  assumes "accounts_ok d" "lines_ok d"
  shows "distinct (map ta_account_id (tb_accounts (compute_trial_balance d as_of)))"
proof -
  let ?ts = "ts_accounts (tb_fold (tb_groups d as_of))"
  have dist: "distinct (map fst ?ts)" by (simp add: tb_fold_def fold_tb_step fold_dict_upd_distinct)
  have "ta_account_id (finish_acct u) = i" if "(i, u) \<in> set ?ts" for i u
  proof -
    have "map_of ?ts i = Some u" using that dist by simp
    then show ?thesis using tb_account_value [OF assms] by (fastforce simp: tb_row_for_def)
  qed
  then have "map (ta_account_id \<circ> finish_acct \<circ> snd) ?ts = map fst ?ts" by auto
  moreover have "mset (map ta_account_id (tb_accounts (compute_trial_balance d as_of)))
      = mset (map (ta_account_id \<circ> finish_acct \<circ> snd) ?ts)"
    by (simp add: compute_trial_balance_def Let_def multiset.map_comp comp_assoc)
  ultimately show ?thesis using dist by (metis mset_eq_imp_distinct_iff)
qed

section \<open>Totals across operations\<close>

lemma account_total_cong:
  "gl_lines d' = gl_lines d \<Longrightarrow> gl_entries d' = gl_entries d \<Longrightarrow> account_total f d' as_of i = account_total f d as_of i"
  by (simp add: account_total_def dated_def)

text \<open>A posting moves an account by what the posted lines carry for it, from the entry date on.\<close>

lemma account_total_posted:
  assumes "posted sha q d e ls d'" "ids_ok d" and fg: "\<And>i k l. f (mk_line i (je_id e) k l) = g l"
  shows "account_total f d' as_of i = account_total f d as_of i
    + (if pq_entry_date q \<le> as_of then sum_of g (filter (\<lambda>l. ln_account_id l = i) ls) else 0)"
proof -
  have e: "je_id e = uid (uid_next d)" "gl_entries d' = gl_entries d @ [e]" "je_entry_date e = pq_entry_date q"
    "gl_lines d' = gl_lines d @ new_lines (Suc (uid_next d)) (je_id e) ls"
    using assms(1) by (simp_all add: posted_def)
  have old: "dated d' as_of (jl_entry_id l) = dated d as_of (jl_entry_id l)" if "l \<in> set (gl_lines d)" for l
  proof -
    have "jl_entry_id l \<noteq> je_id e"
      using that uid_next_fresh(2) [OF assms(2)] e(1) by (auto simp: filter_empty_conv)
    then show ?thesis by (simp add: dated_def e(2))
  qed
  have new: "dated d' as_of (je_id e) \<longleftrightarrow> pq_entry_date q \<le> as_of"
    using uid_next_fresh(1) [OF assms(2)] by (force simp: dated_def e(1-3))
  have olds: "filter (\<lambda>l. jl_account_id l = i \<and> dated d' as_of (jl_entry_id l)) (gl_lines d)
      = filter (\<lambda>l. jl_account_id l = i \<and> dated d as_of (jl_entry_id l)) (gl_lines d)"
    by (rule filter_cong) (auto simp: old)
  have "filter (\<lambda>l. jl_account_id l = i \<and> dated d' as_of (jl_entry_id l)) (new_lines (Suc (uid_next d)) (je_id e) ls)
      = (if pq_entry_date q \<le> as_of then filter (\<lambda>l. jl_account_id l = i) (new_lines (Suc (uid_next d)) (je_id e) ls) else [])"
    by (auto simp: filter_empty_conv new dest!: new_lines_entry intro!: filter_cong)
  then have "sum_of f (filter (\<lambda>l. jl_account_id l = i \<and> dated d' as_of (jl_entry_id l)) (new_lines (Suc (uid_next d)) (je_id e) ls))
      = (if pq_entry_date q \<le> as_of then sum_of f (filter (\<lambda>l. jl_account_id l = i) (new_lines (Suc (uid_next d)) (je_id e) ls)) else 0)"
    by simp
  also have "sum_of f (filter (\<lambda>l. jl_account_id l = i) (new_lines n (je_id e) ls)) = sum_of g (filter (\<lambda>l. ln_account_id l = i) ls)" for n
    unfolding sum_of_filter_if by (rule sum_of_new_lines) (simp add: fg)
  finally show ?thesis by (simp add: account_total_def e(4) olds)
qed

text \<open>The lines stored are the lines requested, resolved and rounded: sums by account carry over.\<close>

lemma resolve_denominations_sum:
  assumes "resolve_denominations d lns = Inr rs"
    and "\<And>l x. g (normalize_line_decimals (l\<lparr>ln_denomination := x\<rparr>)) = h l"
  shows "sum_of g (filter (\<lambda>l. ln_account_id l = i) (map normalize_line_decimals rs))
       = sum_of h (filter (\<lambda>l. ln_account_id l = i) lns)"
  using assms(1) unfolding resolve_denominations_def
proof (induction lns arbitrary: rs)
  case (Cons l lns)
  then obtain m ms where m: "resolve_line d l = Inr m" "map_res (resolve_line d) lns = Inr ms" "rs = m # ms"
    by (auto simp: res_simps)
  obtain x where "m = l\<lparr>ln_denomination := x\<rparr>"
    using m(1) by (auto simp: resolve_line_def res_simps split: option.splits)
  then show ?case using Cons.IH [OF m(2)] by (simp add: m(3) assms(2)) (simp add: normalize_line_decimals_def)
qed simp

definition account_net :: "db \<Rightarrow> date \<Rightarrow> string \<Rightarrow> dec" where
  "account_net d as_of i = account_total jl_base_debit d as_of i - account_total jl_base_credit d as_of i"

lemma account_net_cong:
  "gl_lines d' = gl_lines d \<Longrightarrow> gl_entries d' = gl_entries d \<Longrightarrow> account_net d' as_of i = account_net d as_of i"
  by (simp only: account_net_def account_total_cong [of d' d])

definition request_net :: "post_request \<Rightarrow> string \<Rightarrow> dec" where
  "request_net q i = sum_of (\<lambda>l. q_money (ln_base_debit l) - q_money (ln_base_credit l))
     (filter (\<lambda>l. ln_account_id l = i) (pq_lines q))"

lemma account_net_posted:
  assumes "posted sha q d e ls d'" "ids_ok d"
  shows "account_net d' as_of i = account_net d as_of i + (if pq_entry_date q \<le> as_of then request_net q i else 0)"
proof -
  obtain rs where rs: "resolve_denominations d (pq_lines q) = Inr rs" "ls = map normalize_line_decimals rs"
    using assms(1) by (auto simp: posted_def)
  have "sum_of (\<lambda>l. ln_base_debit l - ln_base_credit l) (filter (\<lambda>l. ln_account_id l = i) ls) = request_net q i"
    unfolding request_net_def rs(2)
    by (rule resolve_denominations_sum [OF rs(1)]) (simp add: normalize_line_decimals_def)
  then have "request_net q i = sum_of ln_base_debit (filter (\<lambda>l. ln_account_id l = i) ls)
      - sum_of ln_base_credit (filter (\<lambda>l. ln_account_id l = i) ls)"
    by (simp add: sum_of_diff)
  moreover note account_total_posted [OF assms, where f = jl_base_debit and g = ln_base_debit and i = i and as_of = as_of]
    account_total_posted [OF assms, where f = jl_base_credit and g = ln_base_credit and i = i and as_of = as_of]
  ultimately show ?thesis unfolding account_net_def by simp
qed

lemma post_entry_net:
  assumes "post_entry sha q d = Inr (e, d')" "ids_ok d"
  shows "account_net d' as_of i = account_net d as_of i + (if pq_entry_date q \<le> as_of then request_net q i else 0)"
  using post_entry_posted [OF assms(1)] account_net_posted [OF _ assms(2)] by blast

end
