(* ===== verification/PeriodClose.thy ===== *)
theory PeriodClose
  imports TrialBalance "HOL-Library.Multiset"
begin

text \<open>
  \<open>app/core/period_close.py\<close>: the readiness report of a month, the chain check it uses,
  the preview of the year-end closing entry and the closing itself. The lemmas show the
  chain check passes on every database the journal's invariant holds in, that the
  closing lines always balance, and that after a year is closed every income and
  expense account stands at zero on December 31.
\<close>

section \<open>Months\<close>

text \<open>\<open>datetime.date(y, m, d)\<close>, which refuses a date that does not exist.\<close>

definition mk_date :: "int \<Rightarrow> int \<Rightarrow> int \<Rightarrow> date res" where
  "mk_date y m dd = raise_if (\<not> valid_date (Date y m dd)) (ValueError (Msg ''date out of range'' []))
     (Inr (Date y m dd))"

definition period_month_range :: "int \<Rightarrow> int \<Rightarrow> (date \<times> date) res" where
  "period_month_range year period_no =
     raise_if (period_no < 1 \<or> 12 < period_no) (ValueError (Msg ''bad month number {}; must be 1-12'' [AInt period_no]))
     (let last = days_in_month year period_no in
      bnd (mk_date year period_no 1) (\<lambda>start. bnd (mk_date year period_no last) (\<lambda>fin. Inr (start, fin))))"

definition period_label :: "gl_period \<Rightarrow> string" where
  "period_label p = str_int (per_year p) @ ''-'' @ zpad 2 (per_no p)"

section \<open>The chain check\<close>

text \<open>
  The rows of the chain verification: entries ordered by \<open>(occurred_at, id)\<close>, each with
  its lines ordered by \<open>line_no\<close>. The sort by two keys is two stable sorts.
\<close>

definition ordered_gl_rows :: "db \<Rightarrow> gl_row list" where
  "ordered_gl_rows d =
     map (\<lambda>e. (e, map line_fields (entry_lines d (je_id e))))
       (sort_key je_occurred_at (sort_key je_id (gl_entries d)))"

definition gl_chain_intact :: "(string \<Rightarrow> string) \<Rightarrow> db \<Rightarrow> bool res" where
  "gl_chain_intact sha d =
     bnd (verify_gl_chain sha (ordered_gl_rows d)) (\<lambda>rep. Inr (cr_status rep \<in> {Intact, EmptyChain}))"

section \<open>Readiness\<close>

record close_readiness_report =
  rd_year :: int
  rd_period_no :: int
  rd_can_close :: bool
  rd_hard :: "(string \<times> bool \<times> string) list"
  rd_soft :: "(string \<times> nat \<times> string) list"

definition comma_join :: "string list \<Rightarrow> string" where
  "comma_join xs = (case xs of [] \<Rightarrow> [] | y # ys \<Rightarrow> y @ concat (map (\<lambda>z. '', '' @ z) ys))"

definition open_earlier :: "db \<Rightarrow> int \<Rightarrow> int \<Rightarrow> gl_period list" where
  "open_earlier d year period_no =
     filter (\<lambda>p. per_status p = PERIOD_OPEN
              \<and> (per_year p < year \<or> per_year p = year \<and> per_no p < period_no)) (gl_periods d)"

definition close_readiness :: "(string \<Rightarrow> string) \<Rightarrow> db \<Rightarrow> int \<Rightarrow> int \<Rightarrow> close_readiness_report res" where
  "close_readiness sha d year period_no =
     (let earlier = open_earlier d year period_no;
          prior_ok = (length earlier = 0);
          prior_detail = (if prior_ok then ''all earlier periods closed''
                          else ''earlier period(s) still open: '' @ comma_join (map period_label earlier))
      in bnd (gl_chain_intact sha d) (\<lambda>chain_ok.
         bnd (period_month_range year period_no) (\<lambda>(start, fin).
         let unrec = filter (\<lambda>b. bs_matched_gl_line_id b = None \<and> start \<le> bs_stmt_date b \<and> bs_stmt_date b \<le> fin)
                       (statement_lines d);
             open_bills = filter (\<lambda>b. vb_status b \<in> {BILL_OPEN, BILL_PARTIAL} \<and> start \<le> vb_date b \<and> vb_date b \<le> fin)
                            (vendor_bills d);
             hard = [(''prior_periods_closed'', prior_ok, prior_detail),
                     (''chain_intact'', chain_ok,
                      if chain_ok then ''ledger hash chain intact'' else ''ledger hash chain BROKEN'')];
             soft = [(''unreconciled_bank_lines'', length unrec,
                      str_int (int (length unrec)) @ '' unreconciled bank statement line(s) this month''),
                     (''open_vendor_bills'', length open_bills,
                      str_int (int (length open_bills)) @ '' open vendor bill(s) dated this month'')]
         in Inr \<lparr>rd_year = year, rd_period_no = period_no,
                 rd_can_close = list_all (\<lambda>(_, ok, _). ok) hard, rd_hard = hard, rd_soft = soft\<rparr>)))"

section \<open>Year-end close\<close>

definition YEAR_CLOSE :: string where "YEAR_CLOSE = SOURCE_YEAR_CLOSE"

definition year_already_closed :: "db \<Rightarrow> int \<Rightarrow> bool res" where
  "year_already_closed d year =
     bnd (mk_date year 1 1) (\<lambda>start. bnd (mk_date year 12 31) (\<lambda>fin.
       Inr (find (\<lambda>e. je_source_type e = YEAR_CLOSE \<and> start \<le> je_entry_date e \<and> je_entry_date e \<le> fin
                    \<and> \<not> (\<exists>r \<in> set (gl_entries d). je_reverses_entry_id r = Some (je_id e)))
              (gl_entries d) \<noteq> None)))"

record preview_line =
  pv_account_id :: string
  pv_code :: string
  pv_name :: string
  pv_system_key :: "string option"
  pv_debit :: dec
  pv_credit :: dec

record close_preview =
  cp_year :: int
  cp_lines :: "preview_line list"
  cp_net_income :: dec
  cp_retained_earnings_delta :: dec
  cp_already_closed :: bool

text \<open>The natural balance of an income (credit) or expense (debit) account.\<close>

definition income_bal :: "tb_acct \<Rightarrow> dec" where
  "income_bal a = ta_base_credit a - ta_base_debit a"

definition expense_bal :: "tb_acct \<Rightarrow> dec" where
  "expense_bal a = ta_base_debit a - ta_base_credit a"

definition closing_line :: "tb_acct \<Rightarrow> dec \<Rightarrow> dec \<Rightarrow> preview_line" where
  "closing_line a dr cr = \<lparr>pv_account_id = ta_account_id a, pv_code = ta_code a, pv_name = ta_name a,
     pv_system_key = ta_system_key a, pv_debit = dr, pv_credit = cr\<rparr>"

definition pl_lines :: "tb_acct \<Rightarrow> preview_line list" where
  "pl_lines a =
     (case ta_type a of
        INCOME \<Rightarrow> if income_bal a \<noteq> 0 then [closing_line a (q_money (income_bal a)) 0] else []
      | EXPENSE \<Rightarrow> if expense_bal a \<noteq> 0 then [closing_line a 0 (q_money (expense_bal a))] else []
      | _ \<Rightarrow> [])"

definition income_total :: "tb_acct list \<Rightarrow> dec" where
  "income_total accs = sum_of income_bal (filter (\<lambda>a. ta_type a = INCOME) accs)"

definition expense_total :: "tb_acct list \<Rightarrow> dec" where
  "expense_total accs = sum_of expense_bal (filter (\<lambda>a. ta_type a = EXPENSE) accs)"

definition re_lines :: "gl_account \<Rightarrow> dec \<Rightarrow> preview_line list" where
  "re_lines re net =
     (let l = \<lambda>dr cr. \<lparr>pv_account_id = acc_id re, pv_code = acc_code re, pv_name = acc_name re,
                       pv_system_key = Some ''RETAINED_EARNINGS'', pv_debit = dr, pv_credit = cr\<rparr>
      in if 0 < net then [l 0 net] else if net < 0 then [l (- net) 0] else [])"

definition year_close_preview :: "db \<Rightarrow> int \<Rightarrow> close_preview res" where
  "year_close_preview d year =
     bnd (mk_date year 12 31) (\<lambda>as_of.
     let accs = tb_accounts (compute_trial_balance d as_of);
         net_income = q_money (income_total accs - expense_total accs)
     in bnd (scalar_one (\<lambda>a. acc_system_key a = Some ''RETAINED_EARNINGS'') (gl_accounts d)) (\<lambda>re.
        bnd (year_already_closed d year) (\<lambda>closed.
        Inr \<lparr>cp_year = year, cp_lines = concat (map pl_lines accs) @ re_lines re net_income,
             cp_net_income = net_income, cp_retained_earnings_delta = net_income,
             cp_already_closed = closed\<rparr>)))"

text \<open>A preview line as a money-only journal line.\<close>

definition close_gl_line :: "preview_line \<Rightarrow> gl_line" where
  "close_gl_line l =
     (GLLine (pv_account_id l) (Some MONEY) ''year close'')
       \<lparr>ln_base_debit := pv_debit l, ln_base_credit := pv_credit l,
        ln_money_debit := pv_debit l, ln_money_credit := pv_credit l\<rparr>"

text \<open>Next year's twelve periods, those that exist skipped.\<close>

definition open_next_year :: "int \<Rightarrow> db \<Rightarrow> db res" where
  "open_next_year year d =
     (let existing = map per_no (filter (\<lambda>p. per_year p = year + 1) (gl_periods d))
      in fold_res (\<lambda>m d. if m \<in> set existing then Inr d
                         else bnd (add_period (year + 1) m PERIOD_OPEN d) (\<lambda>(_, d). Inr d))
           [1..12] d)"

definition ensure_december :: "int \<Rightarrow> db \<Rightarrow> db res" where
  "ensure_december year d =
     bnd (scalar_one_or_none (\<lambda>p. per_year p = year \<and> per_no p = 12) (gl_periods d)) (\<lambda>dec.
       if dec = None then bnd (add_period year 12 PERIOD_CLOSED d) (\<lambda>(_, d). Inr d) else Inr d)"

definition close_year :: "(string \<Rightarrow> string) \<Rightarrow> int \<Rightarrow> string \<Rightarrow> db \<Rightarrow> (gl_journal_entry \<times> db) res" where
  "close_year sha year actor d =
     (let open_periods = filter (\<lambda>p. per_year p = year \<and> per_status p = PERIOD_OPEN) (gl_periods d) in
     raise_if (open_periods \<noteq> [])
       (HTTPException 422 (Msg ''Cannot close year - open period(s): {}'' [AStr (comma_join (map period_label open_periods))]))
    (raise_if (find (\<lambda>p. per_year p = year) (gl_periods d) = None)
       (HTTPException 422 (Msg ''No periods exist for {}.'' [AInt year]))
    (bnd (year_already_closed d year) (\<lambda>closed.
     raise_if closed (HTTPException 409 (Msg ''Fiscal year {} is already closed.'' [AInt year]))
    (bnd (year_close_preview d year) (\<lambda>preview.
     raise_if (cp_lines preview = [])
       (HTTPException 422 (Msg ''Nothing to close for {} (no P&L balances).'' [AInt year]))
    (bnd (ensure_december year d) (\<lambda>d.
     bnd (mk_date year 12 31) (\<lambda>dec31.
     bnd (post_entry sha
           ((post_args dec31 (''Year close '' @ str_int year) YEAR_CLOSE None
               (map close_gl_line (cp_lines preview)) actor)\<lparr>pq_allow_closed_period := True\<rparr>) d) (\<lambda>(entry, d).
     bnd (ledger_record sha EVENT_GL_YEAR_CLOSED actor ''fiscal_year'' (str_int year)
           (PDict [(''year'', PInt year), (''net_income'', PStr (str_dec 2 (cp_net_income preview))),
                   (''entry_id'', PStr (je_id entry))]) d) (\<lambda>(_, d).
     bnd (open_next_year year d) (\<lambda>d. Inr (entry, d)))))))))))))"

section \<open>The chain check passes\<close>

lemma filter_eq_single: "distinct ys \<Longrightarrow> k \<in> set ys \<Longrightarrow> filter (\<lambda>x. x = k) ys = [k]"
  by (induction ys) (auto simp: filter_empty_conv)

lemma sort_key_strict:
  fixes f :: "'a \<Rightarrow> 'k::linorder" and g :: "'a \<Rightarrow> 'j::linorder"
  assumes "sorted_wrt (<) (map f xs)"
  shows "sort_key f (sort_key g xs) = xs"
proof (rule properties_for_sort_key)
  have inj: "inj_on f (set xs)"
    using assms by (simp add: strict_sorted_iff distinct_map)
  then show "filter (\<lambda>x. f k = f x) xs = filter (\<lambda>x. f k = f x) (sort_key g xs)" if "k \<in> set xs" for k
  proof -
    have "filter (\<lambda>x. f k = f x) ys = filter (\<lambda>x. x = k) ys" if "set ys \<subseteq> set xs" for ys
      using that inj \<open>k \<in> set xs\<close> by (intro filter_cong) (auto simp: inj_on_def)
    moreover have "distinct xs" using assms by (simp add: strict_sorted_iff distinct_map)
    ultimately show ?thesis
      by (simp add: filter_eq_single that)
  qed
  show "sorted (map f xs)" using assms by (simp add: strict_sorted_iff)
qed simp

lemma ordered_gl_rows_eq: "time_ok d \<Longrightarrow> ordered_gl_rows d = gl_rows d"
  by (simp add: ordered_gl_rows_def gl_rows_def time_ok_def sort_key_strict)

lemma gl_chain_verified:
  assumes "journal_ok sha d"
  shows "verify_gl_chain sha (ordered_gl_rows d) =
    Inr \<lparr>cr_status = (if gl_entries d = [] then EmptyChain else Intact),
         cr_total_rows = length (gl_entries d), cr_first_break = None\<rparr>"
  using assms gc.walk_linked [of sha GENESIS_HASH "gl_rows d" 0]
  by (simp add: journal_ok_def chain_ok_def ordered_gl_rows_eq verify_gl_chain_def) (simp add: gl_rows_def)

lemma gl_chain_intact_ok: "journal_ok sha d \<Longrightarrow> gl_chain_intact sha d = Inr True"
  by (simp add: gl_chain_intact_def gl_chain_verified)

section \<open>The closing lines\<close>

lemma pl_lines_sums:
  assumes "\<And>a. a \<in> set accs \<Longrightarrow> at_scale 2 (ta_base_debit a) \<and> at_scale 2 (ta_base_credit a)"
  shows "sum_of pv_debit (concat (map pl_lines accs)) = income_total accs"
    and "sum_of pv_credit (concat (map pl_lines accs)) = expense_total accs"
    and "at_scale 2 (income_total accs)" "at_scale 2 (expense_total accs)"
  using assms
  by (induction accs)
     (auto simp: pl_lines_def income_total_def expense_total_def closing_line_def income_bal_def expense_bal_def
        at_scale_diff at_scale_add split: account_type.splits)

lemma re_lines_sums:
  "sum_of pv_debit (re_lines re net) - sum_of pv_credit (re_lines re net) = - net"
  by (simp add: re_lines_def Let_def)

text \<open>Every row of the trial balance is at the scale of the money columns.\<close>

lemma tb_accounts_scaled:
  assumes "accounts_ok d" "lines_ok d" "a \<in> set (tb_accounts (compute_trial_balance d as_of))"
  shows "at_scale 2 (ta_base_debit a)" "at_scale 2 (ta_base_credit a)"
  using tb_accounts_rows [OF assms] account_total_scaled [OF assms(2)] by (auto simp: tb_row_for_def)

lemma preview_balanced:
  assumes "accounts_ok d" "lines_ok d" "year_close_preview d year = Inr p"
  shows "sum_of pv_debit (cp_lines p) = sum_of pv_credit (cp_lines p)"
proof -
  obtain as_of re where p: "cp_lines p = concat (map pl_lines (tb_accounts (compute_trial_balance d as_of)))
      @ re_lines re (q_money (income_total (tb_accounts (compute_trial_balance d as_of))
          - expense_total (tb_accounts (compute_trial_balance d as_of))))"
    using assms(3) by (auto simp: year_close_preview_def res_simps Let_def)
  note s = pl_lines_sums [where accs = "tb_accounts (compute_trial_balance d as_of)",
      OF conjI [OF tb_accounts_scaled [OF assms(1,2)]]]
  show ?thesis
    using re_lines_sums [of re "income_total (tb_accounts (compute_trial_balance d as_of))
          - expense_total (tb_accounts (compute_trial_balance d as_of))"] s
    by (simp add: p at_scale_diff)
qed

lemma preview_balanced_lines:
  assumes "accounts_ok d" "lines_ok d" "year_close_preview d year = Inr p"
  shows "balanced (map close_gl_line (cp_lines p))"
  using preview_balanced [OF assms]
  by (simp add: balanced_def sum_of_map comp_def close_gl_line_def GLLine_def filter_map sum_of_zero)

section \<open>Closing a year\<close>

lemma open_next_year_same_books:
  assumes "open_next_year year d = Inr d'"
  shows "same_books d d'"
proof -
  have "same_books d d'"
    using assms unfolding open_next_year_def Let_def
  proof (rule fold_res_inv)
    show "same_books d d" by (simp add: same_books_def)
  next
    fix m s t
    assume "(if m \<in> set (map per_no (filter (\<lambda>p. per_year p = year + 1) (gl_periods d))) then Inr s
         else bnd (add_period (year + 1) m PERIOD_OPEN s) (\<lambda>(_, d). Inr d)) = Inr t" "same_books d s"
    then show "same_books d t"
      by (auto simp: res_simps split: if_splits intro: same_books_trans dest: add_period_same_books)
  qed
  then show ?thesis .
qed

lemma ensure_december_same_books: "ensure_december year d = Inr d' \<Longrightarrow> same_books d d'"
  by (auto simp: ensure_december_def res_simps same_books_refl split: if_splits dest: add_period_same_books)

context journal_invariant
begin

lemma inv_close_year:
  assumes "close_year sha year actor d = Inr (e, d')" "Inv d"
  shows "Inv d'"
proof -
  from assms(1) obtain d1 q d2 r d3 where
    "ensure_december year d = Inr d1" "post_entry sha q d1 = Inr (e, d2)" "proper_request d1 q"
    "\<exists>ev ac rt ri p. ledger_record sha ev ac rt ri p d2 = Inr (r, d3)" "open_next_year year d3 = Inr d'"
    by (fastforce simp: close_year_def res_simps Let_def post_args_def proper_request_def)
  then show ?thesis
    using assms(2) inv_frame inv_post inv_record ensure_december_same_books open_next_year_same_books by metis
qed

end

text \<open>The pieces of a successful closing.\<close>

lemma close_year_steps:
  assumes "close_year sha year actor d = Inr (e, d')"
  obtains p d1 d2 r d3 where
    "valid_date (Date year 12 31)" "year_close_preview d year = Inr p" "year_already_closed d year = Inr False"
    "ensure_december year d = Inr d1"
    "post_entry sha ((post_args (Date year 12 31) (''Year close '' @ str_int year) YEAR_CLOSE None
               (map close_gl_line (cp_lines p)) actor)\<lparr>pq_allow_closed_period := True\<rparr>) d1 = Inr (e, d2)"
    "ledger_record sha EVENT_GL_YEAR_CLOSED actor ''fiscal_year'' (str_int year)
       (PDict [(''year'', PInt year), (''net_income'', PStr (str_dec 2 (cp_net_income p))),
               (''entry_id'', PStr (je_id e))]) d2 = Inr (r, d3)"
    "open_next_year year d3 = Inr d'"
  using assms by (auto simp: close_year_def res_simps Let_def mk_date_def)

lemma year_close_previewD:
  assumes "year_close_preview d year = Inr p"
  obtains re where "re \<in> set (gl_accounts d)" "acc_system_key re = Some ''RETAINED_EARNINGS''"
    "cp_lines p = concat (map pl_lines (tb_accounts (compute_trial_balance d (Date year 12 31)))) @ re_lines re (cp_net_income p)"
  using assms by (auto simp: year_close_preview_def res_simps Let_def mk_date_def dest!: scalar_oneD)

definition is_pl :: "account_type \<Rightarrow> bool" where
  "is_pl t \<longleftrightarrow> t = INCOME \<or> t = EXPENSE"

definition pv_net :: "preview_line \<Rightarrow> dec" where
  "pv_net l = q_money (pv_debit l) - q_money (pv_credit l)"

lemma close_request_net:
  "request_net ((post_args dt m st si (map close_gl_line ls) a)\<lparr>pq_allow_closed_period := True\<rparr>) i
     = sum_of pv_net (filter (\<lambda>l. pv_account_id l = i) ls)"
  by (simp add: request_net_def post_args_def filter_map sum_of_map comp_def close_gl_line_def GLLine_def pv_net_def [abs_def])

text \<open>A row's closing line moves its account by minus its balance.\<close>

lemma pl_lines_net:
  assumes "at_scale 2 (ta_base_debit t)" "at_scale 2 (ta_base_credit t)"
  shows "sum_of pv_net (filter (\<lambda>l. pv_account_id l = i) (pl_lines t))
     = (if ta_account_id t = i \<and> is_pl (ta_type t) then ta_base_credit t - ta_base_debit t else 0)"
  using assms
  by (auto simp: pl_lines_def closing_line_def pv_net_def income_bal_def expense_bal_def is_pl_def at_scale_diff
      split: account_type.splits)

lemma pl_rows_net:
  assumes "\<And>t. t \<in> set accs \<Longrightarrow> at_scale 2 (ta_base_debit t) \<and> at_scale 2 (ta_base_credit t)"
  shows "sum_of pv_net (filter (\<lambda>l. pv_account_id l = i) (concat (map pl_lines accs)))
     = sum_of (\<lambda>t. if is_pl (ta_type t) then ta_base_credit t - ta_base_debit t else 0)
         (filter (\<lambda>t. ta_account_id t = i) accs)"
  using assms by (induction accs) (auto simp: pl_lines_net)

lemma no_activity_net: "\<not> has_activity d as_of i \<Longrightarrow> account_net d as_of i = 0"
  by (auto simp: account_net_def account_total_def has_activity_def filter_False)

lemma filter_by_id:
  "distinct (map f xs) \<Longrightarrow> t \<in> set xs \<Longrightarrow> filter (\<lambda>x. f x = f t) xs = [t]"
proof (induction xs)
  case (Cons x xs)
  show ?case
  proof (cases "x = t")
    case True
    then have "filter (\<lambda>x. f x = f t) xs = []" using Cons.prems by (auto simp: filter_empty_conv image_iff)
    then show ?thesis using True by simp
  next
    case False
    then have "t \<in> set xs" "f x \<noteq> f t" using Cons.prems by auto
    then show ?thesis using Cons by simp
  qed
qed simp

lemma unique_account:
  assumes "accounts_ok d" "a \<in> set (gl_accounts d)" "b \<in> set (gl_accounts d)" "acc_id a = acc_id b"
  shows "a = b"
proof -
  have "inj_on acc_id (set (gl_accounts d))" using assms(1) by (simp add: accounts_ok_def distinct_map)
  then show ?thesis by (rule inj_onD [OF _ assms(4) assms(2,3)])
qed

text \<open>The rows of the report for one account: its row when it has activity, none otherwise.\<close>

lemma tb_rows_of_account:
  assumes "accounts_ok d" "lines_ok d" "a \<in> set (gl_accounts d)"
  shows "sum_of (\<lambda>t. if is_pl (ta_type t) then ta_base_credit t - ta_base_debit t else 0)
           (filter (\<lambda>t. ta_account_id t = acc_id a) (tb_accounts (compute_trial_balance d as_of)))
         = (if is_pl (acc_type a) then - account_net d as_of (acc_id a) else 0)"
proof (cases "has_activity d as_of (acc_id a)")
  case True
  then obtain t where t: "t \<in> set (tb_accounts (compute_trial_balance d as_of))" "ta_account_id t = acc_id a"
    using tb_accounts_complete [OF assms(1,2)] by blast
  then obtain b where b: "b \<in> set (gl_accounts d)" "tb_row_for d as_of b t"
    using tb_accounts_rows [OF assms(1,2)] by blast
  have "acc_id b = acc_id a" using b(2) unfolding tb_row_for_def t(2) by (elim conjE) (rule sym)
  then have "b = a" by (rule unique_account [OF assms(1) b(1) assms(3)])
  moreover have "filter (\<lambda>t. ta_account_id t = acc_id a) (tb_accounts (compute_trial_balance d as_of)) = [t]"
    using filter_by_id [OF tb_accounts_distinct [OF assms(1,2)] t(1)] by (simp only: t(2))
  ultimately show ?thesis using b(2) by (simp add: tb_row_for_def account_net_def)
next
  case False
  have "ta_account_id t \<noteq> acc_id a" if "t \<in> set (tb_accounts (compute_trial_balance d as_of))" for t
    using tb_accounts_rows [OF assms(1,2) that] False by (auto simp: tb_row_for_def)
  then have "filter (\<lambda>t. ta_account_id t = acc_id a) (tb_accounts (compute_trial_balance d as_of)) = []"
    by (simp add: filter_empty_conv)
  then show ?thesis using no_activity_net [OF False] by simp
qed

lemma re_lines_net:
  assumes "at_scale 2 net"
  shows "sum_of pv_net (filter (\<lambda>l. pv_account_id l = i) (re_lines re net)) = (if acc_id re = i then - net else 0)"
proof -
  have "at_scale 2 (- net)" using assms by (rule at_scale_uminus)
  then show ?thesis using assms by (simp add: re_lines_def Let_def pv_net_def)
qed

lemma close_year_net:
  assumes "close_year sha year actor d = Inr (e, d')" "journal_ok sha d" "a \<in> set (gl_accounts d)"
    and "year_close_preview d year = Inr p"
  obtains re where "re \<in> set (gl_accounts d)" "acc_system_key re = Some ''RETAINED_EARNINGS''"
    and "account_net d' (Date year 12 31) (acc_id a) =
      (if is_pl (acc_type a) then 0 else account_net d (Date year 12 31) (acc_id a))
      - (if a = re then cp_net_income p else 0)"
proof -
  let ?day = "Date year 12 31"
  from assms(1) obtain p' d1 d2 r d3 where
    s: "year_close_preview d year = Inr p'" "ensure_december year d = Inr d1"
    "post_entry sha ((post_args ?day (''Year close '' @ str_int year) YEAR_CLOSE None
               (map close_gl_line (cp_lines p')) actor)\<lparr>pq_allow_closed_period := True\<rparr>) d1 = Inr (e, d2)"
    "ledger_record sha EVENT_GL_YEAR_CLOSED actor ''fiscal_year'' (str_int year)
       (PDict [(''year'', PInt year), (''net_income'', PStr (str_dec 2 (cp_net_income p'))),
               (''entry_id'', PStr (je_id e))]) d2 = Inr (r, d3)"
    "open_next_year year d3 = Inr d'"
    by (rule close_year_steps)
  have pp: "p' = p" using s(1) assms(4) by simp
  obtain re where re: "re \<in> set (gl_accounts d)" "acc_system_key re = Some ''RETAINED_EARNINGS''"
    "cp_lines p = concat (map pl_lines (tb_accounts (compute_trial_balance d ?day))) @ re_lines re (cp_net_income p)"
    by (rule year_close_previewD [OF assms(4)])
  have ok: "accounts_ok d" "lines_ok d" using assms(2) by (simp_all add: journal_ok_def)
  have b1: "same_books d d1" by (rule ensure_december_same_books [OF s(2)])
  then have ids: "ids_ok d1" using assms(2) jok.inv_frame [of d d1 sha] by (simp add: journal_ok_def)
  have sc: "at_scale 2 (cp_net_income p)"
    using assms(4) by (auto simp: year_close_preview_def res_simps Let_def)
  have tail: "account_net d' ?day i = account_net d2 ?day i" for i
  proof -
    have "gl_lines d3 = gl_lines d2" "gl_entries d3 = gl_entries d2"
      using arg_cong [OF ledger_record_frame(1) [OF s(4)], of gl_lines] arg_cong [OF ledger_record_frame(1) [OF s(4)], of gl_entries]
      by simp_all
    moreover have "gl_lines d' = gl_lines d3" "gl_entries d' = gl_entries d3"
      using open_next_year_same_books [OF s(5)] by (simp_all add: same_books_def)
    ultimately show ?thesis by (intro account_net_cong) simp_all
  qed
  have head: "account_net d1 ?day i = account_net d ?day i" for i
    using b1 by (intro account_net_cong) (simp_all add: same_books_def)
  have "account_net d2 ?day (acc_id a) = account_net d ?day (acc_id a)
      + sum_of pv_net (filter (\<lambda>l. pv_account_id l = acc_id a) (cp_lines p))"
    using post_entry_net [OF s(3) ids, of ?day "acc_id a"]
    by (simp add: close_request_net head pp) (simp add: post_args_def)
  also have "sum_of pv_net (filter (\<lambda>l. pv_account_id l = acc_id a) (cp_lines p))
      = (if is_pl (acc_type a) then - account_net d ?day (acc_id a) else 0)
        + (if acc_id re = acc_id a then - cp_net_income p else 0)"
    by (simp only: re(3) filter_append sum_of_simps re_lines_net [OF sc] tb_rows_of_account [OF ok assms(3)]
        pl_rows_net [where accs = "tb_accounts (compute_trial_balance d ?day)", OF conjI [OF tb_accounts_scaled [OF ok]]])
  also have "acc_id re = acc_id a \<longleftrightarrow> a = re"
    using unique_account [OF ok(1) re(1) assms(3)] by auto
  finally show ?thesis using re(1,2) tail by (intro that [of re]) auto
qed

end
