(* ===== verification/Pricing.thy ===== *)
theory Pricing
  imports Models
begin

text \<open>
  \<open>app/core/pricing.py\<close> and \<open>app/core/money.py\<close>: purity, the price of a piece, of a
  coin or ounce, and of a walk-in buyback, rounded half-up to cents. Products are taken
  at the decimal context's precision; \<open>ctx_mult\<close> shows when that is exact.
\<close>

section \<open>Purity\<close>

fun KARAT_PURITY :: "karat \<Rightarrow> dec" where
  "KARAT_PURITY K18 = 750 / 1000"
| "KARAT_PURITY K21 = 875 / 1000"
| "KARAT_PURITY K22 = 917 / 1000"
| "KARAT_PURITY K24 = 999 / 1000"

lemma purity_bounds: "0 < KARAT_PURITY k" "KARAT_PURITY k < 1"
  by (cases k; simp)+

lemma purity_scale: "at_scale 3 (KARAT_PURITY k)"
  by (cases k) (simp_all add: at_scale_def)

definition round_half_up :: "dec \<Rightarrow> dec" where
  "round_half_up x = quantize_up 2 x"

section \<open>Prices\<close>

record price =
  px_purity_rate :: dec
  px_effective_rate :: dec
  px_metal_value :: dec
  px_margin_amount :: dec
  px_stone_value :: dec
  px_final_price :: dec

definition calculate_price :: "dec \<Rightarrow> karat \<Rightarrow> dec \<Rightarrow> dec \<Rightarrow> dec \<Rightarrow> dec \<Rightarrow> dec \<Rightarrow> price" where
  "calculate_price rate_24k k weight_grams margin_percent making_charge karat_markup stone_value =
     (let purity_rate = dmul rate_24k (KARAT_PURITY k);
          effective_rate = purity_rate + karat_markup;
          metal_value = dmul effective_rate weight_grams;
          margin_amount = dmul metal_value (dquot margin_percent 100);
          with_margin = metal_value + margin_amount;
          final_price = with_margin + making_charge + stone_value
      in \<lparr>px_purity_rate = round_half_up purity_rate, px_effective_rate = round_half_up effective_rate,
          px_metal_value = round_half_up metal_value, px_margin_amount = round_half_up margin_amount,
          px_stone_value = round_half_up stone_value, px_final_price = round_half_up final_price\<rparr>)"

definition quoted :: "string \<Rightarrow> string" where
  "quoted s = CHR 0x27 # s @ [CHR 0x27]"

record unit_price =
  ux_effective_rate :: dec
  ux_metal_value :: dec
  ux_margin_amount :: dec
  ux_final_price :: dec

definition calculate_unit_price :: "dec \<Rightarrow> dec \<Rightarrow> dec \<Rightarrow> string \<Rightarrow> dec \<Rightarrow> unit_price res" where
  "calculate_unit_price rate_24k weight_grams markup_per_gram mode margin_value =
     raise_if (mode \<notin> {''USD'', ''PERCENT''})
       (ValueError (Msg ''margin_mode must be {} or {}, got {}''
          [AStr (quoted ''USD''), AStr (quoted ''PERCENT''), AStr (quoted mode)]))
     (let effective_rate = rate_24k + markup_per_gram;
          metal_value = dmul effective_rate weight_grams;
          margin_amount = (if mode = ''PERCENT'' then dmul metal_value (dquot margin_value 100) else margin_value);
          final_price = metal_value + margin_amount
      in Inr \<lparr>ux_effective_rate = round_half_up effective_rate, ux_metal_value = round_half_up metal_value,
              ux_margin_amount = round_half_up margin_amount, ux_final_price = round_half_up final_price\<rparr>)"

record buyback_price =
  bx_purity_rate :: dec
  bx_effective_rate_per_gram :: dec
  bx_buy_price :: dec

definition compute_buyback_price :: "dec \<Rightarrow> karat \<Rightarrow> dec \<Rightarrow> string \<Rightarrow> dec \<Rightarrow> buyback_price res" where
  "compute_buyback_price rate_24k k weight_grams mode margin_value =
     raise_if (mode \<notin> {''USD_PER_GRAM'', ''PERCENT''})
       (ValueError (Msg ''margin_mode must be {} or {}, got {}''
          [AStr (quoted ''USD_PER_GRAM''), AStr (quoted ''PERCENT''), AStr (quoted mode)]))
    (raise_if (mode = ''PERCENT'' \<and> 100 \<le> margin_value)
       (ValueError (Msg ''PERCENT margin must be < 100, got {}'' [ADec margin_value]))
    (let purity_rate = dmul rate_24k (KARAT_PURITY k);
         effective = (if mode = ''USD_PER_GRAM'' then purity_rate - margin_value
                      else dmul purity_rate (1 - dquot margin_value 100))
     in raise_if (effective \<le> 0)
          (ValueError (Msg ''Buyback margin produces a non-positive rate (purity_rate={}, effective={}). Refusing to compute.''
             [ADec purity_rate, ADec effective]))
          (Inr \<lparr>bx_purity_rate = round_half_up purity_rate, bx_effective_rate_per_gram = round_half_up effective,
                bx_buy_price = round_half_up (dmul effective weight_grams)\<rparr>)))"

section \<open>Money at the API boundary\<close>

text \<open>
  \<open>round_money\<close> of a Decimal or int (floats are refused by type), and its text. The
  absolute value on a zero result only drops the sign of a negative zero, which the
  rational value does not have.
\<close>

definition round_money :: "nat \<Rightarrow> dec \<Rightarrow> dec" where
  "round_money n value = quantize_up n value"

definition money :: "nat \<Rightarrow> dec \<Rightarrow> string" where
  "money n value = str_dec n (round_money n value)"

section \<open>Exactness within the columns' ranges\<close>

lemma at_scale_mult:
  assumes "at_scale m x" "at_scale n y"
  shows "at_scale (m + n) (x * y)"
proof -
  from assms obtain j k :: int where "x = of_int j / 10 ^ m" "y = of_int k / 10 ^ n"
    by (auto simp: at_scale_iff)
  then have "x * y = of_int (j * k) / 10 ^ (m + n)" by (simp add: power_add)
  then show ?thesis unfolding at_scale_iff by blast
qed

text \<open>A product is exact when its digits fit the context.\<close>

lemma dmul_exact:
  assumes "at_scale m x" "at_scale n y" "\<bar>x * y\<bar> * 10 ^ (m + n) < 10 ^ 28"
  shows "dmul x y = x * y"
  unfolding dmul_def by (rule ctx_id [OF at_scale_mult [OF assms(1,2)] assms(3)])

lemma dquot_100_exact:
  assumes "at_scale n x" "\<bar>x\<bar> * 10 ^ n < 10 ^ 28"
  shows "dquot x 100 = x / 100"
proof -
  from assms(1) obtain k :: int where "x = of_int k / 10 ^ n" by (auto simp: at_scale_iff)
  then have "x / 100 = of_int k / 10 ^ (n + 2)" by (simp add: power_add)
  then have "at_scale (n + 2) (x / 100)" unfolding at_scale_iff by blast
  moreover have "\<bar>x / 100\<bar> * 10 ^ (n + 2) < 10 ^ 28" using assms(2) by (simp add: power_add)
  ultimately show ?thesis unfolding dquot_def by (rule ctx_id)
qed

lemma abs_mult_less:
  fixes x y :: rat
  assumes "\<bar>x\<bar> < a" "\<bar>y\<bar> < b"
  shows "\<bar>x * y\<bar> < a * b"
proof -
  have "0 < b" using assms(2) by linarith
  have "\<bar>x\<bar> * \<bar>y\<bar> \<le> \<bar>x\<bar> * b" using assms(2) by (intro mult_left_mono) auto
  also have "\<dots> < a * b" using assms(1) \<open>0 < b\<close> by simp
  finally show ?thesis by (simp add: abs_mult)
qed

text \<open>
  A piece priced within the columns' ranges (rate and markup below 100,000 dollars per gram,
  weight below ten kilograms, margin below 1000 percent): the only rounding is the last one.
\<close>

lemma calculate_price_exact:
  assumes "at_scale 4 rate" "\<bar>rate\<bar> < 10 ^ 5" "at_scale 3 w" "\<bar>w\<bar> < 10 ^ 4"
    "at_scale 2 mp" "\<bar>mp\<bar> < 10 ^ 3" "at_scale 4 mk" "\<bar>mk\<bar> < 10 ^ 5"
  shows "px_final_price (calculate_price rate k w mp mc mk sv)
     = round_half_up ((rate * KARAT_PURITY k + mk) * w * (1 + mp / 100) + mc + sv)"
proof -
  have "\<bar>rate * KARAT_PURITY k\<bar> < 10 ^ 5 * 1"
    by (rule abs_mult_less) (use assms(2) purity_bounds [of k] in auto)
  then have pr: "\<bar>rate * KARAT_PURITY k\<bar> < 10 ^ 5" by simp
  have d1: "dmul rate (KARAT_PURITY k) = rate * KARAT_PURITY k"
    by (rule dmul_exact [OF assms(1) purity_scale]) (use pr in simp)
  let ?e = "rate * KARAT_PURITY k + mk"
  have se: "at_scale 7 ?e"
    using at_scale_mult [OF assms(1) purity_scale, of k] assms(7) by (intro at_scale_add) (auto intro: at_scale_mono)
  have e: "\<bar>?e\<bar> < 2 * 10 ^ 5" using pr assms(8) by linarith
  have ew: "\<bar>?e * w\<bar> < (2 * 10 ^ 5) * 10 ^ 4" by (rule abs_mult_less [OF e assms(4)])
  have d2: "dmul ?e w = ?e * w"
    by (rule dmul_exact [OF se assms(3)]) (use ew in simp)
  have d3: "dquot mp 100 = mp / 100"
    by (rule dquot_100_exact [OF assms(5)]) (use assms(6) in simp)
  from assms(5) obtain j :: int where j: "mp = of_int j / 10 ^ 2" by (auto simp: at_scale_iff)
  have sm: "at_scale 4 (mp / 100)" unfolding at_scale_iff by (rule exI [of _ j]) (simp add: j)
  have "\<bar>?e * w * (mp / 100)\<bar> < ((2 * 10 ^ 5) * 10 ^ 4) * 10"
    by (rule abs_mult_less [OF ew]) (use assms(6) in simp)
  then have d4: "dmul (?e * w) (mp / 100) = ?e * w * (mp / 100)"
    by (intro dmul_exact [OF at_scale_mult [OF se assms(3)] sm]) simp
  show ?thesis by (simp only: calculate_price_def Let_def d1 d2 d3 d4 price.simps) (simp add: algebra_simps)
qed

text \<open>Never a negative price from non-negative inputs, and the rounding is at most half a cent.\<close>

lemma calculate_price_nonneg:
  assumes "0 \<le> rate" "0 \<le> w" "0 \<le> mp" "0 \<le> mc" "0 \<le> mk" "0 \<le> sv"
  shows "0 \<le> px_final_price (calculate_price rate k w mp mc mk sv)"
  using assms purity_bounds(1) [of k]
  by (simp add: calculate_price_def Let_def round_half_up_def quantize_up_nonneg dmul_nonneg dquot_nonneg)

lemma compute_buyback_price_cases:
  assumes "compute_buyback_price rate k w mode margin = Inr p" "0 \<le> w"
  shows "mode = ''USD_PER_GRAM'' \<or> mode = ''PERCENT'' \<and> margin < 100"
    and "0 \<le> bx_buy_price p" "0 \<le> bx_effective_rate_per_gram p"
proof -
  let ?e = "if mode = ''USD_PER_GRAM'' then dmul rate (KARAT_PURITY k) - margin
            else dmul (dmul rate (KARAT_PURITY k)) (1 - dquot margin 100)"
  have e: "0 < ?e" "bx_buy_price p = quantize_up 2 (dmul ?e w)" "bx_effective_rate_per_gram p = quantize_up 2 ?e"
    using assms(1)
    unfolding compute_buyback_price_def Let_def round_half_up_def raise_if_eq_Inr not_le by auto
  have "0 \<le> ?e" using e(1) by linarith
  then show "0 \<le> bx_buy_price p" "0 \<le> bx_effective_rate_per_gram p"
    unfolding e(2,3) by - (rule quantize_up_nonneg dmul_nonneg assms(2) | assumption)+
  show "mode = ''USD_PER_GRAM'' \<or> mode = ''PERCENT'' \<and> margin < 100"
    using assms(1) by (auto simp: compute_buyback_price_def res_simps)
qed

end
