(* ===== verification/GlPostings.thy ===== *)
theory GlPostings
  imports PeriodClose Pricing
begin

text \<open>
  \<open>app/core/gl_postings.py\<close>: the mappers from shop operations (sale, refund, supplier
  purchase and payment, buyback, melt, adjustment) to journal entries. Each mapper is
  split where the code is: the guards, the lines, the posting. The lemmas show when the
  lines a mapper builds balance, that a mapper posts at most once per source, and that
  every mapper keeps every journal invariant.
\<close>

definition SOURCE_ORDER :: string where "SOURCE_ORDER = ''ORDER''"
definition SOURCE_ORDER_REFUND :: string where "SOURCE_ORDER_REFUND = ''ORDER_REFUND''"
definition SOURCE_SUPPLIER_PURCHASE :: string where "SOURCE_SUPPLIER_PURCHASE = ''SUPPLIER_PURCHASE''"
definition SOURCE_SUPPLIER_PAYMENT :: string where "SOURCE_SUPPLIER_PAYMENT = ''SUPPLIER_PAYMENT''"
definition SOURCE_BUYBACK :: string where "SOURCE_BUYBACK = ''BUYBACK''"
definition SOURCE_MELT :: string where "SOURCE_MELT = ''MELT''"
definition SOURCE_ADJUSTMENT :: string where "SOURCE_ADJUSTMENT = ''ADJUSTMENT''"

section \<open>Helpers\<close>

definition auto_post_enabled :: "settings \<Rightarrow> bool" where
  "auto_post_enabled s = accounting_auto_post_enabled s"

definition ensure_period :: "date \<Rightarrow> db \<Rightarrow> (gl_period \<times> db) res" where
  "ensure_period entry_date d =
     bnd (scalar_one_or_none (\<lambda>p. per_year p = d_year entry_date \<and> per_no p = d_month entry_date) (gl_periods d))
       (\<lambda>period. case period of
          None \<Rightarrow> add_period (d_year entry_date) (d_month entry_date) PERIOD_OPEN d
        | Some p \<Rightarrow> Inr (p, d))"

definition resolve_account_id :: "db \<Rightarrow> string \<Rightarrow> string res" where
  "resolve_account_id d system_key =
     bnd (scalar_one_or_none (\<lambda>a. acc_system_key a = Some system_key) (gl_accounts d)) (\<lambda>acct.
       case acct of
         None \<Rightarrow> Inl (HTTPException 422 (Msg ''GL system account {} not seeded'' [AStr system_key]))
       | Some a \<Rightarrow> Inr (acc_id a))"

definition find_live_entry :: "db \<Rightarrow> string \<Rightarrow> string \<Rightarrow> gl_journal_entry option" where
  "find_live_entry d source_type source_id = find (live_for source_type source_id) (gl_entries d)"

text \<open>\<open>x.date() if x else date.today()\<close>\<close>

definition date_or_today :: "instant option \<Rightarrow> db \<Rightarrow> date" where
  "date_or_today t d = (case t of Some i \<Rightarrow> date_of i | None \<Rightarrow> today d)"

text \<open>A money-only line of a mapper, on one side, in base and in money.\<close>

definition money_dr :: "string \<Rightarrow> dec \<Rightarrow> string \<Rightarrow> gl_line" where
  "money_dr acc amt memo = (GLLine acc (Some MONEY) memo)\<lparr>ln_base_debit := amt, ln_money_debit := amt\<rparr>"

definition money_cr :: "string \<Rightarrow> dec \<Rightarrow> string \<Rightarrow> gl_line" where
  "money_cr acc amt memo = (GLLine acc (Some MONEY) memo)\<lparr>ln_base_credit := amt, ln_money_credit := amt\<rparr>"

text \<open>A line that moves metal at a cost (or at no cost), on one side.\<close>

definition metal_dr :: "string \<Rightarrow> dec \<Rightarrow> dec \<Rightarrow> string \<Rightarrow> string \<Rightarrow> gl_line" where
  "metal_dr acc cost grams k memo = (GLLine acc (Some DUAL) memo)
     \<lparr>ln_base_debit := cost, ln_metal_debit_grams := grams, ln_karat := Some k\<rparr>"

definition metal_cr :: "string \<Rightarrow> dec \<Rightarrow> dec \<Rightarrow> string \<Rightarrow> string \<Rightarrow> gl_line" where
  "metal_cr acc cost grams k memo = (GLLine acc (Some DUAL) memo)
     \<lparr>ln_base_credit := cost, ln_metal_credit_grams := grams, ln_karat := Some k\<rparr>"

section \<open>Cost of goods sold\<close>

text \<open>The attributes \<open>_cogs_cost_for_item\<close> reads, of an order item or of a refunded slice.\<close>

definition cogs_cost_for_item :: "db \<Rightarrow> order_item \<Rightarrow> int \<Rightarrow> dec res" where
  "cogs_cost_for_item d it qty =
     (let proxy = q_money (dmul (dmul (dmul (oi_gold_rate_at_sale it) (oi_weight_grams it))
                                  (KARAT_PURITY (oi_karat it))) (of_int qty)) in
      if oi_item_kind it = ITEM_PRODUCT \<and> oi_product_id it \<noteq> None \<and> oi_product_id it \<noteq> Some []
      then bnd (scalar_one_or_none (\<lambda>p. Some (pr_id p) = oi_product_id it) (products d)) (\<lambda>prod.
             case prod of
               None \<Rightarrow> Inr proxy
             | Some p \<Rightarrow> (case pr_cost_basis_usd p of
                 None \<Rightarrow> Inr proxy
               | Some c \<Rightarrow> Inr (q_money (dmul c (of_int qty)))))
      else Inr proxy)"

record cogs_agg =
  ca_grams :: dec
  ca_cost :: dec

definition cogs_step :: "db \<Rightarrow> order_item \<Rightarrow> (string \<times> cogs_agg) list \<Rightarrow> (string \<times> cogs_agg) list res" where
  "cogs_step d it aggs =
     (let grams = dmul (oi_weight_grams it) (of_int (oi_quantity it)) in
      bnd (cogs_cost_for_item d it (oi_quantity it)) (\<lambda>cost.
      Inr (dict_upd (karat_value (oi_karat it)) \<lparr>ca_grams = 0, ca_cost = 0\<rparr>
             (\<lambda>a. \<lparr>ca_grams = ca_grams a + grams, ca_cost = ca_cost a + cost\<rparr>) aggs)))"

definition cogs_by_karat :: "db \<Rightarrow> order_item list \<Rightarrow> (string \<times> cogs_agg) list res" where
  "cogs_by_karat d items = fold_res (cogs_step d) items []"

definition cogs_lines :: "string \<Rightarrow> string \<Rightarrow> (string \<times> cogs_agg) list \<Rightarrow> gl_line list" where
  "cogs_lines cogs_id inv_acc aggs =
     concat (map (\<lambda>(k, v). [metal_dr cogs_id (ca_cost v) (ca_grams v) k ''metal COGS'',
                            metal_cr inv_acc (ca_cost v) (ca_grams v) k ''metal out'']) aggs)"

text \<open>\<open>x or ZERO\<close>\<close>

definition or_zero :: "dec option \<Rightarrow> dec" where
  "or_zero x = (case x of None \<Rightarrow> 0 | Some v \<Rightarrow> v)"

section \<open>Sales\<close>

definition making_revenue :: "order \<Rightarrow> dec" where
  "making_revenue ord =
     q_money (sum_of (\<lambda>it. dmul (oi_making_charge it) (of_int (oi_quantity it))) (or_items ord))"

definition stone_cogs_total :: "order \<Rightarrow> dec" where
  "stone_cogs_total ord =
     q_money (sum_of (\<lambda>it. dmul (or_zero (oi_stone_cost_at_sale it)) (of_int (oi_quantity it))) (or_items ord))"

definition sale_cash_key :: "payment_method \<Rightarrow> string" where
  "sale_cash_key m = (case m of PAY_CREDIT \<Rightarrow> ''AR'' | PAY_CARD \<Rightarrow> ''CREDIT_CARD_CLEARING'' | _ \<Rightarrow> ''CASH'')"

text \<open>The accounts a sale or a refund books on.\<close>

record sale_accounts =
  sa_cash :: string
  sa_rev :: string
  sa_making :: string
  sa_vat :: string
  sa_discount :: string
  sa_cogs :: string
  sa_inv :: string

definition sale_money_lines :: "sale_accounts \<Rightarrow> order \<Rightarrow> gl_line list" where
  "sale_money_lines acc ord =
     (let making = making_revenue ord;
          sales = q_money (or_subtotal ord - making);
          discount = q_money (or_discount_amount ord)
      in [money_dr (sa_cash acc) (or_total_usd ord) ''sale cash'',
          money_cr (sa_rev acc) sales ''sale revenue'']
         @ (if 0 < making then [money_cr (sa_making acc) making ''making charge''] else [])
         @ (if 0 < or_vat_amount ord then [money_cr (sa_vat acc) (or_vat_amount ord) ''output VAT''] else [])
         @ (if 0 < discount then [money_dr (sa_discount acc) discount ''discount allowed''] else []))"

definition stone_lines :: "db \<Rightarrow> dec \<Rightarrow> gl_line list res" where
  "stone_lines d stone =
     (if 0 < stone
      then bnd (resolve_account_id d ''STONE_COGS'') (\<lambda>c. bnd (resolve_account_id d ''STONE_INVENTORY'') (\<lambda>i.
             Inr [money_dr c stone ''stone COGS'', money_cr i stone ''stone out'']))
      else Inr [])"

definition sale_lines :: "db \<Rightarrow> sale_accounts \<Rightarrow> order \<Rightarrow> gl_line list res" where
  "sale_lines d acc ord =
     bnd (cogs_by_karat d (or_items ord)) (\<lambda>aggs.
     bnd (stone_lines d (stone_cogs_total ord)) (\<lambda>stone.
     Inr (sale_money_lines acc ord @ cogs_lines (sa_cogs acc) (sa_inv acc) aggs @ stone)))"

definition post_sale ::
    "(string \<Rightarrow> string) \<Rightarrow> order \<Rightarrow> settings \<Rightarrow> string \<Rightarrow> db \<Rightarrow> (gl_journal_entry option \<times> db) res" where
  "post_sale sha ord st actor d =
     (if \<not> auto_post_enabled st then Inr (None, d)
      else if find_live_entry d SOURCE_ORDER (or_id ord) \<noteq> None then Inr (None, d)
      else let entry_date = date_or_today (or_created_at ord) d in
        bnd (ensure_period entry_date d) (\<lambda>(_, d).
        bnd (resolve_account_id d (sale_cash_key (or_payment_method ord))) (\<lambda>cash.
        bnd (resolve_account_id d ''SALES_REVENUE'') (\<lambda>rev.
        bnd (resolve_account_id d ''MAKING_CHARGE_REVENUE'') (\<lambda>making.
        bnd (resolve_account_id d ''VAT_PAYABLE'') (\<lambda>vat.
        bnd (resolve_account_id d ''SALES_DISCOUNTS'') (\<lambda>disc.
        bnd (resolve_account_id d ''METAL_COGS'') (\<lambda>cogs.
        bnd (resolve_account_id d ''METAL_INVENTORY'') (\<lambda>inva.
        bnd (sale_lines d \<lparr>sa_cash = cash, sa_rev = rev, sa_making = making, sa_vat = vat,
                           sa_discount = disc, sa_cogs = cogs, sa_inv = inva\<rparr> ord) (\<lambda>lines.
        bnd (post_entry sha (post_args entry_date (''Sale '' @ or_order_number ord) SOURCE_ORDER (Some (or_id ord))
               lines actor) d) (\<lambda>(e, d). Inr (Some e, d))))))))))))"

section \<open>Refunds\<close>

definition refund_source_id :: "order_item \<Rightarrow> int \<Rightarrow> string" where
  "refund_source_id it refund_seq = oi_id it @ '':'' @ str_int refund_seq"

record refund_shares =
  ra_vat_share :: dec
  ra_making_share :: dec
  ra_sales_share :: dec
  ra_discount_slice :: dec
  ra_cash_back :: dec

definition refund_amounts :: "settings \<Rightarrow> order \<Rightarrow> order_item \<Rightarrow> dec \<Rightarrow> int \<Rightarrow> refund_shares" where
  "refund_amounts st ord it line_value qty =
     (let vat_share = q_money (dquot (dmul line_value (vat_percent st)) 100);
          making_share = q_money (dmul (oi_making_charge it) (of_int qty));
          sales_share = q_money (line_value - making_share);
          discount_slice = (if 0 < or_subtotal ord
                            then q_money (dquot (dmul (or_discount_amount ord) line_value) (or_subtotal ord)) else 0);
          cash_back = q_money (line_value - discount_slice + vat_share)
      in \<lparr>ra_vat_share = vat_share, ra_making_share = making_share, ra_sales_share = sales_share,
          ra_discount_slice = discount_slice, ra_cash_back = cash_back\<rparr>)"

definition refund_lines :: "sale_accounts \<Rightarrow> refund_shares \<Rightarrow> order_item \<Rightarrow> dec \<Rightarrow> dec \<Rightarrow> gl_line list" where
  "refund_lines acc ra it cost grams =
     (let k = karat_value (oi_karat it) in
      [money_dr (sa_rev acc) (ra_sales_share ra) ''refund revenue'',
       money_dr (sa_vat acc) (ra_vat_share ra) ''refund VAT'']
      @ (if 0 < ra_making_share ra then [money_dr (sa_making acc) (ra_making_share ra) ''refund making''] else [])
      @ [money_cr (sa_cash acc) (ra_cash_back ra) ''refund cash out'',
         metal_dr (sa_inv acc) cost grams k ''metal back'',
         metal_cr (sa_cogs acc) cost grams k ''reverse COGS'']
      @ (if 0 < ra_discount_slice ra
         then [money_cr (sa_discount acc) (ra_discount_slice ra) ''reverse discount''] else []))"

definition refund_stone_lines :: "db \<Rightarrow> dec \<Rightarrow> gl_line list res" where
  "refund_stone_lines d stone =
     (if 0 < stone
      then let stone = q_money stone in
           bnd (resolve_account_id d ''STONE_COGS'') (\<lambda>c. bnd (resolve_account_id d ''STONE_INVENTORY'') (\<lambda>i.
             Inr [money_dr i stone ''stone back'', money_cr c stone ''reverse stone COGS'']))
      else Inr [])"

text \<open>The per-item part of \<open>post_order_refund\<close>: one event's units of one line.\<close>

definition post_item_refund ::
    "(string \<Rightarrow> string) \<Rightarrow> order \<Rightarrow> settings \<Rightarrow> string \<Rightarrow> order_item \<Rightarrow> dec \<Rightarrow> int option \<Rightarrow> int \<Rightarrow> date \<Rightarrow> db
     \<Rightarrow> (gl_journal_entry option \<times> db) res" where
  "post_item_refund sha ord st actor it refund_value refund_qty refund_seq entry_date d =
     (if find_live_entry d SOURCE_ORDER_REFUND (refund_source_id it refund_seq) \<noteq> None then Inr (None, d)
      else let qty = (case refund_qty of None \<Rightarrow> 1 | Some n \<Rightarrow> if n = 0 then 1 else n);
               ra = refund_amounts st ord it refund_value qty;
               grams = dmul (oi_weight_grams it) (of_int qty) in
        bnd (cogs_cost_for_item d it qty) (\<lambda>cost.
        bnd (resolve_account_id d ''CASH'') (\<lambda>cash.
        bnd (resolve_account_id d ''SALES_REVENUE'') (\<lambda>rev.
        bnd (resolve_account_id d ''MAKING_CHARGE_REVENUE'') (\<lambda>making.
        bnd (resolve_account_id d ''VAT_PAYABLE'') (\<lambda>vat.
        bnd (resolve_account_id d ''METAL_COGS'') (\<lambda>cogs.
        bnd (resolve_account_id d ''METAL_INVENTORY'') (\<lambda>inva.
        bnd (resolve_account_id d ''SALES_DISCOUNTS'') (\<lambda>disc.
        let lines = refund_lines \<lparr>sa_cash = cash, sa_rev = rev, sa_making = making, sa_vat = vat,
                                  sa_discount = disc, sa_cogs = cogs, sa_inv = inva\<rparr> ra it cost grams in
        bnd (refund_stone_lines d (dmul (or_zero (oi_stone_cost_at_sale it)) (of_int qty))) (\<lambda>stone.
        bnd (post_entry sha (post_args entry_date (''Refund '' @ or_order_number ord @ '' line'') SOURCE_ORDER_REFUND
               (Some (refund_source_id it refund_seq)) (lines @ stone) actor) d) (\<lambda>(e, d). Inr (Some e, d))))))))))))"

definition post_order_refund ::
    "(string \<Rightarrow> string) \<Rightarrow> order \<Rightarrow> settings \<Rightarrow> string \<Rightarrow> order_item option \<Rightarrow> dec \<Rightarrow> int option \<Rightarrow> int
     \<Rightarrow> date option \<Rightarrow> db \<Rightarrow> (gl_journal_entry option \<times> db) res" where
  "post_order_refund sha ord st actor refunded_item refund_value refund_qty refund_seq entry_date d =
     (if \<not> auto_post_enabled st then Inr (None, d)
      else case find_live_entry d SOURCE_ORDER (or_id ord) of
        None \<Rightarrow> Inr (None, d)
      | Some original \<Rightarrow>
          if find_reversal d (je_id original) \<noteq> None then Inr (None, d)
          else let entry_date = (case entry_date of Some t \<Rightarrow> t | None \<Rightarrow> today d) in
            bnd (ensure_period entry_date d) (\<lambda>(_, d).
            case refunded_item of
              None \<Rightarrow> bnd (reverse_entry sha (je_id original) actor entry_date (''Void '' @ or_order_number ord) d)
                        (\<lambda>(e, d). Inr (Some e, d))
            | Some it \<Rightarrow> post_item_refund sha ord st actor it refund_value refund_qty refund_seq entry_date d))"

section \<open>Supplier purchases and payments\<close>

definition dict_get0 :: "(string \<times> dec) list \<Rightarrow> string \<Rightarrow> dec" where
  "dict_get0 m k = (case map_of m k of None \<Rightarrow> 0 | Some v \<Rightarrow> v)"

definition gold_cost_by_karat :: "supplier_purchase_item list \<Rightarrow> (string \<times> dec) list" where
  "gold_cost_by_karat items =
     fold (\<lambda>it m. case si_karat it of
             Some k \<Rightarrow> if si_item_kind it = SI_PURE_GOLD
                      then dict_upd (karat_value k) 0 (\<lambda>v. v + si_unit_cost_usd it) m else m
           | None \<Rightarrow> m) items []"

definition item_stone :: "db \<Rightarrow> supplier_purchase_item \<Rightarrow> dec res" where
  "item_stone d it =
     (if si_item_kind it = SI_PRODUCT \<and> si_product_id it \<noteq> None \<and> si_product_id it \<noteq> Some []
      then bnd (scalar_one_or_none (\<lambda>p. Some (pr_id p) = si_product_id it) (products d)) (\<lambda>prod.
             case prod of
               None \<Rightarrow> Inr 0
             | Some p \<Rightarrow> (case pr_stone_cost_usd p of
                 None \<Rightarrow> Inr 0
               | Some c \<Rightarrow> Inr (dmul c (of_int (case si_quantity it of None \<Rightarrow> 1 | Some n \<Rightarrow> if n = 0 then 1 else n)))))
      else Inr 0)"

definition stone_slice :: "db \<Rightarrow> supplier_purchase_item list \<Rightarrow> dec res" where
  "stone_slice d items = bnd (map_res (item_stone d) items) (\<lambda>xs. Inr (q_money (sum_list xs)))"

definition purchase_cash_lines :: "db \<Rightarrow> string \<Rightarrow> string \<Rightarrow> string \<Rightarrow> supplier_purchase \<Rightarrow> dec \<Rightarrow> gl_line list res" where
  "purchase_cash_lines d prod_inv ap cash purchase stone =
     (let total_cash_due = sp_total_cash_due purchase;
          cash_paid = sp_cash_paid_at_creation purchase;
          cash_owed = q_money (total_cash_due - cash_paid) in
      if 0 < total_cash_due then
        let stone = (if total_cash_due < stone then 0 else stone);
            product_slice = q_money (total_cash_due - stone) in
        bnd (if 0 < stone then bnd (resolve_account_id d ''STONE_INVENTORY'') (\<lambda>s.
                Inr [money_dr s stone ''stone inventory in'']) else Inr []) (\<lambda>stone_in.
        Inr ((if 0 < product_slice then [money_dr prod_inv product_slice ''product purchase''] else [])
             @ stone_in
             @ (if 0 < cash_owed then [money_cr ap cash_owed ''AP (net owed)''] else [])
             @ (if 0 < cash_paid then [money_cr cash (q_money cash_paid) ''paid at creation''] else [])))
      else Inr [])"

definition purchase_gold_lines ::
    "string \<Rightarrow> string \<Rightarrow> (string \<times> dec) list \<Rightarrow> (string \<times> dec) list \<Rightarrow> (string \<times> dec) list \<Rightarrow> gl_line list" where
  "purchase_gold_lines inva metal_ap gold_cost total_due paid =
     concat (map (\<lambda>(k, due).
       let net = due - dict_get0 paid k in
       if net \<le> 0 then []
       else let net_cost = (if 0 < due then q_money (dquot (dmul (dict_get0 gold_cost k) net) due) else 0)
            in [metal_dr inva net_cost net k ''gold purchase (net)'',
                metal_cr metal_ap net_cost net k ''metal AP (net owed)'']) total_due)"

definition post_supplier_purchase ::
    "(string \<Rightarrow> string) \<Rightarrow> supplier_purchase \<Rightarrow> settings \<Rightarrow> string \<Rightarrow> db \<Rightarrow> (gl_journal_entry option \<times> db) res" where
  "post_supplier_purchase sha purchase st actor d =
     (if \<not> auto_post_enabled st then Inr (None, d)
      else if find_live_entry d SOURCE_SUPPLIER_PURCHASE (sp_id purchase) \<noteq> None then Inr (None, d)
      else let entry_date = date_or_today (sp_occurred_at purchase) d in
        bnd (ensure_period entry_date d) (\<lambda>(_, d).
        bnd (resolve_account_id d ''METAL_INVENTORY'') (\<lambda>inva.
        bnd (resolve_account_id d ''METAL_AP'') (\<lambda>metal_ap.
        bnd (resolve_account_id d ''PRODUCT_INVENTORY'') (\<lambda>prod_inv.
        bnd (resolve_account_id d ''AP'') (\<lambda>ap.
        let items = filter (\<lambda>it. si_purchase_id it = sp_id purchase) (supplier_purchase_items d) in
        bnd (resolve_account_id d ''CASH'') (\<lambda>cash.
        bnd (stone_slice d items) (\<lambda>stone.
        bnd (purchase_cash_lines d prod_inv ap cash purchase stone) (\<lambda>cash_lines.
        let lines = cash_lines @ purchase_gold_lines inva metal_ap (gold_cost_by_karat items)
                      (sp_total_grams_due_by_karat purchase) (sp_grams_paid_at_creation_by_karat purchase) in
        if lines = [] then Inr (None, d)
        else bnd (post_entry sha (post_args entry_date ''Supplier purchase'' SOURCE_SUPPLIER_PURCHASE
               (Some (sp_id purchase)) lines actor) d) (\<lambda>(e, d). Inr (Some e, d)))))))))))"

definition supplier_payment_lines :: "db \<Rightarrow> supplier_payment \<Rightarrow> gl_line list res" where
  "supplier_payment_lines d payment =
     (case pay_unit payment of
        DEBT_CASH \<Rightarrow>
          bnd (resolve_account_id d ''AP'') (\<lambda>ap.
          bnd (resolve_account_id d ''CASH'') (\<lambda>cash.
          let amt = q_money (pay_amount payment)
          in Inr [money_dr ap amt ''pay AP'', money_cr cash amt ''cash out'']))
      | DEBT_GOLD \<Rightarrow>
          bnd (resolve_account_id d ''METAL_AP'') (\<lambda>metal_ap.
          bnd (resolve_account_id d ''METAL_INVENTORY'') (\<lambda>inva.
          case pay_karat payment of
            None \<Rightarrow> Inl TypeError
          | Some k \<Rightarrow> Inr [metal_dr metal_ap 0 (pay_amount payment) (karat_value k) ''pay metal AP'',
                          metal_cr inva 0 (pay_amount payment) (karat_value k) ''metal out''])))"

definition post_supplier_payment ::
    "(string \<Rightarrow> string) \<Rightarrow> supplier_payment \<Rightarrow> settings \<Rightarrow> string \<Rightarrow> db \<Rightarrow> (gl_journal_entry option \<times> db) res" where
  "post_supplier_payment sha payment st actor d =
     (if \<not> auto_post_enabled st then Inr (None, d)
      else if find_live_entry d SOURCE_SUPPLIER_PAYMENT (pay_id payment) \<noteq> None then Inr (None, d)
      else let entry_date = date_or_today (pay_paid_at payment) d in
        bnd (ensure_period entry_date d) (\<lambda>(_, d).
        bnd (supplier_payment_lines d payment) (\<lambda>lines.
        bnd (post_entry sha (post_args entry_date ''Supplier payment'' SOURCE_SUPPLIER_PAYMENT
               (Some (pay_id payment)) lines actor) d) (\<lambda>(e, d). Inr (Some e, d)))))"

section \<open>Buybacks, melts, adjustments\<close>

definition buyback_lines :: "string \<Rightarrow> string \<Rightarrow> string \<Rightarrow> string \<Rightarrow> dec \<Rightarrow> dec \<Rightarrow> gl_line list" where
  "buyback_lines inva cash clearing k grams cost =
     [metal_dr inva cost grams k ''buyback in'', money_cr cash cost ''buyback cash out'',
      metal_cr clearing 0 grams k ''metal acquired (clearing)'']"

definition post_buyback ::
    "(string \<Rightarrow> string) \<Rightarrow> walkin_buyback \<Rightarrow> settings \<Rightarrow> string \<Rightarrow> db \<Rightarrow> (gl_journal_entry option \<times> db) res" where
  "post_buyback sha b st actor d =
     (if \<not> auto_post_enabled st then Inr (None, d)
      else if find_live_entry d SOURCE_BUYBACK (wb_id b) \<noteq> None then Inr (None, d)
      else let entry_date = date_or_today (wb_occurred_at b) d in
        bnd (ensure_period entry_date d) (\<lambda>(_, d).
        case (wb_karat b, wb_weight_grams b) of
          (Some k, Some grams) \<Rightarrow>
            if grams = 0 then Inr (None, d)
            else bnd (resolve_account_id d ''METAL_INVENTORY'') (\<lambda>inva.
                 bnd (resolve_account_id d ''CASH'') (\<lambda>cash.
                 bnd (resolve_account_id d ''METAL_CLEARING'') (\<lambda>clearing.
                 bnd (post_entry sha (post_args entry_date ''Walk-in buyback'' SOURCE_BUYBACK (Some (wb_id b))
                        (buyback_lines inva cash clearing (karat_value k) grams (q_money (wb_buy_price_usd b))) actor) d)
                   (\<lambda>(e, d). Inr (Some e, d)))))
        | _ \<Rightarrow> Inr (None, d)))"

record melt_event =
  me_id :: string
  me_occurred_at :: "instant option"
  me_from_karat :: karat
  me_from_grams :: dec
  me_to_karat :: karat
  me_to_grams :: dec
  me_cost_usd :: dec

definition melt_lines :: "string \<Rightarrow> string \<Rightarrow> string \<Rightarrow> dec \<Rightarrow> string \<Rightarrow> dec \<Rightarrow> dec \<Rightarrow> gl_line list" where
  "melt_lines inva clearing fk fg tk tg cost =
     [metal_cr inva cost fg fk ''melt consume'', metal_dr clearing 0 fg fk ''melt clearing A'',
      metal_dr inva cost tg tk ''melt result'', metal_cr clearing 0 tg tk ''melt clearing B'']"

definition post_melt ::
    "(string \<Rightarrow> string) \<Rightarrow> melt_event \<Rightarrow> settings \<Rightarrow> string \<Rightarrow> db \<Rightarrow> (gl_journal_entry option \<times> db) res" where
  "post_melt sha m st actor d =
     (if \<not> auto_post_enabled st then Inr (None, d)
      else if find_live_entry d SOURCE_MELT (me_id m) \<noteq> None then Inr (None, d)
      else let entry_date = date_or_today (me_occurred_at m) d in
        if me_from_karat m = me_to_karat m \<and> me_from_grams m = me_to_grams m then Inr (None, d)
        else bnd (ensure_period entry_date d) (\<lambda>(_, d).
             bnd (resolve_account_id d ''METAL_INVENTORY'') (\<lambda>inva.
             bnd (resolve_account_id d ''METAL_CLEARING'') (\<lambda>clearing.
             bnd (post_entry sha (post_args entry_date ''Melt / refining'' SOURCE_MELT (Some (me_id m))
                    (melt_lines inva clearing (karat_value (me_from_karat m)) (me_from_grams m)
                       (karat_value (me_to_karat m)) (me_to_grams m) (q_money (me_cost_usd m))) actor) d)
               (\<lambda>(e, d). Inr (Some e, d))))))"

record adjustment_event =
  ad_id :: string
  ad_occurred_at :: "instant option"
  ad_karat :: "karat option"
  ad_grams :: "dec option"
  ad_cost_usd :: dec

definition adjustment_lines :: "string \<Rightarrow> string \<Rightarrow> string \<Rightarrow> string \<Rightarrow> dec \<Rightarrow> dec \<Rightarrow> gl_line list" where
  "adjustment_lines expns inva clearing k grams cost =
     [money_dr expns cost ''inventory loss'', metal_cr inva cost grams k ''metal written off'',
      metal_dr clearing 0 grams k ''metal loss (clearing)'']"

definition post_adjustment ::
    "(string \<Rightarrow> string) \<Rightarrow> adjustment_event \<Rightarrow> settings \<Rightarrow> string \<Rightarrow> db \<Rightarrow> (gl_journal_entry option \<times> db) res" where
  "post_adjustment sha a st actor d =
     (if \<not> auto_post_enabled st then Inr (None, d)
      else if find_live_entry d SOURCE_ADJUSTMENT (ad_id a) \<noteq> None then Inr (None, d)
      else let entry_date = date_or_today (ad_occurred_at a) d in
        bnd (ensure_period entry_date d) (\<lambda>(_, d).
        case (ad_karat a, ad_grams a) of
          (Some k, Some grams) \<Rightarrow>
            if grams = 0 then Inr (None, d)
            else bnd (resolve_account_id d ''ADJUSTMENT_EXPENSE'') (\<lambda>expns.
                 bnd (resolve_account_id d ''METAL_INVENTORY'') (\<lambda>inva.
                 bnd (resolve_account_id d ''METAL_CLEARING'') (\<lambda>clearing.
                 bnd (post_entry sha (post_args entry_date ''Inventory adjustment'' SOURCE_ADJUSTMENT (Some (ad_id a))
                        (adjustment_lines expns inva clearing (karat_value k) grams (q_money (ad_cost_usd a))) actor) d)
                   (\<lambda>(e, d). Inr (Some e, d)))))
        | _ \<Rightarrow> Inr (None, d)))"

section \<open>What a mapper does to the journal\<close>

text \<open>
  Nothing, beyond opening a missing period; or one posting, of its own source, in a
  database with the same books.
\<close>

definition mapper_outcome ::
    "(string \<Rightarrow> string) \<Rightarrow> string \<Rightarrow> string \<Rightarrow> db \<Rightarrow> gl_journal_entry option \<Rightarrow> db \<Rightarrow> bool" where
  "mapper_outcome sha src sid d r d' \<longleftrightarrow>
     (case r of
        None \<Rightarrow> same_books d d'
      | Some e \<Rightarrow> \<exists>d1 dt memo lines actor. same_books d d1
          \<and> post_entry sha (post_args dt memo src (Some sid) lines actor) d1 = Inr (e, d'))"

lemma mapper_outcome_none: "same_books d d' \<Longrightarrow> mapper_outcome sha src sid d None d'"
  by (simp add: mapper_outcome_def)

lemma mapper_outcome_post:
  "same_books d d1 \<Longrightarrow> post_entry sha (post_args dt memo src (Some sid) lines actor) d1 = Inr (e, d')
    \<Longrightarrow> mapper_outcome sha src sid d (Some e) d'"
  unfolding mapper_outcome_def by (simp only: option.case) blast

lemma ensure_period_same_books: "ensure_period dt d = Inr (p, d') \<Longrightarrow> same_books d d'"
  by (auto simp: ensure_period_def res_simps same_books_refl split: option.splits dest: add_period_same_books)

text \<open>
  The contract of the mappers, from which their idempotence and the invariants follow
  once for all of them: a mapper skips a source with a live entry, and otherwise has one
  of the two outcomes.
\<close>

locale auto_poster =
  fixes sha :: "string \<Rightarrow> string" and run :: "db \<Rightarrow> (gl_journal_entry option \<times> db) res"
    and src sid :: string
  assumes skips: "find_live_entry d src sid \<noteq> None \<Longrightarrow> run d = Inr (None, d)"
    and outcome: "run d = Inr (r, d') \<Longrightarrow> mapper_outcome sha src sid d r d'"
begin

lemma run_posted:
  assumes "run d = Inr (Some e, d')"
  obtains d1 q ls where "same_books d d1" "posted sha q d1 e ls d'" "proper_request d1 q"
    "je_source_type e = src" "je_source_id e = Some sid" "je_reverses_entry_id e = None"
proof -
  from outcome [OF assms] obtain d1 dt memo lines actor where
    s: "same_books d d1" and p: "post_entry sha (post_args dt memo src (Some sid) lines actor) d1 = Inr (e, d')"
    by (auto simp: mapper_outcome_def)
  from post_entry_posted [OF p] obtain ls where
    po: "posted sha (post_args dt memo src (Some sid) lines actor) d1 e ls d'" by blast
  then have "je_source_type e = src" "je_source_id e = Some sid" "je_reverses_entry_id e = None"
    by (simp_all add: posted_def post_args_def)
  then show ?thesis by (rule that [OF s po proper_post_args])
qed

lemma posts_once:
  assumes "run d = Inr (Some e, d')"
  shows "find_live_entry d' src sid \<noteq> None" "run d' = Inr (None, d')"
proof -
  from assms obtain d1 q ls where "posted sha q d1 e ls d'"
    "je_source_type e = src" "je_source_id e = Some sid" "je_reverses_entry_id e = None"
    by (rule run_posted)
  then show "find_live_entry d' src sid \<noteq> None"
    by (auto simp: find_live_entry_def find_None_iff posted_def live_for_def)
  then show "run d' = Inr (None, d')" by (rule skips)
qed

lemma run_inv:
  assumes "journal_invariant sha Inv" "run d = Inr (r, d')" "Inv d"
  shows "Inv d'"
proof (cases r)
  case None
  then show ?thesis
    using outcome [OF assms(2)] journal_invariant.inv_frame [OF assms(1) _ assms(3)] by (simp add: mapper_outcome_def)
next
  case (Some e)
  then obtain d1 dt memo lines actor where
    s: "same_books d d1" and p: "post_entry sha (post_args dt memo src (Some sid) lines actor) d1 = Inr (e, d')"
    using outcome [OF assms(2)] by (auto simp: mapper_outcome_def)
  from journal_invariant.inv_frame [OF assms(1) s assms(3)] have "Inv d1" .
  with journal_invariant.inv_post [OF assms(1) p] show ?thesis by simp
qed

end

lemmas mapper_simps = res_simps Let_def find_live_entry_def [symmetric]

interpretation sale: auto_poster sha "post_sale sha ord st actor" SOURCE_ORDER "or_id ord" for sha ord st actor
proof
  fix d r d' assume "post_sale sha ord st actor d = Inr (r, d')"
  then show "mapper_outcome sha SOURCE_ORDER (or_id ord) d r d'"
    by (auto simp: post_sale_def mapper_simps same_books_refl split: if_splits
        intro: mapper_outcome_none mapper_outcome_post same_books_refl dest!: ensure_period_same_books)
qed (simp add: post_sale_def)

interpretation item_refund: auto_poster sha "post_item_refund sha ord st actor it rv rq rs dt"
    SOURCE_ORDER_REFUND "refund_source_id it rs" for sha ord st actor it rv rq rs dt
proof
  fix d r d' assume "post_item_refund sha ord st actor it rv rq rs dt d = Inr (r, d')"
  then show "mapper_outcome sha SOURCE_ORDER_REFUND (refund_source_id it rs) d r d'"
    by (auto simp: post_item_refund_def mapper_simps same_books_refl split: if_splits
        intro: mapper_outcome_none mapper_outcome_post same_books_refl)
qed (simp add: post_item_refund_def)

interpretation purchase: auto_poster sha "post_supplier_purchase sha pu st actor" SOURCE_SUPPLIER_PURCHASE "sp_id pu"
  for sha pu st actor
proof
  fix d r d' assume "post_supplier_purchase sha pu st actor d = Inr (r, d')"
  then show "mapper_outcome sha SOURCE_SUPPLIER_PURCHASE (sp_id pu) d r d'"
    by (auto simp: post_supplier_purchase_def mapper_simps same_books_refl split: if_splits
        intro: mapper_outcome_none mapper_outcome_post same_books_refl dest!: ensure_period_same_books)
qed (simp add: post_supplier_purchase_def)

interpretation payment: auto_poster sha "post_supplier_payment sha pa st actor" SOURCE_SUPPLIER_PAYMENT "pay_id pa"
  for sha pa st actor
proof
  fix d r d' assume "post_supplier_payment sha pa st actor d = Inr (r, d')"
  then show "mapper_outcome sha SOURCE_SUPPLIER_PAYMENT (pay_id pa) d r d'"
    by (auto simp: post_supplier_payment_def mapper_simps same_books_refl split: if_splits
        intro: mapper_outcome_none mapper_outcome_post same_books_refl dest!: ensure_period_same_books)
qed (simp add: post_supplier_payment_def)

interpretation buyback: auto_poster sha "post_buyback sha b st actor" SOURCE_BUYBACK "wb_id b" for sha b st actor
proof
  fix d r d' assume "post_buyback sha b st actor d = Inr (r, d')"
  then show "mapper_outcome sha SOURCE_BUYBACK (wb_id b) d r d'"
    by (cases "wb_karat b"; cases "wb_weight_grams b")
      (auto simp: post_buyback_def mapper_simps same_books_refl split: if_splits
        intro: mapper_outcome_none mapper_outcome_post same_books_refl dest!: ensure_period_same_books)
qed (simp add: post_buyback_def)

interpretation melt: auto_poster sha "post_melt sha m st actor" SOURCE_MELT "me_id m" for sha m st actor
proof
  fix d r d' assume "post_melt sha m st actor d = Inr (r, d')"
  then show "mapper_outcome sha SOURCE_MELT (me_id m) d r d'"
    by (auto simp: post_melt_def mapper_simps same_books_refl split: if_splits
        intro: mapper_outcome_none mapper_outcome_post same_books_refl dest!: ensure_period_same_books)
qed (simp add: post_melt_def)

interpretation adjustment: auto_poster sha "post_adjustment sha a st actor" SOURCE_ADJUSTMENT "ad_id a"
  for sha a st actor
proof
  fix d r d' assume "post_adjustment sha a st actor d = Inr (r, d')"
  then show "mapper_outcome sha SOURCE_ADJUSTMENT (ad_id a) d r d'"
    by (cases "ad_karat a"; cases "ad_grams a")
      (auto simp: post_adjustment_def mapper_simps same_books_refl split: if_splits
        intro: mapper_outcome_none mapper_outcome_post same_books_refl dest!: ensure_period_same_books)
qed (simp add: post_adjustment_def)

text \<open>The full refund is the reversal; the item refund one of the mappers.\<close>

lemma post_order_refund_inv:
  assumes "journal_invariant sha Inv" "post_order_refund sha ord st actor ri rv rq rs dt d = Inr (r, d')" "Inv d"
  shows "Inv d'"
  using assms(2,3) journal_invariant.inv_reverse [OF assms(1)] item_refund.run_inv [OF assms(1)]
    journal_invariant.inv_frame [OF assms(1) ensure_period_same_books]
  by (fastforce simp: post_order_refund_def res_simps Let_def split: if_splits option.splits)

section \<open>When the lines of a mapper balance\<close>

text \<open>What \<open>post_entry\<close> validates is the lines after rounding; denominations do not matter to the balance.\<close>

definition rounded_balanced :: "gl_line list \<Rightarrow> bool" where
  "rounded_balanced lines \<longleftrightarrow> balanced (map normalize_line_decimals lines)"

lemma balanced_append: "balanced xs \<Longrightarrow> balanced ys \<Longrightarrow> balanced (xs @ ys)"
  by (simp add: balanced_def)

lemma rounded_balanced_append: "rounded_balanced xs \<Longrightarrow> rounded_balanced ys \<Longrightarrow> rounded_balanced (xs @ ys)"
  by (simp add: rounded_balanced_def balanced_append)

lemma rounded_balanced_Nil: "rounded_balanced []"
  by (simp add: rounded_balanced_def balanced_def)

lemma rounded_balanced_concat: "(\<And>x. x \<in> set xs \<Longrightarrow> rounded_balanced (f x)) \<Longrightarrow> rounded_balanced (concat (map f xs))"
  by (induction xs) (simp_all add: rounded_balanced_Nil rounded_balanced_append)

lemmas line_defs = money_dr_def money_cr_def metal_dr_def metal_cr_def GLLine_def normalize_line_decimals_def

text \<open>Two lines over the same cost and grams of a karat, one on each side.\<close>

lemma metal_pair_balanced:
  "rounded_balanced [metal_dr a c g k m, metal_cr b c g k n]" "rounded_balanced [metal_cr b c g k n, metal_dr a c g k m]"
  by (auto simp: rounded_balanced_def balanced_def line_defs)

lemma money_pair_balanced: "rounded_balanced [money_dr a c m, money_cr b c n]"
  by (auto simp: rounded_balanced_def balanced_def line_defs)

lemma cogs_lines_balanced: "rounded_balanced (cogs_lines c i aggs)"
  unfolding cogs_lines_def by (rule rounded_balanced_concat) (auto simp: metal_pair_balanced)

lemma stone_lines_balanced: "stone_lines d s = Inr ls \<Longrightarrow> rounded_balanced ls"
  by (auto simp: stone_lines_def res_simps rounded_balanced_Nil money_pair_balanced split: if_splits)

lemma refund_stone_lines_balanced: "refund_stone_lines d s = Inr ls \<Longrightarrow> rounded_balanced ls"
  by (auto simp: refund_stone_lines_def res_simps Let_def rounded_balanced_Nil money_pair_balanced split: if_splits)

text \<open>
  A sale: with amounts in cents and no negative component, its money lines balance
  exactly when the order's total is its subtotal, less the discount, plus the VAT.
\<close>

definition order_in_cents :: "order \<Rightarrow> bool" where
  "order_in_cents ord \<longleftrightarrow> at_scale 2 (or_subtotal ord) \<and> at_scale 2 (or_vat_amount ord)
     \<and> at_scale 2 (or_discount_amount ord) \<and> at_scale 2 (or_total_usd ord)
     \<and> 0 \<le> or_vat_amount ord \<and> 0 \<le> or_discount_amount ord \<and> 0 \<le> making_revenue ord"

lemma making_revenue_scale: "at_scale 2 (making_revenue ord)"
  by (simp add: making_revenue_def)

lemma sale_money_lines_balanced:
  assumes "order_in_cents ord"
  shows "rounded_balanced (sale_money_lines acc ord)
     \<longleftrightarrow> or_total_usd ord = or_subtotal ord - or_discount_amount ord + or_vat_amount ord"
proof -
  have q: "q_money (or_total_usd ord) = or_total_usd ord" "q_money (or_vat_amount ord) = or_vat_amount ord"
    "q_money (or_discount_amount ord) = or_discount_amount ord" "q_money (making_revenue ord) = making_revenue ord"
    "q_money (or_subtotal ord - making_revenue ord) = or_subtotal ord - making_revenue ord"
    using assms by (simp_all add: order_in_cents_def making_revenue_scale at_scale_diff)
  have n: "0 \<le> or_vat_amount ord" "0 \<le> or_discount_amount ord" "0 \<le> making_revenue ord"
    using assms by (simp_all add: order_in_cents_def)
  show ?thesis
    using n by (auto simp: rounded_balanced_def balanced_def sale_money_lines_def Let_def line_defs q)
qed

lemma sale_lines_balanced:
  assumes "sale_lines d acc ord = Inr lines" "order_in_cents ord"
    "or_total_usd ord = or_subtotal ord - or_discount_amount ord + or_vat_amount ord"
  shows "rounded_balanced lines"
  using assms(1) sale_money_lines_balanced [OF assms(2), of acc] assms(3)
  by (auto simp: sale_lines_def res_simps dest!: stone_lines_balanced
      intro!: rounded_balanced_append cogs_lines_balanced)

text \<open>An item refund's lines balance whatever the rounding of its shares.\<close>

lemma refund_lines_balanced:
  assumes "at_scale 2 v" "ra = refund_amounts st ord it v qty"
    "0 \<le> ra_making_share ra" "0 \<le> ra_discount_slice ra"
  shows "rounded_balanced (refund_lines acc ra it cost grams)"
proof -
  have sc: "at_scale 2 (ra_making_share ra)" "at_scale 2 (ra_discount_slice ra)" "at_scale 2 (ra_vat_share ra)"
    using assms(2) by (simp_all add: refund_amounts_def Let_def)
  then have sh: "ra_sales_share ra = v - ra_making_share ra" "ra_cash_back ra = v - ra_discount_slice ra + ra_vat_share ra"
    using assms(1,2) by (simp_all add: refund_amounts_def Let_def at_scale_diff at_scale_add)
  have q: "q_money (ra_making_share ra) = ra_making_share ra" "q_money (ra_discount_slice ra) = ra_discount_slice ra"
    "q_money (ra_vat_share ra) = ra_vat_share ra" "q_money (v - ra_making_share ra) = v - ra_making_share ra"
    "q_money (v - ra_discount_slice ra + ra_vat_share ra) = v - ra_discount_slice ra + ra_vat_share ra"
    using assms(1) sc by (simp_all add: at_scale_diff at_scale_add)
  show ?thesis
    using assms(3,4) by (auto simp: rounded_balanced_def balanced_def refund_lines_def Let_def line_defs sh q)
qed

lemma supplier_payment_lines_balanced: "supplier_payment_lines d p = Inr ls \<Longrightarrow> rounded_balanced ls"
  by (auto simp: supplier_payment_lines_def res_simps Let_def money_pair_balanced metal_pair_balanced
      split: debt_unit.splits option.splits)

lemma buyback_lines_balanced: "rounded_balanced (buyback_lines i c cl k g cost)"
  by (auto simp: rounded_balanced_def balanced_def buyback_lines_def line_defs)

lemma melt_lines_balanced: "rounded_balanced (melt_lines i cl fk fg tk tg cost)"
  by (auto simp: rounded_balanced_def balanced_def melt_lines_def line_defs)

lemma adjustment_lines_balanced: "rounded_balanced (adjustment_lines x i cl k g cost)"
  by (auto simp: rounded_balanced_def balanced_def adjustment_lines_def line_defs)

text \<open>
  A supplier purchase: the gold side always balances; the cash side does when what was
  paid at creation does not exceed what is due.
\<close>

lemma purchase_gold_lines_balanced: "rounded_balanced (purchase_gold_lines i m gc due paid)"
  unfolding purchase_gold_lines_def
  by (rule rounded_balanced_concat) (auto simp: Let_def rounded_balanced_Nil metal_pair_balanced split: prod.splits)

lemma purchase_cash_lines_balanced:
  assumes "purchase_cash_lines d pv ap cash pu stone = Inr ls"
    "at_scale 2 (sp_total_cash_due pu)" "at_scale 2 (sp_cash_paid_at_creation pu)" "at_scale 2 stone" "0 \<le> stone"
    "0 \<le> sp_cash_paid_at_creation pu" "sp_cash_paid_at_creation pu \<le> sp_total_cash_due pu"
  shows "rounded_balanced ls"
proof -
  let ?due = "sp_total_cash_due pu" and ?paid = "sp_cash_paid_at_creation pu"
  have q: "q_money (?due - ?paid) = ?due - ?paid" "q_money ?paid = ?paid" "q_money ?due = ?due"
    "q_money (?due - stone) = ?due - stone" "q_money stone = stone"
    using assms(2-4) by (simp_all add: at_scale_diff)
  show ?thesis
    using assms(1,5-7)
    by (auto simp: purchase_cash_lines_def Let_def res_simps rounded_balanced_def balanced_def line_defs q
        split: if_splits)
qed

end
