(* ===== verification/Liveness.thy ===== *)
theory Liveness
  imports GL_Invariants
begin

text \<open>
  When a posting succeeds. A request that passes the engine's own checks is posted, in
  every database whose entry numbers were handed out by its counters, unless the hash
  of the new entry or of its audit event is already taken. The counters' invariant is
  one more instance of the journal's interface.
\<close>

section \<open>Past the checks\<close>

lemma ledger_record_fresh:
  assumes "latest_entry_hash (inv_head d) \<noteq> []"
    and "\<And>x. sha (chain_blob (latest_entry_hash (inv_head d)) x) \<notin> il_entry_hash ` set (inv_ledger d)"
  shows "\<exists>r d'. ledger_record sha ev ac rt ri p d = Inr (r, d')"
  using assms
  by (auto simp: ledger_record_def Let_def lock_head_def read_clock_def fresh_uid_def
      compute_ledger_entry_hash_def compute_hash_def raise_if_def)

lemma insert_entry_fresh:
  assumes "refuse_duplicate_posting d (je_source_type e) (je_source_id e) (je_reverses_entry_id e) = Inr ()"
    and fresh: "je_entry_no e \<notin> je_entry_no ` set (gl_entries d)" "je_entry_hash e \<notin> je_entry_hash ` set (gl_entries d)"
  shows "insert_entry e d = Inr (d\<lparr>gl_entries := gl_entries d @ [e]\<rparr>)"
proof -
  have a: "je_reverses_entry_id e \<notin> set (map je_reverses_entry_id (gl_entries d))" if "je_reverses_entry_id e \<noteq> None"
  proof -
    from that obtain i where i: "je_reverses_entry_id e = Some i" by blast
    with assms have "find_reversal d i = None"
      by (simp add: refuse_duplicate_posting_def split: option.splits)
    then show ?thesis by (auto simp: i find_reversal_def find_None_iff)
  qed
  have b: "\<not> (\<exists>f \<in> set (gl_entries d). live_for (je_source_type e) (the (je_source_id e)) f)"
    if r: "je_reverses_entry_id e = None" and u: "je_source_type e \<in> set GL_UNIQUE_LIVE_SOURCE_TYPES" and s: "je_source_id e \<noteq> None"
  proof -
    from s obtain si where si: "je_source_id e = Some si" by blast
    with assms r u have "find (live_for (je_source_type e) si) (gl_entries d) = None"
      by (simp add: refuse_duplicate_posting_def split: option.splits)
    then show ?thesis by (auto simp: si find_None_iff)
  qed
  have c: "(je_reverses_entry_id e \<noteq> None \<and> je_reverses_entry_id e \<in> set (map je_reverses_entry_id (gl_entries d))) = False"
    using a by blast
  have c': "(je_reverses_entry_id e = None \<and> je_source_type e \<in> set GL_UNIQUE_LIVE_SOURCE_TYPES \<and> je_source_id e \<noteq> None
        \<and> (\<exists>f \<in> set (gl_entries d). live_for (je_source_type e) (the (je_source_id e)) f)) = False"
    using b by blast
  show ?thesis unfolding insert_entry_def raise_if_def c c' using fresh by simp
qed

definition valid_request :: "db \<Rightarrow> post_request \<Rightarrow> bool" where
  "valid_request d q \<longleftrightarrow>
     (\<exists>p. resolve_open_period d (pq_entry_date q) (pq_allow_closed_period q) = Inr p)
     \<and> (\<exists>rs. resolve_denominations d (pq_lines q) = Inr rs \<and> validate_balanced (map normalize_line_decimals rs) = [])
     \<and> refuse_duplicate_posting d (pq_source_type q) (pq_source_id q) (pq_reverses_entry_id q) = Inr ()"

lemma refuse_duplicate_posting_cong:
  "gl_entries d' = gl_entries d \<Longrightarrow> refuse_duplicate_posting d' st si r = refuse_duplicate_posting d st si r"
  by (simp only: refuse_duplicate_posting_def find_reversal_def)

text \<open>No hash over the two chains' heads is taken.\<close>

definition hashes_fresh :: "(string \<Rightarrow> string) \<Rightarrow> db \<Rightarrow> bool" where
  "hashes_fresh sha d \<longleftrightarrow>
     (\<forall>x. sha (chain_blob (latest_entry_hash (gl_head d)) x) \<notin> je_entry_hash ` set (gl_entries d))
     \<and> (\<forall>x. sha (chain_blob (latest_entry_hash (inv_head d)) x) \<notin> il_entry_hash ` set (inv_ledger d))
     \<and> latest_entry_hash (gl_head d) \<noteq> [] \<and> latest_entry_hash (inv_head d) \<noteq> []"

lemma post_entry_fresh:
  assumes "valid_request d q" "hashes_fresh sha d"
    and no_fresh: "fst (next_entry_no d (pq_entry_date q)) \<notin> je_entry_no ` set (gl_entries d)"
  shows "\<exists>e d'. post_entry sha q d = Inr (e, d')"
proof -
  obtain no d1 where no: "next_entry_no d (pq_entry_date q) = (no, d1)" by fastforce
  obtain sq where d1: "d1 = d\<lparr>gl_seqs := sq\<rparr>" using next_entry_no_frame [OF no] by blast
  from assms(1) obtain p rs where
    ok: "resolve_open_period d (pq_entry_date q) (pq_allow_closed_period q) = Inr p"
    "resolve_denominations d (pq_lines q) = Inr rs" "validate_balanced (map normalize_line_decimals rs) = []"
    "refuse_duplicate_posting d (pq_source_type q) (pq_source_id q) (pq_reverses_entry_id q) = Inr ()"
    by (auto simp: valid_request_def)
  let ?d2 = "d1\<lparr>clock := clock d1 + 1, uid_next := Suc (uid_next d1)\<rparr>"
  let ?hash = "sha (chain_blob (latest_entry_hash (gl_head d)) (gl_chained
      (\<lparr>hd_entry_no = no, hd_entry_date = pq_entry_date q, hd_memo = pq_memo q,
        hd_source_type = pq_source_type q, hd_source_id = pq_source_id q,
        hd_reverses_entry_id = pq_reverses_entry_id q, hd_actor_user_id = pq_actor_user_id q,
        hd_occurred_at = (case pq_occurred_at q of None \<Rightarrow> clock d | Some t \<Rightarrow> t)\<rparr>,
       map line_to_hash_dict (map normalize_line_decimals rs))))"
  let ?e = "\<lparr>je_id = uid (uid_next d), je_entry_no = no, je_entry_date = pq_entry_date q,
                  je_period_id = per_id p, je_memo = pq_memo q,
                  je_source_type = pq_source_type q, je_source_id = pq_source_id q,
                  je_reverses_entry_id = pq_reverses_entry_id q, je_actor_user_id = pq_actor_user_id q,
                  je_occurred_at = (case pq_occurred_at q of None \<Rightarrow> clock d | Some t \<Rightarrow> t),
                  je_prev_hash = latest_entry_hash (gl_head d), je_entry_hash = ?hash\<rparr>"
  let ?d3 = "?d2\<lparr>gl_entries := gl_entries ?d2 @ [?e]\<rparr>"
  have ins: "insert_entry ?e ?d2 = Inr ?d3"
    using assms(2) no_fresh
    by (intro insert_entry_fresh) (simp_all add: ok(4) refuse_duplicate_posting_cong [of _ d] d1 no hashes_fresh_def)
  let ?F = "(add_lines (uid (uid_next d)) 0 (map normalize_line_decimals rs) ?d3)
      \<lparr>gl_head := \<lparr>latest_entry_hash = ?hash, row_count = Suc (row_count (gl_head d))\<rparr>\<rparr>"
  have heads: "latest_entry_hash (gl_head d) \<noteq> []" using assms(2) by (simp add: hashes_fresh_def)
  obtain pl where un: "post_entry sha q d = bnd (insert_entry ?e ?d2) (\<lambda>x.
      bnd (ledger_record sha EVENT_GL_ENTRY_POSTED (pq_actor_user_id q) ''gl_journal_entry'' (uid (uid_next d)) pl
        ((add_lines (uid (uid_next d)) 0 (map normalize_line_decimals rs) x)
          \<lparr>gl_head := \<lparr>latest_entry_hash = ?hash, row_count = Suc (row_count (gl_head d))\<rparr>\<rparr>))
        (\<lambda>(_, d). Inr (?e, d)))"
    using heads ok no
    by (simp add: post_entry_def Let_def read_clock_def fresh_uid_def d1 compute_gl_entry_hash_def
        compute_hash_def cong: option.case_cong)
  have F: "inv_head ?F = inv_head d" "inv_ledger ?F = inv_ledger d" by (simp_all add: add_lines_eq d1)
  have "\<exists>r d'. ledger_record sha EVENT_GL_ENTRY_POSTED (pq_actor_user_id q) ''gl_journal_entry'' (uid (uid_next d)) pl ?F = Inr (r, d')"
    using assms(2) by (intro ledger_record_fresh) (simp_all only: F hashes_fresh_def, simp_all)
  then show ?thesis unfolding un ins bnd_simps by auto
qed

section \<open>Entry numbers\<close>

text \<open>The counter of a day, and the numbers it has handed out.\<close>

abbreviation day_count :: "db \<Rightarrow> string \<Rightarrow> nat" where
  "day_count d key \<equiv> seq_count (gl_seqs d) key"

definition entry_no_text :: "string \<Rightarrow> nat \<Rightarrow> string" where
  "entry_no_text key n = ''JE-'' @ key @ ''-'' @ zpad 3 (int n)"

definition numbers_ok :: "db \<Rightarrow> bool" where
  "numbers_ok d \<longleftrightarrow> (\<forall>e \<in> set (gl_entries d). \<exists>n \<le> day_count d (day_key (je_entry_date e)).
      je_entry_no e = entry_no_text (day_key (je_entry_date e)) n)"

lemma zpad_no_dash: "CHR ''-'' \<notin> set (zpad w (int n))"
proof
  assume "CHR ''-'' \<in> set (zpad w (int n))"
  then have "CHR ''-'' \<in> set (str_nat (int n))" by (simp add: zpad_def split: if_splits)
  from str_nat_chars [OF _ this] show False by simp
qed

lemma split_last_dash:
  assumes "xs @ c # as = ys @ c # bs" "c \<notin> set as" "c \<notin> set bs"
  shows "xs = ys \<and> as = bs"
proof -
  have "takeWhile (\<lambda>x. x \<noteq> c) (rev (zs @ c # cs)) = rev cs" if "c \<notin> set cs" for zs cs
    using that by (auto simp: takeWhile_tail)
  from this [OF assms(2), of xs] this [OF assms(3), of ys] have "rev as = rev bs" by (simp add: assms(1))
  then show ?thesis using assms(1) by simp
qed

lemma entry_no_text_inj: "entry_no_text k m = entry_no_text l n \<longleftrightarrow> k = l \<and> m = n"
  using split_last_dash [of k "CHR ''-''" "zpad 3 (int m)" l "zpad 3 (int n)"] zpad_inj [of 3 "int m" 3 "int n"]
  by (auto simp: entry_no_text_def zpad_no_dash)

lemma find_upd_rows:
  assumes "\<And>x. P x \<Longrightarrow> P (f x)"
  shows "find P (upd_rows P f xs) = map_option f (find P xs)"
  using assms by (induction xs) (auto simp: upd_rows_def)

lemma find_upd_rows_other:
  assumes "\<And>x. P x \<Longrightarrow> \<not> Q x" "\<And>x. P (f x) = P x" "\<And>x. Q (f x) = Q x"
  shows "find Q (upd_rows P f xs) = find Q xs"
  using assms by (induction xs) (auto simp: upd_rows_def)

lemma find_snoc: "find P (xs @ [x]) = (case find P xs of None \<Rightarrow> if P x then Some x else None | r \<Rightarrow> r)"
  by (induction xs) auto

lemma bump_seq_count:
  assumes "bump_seq key d = (n, d')"
  shows "n = Suc (day_count d key)" "day_count d' k = (if k = key then n else day_count d k)"
proof -
  let ?P = "\<lambda>k s. seq_day_key s = (k :: string)" and ?f = "\<lambda>s. s\<lparr>seq_last_seq := Suc (seq_last_seq s)\<rparr>"
  have same: "find (?P key) (upd_rows (?P key) ?f xs) = map_option ?f (find (?P key) xs)" for xs
    by (rule find_upd_rows) simp
  have other: "find (?P k) (upd_rows (?P key) ?f xs) = find (?P k) xs" if "k \<noteq> key" for k and xs :: "gl_entry_sequence list"
    using that by (intro find_upd_rows_other) auto
  show "n = Suc (day_count d key)"
    using assms by (auto simp: bump_seq_def Let_def seq_count_def same find_snoc split: option.splits if_splits)
  show "day_count d' k = (if k = key then n else day_count d k)"
    using assms by (cases "k = key")
      (auto simp: bump_seq_def Let_def seq_count_def same other find_snoc split: option.splits if_splits)
qed

lemma bump_seq_same_books:
  assumes "bump_seq key d = (n, d')"
  shows "same_books d d'"
proof -
  have "day_count d k \<le> day_count d' k" for k using bump_seq_count [OF assms] by simp
  then show ?thesis by (subst bump_seq_frame [OF assms]) (simp add: same_books_def)
qed

lemma next_entry_no_count:
  assumes "next_entry_no d dt = (no, d')"
  shows "no = entry_no_text (day_key dt) (Suc (day_count d (day_key dt)))"
    and "day_count d' k = (if k = day_key dt then Suc (day_count d k) else day_count d k)"
proof -
  obtain n where n: "bump_seq (day_key dt) d = (n, d')" "no = entry_no_text (day_key dt) n"
    using assms by (auto simp: next_entry_no_def Let_def entry_no_text_def split: prod.splits)
  show "no = entry_no_text (day_key dt) (Suc (day_count d (day_key dt)))" using n bump_seq_count(1) [OF n(1)] by simp
  show "day_count d' k = (if k = day_key dt then Suc (day_count d k) else day_count d k)"
    using bump_seq_count [OF n(1)] by simp
qed

lemma next_entry_no_fresh:
  assumes "numbers_ok d"
  shows "fst (next_entry_no d dt) \<notin> je_entry_no ` set (gl_entries d)"
proof
  obtain no d1 where no: "next_entry_no d dt = (no, d1)" by fastforce
  assume "fst (next_entry_no d dt) \<in> je_entry_no ` set (gl_entries d)"
  then obtain e n where "e \<in> set (gl_entries d)" "n \<le> day_count d (day_key (je_entry_date e))"
    "no = entry_no_text (day_key (je_entry_date e)) n"
    using assms by (force simp: numbers_ok_def no)
  with next_entry_no_count(1) [OF no] show False by (auto simp: entry_no_text_inj)
qed

lemma numbers_ok_cong:
  "gl_entries d' = gl_entries d \<Longrightarrow> (\<And>k. day_count d k \<le> day_count d' k) \<Longrightarrow> numbers_ok d \<Longrightarrow> numbers_ok d'"
  unfolding numbers_ok_def by (metis order_trans)

lemma posted_numbers_ok:
  assumes "posted sha q d e ls d'" "numbers_ok d"
  shows "numbers_ok d'"
proof -
  from assms(1) obtain d1 where no: "next_entry_no d (je_entry_date e) = (je_entry_no e, d1)" and s: "gl_seqs d' = gl_seqs d1"
    and g: "gl_entries d' = gl_entries d @ [e]"
    by (auto simp: posted_def)
  have c: "day_count d' k = (if k = day_key (je_entry_date e) then Suc (day_count d k) else day_count d k)" for k
    using next_entry_no_count(2) [OF no, of k] s by (simp add: seq_count_def)
  have "\<exists>n \<le> day_count d' (day_key (je_entry_date f)). je_entry_no f = entry_no_text (day_key (je_entry_date f)) n"
    if f: "f \<in> set (gl_entries d)" for f
  proof -
    obtain n where n: "n \<le> day_count d (day_key (je_entry_date f))" "je_entry_no f = entry_no_text (day_key (je_entry_date f)) n"
      using assms(2) f unfolding numbers_ok_def by blast
    have "n \<le> day_count d' (day_key (je_entry_date f))" using n(1) by (auto simp: c)
    with n(2) show ?thesis by blast
  qed
  moreover have "\<exists>n \<le> day_count d' (day_key (je_entry_date e)). je_entry_no e = entry_no_text (day_key (je_entry_date e)) n"
    by (rule exI [of _ "Suc (day_count d (day_key (je_entry_date e)))"]) (simp add: c next_entry_no_count(1) [OF no])
  ultimately show ?thesis by (auto simp: numbers_ok_def g)
qed

interpretation num: journal_invariant sha numbers_ok for sha
proof
  fix q d e d' assume "post_entry sha q d = Inr (e, d')" "numbers_ok d"
  then show "numbers_ok d'" using post_entry_posted posted_numbers_ok by blast
next
  fix ev ac rt ri p d r d' assume r: "ledger_record sha ev ac rt ri p d = Inr (r, d')" and i: "numbers_ok d"
  obtain hd where d': "d' = d\<lparr>clock := clock d + 1, uid_next := Suc (uid_next d),
      inv_ledger := inv_ledger d @ [r], inv_head := hd\<rparr>"
    using ledger_record_frame(1) [OF r] by blast
  show "numbers_ok d'" by (rule numbers_ok_cong [OF _ _ i]) (simp_all add: d')
next
  fix d d' assume "same_books d d'" "numbers_ok d"
  then show "numbers_ok d'" by (intro numbers_ok_cong [of d' d]) (simp_all add: same_books_def)
qed

lemma post_entry_live:
  assumes "valid_request d q" "numbers_ok d" "hashes_fresh sha d"
  shows "\<exists>e d'. post_entry sha q d = Inr (e, d')"
  using post_entry_fresh [OF assms(1,3)] next_entry_no_fresh [OF assms(2)] by blast

end
