(* ===== verification/Demo.thy ===== *)
theory Demo
  imports GlPostings Liveness
begin

text \<open>
  A small shop: four accounts and an open month. It is the concrete database on which
  the witnesses run the operations. The identity stands for the hash function: blobs
  grow along a chain, so that no hash is ever taken twice.
\<close>

section \<open>With the identity as hash, every hash is fresh\<close>

lemma length_json_str: "length s + 2 \<le> length (json_str s)"
proof -
  have "length s \<le> length (concat (map json_esc s))"
    by (induction s) (auto simp: json_esc_def Let_def split: if_splits)
  then show ?thesis by (simp add: json_str_def)
qed

lemma length_join: "x \<in> set xs \<Longrightarrow> length x \<le> length (join sep xs)"
  by (induction sep xs rule: join.induct) auto

lemma length_render_member: "(k, v) \<in> set kvs \<Longrightarrow> length (render v) \<le> length (render (JObj kvs))"
proof -
  assume "(k, v) \<in> set kvs"
  then have "member_text (k, v) \<in> set (map member_text kvs)" by force
  from length_join [OF this, of "'',''"] show ?thesis by (simp only: render_JObj) (simp add: member_text_def)
qed

lemma chain_blob_longer: "length p < length (chain_blob p fs)"
proof -
  have "length (render (JStr p)) \<le> length (chain_blob p fs)"
    unfolding chain_blob_def dumps_render jsort.simps
    by (rule length_render_member [where k = "''__prev''"]) (auto intro!: image_eqI)
  then show ?thesis using length_json_str [of p] by simp
qed

context hash_chain
begin

lemma linked_growing:
  assumes id: "\<And>s. sha s = s" and "linked p rs"
  shows "length p \<le> length (last_hash p rs) \<and> (\<forall>r \<in> set rs. length (hashf r) \<le> length (last_hash p rs))"
  using assms(2)
proof (induction rs arbitrary: p)
  case (Cons x rs)
  then have h: "hashf x = sha (chain_blob p (flds x))" and l: "linked (hashf x) rs" unfolding linked.simps by blast+
  have "length p < length (hashf x)" unfolding h id by (rule chain_blob_longer)
  with l have x: "length p < length (hashf x)" "linked (hashf x) rs" by blast+
  show ?case using Cons.IH [OF x(2)] x(1) by (auto split: if_splits)
qed simp

lemma linked_fresh:
  assumes "\<And>s. sha s = s" "linked p rs" "r \<in> set rs"
  shows "hashf r \<noteq> sha (chain_blob (last_hash p rs) fs)"
  using linked_growing [OF assms(1,2)] assms(3) chain_blob_longer [of "last_hash p rs" fs] unfolding assms(1) by auto

end

definition demo_sha :: "string \<Rightarrow> string" where
  "demo_sha s = s"

lemma demo_hashes_fresh:
  assumes "journal_ok demo_sha d" "ledger_ok demo_sha d"
  shows "hashes_fresh demo_sha d"
proof -
  have l: "gc.linked demo_sha GENESIS_HASH (gl_rows d)" "lc.linked demo_sha GENESIS_HASH (inv_ledger d)"
    using assms by (simp_all add: journal_ok_def chain_ok_def ledger_ok_def)
  have h: "latest_entry_hash (gl_head d) = gc.last_hash GENESIS_HASH (gl_rows d)"
    "latest_entry_hash (inv_head d) = lc.last_hash GENESIS_HASH (inv_ledger d)"
    using assms by (simp_all add: journal_ok_def chain_ok_def ledger_ok_def gl_rows_def last_map)
  have "demo_sha (chain_blob (latest_entry_hash (gl_head d)) x) \<noteq> je_entry_hash e" if "e \<in> set (gl_entries d)" for x e
    using gc.linked_fresh [OF _ l(1), of "(e, map line_fields (entry_lines d (je_id e)))" x] that
    by (force simp: h demo_sha_def gl_rows_def)
  moreover have "demo_sha (chain_blob (latest_entry_hash (inv_head d)) x) \<noteq> il_entry_hash r" if "r \<in> set (inv_ledger d)" for x r
    using lc.linked_fresh [OF _ l(2) that, of x] by (simp add: h demo_sha_def)
  moreover have "latest_entry_hash (gl_head d) \<noteq> []" "latest_entry_hash (inv_head d) \<noteq> []"
    using gc.linked_growing [OF _ l(1)] lc.linked_growing [OF _ l(2)]
    by (auto simp: h demo_sha_def GENESIS_HASH_def split: if_splits)
  ultimately show ?thesis by (fastforce simp: hashes_fresh_def)
qed

lemma at_scale_numeral [simp]: "at_scale n (numeral k)"
  using at_scale_int [of n "numeral k"] by simp

section \<open>The shop\<close>

definition demo_account :: "nat \<Rightarrow> string \<Rightarrow> account_type \<Rightarrow> denomination \<Rightarrow> string \<Rightarrow> gl_account" where
  "demo_account n code ty den key =
     \<lparr>acc_id = uid n, acc_code = code, acc_name = key, acc_type = ty, acc_parent_id = None,
      acc_denomination = den, acc_currency = None, acc_system_key = Some key,
      acc_normal_balance = DEBIT, acc_is_active = True\<rparr>"

definition demo_period :: "nat \<Rightarrow> int \<Rightarrow> int \<Rightarrow> period_status \<Rightarrow> gl_period" where
  "demo_period n y m st = \<lparr>per_id = uid n, per_year = y, per_no = m, per_status = st,
      per_closed_by_user_id = None, per_closed_at = None\<rparr>"

definition demo_accounts :: "gl_account list" where
  "demo_accounts =
     [demo_account 0 ''530001'' ASSET MONEY ''CASH'', demo_account 1 ''701000'' INCOME MONEY ''SALES_REVENUE'',
      demo_account 2 ''370011'' ASSET DUAL ''METAL_INVENTORY'', demo_account 3 ''101401'' EQUITY MONEY ''RETAINED_EARNINGS'',
      demo_account 4 ''713000'' INCOME MONEY ''MAKING_CHARGE_REVENUE'', demo_account 5 ''442701'' LIABILITY MONEY ''VAT_PAYABLE'',
      demo_account 6 ''709000'' INCOME MONEY ''SALES_DISCOUNTS'', demo_account 7 ''611701'' EXPENSE DUAL ''METAL_COGS'',
      demo_account 8 ''411111'' ASSET MONEY ''AR'', demo_account 9 ''461901'' LIABILITY MONEY ''VENDOR_AP'',
      demo_account 10 ''775100'' INCOME MONEY ''FX_GAIN'', demo_account 11 ''675100'' EXPENSE MONEY ''FX_LOSS'',
      demo_account 12 ''626310'' EXPENSE MONEY ''RENT_EXPENSE'', demo_account 13 ''442611'' ASSET MONEY ''VAT_RECEIVABLE'']"

definition demo_clock :: instant where "demo_clock = 63904118400000000"

definition demo_db :: db where
  "demo_db = (empty_db demo_clock)\<lparr>uid_next := 20, gl_accounts := demo_accounts,
     gl_periods := [demo_period 18 2026 1 PERIOD_OPEN]\<rparr>"

lemma demo_db_parts:
  "gl_accounts demo_db = demo_accounts" "gl_periods demo_db = [demo_period 18 2026 1 PERIOD_OPEN]"
  "gl_entries demo_db = []" "gl_lines demo_db = []" "gl_seqs demo_db = []" "inv_ledger demo_db = []"
  "uid_next demo_db = 20" "clock demo_db = demo_clock"
  "gl_head demo_db = \<lparr>latest_entry_hash = GENESIS_HASH, row_count = 0\<rparr>"
  "inv_head demo_db = \<lparr>latest_entry_hash = GENESIS_HASH, row_count = 0\<rparr>"
  by (simp_all add: demo_db_def empty_db_def)

lemma demo_today: "date_of demo_clock = Date 2026 1 15"
  by code_simp

lemma demo_accounts_ok: "accounts_ok demo_db"
  by (auto simp: demo_db_parts demo_accounts_def demo_account_def accounts_ok_def)

lemma demo_journal_ok: "journal_ok sha demo_db"
  by (rule journal_ok_cong [OF _ _ _ _ _ journal_ok_empty [of _ demo_clock] demo_accounts_ok]) (simp_all add: demo_db_def empty_db_def)

lemma demo_ledger_ok: "ledger_ok sha demo_db"
  by (simp add: ledger_ok_def demo_db_parts)

lemma demo_numbers_ok: "numbers_ok demo_db"
  by (simp add: numbers_ok_def demo_db_parts)

text \<open>A posting of two money lines into the open month.\<close>

definition demo_lines :: "gl_line list" where
  "demo_lines = [money_dr (uid 0) 125 ''cash in'', money_cr (uid 1) 125 ''sale'']"

definition demo_request :: post_request where
  "demo_request = post_args (Date 2026 1 15) ''demo sale'' SOURCE_MANUAL None demo_lines ''u1''"

lemmas check_simps = resolve_open_period_def resolve_denominations_def resolve_line_def refuse_duplicate_posting_def
  scalar_one_or_none_def normalize_line_decimals_def validate_balanced_def line_errors_def metal_errors_def
  has_metal_def has_money_def demo_accounts_def money_dr_def money_cr_def metal_dr_def metal_cr_def GLLine_def demo_account_def
  demo_period_def post_args_def

lemma demo_valid: "valid_request demo_db demo_request"
  by (simp add: valid_request_def demo_db_parts demo_request_def demo_lines_def check_simps)

lemma demo_posts: "\<exists>e d'. post_entry demo_sha demo_request demo_db = Inr (e, d')"
  by (rule post_entry_live [OF demo_valid demo_numbers_ok demo_hashes_fresh [OF demo_journal_ok demo_ledger_ok]])

end
