(* ===== verification/GlFx.thy ===== *)
theory GlFx
  imports TrialBalance
begin

text \<open>
  \<open>app/core/gl_fx.py\<close>: the legs of an AR receipt or a vendor payment, with the
  realised FX difference plugged so that the base dimension balances. Pure: no
  database, no clock. A rate is LBP per USD and \<open>base = money / rate\<close>.
\<close>

definition FX_LOSS :: string where "FX_LOSS = ''FX_LOSS''"
definition FX_GAIN :: string where "FX_GAIN = ''FX_GAIN''"

record leg =
  lg_system_key :: string
  lg_debit :: bool
  lg_money :: dec
  lg_base :: dec
  lg_currency :: string
  lg_fx_rate :: dec
  lg_memo :: string

record allocation =
  ag_invoice_currency :: string
  ag_invoice_fx_rate :: dec
  ag_applied_money :: dec

definition Leg :: "string \<Rightarrow> bool \<Rightarrow> dec \<Rightarrow> dec \<Rightarrow> string \<Rightarrow> dec \<Rightarrow> string \<Rightarrow> leg" where
  "Leg key dr money base cur rate memo =
     \<lparr>lg_system_key = key, lg_debit = dr, lg_money = money, lg_base = base, lg_currency = cur,
      lg_fx_rate = rate, lg_memo = memo\<rparr>"

definition Allocation :: "string \<Rightarrow> dec \<Rightarrow> dec \<Rightarrow> allocation" where
  "Allocation cur rate money =
     \<lparr>ag_invoice_currency = cur, ag_invoice_fx_rate = rate, ag_applied_money = money\<rparr>"

text \<open>One control leg: the document is relieved at its captured rate.\<close>

definition control_leg :: "string \<Rightarrow> string \<Rightarrow> string \<Rightarrow> allocation \<Rightarrow> leg res" where
  "control_leg kind recorded control_key al =
     (let money = q_money (ag_applied_money al) in
      bnd (ddiv money (ag_invoice_fx_rate al)) (\<lambda>b.
      Inr (Leg control_key (kind = ''payment'') money (q_money b) recorded (ag_invoice_fx_rate al)
             (if kind = ''receipt'' then ''relieve AR'' else ''relieve AP''))))"

text \<open>What the cash leg is worth in the tender's currency, and in base.\<close>

definition tender_money :: "string \<Rightarrow> string \<Rightarrow> dec \<Rightarrow> dec \<Rightarrow> dec res" where
  "tender_money recorded tender rate total_money =
     (if tender = recorded then Inr total_money
      else if recorded = ''USD'' then Inr (q_money (dmul total_money rate))
      else Inl (ValueError (Msg ''cannot settle a {} document with {} cash; use a {} cash account''
                  [AStr recorded, AStr tender, AStr recorded])))"

definition tender_base :: "dec \<Rightarrow> dec \<Rightarrow> dec res" where
  "tender_base cash_money rate =
     (if rate \<noteq> 1 then bnd (ddiv cash_money rate) (\<lambda>b. Inr (q_money b)) else Inr cash_money)"

definition fx_plug :: "leg list \<Rightarrow> leg list" where
  "fx_plug legs =
     (let credit_base = sum_of lg_base (filter (\<lambda>l. \<not> lg_debit l) legs);
          debit_base = sum_of lg_base (filter lg_debit legs);
          plug = q_money (credit_base - debit_base)
      in if 0 < plug then [Leg FX_LOSS True plug plug ''USD'' 1 ''realized FX loss'']
         else if plug < 0 then [Leg FX_GAIN False (- plug) (- plug) ''USD'' 1 ''realized FX gain'']
         else [])"

definition settlement_legs ::
    "string \<Rightarrow> string \<Rightarrow> allocation list \<Rightarrow> string \<Rightarrow> string \<Rightarrow> string \<Rightarrow> dec \<Rightarrow> leg list res" where
  "settlement_legs kind recorded allocs control_key cash_key tender rate =
     raise_if (kind \<notin> {''receipt'', ''payment''}) (ValueError (Msg ''unknown settlement kind {}'' [AStr kind]))
    (raise_if (allocs = []) (ValueError (Msg ''settlement requires at least one allocation'' []))
    (case find (\<lambda>al. ag_invoice_currency al \<noteq> recorded) allocs of
       Some al \<Rightarrow> Inl (ValueError (Msg ''settlement recorded in {} cannot be applied to a {} document - record it in {}''
                    [AStr recorded, AStr (ag_invoice_currency al), AStr (ag_invoice_currency al)]))
     | None \<Rightarrow>
         bnd (map_res (control_leg kind recorded control_key) allocs) (\<lambda>legs.
         let total_money = sum_of (q_money \<circ> ag_applied_money) allocs in
         bnd (tender_money recorded tender rate total_money) (\<lambda>cash.
         let cash_money = q_money cash in
         bnd (tender_base cash_money rate) (\<lambda>cash_base.
         let legs = legs @ [Leg cash_key (kind = ''receipt'') cash_money cash_base tender rate
                              (if kind = ''receipt'' then ''receipt'' else ''cash out'')]
         in Inr (legs @ fx_plug legs))))))"

section \<open>The legs balance\<close>

definition leg_debits :: "leg list \<Rightarrow> dec" where
  "leg_debits legs = sum_of lg_base (filter lg_debit legs)"

definition leg_credits :: "leg list \<Rightarrow> dec" where
  "leg_credits legs = sum_of lg_base (filter (\<lambda>l. \<not> lg_debit l) legs)"

lemma leg_sums_append [simp]:
  "leg_debits (xs @ ys) = leg_debits xs + leg_debits ys"
  "leg_credits (xs @ ys) = leg_credits xs + leg_credits ys"
  by (simp_all add: leg_debits_def leg_credits_def)

lemma leg_sums_scaled:
  assumes "\<And>l. l \<in> set legs \<Longrightarrow> at_scale 2 (lg_base l)"
  shows "at_scale 2 (leg_debits legs)" "at_scale 2 (leg_credits legs)"
  using assms by (auto simp: leg_debits_def leg_credits_def intro!: at_scale_sum_of)

lemma fx_plug_balances:
  assumes "\<And>l. l \<in> set legs \<Longrightarrow> at_scale 2 (lg_base l)"
  shows "leg_debits (legs @ fx_plug legs) = leg_credits (legs @ fx_plug legs)"
    and "\<And>l. l \<in> set (fx_plug legs) \<Longrightarrow> at_scale 2 (lg_base l)"
proof -
  have "at_scale 2 (leg_credits legs - leg_debits legs)"
    by (intro at_scale_diff leg_sums_scaled assms)
  then have q: "q_money (leg_credits legs - leg_debits legs) = leg_credits legs - leg_debits legs" by simp
  have p: "fx_plug legs =
      (let plug = leg_credits legs - leg_debits legs in
         if 0 < plug then [Leg FX_LOSS True plug plug ''USD'' 1 ''realized FX loss'']
         else if plug < 0 then [Leg FX_GAIN False (- plug) (- plug) ''USD'' 1 ''realized FX gain'']
         else [])"
    unfolding fx_plug_def Let_def using q by (simp add: leg_debits_def leg_credits_def)
  show "leg_debits (legs @ fx_plug legs) = leg_credits (legs @ fx_plug legs)"
    unfolding p Let_def by (simp add: Leg_def leg_debits_def leg_credits_def)
  show "at_scale 2 (lg_base l)" if "l \<in> set (fx_plug legs)" for l
    using that leg_sums_scaled [OF assms] unfolding p Let_def
    by (auto simp: Leg_def at_scale_diff split: if_splits)
qed

text \<open>What the settlement is made of.\<close>

lemma settlement_parts:
  assumes "settlement_legs kind recorded allocs control_key cash_key tender rate = Inr legs"
  obtains ctl cash_money cash_base where
    "map_res (control_leg kind recorded control_key) allocs = Inr ctl"
    "\<And>al. al \<in> set allocs \<Longrightarrow> ag_invoice_currency al = recorded"
    "tender = recorded \<Longrightarrow> cash_money = sum_of (q_money \<circ> ag_applied_money) allocs"
    "tender \<noteq> recorded \<Longrightarrow> recorded = ''USD'' \<and> cash_money = q_money (dmul (sum_of (q_money \<circ> ag_applied_money) allocs) rate)"
    "tender_base cash_money rate = Inr cash_base" "at_scale 2 cash_money" "at_scale 2 cash_base"
    "kind = ''receipt'' \<or> kind = ''payment''"
    "legs = (ctl @ [Leg cash_key (kind = ''receipt'') cash_money cash_base tender rate
                     (if kind = ''receipt'' then ''receipt'' else ''cash out'')])
       @ fx_plug (ctl @ [Leg cash_key (kind = ''receipt'') cash_money cash_base tender rate
                     (if kind = ''receipt'' then ''receipt'' else ''cash out'')])"
proof -
  let ?total = "sum_of (q_money \<circ> ag_applied_money) allocs"
  from assms obtain ctl cash cash_base where s:
    "map_res (control_leg kind recorded control_key) allocs = Inr ctl"
    "find (\<lambda>al. ag_invoice_currency al \<noteq> recorded) allocs = None"
    "tender_money recorded tender rate ?total = Inr cash"
    "tender_base (q_money cash) rate = Inr cash_base"
    "kind = ''receipt'' \<or> kind = ''payment''"
    "legs = (ctl @ [Leg cash_key (kind = ''receipt'') (q_money cash) cash_base tender rate
                     (if kind = ''receipt'' then ''receipt'' else ''cash out'')])
       @ fx_plug (ctl @ [Leg cash_key (kind = ''receipt'') (q_money cash) cash_base tender rate
                     (if kind = ''receipt'' then ''receipt'' else ''cash out'')])"
    by (auto simp: settlement_legs_def res_simps Let_def split: option.splits)
  have tot: "at_scale 2 ?total" by (auto intro!: at_scale_sum_of)
  show thesis
  proof (rule that [OF s(1) _ _ _ s(4) _ _ s(5) s(6)])
    show "ag_invoice_currency al = recorded" if "al \<in> set allocs" for al
      using s(2) that by (auto simp: find_None_iff)
    show "tender = recorded \<Longrightarrow> q_money cash = ?total"
      using s(3) tot by (auto simp: tender_money_def)
    show "tender \<noteq> recorded \<Longrightarrow> recorded = ''USD'' \<and> q_money cash = q_money (dmul ?total rate)"
      using s(3) by (auto simp: tender_money_def split: if_splits)
    show "at_scale 2 cash_base"
      using s(4) by (auto simp: tender_base_def res_simps split: if_splits)
  qed simp
qed

lemma control_legs:
  assumes "map_res (control_leg kind recorded control_key) allocs = Inr ctl" "l \<in> set ctl"
  shows "at_scale 2 (lg_base l)" "at_scale 2 (lg_money l)" "lg_system_key l = control_key"
    "lg_debit l = (kind = ''payment'')"
  using assms
  by (induction allocs arbitrary: ctl) (auto simp: res_simps control_leg_def Let_def Leg_def)

lemma control_legs_sums:
  assumes "map_res (control_leg kind recorded control_key) allocs = Inr ctl"
  shows "sum_of lg_money ctl = sum_of (q_money \<circ> ag_applied_money) allocs"
    and "sum_of lg_base ctl = sum_of (\<lambda>al. q_money (ctx (q_money (ag_applied_money al) / ag_invoice_fx_rate al))) allocs"
  using assms
  by (induction allocs arbitrary: ctl) (auto simp: res_simps control_leg_def Let_def Leg_def)

lemma settlement_legs_balanced:
  assumes "settlement_legs kind recorded allocs control_key cash_key tender rate = Inr legs"
  shows "leg_debits legs = leg_credits legs" and "\<And>l. l \<in> set legs \<Longrightarrow> at_scale 2 (lg_base l)"
proof -
  obtain ctl cash_money cash_base where p:
    "map_res (control_leg kind recorded control_key) allocs = Inr ctl" "at_scale 2 cash_base"
    "legs = (ctl @ [Leg cash_key (kind = ''receipt'') cash_money cash_base tender rate
                     (if kind = ''receipt'' then ''receipt'' else ''cash out'')])
       @ fx_plug (ctl @ [Leg cash_key (kind = ''receipt'') cash_money cash_base tender rate
                     (if kind = ''receipt'' then ''receipt'' else ''cash out'')])"
    by (rule settlement_parts [OF assms])
  let ?L = "ctl @ [Leg cash_key (kind = ''receipt'') cash_money cash_base tender rate
                     (if kind = ''receipt'' then ''receipt'' else ''cash out'')]"
  have sc: "at_scale 2 (lg_base l)" if "l \<in> set ?L" for l
    using that control_legs(1) [OF p(1)] p(2) by (auto simp: Leg_def)
  show "leg_debits legs = leg_credits legs"
    unfolding p(3) by (rule fx_plug_balances(1) [of ?L]) (rule sc)
  show "at_scale 2 (lg_base l)" if "l \<in> set legs" for l
  proof (cases "l \<in> set ?L")
    case True
    then show ?thesis by (rule sc)
  next
    case False
    then have "l \<in> set (fx_plug ?L)" using that unfolding p(3) by simp
    then show ?thesis using fx_plug_balances(2) [of ?L] sc by blast
  qed
qed

end
