(* ===== verification/Subledger.thy ===== *)
theory Subledger
  imports GlFx GlPostings Liveness "HOL-Library.Product_Lexorder"
begin

text \<open>
  What the receivables (\<open>app/core/ar.py\<close>) and the vendor payables
  (\<open>app/core/expenses.py\<close>) share: document numbers, the resolution of an account by its
  system key, the turning of a settlement leg into a line, and the contract of the loop
  that spends an amount on open documents in order, with its abstract specification.
\<close>

section \<open>Documents and legs\<close>

definition resolve_gl :: "db \<Rightarrow> string \<Rightarrow> string res" where
  "resolve_gl d system_key =
     bnd (scalar_one_or_none (\<lambda>a. acc_system_key a = Some system_key) (gl_accounts d)) (\<lambda>a.
       case a of
         None \<Rightarrow> Inl (HTTPException 422 (Msg ''GL account {} not seeded'' [AStr system_key]))
       | Some a \<Rightarrow> Inr (acc_id a))"

definition next_doc_no :: "string \<Rightarrow> date \<Rightarrow> db \<Rightarrow> string \<times> db" where
  "next_doc_no prefix entry_date d =
     (let (n, d) = bump_seq (prefix @ day_key entry_date) d
      in (prefix @ ''-'' @ day_key entry_date @ ''-'' @ zpad 3 (int n), d))"

definition leg_to_glline :: "db \<Rightarrow> leg \<Rightarrow> gl_line res" where
  "leg_to_glline d lg =
     bnd (resolve_gl d (lg_system_key lg)) (\<lambda>acct_id.
     let l = (GLLine acct_id (Some MONEY) (lg_memo lg))\<lparr>ln_currency := lg_currency lg, ln_fx_rate := lg_fx_rate lg\<rparr> in
     Inr (if lg_debit lg then l\<lparr>ln_base_debit := lg_base lg, ln_money_debit := lg_money lg\<rparr>
          else l\<lparr>ln_base_credit := lg_base lg, ln_money_credit := lg_money lg\<rparr>))"

text \<open>\<open>x or "USD"\<close>, \<open>rate or ONE\<close>\<close>

definition or_usd :: "string \<Rightarrow> string" where
  "or_usd c = (if c = [] then ''USD'' else c)"

definition or_one :: "dec \<Rightarrow> dec" where
  "or_one r = (if r = 0 then 1 else r)"

text \<open>The currency of the account the cash goes through.\<close>

definition tender_of :: "gl_account \<Rightarrow> string" where
  "tender_of a = or_usd (case acc_currency a of None \<Rightarrow> [] | Some c \<Rightarrow> c)"

text \<open>The rate of a document: given, or 1 for dollars and the shop's rate otherwise.\<close>

definition doc_rate :: "settings \<Rightarrow> string \<Rightarrow> dec option \<Rightarrow> dec" where
  "doc_rate st currency fx_rate =
     (case fx_rate of Some r \<Rightarrow> r | None \<Rightarrow> if currency \<noteq> ''USD'' then lbp_exchange_rate st else 1)"

lemma next_doc_no_frame:
  assumes "next_doc_no p dt d = (no, d')"
  shows "d' = d\<lparr>gl_seqs := gl_seqs d'\<rparr>" "same_books d d'"
  using assms bump_seq_frame bump_seq_same_books by (auto simp: next_doc_no_def Let_def split: prod.splits)

lemma resolve_gl_account:
  assumes "resolve_gl d key = Inr i"
  shows "\<exists>a \<in> set (gl_accounts d). acc_id a = i \<and> acc_system_key a = Some key"
  using assms by (auto simp: resolve_gl_def res_simps split: option.splits dest!: scalar_one_or_none_SomeD)

text \<open>The lines of balanced legs balance.\<close>

lemma leg_lines_sums:
  assumes "map_res (leg_to_glline d) legs = Inr ls" "\<And>l. l \<in> set legs \<Longrightarrow> at_scale 2 (lg_base l)"
  shows "sum_of ln_base_debit (map normalize_line_decimals ls) = leg_debits legs"
    and "sum_of ln_base_credit (map normalize_line_decimals ls) = leg_credits legs"
    and "\<And>l. l \<in> set ls \<Longrightarrow> \<not> has_metal l"
  using assms
  by (induction legs arbitrary: ls)
    (auto simp: res_simps leg_to_glline_def Let_def GLLine_def normalize_line_decimals_def leg_debits_def
      leg_credits_def has_metal_def split: if_splits)

lemma leg_lines_balanced:
  assumes "map_res (leg_to_glline d) legs = Inr ls" "\<And>l. l \<in> set legs \<Longrightarrow> at_scale 2 (lg_base l)"
    "leg_debits legs = leg_credits legs"
  shows "rounded_balanced ls"
proof -
  have "\<not> has_metal (normalize_line_decimals l)" if "l \<in> set ls" for l
    using leg_lines_sums(3) [OF assms(1,2) that] by (simp add: has_metal_def normalize_line_decimals_def)
  then have "sum_of ln_metal_debit_grams (filter P (map normalize_line_decimals ls)) = 0"
    "sum_of ln_metal_credit_grams (filter P (map normalize_line_decimals ls)) = 0" for P
    by (auto intro!: sum_of_zero simp: has_metal_def)
  then show ?thesis
    using leg_lines_sums(1,2) [OF assms(1,2)] assms(3) by (simp add: rounded_balanced_def balanced_def)
qed

text \<open>What the lines of the legs put on one account.\<close>

lemma leg_lines_net:
  assumes "map_res (leg_to_glline d) legs = Inr ls" "\<And>l. l \<in> set legs \<Longrightarrow> at_scale 2 (lg_base l)"
    and key: "\<And>l. l \<in> set legs \<Longrightarrow> resolve_gl d (lg_system_key l) = Inr i \<longleftrightarrow> lg_system_key l = key"
  shows "sum_of (\<lambda>l. q_money (ln_base_debit l) - q_money (ln_base_credit l)) (filter (\<lambda>l. ln_account_id l = i) ls)
       = sum_of (\<lambda>l. if lg_debit l then lg_base l else - lg_base l) (filter (\<lambda>l. lg_system_key l = key) legs)"
  using assms
proof (induction legs arbitrary: ls)
  case (Cons l legs)
  from Cons.prems(1) obtain m ms where m: "leg_to_glline d l = Inr m" "map_res (leg_to_glline d) legs = Inr ms" "ls = m # ms"
    by (auto simp: res_simps)
  from m(1) obtain j where j: "resolve_gl d (lg_system_key l) = Inr j" "ln_account_id m = j"
    by (auto simp: leg_to_glline_def res_simps Let_def GLLine_def split: if_splits)
  have "q_money (ln_base_debit m) - q_money (ln_base_credit m) = (if lg_debit l then lg_base l else - lg_base l)"
    using m(1) Cons.prems(2) [of l] by (auto simp: leg_to_glline_def res_simps Let_def GLLine_def split: if_splits)
  moreover have "j = i \<longleftrightarrow> lg_system_key l = key" using Cons.prems(3) [of l] j(1) by auto
  ultimately show ?case using Cons.IH [OF m(2)] Cons.prems(2,3) j(2) by (simp add: m(3))
qed simp

text \<open>The balance of a control account over the whole journal, as the tie-outs read it.\<close>

definition control_balance :: "db \<Rightarrow> string \<Rightarrow> dec" where
  "control_balance d i = sum_of (\<lambda>l. jl_base_debit l - jl_base_credit l) (filter (\<lambda>l. jl_account_id l = i) (gl_lines d))"

lemma control_balance_posted:
  assumes "post_entry sha q d = Inr (e, d')"
  shows "control_balance d' i = control_balance d i + request_net q i"
proof -
  obtain ls where po: "posted sha q d e ls d'" using post_entry_posted [OF assms] by blast
  then obtain rs where rs: "resolve_denominations d (pq_lines q) = Inr rs" "ls = map normalize_line_decimals rs"
    by (auto simp: posted_def)
  have "sum_of (\<lambda>l. ln_base_debit l - ln_base_credit l) (filter (\<lambda>l. ln_account_id l = i) ls) = request_net q i"
    unfolding request_net_def rs(2)
    by (rule resolve_denominations_sum [OF rs(1)]) (simp add: normalize_line_decimals_def)
  moreover have "sum_of (\<lambda>l. jl_base_debit l - jl_base_credit l) (filter (\<lambda>l. jl_account_id l = i) (new_lines n x ls))
      = sum_of (\<lambda>l. ln_base_debit l - ln_base_credit l) (filter (\<lambda>l. ln_account_id l = i) ls)" for n x
    unfolding sum_of_filter_if by (rule sum_of_new_lines) simp
  ultimately show ?thesis using po by (simp add: control_balance_def posted_def)
qed

lemma control_balance_cong: "gl_lines d' = gl_lines d \<Longrightarrow> control_balance d' i = control_balance d i"
  by (simp add: control_balance_def)

lemma control_balance_scaled: "journal_ok sha d \<Longrightarrow> at_scale 2 (control_balance d i)"
  unfolding control_balance_def
  by (intro at_scale_sum_of at_scale_diff) (auto simp: journal_ok_def lines_ok_def line_wf_def)

section \<open>Spending an amount on open documents\<close>

text \<open>
  The abstract specification: documents in order, each paid as far as what is left goes.
\<close>

fun fifo_amounts :: "dec \<Rightarrow> dec list \<Rightarrow> dec list" where
  "fifo_amounts left [] = []"
| "fifo_amounts left (w # ws) = min left w # fifo_amounts (left - min left w) ws"

lemma fifo_amounts_length [simp]: "length (fifo_amounts x ws) = length ws"
  by (induction ws arbitrary: x) auto

lemma fifo_amounts_nonneg:
  assumes "0 \<le> x" "\<And>w. w \<in> set ws \<Longrightarrow> 0 \<le> w"
  shows "\<forall>a \<in> set (fifo_amounts x ws). 0 \<le> a"
  using assms
proof (induction ws arbitrary: x)
  case (Cons w ws)
  have "\<forall>a \<in> set (fifo_amounts (x - min x w) ws). 0 \<le> a" by (rule Cons.IH) (use Cons.prems in auto)
  moreover have "0 \<le> min x w" using Cons.prems by simp
  ultimately show ?case by simp
qed simp

lemma fifo_amounts_zero: "(\<And>w. w \<in> set ws \<Longrightarrow> 0 \<le> w) \<Longrightarrow> fifo_amounts 0 ws = map (\<lambda>_. 0) ws"
  by (induction ws) (auto simp: min_def)

text \<open>In order: a document is paid only when every earlier one is paid in full.\<close>

lemma fifo_amounts_order:
  assumes "0 \<le> x" "\<And>w. w \<in> set ws \<Longrightarrow> 0 \<le> w" "i < j" "j < length ws" "0 < fifo_amounts x ws ! j"
  shows "fifo_amounts x ws ! i = ws ! i"
  using assms
proof (induction ws arbitrary: x i j)
  case (Cons w ws)
  from Cons.prems obtain j' where j: "j = Suc j'" by (cases j) auto
  have pos: "0 < fifo_amounts (x - min x w) ws ! j'" using Cons.prems(5) by (simp add: j)
  show ?case
  proof (cases i)
    case 0
    have "min x w = w"
    proof (rule ccontr)
      assume "min x w \<noteq> w"
      then have "x - min x w = 0" by (simp add: min_def split: if_splits)
      then have "fifo_amounts (x - min x w) ws ! j' = 0"
        using Cons.prems(2,4) fifo_amounts_zero [of ws] by (simp add: j)
      with pos show False by simp
    qed
    then show ?thesis by (simp add: 0)
  next
    case (Suc i')
    have "fifo_amounts (x - min x w) ws ! i' = ws ! i'"
      by (rule Cons.IH [OF _ _ _ _ pos]) (use Cons.prems in \<open>simp_all add: Suc j\<close>)
    then show ?thesis by (simp add: Suc)
  qed
qed simp

text \<open>Either everything is spent, or every document is paid in full.\<close>

lemma fifo_amounts_exhaust:
  assumes "0 \<le> x" "\<And>w. w \<in> set ws \<Longrightarrow> 0 \<le> w"
  shows "sum_list (fifo_amounts x ws) = min x (sum_list ws)"
  using assms
proof (induction ws arbitrary: x)
  case (Cons w ws)
  have "sum_list (fifo_amounts (x - min x w) ws) = min (x - min x w) (sum_list ws)"
    by (rule Cons.IH) (use Cons.prems in \<open>simp_all add: min_def\<close>)
  moreover have "0 \<le> w" "0 \<le> sum_list ws" using Cons.prems(2) by (auto intro: sum_list_nonneg)
  ultimately show ?case using Cons.prems(1) by (auto simp: min_def)
qed simp

text \<open>The state of such a loop: the database, the legs' allocations so far, what is left.\<close>

record settling =
  st_db :: db
  st_specs :: "allocation list"
  st_rest :: dec

lemma sum_of_upd_row:
  assumes "distinct (map rid xs)" "r \<in> set xs"
  shows "sum_of h (upd_rows (\<lambda>x. rid x = rid r) (\<lambda>_. r') xs) = sum_of h xs - h r + h r'"
  using assms
proof (induction xs)
  case (Cons x xs)
  show ?case
  proof (cases "rid x = rid r")
    case True
    with Cons.prems have "x = r" by (auto simp: image_iff)
    moreover from True Cons.prems(1) have "upd_rows (\<lambda>x. rid x = rid r) (\<lambda>_. r') xs = xs"
      by (intro upd_rows_none) (auto simp: image_iff)
    ultimately show ?thesis by (simp add: upd_rows_def)
  next
    case False
    with Cons have "sum_of h (upd_rows (\<lambda>x. rid x = rid r) (\<lambda>_. r') xs) = sum_of h xs - h r + h r'" by auto
    with False show ?thesis by (simp add: upd_rows_def)
  qed
qed simp

lemma upd_row_others:
  assumes "x \<in> set xs" "rid x \<noteq> rid r"
  shows "x \<in> set (upd_rows (\<lambda>x. rid x = rid r) (\<lambda>_. r') xs)"
  using assms by (force simp: upd_rows_def)

text \<open>
  The contract of an open document and of the loop that spends on such documents: what
  paying changes in a row and in the state, and the loop's two equations. The loop then
  implements the specification: it allocates \<open>fifo_amounts\<close>, keeps the books, and lowers
  every weighted sum of what is owed by what it spent.
\<close>

locale open_items =
  fixes rows :: "db \<Rightarrow> 'r list" and rid :: "'r \<Rightarrow> string" and tot :: "'r \<Rightarrow> dec" and paid :: "'r \<Rightarrow> dec"
    and cur :: "'r \<Rightarrow> string" and rate :: "'r \<Rightarrow> dec"
    and pay :: "'r \<Rightarrow> dec \<Rightarrow> 'r \<times> dec"
    and settle :: "'r \<Rightarrow> dec \<Rightarrow> settling \<Rightarrow> settling" and fifo :: "'r list \<Rightarrow> settling \<Rightarrow> settling"
  assumes pay_amount: "snd (pay r a) = min a (tot r - paid r)"
    and pay_paid: "paid (fst (pay r a)) = q_money (paid r + min a (tot r - paid r))"
    and pay_keeps: "tot (fst (pay r a)) = tot r" "rid (fst (pay r a)) = rid r"
    and settle_rows: "rows (st_db (settle r a s)) = upd_rows (\<lambda>x. rid x = rid r) (\<lambda>_. fst (pay r a)) (rows (st_db s))"
    and settle_specs: "st_specs (settle r a s) = st_specs s
       @ (if 0 < snd (pay r a) then [Allocation (cur r) (rate r) (snd (pay r a))] else [])"
    and settle_rest: "st_rest (settle r a s) = st_rest s - max 0 (snd (pay r a))"
    and settle_books: "same_books (st_db s) (st_db (settle r a s))"
    and fifo_Nil: "fifo [] s = s"
    and fifo_Cons: "fifo (r # rs) s = (if st_rest s \<le> 0 then s else fifo rs (settle r (st_rest s) s))"
begin

lemma fifo_rest:
  assumes "\<And>r. r \<in> set rs \<Longrightarrow> paid r \<le> tot r" "0 \<le> st_rest s"
  shows "st_rest (fifo rs s) = st_rest s - sum_list (fifo_amounts (st_rest s) (map (\<lambda>r. tot r - paid r) rs))"
  using assms
proof (induction rs arbitrary: s)
  case (Cons r rs)
  let ?ws = "map (\<lambda>r. tot r - paid r) rs"
  have w: "0 \<le> tot r - paid r" "\<And>w. w \<in> set ?ws \<Longrightarrow> 0 \<le> w" using Cons.prems(1) by auto
  show ?case
  proof (cases "st_rest s \<le> 0")
    case True
    then show ?thesis using Cons.prems(2) w fifo_amounts_zero [of ?ws]
      by (simp add: fifo_Cons min_def comp_def sum_list_triv)
  next
    case False
    then have m: "0 \<le> min (st_rest s) (tot r - paid r)" using w by simp
    then have "0 \<le> st_rest (settle r (st_rest s) s)" by (simp add: settle_rest pay_amount max_def)
    with Cons.IH [of "settle r (st_rest s) s"] Cons.prems(1) False m show ?thesis
      by (simp add: fifo_Cons settle_rest pay_amount max_def)
  qed
qed (simp add: fifo_Nil)

lemma fifo_specs:
  assumes "\<And>r. r \<in> set rs \<Longrightarrow> paid r \<le> tot r" "0 \<le> st_rest s"
  shows "st_specs (fifo rs s) = st_specs s @ concat (map2 (\<lambda>r a. if 0 < a then [Allocation (cur r) (rate r) a] else [])
           rs (fifo_amounts (st_rest s) (map (\<lambda>r. tot r - paid r) rs)))"
  using assms
proof (induction rs arbitrary: s)
  case (Cons r rs)
  let ?ws = "map (\<lambda>r. tot r - paid r) rs"
  have w: "0 \<le> tot r - paid r" "\<And>w. w \<in> set ?ws \<Longrightarrow> 0 \<le> w" using Cons.prems(1) by auto
  show ?case
  proof (cases "st_rest s \<le> 0")
    case True
    then have "fifo_amounts (st_rest s) (map (\<lambda>r. tot r - paid r) (r # rs)) = map (\<lambda>_. 0) (r # rs)"
      using Cons.prems(2) w fifo_amounts_zero [of ?ws] by (simp add: min_def comp_def)
    moreover have "concat (map2 (\<lambda>r a. if 0 < a then [Allocation (cur r) (rate r) a] else []) xs (map (\<lambda>_. 0) xs)) = []" for xs
      by (induction xs) auto
    ultimately show ?thesis using True by (simp only: fifo_Cons if_True append_Nil2)
  next
    case False
    then have m: "0 \<le> min (st_rest s) (tot r - paid r)" using w by simp
    then have "0 \<le> st_rest (settle r (st_rest s) s)" by (simp add: settle_rest pay_amount max_def)
    with Cons.IH [of "settle r (st_rest s) s"] Cons.prems(1) False m show ?thesis
      by (simp add: fifo_Cons settle_rest settle_specs pay_amount max_def)
  qed
qed (simp add: fifo_Nil)

lemma fifo_books: "same_books (st_db s) (st_db (fifo rs s))"
proof (induction rs arbitrary: s)
  case (Cons r rs)
  then show ?case using same_books_trans [OF settle_books [of s r "st_rest s"] Cons.IH] by (simp add: fifo_Cons same_books_refl)
qed (simp add: fifo_Nil same_books_refl)

text \<open>What is allocated and what is left make up what was received, whatever is allocated.\<close>

lemma settle_total:
  "sum_of ag_applied_money (st_specs (settle r a s)) + st_rest (settle r a s)
     = sum_of ag_applied_money (st_specs s) + st_rest s"
  by (simp add: settle_specs settle_rest max_def Allocation_def)

lemma fifo_total:
  "sum_of ag_applied_money (st_specs (fifo rs s)) + st_rest (fifo rs s)
     = sum_of ag_applied_money (st_specs s) + st_rest s"
  by (induction rs arbitrary: s) (auto simp: fifo_Nil fifo_Cons settle_total)

lemma fifo_specs_all:
  assumes "\<And>al. al \<in> set (st_specs s) \<Longrightarrow> Q al" "at_scale 2 (st_rest s)"
    and "\<And>r a. r \<in> set rs \<Longrightarrow> 0 < a \<Longrightarrow> at_scale 2 a \<Longrightarrow> a \<le> tot r - paid r \<Longrightarrow> Q (Allocation (cur r) (rate r) a)"
    and "\<And>r. r \<in> set rs \<Longrightarrow> at_scale 2 (tot r - paid r)"
  shows "\<forall>al \<in> set (st_specs (fifo rs s)). Q al"
  using assms
proof (induction rs arbitrary: s)
  case (Cons r rs)
  have m: "at_scale 2 (min (st_rest s) (tot r - paid r))" using Cons.prems(2,4) by (auto simp: min_def)
  then have "at_scale 2 (st_rest (settle r (st_rest s) s))"
    using Cons.prems(2) by (auto simp: settle_rest pay_amount max_def intro: at_scale_diff)
  moreover have "Q al" if "al \<in> set (st_specs (settle r (st_rest s) s))" for al
    using that Cons.prems(1) Cons.prems(3) [of r "min (st_rest s) (tot r - paid r)"] m
    by (auto simp: settle_specs pay_amount split: if_splits)
  ultimately have "\<forall>al \<in> set (st_specs (fifo rs (settle r (st_rest s) s))). Q al"
    using Cons.prems(3,4) by (intro Cons.IH) auto
  with Cons.prems(1) show ?case by (simp add: fifo_Cons)
qed (simp add: fifo_Nil)

lemma settle_ids: "map rid (rows (st_db (settle r a s))) = map rid (rows (st_db s))"
  unfolding settle_rows by (rule map_upd_rows) (simp add: pay_keeps)

lemma settle_rows_inv:
  assumes "\<And>x. x \<in> set (rows (st_db s)) \<Longrightarrow> P x" "P (fst (pay r a))"
  shows "\<And>x. x \<in> set (rows (st_db (settle r a s))) \<Longrightarrow> P x"
  using assms unfolding settle_rows by (auto elim!: set_upd_rowsE)

lemma fifo_rows_inv:
  assumes "\<And>r a. P r \<Longrightarrow> 0 < a \<Longrightarrow> at_scale 2 a \<Longrightarrow> P (fst (pay r a))"
    and scaled: "\<And>r. P r \<Longrightarrow> at_scale 2 (tot r - paid r)"
    and "\<And>x. x \<in> set (rows (st_db s)) \<Longrightarrow> P x" "\<And>x. x \<in> set rs \<Longrightarrow> P x" "at_scale 2 (st_rest s)"
  shows "(\<forall>x \<in> set (rows (st_db (fifo rs s))). P x) \<and> at_scale 2 (st_rest (fifo rs s))
    \<and> map rid (rows (st_db (fifo rs s))) = map rid (rows (st_db s))"
  using assms(3-5)
proof (induction rs arbitrary: s)
  case (Cons r rs)
  show ?case
  proof (cases "st_rest s \<le> 0")
    case True
    then show ?thesis using Cons.prems by (simp add: fifo_Cons)
  next
    case False
    let ?s = "settle r (st_rest s) s"
    have "P (fst (pay r (st_rest s)))" using False Cons.prems by (intro assms(1)) auto
    then have rw: "P x" if "x \<in> set (rows (st_db ?s))" for x
      using settle_rows_inv [where P = P and s = s and r = r and a = "st_rest s"] Cons.prems(1) that by blast
    have "at_scale 2 (min (st_rest s) (tot r - paid r))" using Cons.prems(2,3) scaled by (simp add: min_def)
    then have "at_scale 2 (st_rest ?s)"
      using Cons.prems(3) by (auto simp: settle_rest pay_amount max_def intro: at_scale_diff)
    with Cons.IH [of ?s] rw Cons.prems(2) False settle_ids show ?thesis by (simp add: fifo_Cons)
  qed
qed (simp add: fifo_Nil)

text \<open>A weight that paying lowers by \<open>k\<close> times the payment goes down by \<open>k\<close> times what is spent.\<close>

lemma fifo_sum:
  assumes "\<And>r a. r \<in> set rs \<Longrightarrow> 0 < a \<Longrightarrow> at_scale 2 a \<Longrightarrow> h (fst (pay r a)) = h r - k * min a (tot r - paid r)"
    and "\<And>r. r \<in> set rs \<Longrightarrow> at_scale 2 (tot r - paid r) \<and> 0 \<le> tot r - paid r"
    and "distinct (map rid rs)" "set rs \<subseteq> set (rows (st_db s))" "distinct (map rid (rows (st_db s)))"
    and "at_scale 2 (st_rest s)"
  shows "sum_of h (rows (st_db (fifo rs s))) = sum_of h (rows (st_db s)) - k * (st_rest s - st_rest (fifo rs s))"
  using assms
proof (induction rs arbitrary: s)
  case (Cons r rs)
  show ?case
  proof (cases "st_rest s \<le> 0")
    case True
    then show ?thesis by (simp add: fifo_Cons)
  next
    case False
    let ?s = "settle r (st_rest s) s" and ?m = "min (st_rest s) (tot r - paid r)"
    have m: "0 \<le> ?m" "at_scale 2 ?m" using False Cons.prems(2) [of r] Cons.prems(6) by (auto simp: min_def)
    have "set rs \<subseteq> set (rows (st_db ?s))"
    proof
      fix x assume x: "x \<in> set rs"
      then have "rid x \<noteq> rid r" using Cons.prems(3) by (auto simp: image_iff)
      with x Cons.prems(4) show "x \<in> set (rows (st_db ?s))" unfolding settle_rows by (auto intro: upd_row_others)
    qed
    moreover have rest: "st_rest ?s = st_rest s - ?m" using m(1) by (simp add: settle_rest pay_amount)
    moreover have "at_scale 2 (st_rest ?s)" unfolding rest by (intro at_scale_diff Cons.prems(6) m(2))
    ultimately have "sum_of h (rows (st_db (fifo rs ?s))) = sum_of h (rows (st_db ?s)) - k * (st_rest ?s - st_rest (fifo rs ?s))"
      using Cons.prems by (intro Cons.IH) (auto simp: settle_ids)
    moreover have "sum_of h (rows (st_db ?s)) = sum_of h (rows (st_db s)) - k * ?m"
      using sum_of_upd_row [of rid "rows (st_db s)" r h "fst (pay r (st_rest s))"] Cons.prems(1) [of r "st_rest s"] Cons.prems(4-6) False
      unfolding settle_rows by auto
    ultimately show ?thesis using False by (simp add: fifo_Cons rest algebra_simps)
  qed
qed (simp add: fifo_Nil)

end

end
