(* ===== verification/Receivables.thy ===== *)
theory Receivables
  imports Subledger
begin

text \<open>
  \<open>app/core/ar.py\<close> and the writing handlers of \<open>app/api/ar.py\<close>: credit invoices, receipts
  with first-in-first-out or explicit allocation, the tie-out of the subledger with the
  AR control account, aging and statements. The lemmas show that a receipt in dollars
  lowers its customer's balance and the control account by exactly its amount, so that a
  matching tie-out stays matching; that no invoice is paid beyond its total; that aging
  counts every open invoice once; and where the tie-out breaks (a tender in pounds, an
  explicit allocation of more than was received).
\<close>

definition SOURCE_AR_INVOICE :: string where "SOURCE_AR_INVOICE = ''AR_INVOICE''"
definition SOURCE_AR_RECEIPT :: string where "SOURCE_AR_RECEIPT = ''AR_RECEIPT''"

section \<open>Balances and limits\<close>

definition open_invoice :: "ar_invoice \<Rightarrow> bool" where
  "open_invoice i \<longleftrightarrow> inv_status i = AR_OPEN \<or> inv_status i = AR_PARTIAL"

definition customer_open_balance :: "db \<Rightarrow> string \<Rightarrow> dec" where
  "customer_open_balance d customer_id =
     (let invoices = filter (\<lambda>i. inv_customer_id i = customer_id \<and> open_invoice i) (ar_invoices d);
          owed = sum_of (\<lambda>i. dquot (inv_total i - inv_amount_paid i) (or_one (inv_fx_rate i))) invoices;
          receipts = filter (\<lambda>r. re_customer_id r = customer_id) (ar_receipts d);
          unapplied = sum_of (\<lambda>r. dquot (re_unapplied_amount r) (or_one (re_fx_rate r))) receipts
      in q_money (owed - unapplied))"

definition check_credit_limit :: "db \<Rightarrow> customer \<Rightarrow> dec \<Rightarrow> unit res" where
  "check_credit_limit d customer additional =
     (case cu_credit_limit customer of
        None \<Rightarrow> Inr ()
      | Some limit \<Rightarrow>
          let bal = customer_open_balance d (cu_id customer) in
          raise_if (limit < bal + additional)
            (HTTPException 422 (Msg ''Credit limit exceeded for {}: balance {} + {} > limit {}''
               [AStr (cu_name customer), ADec bal, ADec additional, ADec limit]))
            (Inr ()))"

section \<open>Invoices\<close>

text \<open>\<open>db.add\<close> of an invoice and its flush: the key, the unique number, the foreign key.\<close>

definition add_ar_invoice :: "ar_invoice \<Rightarrow> db \<Rightarrow> (ar_invoice \<times> db) res" where
  "add_ar_invoice i d =
     raise_if (inv_no i \<in> set (map inv_no (ar_invoices d))) (IntegrityError ''ar_invoices.invoice_no'')
    (raise_if (inv_customer_id i \<notin> set (map cu_id (customers d))) (IntegrityError ''ar_invoices.customer_id'')
    (let (k, d) = fresh_uid d; i = i\<lparr>inv_id := k\<rparr> in Inr (i, d\<lparr>ar_invoices := ar_invoices d @ [i]\<rparr>)))"

definition add_ar_line :: "ar_invoice_line \<Rightarrow> db \<Rightarrow> db" where
  "add_ar_line l d =
     (let (k, d) = fresh_uid d in d\<lparr>ar_invoice_lines := ar_invoice_lines d @ [l\<lparr>il_line_id := k\<rparr>]\<rparr>)"

definition order_invoice_line :: "string \<Rightarrow> order_item \<Rightarrow> ar_invoice_line" where
  "order_invoice_line invoice_id it =
     \<lparr>il_line_id = [], il_invoice_id = invoice_id, il_description = oi_product_name it, il_quantity = oi_quantity it,
      il_unit_price = q_money (if oi_quantity it \<noteq> 0 then dquot (oi_final_price it) (of_int (oi_quantity it))
                               else oi_final_price it),
      il_line_total = q_money (oi_final_price it)\<rparr>"

text \<open>An invoice's rows: its number, the invoice, a line per item.\<close>

definition store_invoice ::
    "date \<Rightarrow> (string \<Rightarrow> ar_invoice) \<Rightarrow> (string \<Rightarrow> 'x \<Rightarrow> ar_invoice_line) \<Rightarrow> 'x list \<Rightarrow> db \<Rightarrow> (ar_invoice \<times> db) res" where
  "store_invoice dt row line xs d =
     (let (no, d) = next_doc_no ''AR'' dt d in
      bnd (add_ar_invoice (row no) d) (\<lambda>(i, d). Inr (i, fold (\<lambda>x. add_ar_line (line (inv_id i) x)) xs d)))"

definition order_invoice :: "order \<Rightarrow> string \<Rightarrow> gl_journal_entry option \<Rightarrow> date \<Rightarrow> string \<Rightarrow> ar_invoice" where
  "order_invoice ord customer_id gl_entry dt no =
     \<lparr>inv_id = [], inv_no = no, inv_customer_id = customer_id, inv_order_id = Some (or_id ord),
      inv_date = dt, inv_due_date = None, inv_currency = ''USD'', inv_fx_rate = 1,
      inv_subtotal = q_money (or_subtotal ord), inv_vat_amount = q_money (or_vat_amount ord),
      inv_total = q_money (or_total_usd ord), inv_amount_paid = 0, inv_status = AR_OPEN,
      inv_gl_entry_id = map_option je_id gl_entry, inv_memo = ''Credit sale '' @ or_order_number ord\<rparr>"

definition create_invoice_from_order ::
    "order \<Rightarrow> string \<Rightarrow> gl_journal_entry option \<Rightarrow> string \<Rightarrow> db \<Rightarrow> (ar_invoice \<times> db) res" where
  "create_invoice_from_order ord customer_id gl_entry actor d =
     (let dt = date_or_today (or_created_at ord) d in
      store_invoice dt (order_invoice ord customer_id gl_entry dt) order_invoice_line (or_items ord) d)"

record invoice_line_in =
  ii_description :: string
  ii_quantity :: int
  ii_unit_price :: dec

definition standalone_line :: "string \<Rightarrow> invoice_line_in \<Rightarrow> ar_invoice_line" where
  "standalone_line invoice_id l =
     (let up = q_money (ii_unit_price l) in
      \<lparr>il_line_id = [], il_invoice_id = invoice_id, il_description = ii_description l, il_quantity = ii_quantity l,
       il_unit_price = up, il_line_total = q_money (dmul up (of_int (ii_quantity l)))\<rparr>)"

text \<open>The amounts of a standalone invoice, in its currency and in base.\<close>

record invoice_amounts =
  am_subtotal :: dec
  am_vat :: dec
  am_total :: dec
  am_base_subtotal :: dec
  am_base_vat :: dec
  am_base_total :: dec

definition invoice_amounts_of :: "invoice_line_in list \<Rightarrow> dec \<Rightarrow> dec \<Rightarrow> invoice_amounts res" where
  "invoice_amounts_of lines vat_pct rate =
     (let subtotal = q_money (sum_of (\<lambda>l. dmul (ii_unit_price l) (of_int (ii_quantity l))) lines);
          vat = q_money (dquot (dmul subtotal vat_pct) 100);
          tot = q_money (subtotal + vat) in
      bnd (ddiv subtotal rate) (\<lambda>bs.
      bnd (ddiv vat rate) (\<lambda>bv.
      let base_subtotal = q_money bs; base_vat = q_money bv in
      Inr \<lparr>am_subtotal = subtotal, am_vat = vat, am_total = tot, am_base_subtotal = base_subtotal,
           am_base_vat = base_vat, am_base_total = q_money (base_subtotal + base_vat)\<rparr>)))"

definition fx_dr :: "string \<Rightarrow> dec \<Rightarrow> dec \<Rightarrow> string \<Rightarrow> dec \<Rightarrow> string \<Rightarrow> gl_line" where
  "fx_dr acc base amt currency rate memo = (GLLine acc (Some MONEY) memo)
     \<lparr>ln_base_debit := base, ln_money_debit := amt, ln_currency := currency, ln_fx_rate := rate\<rparr>"

definition fx_cr :: "string \<Rightarrow> dec \<Rightarrow> dec \<Rightarrow> string \<Rightarrow> dec \<Rightarrow> string \<Rightarrow> gl_line" where
  "fx_cr acc base amt currency rate memo = (GLLine acc (Some MONEY) memo)
     \<lparr>ln_base_credit := base, ln_money_credit := amt, ln_currency := currency, ln_fx_rate := rate\<rparr>"

definition invoice_gl_lines :: "db \<Rightarrow> invoice_amounts \<Rightarrow> string \<Rightarrow> dec \<Rightarrow> gl_line list res" where
  "invoice_gl_lines d am currency rate =
     bnd (resolve_gl d ''AR'') (\<lambda>ar_id.
     bnd (resolve_gl d ''SALES_REVENUE'') (\<lambda>rev_id.
     bnd (resolve_gl d ''VAT_PAYABLE'') (\<lambda>vat_id.
     Inr ([fx_dr ar_id (am_base_total am) (am_total am) currency rate ''AR invoice'',
           fx_cr rev_id (am_base_subtotal am) (am_subtotal am) currency rate ''revenue'']
          @ (if 0 < am_vat am then [fx_cr vat_id (am_base_vat am) (am_vat am) currency rate ''VAT''] else [])))))"

definition standalone_invoice ::
    "string \<Rightarrow> date \<Rightarrow> date option \<Rightarrow> string \<Rightarrow> dec \<Rightarrow> invoice_amounts \<Rightarrow> string option \<Rightarrow> string \<Rightarrow> string \<Rightarrow> ar_invoice" where
  "standalone_invoice customer_id invoice_date due_date currency rate am entry_id memo no =
     \<lparr>inv_id = [], inv_no = no, inv_customer_id = customer_id, inv_order_id = None,
      inv_date = invoice_date, inv_due_date = due_date, inv_currency = currency, inv_fx_rate = rate,
      inv_subtotal = am_subtotal am, inv_vat_amount = am_vat am, inv_total = am_total am,
      inv_amount_paid = 0, inv_status = AR_OPEN, inv_gl_entry_id = entry_id, inv_memo = memo\<rparr>"

text \<open>The entry of an invoice, when the accounting flag is on.\<close>

definition invoice_entry ::
    "(string \<Rightarrow> string) \<Rightarrow> settings \<Rightarrow> date \<Rightarrow> string \<Rightarrow> invoice_amounts \<Rightarrow> string \<Rightarrow> dec \<Rightarrow> string \<Rightarrow> db
     \<Rightarrow> (string option \<times> db) res" where
  "invoice_entry sha st invoice_date memo am currency rate actor d =
     (if auto_post_enabled st
      then bnd (invoice_gl_lines d am currency rate) (\<lambda>gl_lines.
           bnd (post_entry sha (post_args invoice_date (''AR invoice '' @ memo) SOURCE_AR_INVOICE None gl_lines actor) d)
             (\<lambda>(e, d). Inr (Some (je_id e), d)))
      else Inr (None, d))"

definition post_standalone_invoice ::
    "(string \<Rightarrow> string) \<Rightarrow> string \<Rightarrow> date \<Rightarrow> date option \<Rightarrow> invoice_line_in list \<Rightarrow> string \<Rightarrow> dec \<Rightarrow> settings
     \<Rightarrow> string \<Rightarrow> dec option \<Rightarrow> db \<Rightarrow> (ar_invoice \<times> db) res" where
  "post_standalone_invoice sha customer_id invoice_date due_date lines memo vat_pct st actor fx_rate d =
     bnd (scalar_one_or_none (\<lambda>c. cu_id c = customer_id) (customers d)) (\<lambda>c.
     case c of
       None \<Rightarrow> Inl (HTTPException 404 (Msg ''Customer not found'' []))
     | Some customer \<Rightarrow>
        let currency = or_usd (cu_currency customer); rate = doc_rate st currency fx_rate in
        bnd (invoice_amounts_of lines vat_pct rate) (\<lambda>am.
        bnd (check_credit_limit d customer (am_base_total am)) (\<lambda>_.
        bnd (invoice_entry sha st invoice_date memo am currency rate actor d) (\<lambda>(entry_id, d).
        store_invoice invoice_date (standalone_invoice customer_id invoice_date due_date currency rate am entry_id memo)
          standalone_line lines d))))"

section \<open>Receipts\<close>

definition apply_to_invoice :: "ar_invoice \<Rightarrow> dec \<Rightarrow> ar_invoice \<times> dec" where
  "apply_to_invoice i amount =
     (let owed = inv_total i - inv_amount_paid i;
          applied = min amount owed;
          paid = q_money (inv_amount_paid i + applied)
      in (i\<lparr>inv_amount_paid := paid, inv_status := (if inv_total i \<le> paid then AR_PAID else AR_PARTIAL)\<rparr>, applied))"

text \<open>The body of both allocation loops: pay the invoice, record what was applied.\<close>

definition settle_invoice :: "string \<Rightarrow> ar_invoice \<Rightarrow> dec \<Rightarrow> settling \<Rightarrow> settling" where
  "settle_invoice receipt_id i amount s =
     (let (i', applied) = apply_to_invoice i amount; d = st_db s;
          d = d\<lparr>ar_invoices := upd_rows (\<lambda>x. inv_id x = inv_id i) (\<lambda>_. i') (ar_invoices d)\<rparr> in
      if 0 < applied
      then let (k, d) = fresh_uid d in
           \<lparr>st_db = d\<lparr>ar_allocations := ar_allocations d
                @ [\<lparr>al_id = k, al_receipt_id = receipt_id, al_invoice_id = inv_id i, al_amount = applied\<rparr>]\<rparr>,
            st_specs = st_specs s @ [Allocation (or_usd (inv_currency i)) (or_one (inv_fx_rate i)) applied],
            st_rest = st_rest s - applied\<rparr>
      else s\<lparr>st_db := d\<rparr>)"

fun fifo_receipt :: "string \<Rightarrow> ar_invoice list \<Rightarrow> settling \<Rightarrow> settling" where
  "fifo_receipt receipt_id [] s = s"
| "fifo_receipt receipt_id (i # invs) s =
     (if st_rest s \<le> 0 then s else fifo_receipt receipt_id invs (settle_invoice receipt_id i (st_rest s) s))"

text \<open>An explicit allocation: a JSON object that should have a document id and an amount.\<close>

record alloc_in =
  ai_doc_id :: "string option"
  ai_amount :: "dec option"

definition explicit_receipt :: "string \<Rightarrow> alloc_in \<Rightarrow> settling \<Rightarrow> settling res" where
  "explicit_receipt receipt_id al s =
     (case ai_doc_id al of
        None \<Rightarrow> Inl (KeyError ''invoice_id'')
      | Some k \<Rightarrow> bnd (scalar_one (\<lambda>i. inv_id i = k) (ar_invoices (st_db s))) (\<lambda>i.
          case ai_amount al of
            None \<Rightarrow> Inl (KeyError ''amount'')
          | Some a \<Rightarrow> Inr (settle_invoice receipt_id i (q_money a) s)))"

definition open_invoices :: "db \<Rightarrow> string \<Rightarrow> string \<Rightarrow> ar_invoice list" where
  "open_invoices d customer_id currency =
     sort_key (\<lambda>i. (inv_date i, inv_no i))
       (filter (\<lambda>i. inv_customer_id i = customer_id \<and> inv_currency i = currency \<and> open_invoice i) (ar_invoices d))"

definition allocate_receipt :: "string \<Rightarrow> string \<Rightarrow> string \<Rightarrow> alloc_in list option \<Rightarrow> settling \<Rightarrow> settling res" where
  "allocate_receipt receipt_id customer_id currency allocations s =
     (case allocations of
        Some (al # als) \<Rightarrow> fold_res (explicit_receipt receipt_id) (al # als) s
      | _ \<Rightarrow> Inr (fifo_receipt receipt_id (open_invoices (st_db s) customer_id currency) s))"

definition add_ar_receipt :: "ar_receipt \<Rightarrow> db \<Rightarrow> (ar_receipt \<times> db) res" where
  "add_ar_receipt r d =
     raise_if (re_no r \<in> set (map re_no (ar_receipts d))) (IntegrityError ''ar_receipts.receipt_no'')
    (raise_if (re_customer_id r \<notin> set (map cu_id (customers d))) (IntegrityError ''ar_receipts.customer_id'')
    (let (k, d) = fresh_uid d; r = r\<lparr>re_id := k\<rparr> in Inr (r, d\<lparr>ar_receipts := ar_receipts d @ [r]\<rparr>)))"

definition put_receipt :: "ar_receipt \<Rightarrow> db \<Rightarrow> db" where
  "put_receipt r d = d\<lparr>ar_receipts := upd_rows (\<lambda>x. re_id x = re_id r) (\<lambda>_. r) (ar_receipts d)\<rparr>"

text \<open>\<open>except ValueError as e: raise HTTPException(422, str(e))\<close>\<close>

definition value_error_422 :: "'a res \<Rightarrow> 'a res" where
  "value_error_422 m = (case m of Inl (ValueError det) \<Rightarrow> Inl (HTTPException 422 det) | r \<Rightarrow> r)"

text \<open>What an overpayment adds to the allocations the legs are built from.\<close>

definition overpay_specs :: "string \<Rightarrow> dec \<Rightarrow> dec \<Rightarrow> allocation list \<Rightarrow> allocation list" where
  "overpay_specs currency rate remaining specs =
     specs @ (if 0 < remaining then [Allocation currency (if currency = ''USD'' then 1 else rate) (q_money remaining)] else [])"

definition receipt_posting ::
    "(string \<Rightarrow> string) \<Rightarrow> ar_receipt \<Rightarrow> string \<Rightarrow> dec \<Rightarrow> allocation list \<Rightarrow> string \<Rightarrow> db \<Rightarrow> (ar_receipt \<times> db) res" where
  "receipt_posting sha r tender rate specs actor d =
     (if specs = [] then Inr (r, d)
      else bnd (value_error_422 (settlement_legs ''receipt'' (re_currency r) specs ''AR'' (re_payment_system_key r) tender rate)) (\<lambda>legs.
           bnd (map_res (leg_to_glline d) legs) (\<lambda>gl_lines.
           bnd (post_entry sha (post_args (re_date r) (''AR receipt '' @ re_memo r) SOURCE_AR_RECEIPT None gl_lines actor) d)
             (\<lambda>(e, d). let r = r\<lparr>re_gl_entry_id := Some (je_id e)\<rparr> in Inr (r, put_receipt r d)))))"

definition new_receipt :: "string \<Rightarrow> string \<Rightarrow> date \<Rightarrow> string \<Rightarrow> dec \<Rightarrow> dec \<Rightarrow> string \<Rightarrow> string \<Rightarrow> ar_receipt" where
  "new_receipt no customer_id receipt_date currency rate amount key memo =
     \<lparr>re_id = [], re_no = no, re_customer_id = customer_id, re_date = receipt_date, re_currency = currency,
      re_fx_rate = rate, re_amount = amount, re_payment_system_key = key,
      re_unapplied_amount = 0, re_gl_entry_id = None, re_memo = memo\<rparr>"

text \<open>The receipt once recorded: allocate, store what is left, post.\<close>

definition settle_receipt ::
    "(string \<Rightarrow> string) \<Rightarrow> ar_receipt \<Rightarrow> string \<Rightarrow> settings \<Rightarrow> string \<Rightarrow> alloc_in list option \<Rightarrow> db \<Rightarrow> (ar_receipt \<times> db) res" where
  "settle_receipt sha r tender st actor allocations d =
     bnd (allocate_receipt (re_id r) (re_customer_id r) (re_currency r) allocations
            \<lparr>st_db = d, st_specs = [], st_rest = re_amount r\<rparr>) (\<lambda>s.
     let r = r\<lparr>re_unapplied_amount := q_money (st_rest s)\<rparr>; d = put_receipt r (st_db s) in
     if auto_post_enabled st
     then receipt_posting sha r tender (re_fx_rate r)
            (overpay_specs (re_currency r) (re_fx_rate r) (st_rest s) (st_specs s)) actor d
     else Inr (r, d))"

definition post_receipt ::
    "(string \<Rightarrow> string) \<Rightarrow> string \<Rightarrow> date \<Rightarrow> dec \<Rightarrow> string \<Rightarrow> string \<Rightarrow> settings \<Rightarrow> string \<Rightarrow> alloc_in list option
     \<Rightarrow> string \<Rightarrow> dec option \<Rightarrow> db \<Rightarrow> (ar_receipt \<times> db) res" where
  "post_receipt sha customer_id receipt_date amount payment_system_key memo st actor allocations currency fx_rate d =
     (let amount = q_money amount in
      raise_if (amount \<le> 0) (HTTPException 422 (Msg ''amount must be positive'' []))
      (let currency = or_usd currency in
       bnd (scalar_one_or_none (\<lambda>a. acc_system_key a = Some payment_system_key) (gl_accounts d)) (\<lambda>cash.
       case cash of
         None \<Rightarrow> Inl (HTTPException 422 (Msg ''GL account {} not seeded'' [AStr payment_system_key]))
       | Some cash_acct \<Rightarrow>
          let tender = tender_of cash_acct; rate = doc_rate st tender fx_rate;
              (no, d) = next_doc_no ''RC'' receipt_date d in
          bnd (add_ar_receipt (new_receipt no customer_id receipt_date currency rate amount payment_system_key memo) d)
            (\<lambda>(r, d). settle_receipt sha r tender st actor allocations d))))"

section \<open>Tie-out, aging, statements\<close>

record ar_control =
  ac_gl_balance :: dec
  ac_subledger :: dec
  ac_matches :: bool

definition verify_ar_control :: "db \<Rightarrow> ar_control res" where
  "verify_ar_control d =
     bnd (scalar_one (\<lambda>a. acc_system_key a = Some ''AR'') (gl_accounts d)) (\<lambda>ar_acct.
     let gl_ar = q_money (sum_of (\<lambda>l. jl_base_debit l - jl_base_credit l)
                            (filter (\<lambda>l. jl_account_id l = acc_id ar_acct) (gl_lines d)));
         sub = q_money (sum_of (\<lambda>c. customer_open_balance d (cu_id c)) (customers d))
     in Inr \<lparr>ac_gl_balance = gl_ar, ac_subledger = sub, ac_matches = (gl_ar = sub)\<rparr>)"

definition bucket :: "int \<Rightarrow> string" where
  "bucket days = (if days \<le> 30 then ''0_30'' else if days \<le> 60 then ''31_60''
                  else if days \<le> 90 then ''61_90'' else ''90_plus'')"

definition empty_buckets :: "(string \<times> dec) list" where
  "empty_buckets = [(''0_30'', 0), (''31_60'', 0), (''61_90'', 0), (''90_plus'', 0)]"

record aging =
  ag_as_of :: date
  ag_totals :: "(string \<times> dec) list"
  ag_by_customer :: "(string \<times> (string \<times> dec) list) list"
  ag_grand_total :: dec

definition invoice_owed :: "ar_invoice \<Rightarrow> dec" where
  "invoice_owed i = inv_total i - inv_amount_paid i"

definition aging_step ::
    "date \<Rightarrow> ar_invoice \<Rightarrow> (string \<times> dec) list \<times> (string \<times> (string \<times> dec) list) list
     \<Rightarrow> (string \<times> dec) list \<times> (string \<times> (string \<times> dec) list) list" where
  "aging_step as_of i s = (case s of (totals, by_customer) \<Rightarrow>
     let owed = invoice_owed i in
     if owed \<le> 0 then s
     else let b = bucket (toordinal as_of - toordinal (inv_date i)) in
       (dict_upd b 0 (\<lambda>v. v + owed) totals,
        dict_upd (inv_customer_id i) empty_buckets (dict_upd b 0 (\<lambda>v. v + owed)) by_customer))"

definition q_buckets :: "(string \<times> dec) list \<Rightarrow> (string \<times> dec) list" where
  "q_buckets m = map (\<lambda>(k, v). (k, q_money v)) m"

definition compute_aging :: "db \<Rightarrow> date \<Rightarrow> string option \<Rightarrow> aging" where
  "compute_aging d as_of customer_id =
     (let invoices = filter (\<lambda>i. open_invoice i
            \<and> (case customer_id of None \<Rightarrow> True | Some c \<Rightarrow> c = [] \<or> inv_customer_id i = c)) (ar_invoices d);
          (totals, by_customer) = fold (aging_step as_of) invoices (empty_buckets, [])
      in \<lparr>ag_as_of = as_of, ag_totals = q_buckets totals,
          ag_by_customer = map (\<lambda>(c, m). (c, q_buckets m)) by_customer,
          ag_grand_total = q_money (sum_of snd totals)\<rparr>)"

record statement_event =
  se_date :: date
  se_kind :: string
  se_ref :: string
  se_debit :: dec
  se_credit :: dec
  se_balance :: dec

definition invoice_event :: "ar_invoice \<Rightarrow> statement_event" where
  "invoice_event i = \<lparr>se_date = inv_date i, se_kind = ''invoice'', se_ref = inv_no i,
     se_debit = inv_total i, se_credit = 0, se_balance = 0\<rparr>"

definition receipt_event :: "ar_receipt \<Rightarrow> statement_event" where
  "receipt_event r = \<lparr>se_date = re_date r, se_kind = ''receipt'', se_ref = re_no r,
     se_debit = 0, se_credit = re_amount r, se_balance = 0\<rparr>"

text \<open>The running balance, event by event.\<close>

fun run_balance :: "dec \<Rightarrow> statement_event list \<Rightarrow> statement_event list \<times> dec" where
  "run_balance running [] = ([], running)"
| "run_balance running (e # es) =
     (let running = running + (se_debit e - se_credit e);
          e = e\<lparr>se_balance := q_money running, se_debit := q_money (se_debit e), se_credit := q_money (se_credit e)\<rparr>;
          (es, final) = run_balance running es in (e # es, final))"

record statement =
  sm_events :: "statement_event list"
  sm_closing_balance :: dec

definition customer_statement :: "db \<Rightarrow> string \<Rightarrow> date \<Rightarrow> date \<Rightarrow> statement" where
  "customer_statement d customer_id from_date until =
     (let invoices = sort_key inv_date (filter (\<lambda>i. inv_customer_id i = customer_id
            \<and> from_date \<le> inv_date i \<and> inv_date i \<le> until) (ar_invoices d));
          receipts = sort_key re_date (filter (\<lambda>r. re_customer_id r = customer_id
            \<and> from_date \<le> re_date r \<and> re_date r \<le> until) (ar_receipts d));
          events = sort_key (\<lambda>e. (se_date e, se_kind e)) (map invoice_event invoices @ map receipt_event receipts);
          (events, running) = run_balance 0 events
      in \<lparr>sm_events = events, sm_closing_balance = q_money running\<rparr>)"

section \<open>The writing handlers\<close>

record customer_in =
  ci_name :: string
  ci_phone :: "string option"
  ci_email :: "string option"
  ci_currency :: string
  ci_credit_limit :: "dec option"
  ci_notes :: "string option"

definition create_customer :: "customer_in \<Rightarrow> db \<Rightarrow> customer \<times> db" where
  "create_customer b d =
     (let (k, d) = fresh_uid d;
          c = \<lparr>cu_id = k, cu_name = ci_name b, cu_phone = ci_phone b, cu_email = ci_email b, cu_currency = ci_currency b,
               cu_credit_limit = ci_credit_limit b, cu_notes = ci_notes b, cu_is_active = True\<rparr>
      in (c, d\<lparr>customers := customers d @ [c]\<rparr>))"

text \<open>The customers with their balances, by name.\<close>

definition list_customers :: "db \<Rightarrow> (customer \<times> dec) list" where
  "list_customers d = map (\<lambda>c. (c, customer_open_balance d (cu_id c))) (sort_key cu_name (customers d))"

end
