(* ===== verification/Receivables_Facts.thy ===== *)
theory Receivables_Facts
  imports Receivables
begin

text \<open>
  What \<open>app/core/ar.py\<close> guarantees: the allocation loop meets the contract of open
  documents; every operation keeps every journal invariant; no invoice is paid beyond its
  total; in dollars a receipt lowers, and an invoice raises, its customer's balance and the
  control account by the same amount.
\<close>

section \<open>The contract of the allocation loop\<close>

interpretation ar: open_items ar_invoices inv_id inv_total inv_amount_paid "\<lambda>i. or_usd (inv_currency i)"
  "\<lambda>i. or_one (inv_fx_rate i)" apply_to_invoice "settle_invoice rid" "fifo_receipt rid" for rid
  by unfold_locales
    (auto simp: apply_to_invoice_def settle_invoice_def Let_def fresh_uid_def same_books_def max_def min_def)

lemma explicit_settles:
  assumes "explicit_receipt rid al s = Inr s'"
  obtains i a where "i \<in> set (ar_invoices (st_db s))" "at_scale 2 a" "s' = settle_invoice rid i a s"
  using assms unfolding explicit_receipt_def
  by (auto simp: res_simps split: option.splits dest!: scalar_oneD intro: that [OF _ quantize_scale])

section \<open>The journal\<close>

lemma add_ar_invoice_frame:
  assumes "add_ar_invoice i d = Inr (j, d')"
  shows "d' = d\<lparr>uid_next := Suc (uid_next d), ar_invoices := ar_invoices d @ [j]\<rparr>" "j = i\<lparr>inv_id := uid (uid_next d)\<rparr>"
    "inv_customer_id i \<in> set (map cu_id (customers d))"
  using assms by (auto simp: add_ar_invoice_def res_simps Let_def fresh_uid_def)

lemma add_ar_invoice_same_books: "add_ar_invoice i d = Inr (j, d') \<Longrightarrow> same_books d d'"
  by (auto simp: same_books_def dest: add_ar_invoice_frame(1))

lemma add_ar_line_frame: "add_ar_line l d = d\<lparr>uid_next := Suc (uid_next d),
    ar_invoice_lines := ar_invoice_lines d @ [l\<lparr>il_line_id := uid (uid_next d)\<rparr>]\<rparr>"
  by (simp add: add_ar_line_def fresh_uid_def)

lemma fold_ar_line_frame: "\<exists>n ls. fold (\<lambda>x. add_ar_line (f x)) xs d
    = d\<lparr>uid_next := n, ar_invoice_lines := ls\<rparr> \<and> uid_next d \<le> n"
proof (induction xs arbitrary: d)
  case (Cons x xs)
  obtain n ls where "fold (\<lambda>x. add_ar_line (f x)) xs (add_ar_line (f x) d)
      = (add_ar_line (f x) d)\<lparr>uid_next := n, ar_invoice_lines := ls\<rparr>" "uid_next (add_ar_line (f x) d) \<le> n"
    using Cons.IH by blast
  then have "fold (\<lambda>x. add_ar_line (f x)) (x # xs) d = d\<lparr>uid_next := n, ar_invoice_lines := ls\<rparr>" "uid_next d \<le> n"
    by (simp_all only: fold.simps comp_apply) (simp_all add: add_ar_line_frame [of "f x" d])
  then show ?case by blast
next
  case Nil
  show ?case by (intro exI [of _ "uid_next d"] exI [of _ "ar_invoice_lines d"]) simp
qed

lemma fold_ar_line_same_books: "same_books d (fold (\<lambda>x. add_ar_line (f x)) xs d)"
  using fold_ar_line_frame [of f xs d] by (auto simp: same_books_def)

lemma add_ar_receipt_frame:
  assumes "add_ar_receipt r d = Inr (r', d')"
  shows "d' = d\<lparr>uid_next := Suc (uid_next d), ar_receipts := ar_receipts d @ [r']\<rparr>" "r' = r\<lparr>re_id := uid (uid_next d)\<rparr>"
    "re_customer_id r \<in> set (map cu_id (customers d))"
  using assms by (auto simp: add_ar_receipt_def res_simps Let_def fresh_uid_def)

lemma add_ar_receipt_same_books: "add_ar_receipt r d = Inr (r', d') \<Longrightarrow> same_books d d'"
  by (auto simp: same_books_def dest: add_ar_receipt_frame(1))

lemma put_receipt_same_books: "same_books d (put_receipt r d)"
  by (simp add: put_receipt_def same_books_def)

lemma allocate_same_books:
  assumes "allocate_receipt rid c cur als s = Inr s'"
  shows "same_books (st_db s) (st_db s')"
proof (cases "als = None \<or> als = Some []")
  case True
  then show ?thesis using assms ar.fifo_books by (auto simp: allocate_receipt_def)
next
  case False
  then obtain x xs where "als = Some (x # xs)" by (metis list.exhaust option.exhaust)
  then have f: "fold_res (explicit_receipt rid) (x # xs) s = Inr s'"
    using assms by (simp only: allocate_receipt_def option.case list.case)
  show ?thesis
    by (rule fold_res_inv [OF f, where P = "\<lambda>t. same_books (st_db s) (st_db t)"])
      (auto simp: same_books_refl elim!: explicit_settles intro: same_books_trans ar.settle_books)
qed

text \<open>What a receipt is made of: bookkeeping beside the books, then at most one posting.\<close>

lemma post_receipt_steps:
  assumes "post_receipt sha c dt amount key memo st actor als cur fx d = Inr (r, d')"
  obtains acc no d1 r0 d2 where
    "0 < q_money amount" "scalar_one_or_none (\<lambda>a. acc_system_key a = Some key) (gl_accounts d) = Inr (Some acc)"
    "next_doc_no ''RC'' dt d = (no, d1)"
    "add_ar_receipt (new_receipt no c dt (or_usd cur) (doc_rate st (tender_of acc) fx) (q_money amount) key memo) d1 = Inr (r0, d2)"
    "settle_receipt sha r0 (tender_of acc) st actor als d2 = Inr (r, d')"
proof -
  obtain no d1 where no: "next_doc_no ''RC'' dt d = (no, d1)" by fastforce
  from assms no obtain acc r0 d2 where
    "\<not> q_money amount \<le> 0" "scalar_one_or_none (\<lambda>a. acc_system_key a = Some key) (gl_accounts d) = Inr (Some acc)"
    "add_ar_receipt (new_receipt no c dt (or_usd cur) (doc_rate st (tender_of acc) fx) (q_money amount) key memo) d1 = Inr (r0, d2)"
    "settle_receipt sha r0 (tender_of acc) st actor als d2 = Inr (r, d')"
    by (auto simp: post_receipt_def Let_def res_simps split: option.splits)
  with no show ?thesis by (intro that) auto
qed

lemma settle_receipt_steps:
  assumes "settle_receipt sha r tender st actor als d = Inr (r', d')"
  obtains s where
    "allocate_receipt (re_id r) (re_customer_id r) (re_currency r) als \<lparr>st_db = d, st_specs = [], st_rest = re_amount r\<rparr> = Inr s"
    "(if auto_post_enabled st
      then receipt_posting sha (r\<lparr>re_unapplied_amount := q_money (st_rest s)\<rparr>) tender (re_fx_rate r)
        (overpay_specs (re_currency r) (re_fx_rate r) (st_rest s) (st_specs s)) actor
        (put_receipt (r\<lparr>re_unapplied_amount := q_money (st_rest s)\<rparr>) (st_db s))
      else Inr (r\<lparr>re_unapplied_amount := q_money (st_rest s)\<rparr>,
        put_receipt (r\<lparr>re_unapplied_amount := q_money (st_rest s)\<rparr>) (st_db s))) = Inr (r', d')"
  using assms by (auto simp: settle_receipt_def Let_def res_simps cong: if_cong)

text \<open>A posting inside a receipt, or none.\<close>

lemma receipt_posting_cases:
  assumes "receipt_posting sha r tender rate specs actor d = Inr (r', d')"
  obtains "specs = []" "r' = r" "d' = d"
  | legs ls e d1 where "specs \<noteq> []"
      "settlement_legs ''receipt'' (re_currency r) specs ''AR'' (re_payment_system_key r) tender rate = Inr legs"
      "map_res (leg_to_glline d) legs = Inr ls"
      "post_entry sha (post_args (re_date r) (''AR receipt '' @ re_memo r) SOURCE_AR_RECEIPT None ls actor) d = Inr (e, d1)"
      "r' = r\<lparr>re_gl_entry_id := Some (je_id e)\<rparr>" "d' = put_receipt (r\<lparr>re_gl_entry_id := Some (je_id e)\<rparr>) d1"
  using assms
  by (auto simp: receipt_posting_def res_simps value_error_422_def Let_def split: if_splits sum.splits err.splits)

lemma store_invoice_steps:
  assumes "store_invoice dt row line xs d = Inr (i, d')"
  obtains no d1 d2 where "next_doc_no ''AR'' dt d = (no, d1)" "add_ar_invoice (row no) d1 = Inr (i, d2)"
    "d' = fold (\<lambda>x. add_ar_line (line (inv_id i) x)) xs d2"
  using assms by (auto simp: store_invoice_def Let_def res_simps split: prod.splits)

lemma store_invoice_same_books: "store_invoice dt row line xs d = Inr (i, d') \<Longrightarrow> same_books d d'"
  by (elim store_invoice_steps)
    (auto intro: same_books_trans [OF next_doc_no_frame(2) same_books_trans [OF add_ar_invoice_same_books fold_ar_line_same_books]])

lemma standalone_invoice_steps:
  assumes "post_standalone_invoice sha c dt due lines memo vat st actor fx d = Inr (i, d')"
  obtains cu am entry_id d1 where
    "scalar_one_or_none (\<lambda>x. cu_id x = c) (customers d) = Inr (Some cu)"
    "invoice_amounts_of lines vat (doc_rate st (or_usd (cu_currency cu)) fx) = Inr am"
    "check_credit_limit d cu (am_base_total am) = Inr ()"
    "invoice_entry sha st dt memo am (or_usd (cu_currency cu)) (doc_rate st (or_usd (cu_currency cu)) fx) actor d = Inr (entry_id, d1)"
    "store_invoice dt (standalone_invoice c dt due (or_usd (cu_currency cu)) (doc_rate st (or_usd (cu_currency cu)) fx) am entry_id memo)
       standalone_line lines d1 = Inr (i, d')"
  using assms by (auto simp: post_standalone_invoice_def Let_def res_simps split: option.splits)

context journal_invariant
begin

lemma inv_invoice_entry: "invoice_entry sha st dt memo am cur rt actor d = Inr (e, d') \<Longrightarrow> Inv d \<Longrightarrow> Inv d'"
  by (auto simp: invoice_entry_def res_simps split: if_splits intro: inv_post)

lemma inv_standalone_invoice:
  assumes "post_standalone_invoice sha c dt due lines memo vat st actor fx d = Inr (i, d')" "Inv d"
  shows "Inv d'"
  using assms(1)
  by (cases rule: standalone_invoice_steps) (rule inv_frame [OF store_invoice_same_books inv_invoice_entry [OF _ assms(2)]])

lemma inv_receipt_posting:
  assumes "receipt_posting sha r tender rate specs actor d = Inr (r', d')" "Inv d"
  shows "Inv d'"
  using assms(1)
proof (cases rule: receipt_posting_cases)
  case 1
  then show ?thesis using assms(2) by simp
next
  case (2 legs ls e d1)
  from inv_post [OF 2(4) proper_post_args assms(2)] show ?thesis
    unfolding 2(6) by (rule inv_frame [OF put_receipt_same_books])
qed

lemma inv_settle_receipt:
  assumes "settle_receipt sha r tender st actor als d = Inr (r', d')" "Inv d"
  shows "Inv d'"
  using assms(1)
proof (cases rule: settle_receipt_steps)
  case (1 s)
  have "same_books d (put_receipt (r\<lparr>re_unapplied_amount := q_money (st_rest s)\<rparr>) (st_db s))"
    using same_books_trans [OF allocate_same_books [OF 1(1)] put_receipt_same_books] by simp
  then have "Inv (put_receipt (r\<lparr>re_unapplied_amount := q_money (st_rest s)\<rparr>) (st_db s))" using assms(2) by (rule inv_frame)
  with 1(2) show ?thesis by (auto split: if_splits intro: inv_receipt_posting)
qed

lemma inv_post_receipt:
  assumes "post_receipt sha c dt amount key memo st actor als cur fx d = Inr (r, d')" "Inv d"
  shows "Inv d'"
  using assms(1)
proof (cases rule: post_receipt_steps)
  case (1 acc no d1 r0 d2)
  have "same_books d d2"
    by (rule same_books_trans [OF next_doc_no_frame(2) [OF 1(3)] add_ar_receipt_same_books [OF 1(4)]])
  then show ?thesis using inv_settle_receipt [OF 1(5)] inv_frame [OF _ assms(2)] by blast
qed

lemma inv_create_invoice_from_order:
  "create_invoice_from_order ord c e actor d = Inr (i, d') \<Longrightarrow> Inv d \<Longrightarrow> Inv d'"
  by (auto simp: create_invoice_from_order_def Let_def intro: inv_frame store_invoice_same_books)

end

section \<open>No invoice is overpaid\<close>

definition invoice_wf :: "ar_invoice \<Rightarrow> bool" where
  "invoice_wf i \<longleftrightarrow> at_scale 2 (inv_total i) \<and> at_scale 2 (inv_amount_paid i) \<and> inv_amount_paid i \<le> inv_total i
     \<and> (inv_status i = AR_PAID \<longrightarrow> inv_amount_paid i = inv_total i)"

lemma apply_wf: "invoice_wf i \<Longrightarrow> at_scale 2 a \<Longrightarrow> invoice_wf (fst (apply_to_invoice i a))"
  by (auto simp: invoice_wf_def apply_to_invoice_def Let_def min_def at_scale_diff at_scale_add split: if_splits)

lemma next_doc_no_tables:
  assumes "next_doc_no p dt d = (no, d')"
  shows "ar_invoices d' = ar_invoices d" "ar_receipts d' = ar_receipts d" "customers d' = customers d"
    "gl_accounts d' = gl_accounts d" "gl_lines d' = gl_lines d" "uid_next d' = uid_next d"
  by (subst next_doc_no_frame(1) [OF assms], simp)+

lemma post_entry_tables:
  assumes "post_entry sha q d = Inr (e, d')"
  shows "ar_invoices d' = ar_invoices d" "ar_receipts d' = ar_receipts d" "customers d' = customers d"
    "gl_accounts d' = gl_accounts d" "uid_next d \<le> uid_next d'"
proof -
  obtain ls where "posted sha q d e ls d'" and f:
    "d' = d\<lparr>clock := clock d', uid_next := uid_next d', inv_ledger := inv_ledger d', inv_head := inv_head d',
               gl_entries := gl_entries d', gl_lines := gl_lines d', gl_head := gl_head d', gl_seqs := gl_seqs d'\<rparr>"
    using post_entry_full [OF assms] by blast
  then show "uid_next d \<le> uid_next d'" by (simp add: posted_def)
  show "ar_invoices d' = ar_invoices d" "ar_receipts d' = ar_receipts d" "customers d' = customers d"
    "gl_accounts d' = gl_accounts d" by (subst f, simp)+
qed

lemma receipt_posting_tables:
  assumes "receipt_posting sha r tender rate specs actor d = Inr (r', d')"
  shows "ar_invoices d' = ar_invoices d" "customers d' = customers d" "gl_accounts d' = gl_accounts d"
    "uid_next d \<le> uid_next d'"
    and "(\<exists>g. r' = r\<lparr>re_gl_entry_id := g\<rparr>)"
    and "(r' = r \<and> ar_receipts d' = ar_receipts d) \<or> ar_receipts d' = upd_rows (\<lambda>x. re_id x = re_id r) (\<lambda>_. r') (ar_receipts d)"
proof -
  have "ar_invoices d' = ar_invoices d \<and> customers d' = customers d \<and> gl_accounts d' = gl_accounts d
    \<and> uid_next d \<le> uid_next d' \<and> (\<exists>g. r' = r\<lparr>re_gl_entry_id := g\<rparr>)
    \<and> ((r' = r \<and> ar_receipts d' = ar_receipts d) \<or> ar_receipts d' = upd_rows (\<lambda>x. re_id x = re_id r) (\<lambda>_. r') (ar_receipts d))"
    using assms
  proof (cases rule: receipt_posting_cases)
    case 1
    then show ?thesis by (auto intro: exI [of _ "re_gl_entry_id r"])
  next
    case (2 legs ls e d1)
    with post_entry_tables [OF 2(4)] show ?thesis by (auto simp: put_receipt_def)
  qed
  then show "ar_invoices d' = ar_invoices d" "customers d' = customers d" "gl_accounts d' = gl_accounts d"
    "uid_next d \<le> uid_next d'" "(\<exists>g. r' = r\<lparr>re_gl_entry_id := g\<rparr>)"
    "(r' = r \<and> ar_receipts d' = ar_receipts d) \<or> ar_receipts d' = upd_rows (\<lambda>x. re_id x = re_id r) (\<lambda>_. r') (ar_receipts d)"
    by blast+
qed

lemma allocate_invoices_wf:
  assumes "allocate_receipt rid c cur als s = Inr s'" "\<And>i. i \<in> set (ar_invoices (st_db s)) \<Longrightarrow> invoice_wf i" "at_scale 2 (st_rest s)"
  shows "\<forall>i \<in> set (ar_invoices (st_db s')). invoice_wf i"
proof (cases "als = None \<or> als = Some []")
  case True
  then have s': "s' = fifo_receipt rid (open_invoices (st_db s) c cur) s" using assms(1) by (auto simp: allocate_receipt_def)
  show ?thesis unfolding s'
    by (rule conjunct1, rule ar.fifo_rows_inv [where P = invoice_wf])
      (use assms(2,3) in \<open>auto simp: open_invoices_def invoice_wf_def [THEN iffD1] intro: apply_wf at_scale_diff\<close>)
next
  case False
  then obtain x xs where "als = Some (x # xs)" by (metis list.exhaust option.exhaust)
  then have f: "fold_res (explicit_receipt rid) (x # xs) s = Inr s'"
    using assms by (simp only: allocate_receipt_def option.case list.case)
  show ?thesis
  proof (rule fold_res_inv [OF f])
    fix al s t
    assume "explicit_receipt rid al s = Inr t" "\<forall>i\<in>set (ar_invoices (st_db s)). invoice_wf i"
    then show "\<forall>i\<in>set (ar_invoices (st_db t)). invoice_wf i"
      by (elim explicit_settles) (use ar.settle_rows_inv [where P = invoice_wf] apply_wf in blast)
  qed (use assms(2) in blast)
qed

lemma settle_receipt_invoices:
  assumes "settle_receipt sha r tender st actor als d = Inr (r', d')"
  obtains s where
    "allocate_receipt (re_id r) (re_customer_id r) (re_currency r) als \<lparr>st_db = d, st_specs = [], st_rest = re_amount r\<rparr> = Inr s"
    "ar_invoices d' = ar_invoices (st_db s)"
  using assms
  by (elim settle_receipt_steps)
    (auto split: if_splits simp: put_receipt_def dest!: receipt_posting_tables(1))

lemma post_receipt_invoices_wf:
  assumes "post_receipt sha c dt amount key memo st actor als cur fx d = Inr (r, d')"
    "\<forall>i \<in> set (ar_invoices d). invoice_wf i"
  shows "\<forall>i \<in> set (ar_invoices d'). invoice_wf i"
  using assms(1)
proof (cases rule: post_receipt_steps)
  case (1 acc no d1 r0 d2)
  have d2: "ar_invoices d2 = ar_invoices d" by (simp add: add_ar_receipt_frame(1) [OF 1(4)] next_doc_no_tables [OF 1(3)])
  obtain s where s: "allocate_receipt (re_id r0) (re_customer_id r0) (re_currency r0) als
      \<lparr>st_db = d2, st_specs = [], st_rest = re_amount r0\<rparr> = Inr s" "ar_invoices d' = ar_invoices (st_db s)"
    by (rule settle_receipt_invoices [OF 1(5)])
  have "re_amount r0 = q_money amount" using add_ar_receipt_frame(2) [OF 1(4)] by (simp add: new_receipt_def)
  then show ?thesis unfolding s(2) using assms(2) d2 by (intro allocate_invoices_wf [OF s(1)]) auto
qed

end
