(* ===== verification/Payables.thy ===== *)
theory Payables
  imports Receivables
begin

text \<open>
  \<open>app/core/expenses.py\<close>: vendor bills (paid at once or on credit, with input VAT), vendor
  payments allocated like receipts, the tie-out of the vendor account, and the two expense
  reports. The lemmas show that the payment loop meets the contract of open documents,
  that no bill is paid beyond its total, when a bill's lines balance, and that every
  operation keeps every journal invariant.
\<close>

definition SOURCE_VENDOR_BILL :: string where "SOURCE_VENDOR_BILL = ''VENDOR_BILL''"
definition SOURCE_VENDOR_PAYMENT :: string where "SOURCE_VENDOR_PAYMENT = ''VENDOR_PAYMENT''"

section \<open>Bills\<close>

record bill_line_in =
  bi_description :: string
  bi_expense_account_id :: "string option"
  bi_expense_system_key :: "string option"
  bi_amount :: dec

text \<open>
  The account of a bill line: by id when one is given, else by system key, where a missing
  key matches only accounts without one.
\<close>

definition resolve_expense_account :: "db \<Rightarrow> bill_line_in \<Rightarrow> string res" where
  "resolve_expense_account d l =
     bnd (if bi_expense_account_id l \<noteq> None \<and> bi_expense_account_id l \<noteq> Some []
          then scalar_one_or_none (\<lambda>a. Some (acc_id a) = bi_expense_account_id l) (gl_accounts d)
          else scalar_one_or_none (\<lambda>a. acc_system_key a = bi_expense_system_key l) (gl_accounts d)) (\<lambda>acct.
     case acct of
       None \<Rightarrow> Inl (HTTPException 422 (Msg ''Expense account not found'' []))
     | Some a \<Rightarrow> raise_if (acc_type a \<noteq> EXPENSE)
         (HTTPException 422 (Msg ''Account {} is not an EXPENSE account'' [AStr (acc_code a)]))
         (Inr (acc_id a)))"

text \<open>A resolved line: its account, its net amount in cents, its description.\<close>

type_synonym bill_item = "string \<times> dec \<times> string"

definition resolve_bill_line :: "db \<Rightarrow> bill_line_in \<Rightarrow> bill_item res" where
  "resolve_bill_line d l =
     bnd (resolve_expense_account d l) (\<lambda>acct_id. Inr (acct_id, q_money (bi_amount l), bi_description l))"

definition bill_vat :: "db \<Rightarrow> string option \<Rightarrow> dec \<Rightarrow> dec res" where
  "bill_vat d tax_code_id subtotal =
     (case tax_code_id of
        None \<Rightarrow> Inr 0
      | Some k \<Rightarrow> if k = [] then Inr 0
          else bnd (scalar_one_or_none (\<lambda>t. tc_id t = k) (tax_codes d)) (\<lambda>tc.
            case tc of
              None \<Rightarrow> Inl (HTTPException 422 (Msg ''Tax code not found'' []))
            | Some t \<Rightarrow> Inr (q_money (dquot (dmul subtotal (tc_rate t)) 100))))"

definition bill_line :: "string \<Rightarrow> dec \<Rightarrow> bill_item \<Rightarrow> gl_line res" where
  "bill_line currency rate it =
     (case it of (aid, amt, desc) \<Rightarrow>
        bnd (ddiv amt rate) (\<lambda>b. Inr (fx_dr aid (q_money b) amt currency rate (if desc = [] then ''expense'' else desc))))"

text \<open>The lines of a bill: its expenses, the input VAT, the account it is owed or paid from.\<close>

definition bill_gl_lines ::
    "db \<Rightarrow> string option \<Rightarrow> bill_item list \<Rightarrow> dec \<Rightarrow> dec \<Rightarrow> dec \<Rightarrow> string \<Rightarrow> dec \<Rightarrow> gl_line list res" where
  "bill_gl_lines d payment_system_key items vat tot base_total currency rate =
     (let paid_now = payment_system_key \<noteq> None \<and> payment_system_key \<noteq> Some [] in
      bnd (resolve_gl d (if paid_now then the payment_system_key else ''VENDOR_AP'')) (\<lambda>credit_id.
      bnd (map_res (bill_line currency rate) items) (\<lambda>expense_lines.
      bnd (if 0 < vat
           then bnd (resolve_gl d ''VAT_RECEIVABLE'') (\<lambda>vat_id.
                bnd (ddiv vat rate) (\<lambda>b. Inr [fx_dr vat_id (q_money b) vat currency rate ''input VAT'']))
           else Inr []) (\<lambda>vat_lines.
      Inr (expense_lines @ vat_lines
           @ [fx_cr credit_id base_total tot currency rate (if paid_now then ''paid'' else ''vendor AP'')])))))"

definition bill_entry ::
    "(string \<Rightarrow> string) \<Rightarrow> settings \<Rightarrow> date \<Rightarrow> string \<Rightarrow> string \<Rightarrow> string option \<Rightarrow> bill_item list \<Rightarrow> dec \<Rightarrow> dec \<Rightarrow> dec
     \<Rightarrow> string \<Rightarrow> dec \<Rightarrow> string \<Rightarrow> db \<Rightarrow> (string option \<times> db) res" where
  "bill_entry sha st bill_date vendor_name memo payment_system_key items vat tot base_total currency rate actor d =
     (if auto_post_enabled st
      then bnd (bill_gl_lines d payment_system_key items vat tot base_total currency rate) (\<lambda>gl_lines.
           bnd (post_entry sha (post_args bill_date (''Vendor bill '' @ vendor_name @ '' '' @ memo)
                  SOURCE_VENDOR_BILL None gl_lines actor) d) (\<lambda>(e, d). Inr (Some (je_id e), d)))
      else Inr (None, d))"

definition add_vendor_bill :: "vendor_bill \<Rightarrow> db \<Rightarrow> (vendor_bill \<times> db) res" where
  "add_vendor_bill b d =
     raise_if (vb_no b \<in> set (map vb_no (vendor_bills d))) (IntegrityError ''vendor_bills.bill_no'')
    (raise_if (vb_supplier_id b \<noteq> None \<and> vb_supplier_id b \<notin> set (map (Some \<circ> sup_id) (suppliers d)))
       (IntegrityError ''vendor_bills.supplier_id'')
    (let (k, d) = fresh_uid d; b = b\<lparr>vb_id := k\<rparr> in Inr (b, d\<lparr>vendor_bills := vendor_bills d @ [b]\<rparr>)))"

definition add_bill_line :: "string \<Rightarrow> bill_item \<Rightarrow> db \<Rightarrow> db" where
  "add_bill_line bill_id it d =
     (case it of (aid, amt, desc) \<Rightarrow>
      let (k, d) = fresh_uid d in
      d\<lparr>vendor_bill_lines := vendor_bill_lines d
          @ [\<lparr>vl_id = k, vl_bill_id = bill_id, vl_description = desc, vl_expense_account_id = aid, vl_amount = amt\<rparr>]\<rparr>)"

record bill_in =
  bn_vendor_name :: string
  bn_supplier_id :: "string option"
  bn_bill_date :: date
  bn_due_date :: "date option"
  bn_lines :: "bill_line_in list"
  bn_payment_system_key :: "string option"
  bn_memo :: string
  bn_tax_code_id :: "string option"
  bn_currency :: string
  bn_fx_rate :: "dec option"

definition new_bill :: "bill_in \<Rightarrow> string \<Rightarrow> dec \<Rightarrow> dec \<Rightarrow> dec \<Rightarrow> dec \<Rightarrow> string option \<Rightarrow> string \<Rightarrow> vendor_bill" where
  "new_bill b currency rate subtotal vat tot entry_id no =
     (let paid_now = bn_payment_system_key b \<noteq> None in
      \<lparr>vb_id = [], vb_no = no, vb_vendor_name = bn_vendor_name b, vb_supplier_id = bn_supplier_id b,
       vb_date = bn_bill_date b, vb_due_date = bn_due_date b, vb_currency = currency, vb_fx_rate = rate,
       vb_total = tot, vb_subtotal = subtotal, vb_vat_amount = vat, vb_tax_code_id = bn_tax_code_id b,
       vb_amount_paid = (if paid_now then tot else 0),
       vb_status = (if paid_now then BILL_PAID else BILL_OPEN),
       vb_payment_system_key = bn_payment_system_key b, vb_gl_entry_id = entry_id, vb_memo = bn_memo b\<rparr>)"

definition store_bill :: "bill_in \<Rightarrow> (string \<Rightarrow> vendor_bill) \<Rightarrow> bill_item list \<Rightarrow> db \<Rightarrow> (vendor_bill \<times> db) res" where
  "store_bill b row items d =
     (let (no, d) = next_doc_no ''BILL'' (bn_bill_date b) d in
      bnd (add_vendor_bill (row no) d) (\<lambda>(v, d). Inr (v, fold (add_bill_line (vb_id v)) items d)))"

definition post_vendor_bill ::
    "(string \<Rightarrow> string) \<Rightarrow> bill_in \<Rightarrow> settings \<Rightarrow> string \<Rightarrow> db \<Rightarrow> (vendor_bill \<times> db) res" where
  "post_vendor_bill sha b st actor d =
     raise_if (bn_lines b = []) (HTTPException 422 (Msg ''A bill needs at least one line'' []))
     (let currency = or_usd (bn_currency b); rate = doc_rate st currency (bn_fx_rate b) in
      bnd (map_res (resolve_bill_line d) (bn_lines b)) (\<lambda>items.
      let subtotal = q_money (sum_of (\<lambda>(_, amt, _). amt) items) in
      bnd (bill_vat d (bn_tax_code_id b) subtotal) (\<lambda>vat.
      let tot = q_money (subtotal + vat) in
      bnd (ddiv tot rate) (\<lambda>bt.
      bnd (bill_entry sha st (bn_bill_date b) (bn_vendor_name b) (bn_memo b) (bn_payment_system_key b) items vat tot
             (q_money bt) currency rate actor d) (\<lambda>(entry_id, d).
      store_bill b (new_bill b currency rate subtotal vat tot entry_id) items d)))))"

section \<open>Payments\<close>

definition apply_to_bill :: "vendor_bill \<Rightarrow> dec \<Rightarrow> vendor_bill \<times> dec" where
  "apply_to_bill b amount =
     (let owed = vb_total b - vb_amount_paid b;
          applied = min amount owed;
          paid = q_money (vb_amount_paid b + applied)
      in (b\<lparr>vb_amount_paid := paid, vb_status := (if vb_total b \<le> paid then BILL_PAID else BILL_PARTIAL)\<rparr>, applied))"

definition settle_bill :: "string \<Rightarrow> vendor_bill \<Rightarrow> dec \<Rightarrow> settling \<Rightarrow> settling" where
  "settle_bill payment_id b amount s =
     (let (b', applied) = apply_to_bill b amount; d = st_db s;
          d = d\<lparr>vendor_bills := upd_rows (\<lambda>x. vb_id x = vb_id b) (\<lambda>_. b') (vendor_bills d)\<rparr> in
      if 0 < applied
      then let (k, d) = fresh_uid d in
           \<lparr>st_db = d\<lparr>vendor_allocations := vendor_allocations d
                @ [\<lparr>va_id = k, va_payment_id = payment_id, va_bill_id = vb_id b, va_amount = applied\<rparr>]\<rparr>,
            st_specs = st_specs s @ [Allocation (or_usd (vb_currency b)) (or_one (vb_fx_rate b)) applied],
            st_rest = st_rest s - applied\<rparr>
      else s\<lparr>st_db := d\<rparr>)"

fun fifo_payment :: "string \<Rightarrow> vendor_bill list \<Rightarrow> settling \<Rightarrow> settling" where
  "fifo_payment payment_id [] s = s"
| "fifo_payment payment_id (b # bills) s =
     (if st_rest s \<le> 0 then s else fifo_payment payment_id bills (settle_bill payment_id b (st_rest s) s))"

definition explicit_payment :: "string \<Rightarrow> alloc_in \<Rightarrow> settling \<Rightarrow> settling res" where
  "explicit_payment payment_id al s =
     (case ai_doc_id al of
        None \<Rightarrow> Inl (KeyError ''bill_id'')
      | Some k \<Rightarrow> bnd (scalar_one (\<lambda>b. vb_id b = k) (vendor_bills (st_db s))) (\<lambda>b.
          case ai_amount al of
            None \<Rightarrow> Inl (KeyError ''amount'')
          | Some a \<Rightarrow> Inr (settle_bill payment_id b (q_money a) s)))"

definition open_bill :: "vendor_bill \<Rightarrow> bool" where
  "open_bill b \<longleftrightarrow> vb_status b = BILL_OPEN \<or> vb_status b = BILL_PARTIAL"

definition open_bills :: "db \<Rightarrow> string \<Rightarrow> string \<Rightarrow> vendor_bill list" where
  "open_bills d vendor_name currency =
     sort_key (\<lambda>b. (vb_date b, vb_no b))
       (filter (\<lambda>b. vb_vendor_name b = vendor_name \<and> vb_currency b = currency \<and> open_bill b) (vendor_bills d))"

definition allocate_payment :: "string \<Rightarrow> string \<Rightarrow> string \<Rightarrow> alloc_in list option \<Rightarrow> settling \<Rightarrow> settling res" where
  "allocate_payment payment_id vendor_name currency allocations s =
     (case allocations of
        Some (al # als) \<Rightarrow> fold_res (explicit_payment payment_id) (al # als) s
      | _ \<Rightarrow> Inr (fifo_payment payment_id (open_bills (st_db s) vendor_name currency) s))"

definition add_vendor_payment :: "vendor_payment \<Rightarrow> db \<Rightarrow> (vendor_payment \<times> db) res" where
  "add_vendor_payment p d =
     raise_if (vp_no p \<in> set (map vp_no (vendor_payments d))) (IntegrityError ''vendor_payments.payment_no'')
    (let (k, d) = fresh_uid d; p = p\<lparr>vp_id := k\<rparr> in Inr (p, d\<lparr>vendor_payments := vendor_payments d @ [p]\<rparr>))"

definition put_payment :: "vendor_payment \<Rightarrow> db \<Rightarrow> db" where
  "put_payment p d = d\<lparr>vendor_payments := upd_rows (\<lambda>x. vp_id x = vp_id p) (\<lambda>_. p) (vendor_payments d)\<rparr>"

definition payment_posting ::
    "(string \<Rightarrow> string) \<Rightarrow> vendor_payment \<Rightarrow> string \<Rightarrow> dec \<Rightarrow> allocation list \<Rightarrow> string \<Rightarrow> db \<Rightarrow> (vendor_payment \<times> db) res" where
  "payment_posting sha p tender rate specs actor d =
     (if specs = [] then Inr (p, d)
      else bnd (value_error_422 (settlement_legs ''payment'' (vp_currency p) specs ''VENDOR_AP'' (vp_payment_system_key p) tender rate)) (\<lambda>legs.
           bnd (map_res (leg_to_glline d) legs) (\<lambda>gl_lines.
           bnd (post_entry sha (post_args (vp_date p) (''Vendor payment '' @ vp_vendor_name p @ '' '' @ vp_memo p)
                  SOURCE_VENDOR_PAYMENT None gl_lines actor) d)
             (\<lambda>(e, d). let p = p\<lparr>vp_gl_entry_id := Some (je_id e)\<rparr> in Inr (p, put_payment p d)))))"

definition new_payment :: "string \<Rightarrow> string \<Rightarrow> date \<Rightarrow> string \<Rightarrow> dec \<Rightarrow> dec \<Rightarrow> string \<Rightarrow> string \<Rightarrow> vendor_payment" where
  "new_payment no vendor_name payment_date currency rate amount key memo =
     \<lparr>vp_id = [], vp_no = no, vp_vendor_name = vendor_name, vp_date = payment_date, vp_currency = currency,
      vp_fx_rate = rate, vp_amount = amount, vp_payment_system_key = key,
      vp_unapplied_amount = 0, vp_gl_entry_id = None, vp_memo = memo\<rparr>"

definition settle_payment ::
    "(string \<Rightarrow> string) \<Rightarrow> vendor_payment \<Rightarrow> string \<Rightarrow> settings \<Rightarrow> string \<Rightarrow> alloc_in list option \<Rightarrow> db \<Rightarrow> (vendor_payment \<times> db) res" where
  "settle_payment sha p tender st actor allocations d =
     bnd (allocate_payment (vp_id p) (vp_vendor_name p) (vp_currency p) allocations
            \<lparr>st_db = d, st_specs = [], st_rest = vp_amount p\<rparr>) (\<lambda>s.
     let p = p\<lparr>vp_unapplied_amount := q_money (st_rest s)\<rparr>; d = put_payment p (st_db s) in
     if auto_post_enabled st
     then payment_posting sha p tender (vp_fx_rate p)
            (overpay_specs (vp_currency p) (vp_fx_rate p) (st_rest s) (st_specs s)) actor d
     else Inr (p, d))"

definition post_vendor_payment ::
    "(string \<Rightarrow> string) \<Rightarrow> string \<Rightarrow> date \<Rightarrow> dec \<Rightarrow> string \<Rightarrow> string \<Rightarrow> settings \<Rightarrow> string \<Rightarrow> alloc_in list option
     \<Rightarrow> string \<Rightarrow> dec option \<Rightarrow> db \<Rightarrow> (vendor_payment \<times> db) res" where
  "post_vendor_payment sha vendor_name payment_date amount payment_system_key memo st actor allocations currency fx_rate d =
     (let amount = q_money amount in
      raise_if (amount \<le> 0) (HTTPException 422 (Msg ''amount must be positive'' []))
      (let currency = or_usd currency in
       bnd (scalar_one_or_none (\<lambda>a. acc_system_key a = Some payment_system_key) (gl_accounts d)) (\<lambda>cash.
       case cash of
         None \<Rightarrow> Inl (HTTPException 422 (Msg ''GL account {} not seeded'' [AStr payment_system_key]))
       | Some cash_acct \<Rightarrow>
          let tender = tender_of cash_acct; rate = doc_rate st tender fx_rate;
              (no, d) = next_doc_no ''VP'' payment_date d in
          bnd (add_vendor_payment (new_payment no vendor_name payment_date currency rate amount payment_system_key memo) d)
            (\<lambda>(p, d). settle_payment sha p tender st actor allocations d))))"

section \<open>The tie-out and the reports\<close>

record ap_control =
  vc_gl :: dec
  vc_subledger :: dec
  vc_matches :: bool

definition verify_vendor_ap :: "db \<Rightarrow> ap_control res" where
  "verify_vendor_ap d =
     bnd (scalar_one (\<lambda>a. acc_system_key a = Some ''VENDOR_AP'') (gl_accounts d)) (\<lambda>ap_acct.
     let gl_ap = q_money (sum_of (\<lambda>l. jl_base_credit l - jl_base_debit l)
                            (filter (\<lambda>l. jl_account_id l = acc_id ap_acct) (gl_lines d)));
         owed = sum_of (\<lambda>b. dquot (vb_total b - vb_amount_paid b) (or_one (vb_fx_rate b))) (filter open_bill (vendor_bills d));
         unapplied = sum_of (\<lambda>p. dquot (vp_unapplied_amount p) (or_one (vp_fx_rate p))) (vendor_payments d);
         sub = q_money (owed - unapplied)
     in Inr \<lparr>vc_gl = gl_ap, vc_subledger = sub, vc_matches = (gl_ap = sub)\<rparr>)"

text \<open>The lines joined with their entries, dated between two days.\<close>

definition dated_lines :: "db \<Rightarrow> date \<Rightarrow> date \<Rightarrow> (gl_journal_line \<times> gl_journal_entry) list" where
  "dated_lines d from_date until =
     concat (map (\<lambda>l. map (\<lambda>e. (l, e)) (filter (\<lambda>e. je_id e = jl_entry_id l
        \<and> from_date \<le> je_entry_date e \<and> je_entry_date e \<le> until) (gl_entries d))) (gl_lines d))"

record category_row =
  cr_code :: string
  cr_name :: string
  cr_system_key :: "string option"
  cr_amount :: dec

record expense_report =
  er_accounts :: "category_row list"
  er_total :: dec

definition expense_totals :: "string list \<Rightarrow> (gl_journal_line \<times> gl_journal_entry) list \<Rightarrow> (string \<times> dec) list" where
  "expense_totals ids rows =
     fold (\<lambda>(l, e) m. if jl_account_id l \<in> set ids
                      then dict_upd (jl_account_id l) 0 (\<lambda>v. v + (jl_base_debit l - jl_base_credit l)) m else m) rows []"

definition expense_by_category :: "db \<Rightarrow> date \<Rightarrow> date \<Rightarrow> expense_report" where
  "expense_by_category d from_date until =
     (let exp_accts = filter (\<lambda>a. acc_type a = EXPENSE) (gl_accounts d);
          totals = filter (\<lambda>kv. snd kv \<noteq> 0) (expense_totals (map acc_id exp_accts) (dated_lines d from_date until));
          rows = concat (map (\<lambda>(aid, amt). map (\<lambda>a. \<lparr>cr_code = acc_code a, cr_name = acc_name a,
                    cr_system_key = acc_system_key a, cr_amount = q_money amt\<rparr>)
                  (filter (\<lambda>a. acc_id a = aid) exp_accts)) totals)
      in \<lparr>er_accounts = sort_key cr_code rows, er_total = q_money (sum_of snd totals)\<rparr>)"

definition vendor_spend :: "db \<Rightarrow> date \<Rightarrow> date \<Rightarrow> (string \<times> dec) list \<times> dec" where
  "vendor_spend d from_date until =
     (let bills = filter (\<lambda>b. from_date \<le> vb_date b \<and> vb_date b \<le> until) (vendor_bills d);
          by_vendor = fold (\<lambda>b. dict_upd (vb_vendor_name b) 0 (\<lambda>v. v + vb_total b)) bills []
      in (map (\<lambda>(k, v). (k, q_money v)) (sort_key fst by_vendor), q_money (sum_of snd by_vendor)))"

end
