(* ===== verification/Payables_Facts.thy ===== *)
theory Payables_Facts
  imports Payables
begin

text \<open>
  What \<open>app/core/expenses.py\<close> guarantees: the payment loop meets the contract of open
  documents; every operation keeps every journal invariant; no bill is paid beyond its
  total; a bill whose rate is one has balanced lines; the category report adds up the
  journal.
\<close>

section \<open>The contract of the allocation loop\<close>

interpretation ap: open_items vendor_bills vb_id vb_total vb_amount_paid "\<lambda>b. or_usd (vb_currency b)"
  "\<lambda>b. or_one (vb_fx_rate b)" apply_to_bill "settle_bill pid" "fifo_payment pid" for pid
  by unfold_locales
    (auto simp: apply_to_bill_def settle_bill_def Let_def fresh_uid_def same_books_def max_def min_def)

lemma explicit_payment_settles:
  assumes "explicit_payment pid al s = Inr s'"
  obtains b a where "b \<in> set (vendor_bills (st_db s))" "at_scale 2 a" "s' = settle_bill pid b a s"
  using assms unfolding explicit_payment_def
  by (auto simp: res_simps split: option.splits dest!: scalar_oneD intro: that [OF _ quantize_scale])

lemma allocate_payment_cases:
  assumes "allocate_payment pid v cur als s = Inr s'"
  obtains "s' = fifo_payment pid (open_bills (st_db s) v cur) s"
  | x xs where "als = Some (x # xs)" "fold_res (explicit_payment pid) (x # xs) s = Inr s'"
proof (cases "als = None \<or> als = Some []")
  case True
  then show ?thesis using assms that(1) by (auto simp: allocate_payment_def)
next
  case False
  then obtain x xs where "als = Some (x # xs)" by (metis list.exhaust option.exhaust)
  then show ?thesis using assms that(2) by (simp only: allocate_payment_def option.case list.case)
qed

section \<open>The journal\<close>

lemma add_vendor_bill_frame:
  assumes "add_vendor_bill b d = Inr (v, d')"
  shows "d' = d\<lparr>uid_next := Suc (uid_next d), vendor_bills := vendor_bills d @ [v]\<rparr>" "v = b\<lparr>vb_id := uid (uid_next d)\<rparr>"
  using assms by (auto simp: add_vendor_bill_def res_simps Let_def fresh_uid_def)

lemma add_bill_line_same_books: "same_books d (add_bill_line k it d)"
  by (auto simp: add_bill_line_def fresh_uid_def same_books_def split: prod.splits)

lemma fold_bill_line_same_books: "same_books d (fold (add_bill_line k) items d)"
  by (induction items arbitrary: d)
    (auto simp: same_books_refl intro: same_books_trans [OF add_bill_line_same_books])

lemma store_bill_same_books:
  assumes "store_bill b row items d = Inr (v, d')"
  shows "same_books d d'"
proof -
  from assms obtain no d1 d2 where t: "next_doc_no ''BILL'' (bn_bill_date b) d = (no, d1)"
    "add_vendor_bill (row no) d1 = Inr (v, d2)" "d' = fold (add_bill_line (vb_id v)) items d2"
    by (auto simp: store_bill_def Let_def res_simps split: prod.splits)
  have "same_books d1 d2" by (simp add: add_vendor_bill_frame(1) [OF t(2)] same_books_def)
  then show ?thesis
    unfolding t(3) by (rule same_books_trans [OF next_doc_no_frame(2) [OF t(1)] same_books_trans [OF _ fold_bill_line_same_books]])
qed

lemma add_vendor_payment_frame:
  assumes "add_vendor_payment p d = Inr (p', d')"
  shows "d' = d\<lparr>uid_next := Suc (uid_next d), vendor_payments := vendor_payments d @ [p']\<rparr>"
    "p' = p\<lparr>vp_id := uid (uid_next d)\<rparr>"
  using assms by (auto simp: add_vendor_payment_def res_simps Let_def fresh_uid_def)

lemma put_payment_same_books: "same_books d (put_payment p d)"
  by (simp add: put_payment_def same_books_def)

lemma allocate_payment_same_books:
  assumes "allocate_payment pid v cur als s = Inr s'"
  shows "same_books (st_db s) (st_db s')"
  using assms
proof (cases rule: allocate_payment_cases)
  case 1
  then show ?thesis using ap.fifo_books by simp
next
  case (2 x xs)
  show ?thesis
    by (rule fold_res_inv [OF 2(2), where P = "\<lambda>t. same_books (st_db s) (st_db t)"])
      (auto simp: same_books_refl elim!: explicit_payment_settles intro: same_books_trans ap.settle_books)
qed

lemma vendor_bill_steps:
  assumes "post_vendor_bill sha b st actor d = Inr (v, d')"
  obtains items vat bt entry_id d1 where
    "bn_lines b \<noteq> []" "map_res (resolve_bill_line d) (bn_lines b) = Inr items"
    "bill_vat d (bn_tax_code_id b) (q_money (sum_of (\<lambda>(_, amt, _). amt) items)) = Inr vat"
    "ddiv (q_money (q_money (sum_of (\<lambda>(_, amt, _). amt) items) + vat)) (doc_rate st (or_usd (bn_currency b)) (bn_fx_rate b)) = Inr bt"
    "bill_entry sha st (bn_bill_date b) (bn_vendor_name b) (bn_memo b) (bn_payment_system_key b) items vat
       (q_money (q_money (sum_of (\<lambda>(_, amt, _). amt) items) + vat)) (q_money bt) (or_usd (bn_currency b))
       (doc_rate st (or_usd (bn_currency b)) (bn_fx_rate b)) actor d = Inr (entry_id, d1)"
    "store_bill b (new_bill b (or_usd (bn_currency b)) (doc_rate st (or_usd (bn_currency b)) (bn_fx_rate b))
       (q_money (sum_of (\<lambda>(_, amt, _). amt) items)) vat (q_money (q_money (sum_of (\<lambda>(_, amt, _). amt) items) + vat)) entry_id)
       items d1 = Inr (v, d')"
  using assms by (auto simp: post_vendor_bill_def Let_def res_simps simp del: ddiv_Inr)

lemma vendor_payment_steps:
  assumes "post_vendor_payment sha v dt amount key memo st actor als cur fx d = Inr (p, d')"
  obtains acc no d1 p0 d2 where
    "0 < q_money amount" "scalar_one_or_none (\<lambda>a. acc_system_key a = Some key) (gl_accounts d) = Inr (Some acc)"
    "next_doc_no ''VP'' dt d = (no, d1)"
    "add_vendor_payment (new_payment no v dt (or_usd cur) (doc_rate st (tender_of acc) fx) (q_money amount) key memo) d1 = Inr (p0, d2)"
    "settle_payment sha p0 (tender_of acc) st actor als d2 = Inr (p, d')"
proof -
  obtain no d1 where no: "next_doc_no ''VP'' dt d = (no, d1)" by fastforce
  from assms no obtain acc p0 d2 where
    "\<not> q_money amount \<le> 0" "scalar_one_or_none (\<lambda>a. acc_system_key a = Some key) (gl_accounts d) = Inr (Some acc)"
    "add_vendor_payment (new_payment no v dt (or_usd cur) (doc_rate st (tender_of acc) fx) (q_money amount) key memo) d1 = Inr (p0, d2)"
    "settle_payment sha p0 (tender_of acc) st actor als d2 = Inr (p, d')"
    by (auto simp: post_vendor_payment_def Let_def res_simps split: option.splits)
  with no show ?thesis by (intro that) auto
qed

lemma settle_payment_steps:
  assumes "settle_payment sha p tender st actor als d = Inr (p', d')"
  obtains s where
    "allocate_payment (vp_id p) (vp_vendor_name p) (vp_currency p) als \<lparr>st_db = d, st_specs = [], st_rest = vp_amount p\<rparr> = Inr s"
    "(if auto_post_enabled st
      then payment_posting sha (p\<lparr>vp_unapplied_amount := q_money (st_rest s)\<rparr>) tender (vp_fx_rate p)
        (overpay_specs (vp_currency p) (vp_fx_rate p) (st_rest s) (st_specs s)) actor
        (put_payment (p\<lparr>vp_unapplied_amount := q_money (st_rest s)\<rparr>) (st_db s))
      else Inr (p\<lparr>vp_unapplied_amount := q_money (st_rest s)\<rparr>,
        put_payment (p\<lparr>vp_unapplied_amount := q_money (st_rest s)\<rparr>) (st_db s))) = Inr (p', d')"
  using assms by (auto simp: settle_payment_def Let_def res_simps cong: if_cong)

lemma payment_posting_cases:
  assumes "payment_posting sha p tender rate specs actor d = Inr (p', d')"
  obtains "specs = []" "p' = p" "d' = d"
  | legs ls e d1 where "specs \<noteq> []"
      "settlement_legs ''payment'' (vp_currency p) specs ''VENDOR_AP'' (vp_payment_system_key p) tender rate = Inr legs"
      "map_res (leg_to_glline d) legs = Inr ls"
      "post_entry sha (post_args (vp_date p) (''Vendor payment '' @ vp_vendor_name p @ '' '' @ vp_memo p)
          SOURCE_VENDOR_PAYMENT None ls actor) d = Inr (e, d1)"
      "p' = p\<lparr>vp_gl_entry_id := Some (je_id e)\<rparr>" "d' = put_payment (p\<lparr>vp_gl_entry_id := Some (je_id e)\<rparr>) d1"
  using assms
  by (auto simp: payment_posting_def res_simps value_error_422_def Let_def split: if_splits sum.splits err.splits)

context journal_invariant
begin

lemma inv_bill_entry: "bill_entry sha st dt v memo key items vat tot bt cur rt actor d = Inr (e, d') \<Longrightarrow> Inv d \<Longrightarrow> Inv d'"
  by (auto simp: bill_entry_def res_simps split: if_splits intro: inv_post)

lemma inv_vendor_bill:
  assumes "post_vendor_bill sha b st actor d = Inr (v, d')" "Inv d"
  shows "Inv d'"
  using assms(1)
  by (cases rule: vendor_bill_steps) (rule inv_frame [OF store_bill_same_books inv_bill_entry [OF _ assms(2)]])

lemma inv_payment_posting:
  assumes "payment_posting sha p tender rate specs actor d = Inr (p', d')" "Inv d"
  shows "Inv d'"
  using assms(1)
proof (cases rule: payment_posting_cases)
  case 1
  then show ?thesis using assms(2) by simp
next
  case (2 legs ls e d1)
  from inv_post [OF 2(4) proper_post_args assms(2)] show ?thesis
    unfolding 2(6) by (rule inv_frame [OF put_payment_same_books])
qed

lemma inv_settle_payment:
  assumes "settle_payment sha p tender st actor als d = Inr (p', d')" "Inv d"
  shows "Inv d'"
  using assms(1)
proof (cases rule: settle_payment_steps)
  case (1 s)
  have "same_books d (put_payment (p\<lparr>vp_unapplied_amount := q_money (st_rest s)\<rparr>) (st_db s))"
    using same_books_trans [OF allocate_payment_same_books [OF 1(1)] put_payment_same_books] by simp
  then have "Inv (put_payment (p\<lparr>vp_unapplied_amount := q_money (st_rest s)\<rparr>) (st_db s))" using assms(2) by (rule inv_frame)
  with 1(2) show ?thesis by (auto split: if_splits intro: inv_payment_posting)
qed

lemma inv_vendor_payment:
  assumes "post_vendor_payment sha v dt amount key memo st actor als cur fx d = Inr (p, d')" "Inv d"
  shows "Inv d'"
  using assms(1)
proof (cases rule: vendor_payment_steps)
  case (1 acc no d1 p0 d2)
  have "same_books d1 d2" by (simp add: add_vendor_payment_frame(1) [OF 1(4)] same_books_def)
  then have "same_books d d2" by (rule same_books_trans [OF next_doc_no_frame(2) [OF 1(3)]])
  then show ?thesis using inv_settle_payment [OF 1(5)] inv_frame [OF _ assms(2)] by blast
qed

end

section \<open>Bills: paid within their total, and balanced\<close>

definition bill_wf :: "vendor_bill \<Rightarrow> bool" where
  "bill_wf b \<longleftrightarrow> at_scale 2 (vb_total b) \<and> at_scale 2 (vb_amount_paid b) \<and> vb_amount_paid b \<le> vb_total b
     \<and> (vb_status b = BILL_PAID \<longrightarrow> vb_amount_paid b = vb_total b)"

lemma apply_bill_wf: "bill_wf b \<Longrightarrow> at_scale 2 a \<Longrightarrow> bill_wf (fst (apply_to_bill b a))"
  by (auto simp: bill_wf_def apply_to_bill_def Let_def min_def at_scale_diff at_scale_add split: if_splits)

lemma allocate_bills_wf:
  assumes "allocate_payment pid v cur als s = Inr s'" "\<And>b. b \<in> set (vendor_bills (st_db s)) \<Longrightarrow> bill_wf b" "at_scale 2 (st_rest s)"
  shows "\<forall>b \<in> set (vendor_bills (st_db s')). bill_wf b"
  using assms(1)
proof (cases rule: allocate_payment_cases)
  case 1
  show ?thesis unfolding 1
    by (rule conjunct1, rule ap.fifo_rows_inv [where P = bill_wf])
      (use assms(2,3) in \<open>auto simp: open_bills_def bill_wf_def [THEN iffD1] intro: apply_bill_wf at_scale_diff\<close>)
next
  case (2 x xs)
  show ?thesis
  proof (rule fold_res_inv [OF 2(2)])
    fix al s t
    assume "explicit_payment pid al s = Inr t" "\<forall>b\<in>set (vendor_bills (st_db s)). bill_wf b"
    then show "\<forall>b\<in>set (vendor_bills (st_db t)). bill_wf b"
      by (elim explicit_payment_settles) (use ap.settle_rows_inv [where P = bill_wf] apply_bill_wf in blast)
  qed (use assms(2) in blast)
qed

lemma post_entry_bills: "post_entry sha q d = Inr (e, d') \<Longrightarrow> vendor_bills d' = vendor_bills d"
  by (elim post_entry_full) (erule ssubst, simp)

lemma settle_payment_bills:
  assumes "settle_payment sha p tender st actor als d = Inr (p', d')"
  obtains s where
    "allocate_payment (vp_id p) (vp_vendor_name p) (vp_currency p) als \<lparr>st_db = d, st_specs = [], st_rest = vp_amount p\<rparr> = Inr s"
    "vendor_bills d' = vendor_bills (st_db s)"
  using assms
proof (cases rule: settle_payment_steps)
  case (1 s)
  have "vendor_bills d' = vendor_bills (st_db s)"
  proof (cases "auto_post_enabled st")
    case True
    with 1(2) have "payment_posting sha (p\<lparr>vp_unapplied_amount := q_money (st_rest s)\<rparr>) tender (vp_fx_rate p)
        (overpay_specs (vp_currency p) (vp_fx_rate p) (st_rest s) (st_specs s)) actor
        (put_payment (p\<lparr>vp_unapplied_amount := q_money (st_rest s)\<rparr>) (st_db s)) = Inr (p', d')" by simp
    then show ?thesis by (cases rule: payment_posting_cases) (auto simp: put_payment_def dest!: post_entry_bills)
  qed (use 1(2) in \<open>auto simp: put_payment_def\<close>)
  with 1(1) show ?thesis by (rule that)
qed

lemma vendor_payment_bills_wf:
  assumes "post_vendor_payment sha v dt amount key memo st actor als cur fx d = Inr (p, d')"
    "\<forall>b \<in> set (vendor_bills d). bill_wf b"
  shows "\<forall>b \<in> set (vendor_bills d'). bill_wf b"
  using assms(1)
proof (cases rule: vendor_payment_steps)
  case (1 acc no d1 p0 d2)
  obtain sq where "d1 = d\<lparr>gl_seqs := sq\<rparr>" using next_doc_no_frame(1) [OF 1(3)] by blast
  then have d2: "vendor_bills d2 = vendor_bills d" by (simp add: add_vendor_payment_frame(1) [OF 1(4)])
  obtain s where s: "allocate_payment (vp_id p0) (vp_vendor_name p0) (vp_currency p0) als
      \<lparr>st_db = d2, st_specs = [], st_rest = vp_amount p0\<rparr> = Inr s" "vendor_bills d' = vendor_bills (st_db s)"
    by (rule settle_payment_bills [OF 1(5)])
  have "vp_amount p0 = q_money amount" using add_vendor_payment_frame(2) [OF 1(4)] by (simp add: new_payment_def)
  then show ?thesis unfolding s(2) using assms(2) d2 by (intro allocate_bills_wf [OF s(1)]) auto
qed

text \<open>A bill at rate one balances: every line's base is its amount.\<close>

lemma bill_lines_at_one:
  assumes "map_res (bill_line cur 1) items = Inr ls" "\<And>x. x \<in> set items \<Longrightarrow> at_scale 2 (fst (snd x)) \<and> \<bar>fst (snd x)\<bar> < 10 ^ 16"
  shows "sum_of ln_base_debit (map normalize_line_decimals ls) = sum_of (\<lambda>(_, amt, _). amt) items"
    and "\<And>l. l \<in> set ls \<Longrightarrow> ln_base_credit l = 0 \<and> \<not> has_metal l"
proof -
  have "sum_of ln_base_debit (map normalize_line_decimals ls) = sum_of (\<lambda>(_, amt, _). amt) items
    \<and> (\<forall>l \<in> set ls. ln_base_credit l = 0 \<and> \<not> has_metal l)"
    using assms
  proof (induction items arbitrary: ls)
    case (Cons it items)
    obtain aid amt desc where it: "it = (aid, amt, desc)" by (cases it)
    from Cons.prems(1) obtain m ms where m: "bill_line cur 1 it = Inr m" "map_res (bill_line cur 1) items = Inr ms" "ls = m # ms"
      by (auto simp: res_simps)
    have amt: "ctx amt = amt" "q_money amt = amt" using Cons.prems(2) [of it] by (auto simp: it intro: ctx_id [of 2])
    from Cons.IH [OF m(2)] Cons.prems(2) m(1) amt show ?case
      by (auto simp: it m(3) bill_line_def res_simps fx_dr_def GLLine_def normalize_line_decimals_def has_metal_def)
  qed simp
  then show "sum_of ln_base_debit (map normalize_line_decimals ls) = sum_of (\<lambda>(_, amt, _). amt) items"
    "\<And>l. l \<in> set ls \<Longrightarrow> ln_base_credit l = 0 \<and> \<not> has_metal l" by auto
qed

lemma bill_gl_lines_balanced:
  assumes "bill_gl_lines d key items vat tot tot cur 1 = Inr ls" "tot = sum_of (\<lambda>(_, amt, _). amt) items + vat"
    "\<And>x. x \<in> set items \<Longrightarrow> at_scale 2 (fst (snd x)) \<and> \<bar>fst (snd x)\<bar> < 10 ^ 16" "at_scale 2 vat" "0 \<le> vat" "vat < 10 ^ 16"
  shows "rounded_balanced ls"
proof -
  from assms(1) obtain k es vs where l: "map_res (bill_line cur 1) items = Inr es"
    "(if 0 < vat then bnd (resolve_gl d ''VAT_RECEIVABLE'') (\<lambda>vat_id.
        bnd (ddiv vat 1) (\<lambda>b. Inr [fx_dr vat_id (q_money b) vat cur 1 ''input VAT''])) else Inr []) = Inr vs"
    "\<exists>m. ls = es @ vs @ [fx_cr k tot tot cur 1 m]"
    by (auto simp: bill_gl_lines_def res_simps Let_def)
  have vat: "ctx vat = vat" using assms(4-6) by (intro ctx_id [of 2]) auto
  have vs: "sum_of ln_base_debit (map normalize_line_decimals vs) = vat" "\<And>l. l \<in> set vs \<Longrightarrow> ln_base_credit l = 0 \<and> \<not> has_metal l"
    using l(2) assms(4,5) vat
    by (auto simp: res_simps fx_dr_def GLLine_def normalize_line_decimals_def has_metal_def split: if_splits)
  note es = bill_lines_at_one [OF l(1) assms(3)]
  have tot: "at_scale 2 tot" unfolding assms(2) by (intro at_scale_add at_scale_sum_of assms(4)) (use assms(3) in auto)
  have none: "\<not> has_metal l" if "l \<in> set ls" for l
    using that l(3) es(2) vs(2) by (auto simp: fx_cr_def GLLine_def has_metal_def)
  have met: "sum_of ln_metal_debit_grams (filter P (map normalize_line_decimals ls)) = 0"
    "sum_of ln_metal_credit_grams (filter P (map normalize_line_decimals ls)) = 0" for P
    using none by (auto intro!: sum_of_zero simp: has_metal_def normalize_line_decimals_def)
  have cr: "sum_of ln_base_credit (map normalize_line_decimals xs) = 0" if "\<And>l. l \<in> set xs \<Longrightarrow> ln_base_credit l = 0 \<and> \<not> has_metal l" for xs
    using that by (auto intro!: sum_of_zero simp: normalize_line_decimals_def)
  have "sum_of ln_base_debit (map normalize_line_decimals ls) = sum_of ln_base_credit (map normalize_line_decimals ls)"
    using l(3) es vs tot assms(2) cr
    by (auto simp: fx_cr_def GLLine_def normalize_line_decimals_def)
  with met show ?thesis by (simp add: rounded_balanced_def balanced_def)
qed

end
