(* ===== verification/CoaSeed.thy ===== *)
theory CoaSeed
  imports GlPostings Liveness
begin

text \<open>
  \<open>app/core/coa_seed.py\<close>: the system chart of accounts, its idempotent seeding, the check
  that the chart is usable, and the opening entry. The lemmas show that seeding creates
  exactly the missing accounts and is idempotent, that the chart is usable afterwards, and
  that the opening lines balance in both dimensions.
\<close>

section \<open>The system accounts\<close>

type_synonym system_account =
  "string \<times> string \<times> account_type \<times> denomination \<times> normal_balance \<times> string \<times> string"

definition SYSTEM_ACCOUNTS :: "system_account list" where
  "SYSTEM_ACCOUNTS = [
     (''530001'', ''Cash (USD)'', ASSET, MONEY, DEBIT, ''USD'', ''CASH''),
     (''530011'', ''Cash (LBP)'', ASSET, MONEY, DEBIT, ''LBP'', ''CASH_LBP''),
     (''512201'', ''Bank'', ASSET, MONEY, DEBIT, ''USD'', ''BANK''),
     (''411111'', ''Accounts Receivable'', ASSET, MONEY, DEBIT, ''USD'', ''AR''),
     (''370011'', ''Metal Inventory'', ASSET, DUAL, DEBIT, ''USD'', ''METAL_INVENTORY''),
     (''370012'', ''Product Inventory'', ASSET, MONEY, DEBIT, ''USD'', ''PRODUCT_INVENTORY''),
     (''442611'', ''VAT Receivable (input)'', ASSET, MONEY, DEBIT, ''USD'', ''VAT_RECEIVABLE''),
     (''401101'', ''Accounts Payable'', LIABILITY, MONEY, CREDIT, ''USD'', ''AP''),
     (''401102'', ''Metal AP'', LIABILITY, DUAL, CREDIT, ''USD'', ''METAL_AP''),
     (''442701'', ''VAT Payable (output)'', LIABILITY, MONEY, CREDIT, ''USD'', ''VAT_PAYABLE''),
     (''419101'', ''Customer Deposits'', LIABILITY, MONEY, CREDIT, ''USD'', ''CUSTOMER_DEPOSITS''),
     (''101901'', ''Opening Balance Equity'', EQUITY, DUAL, CREDIT, ''USD'', ''OPENING_BALANCE_EQUITY''),
     (''101401'', ''Retained Earnings'', EQUITY, MONEY, CREDIT, ''USD'', ''RETAINED_EARNINGS''),
     (''701000'', ''Sales Revenue'', INCOME, MONEY, CREDIT, ''USD'', ''SALES_REVENUE''),
     (''713000'', ''Making-Charge Revenue'', INCOME, MONEY, CREDIT, ''USD'', ''MAKING_CHARGE_REVENUE''),
     (''775100'', ''FX Gain'', INCOME, MONEY, CREDIT, ''USD'', ''FX_GAIN''),
     (''611701'', ''Metal COGS'', EXPENSE, DUAL, DEBIT, ''USD'', ''METAL_COGS''),
     (''611702'', ''Making COGS'', EXPENSE, MONEY, DEBIT, ''USD'', ''MAKING_COGS''),
     (''611703'', ''Stone COGS'', EXPENSE, MONEY, DEBIT, ''USD'', ''STONE_COGS''),
     (''370013'', ''Stone Inventory'', ASSET, MONEY, DEBIT, ''USD'', ''STONE_INVENTORY''),
     (''675100'', ''FX Loss'', EXPENSE, MONEY, DEBIT, ''USD'', ''FX_LOSS''),
     (''370019'', ''Metal Clearing'', ASSET, DUAL, DEBIT, ''USD'', ''METAL_CLEARING''),
     (''655300'', ''Inventory Adjustment Expense'', EXPENSE, MONEY, DEBIT, ''USD'', ''ADJUSTMENT_EXPENSE''),
     (''461901'', ''Vendor Payables'', LIABILITY, MONEY, CREDIT, ''USD'', ''VENDOR_AP''),
     (''626310'', ''Rent Expense'', EXPENSE, MONEY, DEBIT, ''USD'', ''RENT_EXPENSE''),
     (''626340'', ''Utilities Expense'', EXPENSE, MONEY, DEBIT, ''USD'', ''UTILITIES_EXPENSE''),
     (''631100'', ''Salaries Expense'', EXPENSE, MONEY, DEBIT, ''USD'', ''SALARIES_EXPENSE''),
     (''626930'', ''Marketing Expense'', EXPENSE, MONEY, DEBIT, ''USD'', ''MARKETING_EXPENSE''),
     (''673900'', ''Bank Charges'', EXPENSE, MONEY, DEBIT, ''USD'', ''BANK_CHARGES_EXPENSE''),
     (''626940'', ''Office Supplies'', EXPENSE, MONEY, DEBIT, ''USD'', ''OFFICE_EXPENSE''),
     (''626991'', ''Miscellaneous Expense'', EXPENSE, MONEY, DEBIT, ''USD'', ''MISC_EXPENSE''),
     (''626151'', ''Telephone & Telecom'', EXPENSE, MONEY, DEBIT, ''USD'', ''TELECOM_EXPENSE''),
     (''626800'', ''Insurance'', EXPENSE, MONEY, DEBIT, ''USD'', ''INSURANCE_EXPENSE''),
     (''626530'', ''Professional Fees'', EXPENSE, MONEY, DEBIT, ''USD'', ''PROFESSIONAL_FEES_EXPENSE''),
     (''626330'', ''Water'', EXPENSE, MONEY, DEBIT, ''USD'', ''WATER_EXPENSE''),
     (''626111'', ''Delivery/Transport on Sales'', EXPENSE, MONEY, DEBIT, ''USD'', ''FREIGHT_OUT_EXPENSE''),
     (''642000'', ''Municipality Taxes'', EXPENSE, MONEY, DEBIT, ''USD'', ''MUNICIPALITY_TAX_EXPENSE''),
     (''644000'', ''Registration Fees'', EXPENSE, MONEY, DEBIT, ''USD'', ''REGISTRATION_FEES_EXPENSE''),
     (''645801'', ''Tax Penalties & Interest'', EXPENSE, MONEY, DEBIT, ''USD'', ''TAX_PENALTIES_EXPENSE''),
     (''643000'', ''VAT Non-Recoverable'', EXPENSE, MONEY, DEBIT, ''USD'', ''VAT_NONRECOVERABLE_EXPENSE''),
     (''626910'', ''Medical Care'', EXPENSE, MONEY, DEBIT, ''USD'', ''MEDICAL_EXPENSE''),
     (''685110'', ''Donations'', EXPENSE, MONEY, DEBIT, ''USD'', ''DONATIONS_EXPENSE''),
     (''673100'', ''Interest on Loans'', EXPENSE, MONEY, DEBIT, ''USD'', ''INTEREST_EXPENSE''),
     (''530002'', ''Petty Cash'', ASSET, MONEY, DEBIT, ''USD'', ''CASH_PETTY''),
     (''709000'', ''Discounts Allowed'', INCOME, MONEY, DEBIT, ''USD'', ''SALES_DISCOUNTS''),
     (''540005'', ''Credit Cards (clearing)'', ASSET, MONEY, DEBIT, ''USD'', ''CREDIT_CARD_CLEARING''),
     (''101301'', ''Subscribed Capital'', EQUITY, MONEY, CREDIT, ''USD'', ''CAPITAL''),
     (''111001'', ''Legal Reserve'', EQUITY, MONEY, CREDIT, ''USD'', ''LEGAL_RESERVE''),
     (''259001'', ''Deposits Paid'', ASSET, MONEY, DEBIT, ''USD'', ''DEPOSITS_PAID''),
     (''121001'', ''Profit Brought Forward'', EQUITY, MONEY, CREDIT, ''USD'', ''PROFIT_BROUGHT_FORWARD''),
     (''125001'', ''Losses Brought Forward'', EQUITY, MONEY, DEBIT, ''USD'', ''LOSS_BROUGHT_FORWARD''),
     (''226211'', ''Office & Computer Equipment'', ASSET, MONEY, DEBIT, ''USD'', ''FA_OFFICE_EQUIPMENT''),
     (''226221'', ''Computer Equipment & Programs'', ASSET, MONEY, DEBIT, ''USD'', ''FA_COMPUTER''),
     (''226311'', ''Furniture & Fixtures'', ASSET, MONEY, DEBIT, ''USD'', ''FA_FURNITURE''),
     (''226101'', ''General Installations'', ASSET, MONEY, DEBIT, ''USD'', ''FA_INSTALLATIONS''),
     (''225101'', ''Transportation Equipment'', ASSET, MONEY, DEBIT, ''USD'', ''FA_VEHICLES''),
     (''282621'', ''Accum. Dep - Office Equipment'', ASSET, MONEY, CREDIT, ''USD'', ''FA_ACCUM_DEP_OFFICE''),
     (''282622'', ''Accum. Dep - Computer'', ASSET, MONEY, CREDIT, ''USD'', ''FA_ACCUM_DEP_COMPUTER''),
     (''282631'', ''Accum. Dep - Furniture'', ASSET, MONEY, CREDIT, ''USD'', ''FA_ACCUM_DEP_FURNITURE''),
     (''282611'', ''Accum. Dep - Installations'', ASSET, MONEY, CREDIT, ''USD'', ''FA_ACCUM_DEP_INSTALLATIONS''),
     (''282521'', ''Accum. Dep - Vehicles'', ASSET, MONEY, CREDIT, ''USD'', ''FA_ACCUM_DEP_VEHICLES''),
     (''651262'', ''Depreciation - Office&Computer'', EXPENSE, MONEY, DEBIT, ''USD'', ''DEP_EXPENSE_OFFICE''),
     (''651263'', ''Depreciation - Furniture'', EXPENSE, MONEY, DEBIT, ''USD'', ''DEP_EXPENSE_FURNITURE''),
     (''651261'', ''Depreciation - Installations'', EXPENSE, MONEY, DEBIT, ''USD'', ''DEP_EXPENSE_INSTALLATIONS''),
     (''651251'', ''Depreciation - Vehicles'', EXPENSE, MONEY, DEBIT, ''USD'', ''DEP_EXPENSE_VEHICLES''),
     (''781200'', ''Gain on Asset Disposal'', INCOME, MONEY, CREDIT, ''USD'', ''FA_DISPOSAL_GAIN''),
     (''681200'', ''Net Book Value of Disposed Assets'', EXPENSE, MONEY, DEBIT, ''USD'', ''FA_DISPOSAL_NBV'')]"

definition sys_key :: "system_account \<Rightarrow> string" where
  "sys_key a = (case a of (_, _, _, _, _, _, key) \<Rightarrow> key)"

definition sys_code :: "system_account \<Rightarrow> string" where
  "sys_code a = (case a of (code, _) \<Rightarrow> code)"

text \<open>A new row of the chart: the codes and the system keys are unique columns.\<close>

definition add_account :: "gl_account \<Rightarrow> db \<Rightarrow> (gl_account \<times> db) res" where
  "add_account a d =
     raise_if (acc_code a \<in> set (map acc_code (gl_accounts d))) (IntegrityError ''gl_accounts.code'')
    (raise_if (acc_system_key a \<noteq> None \<and> acc_system_key a \<in> set (map acc_system_key (gl_accounts d)))
       (IntegrityError ''gl_accounts.system_key'')
    (let (i, d) = fresh_uid d; a = a\<lparr>acc_id := i\<rparr> in Inr (a, d\<lparr>gl_accounts := gl_accounts d @ [a]\<rparr>)))"

definition system_account_row :: "system_account \<Rightarrow> gl_account" where
  "system_account_row a = (case a of (code, name, ty, denom, normal, currency, key) \<Rightarrow>
     \<lparr>acc_id = [], acc_code = code, acc_name = name, acc_type = ty, acc_parent_id = None,
      acc_denomination = denom, acc_currency = (if denom = METAL then None else Some currency),
      acc_system_key = Some key, acc_normal_balance = normal, acc_is_active = True\<rparr>)"

definition seed_step :: "string list \<Rightarrow> system_account \<Rightarrow> nat \<times> db \<Rightarrow> (nat \<times> db) res" where
  "seed_step existing a s = (case s of (created, d) \<Rightarrow>
     if sys_key a \<in> set existing then Inr (created, d)
     else bnd (add_account (system_account_row a) d) (\<lambda>(_, d). Inr (Suc created, d)))"

definition existing_keys :: "db \<Rightarrow> string list" where
  "existing_keys d = filter (\<lambda>k. k \<noteq> []) (map the (filter (\<lambda>k. k \<noteq> None) (map acc_system_key (gl_accounts d))))"

definition seed_chart_of_accounts :: "db \<Rightarrow> (nat \<times> db) res" where
  "seed_chart_of_accounts d = fold_res (seed_step (existing_keys d)) SYSTEM_ACCOUNTS (0, d)"

section \<open>Is the chart usable?\<close>

definition account_problem :: "db \<Rightarrow> string \<Rightarrow> string option" where
  "account_problem d key =
     (case find (\<lambda>a. acc_system_key a = Some key) (gl_accounts d) of
        None \<Rightarrow> Some ''MISSING''
      | Some a \<Rightarrow> if acc_is_active a then None else Some ''INACTIVE'')"

definition unusable_system_accounts :: "db \<Rightarrow> (string \<times> string) list" where
  "unusable_system_accounts d =
     concat (map (\<lambda>a. case account_problem d (sys_key a) of None \<Rightarrow> [] | Some p \<Rightarrow> [(sys_key a, p)]) SYSTEM_ACCOUNTS)"

definition lower_status :: "string \<Rightarrow> string" where
  "lower_status s = (if s = ''MISSING'' then ''missing'' else if s = ''INACTIVE'' then ''inactive'' else s)"

definition describe_unusable_accounts :: "(string \<times> string) list \<Rightarrow> nat \<Rightarrow> string" where
  "describe_unusable_accounts problems n =
     comma_join (concat (map (\<lambda>status.
       let keys = map fst (filter (\<lambda>kv. snd kv = status) problems) in
       if keys = [] then []
       else [str_int (int (length keys)) @ '' '' @ lower_status status @ '' (''
             @ comma_join (take n keys) @ (if n < length keys then '', ...'' else []) @ '')''])
       [''MISSING'', ''INACTIVE'']))"

section \<open>Opening balances\<close>

definition key_to_account_id :: "db \<Rightarrow> string \<Rightarrow> string res" where
  "key_to_account_id d system_key =
     bnd (scalar_one (\<lambda>a. acc_system_key a = Some system_key) (gl_accounts d)) (\<lambda>a. Inr (acc_id a))"

record cash_line =
  cl_account_id :: "string option"
  cl_system_key :: "string option"
  cl_amount :: dec

text \<open>What the loops accumulate: the lines, the equity plug, the metal net per karat.\<close>

record opening_acc =
  oa_lines :: "gl_line list"
  oa_equity :: dec
  oa_metal :: "(string \<times> dec) list"

definition oa_add :: "gl_line \<Rightarrow> dec \<Rightarrow> (string \<times> dec) option \<Rightarrow> opening_acc \<Rightarrow> opening_acc" where
  "oa_add l m metal s =
     \<lparr>oa_lines = oa_lines s @ [l], oa_equity = oa_equity s + m,
      oa_metal = (case metal of None \<Rightarrow> oa_metal s | Some (k, g) \<Rightarrow> dict_upd k 0 (\<lambda>v. v + g) (oa_metal s))\<rparr>"

definition opening_lot :: "string \<Rightarrow> gold_lot \<Rightarrow> opening_acc \<Rightarrow> opening_acc" where
  "opening_lot inva lot =
     oa_add (metal_dr inva (lot_cost_basis_usd lot) (lot_weight_remaining_grams lot) (karat_value (lot_karat lot))
               (''opening lot '' @ lot_id lot))
       (lot_cost_basis_usd lot) (Some (karat_value (lot_karat lot), lot_weight_remaining_grams lot))"

definition fg_cost :: "dec \<Rightarrow> dec \<Rightarrow> karat \<Rightarrow> int \<Rightarrow> dec option \<Rightarrow> dec" where
  "fg_cost rate weight k qty tracked =
     (case tracked of
        Some c \<Rightarrow> q_money (dmul c (of_int qty))
      | None \<Rightarrow> q_money (dmul (dmul (dmul rate weight) (KARAT_PURITY k)) (of_int qty)))"

text \<open>Finished goods on hand: a product, a coin type, an ounce type.\<close>

definition opening_goods :: "string \<Rightarrow> string \<Rightarrow> karat \<Rightarrow> dec \<Rightarrow> int \<Rightarrow> dec \<Rightarrow> opening_acc \<Rightarrow> opening_acc" where
  "opening_goods inva memo k weight qty cost =
     (let grams = dmul weight (of_int qty) in
      oa_add (metal_dr inva cost grams (karat_value k) memo) cost (Some (karat_value k, grams)))"

definition opening_product :: "string \<Rightarrow> dec \<Rightarrow> product \<Rightarrow> opening_acc \<Rightarrow> opening_acc" where
  "opening_product inva rate p =
     opening_goods inva (''opening product '' @ pr_code p) (pr_karat p) (pr_weight_grams p) (pr_on_hand_qty p)
       (fg_cost rate (pr_weight_grams p) (pr_karat p) (pr_on_hand_qty p) (pr_cost_basis_usd p))"

definition opening_coin :: "string \<Rightarrow> dec \<Rightarrow> coin_type \<Rightarrow> opening_acc \<Rightarrow> opening_acc" where
  "opening_coin inva rate c =
     opening_goods inva (''opening coin '' @ co_code c) (co_karat c) (co_weight_grams c) (co_on_hand_qty c)
       (fg_cost rate (co_weight_grams c) (co_karat c) (co_on_hand_qty c) None)"

definition opening_ounce :: "string \<Rightarrow> dec \<Rightarrow> ounce_type \<Rightarrow> opening_acc \<Rightarrow> opening_acc" where
  "opening_ounce inva rate z =
     opening_goods inva (''opening ounce '' @ oz_code z) (oz_karat z) (oz_weight_grams z) (oz_on_hand_qty z)
       (fg_cost rate (oz_weight_grams z) (oz_karat z) (oz_on_hand_qty z) None)"

definition opening_supplier :: "string \<Rightarrow> string \<Rightarrow> supplier_balance \<Rightarrow> opening_acc \<Rightarrow> opening_acc" where
  "opening_supplier ap metal_ap b s =
     (if sb_balance b = 0 then s
      else case sb_unit b of
        DEBT_CASH \<Rightarrow> oa_add (money_cr ap (sb_balance b) ''opening AP'') (- sb_balance b) None s
      | DEBT_GOLD \<Rightarrow> let k = (if sb_karat b = [] then ''K21'' else sb_karat b) in
          oa_add (metal_cr metal_ap 0 (sb_balance b) k ''opening metal AP'') 0 (Some (k, - sb_balance b)) s)"

definition cash_account :: "db \<Rightarrow> cash_line \<Rightarrow> string res" where
  "cash_account d cl =
     (case cl_account_id cl of
        Some i \<Rightarrow> if i \<noteq> [] then Inr i
                  else (case cl_system_key cl of None \<Rightarrow> Inl (KeyError ''system_key'') | Some k \<Rightarrow> key_to_account_id d k)
      | None \<Rightarrow> (case cl_system_key cl of None \<Rightarrow> Inl (KeyError ''system_key'') | Some k \<Rightarrow> key_to_account_id d k))"

definition opening_cash :: "db \<Rightarrow> cash_line \<Rightarrow> opening_acc \<Rightarrow> opening_acc res" where
  "opening_cash d cl s =
     bnd (cash_account d cl) (\<lambda>i. Inr (oa_add (money_dr i (cl_amount cl) ''opening cash'') (cl_amount cl) None s))"

text \<open>The plugs to opening equity: money, and each karat's grams.\<close>

definition metal_plugs :: "string \<Rightarrow> (string \<times> dec) list \<Rightarrow> gl_line list" where
  "metal_plugs equity m = concat (map (\<lambda>(k, net).
          if 0 < net then [metal_cr equity 0 net k ''opening metal equity'']
          else if net < 0 then [metal_dr equity 0 (- net) k ''opening metal equity (net owed)'']
          else []) m)"

definition opening_plugs :: "string \<Rightarrow> opening_acc \<Rightarrow> gl_line list" where
  "opening_plugs equity s =
     (let m = oa_equity s;
          line = \<lambda>memo. GLLine equity (Some DUAL) memo in
      (if 0 < m then [(line ''opening balance equity'')\<lparr>ln_base_credit := m, ln_money_credit := m\<rparr>]
       else if m < 0 then [(line ''opening balance equity'')\<lparr>ln_base_debit := - m, ln_money_debit := - m\<rparr>]
       else [])
      @ metal_plugs equity (oa_metal s))"

definition on_hand_product :: "product \<Rightarrow> bool" where
  "on_hand_product p \<longleftrightarrow> pr_status p \<in> {AVAILABLE, RESERVED} \<and> 0 < pr_on_hand_qty p"

definition opening_lines :: "cash_line list \<Rightarrow> dec option \<Rightarrow> db \<Rightarrow> gl_line list res" where
  "opening_lines cash_lines gold_rate d =
     bnd (key_to_account_id d ''METAL_INVENTORY'') (\<lambda>inva.
     bnd (key_to_account_id d ''METAL_AP'') (\<lambda>metal_ap.
     bnd (key_to_account_id d ''AP'') (\<lambda>ap.
     bnd (key_to_account_id d ''OPENING_BALANCE_EQUITY'') (\<lambda>equity.
     let rate = (case gold_rate of Some r \<Rightarrow> r | None \<Rightarrow> 0);
         s = \<lparr>oa_lines = [], oa_equity = 0, oa_metal = []\<rparr>;
         s = fold (opening_lot inva) (filter (\<lambda>l. \<not> lot_is_depleted l) (gold_lots d)) s;
         s = fold (opening_product inva rate) (filter on_hand_product (products d)) s;
         s = fold (opening_coin inva rate) (filter (\<lambda>c. 0 < co_on_hand_qty c) (coin_types d)) s;
         s = fold (opening_ounce inva rate) (filter (\<lambda>z. 0 < oz_on_hand_qty z) (ounce_types d)) s;
         s = fold (opening_supplier ap metal_ap) (supplier_balances d) s in
     bnd (fold_res (opening_cash d) cash_lines s) (\<lambda>s.
     Inr (oa_lines s @ opening_plugs equity s))))))"

definition post_opening_balances ::
    "(string \<Rightarrow> string) \<Rightarrow> date \<Rightarrow> string \<Rightarrow> cash_line list \<Rightarrow> dec option \<Rightarrow> db \<Rightarrow> (gl_journal_entry \<times> db) res" where
  "post_opening_balances sha as_of actor cash_lines gold_rate d =
     bnd (opening_lines cash_lines gold_rate d) (\<lambda>lines.
     post_entry sha (post_args as_of ''Opening balances'' SOURCE_OPENING None lines actor) d)"

section \<open>Seeding\<close>

lemma add_account_frame:
  assumes "add_account a d = Inr (b, d')"
  shows "d' = d\<lparr>uid_next := Suc (uid_next d), gl_accounts := gl_accounts d @ [b]\<rparr>" "b = a\<lparr>acc_id := uid (uid_next d)\<rparr>"
  using assms by (auto simp: add_account_def res_simps Let_def fresh_uid_def)

lemma add_account_same_books:
  assumes "add_account a d = Inr (b, d')"
  shows "same_books d d'"
  unfolding same_books_def add_account_frame [OF assms]
  by (intro conjI exI [of _ "[uid_next d]"]) auto

lemma seed_step_simp: "seed_step ex a (n, d) = (if sys_key a \<in> set ex then Inr (n, d)
     else bnd (add_account (system_account_row a) d) (\<lambda>(_, d). Inr (Suc n, d)))"
  by (simp add: seed_step_def)

lemma seed_fold_same_books: "fold_res (seed_step ex) as (n, d) = Inr (m, d') \<Longrightarrow> same_books d d'"
proof (induction "as" arbitrary: n d)
  case (Cons a "as")
  then show ?case
    by (auto simp: seed_step_simp res_simps split: if_splits
        intro: same_books_trans dest!: add_account_same_books)
qed (simp add: same_books_refl)

lemma seed_same_books: "seed_chart_of_accounts d = Inr (n, d') \<Longrightarrow> same_books d d'"
  unfolding seed_chart_of_accounts_def by (rule seed_fold_same_books)

lemma seed_fold_skip: "sys_key ` set as \<subseteq> set ex \<Longrightarrow> fold_res (seed_step ex) as (n, d) = Inr (n, d)"
  by (induction "as" arbitrary: n) (auto simp: seed_step_simp)

text \<open>What seeding adds: an active account for each missing key, with its code, type and denomination.\<close>

lemma seed_fold_adds:
  assumes "fold_res (seed_step ex) as (n, d) = Inr (m, d')"
  shows "\<exists>bs. gl_accounts d' = gl_accounts d @ bs \<and> m = n + length bs
    \<and> map (\<lambda>b. b\<lparr>acc_id := []\<rparr>) bs = map system_account_row (filter (\<lambda>a. sys_key a \<notin> set ex) as)"
  using assms
proof (induction "as" arbitrary: n d)
  case (Cons a "as")
  show ?case
  proof (cases "sys_key a \<in> set ex")
    case True
    with Cons show ?thesis by (auto simp: seed_step_simp)
  next
    case False
    with Cons.prems obtain b d1 where b: "add_account (system_account_row a) d = Inr (b, d1)"
      and r: "fold_res (seed_step ex) as (Suc n, d1) = Inr (m, d')"
      by (auto simp: seed_step_simp res_simps)
    note fr = add_account_frame [OF b]
    obtain bs where "gl_accounts d' = gl_accounts d1 @ bs" "m = Suc n + length bs"
      "map (\<lambda>b. b\<lparr>acc_id := []\<rparr>) bs = map system_account_row (filter (\<lambda>a. sys_key a \<notin> set ex) as)"
      using Cons.IH [OF r] by blast
    then show ?thesis
      using False fr by (intro exI [of _ "b # bs"]) (simp add: system_account_row_def split: prod.splits)
  qed
qed simp

lemma seed_adds:
  assumes "seed_chart_of_accounts d = Inr (n, d')"
  obtains bs where "gl_accounts d' = gl_accounts d @ bs" "n = length bs"
    "map (\<lambda>b. b\<lparr>acc_id := []\<rparr>) bs = map system_account_row (filter (\<lambda>a. sys_key a \<notin> set (existing_keys d)) SYSTEM_ACCOUNTS)"
  using seed_fold_adds [of "existing_keys d" SYSTEM_ACCOUNTS 0 d n d'] assms by (auto simp: seed_chart_of_accounts_def)

lemma sys_key_nonempty: "a \<in> set SYSTEM_ACCOUNTS \<Longrightarrow> sys_key a \<noteq> []"
proof -
  have "list_all (\<lambda>a. sys_key a \<noteq> []) SYSTEM_ACCOUNTS" by (simp add: SYSTEM_ACCOUNTS_def sys_key_def)
  then show "a \<in> set SYSTEM_ACCOUNTS \<Longrightarrow> sys_key a \<noteq> []" by (simp add: list_all_iff)
qed

lemma existing_keys_iff: "k \<noteq> [] \<Longrightarrow> k \<in> set (existing_keys d) \<longleftrightarrow> Some k \<in> acc_system_key ` set (gl_accounts d)"
proof -
  assume k: "k \<noteq> []"
  have "k \<in> set (existing_keys d) \<longleftrightarrow> k \<in> the ` {x \<in> acc_system_key ` set (gl_accounts d). x \<noteq> None}"
    using k by (simp add: existing_keys_def)
  also have "k \<in> the ` {x \<in> S. x \<noteq> None} \<longleftrightarrow> Some k \<in> S" for S by force
  finally show ?thesis .
qed

lemma system_account_row_key: "acc_system_key (system_account_row a) = Some (sys_key a)" "acc_is_active (system_account_row a)"
  by (simp_all add: system_account_row_def sys_key_def split: prod.splits)

text \<open>After seeding every system key has an account, and seeding again creates none.\<close>

lemma seed_complete:
  assumes "seed_chart_of_accounts d = Inr (n, d')" "a \<in> set SYSTEM_ACCOUNTS"
  shows "Some (sys_key a) \<in> acc_system_key ` set (gl_accounts d')"
proof -
  obtain bs where bs: "gl_accounts d' = gl_accounts d @ bs"
    "map (\<lambda>b. b\<lparr>acc_id := []\<rparr>) bs = map system_account_row (filter (\<lambda>a. sys_key a \<notin> set (existing_keys d)) SYSTEM_ACCOUNTS)"
    by (rule seed_adds [OF assms(1)])
  have "map acc_system_key bs = map acc_system_key (map (\<lambda>b. b\<lparr>acc_id := []\<rparr>) bs)" by (simp add: comp_def)
  also have "\<dots> = map (\<lambda>a. Some (sys_key a)) (filter (\<lambda>a. sys_key a \<notin> set (existing_keys d)) SYSTEM_ACCOUNTS)"
    unfolding bs(2) map_map comp_def system_account_row_key ..
  finally have "set (map acc_system_key bs) = set (map (\<lambda>a. Some (sys_key a)) (filter (\<lambda>a. sys_key a \<notin> set (existing_keys d)) SYSTEM_ACCOUNTS))"
    by (rule arg_cong)
  then have keys: "acc_system_key ` set bs = (\<lambda>a. Some (sys_key a)) ` set (filter (\<lambda>a. sys_key a \<notin> set (existing_keys d)) SYSTEM_ACCOUNTS)"
    by (simp only: set_map)
  show ?thesis
  proof (cases "sys_key a \<in> set (existing_keys d)")
    case True
    then show ?thesis using existing_keys_iff [OF sys_key_nonempty [OF assms(2)], of d] by (auto simp: bs(1))
  next
    case False
    then have "Some (sys_key a) \<in> acc_system_key ` set bs" using assms(2) unfolding keys by auto
    then show ?thesis by (auto simp: bs(1))
  qed
qed

lemma seed_idempotent:
  assumes "seed_chart_of_accounts d = Inr (n, d')"
  shows "seed_chart_of_accounts d' = Inr (0, d')"
  unfolding seed_chart_of_accounts_def
proof (rule seed_fold_skip)
  show "sys_key ` set SYSTEM_ACCOUNTS \<subseteq> set (existing_keys d')"
    using seed_complete [OF assms] existing_keys_iff sys_key_nonempty by blast
qed

lemma seeded_not_missing:
  assumes "seed_chart_of_accounts d = Inr (n, d')"
  shows "(k, ''MISSING'') \<notin> set (unusable_system_accounts d')"
proof
  assume "(k, ''MISSING'') \<in> set (unusable_system_accounts d')"
  then obtain a where a: "a \<in> set SYSTEM_ACCOUNTS" "account_problem d' (sys_key a) = Some ''MISSING''"
    by (auto simp: unusable_system_accounts_def split: option.splits)
  then have "find (\<lambda>b. acc_system_key b = Some (sys_key a)) (gl_accounts d') = None"
    by (auto simp: account_problem_def split: option.splits if_splits)
  with seed_complete [OF assms a(1)] show False by (auto simp: find_None_iff)
qed

section \<open>The opening lines balance\<close>

text \<open>What the accumulator tells of its lines.\<close>

definition oa_inv :: "opening_acc \<Rightarrow> bool" where
  "oa_inv s \<longleftrightarrow> oa_equity s = sum_of (\<lambda>l. ln_base_debit l - ln_base_credit l) (oa_lines s)
     \<and> (\<forall>k. dict_get0 (oa_metal s) k
           = sum_of (\<lambda>l. ln_metal_debit_grams l - ln_metal_credit_grams l) (filter (\<lambda>l. ln_karat l = Some k) (oa_lines s)))
     \<and> (\<forall>l \<in> set (oa_lines s). at_scale 2 (ln_base_debit l) \<and> at_scale 2 (ln_base_credit l)
          \<and> at_scale 3 (ln_metal_debit_grams l) \<and> at_scale 3 (ln_metal_credit_grams l)
          \<and> (ln_karat l = None \<longrightarrow> ln_metal_debit_grams l = 0 \<and> ln_metal_credit_grams l = 0))
     \<and> distinct (map fst (oa_metal s))"

lemma oa_inv_start: "oa_inv \<lparr>oa_lines = [], oa_equity = 0, oa_metal = []\<rparr>"
  by (simp add: oa_inv_def dict_get0_def)

lemma dict_get0_upd: "dict_get0 (dict_upd k 0 f m) j = (if j = k then f (dict_get0 m k) else dict_get0 m j)"
  by (auto simp: dict_get0_def map_of_dict_upd split: option.splits)

lemma oa_add_money:
  assumes "oa_inv s" "ln_base_debit l - ln_base_credit l = m" "at_scale 2 (ln_base_debit l)" "at_scale 2 (ln_base_credit l)"
    "ln_metal_debit_grams l = 0" "ln_metal_credit_grams l = 0" "ln_karat l = None"
  shows "oa_inv (oa_add l m None s)"
  using assms by (auto simp: oa_inv_def oa_add_def)

lemma oa_add_metal:
  assumes "oa_inv s" "ln_base_debit l - ln_base_credit l = m" "at_scale 2 (ln_base_debit l)" "at_scale 2 (ln_base_credit l)"
    "ln_metal_debit_grams l - ln_metal_credit_grams l = g" "at_scale 3 (ln_metal_debit_grams l)"
    "at_scale 3 (ln_metal_credit_grams l)" "ln_karat l = Some k"
  shows "oa_inv (oa_add l m (Some (k, g)) s)"
  using assms by (auto simp: oa_inv_def oa_add_def dict_get0_upd dict_upd_distinct)

text \<open>The stored amounts are in cents and milligrams: what the columns hold.\<close>

definition stock_in_scale :: "db \<Rightarrow> bool" where
  "stock_in_scale d \<longleftrightarrow>
     (\<forall>l \<in> set (gold_lots d). at_scale 2 (lot_cost_basis_usd l) \<and> at_scale 3 (lot_weight_remaining_grams l))
     \<and> (\<forall>p \<in> set (products d). at_scale 3 (dmul (pr_weight_grams p) (of_int (pr_on_hand_qty p))))
     \<and> (\<forall>c \<in> set (coin_types d). at_scale 3 (dmul (co_weight_grams c) (of_int (co_on_hand_qty c))))
     \<and> (\<forall>z \<in> set (ounce_types d). at_scale 3 (dmul (oz_weight_grams z) (of_int (oz_on_hand_qty z))))
     \<and> (\<forall>b \<in> set (supplier_balances d). (sb_unit b = DEBT_CASH \<longrightarrow> at_scale 2 (sb_balance b))
          \<and> (sb_unit b = DEBT_GOLD \<longrightarrow> at_scale 3 (sb_balance b)))"

lemma fg_cost_scale: "at_scale 2 (fg_cost r w k q t)"
  by (simp add: fg_cost_def split: option.splits)

lemma opening_goods_inv:
  "oa_inv s \<Longrightarrow> at_scale 2 cost \<Longrightarrow> at_scale 3 (dmul w (of_int q)) \<Longrightarrow> oa_inv (opening_goods inva memo k w q cost s)"
  by (auto simp: opening_goods_def Let_def metal_dr_def GLLine_def intro!: oa_add_metal)

lemma fold_oa_inv: "(\<And>x s. x \<in> set xs \<Longrightarrow> oa_inv s \<Longrightarrow> oa_inv (f x s)) \<Longrightarrow> oa_inv s \<Longrightarrow> oa_inv (fold f xs s)"
  by (induction xs arbitrary: s) auto

lemma opening_supplier_inv:
  assumes "oa_inv s" "sb_unit b = DEBT_CASH \<longrightarrow> at_scale 2 (sb_balance b)" "sb_unit b = DEBT_GOLD \<longrightarrow> at_scale 3 (sb_balance b)"
  shows "oa_inv (opening_supplier ap m b s)"
proof (cases "sb_unit b")
  case DEBT_CASH
  have "oa_inv (oa_add (money_cr ap (sb_balance b) ''opening AP'') (- sb_balance b) None s)"
    by (rule oa_add_money) (use assms DEBT_CASH in \<open>simp_all add: money_cr_def GLLine_def\<close>)
  then show ?thesis using assms(1) by (simp add: opening_supplier_def DEBT_CASH)
next
  case DEBT_GOLD
  have "oa_inv (oa_add (metal_cr m 0 (sb_balance b) k ''opening metal AP'') 0 (Some (k, - sb_balance b)) s)" for k
    by (rule oa_add_metal) (use assms DEBT_GOLD in \<open>simp_all add: metal_cr_def GLLine_def\<close>)
  then show ?thesis using assms(1) by (simp add: opening_supplier_def DEBT_GOLD Let_def)
qed

lemma opening_cash_inv:
  assumes "oa_inv s" "opening_cash d cl s = Inr s'" "at_scale 2 (cl_amount cl)"
  shows "oa_inv s'"
  using assms by (auto simp: opening_cash_def res_simps money_dr_def GLLine_def intro!: oa_add_money)

text \<open>The plugs close both dimensions.\<close>

lemma sum_of_filter_map_of:
  assumes "distinct (map fst m)"
  shows "sum_of snd (filter (\<lambda>kv. fst kv = k) m) = dict_get0 m k"
  using assms by (induction m) (auto simp: dict_get0_def image_iff filter_empty_conv split: option.splits)

lemma plug_metal:
  "sum_of (\<lambda>l. ln_metal_debit_grams l - ln_metal_credit_grams l) (filter (\<lambda>l. ln_karat l = k) (metal_plugs equity m))
      = - sum_of snd (filter (\<lambda>kv. Some (fst kv) = k) m)"
  "sum_of ln_base_debit (metal_plugs equity m) = 0" "sum_of ln_base_credit (metal_plugs equity m) = 0"
  unfolding metal_plugs_def by (induction m) (auto simp: metal_cr_def metal_dr_def GLLine_def)

lemma opening_plugs_balance:
  assumes "oa_inv s"
  shows "rounded_balanced (oa_lines s @ opening_plugs equity s)"
proof -
  let ?ls = "oa_lines s" and ?pl = "opening_plugs equity s"
  let ?g = "\<lambda>l. ln_metal_debit_grams l - ln_metal_credit_grams l"
  have inv: "oa_equity s = sum_of (\<lambda>l. ln_base_debit l - ln_base_credit l) ?ls"
    "\<And>k. dict_get0 (oa_metal s) k = sum_of ?g (filter (\<lambda>l. ln_karat l = Some k) ?ls)"
    "distinct (map fst (oa_metal s))"
    "\<And>l. l \<in> set ?ls \<Longrightarrow> at_scale 2 (ln_base_debit l) \<and> at_scale 2 (ln_base_credit l)
        \<and> at_scale 3 (ln_metal_debit_grams l) \<and> at_scale 3 (ln_metal_credit_grams l)
        \<and> (ln_karat l = None \<longrightarrow> ln_metal_debit_grams l = 0 \<and> ln_metal_credit_grams l = 0)"
    using assms by (auto simp: oa_inv_def)
  have eq2: "at_scale 2 (oa_equity s)"
    unfolding inv(1) by (intro at_scale_sum_of at_scale_diff) (use inv(4) in auto)
  have met3: "at_scale 3 net" if "(k, net) \<in> set (oa_metal s)" for k net
  proof -
    have "net = dict_get0 (oa_metal s) k" using that inv(3) by (simp add: dict_get0_def)
    also have "at_scale 3 \<dots>" unfolding inv(2) by (intro at_scale_sum_of at_scale_diff) (use inv(4) in auto)
    finally show ?thesis .
  qed
  have sc: "at_scale 2 (ln_base_debit l) \<and> at_scale 2 (ln_base_credit l)
      \<and> at_scale 3 (ln_metal_debit_grams l) \<and> at_scale 3 (ln_metal_credit_grams l)" if "l \<in> set (?ls @ ?pl)" for l
    using that inv(4) eq2 met3
    by (auto simp: opening_plugs_def metal_plugs_def Let_def GLLine_def metal_cr_def metal_dr_def at_scale_uminus split: if_splits)
  have norm: "normalize_line_decimals l = l\<lparr>ln_money_debit := q_money (ln_money_debit l),
      ln_money_credit := q_money (ln_money_credit l), ln_fx_rate := q_fx (ln_fx_rate l)\<rparr>" if "l \<in> set (?ls @ ?pl)" for l
    using sc [OF that] by (simp add: normalize_line_decimals_def)
  have rb: "rounded_balanced xs \<longleftrightarrow> balanced xs" if "set xs \<subseteq> set (?ls @ ?pl)" for xs
  proof -
    have n: "map normalize_line_decimals xs = map (\<lambda>l. l\<lparr>ln_money_debit := q_money (ln_money_debit l),
      ln_money_credit := q_money (ln_money_credit l), ln_fx_rate := q_fx (ln_fx_rate l)\<rparr>) xs"
      using norm that by (intro map_cong) auto
    show ?thesis unfolding rounded_balanced_def n balanced_def by (simp add: sum_of_map filter_map comp_def)
  qed
  have money: "sum_of (\<lambda>l. ln_base_debit l - ln_base_credit l) ?pl = - oa_equity s"
    using plug_metal(2,3) [of equity "oa_metal s"]
    by (auto simp: opening_plugs_def Let_def GLLine_def sum_of_diff)
  have base: "sum_of ln_base_debit (?ls @ ?pl) = sum_of ln_base_credit (?ls @ ?pl)"
    using money inv(1) by (simp add: sum_of_diff)
  have mpl: "sum_of ?g (filter (\<lambda>l. ln_karat l = k) ?pl) = - sum_of snd (filter (\<lambda>kv. Some (fst kv) = k) (oa_metal s))" for k
    using plug_metal(1) [of k equity "oa_metal s"] by (auto simp: opening_plugs_def Let_def GLLine_def)
  have met: "sum_of ?g (filter (\<lambda>l. ln_karat l = k) (?ls @ ?pl)) = 0" for k
  proof (cases k)
    case None
    have "sum_of ?g (filter (\<lambda>l. ln_karat l = None) ?ls) = 0" by (rule sum_of_zero) (use inv(4) in auto)
    then show ?thesis using mpl [of None] by (simp add: None)
  next
    case (Some j)
    then show ?thesis using mpl [of "Some j"] inv(2) [of j] sum_of_filter_map_of [OF inv(3), of j] by simp
  qed
  have "balanced (?ls @ ?pl)"
    using base met unfolding balanced_def sum_of_diff by fastforce
  then show ?thesis using rb [OF order_refl] by simp
qed

lemma opening_lines_balanced:
  assumes "opening_lines cash_lines rate d = Inr lines" "stock_in_scale d" "\<And>cl. cl \<in> set cash_lines \<Longrightarrow> at_scale 2 (cl_amount cl)"
  shows "rounded_balanced lines"
proof -
  from assms(1) obtain inva mp ap eq r s0 s where
    s0: "s0 = fold (opening_supplier ap mp) (supplier_balances d)
       (fold (opening_ounce inva r) (filter (\<lambda>z. 0 < oz_on_hand_qty z) (ounce_types d))
       (fold (opening_coin inva r) (filter (\<lambda>c. 0 < co_on_hand_qty c) (coin_types d))
       (fold (opening_product inva r) (filter on_hand_product (products d))
       (fold (opening_lot inva) (filter (\<lambda>l. \<not> lot_is_depleted l) (gold_lots d))
         \<lparr>oa_lines = [], oa_equity = 0, oa_metal = []\<rparr>))))"
    and s: "fold_res (opening_cash d) cash_lines s0 = Inr s" and l: "lines = oa_lines s @ opening_plugs eq s"
    by (auto simp: opening_lines_def res_simps Let_def)
  have lot: "oa_inv (opening_lot inva x t)" if "oa_inv t" "at_scale 2 (lot_cost_basis_usd x)" "at_scale 3 (lot_weight_remaining_grams x)" for x t
    unfolding opening_lot_def by (rule oa_add_metal) (use that in \<open>simp_all add: metal_dr_def GLLine_def\<close>)
  have "oa_inv s0"
    unfolding s0 using assms(2)
    by (intro fold_oa_inv)
      (auto simp: opening_product_def opening_coin_def opening_ounce_def stock_in_scale_def
        intro: lot opening_supplier_inv opening_goods_inv fg_cost_scale oa_inv_start)
  then have "oa_inv s" by (rule fold_res_inv [OF s]) (use opening_cash_inv assms(3) in blast)
  then show ?thesis unfolding l by (rule opening_plugs_balance)
qed

end
