(* ===== verification/Bank.thy ===== *)
theory Bank
  imports GlPostings CoaSeed
begin

text \<open>
  \<open>app/core/bank.py\<close> and the reads of \<open>app/api/bank.py\<close>: bank accounts and their codes,
  transfers, statement import, matching and reconciliation. The lemmas show that the
  search for a free code ends with the smallest free one, which no account has; that a
  transfer's lines balance with the FX residual on the right side; and that suggested
  matches are exact, within the window and one to one.
\<close>

section \<open>Bank accounts\<close>

definition SEEDED_MAP :: "(string \<times> bank_account_type) list" where
  "SEEDED_MAP = [(''CASH'', BA_CASH), (''CASH_LBP'', BA_CASH), (''BANK'', BA_BANK),
     (''CASH_PETTY'', BA_PETTY_CASH), (''CREDIT_CARD_CLEARING'', BA_BANK)]"

fun CODE_BANDS :: "bank_account_type \<Rightarrow> int \<times> int" where
  "CODE_BANDS BA_BANK = (512200, 512999)"
| "CODE_BANDS BA_CASH = (530000, 530999)"
| "CODE_BANDS BA_PETTY_CASH = (530000, 530999)"

text \<open>\<open>c.isdigit()\<close>\<close>

definition is_digit :: "char \<Rightarrow> bool" where
  "is_digit c \<longleftrightarrow> (48 :: int) \<le> of_char c \<and> of_char c \<le> (57 :: int)"

definition isdigit :: "string \<Rightarrow> bool" where
  "isdigit s \<longleftrightarrow> s \<noteq> [] \<and> list_all is_digit s"

definition used_codes :: "db \<Rightarrow> int \<Rightarrow> int \<Rightarrow> int list" where
  "used_codes d lo hi =
     map int_of_str (filter (\<lambda>c. isdigit c \<and> lo \<le> int_of_str c \<and> int_of_str c \<le> hi) (map acc_code (gl_accounts d)))"

text \<open>\<open>while n in used: n += 1\<close>\<close>

function first_free :: "int list \<Rightarrow> int \<Rightarrow> int" where
  "first_free used n = (if n \<in> set used then first_free used (n + 1) else n)"
  by auto

lemma card_above_less:
  assumes "(n :: int) \<in> set used"
  shows "card {k \<in> set used. n + 1 \<le> k} < card {k \<in> set used. n \<le> k}"
  by (rule psubset_card_mono) (use assms in force)+

termination first_free
  by (relation "measure (\<lambda>(used, n). card {k \<in> set used. n \<le> k})") (use card_above_less in simp_all)

declare first_free.simps [simp del]

definition next_bank_account_code :: "db \<Rightarrow> bank_account_type \<Rightarrow> string res" where
  "next_bank_account_code d account_type =
     (let (lo, hi) = CODE_BANDS account_type;
          n = first_free (used_codes d lo hi) (lo + 1) in
      raise_if (hi < n) (HTTPException 422 (Msg ''No free {} code in {}-{}''
         [AStr (bank_account_type_value account_type), AInt lo, AInt hi]))
      (Inr (str_int n)))"

definition add_bank_account :: "bank_account \<Rightarrow> db \<Rightarrow> (bank_account \<times> db) res" where
  "add_bank_account b d =
     raise_if (ba_gl_account_id b \<in> set (map ba_gl_account_id (bank_accounts d))) (IntegrityError ''bank_accounts.gl_account_id'')
    (let (k, d) = fresh_uid d; b = b\<lparr>ba_id := k\<rparr> in Inr (b, d\<lparr>bank_accounts := bank_accounts d @ [b]\<rparr>))"

definition new_bank_account ::
    "string \<Rightarrow> string \<Rightarrow> bank_account_type \<Rightarrow> string \<Rightarrow> string option \<Rightarrow> string option \<Rightarrow> bank_account" where
  "new_bank_account name gl_account_id account_type currency bank_name account_number =
     \<lparr>ba_id = [], ba_name = name, ba_gl_account_id = gl_account_id, ba_account_type = account_type,
      ba_currency = currency, ba_bank_name = bank_name, ba_account_number = account_number,
      ba_opening_balance = None, ba_last_reconciled_at = None, ba_is_active = True\<rparr>"

definition bank_gl_account :: "string \<Rightarrow> string \<Rightarrow> string \<Rightarrow> gl_account" where
  "bank_gl_account code name currency =
     \<lparr>acc_id = [], acc_code = code, acc_name = name, acc_type = ASSET, acc_parent_id = None, acc_denomination = MONEY,
      acc_currency = Some currency, acc_system_key = None, acc_normal_balance = DEBIT, acc_is_active = True\<rparr>"

definition create_bank_account ::
    "(string \<Rightarrow> string) \<Rightarrow> string \<Rightarrow> bank_account_type \<Rightarrow> string \<Rightarrow> string option \<Rightarrow> string option \<Rightarrow> string \<Rightarrow> db
     \<Rightarrow> (bank_account \<times> db) res" where
  "create_bank_account sha name account_type currency bank_name account_number actor d =
     bnd (next_bank_account_code d account_type) (\<lambda>code.
     bnd (add_account (bank_gl_account code name currency) d) (\<lambda>(acct, d).
     bnd (add_bank_account (new_bank_account name (acc_id acct) account_type currency bank_name account_number) d) (\<lambda>(ba, d).
     bnd (ledger_record sha EVENT_GL_ACCOUNT_CREATED actor ''bank_account'' (ba_id ba)
            (PDict [(''name'', PStr name), (''gl_code'', PStr code), (''type'', PStr (bank_account_type_value account_type))]) d)
       (\<lambda>(_, d). Inr (ba, d)))))"

definition adopt_step :: "string list \<Rightarrow> string \<times> bank_account_type \<Rightarrow> nat \<times> db \<Rightarrow> (nat \<times> db) res" where
  "adopt_step existing kt s = (case kt of (key, btype) \<Rightarrow> case s of (created, d) \<Rightarrow>
     bnd (scalar_one_or_none (\<lambda>a. acc_system_key a = Some key) (gl_accounts d)) (\<lambda>acct.
     case acct of
       None \<Rightarrow> Inr (created, d)
     | Some a \<Rightarrow>
         if acc_id a \<in> set existing then Inr (created, d)
         else bnd (add_bank_account (new_bank_account (acc_name a) (acc_id a) btype
                     (case acc_currency a of None \<Rightarrow> ''USD'' | Some c \<Rightarrow> if c = [] then ''USD'' else c) None None) d)
                (\<lambda>(_, d). Inr (Suc created, d))))"

definition adopt_seeded_accounts :: "db \<Rightarrow> (nat \<times> db) res" where
  "adopt_seeded_accounts d = fold_res (adopt_step (map ba_gl_account_id (bank_accounts d))) SEEDED_MAP (0, d)"

section \<open>Transfers\<close>

definition SOURCE_TRANSFER :: string where "SOURCE_TRANSFER = ''TRANSFER''"

definition usd_base :: "dec \<Rightarrow> string \<Rightarrow> dec \<Rightarrow> dec res" where
  "usd_base amount currency lbp_rate =
     (if currency = ''LBP'' then bnd (ddiv amount lbp_rate) (\<lambda>b. Inr (q_money b)) else Inr (q_money amount))"

definition transfer_lines ::
    "db \<Rightarrow> bank_account \<Rightarrow> bank_account \<Rightarrow> dec \<Rightarrow> dec \<Rightarrow> dec \<Rightarrow> dec \<Rightarrow> string \<Rightarrow> gl_line list res" where
  "transfer_lines d from_account to_account amount dest_amt src_base dest_base memo =
     (let main = [(GLLine (ba_gl_account_id to_account) (Some MONEY) (''transfer in: '' @ memo))
                    \<lparr>ln_base_debit := dest_base, ln_money_debit := q_money dest_amt, ln_currency := ba_currency to_account\<rparr>,
                  (GLLine (ba_gl_account_id from_account) (Some MONEY) (''transfer out: '' @ memo))
                    \<lparr>ln_base_credit := src_base, ln_money_credit := q_money amount, ln_currency := ba_currency from_account\<rparr>];
          residual = q_money (src_base - dest_base) in
      if residual \<noteq> 0
      then bnd (scalar_one (\<lambda>a. acc_system_key a = Some (if 0 < residual then ''FX_LOSS'' else ''FX_GAIN'')) (gl_accounts d)) (\<lambda>fx.
           Inr (main @ [if 0 < residual then money_dr (acc_id fx) residual ''transfer FX''
                        else money_cr (acc_id fx) (- residual) ''transfer FX'']))
      else Inr main)"

definition post_transfer ::
    "(string \<Rightarrow> string) \<Rightarrow> bank_account \<Rightarrow> bank_account \<Rightarrow> dec \<Rightarrow> dec option \<Rightarrow> string \<Rightarrow> date \<Rightarrow> string \<Rightarrow> dec \<Rightarrow> db
     \<Rightarrow> (gl_journal_entry \<times> db) res" where
  "post_transfer sha from_account to_account amount dest_amount memo entry_date actor lbp_rate d =
     raise_if (ba_id from_account = ba_id to_account) (HTTPException 422 (Msg ''Cannot transfer to the same account'' []))
    (raise_if (amount \<le> 0) (HTTPException 422 (Msg ''amount must be positive'' []))
    (let dest_amt = (case dest_amount of None \<Rightarrow> amount | Some x \<Rightarrow> x) in
     bnd (usd_base amount (ba_currency from_account) lbp_rate) (\<lambda>src_base.
     bnd (usd_base dest_amt (ba_currency to_account) lbp_rate) (\<lambda>dest_base.
     bnd (transfer_lines d from_account to_account amount dest_amt src_base dest_base memo) (\<lambda>lines.
     let (source_id, d) = fresh_uid d in
     post_entry sha (post_args entry_date (''Transfer: '' @ memo) SOURCE_TRANSFER (Some source_id) lines actor) d)))))"

definition transfer ::
    "(string \<Rightarrow> string) \<Rightarrow> string \<Rightarrow> string \<Rightarrow> dec \<Rightarrow> dec option \<Rightarrow> string \<Rightarrow> date \<Rightarrow> string \<Rightarrow> settings option \<Rightarrow> db
     \<Rightarrow> (gl_journal_entry \<times> db) res" where
  "transfer sha from_id to_id amount dest_amount memo entry_date actor st d =
     bnd (scalar_one_or_none (\<lambda>b. ba_id b = from_id) (bank_accounts d)) (\<lambda>src.
     bnd (scalar_one_or_none (\<lambda>b. ba_id b = to_id) (bank_accounts d)) (\<lambda>dst.
     case (src, dst) of
       (Some s, Some t) \<Rightarrow> post_transfer sha s t amount dest_amount memo entry_date actor
                              (case st of None \<Rightarrow> 89500 | Some x \<Rightarrow> lbp_exchange_rate x) d
     | _ \<Rightarrow> Inl (HTTPException 404 (Msg ''Account not found'' []))))"

section \<open>Statements\<close>

record statement_row =
  sr_stmt_date :: date
  sr_description :: string
  sr_amount :: dec
  sr_reference :: "string option"

definition import_row :: "string \<Rightarrow> statement_row \<Rightarrow> db \<Rightarrow> db" where
  "import_row bank_account_id r d =
     (let (k, d) = fresh_uid d in
      d\<lparr>statement_lines := statement_lines d
          @ [\<lparr>bs_id = k, bs_bank_account_id = bank_account_id, bs_stmt_date = sr_stmt_date r, bs_description = sr_description r,
              bs_amount = q_money (sr_amount r), bs_reference = sr_reference r, bs_matched_gl_line_id = None,
              bs_reconciliation_id = None, bs_status = UNMATCHED\<rparr>]\<rparr>)"

definition import_statement :: "string \<Rightarrow> statement_row list \<Rightarrow> db \<Rightarrow> nat \<times> db" where
  "import_statement bank_account_id rows d = (length rows, fold (import_row bank_account_id) rows d)"

text \<open>The account's journal lines, joined with their entries.\<close>

definition gl_lines_for_account :: "db \<Rightarrow> string \<Rightarrow> (gl_journal_line \<times> gl_journal_entry) list" where
  "gl_lines_for_account d gl_account_id =
     concat (map (\<lambda>l. map (\<lambda>e. (l, e)) (filter (\<lambda>e. je_id e = jl_entry_id l) (gl_entries d)))
       (filter (\<lambda>l. jl_account_id l = gl_account_id) (gl_lines d)))"

definition account_balance :: "db \<Rightarrow> string \<Rightarrow> dec \<times> dec" where
  "account_balance d gl_account_id =
     (let rows = filter (\<lambda>l. jl_account_id l = gl_account_id) (gl_lines d)
      in (q_money (sum_of (\<lambda>l. jl_money_debit l - jl_money_credit l) rows),
          q_money (sum_of (\<lambda>l. jl_base_debit l - jl_base_credit l) rows)))"

definition cash_position :: "db \<Rightarrow> (bank_account \<times> dec \<times> dec) list" where
  "cash_position d = map (\<lambda>b. (b, account_balance d (ba_gl_account_id b))) (filter ba_is_active (bank_accounts d))"

text \<open>A journal line that could explain a statement line.\<close>

definition explains :: "int \<Rightarrow> bank_statement_line \<Rightarrow> gl_journal_line \<times> gl_journal_entry \<Rightarrow> bool" where
  "explains window sl le = (case le of (l, e) \<Rightarrow>
     (if 0 < bs_amount sl then jl_money_debit l else jl_money_credit l) = \<bar>bs_amount sl\<bar>
     \<and> \<bar>toordinal (je_entry_date e) - toordinal (bs_stmt_date sl)\<bar> \<le> window)"

fun suggest :: "int \<Rightarrow> string list \<Rightarrow> (gl_journal_line \<times> gl_journal_entry) list \<Rightarrow> bank_statement_line list \<Rightarrow> string list
    \<Rightarrow> (bank_statement_line \<times> gl_journal_line \<times> gl_journal_entry) list" where
  "suggest window cleared cands [] used = []"
| "suggest window cleared cands (sl # sls) used =
     (case find (\<lambda>(l, e). jl_id l \<notin> set cleared \<and> jl_id l \<notin> set used \<and> explains window sl (l, e)) cands of
        None \<Rightarrow> suggest window cleared cands sls used
      | Some (l, e) \<Rightarrow> (sl, l, e) # suggest window cleared cands sls (jl_id l # used))"

definition cleared_lines :: "db \<Rightarrow> string list" where
  "cleared_lines d = map (\<lambda>s. the (bs_matched_gl_line_id s))
     (filter (\<lambda>s. bs_status s = MATCHED \<and> bs_matched_gl_line_id s \<noteq> None) (statement_lines d))"

definition suggest_matches :: "db \<Rightarrow> string \<Rightarrow> int \<Rightarrow> (bank_statement_line \<times> gl_journal_line \<times> gl_journal_entry) list res" where
  "suggest_matches d bank_account_id window =
     bnd (scalar_one (\<lambda>b. ba_id b = bank_account_id) (bank_accounts d)) (\<lambda>ba.
     Inr (suggest window (cleared_lines d) (gl_lines_for_account d (ba_gl_account_id ba))
       (filter (\<lambda>s. bs_bank_account_id s = bank_account_id \<and> bs_status s = UNMATCHED) (statement_lines d)) []))"

definition put_statement_line :: "bank_statement_line \<Rightarrow> db \<Rightarrow> db" where
  "put_statement_line s d = d\<lparr>statement_lines := upd_rows (\<lambda>x. bs_id x = bs_id s) (\<lambda>_. s) (statement_lines d)\<rparr>"

definition apply_match :: "string \<Rightarrow> string \<Rightarrow> db \<Rightarrow> db res" where
  "apply_match statement_line_id gl_line_id d =
     bnd (scalar_one (\<lambda>s. bs_id s = statement_line_id) (statement_lines d)) (\<lambda>sl.
     if bs_status sl = MATCHED
     then if bs_matched_gl_line_id sl = Some gl_line_id then Inr d
          else Inl (HTTPException 422 (Msg ''Statement line already matched to a different GL line'' []))
     else Inr (put_statement_line (sl\<lparr>bs_matched_gl_line_id := Some gl_line_id, bs_status := MATCHED\<rparr>) d))"

definition unmatch :: "string \<Rightarrow> db \<Rightarrow> db res" where
  "unmatch statement_line_id d =
     bnd (scalar_one (\<lambda>s. bs_id s = statement_line_id) (statement_lines d)) (\<lambda>sl.
     Inr (put_statement_line (sl\<lparr>bs_matched_gl_line_id := None, bs_status := UNMATCHED\<rparr>) d))"

section \<open>Reconciliation\<close>

definition start_reconciliation :: "string \<Rightarrow> date \<Rightarrow> dec \<Rightarrow> string \<Rightarrow> db \<Rightarrow> reconciliation \<times> db" where
  "start_reconciliation bank_account_id statement_date statement_balance actor d =
     (let (k, d) = fresh_uid d; (now, d) = read_clock d;
          rec = \<lparr>rc_id = k, rc_bank_account_id = bank_account_id, rc_statement_date = statement_date,
                 rc_statement_balance = q_money statement_balance, rc_gl_balance = 0, rc_cleared_amount = 0,
                 rc_difference = 0, rc_status = REC_OPEN, rc_started_by_user_id = actor, rc_started_at = now,
                 rc_completed_at = None\<rparr>;
          d = d\<lparr>reconciliations := reconciliations d @ [rec]\<rparr>;
          d = d\<lparr>statement_lines := upd_rows (\<lambda>s. bs_bank_account_id s = bank_account_id \<and> bs_stmt_date s \<le> statement_date)
                                     (\<lambda>s. s\<lparr>bs_reconciliation_id := Some k\<rparr>) (statement_lines d)\<rparr>
      in (rec, d))"

record reconciliation_report =
  rr_statement_balance :: dec
  rr_gl_balance :: dec
  rr_cleared_amount :: dec
  rr_difference :: dec
  rr_matched_count :: nat
  rr_unmatched_count :: nat

definition put_reconciliation :: "reconciliation \<Rightarrow> db \<Rightarrow> db" where
  "put_reconciliation r d = d\<lparr>reconciliations := upd_rows (\<lambda>x. rc_id x = rc_id r) (\<lambda>_. r) (reconciliations d)\<rparr>"

definition compute_reconciliation :: "string \<Rightarrow> db \<Rightarrow> (reconciliation_report \<times> db) res" where
  "compute_reconciliation reconciliation_id d =
     bnd (scalar_one (\<lambda>r. rc_id r = reconciliation_id) (reconciliations d)) (\<lambda>rec.
     bnd (scalar_one (\<lambda>b. ba_id b = rc_bank_account_id rec) (bank_accounts d)) (\<lambda>ba.
     let gl_balance = q_money (sum_of (\<lambda>(l, e). jl_money_debit l - jl_money_credit l)
           (filter (\<lambda>(l, e). je_entry_date e \<le> rc_statement_date rec) (gl_lines_for_account d (ba_gl_account_id ba))));
         here = filter (\<lambda>s. bs_reconciliation_id s = Some reconciliation_id) (statement_lines d);
         matched = filter (\<lambda>s. bs_status s = MATCHED) here;
         unmatched = filter (\<lambda>s. bs_status s = UNMATCHED) here;
         cleared_amount = q_money (sum_of bs_amount matched);
         difference = q_money (rc_statement_balance rec - gl_balance);
         rec = rec\<lparr>rc_gl_balance := gl_balance, rc_cleared_amount := cleared_amount, rc_difference := difference\<rparr>
     in Inr (\<lparr>rr_statement_balance = rc_statement_balance rec, rr_gl_balance = gl_balance,
              rr_cleared_amount = cleared_amount, rr_difference = difference,
              rr_matched_count = length matched, rr_unmatched_count = length unmatched\<rparr>,
             put_reconciliation rec d)))"

definition complete_reconciliation :: "string \<Rightarrow> string \<Rightarrow> db \<Rightarrow> (reconciliation \<times> db) res" where
  "complete_reconciliation reconciliation_id actor d =
     bnd (compute_reconciliation reconciliation_id d) (\<lambda>(_, d).
     bnd (scalar_one (\<lambda>r. rc_id r = reconciliation_id) (reconciliations d)) (\<lambda>rec.
     let (t, d) = read_clock d; rec = rec\<lparr>rc_status := REC_COMPLETED, rc_completed_at := Some t\<rparr>;
         d = put_reconciliation rec d in
     bnd (scalar_one (\<lambda>b. ba_id b = rc_bank_account_id rec) (bank_accounts d)) (\<lambda>ba.
     let (t, d) = read_clock d in
     Inr (rec, d\<lparr>bank_accounts := upd_rows (\<lambda>b. ba_id b = ba_id ba) (\<lambda>b. b\<lparr>ba_last_reconciled_at := Some t\<rparr>) (bank_accounts d)\<rparr>))))"

text \<open>The handlers that start, match and match automatically, each reporting afterwards.\<close>

definition start_rec :: "string \<Rightarrow> date \<Rightarrow> dec \<Rightarrow> string \<Rightarrow> db \<Rightarrow> (reconciliation_report \<times> db) res" where
  "start_rec bank_account_id statement_date statement_balance actor d =
     (let (rec, d) = start_reconciliation bank_account_id statement_date statement_balance actor d
      in compute_reconciliation (rc_id rec) d)"

definition rec_match :: "string \<Rightarrow> string \<Rightarrow> string \<Rightarrow> db \<Rightarrow> (reconciliation_report \<times> db) res" where
  "rec_match rec_id statement_line_id gl_line_id d =
     bnd (apply_match statement_line_id gl_line_id d) (compute_reconciliation rec_id)"

definition rec_auto :: "string \<Rightarrow> db \<Rightarrow> (nat \<times> reconciliation_report \<times> db) res" where
  "rec_auto rec_id d =
     bnd (scalar_one (\<lambda>r. rc_id r = rec_id) (reconciliations d)) (\<lambda>rec.
     bnd (suggest_matches d (rc_bank_account_id rec) 5) (\<lambda>sugg.
     bnd (fold_res (\<lambda>(sl, l, e). apply_match (bs_id sl) (jl_id l)) sugg d) (\<lambda>d.
     bnd (compute_reconciliation rec_id d) (\<lambda>(res, d). Inr (length sugg, res, d)))))"

end
