(* ===== verification/Bank_Facts.thy ===== *)
theory Bank_Facts
  imports Bank "HOL-Library.Sublist"
begin

text \<open>
  What \<open>app/core/bank.py\<close> guarantees: the search for a code ends with the smallest free
  one; a transfer posts a balanced entry whatever the two currencies; suggestions are
  exact, within the window, uncleared and one to one; every operation keeps every journal
  invariant, and the operations of the reconciliation leave the books alone.
\<close>

section \<open>Codes\<close>

lemma first_free_least:
  "n \<le> first_free used n \<and> first_free used n \<notin> set used \<and> (\<forall>k. n \<le> k \<and> k < first_free used n \<longrightarrow> k \<in> set used)"
proof (induction used n rule: first_free.induct)
  case (1 used n)
  show ?case
  proof (cases "n \<in> set used")
    case True
    then have r: "first_free used n = first_free used (n + 1)" by (subst first_free.simps) simp
    have "k \<in> set used" if "n \<le> k" "k < first_free used (n + 1)" for k
      using 1 [OF True] that True by (cases "k = n") auto
    then show ?thesis using 1 [OF True] unfolding r by auto
  next
    case False
    then show ?thesis by (subst (1 2 3) first_free.simps) auto
  qed
qed

lemma is_digit_char: "0 \<le> d \<Longrightarrow> d < 10 \<Longrightarrow> is_digit (digit_char d)"
  by (simp add: is_digit_def of_digit_char)

lemma isdigit_str_nat: "0 \<le> n \<Longrightarrow> isdigit (str_nat n)"
proof (induction n rule: str_nat.induct)
  case (1 n)
  then show ?case by (subst str_nat.simps) (auto simp: isdigit_def is_digit_char)
qed

lemma isdigit_str_int: "0 \<le> n \<Longrightarrow> isdigit (str_int n)"
  by (simp add: str_int_def isdigit_str_nat)

lemma int_of_str_str_int [simp]: "0 \<le> n \<Longrightarrow> int_of_str (str_int n) = n"
  by (simp add: str_int_def)

text \<open>The code handed out is in the band, and no account has it, nor another spelling of its number.\<close>

lemma next_bank_account_code_free:
  assumes "next_bank_account_code d ty = Inr c"
  shows "c \<notin> set (map acc_code (gl_accounts d))"
    and "fst (CODE_BANDS ty) < int_of_str c \<and> int_of_str c \<le> snd (CODE_BANDS ty)"
    and "\<And>k. fst (CODE_BANDS ty) < k \<Longrightarrow> k < int_of_str c \<Longrightarrow> \<exists>a \<in> set (gl_accounts d). int_of_str (acc_code a) = k"
proof -
  obtain lo hi where b: "CODE_BANDS ty = (lo, hi)" by fastforce
  have lo: "0 \<le> lo" using b by (cases ty) auto
  obtain n where n: "n = first_free (used_codes d lo hi) (lo + 1)" by simp
  have f: "lo + 1 \<le> n" "n \<notin> set (used_codes d lo hi)"
    "\<And>k. lo + 1 \<le> k \<Longrightarrow> k < n \<Longrightarrow> k \<in> set (used_codes d lo hi)"
    using first_free_least [of "lo + 1" "used_codes d lo hi"] unfolding n by blast+
  from assms have c: "c = str_int n" "n \<le> hi" by (auto simp: next_bank_account_code_def b Let_def res_simps n)
  have i: "int_of_str c = n" using f(1) lo by (simp add: c(1))
  show "fst (CODE_BANDS ty) < int_of_str c \<and> int_of_str c \<le> snd (CODE_BANDS ty)" using f(1) c(2) by (simp add: i b)
  show "c \<notin> set (map acc_code (gl_accounts d))"
  proof
    assume "c \<in> set (map acc_code (gl_accounts d))"
    moreover have "isdigit c" using f(1) lo by (simp add: c(1) isdigit_str_int)
    ultimately have "int_of_str c \<in> set (used_codes d lo hi)" using f(1) c(2) i by (auto simp: used_codes_def)
    with f(2) i show False by simp
  qed
  show "\<exists>a \<in> set (gl_accounts d). int_of_str (acc_code a) = k" if "fst (CODE_BANDS ty) < k" "k < int_of_str c" for k
    using f(3) [of k] that by (auto simp: b i used_codes_def)
qed

section \<open>Accounts\<close>

lemma add_bank_account_frame:
  assumes "add_bank_account b d = Inr (b', d')"
  shows "d' = d\<lparr>uid_next := Suc (uid_next d), bank_accounts := bank_accounts d @ [b']\<rparr>" "b' = b\<lparr>ba_id := uid (uid_next d)\<rparr>"
  using assms by (auto simp: add_bank_account_def res_simps Let_def fresh_uid_def)

lemma add_bank_account_same_books: "add_bank_account b d = Inr (b', d') \<Longrightarrow> same_books d d'"
  by (auto simp: same_books_def dest: add_bank_account_frame(1))

lemma create_bank_account_steps:
  assumes "create_bank_account sha name ty cur bn an actor d = Inr (b, d')"
  obtains code acct d1 d2 r where "next_bank_account_code d ty = Inr code"
    "add_account (bank_gl_account code name cur) d = Inr (acct, d1)"
    "add_bank_account (new_bank_account name (acc_id acct) ty cur bn an) d1 = Inr (b, d2)"
    "ledger_record sha EVENT_GL_ACCOUNT_CREATED actor ''bank_account'' (ba_id b)
       (PDict [(''name'', PStr name), (''gl_code'', PStr code), (''type'', PStr (bank_account_type_value ty))]) d2 = Inr (r, d')"
  using assms by (auto simp: create_bank_account_def res_simps)

text \<open>A created bank account is backed by a new money account, in the band, that no one else has.\<close>

lemma create_bank_account_backed:
  assumes "create_bank_account sha name ty cur bn an actor d = Inr (b, d')"
  obtains a where "gl_accounts d' = gl_accounts d @ [a]" "bank_accounts d' = bank_accounts d @ [b]"
    "ba_gl_account_id b = acc_id a" "acc_denomination a = MONEY" "acc_normal_balance a = DEBIT"
    "acc_code a \<notin> set (map acc_code (gl_accounts d))"
    "fst (CODE_BANDS ty) < int_of_str (acc_code a) \<and> int_of_str (acc_code a) \<le> snd (CODE_BANDS ty)"
  using assms
proof (cases rule: create_bank_account_steps)
  case (1 code acct d1 d2 r)
  note f = add_account_frame [OF 1(2)] add_bank_account_frame [OF 1(3)] ledger_record_frame(1) [OF 1(4)]
  show ?thesis
  proof (rule that)
    show "gl_accounts d' = gl_accounts d @ [acct]" "bank_accounts d' = bank_accounts d @ [b]"
      by (subst f(5), simp add: f(3) f(1))+
    show "ba_gl_account_id b = acc_id acct" by (simp add: f(4) new_bank_account_def)
    show "acc_code acct \<notin> set (map acc_code (gl_accounts d))"
      using next_bank_account_code_free(1) [OF 1(1)] by (simp add: f(2) bank_gl_account_def)
    show "fst (CODE_BANDS ty) < int_of_str (acc_code acct) \<and> int_of_str (acc_code acct) \<le> snd (CODE_BANDS ty)"
      using next_bank_account_code_free(2) [OF 1(1)] by (simp add: f(2) bank_gl_account_def)
  qed (simp_all add: f(2) bank_gl_account_def)
qed

lemma adopt_step_same_books:
  assumes "adopt_step ex (key, ty) (n, d) = Inr (m, d')"
  shows "same_books d d'"
proof -
  obtain r where "scalar_one_or_none (\<lambda>a. acc_system_key a = Some key) (gl_accounts d) = Inr r"
    using assms by (auto simp: adopt_step_def res_simps)
  then show ?thesis using assms
    by (cases r) (auto simp: adopt_step_def res_simps same_books_refl split: if_split_asm intro: add_bank_account_same_books)
qed

context journal_invariant begin

lemma inv_create_bank_account:
  "create_bank_account sha name ty cur bn an actor d = Inr (b, d') \<Longrightarrow> Inv d \<Longrightarrow> Inv d'"
  by (cases rule: create_bank_account_steps)
    (blast intro: inv_record inv_frame add_account_same_books add_bank_account_same_books)+

lemma inv_adopt_seeded_accounts:
  assumes "adopt_seeded_accounts d = Inr (n, d')" "Inv d"
  shows "Inv d'"
proof -
  from assms have "Inv (snd (n, d'))" unfolding adopt_seeded_accounts_def
    by (elim fold_res_inv [where P = "\<lambda>s. Inv (snd s)"])
      (auto dest!: adopt_step_same_books intro: inv_frame)
  then show ?thesis by simp
qed

end

section \<open>Transfers\<close>

lemma usd_base_scale: "usd_base a cur r = Inr b \<Longrightarrow> at_scale 2 b"
  by (auto simp: usd_base_def res_simps split: if_splits)

text \<open>The three lines of a transfer balance in dollars, whatever the currencies and the rate.\<close>

lemma transfer_lines_balanced:
  assumes "transfer_lines d s t amount dest sb db memo = Inr ls" "at_scale 2 sb" "at_scale 2 db"
  shows "rounded_balanced ls"
  using assms
  by (auto simp: transfer_lines_def Let_def res_simps rounded_balanced_def balanced_def line_defs
      scale_intros split: if_splits)

lemma transfer_posts_balanced:
  assumes "post_transfer sha s t amount dest memo dt actor rate d = Inr (e, d')"
  obtains ls where "rounded_balanced ls"
    "post_entry sha (post_args dt (''Transfer: '' @ memo) SOURCE_TRANSFER (Some (uid (uid_next d))) ls actor)
       (d\<lparr>uid_next := Suc (uid_next d)\<rparr>) = Inr (e, d')"
  using assms
  by (auto simp: post_transfer_def res_simps Let_def fresh_uid_def intro!: that transfer_lines_balanced usd_base_scale)

lemma transfer_accounts:
  assumes "transfer sha i j amount dest memo dt actor st d = Inr (e, d')"
  obtains s t where "scalar_one_or_none (\<lambda>b. ba_id b = i) (bank_accounts d) = Inr (Some s)"
    "scalar_one_or_none (\<lambda>b. ba_id b = j) (bank_accounts d) = Inr (Some t)"
    "post_transfer sha s t amount dest memo dt actor (case st of None \<Rightarrow> 89500 | Some x \<Rightarrow> lbp_exchange_rate x) d = Inr (e, d')"
proof -
  from assms obtain x y where xy: "scalar_one_or_none (\<lambda>b. ba_id b = i) (bank_accounts d) = Inr x"
    "scalar_one_or_none (\<lambda>b. ba_id b = j) (bank_accounts d) = Inr y" by (auto simp: transfer_def res_simps)
  from assms show ?thesis by (cases x; cases y) (simp_all add: transfer_def xy that)
qed

context journal_invariant begin

lemma inv_post_transfer:
  assumes "post_transfer sha s t amount dest memo dt actor rate d = Inr (e, d')" "Inv d"
  shows "Inv d'"
  using assms(1)
proof (rule transfer_posts_balanced)
  have "same_books d (d\<lparr>uid_next := Suc (uid_next d)\<rparr>)" by (simp add: same_books_def)
  then have "Inv (d\<lparr>uid_next := Suc (uid_next d)\<rparr>)" using assms(2) by (rule inv_frame)
  then show "Inv d'" if "post_entry sha (post_args dt (''Transfer: '' @ memo) SOURCE_TRANSFER (Some (uid (uid_next d))) ls actor)
       (d\<lparr>uid_next := Suc (uid_next d)\<rparr>) = Inr (e, d')" for ls
    by (rule inv_post [OF that proper_post_args])
qed

lemma inv_transfer: "transfer sha i j amount dest memo dt actor st d = Inr (e, d') \<Longrightarrow> Inv d \<Longrightarrow> Inv d'"
  by (erule transfer_accounts) (rule inv_post_transfer)

end

section \<open>Suggestions\<close>

text \<open>
  Each suggestion pairs an asked line with a candidate that explains it and that is neither
  cleared nor taken; no candidate is suggested twice.
\<close>

lemma suggest_sound:
  "(sl, l, e) \<in> set (suggest w cleared cands sls used) \<Longrightarrow>
     sl \<in> set sls \<and> (l, e) \<in> set cands \<and> explains w sl (l, e) \<and> jl_id l \<notin> set cleared \<and> jl_id l \<notin> set used"
  by (induction w cleared cands sls used rule: suggest.induct) (auto split: option.split_asm dest!: find_SomeD)

lemma suggest_distinct: "distinct (map (\<lambda>(sl, l, e). jl_id l) (suggest w cleared cands sls used))"
proof (induction w cleared cands sls used rule: suggest.induct)
  case (2 w cleared cands sl sls used)
  show ?case
  proof (cases "find (\<lambda>(l, e). jl_id l \<notin> set cleared \<and> jl_id l \<notin> set used \<and> explains w sl (l, e)) cands")
    case None
    then show ?thesis using 2(1) by simp
  next
    case (Some le)
    obtain l e where le: "le = (l, e)" by fastforce
    have "jl_id l \<notin> (\<lambda>(sl, l, e). jl_id l) ` set (suggest w cleared cands sls (jl_id l # used))"
      by (auto dest: suggest_sound)
    then show ?thesis using 2(2) [OF Some [unfolded le] refl] Some le by simp
  qed
qed simp

text \<open>The suggestions follow the order of the statement lines, one each at most.\<close>

lemma suggest_lines: "subseq (map fst (suggest w cleared cands sls used)) sls"
  by (induction w cleared cands sls used rule: suggest.induct) (auto split: option.split)

text \<open>The loop is greedy: a line left without a suggestion has no candidate left at the end.\<close>

lemma suggest_complete:
  "sl \<in> set sls \<Longrightarrow> sl \<notin> fst ` set (suggest w cleared cands sls used) \<Longrightarrow> (l, e) \<in> set cands \<Longrightarrow> explains w sl (l, e) \<Longrightarrow>
     jl_id l \<in> set cleared \<union> set used \<union> (\<lambda>(sl, l, e). jl_id l) ` set (suggest w cleared cands sls used)"
proof (induction w cleared cands sls used rule: suggest.induct)
  case (2 w cleared cands s sls used)
  show ?case
  proof (cases "find (\<lambda>(l, e). jl_id l \<notin> set cleared \<and> jl_id l \<notin> set used \<and> explains w s (l, e)) cands")
    case None
    then have "jl_id l' \<in> set cleared \<union> set used" if "(l', e') \<in> set cands" "explains w s (l', e')" for l' e'
      using that by (auto simp: find_None_iff)
    then show ?thesis using 2(1) [OF None] 2(3-) by (auto simp: None)
  next
    case (Some le)
    obtain l' e' where le: "le = (l', e')" by fastforce
    show ?thesis using 2(2) [OF Some [unfolded le] refl] 2(3-) Some le by auto
  qed
qed simp

section \<open>Matching and reconciling\<close>

lemma import_row_same_books: "same_books d (import_row i r d)"
  by (simp add: import_row_def fresh_uid_def same_books_def)

lemma import_statement_same_books: "same_books d (snd (import_statement i rs d))"
proof -
  have "same_books d (fold (import_row i) rs d)"
    by (induction rs arbitrary: d) (auto simp: same_books_refl intro: same_books_trans import_row_same_books)
  then show ?thesis by (simp add: import_statement_def)
qed

lemma put_statement_line_same_books: "same_books d (put_statement_line s d)"
  by (simp add: put_statement_line_def same_books_def)

lemma put_reconciliation_same_books: "same_books d (put_reconciliation s d)"
  by (simp add: put_reconciliation_def same_books_def)

lemma apply_match_same_books: "apply_match i g d = Inr d' \<Longrightarrow> same_books d d'"
  by (auto simp: apply_match_def res_simps same_books_refl put_statement_line_same_books split: if_split_asm)

lemma unmatch_same_books: "unmatch i d = Inr d' \<Longrightarrow> same_books d d'"
  by (auto simp: unmatch_def res_simps put_statement_line_same_books)

lemma start_reconciliation_same_books: "start_reconciliation b dt bal actor d = (r, d') \<Longrightarrow> same_books d d'"
  by (auto simp: start_reconciliation_def Let_def fresh_uid_def read_clock_def same_books_def)

lemma compute_reconciliation_same_books: "compute_reconciliation i d = Inr (r, d') \<Longrightarrow> same_books d d'"
  by (auto simp: compute_reconciliation_def res_simps Let_def put_reconciliation_same_books)

text \<open>An applied match is idempotent, and a second journal line for the same statement line is refused.\<close>

lemma scalar_one_upd:
  assumes "scalar_one (\<lambda>s. f s = k) rows = Inr r" "f (g r) = k"
  shows "scalar_one (\<lambda>s. f s = k) (upd_rows (\<lambda>s. f s = k) g rows) = Inr (g r)"
proof -
  from assms(1) have r: "filter (\<lambda>s. f s = k) rows = [r]" by (auto simp: scalar_one_def split: list.splits)
  have fk: "f (g s) = k" if "s \<in> set rows" "f s = k" for s
  proof -
    have "s \<in> set (filter (\<lambda>s. f s = k) rows)" using that by simp
    then show ?thesis using assms(2) r by simp
  qed
  have "filter (\<lambda>s. f s = k) (upd_rows (\<lambda>s. f s = k) g rows) = map g (filter (\<lambda>s. f s = k) rows)"
    using fk by (induction rows) (auto simp: upd_rows_def)
  then show ?thesis by (simp add: scalar_one_def r)
qed

lemma apply_match_twice:
  assumes "apply_match i g d = Inr d'"
  shows "apply_match i g' d' = (if g' = g then Inr d'
     else Inl (HTTPException 422 (Msg ''Statement line already matched to a different GL line'' [])))"
proof -
  from assms obtain sl where sl: "scalar_one (\<lambda>s. bs_id s = i) (statement_lines d) = Inr sl"
    by (auto simp: apply_match_def res_simps)
  have id: "bs_id sl = i" using scalar_oneD [OF sl] by simp
  show ?thesis
  proof (cases "bs_status sl = MATCHED")
    case True
    then show ?thesis using assms sl by (auto simp: apply_match_def split: if_split_asm)
  next
    case False
    then have d': "d' = put_statement_line (sl\<lparr>bs_matched_gl_line_id := Some g, bs_status := MATCHED\<rparr>) d"
      using assms sl by (simp add: apply_match_def)
    have "scalar_one (\<lambda>s. bs_id s = i) (statement_lines d') = Inr (sl\<lparr>bs_matched_gl_line_id := Some g, bs_status := MATCHED\<rparr>)"
      unfolding d' put_statement_line_def
      using scalar_one_upd [OF sl, of "\<lambda>_. sl\<lparr>bs_matched_gl_line_id := Some g, bs_status := MATCHED\<rparr>"] by (simp add: id)
    then show ?thesis by (simp add: apply_match_def)
  qed
qed

end
