(* ===== verification/System.thy ===== *)
theory System
  imports Demo Receivables_Facts Payables_Facts Bank_Facts
begin

text \<open>
  The system as a state machine: the operations that write the books, from an empty
  database, in any order: journal entries and reversals, the mappers, the receivables, the
  payables, the bank, the year close, and events. \<open>other\<close> stands for every write that leaves the journal and the
  inventory ledger alone; what a handler does besides is a sequence of these steps.
\<close>

inductive step :: "(string \<Rightarrow> string) \<Rightarrow> db \<Rightarrow> db \<Rightarrow> bool" for sha where
  posting: "post_entry sha q d = Inr (e, d') \<Longrightarrow> proper_request d q \<Longrightarrow> step sha d d'"
| reversal: "reverse_entry sha i actor dt memo d = Inr (e, d') \<Longrightarrow> step sha d d'"
| year_end: "close_year sha y actor d = Inr (e, d') \<Longrightarrow> step sha d d'"
| sale: "post_sale sha ord st actor d = Inr (r, d') \<Longrightarrow> step sha d d'"
| refund: "post_order_refund sha ord st actor ri rv rq rs dt d = Inr (r, d') \<Longrightarrow> step sha d d'"
| purchase: "post_supplier_purchase sha pu st actor d = Inr (r, d') \<Longrightarrow> step sha d d'"
| payment: "post_supplier_payment sha pa st actor d = Inr (r, d') \<Longrightarrow> step sha d d'"
| buyback: "post_buyback sha b st actor d = Inr (r, d') \<Longrightarrow> step sha d d'"
| melt: "post_melt sha m st actor d = Inr (r, d') \<Longrightarrow> step sha d d'"
| adjustment: "post_adjustment sha a st actor d = Inr (r, d') \<Longrightarrow> step sha d d'"
| opening_entry: "post_opening_balances sha as_of actor cash gold d = Inr (e, d') \<Longrightarrow> step sha d d'"
| receipt: "post_receipt sha c dt amount key memo st actor als cur fx d = Inr (rc, d') \<Longrightarrow> step sha d d'"
| invoice: "post_standalone_invoice sha c dt due lines memo vat st actor fx d = Inr (iv, d') \<Longrightarrow> step sha d d'"
| order_invoice: "create_invoice_from_order ord c e actor d = Inr (iv, d') \<Longrightarrow> step sha d d'"
| vendor_bill: "post_vendor_bill sha vb st actor d = Inr (v, d') \<Longrightarrow> step sha d d'"
| vendor_payment: "post_vendor_payment sha v dt amount key memo st actor als cur fx d = Inr (vp, d') \<Longrightarrow> step sha d d'"
| new_bank_account: "create_bank_account sha name ty cur bn an actor d = Inr (ba, d') \<Longrightarrow> step sha d d'"
| transfer: "transfer sha i j amount dest memo dt actor st d = Inr (e, d') \<Longrightarrow> step sha d d'"
| event: "ledger_record sha ev actor rt ri p d = Inr (r, d') \<Longrightarrow> step sha d d'"
| other: "same_books d d' \<Longrightarrow> step sha d d'"

inductive reach :: "(string \<Rightarrow> string) \<Rightarrow> db \<Rightarrow> db \<Rightarrow> bool" for sha d0 where
  start: "reach sha d0 d0"
| step: "reach sha d0 d \<Longrightarrow> step sha d d' \<Longrightarrow> reach sha d0 d'"

text \<open>Every invariant of the journal's interface holds in every reachable database.\<close>

context journal_invariant
begin

lemma inv_opening: "post_opening_balances sha as_of actor cash gold d = Inr (e, d') \<Longrightarrow> Inv d \<Longrightarrow> Inv d'"
  by (auto simp: post_opening_balances_def res_simps intro: inv_post)

lemma inv_step: "step sha d d' \<Longrightarrow> Inv d \<Longrightarrow> Inv d'"
  by (induction rule: step.induct)
    (blast intro: inv_post inv_reverse inv_close_year inv_record inv_frame
      sale.run_inv [OF journal_invariant_axioms] post_order_refund_inv [OF journal_invariant_axioms]
      purchase.run_inv [OF journal_invariant_axioms] payment.run_inv [OF journal_invariant_axioms]
      buyback.run_inv [OF journal_invariant_axioms] melt.run_inv [OF journal_invariant_axioms]
      adjustment.run_inv [OF journal_invariant_axioms] inv_opening inv_post_receipt inv_standalone_invoice
      inv_create_invoice_from_order inv_vendor_bill inv_vendor_payment inv_create_bank_account inv_transfer)+

lemma inv_reach: "reach sha d0 d \<Longrightarrow> Inv d0 \<Longrightarrow> Inv d"
  by (induction rule: reach.induct) (auto intro: inv_step)

end

text \<open>A database the system can be in.\<close>

definition live_db :: "(string \<Rightarrow> string) \<Rightarrow> db \<Rightarrow> bool" where
  "live_db sha d \<longleftrightarrow> (\<exists>t. reach sha (empty_db t) d)"

lemma numbers_ok_empty: "numbers_ok (empty_db t)"
  by (simp add: numbers_ok_def empty_db_def)

lemma live_db_ok:
  assumes "live_db sha d"
  shows "journal_ok sha d" "ledger_ok sha d" "numbers_ok d"
  using assms jok.inv_reach journal_ok_empty lok.inv_reach ledger_ok_empty num.inv_reach numbers_ok_empty
  by (auto simp: live_db_def)

lemma live_db_step: "live_db sha d \<Longrightarrow> step sha d d' \<Longrightarrow> live_db sha d'"
  unfolding live_db_def using reach.step by blast

section \<open>Closed years and posted sources\<close>

lemma close_year_closes:
  assumes "journal_ok sha d" "close_year sha year actor d = Inr (e, d')"
  shows "year_closed year d'" "valid_date (Date year 12 31)"
proof -
  let ?q = "\<lambda>p. (post_args (Date year 12 31) (''Year close '' @ str_int year) YEAR_CLOSE None
               (map close_gl_line (cp_lines p)) actor)\<lparr>pq_allow_closed_period := True\<rparr>"
  from assms(2) obtain p d1 d2 r d3 where
    s0: "valid_date (Date year 12 31)" "year_close_preview d year = Inr p" "year_already_closed d year = Inr False"
    and s: "ensure_december year d = Inr d1" "post_entry sha (?q p) d1 = Inr (e, d2)"
      "ledger_record sha EVENT_GL_YEAR_CLOSED actor ''fiscal_year'' (str_int year)
       (PDict [(''year'', PInt year), (''net_income'', PStr (str_dec 2 (cp_net_income p))),
               (''entry_id'', PStr (je_id e))]) d2 = Inr (r, d3)" "open_next_year year d3 = Inr d'"
    by (rule close_year_steps)
  have ok1: "journal_ok sha d1" by (rule jok.inv_frame [OF ensure_december_same_books [OF s(1)] assms(1)])
  obtain ls where po: "posted sha (?q p) d1 e ls d2" using post_entry_posted [OF s(2)] by blast
  have pr: "proper_request d1 (?q p)" by (simp add: proper_request_def post_args_def)
  have ok2: "journal_ok sha d2" by (rule posted_journal_ok [OF po ok1 pr])
  have e: "gl_entries d2 = gl_entries d1 @ [e]" "je_id e = uid (uid_next d1)" "je_source_type e = SOURCE_YEAR_CLOSE"
    "je_entry_date e = Date year 12 31" "je_reverses_entry_id e = None"
    using po by (simp_all add: posted_def post_args_def YEAR_CLOSE_def)
  have "je_reverses_entry_id f \<noteq> Some (je_id e)" if "f \<in> set (gl_entries d1)" for f
    using that ok1 uid_next_fresh(1) [of d1] e(2) by (auto simp: journal_ok_def refs_ok_def)
  then have "year_closed year d2"
    using ok2 e by (auto simp: year_closed_def journal_ok_def less_eq_date_def)
  then have "year_closed year d3" by (rule yc.inv_record [OF s(3)])
  then show "year_closed year d'" by (rule yc.inv_frame [OF open_next_year_same_books [OF s(4)]])
  show "valid_date (Date year 12 31)" by (rule s0(1))
qed

lemma year_closed_found:
  assumes "year_closed year d" "valid_date (Date year 12 31)"
  shows "year_already_closed d year = Inr True"
proof -
  have "valid_date (Date year 1 1)" using assms(2) by (simp add: valid_date_def days_in_month_def)
  then show ?thesis
    using assms by (auto simp: year_already_closed_def mk_date_def year_closed_def find_None_iff YEAR_CLOSE_def raise_if_def)
qed

lemma live_entry_persists:
  assumes "reach sha d d'" "find_live_entry d src sid \<noteq> None"
  shows "find_live_entry d' src sid \<noteq> None"
  using ext.inv_reach [OF assms(1), of d] assms(2)
  by (auto simp: extends_def find_live_entry_def find_None_iff)

section \<open>The demo shop\<close>

text \<open>The demo shop is such a database, and so is the one after its first posting.\<close>

lemma demo_live: "live_db sha demo_db"
proof -
  have "same_books (empty_db demo_clock) demo_db"
    by (auto simp: same_books_def demo_db_parts demo_accounts_def demo_account_def empty_db_def intro!: exI [of _ "[0,1,2,3,4,5,6,7,8,9,10,11,12,13]"])
  then show ?thesis unfolding live_db_def by (blast intro: reach.intros step.other)
qed

lemma demo_proper: "proper_request demo_db demo_request"
  by (simp add: demo_request_def)

lemma demo_posted:
  obtains e d' where "post_entry demo_sha demo_request demo_db = Inr (e, d')" "live_db demo_sha d'"
proof -
  obtain e d' where p: "post_entry demo_sha demo_request demo_db = Inr (e, d')" using demo_posts by blast
  from live_db_step [OF demo_live step.posting [OF p demo_proper]] show ?thesis by (rule that [OF p])
qed

text \<open>The demo entry can be reversed.\<close>

lemma demo_resolved: "resolve_denominations demo_db demo_lines = Inr (map (\<lambda>l. l\<lparr>ln_denomination := Some MONEY\<rparr>) demo_lines)"
  by (simp add: demo_db_parts demo_lines_def check_simps)

lemma demo_posted_parts:
  assumes "post_entry demo_sha demo_request demo_db = Inr (e, d)"
  shows "gl_entries d = [e]" "je_id e = uid 20" "je_reverses_entry_id e = None" "je_source_type e = SOURCE_MANUAL"
    "entry_lines d (uid 20) = new_lines 21 (uid 20) (map normalize_line_decimals (map (\<lambda>l. l\<lparr>ln_denomination := Some MONEY\<rparr>) demo_lines))"
    "gl_accounts d = gl_accounts demo_db" "gl_periods d = gl_periods demo_db"
    "je_entry_date e = Date 2026 1 15"
proof -
  from post_entry_posted [OF assms] obtain ls where p: "posted demo_sha demo_request demo_db e ls d" by blast
  have ls: "ls = map normalize_line_decimals (map (\<lambda>l. l\<lparr>ln_denomination := Some MONEY\<rparr>) demo_lines)"
    using p demo_resolved by (auto simp: posted_def demo_request_def post_args_def)
  show "gl_entries d = [e]" "je_id e = uid 20" "je_reverses_entry_id e = None" "je_source_type e = SOURCE_MANUAL"
    "gl_accounts d = gl_accounts demo_db" "gl_periods d = gl_periods demo_db" "je_entry_date e = Date 2026 1 15"
    using p by (simp_all add: posted_def demo_db_parts demo_request_def post_args_def)
  show "entry_lines d (uid 20) = new_lines 21 (uid 20) (map normalize_line_decimals (map (\<lambda>l. l\<lparr>ln_denomination := Some MONEY\<rparr>) demo_lines))"
    using p by (simp add: posted_def demo_db_parts entry_lines_def filter_new_lines new_lines_sorted ls)
qed

lemma demo_posted_lines:
  assumes "post_entry demo_sha demo_request demo_db = Inr (e, d)"
  shows "gl_lines d = new_lines 21 (uid 20) (map normalize_line_decimals (map (\<lambda>l. l\<lparr>ln_denomination := Some MONEY\<rparr>) demo_lines))"
  using post_entry_posted [OF assms] demo_resolved
  by (auto simp: posted_def demo_request_def post_args_def demo_db_parts)

lemma demo_reversal_valid:
  assumes "post_entry demo_sha demo_request demo_db = Inr (e, d)"
  shows "valid_request d (reversal_request e (entry_lines d (je_id e)) ''u1'' (Date 2026 1 20) [])"
  using demo_posted_parts [OF assms]
  by (simp add: valid_request_def demo_db_parts reversal_request_def demo_lines_def check_simps
      new_lines_def mk_line_def swap_line_def find_reversal_def upt_rec)

lemma demo_reversed:
  obtains e d r d' where "post_entry demo_sha demo_request demo_db = Inr (e, d)" "live_db demo_sha d"
    "reverse_entry demo_sha (je_id e) ''u1'' (Date 2026 1 20) [] d = Inr (r, d')" "live_db demo_sha d'"
proof -
  obtain e d where p: "post_entry demo_sha demo_request demo_db = Inr (e, d)" and l: "live_db demo_sha d" by (rule demo_posted)
  obtain r d' where r: "post_entry demo_sha (reversal_request e (entry_lines d (je_id e)) ''u1'' (Date 2026 1 20) []) d = Inr (r, d')"
    using post_entry_live [OF demo_reversal_valid [OF p] live_db_ok(3) [OF l] demo_hashes_fresh [OF live_db_ok(1,2) [OF l]]]
    by blast
  have rev: "reverse_entry demo_sha (je_id e) ''u1'' (Date 2026 1 20) [] d = Inr (r, d')"
    using r demo_posted_parts [OF p]
    by (simp add: reverse_entry_def find_reversal_def SOURCE_MANUAL_def SOURCE_YEAR_CLOSE_def)
  show ?thesis by (rule that [OF p l rev live_db_step [OF l step.reversal [OF rev]]])
qed

end
