(* ===== verification/DemoRuns.thy ===== *)
theory DemoRuns
  imports System
begin

text \<open>
  Longer runs of the demo shop, for the witnesses: a sale posted by its mapper, and the
  closing of the year after the month is closed.
\<close>

section \<open>A sale\<close>

definition demo_settings :: settings where
  "demo_settings = \<lparr>store_name = ''Demo'', store_name_ar = None, logo_url = None, store_address = [], store_phone = [],
     vat_number = None, default_margin_pct = 15, default_making_charge = 0, markup_k18 = 0, markup_k21 = 0, markup_k24 = 0,
     vat_percent = 10, lbp_exchange_rate = 89500, max_discount_percent = 10, receipt_footer = None, gold_refresh_minutes = 30,
     nisab_grams = 85, default_buyback_margin_mode = USD_PER_GRAM, default_buyback_margin_value = 2,
     buyback_rate_drift_pct_max = 1, accounting_auto_post_enabled = True\<rparr>"

definition demo_order :: order where
  "demo_order = \<lparr>or_id = ''o1'', or_order_number = ''ORD-20260115-001'', or_status = COMPLETED, or_payment_method = PAY_CASH,
     or_customer_name = None, or_customer_id = None, or_cashier_id = ''u1'', or_subtotal = 100, or_vat_percent = 10,
     or_vat_amount = 10, or_discount_percent = 0, or_discount_amount = 0, or_total_usd = 110, or_total_lbp = 9845000,
     or_lbp_exchange_rate = 89500, or_voided_at = None, or_voided_by = None, or_void_reason = None,
     or_created_at = Some demo_clock, or_items = []\<rparr>"

lemma demo_sale:
  obtains e d where "post_sale demo_sha demo_order demo_settings ''u1'' demo_db = Inr (Some e, d)"
proof -
  let ?acc = "\<lparr>sa_cash = uid 0, sa_rev = uid 1, sa_making = uid 4, sa_vat = uid 5, sa_discount = uid 6, sa_cogs = uid 7, sa_inv = uid 2\<rparr>"
  let ?q = "post_args (Date 2026 1 15) (''Sale '' @ or_order_number demo_order) SOURCE_ORDER (Some (or_id demo_order))
      (sale_money_lines ?acc demo_order) ''u1''"
  have l: "sale_lines demo_db ?acc demo_order = Inr (sale_money_lines ?acc demo_order)"
    by (simp add: sale_lines_def cogs_by_karat_def cogs_lines_def stone_lines_def stone_cogs_total_def demo_order_def)
  have "valid_request demo_db ?q"
    by (simp add: valid_request_def demo_db_parts demo_order_def sale_money_lines_def making_revenue_def check_simps)
  from post_entry_live [OF this demo_numbers_ok demo_hashes_fresh [OF demo_journal_ok demo_ledger_ok]]
  obtain e d where p: "post_entry demo_sha ?q demo_db = Inr (e, d)" by blast
  have dt: "date_or_today (or_created_at demo_order) demo_db = Date 2026 1 15"
    by (simp add: date_or_today_def demo_order_def demo_today)
  have ep: "ensure_period (Date 2026 1 15) demo_db = Inr (demo_period 18 2026 1 PERIOD_OPEN, demo_db)"
    by (simp add: ensure_period_def scalar_one_or_none_def demo_db_parts demo_period_def)
  have key: "sale_cash_key (or_payment_method demo_order) = ''CASH''" by (simp add: demo_order_def sale_cash_key_def)
  have r: "resolve_account_id demo_db ''CASH'' = Inr (uid 0)" "resolve_account_id demo_db ''SALES_REVENUE'' = Inr (uid 1)"
    "resolve_account_id demo_db ''METAL_INVENTORY'' = Inr (uid 2)" "resolve_account_id demo_db ''MAKING_CHARGE_REVENUE'' = Inr (uid 4)"
    "resolve_account_id demo_db ''VAT_PAYABLE'' = Inr (uid 5)" "resolve_account_id demo_db ''SALES_DISCOUNTS'' = Inr (uid 6)"
    "resolve_account_id demo_db ''METAL_COGS'' = Inr (uid 7)"
    by (simp_all add: resolve_account_id_def scalar_one_or_none_def demo_db_parts demo_accounts_def demo_account_def)
  have g: "auto_post_enabled demo_settings" "find_live_entry demo_db SOURCE_ORDER (or_id demo_order) = None"
    by (simp_all add: auto_post_enabled_def demo_settings_def find_live_entry_def demo_db_parts)
  have "post_sale demo_sha demo_order demo_settings ''u1'' demo_db = Inr (Some e, d)"
    unfolding post_sale_def Let_def dt ep key bnd_simps r prod.case l p using g by simp
  then show ?thesis by (rule that)
qed

section \<open>The closing of the year\<close>

text \<open>The demo books at the end of the year, the month closed.\<close>

definition demo_closable :: "gl_journal_entry \<Rightarrow> db \<Rightarrow> bool" where
  "demo_closable e d \<longleftrightarrow> gl_entries d = [e] \<and> je_id e = uid 20 \<and> je_entry_date e = Date 2026 1 15
     \<and> je_source_type e = SOURCE_MANUAL \<and> gl_accounts d = demo_accounts \<and> gl_periods d = [demo_period 18 2026 1 PERIOD_CLOSED]
     \<and> gl_lines d = new_lines 21 (uid 20) (map normalize_line_decimals (map (\<lambda>l. l\<lparr>ln_denomination := Some MONEY\<rparr>) demo_lines))"

definition demo_preview :: close_preview where
  "demo_preview = \<lparr>cp_year = 2026,
     cp_lines = [\<lparr>pv_account_id = uid 1, pv_code = ''701000'', pv_name = ''SALES_REVENUE'', pv_system_key = Some ''SALES_REVENUE'',
                   pv_debit = 125, pv_credit = 0\<rparr>,
                 \<lparr>pv_account_id = uid 3, pv_code = ''101401'', pv_name = ''RETAINED_EARNINGS'',
                   pv_system_key = Some ''RETAINED_EARNINGS'', pv_debit = 0, pv_credit = 125\<rparr>],
     cp_net_income = 125, cp_retained_earnings_delta = 125, cp_already_closed = False\<rparr>"

lemma demo_closable_preview:
  assumes "demo_closable e d"
  shows "year_already_closed d 2026 = Inr False" "year_close_preview d 2026 = Inr demo_preview"
proof -
  note d = assms [unfolded demo_closable_def]
  show c: "year_already_closed d 2026 = Inr False"
    using d by (simp add: year_already_closed_def mk_date_def valid_date_def days_in_month_def raise_if_def
        SOURCE_MANUAL_def SOURCE_YEAR_CLOSE_def YEAR_CLOSE_def)
  have g: "tb_groups d (Date 2026 12 31) = [
      \<lparr>tg_account = demo_account 0 ''530001'' ASSET MONEY ''CASH'', tg_currency = ''USD'', tg_karat = None,
       tg_base_debit = 125, tg_base_credit = 0, tg_money_debit = 125, tg_money_credit = 0,
       tg_metal_debit = 0, tg_metal_credit = 0, tg_metal_lines = 0\<rparr>,
      \<lparr>tg_account = demo_account 1 ''701000'' INCOME MONEY ''SALES_REVENUE'', tg_currency = ''USD'', tg_karat = None,
       tg_base_debit = 0, tg_base_credit = 125, tg_money_debit = 0, tg_money_credit = 125,
       tg_metal_debit = 0, tg_metal_credit = 0, tg_metal_lines = 0\<rparr>]"
    using d by (simp add: tb_groups_def tb_rows_def dated_def less_eq_date_def new_lines_def demo_lines_def upt_rec mk_line_def
        normalize_line_decimals_def money_dr_def money_cr_def GLLine_def demo_accounts_def demo_account_def tb_key_def
        tb_group_of_def line_has_metal_def)
  have a: "tb_accounts (compute_trial_balance d (Date 2026 12 31)) = map finish_acct (map
      (\<lambda>g. tb_add_acct g (new_acct (tg_account g))) (tb_groups d (Date 2026 12 31)))"
    by (simp add: compute_trial_balance_def Let_def tb_fold_def tb_step_def g demo_account_def tb_add_acct_def new_acct_def list_le_def)
  show "year_close_preview d 2026 = Inr demo_preview"
    using d by (simp add: year_close_preview_def a g c mk_date_def valid_date_def days_in_month_def raise_if_def Let_def
        demo_account_def finish_acct_def tb_add_acct_def new_acct_def pl_lines_def income_bal_def expense_bal_def closing_line_def
        income_total_def expense_total_def scalar_one_def demo_accounts_def re_lines_def demo_preview_def)
qed


definition demo_close_request :: post_request where
  "demo_close_request = (post_args (Date 2026 12 31) (''Year close '' @ str_int 2026) YEAR_CLOSE None
     (map close_gl_line (cp_lines demo_preview)) ''u1'')\<lparr>pq_allow_closed_period := True\<rparr>"

lemma demo_close_valid:
  assumes "demo_closable e d" "ensure_december 2026 d = Inr d1"
  shows "valid_request d1 demo_close_request"
proof -
  note d = assms(1) [unfolded demo_closable_def]
  obtain p where ap: "add_period 2026 12 PERIOD_CLOSED d = Inr (p, d1)"
    using assms(2) d by (auto simp: ensure_december_def scalar_one_or_none_def demo_period_def res_simps)
  note p = add_period_frame(1-3) [OF ap]
  show ?thesis
    using d by (simp add: valid_request_def demo_close_request_def p demo_preview_def close_gl_line_def YEAR_CLOSE_def SOURCE_YEAR_CLOSE_def
        GL_UNIQUE_LIVE_SOURCE_TYPES_def check_simps)
qed

lemma demo_ensure_december:
  assumes "demo_closable e d"
  shows "\<exists>d1. ensure_december 2026 d = Inr d1"
  using assms by (auto simp: demo_closable_def ensure_december_def add_period_def scalar_one_or_none_def demo_period_def raise_if_def Let_def fresh_uid_def)

lemma add_period_total:
  assumes "\<not> (\<exists>p \<in> set (gl_periods d). per_year p = y \<and> per_no p = n)"
  obtains p d' where "add_period y n st d = Inr (p, d')" "gl_periods d' = gl_periods d @ [p]" "per_year p = y" "per_no p = n"
  using assms by (simp add: add_period_def raise_if_def Let_def fresh_uid_def)

lemma open_next_year_total: "\<exists>d'. open_next_year year d = Inr d'"
proof -
  let ?ex = "map per_no (filter (\<lambda>p. per_year p = year + 1) (gl_periods d))"
  let ?f = "\<lambda>m d. if m \<in> set ?ex then Inr d else bnd (add_period (year + 1) m PERIOD_OPEN d) (\<lambda>(_, d). Inr d)"
  have "\<exists>x'. fold_res ?f ms x = Inr x'"
    if "distinct ms" "\<forall>p \<in> set (gl_periods x). per_year p = year + 1 \<and> per_no p \<in> set ms \<longrightarrow> per_no p \<in> set ?ex" for ms x
    using that
  proof (induction ms arbitrary: x)
    case (Cons m ms)
    show ?case
    proof (cases "m \<in> set ?ex")
      case True
      then show ?thesis using Cons by auto
    next
      case False
      have "\<not> (\<exists>p \<in> set (gl_periods x). per_year p = year + 1 \<and> per_no p = m)" using Cons.prems(2) False by auto
      then obtain p x' where p: "add_period (year + 1) m PERIOD_OPEN x = Inr (p, x')" "gl_periods x' = gl_periods x @ [p]"
        "per_year p = year + 1" "per_no p = m"
        by (rule add_period_total)
      have "\<exists>x''. fold_res ?f ms x' = Inr x''" using Cons.prems by (intro Cons.IH) (auto simp: p)
      then show ?thesis using False p(1) by simp
    qed
  qed simp
  from this [of "[1..12]" d] show ?thesis by (auto simp: open_next_year_def Let_def)
qed

lemma demo_close_total:
  assumes "demo_closable e d" "live_db demo_sha d"
  shows "\<exists>c d'. close_year demo_sha 2026 ''u1'' d = Inr (c, d')"
proof -
  note d = assms(1) [unfolded demo_closable_def]
  obtain d1 where d1: "ensure_december 2026 d = Inr d1" using demo_ensure_december [OF assms(1)] by blast
  have l1: "live_db demo_sha d1"
    by (rule live_db_step [OF assms(2) step.other [OF ensure_december_same_books [OF d1]]])
  obtain c d2 where c: "post_entry demo_sha demo_close_request d1 = Inr (c, d2)"
    using post_entry_live [OF demo_close_valid [OF assms(1) d1] live_db_ok(3) [OF l1] demo_hashes_fresh [OF live_db_ok(1,2) [OF l1]]]
    by blast
  have pr: "proper_request d1 demo_close_request" by (simp add: proper_request_def demo_close_request_def post_args_def)
  have l2: "live_db demo_sha d2" by (rule live_db_step [OF l1 step.posting [OF c pr]])
  have h2: "hashes_fresh demo_sha d2" by (rule demo_hashes_fresh [OF live_db_ok(1,2) [OF l2]])
  have rec: "\<exists>r d3. ledger_record demo_sha ev ac rt ri pl d2 = Inr (r, d3)" for ev ac rt ri pl
    by (rule ledger_record_fresh) (use h2 in \<open>auto simp: hashes_fresh_def\<close>)
  have cl: "cp_lines demo_preview \<noteq> []" by (simp add: demo_preview_def)
  have c': "post_entry demo_sha ((post_args (Date 2026 12 31) (''Year close '' @ str_int 2026) YEAR_CLOSE None
     (map close_gl_line (cp_lines demo_preview)) ''u1'')\<lparr>pq_allow_closed_period := True\<rparr>) d1 = Inr (c, d2)"
    using c by (simp only: demo_close_request_def)
  obtain r d3 where r: "ledger_record demo_sha EVENT_GL_YEAR_CLOSED ''u1'' ''fiscal_year'' (str_int 2026)
           (PDict [(''year'', PInt 2026), (''net_income'', PStr (str_dec 2 (cp_net_income demo_preview))),
                   (''entry_id'', PStr (je_id c))]) d2 = Inr (r, d3)"
    using rec by blast
  obtain d4 where d4: "open_next_year 2026 d3 = Inr d4" using open_next_year_total by blast
  have p: "filter (\<lambda>p. per_year p = 2026 \<and> per_status p = PERIOD_OPEN) (gl_periods d) = []"
    "find (\<lambda>p. per_year p = 2026) (gl_periods d) \<noteq> None"
    using d by (simp_all add: demo_period_def)
  have "close_year demo_sha 2026 ''u1'' d = Inr (c, d4)"
    unfolding close_year_def demo_closable_preview [OF assms(1)] Let_def p(1) bnd_simps d1
    using p(2) cl c' r d4
    by (simp add: raise_if_def mk_date_def valid_date_def days_in_month_def)
  then show ?thesis by blast
qed

lemma demo_closed:
  obtains d c d' where "live_db demo_sha d" "gl_accounts d = demo_accounts" "year_close_preview d 2026 = Inr demo_preview"
    "close_year demo_sha 2026 ''u1'' d = Inr (c, d')"
proof -
  obtain e d0 where p: "post_entry demo_sha demo_request demo_db = Inr (e, d0)" and l: "live_db demo_sha d0" by (rule demo_posted)
  let ?d = "d0\<lparr>gl_periods := [demo_period 18 2026 1 PERIOD_CLOSED]\<rparr>"
  have "same_books d0 ?d" by (auto simp: same_books_def)
  then have l: "live_db demo_sha ?d" by (rule live_db_step [OF l step.other])
  have gl: "gl_lines d0 = new_lines 21 (uid 20) (map normalize_line_decimals (map (\<lambda>l. l\<lparr>ln_denomination := Some MONEY\<rparr>) demo_lines))"
    by (rule demo_posted_lines [OF p])
  have "demo_closable e ?d"
    using demo_posted_parts [OF p] gl by (simp add: demo_closable_def demo_db_parts)
  then show ?thesis
    using demo_close_total [OF _ l] demo_closable_preview(2) [of e ?d] that l by (auto simp: demo_closable_def)
qed

end
