(* ===== verification/Receivables_Tie.thy ===== *)
theory Receivables_Tie
  imports Receivables_Facts CoaSeed
begin

text \<open>
  The tie-out of the receivables, in dollars: what the subledger says a customer owes and
  what the AR control account holds move together. Each operation's effect on both sides
  is a lemma; the invariant of \<open>verify_ar_control\<close> follows by rule induction over the
  operations.
\<close>

section \<open>A subledger in dollars\<close>

text \<open>What a NUMERIC(18, 2) column holds.\<close>

definition money_col :: "dec \<Rightarrow> bool" where
  "money_col x \<longleftrightarrow> at_scale 2 x \<and> \<bar>x\<bar> < 10 ^ 16"

lemma ctx_money: "money_col x \<Longrightarrow> ctx x = x"
  by (rule ctx_id [of 2]) (auto simp: money_col_def)

definition usd_invoice :: "ar_invoice \<Rightarrow> bool" where
  "usd_invoice i \<longleftrightarrow> invoice_wf i \<and> inv_currency i = ''USD'' \<and> inv_fx_rate i = 1
     \<and> 0 \<le> inv_amount_paid i \<and> inv_total i < 10 ^ 16"

definition usd_receipt :: "ar_receipt \<Rightarrow> bool" where
  "usd_receipt r \<longleftrightarrow> re_fx_rate r = 1 \<and> money_col (re_unapplied_amount r)"

definition fresh_ids :: "nat \<Rightarrow> string list \<Rightarrow> bool" where
  "fresh_ids n ids \<longleftrightarrow> distinct ids \<and> (\<forall>i \<in> set ids. \<exists>k < n. i = uid k)"

lemma fresh_ids_mono: "fresh_ids n ids \<Longrightarrow> n \<le> m \<Longrightarrow> fresh_ids m ids"
  by (force simp: fresh_ids_def)

lemma fresh_ids_snoc: "fresh_ids n ids \<Longrightarrow> fresh_ids (Suc n) (ids @ [uid n])"
  by (force simp: fresh_ids_def less_Suc_eq)

definition usd_ledger :: "db \<Rightarrow> bool" where
  "usd_ledger d \<longleftrightarrow>
     (\<forall>i \<in> set (ar_invoices d). usd_invoice i \<and> inv_customer_id i \<in> cu_id ` set (customers d))
     \<and> (\<forall>r \<in> set (ar_receipts d). usd_receipt r \<and> re_customer_id r \<in> cu_id ` set (customers d))
     \<and> fresh_ids (uid_next d) (map inv_id (ar_invoices d)) \<and> fresh_ids (uid_next d) (map re_id (ar_receipts d))
     \<and> fresh_ids (uid_next d) (map cu_id (customers d))"

definition owed_by :: "string \<Rightarrow> ar_invoice \<Rightarrow> dec" where
  "owed_by c i = (if inv_customer_id i = c \<and> open_invoice i then inv_total i - inv_amount_paid i else 0)"

definition left_of :: "string \<Rightarrow> ar_receipt \<Rightarrow> dec" where
  "left_of c r = (if re_customer_id r = c then re_unapplied_amount r else 0)"

definition usd_balance :: "db \<Rightarrow> string \<Rightarrow> dec" where
  "usd_balance d c = sum_of (owed_by c) (ar_invoices d) - sum_of (left_of c) (ar_receipts d)"

lemma usd_invoice_owed: "usd_invoice i \<Longrightarrow> money_col (inv_total i - inv_amount_paid i)"
  by (auto simp: usd_invoice_def invoice_wf_def money_col_def at_scale_diff)

lemma usd_balance_scaled: "usd_ledger d \<Longrightarrow> at_scale 2 (usd_balance d c)"
  unfolding usd_balance_def usd_ledger_def
  by (intro at_scale_diff at_scale_sum_of)
    (auto simp: owed_by_def left_of_def usd_receipt_def usd_invoice_owed [unfolded money_col_def] money_col_def)

text \<open>In dollars the balance of the code is the exact difference.\<close>

lemma customer_open_balance_usd:
  assumes "usd_ledger d"
  shows "customer_open_balance d c = usd_balance d c"
proof -
  have "sum_of (\<lambda>i. dquot (inv_total i - inv_amount_paid i) (or_one (inv_fx_rate i)))
      (filter (\<lambda>i. inv_customer_id i = c \<and> open_invoice i) (ar_invoices d)) = sum_of (owed_by c) (ar_invoices d)"
    unfolding sum_of_filter_if using assms
    by (intro sum_of_cong)
      (auto simp: owed_by_def dquot_def or_one_def usd_ledger_def usd_invoice_def ctx_money [OF usd_invoice_owed])
  moreover have "sum_of (\<lambda>r. dquot (re_unapplied_amount r) (or_one (re_fx_rate r)))
      (filter (\<lambda>r. re_customer_id r = c) (ar_receipts d)) = sum_of (left_of c) (ar_receipts d)"
    unfolding sum_of_filter_if using assms
    by (intro sum_of_cong) (auto simp: left_of_def dquot_def or_one_def usd_ledger_def usd_receipt_def ctx_money)
  ultimately show ?thesis
    using usd_balance_scaled [OF assms, of c] by (simp add: customer_open_balance_def Let_def usd_balance_def)
qed

section \<open>What a receipt does to the balances\<close>

lemma usd_apply:
  assumes "usd_invoice i" "0 < a" "at_scale 2 a"
  shows "usd_invoice (fst (apply_to_invoice i a))"
proof -
  have w: "invoice_wf (fst (apply_to_invoice i a))" using assms by (simp add: usd_invoice_def apply_wf)
  have "at_scale 2 (inv_amount_paid i + min a (inv_total i - inv_amount_paid i))"
    using assms by (auto simp: usd_invoice_def invoice_wf_def intro!: at_scale_add at_scale_diff at_scale_min)
  then have "0 \<le> inv_amount_paid (fst (apply_to_invoice i a))"
    using assms by (auto simp: apply_to_invoice_def Let_def usd_invoice_def invoice_wf_def min_def)
  with w assms(1) show ?thesis by (simp add: usd_invoice_def apply_to_invoice_def Let_def)
qed

lemma owed_by_apply:
  assumes "usd_invoice i" "open_invoice i" "0 < a" "at_scale 2 a" "inv_customer_id i = c0"
  shows "owed_by c (fst (apply_to_invoice i a))
       = owed_by c i - (if c = c0 then 1 else 0) * min a (inv_total i - inv_amount_paid i)"
proof -
  let ?p = "inv_amount_paid i + min a (inv_total i - inv_amount_paid i)"
  have "at_scale 2 ?p"
    using assms by (auto simp: usd_invoice_def invoice_wf_def intro!: at_scale_add at_scale_diff at_scale_min)
  then have q: "q_money ?p = ?p" by simp
  have "?p \<le> inv_total i" by simp
  then show ?thesis
    using assms(2,5) by (auto simp: apply_to_invoice_def Let_def q owed_by_def open_invoice_def)
qed

lemma open_invoices_distinct:
  assumes "distinct (map inv_id (ar_invoices d))"
  shows "distinct (map inv_id (open_invoices d c cur))"
  using assms by (auto simp: open_invoices_def distinct_map intro: inj_on_subset)

lemma open_invoices_set: "i \<in> set (open_invoices d c cur) \<longleftrightarrow>
    i \<in> set (ar_invoices d) \<and> inv_customer_id i = c \<and> inv_currency i = cur \<and> open_invoice i"
  by (auto simp: open_invoices_def)

text \<open>The loop: the customer's invoices go down by what is applied, nobody else's move.\<close>

lemma fifo_receipt_usd:
  assumes "usd_ledger d" "at_scale 2 x" "0 \<le> x"
    and s: "s = fifo_receipt rid (open_invoices d c0 cur) \<lparr>st_db = d, st_specs = [], st_rest = x\<rparr>"
  shows "sum_of (owed_by c) (ar_invoices (st_db s)) = sum_of (owed_by c) (ar_invoices d) - (if c = c0 then x - st_rest s else 0)"
    and "0 \<le> st_rest s" "st_rest s \<le> x" "at_scale 2 (st_rest s)"
    and "\<forall>i \<in> set (ar_invoices (st_db s)). usd_invoice i \<and> inv_customer_id i \<in> cu_id ` set (customers d)"
    and "map inv_id (ar_invoices (st_db s)) = map inv_id (ar_invoices d)"
    and "sum_of ag_applied_money (st_specs s) + st_rest s = x"
    and "\<forall>al \<in> set (st_specs s). ag_invoice_currency al = ''USD'' \<and> ag_invoice_fx_rate al = 1 \<and> money_col (ag_applied_money al)"
proof -
  let ?rs = "open_invoices d c0 cur" and ?s = "\<lparr>st_db = d, st_specs = [], st_rest = x\<rparr>"
  have usd: "usd_invoice i" if "i \<in> set (ar_invoices d)" for i using assms(1) that by (simp add: usd_ledger_def)
  have le: "inv_amount_paid i \<le> inv_total i" "at_scale 2 (inv_total i - inv_amount_paid i)" if "usd_invoice i" for i
    using that by (auto simp: usd_invoice_def invoice_wf_def at_scale_diff)
  have dist: "distinct (map inv_id (ar_invoices d))" using assms(1) by (simp add: usd_ledger_def fresh_ids_def)
  have "sum_of (owed_by c) (ar_invoices (st_db s))
      = sum_of (owed_by c) (ar_invoices (st_db ?s)) - (if c = c0 then 1 else 0) * (st_rest ?s - st_rest s)"
    unfolding s
  proof (rule ar.fifo_sum)
    fix i a assume "i \<in> set ?rs" "0 < a" "at_scale 2 a"
    then show "owed_by c (fst (apply_to_invoice i a)) = owed_by c i - (if c = c0 then 1 else 0) * min a (inv_total i - inv_amount_paid i)"
      by (intro owed_by_apply) (auto simp: open_invoices_set usd)
  qed (use usd le dist assms(2) in \<open>auto simp: open_invoices_set open_invoices_distinct\<close>)
  then show "sum_of (owed_by c) (ar_invoices (st_db s)) = sum_of (owed_by c) (ar_invoices d) - (if c = c0 then x - st_rest s else 0)"
    by auto
  have rest: "st_rest s = x - sum_list (fifo_amounts x (map (\<lambda>i. inv_total i - inv_amount_paid i) ?rs))"
    unfolding s using usd le assms(3) by (subst ar.fifo_rest) (auto simp: open_invoices_set)
  have "sum_list (fifo_amounts x (map (\<lambda>i. inv_total i - inv_amount_paid i) ?rs))
      = min x (sum_list (map (\<lambda>i. inv_total i - inv_amount_paid i) ?rs))"
    using usd le assms(3) by (intro fifo_amounts_exhaust) (auto simp: open_invoices_set)
  moreover have "0 \<le> sum_list (map (\<lambda>i. inv_total i - inv_amount_paid i) ?rs)"
    using usd le by (intro sum_list_nonneg) (auto simp: open_invoices_set)
  ultimately show "0 \<le> st_rest s" "st_rest s \<le> x" using rest assms(3) by auto
  have "(\<forall>i \<in> set (ar_invoices (st_db s)). usd_invoice i \<and> inv_customer_id i \<in> cu_id ` set (customers d))
      \<and> at_scale 2 (st_rest s) \<and> map inv_id (ar_invoices (st_db s)) = map inv_id (ar_invoices (st_db ?s))"
    unfolding s
  proof (rule ar.fifo_rows_inv)
    fix i a assume "usd_invoice i \<and> inv_customer_id i \<in> cu_id ` set (customers d)" "0 < a" "at_scale 2 a"
    then show "usd_invoice (fst (apply_to_invoice i a)) \<and> inv_customer_id (fst (apply_to_invoice i a)) \<in> cu_id ` set (customers d)"
      using usd_apply by (simp add: apply_to_invoice_def Let_def)
  qed (use assms(1,2) le in \<open>auto simp: open_invoices_set usd_ledger_def\<close>)
  then show "at_scale 2 (st_rest s)"
    "\<forall>i \<in> set (ar_invoices (st_db s)). usd_invoice i \<and> inv_customer_id i \<in> cu_id ` set (customers d)"
    "map inv_id (ar_invoices (st_db s)) = map inv_id (ar_invoices d)" by simp_all
  show "sum_of ag_applied_money (st_specs s) + st_rest s = x" unfolding s using ar.fifo_total [of rid ?rs ?s] by simp
  show "\<forall>al \<in> set (st_specs s). ag_invoice_currency al = ''USD'' \<and> ag_invoice_fx_rate al = 1 \<and> money_col (ag_applied_money al)"
    unfolding s
  proof (rule ar.fifo_specs_all)
    fix i a assume "i \<in> set ?rs" "0 < a" "at_scale 2 a" "a \<le> inv_total i - inv_amount_paid i"
    then show "ag_invoice_currency (Allocation (or_usd (inv_currency i)) (or_one (inv_fx_rate i)) a) = ''USD''
      \<and> ag_invoice_fx_rate (Allocation (or_usd (inv_currency i)) (or_one (inv_fx_rate i)) a) = 1
      \<and> money_col (ag_applied_money (Allocation (or_usd (inv_currency i)) (or_one (inv_fx_rate i)) a))"
      using usd [of i] by (auto simp: open_invoices_set usd_invoice_def or_usd_def or_one_def Allocation_def money_col_def)
  qed (use usd le assms(2) in \<open>auto simp: open_invoices_set\<close>)
qed

lemma fifo_receipt_frame:
  "customers (st_db (fifo_receipt rid rs s)) = customers (st_db s) \<and> ar_receipts (st_db (fifo_receipt rid rs s)) = ar_receipts (st_db s)
     \<and> gl_accounts (st_db (fifo_receipt rid rs s)) = gl_accounts (st_db s) \<and> gl_lines (st_db (fifo_receipt rid rs s)) = gl_lines (st_db s)
     \<and> uid_next (st_db s) \<le> uid_next (st_db (fifo_receipt rid rs s))"
proof (induction rs arbitrary: s)
  case (Cons i rs)
  let ?t = "settle_invoice rid i (st_rest s) s"
  have "customers (st_db ?t) = customers (st_db s) \<and> ar_receipts (st_db ?t) = ar_receipts (st_db s)
     \<and> gl_accounts (st_db ?t) = gl_accounts (st_db s) \<and> gl_lines (st_db ?t) = gl_lines (st_db s)
     \<and> uid_next (st_db s) \<le> uid_next (st_db ?t)"
    by (auto simp: settle_invoice_def Let_def fresh_uid_def split: prod.splits)
  with Cons.IH [of ?t] show ?case by auto
qed simp

lemma upd_row_twice:
  "f a = f b \<Longrightarrow> upd_rows (\<lambda>x. f x = f a) (\<lambda>_. b) (upd_rows (\<lambda>x. f x = f a) (\<lambda>_. a) xs) = upd_rows (\<lambda>x. f x = f a) (\<lambda>_. b) xs"
  by (simp add: upd_rows_def)

text \<open>The receipt row as it ends up.\<close>

lemma settle_receipt_rows:
  assumes "settle_receipt sha r tender st actor als d = Inr (r', d')" "als = None \<or> als = Some []"
    and s: "s = fifo_receipt (re_id r) (open_invoices d (re_customer_id r) (re_currency r)) \<lparr>st_db = d, st_specs = [], st_rest = re_amount r\<rparr>"
  shows "\<exists>g. r' = r\<lparr>re_unapplied_amount := q_money (st_rest s), re_gl_entry_id := g\<rparr>"
    and "ar_receipts d' = upd_rows (\<lambda>x. re_id x = re_id r) (\<lambda>_. r') (ar_receipts d)"
    and "ar_invoices d' = ar_invoices (st_db s)" "customers d' = customers d" "gl_accounts d' = gl_accounts d"
    and "uid_next d \<le> uid_next d'"
proof -
  let ?r = "r\<lparr>re_unapplied_amount := q_money (st_rest s)\<rparr>"
  have al: "allocate_receipt (re_id r) (re_customer_id r) (re_currency r) als \<lparr>st_db = d, st_specs = [], st_rest = re_amount r\<rparr> = Inr s"
    using assms(2) s by (auto simp: allocate_receipt_def)
  have p: "(if auto_post_enabled st
      then receipt_posting sha ?r tender (re_fx_rate r)
        (overpay_specs (re_currency r) (re_fx_rate r) (st_rest s) (st_specs s)) actor (put_receipt ?r (st_db s))
      else Inr (?r, put_receipt ?r (st_db s))) = Inr (r', d')"
    using assms(1) al by (auto simp: settle_receipt_def Let_def cong: if_cong)
  note fr = fifo_receipt_frame [of "re_id r" "open_invoices d (re_customer_id r) (re_currency r)"
      "\<lparr>st_db = d, st_specs = [], st_rest = re_amount r\<rparr>", folded s]
  have "(\<exists>g. r' = ?r\<lparr>re_gl_entry_id := g\<rparr>)
    \<and> ar_receipts d' = upd_rows (\<lambda>x. re_id x = re_id r) (\<lambda>_. r') (ar_receipts d)
    \<and> ar_invoices d' = ar_invoices (st_db s) \<and> customers d' = customers d \<and> gl_accounts d' = gl_accounts d
    \<and> uid_next d \<le> uid_next d'"
  proof (cases "auto_post_enabled st")
    case True
    with p have rp: "receipt_posting sha ?r tender (re_fx_rate r)
        (overpay_specs (re_currency r) (re_fx_rate r) (st_rest s) (st_specs s)) actor (put_receipt ?r (st_db s)) = Inr (r', d')" by simp
    note t = receipt_posting_tables [OF rp]
    obtain g where g: "r' = ?r\<lparr>re_gl_entry_id := g\<rparr>" using t(5) by blast
    have "ar_receipts d' = upd_rows (\<lambda>x. re_id x = re_id r) (\<lambda>_. r') (ar_receipts d)"
      using t(6)
    proof
      assume "ar_receipts d' = upd_rows (\<lambda>x. re_id x = re_id ?r) (\<lambda>_. r') (ar_receipts (put_receipt ?r (st_db s)))"
      also have "\<dots> = upd_rows (\<lambda>x. re_id x = re_id ?r) (\<lambda>_. r') (ar_receipts (st_db s))"
        unfolding put_receipt_def using upd_row_twice [of re_id ?r r'] by (simp add: g)
      finally show ?thesis using fr by simp
    qed (use fr in \<open>simp add: put_receipt_def\<close>)
    then show ?thesis using t(1-4) g fr by (auto simp: put_receipt_def)
  next
    case False
    with p have "r' = ?r" "d' = put_receipt ?r (st_db s)" by auto
    then show ?thesis using fr by (auto simp: put_receipt_def intro: exI [of _ "re_gl_entry_id r"])
  qed
  then show "\<exists>g. r' = r\<lparr>re_unapplied_amount := q_money (st_rest s), re_gl_entry_id := g\<rparr>"
    "ar_receipts d' = upd_rows (\<lambda>x. re_id x = re_id r) (\<lambda>_. r') (ar_receipts d)"
    "ar_invoices d' = ar_invoices (st_db s)" "customers d' = customers d" "gl_accounts d' = gl_accounts d"
    "uid_next d \<le> uid_next d'" by blast+
qed

lemma settle_receipt_usd:
  assumes u: "usd_ledger d" and r: "r \<in> set (ar_receipts d)" "re_unapplied_amount r = 0" "re_currency r = ''USD''"
    "money_col (re_amount r)" "0 \<le> re_amount r"
    and p: "settle_receipt sha r tender st actor als d = Inr (r', d')" "als = None \<or> als = Some []"
  shows "usd_ledger d'"
    and "usd_balance d' c = usd_balance d c - (if c = re_customer_id r then re_amount r else 0)"
proof -
  obtain s where s: "s = fifo_receipt (re_id r) (open_invoices d (re_customer_id r) (re_currency r))
      \<lparr>st_db = d, st_specs = [], st_rest = re_amount r\<rparr>" by simp
  note rows = settle_receipt_rows [OF p s]
  obtain g where g: "r' = r\<lparr>re_unapplied_amount := q_money (st_rest s), re_gl_entry_id := g\<rparr>" using rows(1) by blast
  have sc: "at_scale 2 (re_amount r)" using r(4) by (simp add: money_col_def)
  note f = fifo_receipt_usd [OF u sc r(5) s]
  have rest: "q_money (st_rest s) = st_rest s" using f(4) by simp
  have money: "money_col (st_rest s)" using f(2-4) r(4) by (auto simp: money_col_def)
  have ids: "map re_id (ar_receipts d') = map re_id (ar_receipts d)"
    unfolding rows(2) upd_rows_def map_map by (intro map_cong) (auto simp: g)
  show "usd_ledger d'"
  proof -
    have "usd_receipt x \<and> re_customer_id x \<in> cu_id ` set (customers d)" if "x \<in> set (ar_receipts d')" for x
      using that u r(1) money unfolding rows(2)
      by (auto simp: usd_ledger_def usd_receipt_def g rest elim!: set_upd_rowsE split: if_splits)
    then show ?thesis
      using u f(5,6) ids rows(3-6) fresh_ids_mono [OF _ rows(6)] by (simp add: usd_ledger_def)
  qed
  have "distinct (map re_id (ar_receipts d))" using u by (simp add: usd_ledger_def fresh_ids_def)
  then have "sum_of (left_of c) (ar_receipts d') = sum_of (left_of c) (ar_receipts d) - left_of c r + left_of c r'"
    unfolding rows(2) using r(1) by (rule sum_of_upd_row)
  moreover have "left_of c r = 0" "left_of c r' = (if c = re_customer_id r then st_rest s else 0)"
    by (simp_all add: left_of_def r(2) g rest)
  ultimately show "usd_balance d' c = usd_balance d c - (if c = re_customer_id r then re_amount r else 0)"
    using f(1) [of c] by (auto simp: usd_balance_def rows(3))
qed

section \<open>What a receipt does to the control account\<close>

lemma resolve_gl_inj:
  assumes "accounts_ok d" "resolve_gl d k = Inr i"
  shows "resolve_gl d k' = Inr i \<longleftrightarrow> k' = k"
proof
  assume "resolve_gl d k' = Inr i"
  then obtain a b where "a \<in> set (gl_accounts d)" "acc_id a = i" "acc_system_key a = Some k'"
    "b \<in> set (gl_accounts d)" "acc_id b = i" "acc_system_key b = Some k"
    using resolve_gl_account [OF assms(2)] resolve_gl_account [of d k' i] by blast
  moreover from this have "a = b" using assms(1) by (auto simp: accounts_ok_def distinct_map inj_on_def)
  ultimately show "k' = k" by simp
qed (use assms(2) in simp)

lemma receipt_legs_control:
  assumes "settlement_legs ''receipt'' ''USD'' specs ''AR'' key tender rt = Inr legs" "key \<noteq> ''AR''"
    and "\<And>al. al \<in> set specs \<Longrightarrow> ag_invoice_fx_rate al = 1 \<and> money_col (ag_applied_money al)"
  shows "sum_of (\<lambda>l. if lg_debit l then lg_base l else - lg_base l) (filter (\<lambda>l. lg_system_key l = ''AR'') legs)
       = - sum_of ag_applied_money specs"
proof -
  obtain ctl cash_money cash_base where c:
    "map_res (control_leg ''receipt'' ''USD'' ''AR'') specs = Inr ctl"
    "legs = (ctl @ [Leg key (''receipt'' = ''receipt'') cash_money cash_base tender rt
                     (if ''receipt'' = ''receipt'' then ''receipt'' else ''cash out'')])
       @ fx_plug (ctl @ [Leg key (''receipt'' = ''receipt'') cash_money cash_base tender rt
                     (if ''receipt'' = ''receipt'' then ''receipt'' else ''cash out'')])"
    by (rule settlement_parts [OF assms(1)])
  have plug: "lg_system_key l \<noteq> ''AR''" if "l \<in> set (fx_plug xs)" for l xs
    using that by (auto simp: fx_plug_def Let_def Leg_def FX_LOSS_def FX_GAIN_def split: if_splits)
  have "filter (\<lambda>l. lg_system_key l = ''AR'') (fx_plug xs) = []" for xs
    using plug by (auto simp: filter_empty_conv)
  moreover have "filter (\<lambda>l. lg_system_key l = ''AR'') ctl = ctl"
    using control_legs(3) [OF c(1)] by (auto intro: filter_True)
  ultimately have "filter (\<lambda>l. lg_system_key l = ''AR'') legs = ctl" using assms(2) by (simp add: c(2) Leg_def)
  moreover have "sum_of (\<lambda>l. if lg_debit l then lg_base l else - lg_base l) ctl = - sum_of lg_base ctl"
    unfolding sum_of_uminus [symmetric] using control_legs(4) [OF c(1)] by (intro sum_of_cong) auto
  moreover have "sum_of lg_base ctl = sum_of ag_applied_money specs"
    unfolding control_legs_sums(2) [OF c(1)]
    by (rule sum_of_cong) (use assms(3) in \<open>auto simp: ctx_money money_col_def [THEN iffD1]\<close>)
  ultimately show ?thesis by simp
qed

lemma receipt_posting_control:
  assumes "receipt_posting sha r tender rt specs actor d = Inr (r', d')" "accounts_ok d" "resolve_gl d ''AR'' = Inr i"
    and "re_currency r = ''USD''" "re_payment_system_key r \<noteq> ''AR''"
    and sp: "\<And>al. al \<in> set specs \<Longrightarrow> ag_invoice_fx_rate al = 1 \<and> money_col (ag_applied_money al)"
  shows "control_balance d' i = control_balance d i - sum_of ag_applied_money specs"
  using assms(1)
proof (cases rule: receipt_posting_cases)
  case (2 legs ls e d1)
  have legs: "settlement_legs ''receipt'' ''USD'' specs ''AR'' (re_payment_system_key r) tender rt = Inr legs"
    using 2(2) assms(4) by simp
  have "request_net (post_args (re_date r) (''AR receipt '' @ re_memo r) SOURCE_AR_RECEIPT None ls actor) i
      = sum_of (\<lambda>l. if lg_debit l then lg_base l else - lg_base l) (filter (\<lambda>l. lg_system_key l = ''AR'') legs)"
    unfolding request_net_def using leg_lines_net [OF 2(3) settlement_legs_balanced(2) [OF 2(2)] resolve_gl_inj [OF assms(2,3)]]
    by (simp add: post_args_def)
  also have "\<dots> = - sum_of ag_applied_money specs" by (rule receipt_legs_control [OF legs assms(5) sp])
  finally show ?thesis
    using control_balance_posted [OF 2(4), of i] 2(6) by (simp add: put_receipt_def control_balance_def)
qed simp

section \<open>A receipt and an invoice, on both sides\<close>

definition usd_cash :: "db \<Rightarrow> string \<Rightarrow> bool" where
  "usd_cash d key \<longleftrightarrow> key \<noteq> ''AR'' \<and> (\<forall>a \<in> set (gl_accounts d). acc_system_key a = Some key \<longrightarrow> tender_of a = ''USD'')"

lemma settle_receipt_control:
  assumes u: "usd_ledger d" "accounts_ok d" "resolve_gl d ''AR'' = Inr i"
    and r: "re_currency r = ''USD''" "re_fx_rate r = 1" "re_payment_system_key r \<noteq> ''AR''" "money_col (re_amount r)" "0 \<le> re_amount r"
    and p: "settle_receipt sha r tender st actor als d = Inr (r', d')" "als = None \<or> als = Some []" "auto_post_enabled st"
  shows "control_balance d' i = control_balance d i - re_amount r"
proof -
  obtain s where s: "s = fifo_receipt (re_id r) (open_invoices d (re_customer_id r) (re_currency r))
      \<lparr>st_db = d, st_specs = [], st_rest = re_amount r\<rparr>" by simp
  have al: "allocate_receipt (re_id r) (re_customer_id r) (re_currency r) als \<lparr>st_db = d, st_specs = [], st_rest = re_amount r\<rparr> = Inr s"
    using p(2) s by (auto simp: allocate_receipt_def)
  let ?r = "r\<lparr>re_unapplied_amount := q_money (st_rest s)\<rparr>"
  let ?specs = "overpay_specs (re_currency r) (re_fx_rate r) (st_rest s) (st_specs s)" and ?d = "put_receipt ?r (st_db s)"
  have post: "receipt_posting sha ?r tender (re_fx_rate r) ?specs actor ?d = Inr (r', d')"
    using p(1,3) al by (auto simp: settle_receipt_def Let_def cong: if_cong)
  have sc: "at_scale 2 (re_amount r)" using r(4) by (simp add: money_col_def)
  note f = fifo_receipt_usd [OF u(1) sc r(5) s]
  have sp: "ag_invoice_fx_rate al = 1 \<and> money_col (ag_applied_money al)" if "al \<in> set ?specs" for al
    using that f(2-4,8) r(1,4) by (auto simp: overpay_specs_def Allocation_def money_col_def split: if_splits)
  have sm: "sum_of ag_applied_money ?specs = re_amount r"
    using f(2,4,7) by (auto simp: overpay_specs_def Allocation_def)
  note fr = fifo_receipt_frame [of "re_id r" "open_invoices d (re_customer_id r) (re_currency r)"
      "\<lparr>st_db = d, st_specs = [], st_rest = re_amount r\<rparr>", folded s]
  have ok: "accounts_ok ?d"
    using same_books_accounts_ok [OF same_books_trans [OF allocate_same_books [OF al] put_receipt_same_books]] u(2) by simp
  have "resolve_gl ?d ''AR'' = Inr i" using u(3) fr by (simp add: resolve_gl_def put_receipt_def)
  from receipt_posting_control [OF post ok this _ _ sp] r(1,3)
  have "control_balance d' i = control_balance ?d i - sum_of ag_applied_money ?specs" by simp
  then show ?thesis unfolding sm using fr by (simp add: control_balance_def put_receipt_def)
qed

lemma post_receipt_usd:
  assumes u: "usd_ledger d" "accounts_ok d"
    and c: "or_usd cur = ''USD''" "als = None \<or> als = Some []" "\<bar>q_money amount\<bar> < 10 ^ 16" "usd_cash d key"
    and p: "post_receipt sha c dt amount key memo st actor als cur None d = Inr (r, d')"
  shows "usd_ledger d'" "c \<in> cu_id ` set (customers d)" "customers d' = customers d" "gl_accounts d' = gl_accounts d"
    and "usd_balance d' x = usd_balance d x - (if x = c then q_money amount else 0)"
    and "auto_post_enabled st \<Longrightarrow> resolve_gl d ''AR'' = Inr i \<Longrightarrow> control_balance d' i = control_balance d i - q_money amount"
proof -
  from p obtain acc no d1 r0 d2 where s:
    "0 < q_money amount" "scalar_one_or_none (\<lambda>a. acc_system_key a = Some key) (gl_accounts d) = Inr (Some acc)"
    "next_doc_no ''RC'' dt d = (no, d1)"
    "add_ar_receipt (new_receipt no c dt (or_usd cur) (doc_rate st (tender_of acc) None) (q_money amount) key memo) d1 = Inr (r0, d2)"
    "settle_receipt sha r0 (tender_of acc) st actor als d2 = Inr (r, d')"
    by (rule post_receipt_steps)
  have "tender_of acc = ''USD''" using s(2) c(4) by (auto simp: usd_cash_def dest: scalar_one_or_none_SomeD)
  then have rate: "doc_rate st (tender_of acc) None = 1" by (simp add: doc_rate_def)
  note a = add_ar_receipt_frame [OF s(4)] and n = next_doc_no_tables [OF s(3)]
  have r0: "re_id r0 = uid (uid_next d)" "re_customer_id r0 = c" "re_currency r0 = ''USD''" "re_fx_rate r0 = 1" "re_amount r0 = q_money amount"
    "re_payment_system_key r0 = key" "re_unapplied_amount r0 = 0"
    using a(2) n(6) by (simp_all add: new_receipt_def rate c(1))
  have d2: "ar_invoices d2 = ar_invoices d" "ar_receipts d2 = ar_receipts d @ [r0]" "customers d2 = customers d"
    "gl_accounts d2 = gl_accounts d" "gl_lines d2 = gl_lines d" "uid_next d2 = Suc (uid_next d)"
    by (simp_all add: a(1) n)
  show c_in: "c \<in> cu_id ` set (customers d)" using a(3) by (simp add: new_receipt_def n)
  have u2: "usd_ledger d2"
    using u(1) c_in fresh_ids_snoc [of "uid_next d" "map re_id (ar_receipts d)"] fresh_ids_mono [of "uid_next d" _ "Suc (uid_next d)"]
    by (auto simp: usd_ledger_def d2 r0 usd_receipt_def money_col_def)
  have r_in: "r0 \<in> set (ar_receipts d2)" by (simp add: d2)
  have m: "money_col (re_amount r0)" "0 \<le> re_amount r0" using c(3) s(1) by (simp_all add: money_col_def r0)
  note st = settle_receipt_usd [OF u2 r_in r0(7) r0(3) m s(5) c(2)] settle_receipt_rows [OF s(5) c(2) refl]
  show "usd_ledger d'" "customers d' = customers d" "gl_accounts d' = gl_accounts d"
    using st(1,6,7) d2 by simp_all
  show "usd_balance d' x = usd_balance d x - (if x = c then q_money amount else 0)"
    using st(2) [of x] by (simp add: usd_balance_def d2 r0 left_of_def)
  show "control_balance d' i = control_balance d i - q_money amount" if "auto_post_enabled st" "resolve_gl d ''AR'' = Inr i"
  proof -
    have "accounts_ok d2"
      by (rule same_books_accounts_ok [OF same_books_trans [OF next_doc_no_frame(2) [OF s(3)] add_ar_receipt_same_books [OF s(4)]] u(2)])
    moreover have "resolve_gl d2 ''AR'' = Inr i" using that(2) by (simp add: resolve_gl_def d2)
    ultimately have "control_balance d' i = control_balance d2 i - re_amount r0"
      using c(4) by (intro settle_receipt_control [OF u2 _ _ r0(3,4) _ m s(5) c(2) that(1)]) (simp_all add: r0 usd_cash_def)
    then show ?thesis by (simp add: control_balance_def d2 r0)
  qed
qed

text \<open>An invoice stored, whatever its entry.\<close>

lemma store_invoice_usd:
  assumes u: "usd_ledger d" and s: "store_invoice dt row line xs d = Inr (i, d')"
    and row: "\<And>no. row no = (row [])\<lparr>inv_no := no\<rparr>" "inv_customer_id (row []) = c" "inv_currency (row []) = ''USD''"
      "inv_fx_rate (row []) = 1" "inv_amount_paid (row []) = 0" "inv_status (row []) = AR_OPEN"
      "money_col (inv_total (row []))" "0 \<le> inv_total (row [])"
  shows "usd_ledger d'" "usd_balance d' x = usd_balance d x + (if x = c then inv_total (row []) else 0)"
    "customers d' = customers d" "gl_accounts d' = gl_accounts d" "gl_lines d' = gl_lines d" "c \<in> cu_id ` set (customers d)"
proof -
  from s obtain no d1 d2 where t: "next_doc_no ''AR'' dt d = (no, d1)" "add_ar_invoice (row no) d1 = Inr (i, d2)"
    "d' = fold (\<lambda>x. add_ar_line (line (inv_id i) x)) xs d2" by (rule store_invoice_steps)
  obtain n ls where f: "d' = d2\<lparr>uid_next := n, ar_invoice_lines := ls\<rparr>" "uid_next d2 \<le> n"
    using fold_ar_line_frame [of "line (inv_id i)" xs d2] t(3) by blast
  note a = add_ar_invoice_frame [OF t(2)] and m = next_doc_no_tables [OF t(1)]
  have i: "i = (row [])\<lparr>inv_no := no, inv_id := uid (uid_next d)\<rparr>"
    by (subst a(2), subst row(1), simp add: m)
  have d': "ar_invoices d' = ar_invoices d @ [i]" "ar_receipts d' = ar_receipts d" "Suc (uid_next d) \<le> uid_next d'"
    using f(2) by (simp_all add: f(1) a(1) m)
  show "customers d' = customers d" "gl_accounts d' = gl_accounts d" "gl_lines d' = gl_lines d"
    by (simp_all add: f(1) a(1) m)
  show c_in: "c \<in> cu_id ` set (customers d)" using a(3) by (simp add: m row(1) [of no] row(2))
  have wf: "usd_invoice i" using row(3-8) by (simp add: i usd_invoice_def invoice_wf_def money_col_def)
  have ids: "fresh_ids (uid_next d') (map inv_id (ar_invoices d'))"
  proof -
    have "fresh_ids (Suc (uid_next d)) (map inv_id (ar_invoices d) @ [uid (uid_next d)])"
      using u by (intro fresh_ids_snoc) (simp add: usd_ledger_def)
    then show ?thesis using fresh_ids_mono d'(3) by (simp add: d'(1) i)
  qed
  show "usd_ledger d'"
    using u wf c_in ids fresh_ids_mono [of "uid_next d" _ "uid_next d'"] d'(3) row(2)
    by (auto simp: usd_ledger_def d'(1,2) \<open>customers d' = customers d\<close> i)
  show "usd_balance d' x = usd_balance d x + (if x = c then inv_total (row []) else 0)"
    using row(2,5,6) by (simp add: usd_balance_def d'(1,2) i owed_by_def open_invoice_def)
qed

definition plain_amounts :: "invoice_amounts \<Rightarrow> bool" where
  "plain_amounts am \<longleftrightarrow> money_col (am_subtotal am) \<and> money_col (am_vat am) \<and> money_col (am_total am)
     \<and> 0 \<le> am_vat am \<and> 0 \<le> am_total am"

lemma invoice_amounts_usd:
  assumes "invoice_amounts_of lines vat 1 = Inr am" "plain_amounts am"
  shows "am_total am = am_subtotal am + am_vat am" "am_base_subtotal am = am_subtotal am" "am_base_vat am = am_vat am"
    "am_base_total am = am_total am"
  using assms by (auto simp: invoice_amounts_of_def Let_def res_simps plain_amounts_def ctx_money at_scale_add)

lemma standalone_invoice_usd:
  assumes u: "usd_ledger d" "accounts_ok d"
    and cur: "\<forall>cu \<in> set (customers d). cu_id cu = c \<longrightarrow> or_usd (cu_currency cu) = ''USD''"
    and am: "invoice_amounts_of lines vat 1 = Inr am" "plain_amounts am"
    and p: "post_standalone_invoice sha c dt due lines memo vat st actor None d = Inr (i, d')"
  shows "usd_ledger d'" "usd_balance d' x = usd_balance d x + (if x = c then am_total am else 0)"
    "customers d' = customers d" "gl_accounts d' = gl_accounts d" "c \<in> cu_id ` set (customers d)"
    and "auto_post_enabled st \<Longrightarrow> resolve_gl d ''AR'' = Inr j \<Longrightarrow> control_balance d' j = control_balance d j + am_total am"
proof -
  from p obtain cu am' entry_id d1 where s:
    "scalar_one_or_none (\<lambda>x. cu_id x = c) (customers d) = Inr (Some cu)"
    "invoice_amounts_of lines vat (doc_rate st (or_usd (cu_currency cu)) None) = Inr am'"
    "check_credit_limit d cu (am_base_total am') = Inr ()"
    "invoice_entry sha st dt memo am' (or_usd (cu_currency cu)) (doc_rate st (or_usd (cu_currency cu)) None) actor d = Inr (entry_id, d1)"
    "store_invoice dt (standalone_invoice c dt due (or_usd (cu_currency cu)) (doc_rate st (or_usd (cu_currency cu)) None) am' entry_id memo)
       standalone_line lines d1 = Inr (i, d')"
    by (rule standalone_invoice_steps)
  have usd: "or_usd (cu_currency cu) = ''USD''" using s(1) cur by (auto dest: scalar_one_or_none_SomeD)
  then have rate: "doc_rate st (or_usd (cu_currency cu)) None = 1" by (simp add: doc_rate_def)
  have am': "am' = am" using s(2) am(1) by (simp add: rate)
  note base = invoice_amounts_usd [OF am]
  have d1: "ar_invoices d1 = ar_invoices d \<and> ar_receipts d1 = ar_receipts d \<and> customers d1 = customers d
      \<and> gl_accounts d1 = gl_accounts d \<and> uid_next d \<le> uid_next d1"
    using s(4) post_entry_tables by (auto simp: invoice_entry_def res_simps split: if_splits)
  then have u1: "usd_ledger d1" using u(1) fresh_ids_mono by (auto simp: usd_ledger_def)
  note st = store_invoice_usd [OF u1 s(5), where c = c]
  have pre: "standalone_invoice c dt due ''USD'' 1 am entry_id memo no
      = (standalone_invoice c dt due ''USD'' 1 am entry_id memo [])\<lparr>inv_no := no\<rparr>" for no
    by (simp add: standalone_invoice_def)
  have m: "money_col (am_total am)" "0 \<le> am_total am" using am(2) by (simp_all add: plain_amounts_def)
  note st = store_invoice_usd [OF u1 s(5) [unfolded am' usd rate [unfolded usd]] pre, where c = c, simplified standalone_invoice_def, simplified, OF m]
  show "usd_ledger d'" "customers d' = customers d" "gl_accounts d' = gl_accounts d" "c \<in> cu_id ` set (customers d)"
    using st(1,3,4,6) d1 by simp_all
  show "usd_balance d' x = usd_balance d x + (if x = c then am_total am else 0)"
    using st(2) [of x] d1 by (simp add: usd_balance_def)
  show "control_balance d' j = control_balance d j + am_total am" if "auto_post_enabled st" "resolve_gl d ''AR'' = Inr j"
  proof -
    from s(4) that(1) obtain ls e where ls: "invoice_gl_lines d am ''USD'' 1 = Inr ls"
      and pe: "post_entry sha (post_args dt (''AR invoice '' @ memo) SOURCE_AR_INVOICE None ls actor) d = Inr (e, d1)"
      by (auto simp: invoice_entry_def res_simps am' usd rate [unfolded usd])
    have other: "k \<noteq> j" if "resolve_gl d key = Inr k" "key \<noteq> ''AR''" for k key
      using resolve_gl_inj [OF u(2) \<open>resolve_gl d ''AR'' = Inr j\<close>, of key] that by auto
    have "request_net (post_args dt (''AR invoice '' @ memo) SOURCE_AR_INVOICE None ls actor) j = q_money (am_base_total am)"
      using ls that(2) other
      by (auto simp: invoice_gl_lines_def res_simps request_net_def post_args_def fx_dr_def fx_cr_def GLLine_def)
    then have "control_balance d1 j = control_balance d j + am_total am"
      using control_balance_posted [OF pe, of j] m(1) by (simp add: base money_col_def)
    then show ?thesis using st(5) by (simp add: control_balance_def)
  qed
qed

section \<open>The tie-out as an invariant\<close>

lemma scalar_one_resolve:
  "scalar_one (\<lambda>a. acc_system_key a = Some key) (gl_accounts d) = Inr a \<Longrightarrow> resolve_gl d key = Inr (acc_id a)"
  by (auto simp: scalar_one_def resolve_gl_def scalar_one_or_none_def split: list.splits)

lemma resolve_scalar_one:
  "resolve_gl d key = Inr i \<Longrightarrow> \<exists>a. scalar_one (\<lambda>a. acc_system_key a = Some key) (gl_accounts d) = Inr a \<and> acc_id a = i"
  by (auto simp: scalar_one_def resolve_gl_def scalar_one_or_none_def res_simps split: list.splits)

definition subledger :: "db \<Rightarrow> dec" where
  "subledger d = sum_of (\<lambda>c. usd_balance d (cu_id c)) (customers d)"

definition ar_tied :: "(string \<Rightarrow> string) \<Rightarrow> db \<Rightarrow> bool" where
  "ar_tied sha d \<longleftrightarrow> journal_ok sha d \<and> usd_ledger d
     \<and> (\<exists>i. resolve_gl d ''AR'' = Inr i \<and> control_balance d i = subledger d)"

text \<open>Tied is what the check reports as a match.\<close>

lemma verify_ar_control_usd:
  assumes "journal_ok sha d" "usd_ledger d" "resolve_gl d ''AR'' = Inr i"
  shows "verify_ar_control d = Inr \<lparr>ac_gl_balance = control_balance d i, ac_subledger = subledger d,
      ac_matches = (control_balance d i = subledger d)\<rparr>"
proof -
  obtain a where a: "scalar_one (\<lambda>a. acc_system_key a = Some ''AR'') (gl_accounts d) = Inr a" "acc_id a = i"
    using resolve_scalar_one [OF assms(3)] by blast
  have "sum_of (\<lambda>c. customer_open_balance d (cu_id c)) (customers d) = subledger d"
    unfolding subledger_def by (rule sum_of_cong) (simp add: customer_open_balance_usd [OF assms(2)])
  moreover have "at_scale 2 (subledger d)"
    unfolding subledger_def by (intro at_scale_sum_of) (simp add: usd_balance_scaled [OF assms(2)])
  moreover have "at_scale 2 (control_balance d i)" by (rule control_balance_scaled [OF assms(1)])
  ultimately show ?thesis using a by (simp add: verify_ar_control_def Let_def control_balance_def)
qed

lemma subledger_shift:
  assumes "\<And>x. usd_balance d' x = usd_balance d x + (if x = c then v else 0)" "customers d' = customers d"
    "distinct (map cu_id (customers d))" "c \<in> cu_id ` set (customers d)"
  shows "subledger d' = subledger d + v"
proof -
  have "sum_of (\<lambda>x. if cu_id x = c then v else 0) cs = v" if "distinct (map cu_id cs)" "c \<in> cu_id ` set cs" for cs
    using that
  proof (induction cs)
    case (Cons x cs)
    have "sum_of (\<lambda>x. if cu_id x = c then v else 0) cs = 0" if "c \<notin> cu_id ` set cs"
      using that by (intro sum_of_zero) auto
    with Cons show ?case by auto
  qed simp
  then show ?thesis using assms(3,4) by (simp add: subledger_def assms(1,2) sum_of_add)
qed

text \<open>
  The operations of a shop that trades in dollars with the accounting flag on: receipts
  allocated first in, first out to a dollar cash account, standalone invoices, new
  customers, postings that leave the AR account alone, and writes elsewhere.
\<close>

inductive usd_ar_step :: "(string \<Rightarrow> string) \<Rightarrow> db \<Rightarrow> db \<Rightarrow> bool" for sha where
  receipt: "post_receipt sha c dt amount key memo st actor als cur None d = Inr (r, d')
     \<Longrightarrow> auto_post_enabled st \<Longrightarrow> or_usd cur = ''USD'' \<Longrightarrow> als = None \<or> als = Some [] \<Longrightarrow> \<bar>q_money amount\<bar> < 10 ^ 16
     \<Longrightarrow> usd_cash d key \<Longrightarrow> usd_ar_step sha d d'"
| invoice: "post_standalone_invoice sha c dt due lines memo vat st actor None d = Inr (i, d')
     \<Longrightarrow> auto_post_enabled st \<Longrightarrow> \<forall>cu \<in> set (customers d). cu_id cu = c \<longrightarrow> or_usd (cu_currency cu) = ''USD''
     \<Longrightarrow> invoice_amounts_of lines vat 1 = Inr am \<Longrightarrow> plain_amounts am \<Longrightarrow> usd_ar_step sha d d'"
| new_customer: "create_customer b d = (cu, d') \<Longrightarrow> usd_ar_step sha d d'"
| posting: "post_entry sha q d = Inr (e, d') \<Longrightarrow> proper_request d q
     \<Longrightarrow> (\<And>i. resolve_gl d ''AR'' = Inr i \<Longrightarrow> request_net q i = 0) \<Longrightarrow> usd_ar_step sha d d'"
| elsewhere: "same_books d d' \<Longrightarrow> ar_invoices d' = ar_invoices d \<Longrightarrow> ar_receipts d' = ar_receipts d
     \<Longrightarrow> customers d' = customers d \<Longrightarrow> resolve_gl d' ''AR'' = resolve_gl d ''AR'' \<Longrightarrow> usd_ar_step sha d d'"

lemma create_customer_usd:
  assumes "usd_ledger d" "create_customer b d = (cu, d')"
  shows "usd_ledger d'" "subledger d' = subledger d"
proof -
  let ?u = "uid (uid_next d)"
  have d': "customers d' = customers d @ [cu]" "cu_id cu = ?u" "ar_invoices d' = ar_invoices d" "ar_receipts d' = ar_receipts d"
    "uid_next d' = Suc (uid_next d)"
    using assms(2) by (auto simp: create_customer_def fresh_uid_def Let_def)
  have new: "?u \<notin> cu_id ` set (customers d)" using assms(1) by (force simp: usd_ledger_def fresh_ids_def)
  show "usd_ledger d'"
    using assms(1) fresh_ids_snoc [of "uid_next d" "map cu_id (customers d)"] fresh_ids_mono [of "uid_next d" _ "Suc (uid_next d)"]
    by (auto simp: usd_ledger_def d')
  have "sum_of (owed_by ?u) (ar_invoices d) = 0" "sum_of (left_of ?u) (ar_receipts d) = 0"
  proof -
    have "inv_customer_id i \<noteq> ?u" if "i \<in> set (ar_invoices d)" for i
      using assms(1) new that unfolding usd_ledger_def by metis
    moreover have "re_customer_id r \<noteq> ?u" if "r \<in> set (ar_receipts d)" for r
      using assms(1) new that unfolding usd_ledger_def by metis
    ultimately show "sum_of (owed_by ?u) (ar_invoices d) = 0" "sum_of (left_of ?u) (ar_receipts d) = 0"
      by (auto intro!: sum_of_zero simp: owed_by_def left_of_def)
  qed
  then show "subledger d' = subledger d" by (simp add: subledger_def usd_balance_def d')
qed

lemma usd_ar_step_tied:
  assumes "usd_ar_step sha d d'" "ar_tied sha d"
  shows "ar_tied sha d'"
  using assms
proof (induction rule: usd_ar_step.induct)
  case (receipt c dt amount key memo st actor als cur d r d')
  then obtain i where i: "resolve_gl d ''AR'' = Inr i" "control_balance d i = subledger d"
    and ok: "journal_ok sha d" "usd_ledger d" by (auto simp: ar_tied_def)
  have acc: "accounts_ok d" using ok(1) by (simp add: journal_ok_def)
  note r = post_receipt_usd [OF ok(2) acc receipt(3-6,1)]
  have "subledger d' = subledger d + - q_money amount"
    by (rule subledger_shift [where c = c]) (use r(2,3,5) ok(2) in \<open>auto simp: usd_ledger_def fresh_ids_def\<close>)
  moreover have "journal_ok sha d'" by (rule jok.inv_post_receipt [OF receipt(1) ok(1)])
  moreover have "resolve_gl d' ''AR'' = Inr i" using i(1) r(4) by (simp add: resolve_gl_def)
  ultimately show ?case using r(1) r(6) [OF receipt(2) i(1)] i(2) by (auto simp: ar_tied_def)
next
  case (invoice c dt due lines memo vat st actor d x d' am)
  then obtain i where i: "resolve_gl d ''AR'' = Inr i" "control_balance d i = subledger d"
    and ok: "journal_ok sha d" "usd_ledger d" by (auto simp: ar_tied_def)
  have acc: "accounts_ok d" using ok(1) by (simp add: journal_ok_def)
  note r = standalone_invoice_usd [OF ok(2) acc invoice(3-5,1)]
  have "subledger d' = subledger d + am_total am"
    by (rule subledger_shift [where c = c]) (use r(2,3,5) ok(2) in \<open>auto simp: usd_ledger_def fresh_ids_def\<close>)
  moreover have "journal_ok sha d'" by (rule jok.inv_standalone_invoice [OF invoice(1) ok(1)])
  moreover have "resolve_gl d' ''AR'' = Inr i" using i(1) r(4) by (simp add: resolve_gl_def)
  ultimately show ?case using r(1) r(6) [OF invoice(2) i(1)] i(2) by (auto simp: ar_tied_def)
next
  case (new_customer b d cu d')
  have sb: "same_books d d'" "gl_accounts d' = gl_accounts d" "gl_lines d' = gl_lines d"
    using new_customer(1) by (auto simp: create_customer_def fresh_uid_def same_books_def Let_def)
  show ?case
    using new_customer(2) create_customer_usd [OF _ new_customer(1)] jok.inv_frame [OF sb(1)] sb(2,3)
    by (auto simp: ar_tied_def resolve_gl_def control_balance_def)
next
  case (posting q d e d')
  note t = post_entry_tables [OF posting(1)]
  obtain i where i: "resolve_gl d ''AR'' = Inr i" "control_balance d i = subledger d" "journal_ok sha d" "usd_ledger d"
    using posting(4) by (auto simp: ar_tied_def)
  have "journal_ok sha d'" by (rule jok.inv_post [OF posting(1,2) i(3)])
  moreover have "control_balance d' i = control_balance d i"
    using control_balance_posted [OF posting(1), of i] posting(3) [OF i(1)] by simp
  moreover have "usd_ledger d'" using i(4) t fresh_ids_mono by (auto simp: usd_ledger_def)
  ultimately show ?case using i(1,2) t by (auto simp: ar_tied_def subledger_def usd_balance_def resolve_gl_def)
next
  case (elsewhere d d')
  then have "journal_ok sha d'" using jok.inv_frame by (auto simp: ar_tied_def)
  with elsewhere show ?case
    using fresh_ids_mono by (auto simp: ar_tied_def subledger_def usd_balance_def usd_ledger_def same_books_def control_balance_def)
qed

lemma usd_ar_reach_tied: "(usd_ar_step sha)\<^sup>*\<^sup>* d d' \<Longrightarrow> ar_tied sha d \<Longrightarrow> ar_tied sha d'"
  by (induction rule: rtranclp_induct) (auto intro: usd_ar_step_tied)

end
