(* ===== verification/Receivables_Reports.thy ===== *)
theory Receivables_Reports
  imports Receivables
begin

text \<open>
  Aging and statements of \<open>app/core/ar.py\<close>: every open invoice is counted in exactly one
  bucket, once in the totals and once for its customer; a statement closes with what was
  invoiced less what was received, and its events come in order of date.
\<close>

section \<open>Aging\<close>

lemma sum_snd_dict_upd: "sum_of snd (dict_upd k 0 (\<lambda>v. v + x) m) = sum_of snd m + x"
  by (induction m) auto

lemma sum_snd_dict_upd2:
  assumes "\<And>m. g (f m) = g m + x" "g e = 0"
  shows "sum_of (\<lambda>kv. g (snd kv)) (dict_upd k e f m) = sum_of (\<lambda>kv. g (snd kv)) m + x"
  using assms by (induction m) auto

definition aged :: "ar_invoice \<Rightarrow> dec" where
  "aged i = max 0 (invoice_owed i)"

lemma sum_customers:
  "sum_of (\<lambda>kv. sum_of snd (snd kv)) (dict_upd c empty_buckets (dict_upd b 0 (\<lambda>v. v + x)) m)
     = sum_of (\<lambda>kv. sum_of snd (snd kv)) m + x"
  by (rule sum_snd_dict_upd2) (simp_all add: sum_snd_dict_upd empty_buckets_def)

lemma aging_fold_sums:
  assumes "fold (aging_step as_of) invs (t0, c0) = (t, c)"
  shows "sum_of snd t = sum_of snd t0 + sum_of aged invs
    \<and> sum_of (\<lambda>kv. sum_of snd (snd kv)) c = sum_of (\<lambda>kv. sum_of snd (snd kv)) c0 + sum_of aged invs"
  using assms
proof (induction invs arbitrary: t0 c0)
  case (Cons i invs)
  obtain t1 c1 where s: "aging_step as_of i (t0, c0) = (t1, c1)" by fastforce
  have one: "sum_of snd t1 = sum_of snd t0 + aged i"
    "sum_of (\<lambda>kv. sum_of snd (snd kv)) c1 = sum_of (\<lambda>kv. sum_of snd (snd kv)) c0 + aged i"
    using s sum_customers by (auto simp: aging_step_def Let_def aged_def sum_snd_dict_upd max_def split: if_splits)
  have "fold (aging_step as_of) invs (t1, c1) = (t, c)" using Cons.prems s by simp
  from Cons.IH [OF this] one show ?case by simp
qed simp

lemma aging_fold_bucket:
  assumes "fold (aging_step as_of) invs (t0, c0) = (t, c)" "b \<in> set (map fst t0)" "set (map fst empty_buckets) \<subseteq> set (map fst t0)"
  shows "map_of t b = map_option (\<lambda>v. v + sum_of aged (filter (\<lambda>i. bucket (toordinal as_of - toordinal (inv_date i)) = b) invs)) (map_of t0 b)
    \<and> map fst t = map fst t0"
  using assms
proof (induction invs arbitrary: t0 c0)
  case (Cons i invs)
  obtain t1 c1 where s: "aging_step as_of i (t0, c0) = (t1, c1)" by fastforce
  let ?b = "bucket (toordinal as_of - toordinal (inv_date i))"
  have bk: "?b \<in> set (map fst empty_buckets)" by (simp add: bucket_def empty_buckets_def)
  have keys: "map fst (dict_upd k 0 f m) = map fst m" if "k \<in> set (map fst m)" for k and f :: "dec \<Rightarrow> dec" and m
    using that by (induction m) force+
  have t1: "t1 = (if invoice_owed i \<le> 0 then t0 else dict_upd ?b 0 (\<lambda>v. v + invoice_owed i) t0)"
    using s by (auto simp: aging_step_def Let_def split: if_splits)
  have "?b \<in> set (map fst t0)" using bk Cons.prems(3) by blast
  then have k1: "map fst t1 = map fst t0" unfolding t1 by (auto intro!: keys simp del: set_map)
  obtain v0 where v0: "map_of t0 b = Some v0" using Cons.prems(2) by (cases "map_of t0 b") (auto simp: map_of_eq_None_iff)
  have v1: "map_of t1 b = map_option (\<lambda>v. v + (if ?b = b then aged i else 0)) (map_of t0 b)"
    using v0 by (auto simp: t1 map_of_dict_upd aged_def max_def)
  have "map_of t b = map_option (\<lambda>v. v + sum_of aged (filter (\<lambda>i. bucket (toordinal as_of - toordinal (inv_date i)) = b) invs)) (map_of t1 b)
    \<and> map fst t = map fst t1"
    using Cons.prems s k1 by (intro Cons.IH [of t1 c1]) simp_all
  then show ?case by (auto simp: k1 v1 option.map_comp comp_def add.assoc)
qed (simp add: option.map_ident)

lemma sum_snd_q_buckets:
  "(\<And>k v. (k, v) \<in> set m \<Longrightarrow> at_scale 2 v) \<Longrightarrow> sum_of snd (q_buckets m) = sum_of snd m"
proof (induction m)
  case (Cons kv m)
  then have "at_scale 2 (snd kv)" "sum_of snd (q_buckets m) = sum_of snd m" by (cases kv; auto)+
  then show ?case by (cases kv) (simp add: q_buckets_def)
qed (simp add: q_buckets_def)

section \<open>Statements\<close>

lemma run_balance_final: "run_balance x es = (es', y) \<Longrightarrow> y = x + sum_of (\<lambda>e. se_debit e - se_credit e) es"
proof (induction es arbitrary: x es')
  case (Cons e es)
  obtain es1 where "run_balance (x + (se_debit e - se_credit e)) es = (es1, y)"
    using Cons.prems by (auto simp: Let_def split: prod.splits)
  from Cons.IH [OF this] show ?case by simp
qed simp

lemma run_balance_same: "run_balance x es = (es', y) \<Longrightarrow> map se_date es' = map se_date es \<and> map se_ref es' = map se_ref es"
  by (induction es arbitrary: x es') (auto simp: Let_def split: prod.splits)

lemma run_balance_last: "run_balance x es = (es', y) \<Longrightarrow> es \<noteq> [] \<Longrightarrow> se_balance (last es') = q_money y"
proof (induction es arbitrary: x es')
  case (Cons e es)
  obtain es1 where r: "run_balance (x + (se_debit e - se_credit e)) es = (es1, y)"
    and es': "es' = e\<lparr>se_balance := q_money (x + (se_debit e - se_credit e)), se_debit := q_money (se_debit e),
      se_credit := q_money (se_credit e)\<rparr> # es1"
    using Cons.prems by (auto simp: Let_def split: prod.splits)
  show ?case
  proof (cases "es = []")
    case False
    then have "es1 \<noteq> []" using run_balance_same [OF r] by auto
    with Cons.IH [OF r False] show ?thesis by (simp add: es')
  qed (use r in \<open>simp add: es'\<close>)
qed simp

lemma sum_of_mset_eq: "mset xs = mset ys \<Longrightarrow> sum_of f xs = sum_of f ys"
  unfolding sum_of_def by (metis mset_map sum_mset_sum_list)

lemma sum_of_sort_key: "sum_of f (sort_key k xs) = sum_of f xs"
  by (rule sum_of_mset_eq) simp

lemma statement_closes:
  "sm_closing_balance (customer_statement d c from_date until)
     = q_money (sum_of inv_total (filter (\<lambda>i. inv_customer_id i = c \<and> from_date \<le> inv_date i \<and> inv_date i \<le> until) (ar_invoices d))
        - sum_of re_amount (filter (\<lambda>r. re_customer_id r = c \<and> from_date \<le> re_date r \<and> re_date r \<le> until) (ar_receipts d)))"
proof -
  let ?i = "filter (\<lambda>i. inv_customer_id i = c \<and> from_date \<le> inv_date i \<and> inv_date i \<le> until) (ar_invoices d)"
  let ?r = "filter (\<lambda>r. re_customer_id r = c \<and> from_date \<le> re_date r \<and> re_date r \<le> until) (ar_receipts d)"
  let ?es = "sort_key (\<lambda>e. (se_date e, se_kind e)) (map invoice_event (sort_key inv_date ?i) @ map receipt_event (sort_key re_date ?r))"
  obtain es y where rb: "run_balance 0 ?es = (es, y)" by fastforce
  have "y = sum_of (\<lambda>e. se_debit e - se_credit e) (map invoice_event (sort_key inv_date ?i) @ map receipt_event (sort_key re_date ?r))"
    using run_balance_final [OF rb] by (simp only: sum_of_sort_key add_0)
  also have "\<dots> = sum_of inv_total (sort_key inv_date ?i) + sum_of (\<lambda>r. - re_amount r) (sort_key re_date ?r)"
    by (simp add: sum_of_map comp_def invoice_event_def receipt_event_def)
  also have "\<dots> = sum_of inv_total ?i - sum_of re_amount ?r"
    by (simp only: sum_of_sort_key sum_of_uminus diff_conv_add_uminus)
  finally show ?thesis using rb by (simp add: customer_statement_def Let_def)
qed

lemma statement_in_order: "sorted (map se_date (sm_events (customer_statement d c from_date until)))"
proof -
  let ?i = "filter (\<lambda>i. inv_customer_id i = c \<and> from_date \<le> inv_date i \<and> inv_date i \<le> until) (ar_invoices d)"
  let ?r = "filter (\<lambda>r. re_customer_id r = c \<and> from_date \<le> re_date r \<and> re_date r \<le> until) (ar_receipts d)"
  let ?es = "sort_key (\<lambda>e. (se_date e, se_kind e)) (map invoice_event (sort_key inv_date ?i) @ map receipt_event (sort_key re_date ?r))"
  obtain es y where rb: "run_balance 0 ?es = (es, y)" by fastforce
  have "sorted (map (\<lambda>e. (se_date e, se_kind e)) ?es)" by (rule sorted_sort_key)
  then have "sorted_wrt (\<lambda>e f. (se_date e, se_kind e) \<le> (se_date f, se_kind f)) ?es" by (simp only: sorted_wrt_map)
  then have "sorted_wrt (\<lambda>e f. se_date e \<le> se_date f) ?es"
    by (rule sorted_wrt_mono_rel [rotated]) (auto simp: less_eq_prod_def)
  then have "sorted (map se_date ?es)" by (simp only: sorted_wrt_map)
  then show ?thesis using rb run_balance_same [OF rb] by (simp add: customer_statement_def Let_def)
qed

text \<open>Over the whole report: totals, customers, grand total and the invoices themselves agree.\<close>

lemma aging_agrees:
  assumes "\<And>i. i \<in> set (ar_invoices d) \<Longrightarrow> at_scale 2 (invoice_owed i)"
  shows "ag_grand_total (compute_aging d as_of None) = sum_of aged (filter open_invoice (ar_invoices d))"
    and "\<And>b. b \<in> set (map fst empty_buckets) \<Longrightarrow> map_of (ag_totals (compute_aging d as_of None)) b
      = Some (sum_of aged (filter (\<lambda>i. bucket (toordinal as_of - toordinal (inv_date i)) = b) (filter open_invoice (ar_invoices d))))"
proof -
  let ?invs = "filter open_invoice (ar_invoices d)"
  obtain t c where f: "fold (aging_step as_of) ?invs (empty_buckets, []) = (t, c)" by fastforce
  have a: "compute_aging d as_of None = \<lparr>ag_as_of = as_of, ag_totals = q_buckets t,
      ag_by_customer = map (\<lambda>(c, m). (c, q_buckets m)) c, ag_grand_total = q_money (sum_of snd t)\<rparr>"
    using f by (simp add: compute_aging_def)
  have sc: "at_scale 2 (aged i)" if "i \<in> set (ar_invoices d)" for i using assms that by (simp add: aged_def max_def)
  have "sum_of snd t = sum_of aged ?invs" using aging_fold_sums [OF f] by (simp add: empty_buckets_def)
  moreover have "at_scale 2 (sum_of aged ?invs)" using sc by (intro at_scale_sum_of) auto
  ultimately show "ag_grand_total (compute_aging d as_of None) = sum_of aged ?invs" by (simp add: a)
  show "map_of (ag_totals (compute_aging d as_of None)) b
      = Some (sum_of aged (filter (\<lambda>i. bucket (toordinal as_of - toordinal (inv_date i)) = b) ?invs))"
    if b: "b \<in> set (map fst empty_buckets)" for b
  proof -
    let ?v = "sum_of aged (filter (\<lambda>i. bucket (toordinal as_of - toordinal (inv_date i)) = b) ?invs)"
    have "at_scale 2 ?v" using sc by (intro at_scale_sum_of) auto
    moreover have "map_of empty_buckets b = Some 0" using b by (auto simp: empty_buckets_def)
    then have "map_of t b = Some ?v" using aging_fold_bucket [OF f b order_refl] by simp
    moreover have "map_of (q_buckets t) b = map_option q_money (map_of t b)" by (simp add: q_buckets_def map_of_map)
    ultimately show ?thesis by (simp add: a)
  qed
qed

end
