(* ===== verification/ReceivablesRuns.thy ===== *)
theory ReceivablesRuns
  imports DemoRuns Receivables_Tie Receivables_Reports
begin

text \<open>
  Runs of the receivables on the demo shop, for the witnesses: a customer and a second cash
  account, in Lebanese pounds; a receipt of 100 dollars with no invoice to pay, through
  either cash account.
\<close>

section \<open>The shop with a customer\<close>

definition demo_customer :: customer where
  "demo_customer = \<lparr>cu_id = uid 14, cu_name = ''Nour'', cu_phone = None, cu_email = None, cu_currency = ''USD'',
     cu_credit_limit = None, cu_notes = None, cu_is_active = True\<rparr>"

definition lbp_cash :: gl_account where
  "lbp_cash = (demo_account 16 ''530002'' ASSET MONEY ''CASH_LBP'')\<lparr>acc_currency := Some ''LBP''\<rparr>"

definition ar_demo :: db where
  "ar_demo = demo_db\<lparr>gl_accounts := demo_accounts @ [lbp_cash], customers := [demo_customer]\<rparr>"

lemma ar_demo_parts:
  "gl_accounts ar_demo = demo_accounts @ [lbp_cash]" "gl_periods ar_demo = [demo_period 18 2026 1 PERIOD_OPEN]"
  "gl_entries ar_demo = []" "gl_lines ar_demo = []" "gl_seqs ar_demo = []" "inv_ledger ar_demo = []"
  "uid_next ar_demo = 20" "clock ar_demo = demo_clock" "customers ar_demo = [demo_customer]"
  "ar_invoices ar_demo = []" "ar_receipts ar_demo = []"
  by (simp_all add: ar_demo_def demo_db_def empty_db_def)

lemma ar_demo_live: "live_db sha ar_demo"
proof -
  have "same_books (empty_db demo_clock) ar_demo"
    unfolding same_books_def
    by (intro conjI exI [of _ "[0,1,2,3,4,5,6,7,8,9,10,11,12,13,16]"])
      (auto simp: ar_demo_def demo_db_def demo_accounts_def demo_account_def lbp_cash_def empty_db_def)
  then show ?thesis unfolding live_db_def by (blast intro: reach.intros step.other)
qed

lemma ar_demo_accounts:
  "resolve_gl ar_demo ''AR'' = Inr (uid 8)" "resolve_gl ar_demo ''CASH'' = Inr (uid 0)" "resolve_gl ar_demo ''CASH_LBP'' = Inr (uid 16)"
  by (simp_all add: resolve_gl_def scalar_one_or_none_def ar_demo_parts demo_accounts_def demo_account_def lbp_cash_def)

lemma ar_demo_tied: "ar_tied sha ar_demo"
  using live_db_ok(1) [OF ar_demo_live, of sha] ar_demo_accounts(1)
  by (auto simp: ar_tied_def usd_ledger_def ar_demo_parts fresh_ids_def demo_customer_def subledger_def usd_balance_def control_balance_def)

section \<open>A receipt\<close>

text \<open>The posting of a receipt of 100 dollars into the cash account \<open>cash\<close>, as the code builds it.\<close>

definition receipt_lines :: "string \<Rightarrow> dec \<Rightarrow> string \<Rightarrow> dec \<Rightarrow> gl_line list" where
  "receipt_lines cash amt tender rate =
     [(GLLine (uid 8) (Some MONEY) ''relieve AR'')\<lparr>ln_base_credit := 100, ln_money_credit := 100\<rparr>,
      (GLLine cash (Some MONEY) ''receipt'')
        \<lparr>ln_base_debit := 100, ln_money_debit := amt, ln_currency := tender, ln_fx_rate := rate\<rparr>]"

text \<open>The two ways: the account, its row, what it takes in, in which currency, at which rate.\<close>

definition demo_way :: "string \<Rightarrow> gl_account \<Rightarrow> string \<Rightarrow> dec \<Rightarrow> string \<Rightarrow> dec \<Rightarrow> bool" where
  "demo_way key acc cash amt tender rate \<longleftrightarrow>
     key = ''CASH'' \<and> acc = demo_account 0 ''530001'' ASSET MONEY ''CASH'' \<and> cash = uid 0 \<and> amt = 100 \<and> tender = ''USD'' \<and> rate = 1
     \<or> key = ''CASH_LBP'' \<and> acc = lbp_cash \<and> cash = uid 16 \<and> amt = 8950000 \<and> tender = ''LBP'' \<and> rate = 89500"

lemma ar_demo_cash:
  "scalar_one_or_none (\<lambda>x. acc_system_key x = Some ''CASH'') (gl_accounts ar_demo) = Inr (Some (demo_account 0 ''530001'' ASSET MONEY ''CASH''))"
  "scalar_one_or_none (\<lambda>x. acc_system_key x = Some ''CASH_LBP'') (gl_accounts ar_demo) = Inr (Some lbp_cash)"
  by (simp_all add: scalar_one_or_none_def ar_demo_parts demo_accounts_def demo_account_def lbp_cash_def)

lemma demo_way_account:
  assumes "demo_way key acc cash amt tender rate"
  shows "scalar_one_or_none (\<lambda>x. acc_system_key x = Some key) (gl_accounts ar_demo) = Inr (Some acc)"
    and "tender_of acc = tender" "doc_rate demo_settings tender None = rate" "acc_id acc = cash"
proof -
  show "scalar_one_or_none (\<lambda>x. acc_system_key x = Some key) (gl_accounts ar_demo) = Inr (Some acc)"
    using assms ar_demo_cash by (auto simp: demo_way_def)
  show "tender_of acc = tender" "doc_rate demo_settings tender None = rate" "acc_id acc = cash"
    using assms unfolding demo_way_def
    by (elim disjE conjE; simp add: demo_account_def lbp_cash_def tender_of_def or_usd_def doc_rate_def demo_settings_def)+
qed

lemma ctx_demo: "ctx 100 = 100" "ctx 8950000 = 8950000"
  by (rule ctx_id [of 0]; simp)+

lemma demo_legs:
  assumes "demo_way key acc cash amt tender rate"
  shows "value_error_422 (settlement_legs ''receipt'' ''USD'' (overpay_specs ''USD'' rate 100 []) ''AR'' key tender rate)
    = Inr [Leg ''AR'' False 100 100 ''USD'' 1 ''relieve AR'', Leg key True amt 100 tender rate ''receipt'']"
  using assms unfolding demo_way_def
  by (elim disjE conjE) (simp_all add: overpay_specs_def Allocation_def settlement_legs_def control_leg_def ddiv_def dmul_def
      tender_money_def tender_base_def fx_plug_def value_error_422_def raise_if_def Let_def ctx_demo Leg_def del: ddiv_Inr)

text \<open>The receipt as recorded, and the database before its posting.\<close>

definition demo_rc :: "string \<Rightarrow> dec \<Rightarrow> ar_receipt" where
  "demo_rc key rate = (new_receipt ''RC-20260115-001'' (uid 14) (Date 2026 1 15) ''USD'' rate 100 key [])\<lparr>re_id := uid 20\<rparr>"

definition ar_demo_rc :: "ar_receipt \<Rightarrow> db" where
  "ar_demo_rc r = ar_demo\<lparr>gl_seqs := [\<lparr>seq_day_key = ''RC20260115'', seq_last_seq = Suc 0\<rparr>], uid_next := 21, ar_receipts := [r]\<rparr>"

lemma ar_demo_rc_parts:
  "gl_accounts (ar_demo_rc r) = demo_accounts @ [lbp_cash]" "gl_periods (ar_demo_rc r) = [demo_period 18 2026 1 PERIOD_OPEN]"
  "gl_entries (ar_demo_rc r) = []" "gl_lines (ar_demo_rc r) = []" "customers (ar_demo_rc r) = [demo_customer]"
  "ar_invoices (ar_demo_rc r) = []" "ar_receipts (ar_demo_rc r) = [r]"
  by (simp_all add: ar_demo_rc_def ar_demo_parts)

lemma demo_rc_live: "live_db sha (ar_demo_rc r)"
  by (rule live_db_step [OF ar_demo_live step.other]) (simp add: same_books_def ar_demo_rc_def ar_demo_parts seq_count_def)

lemma demo_rc_no: "next_doc_no ''RC'' (Date 2026 1 15) ar_demo
    = (''RC-20260115-001'', ar_demo\<lparr>gl_seqs := [\<lparr>seq_day_key = ''RC20260115'', seq_last_seq = Suc 0\<rparr>]\<rparr>)"
  by (simp add: next_doc_no_def bump_seq_def ar_demo_parts upd_rows_def) code_simp

lemma demo_rc_added: "add_ar_receipt (new_receipt ''RC-20260115-001'' (uid 14) (Date 2026 1 15) ''USD'' rate 100 key [])
    (ar_demo\<lparr>gl_seqs := [\<lparr>seq_day_key = ''RC20260115'', seq_last_seq = Suc 0\<rparr>]\<rparr>) = Inr (demo_rc key rate, ar_demo_rc (demo_rc key rate))"
  by (simp add: add_ar_receipt_def ar_demo_parts demo_customer_def new_receipt_def fresh_uid_def Let_def demo_rc_def ar_demo_rc_def)

lemma demo_rc_lines:
  assumes "demo_way key acc cash amt tender rate"
  shows "map_res (leg_to_glline (ar_demo_rc r)) [Leg ''AR'' False 100 100 ''USD'' 1 ''relieve AR'', Leg key True amt 100 tender rate ''receipt'']
    = Inr (receipt_lines cash amt tender rate)"
proof -
  have g: "resolve_gl (ar_demo_rc r) k = resolve_gl ar_demo k" for k by (simp add: resolve_gl_def ar_demo_rc_parts ar_demo_parts)
  have "resolve_gl ar_demo key = Inr cash" using assms ar_demo_accounts by (auto simp: demo_way_def)
  then show ?thesis using ar_demo_accounts(1) by (simp add: leg_to_glline_def g receipt_lines_def Leg_def GLLine_def)
qed

definition demo_rc_request :: "string \<Rightarrow> dec \<Rightarrow> string \<Rightarrow> dec \<Rightarrow> post_request" where
  "demo_rc_request cash amt tender rate =
     post_args (Date 2026 1 15) ''AR receipt '' SOURCE_AR_RECEIPT None (receipt_lines cash amt tender rate) ''u1''"

lemma demo_rc_valid:
  assumes "demo_way key acc cash amt tender rate"
  shows "valid_request (ar_demo_rc r) (demo_rc_request cash amt tender rate)"
  using assms unfolding demo_way_def
  by (elim disjE conjE) (simp_all add: valid_request_def ar_demo_rc_parts demo_rc_request_def receipt_lines_def lbp_cash_def check_simps)

lemma demo_rc_settled:
  assumes w: "demo_way key acc cash amt tender rate"
    and p: "post_entry demo_sha (demo_rc_request cash amt tender rate) (ar_demo_rc ((demo_rc key rate)\<lparr>re_unapplied_amount := 100\<rparr>)) = Inr (e, d)"
    and r: "r = (demo_rc key rate)\<lparr>re_unapplied_amount := 100, re_gl_entry_id := Some (je_id e)\<rparr>"
  shows "settle_receipt demo_sha (demo_rc key rate) tender demo_settings ''u1'' None (ar_demo_rc (demo_rc key rate)) = Inr (r, put_receipt r d)"
proof -
  let ?r = "demo_rc key rate" and ?r1 = "(demo_rc key rate)\<lparr>re_unapplied_amount := 100\<rparr>"
  have f: "re_id ?r = uid 20" "re_customer_id ?r = uid 14" "re_currency ?r = ''USD''" "re_amount ?r = 100" "re_fx_rate ?r = rate"
    "re_payment_system_key ?r = key" "re_date ?r = Date 2026 1 15" "re_memo ?r = []"
    by (simp_all add: demo_rc_def new_receipt_def)
  have al: "allocate_receipt (uid 20) (uid 14) ''USD'' None \<lparr>st_db = ar_demo_rc ?r, st_specs = [], st_rest = 100\<rparr>
      = Inr \<lparr>st_db = ar_demo_rc ?r, st_specs = [], st_rest = 100\<rparr>"
    by (simp add: allocate_receipt_def open_invoices_def ar_demo_rc_parts)
  have put: "put_receipt ?r1 (ar_demo_rc ?r) = ar_demo_rc ?r1"
    by (simp add: put_receipt_def upd_rows_def ar_demo_rc_def)
  have po: "receipt_posting demo_sha ?r1 tender rate (overpay_specs ''USD'' rate 100 []) ''u1'' (ar_demo_rc ?r1) = Inr (r, put_receipt r d)"
    using p demo_legs [OF w] demo_rc_lines [OF w] unfolding demo_rc_request_def
    by (simp add: receipt_posting_def f r overpay_specs_def Let_def)
  show ?thesis unfolding settle_receipt_def f al using put po
    by (simp add: f auto_post_enabled_def demo_settings_def Let_def)
qed

text \<open>The receipt is posted, and what it leaves in the tables.\<close>

lemma demo_receipt:
  assumes w: "demo_way key acc cash amt tender rate"
  obtains r d where
    "post_receipt demo_sha (uid 14) (Date 2026 1 15) 100 key [] demo_settings ''u1'' None ''USD'' None ar_demo = Inr (r, d)"
    "customers d = [demo_customer]" "ar_invoices d = []" "gl_accounts d = gl_accounts ar_demo" "ar_receipts d = [r]"
    "re_unapplied_amount r = 100" "re_fx_rate r = rate" "re_customer_id r = uid 14" "control_balance d (uid 8) = - 100"
proof -
  let ?r = "demo_rc key rate" and ?r1 = "(demo_rc key rate)\<lparr>re_unapplied_amount := 100\<rparr>"
  obtain e d where p: "post_entry demo_sha (demo_rc_request cash amt tender rate) (ar_demo_rc ?r1) = Inr (e, d)"
    using post_entry_live [OF demo_rc_valid [OF w] live_db_ok(3) [OF demo_rc_live] demo_hashes_fresh [OF live_db_ok(1,2) [OF demo_rc_live]]]
    by blast
  note t = post_entry_tables [OF p]
  obtain r where r: "r = ?r1\<lparr>re_gl_entry_id := Some (je_id e)\<rparr>" by simp
  have "post_receipt demo_sha (uid 14) (Date 2026 1 15) 100 key [] demo_settings ''u1'' None ''USD'' None ar_demo = Inr (r, put_receipt r d)"
    using demo_rc_settled [OF w p, of r] demo_way_account [OF w]
    by (simp add: post_receipt_def or_usd_def demo_rc_no demo_rc_added r)
  moreover have "control_balance d (uid 8) = - 100"
    using control_balance_posted [OF p, of "uid 8"] w
    by (auto simp: demo_way_def demo_rc_request_def post_args_def receipt_lines_def GLLine_def control_balance_def ar_demo_rc_parts request_net_def)
  ultimately show ?thesis
    by (intro that [of r "put_receipt r d"])
      (simp_all add: r t ar_demo_rc_parts ar_demo_parts put_receipt_def upd_rows_def demo_rc_def new_receipt_def control_balance_def)
qed

lemma demo_usd_step:
  assumes "post_receipt demo_sha (uid 14) (Date 2026 1 15) 100 ''CASH'' [] demo_settings ''u1'' None ''USD'' None ar_demo = Inr (r, d)"
  shows "usd_ar_step demo_sha ar_demo d"
  by (rule usd_ar_step.receipt [OF assms])
    (auto simp: auto_post_enabled_def demo_settings_def or_usd_def usd_cash_def ar_demo_parts demo_accounts_def
      demo_account_def lbp_cash_def tender_of_def)

text \<open>
  Through the account in pounds, the receipt keeps its 100 dollars as unapplied and the
  rate of the tender as its rate; the tie-out divides one by the other.
\<close>

lemma lbp_overpayment_untied:
  obtains r d c where
    "post_receipt demo_sha (uid 14) (Date 2026 1 15) 100 ''CASH_LBP'' [] demo_settings ''u1'' None ''USD'' None ar_demo = Inr (r, d)"
    "verify_ar_control d = Inr c" "ac_gl_balance c = - 100" "ac_subledger c = 0" "\<not> ac_matches c"
proof -
  have w: "demo_way ''CASH_LBP'' lbp_cash (uid 16) 8950000 ''LBP'' 89500" by (simp add: demo_way_def)
  obtain r d where p: "post_receipt demo_sha (uid 14) (Date 2026 1 15) 100 ''CASH_LBP'' [] demo_settings ''u1'' None ''USD'' None ar_demo = Inr (r, d)"
    and d: "customers d = [demo_customer]" "ar_invoices d = []" "gl_accounts d = gl_accounts ar_demo" "ar_receipts d = [r]"
    "re_unapplied_amount r = 100" "re_fx_rate r = 89500" "re_customer_id r = uid 14" "control_balance d (uid 8) = - 100"
    by (rule demo_receipt [OF w]) blast
  have q: "q_money (- 100) = - 100" by (simp add: quantize_minus)
  have "q_money (dquot 100 89500) = 0" by code_simp
  then have o': "customer_open_balance d (uid 14) = 0"
    by (simp add: customer_open_balance_def d or_one_def quantize_minus)
  obtain a where a: "scalar_one (\<lambda>a. acc_system_key a = Some ''AR'') (gl_accounts d) = Inr a" "acc_id a = uid 8"
    using resolve_scalar_one [of d "''AR''" "uid 8"] ar_demo_accounts(1) by (auto simp: d resolve_gl_def)
  let ?c = "\<lparr>ac_gl_balance = - 100, ac_subledger = 0, ac_matches = False\<rparr>"
  have "verify_ar_control d = Inr ?c"
    using a d(8) by (simp add: verify_ar_control_def d(1) o' demo_customer_def control_balance_def q)
  from that [OF p this] show ?thesis by simp
qed

end
