(* ===== verification/Tax.thy ===== *)
theory Tax
  imports Payables PeriodClose
begin

text \<open>
  \<open>app/core/tax.py\<close> and the handlers of \<open>app/api/tax.py\<close>: tax codes and the quarterly
  VAT return. The lemmas show that seeding the codes is idempotent and complete, that the
  four quarters partition the year (so the returns add up to the year's movements on the
  two VAT accounts), that a return's totals are the totals of the transactions it lists,
  and that the two parts of the cash split add up to the amount due.
\<close>

section \<open>Tax codes\<close>

definition SEED_CODES :: "(string \<times> string \<times> dec) list" where
  "SEED_CODES = [(''STANDARD'', ''Standard 11%'', 11), (''ZERO'', ''Zero-rated (exports)'', 0), (''EXEMPT'', ''Exempt'', 0)]"

definition add_tax_code :: "string \<Rightarrow> string \<Rightarrow> dec \<Rightarrow> db \<Rightarrow> (tax_code \<times> db) res" where
  "add_tax_code code name rate d =
     raise_if (code \<in> set (map tc_code (tax_codes d))) (IntegrityError ''tax_codes.code'')
    (let (k, d) = fresh_uid d;
         c = \<lparr>tc_id = k, tc_code = code, tc_name = name, tc_rate = rate, tc_is_active = True\<rparr>
     in Inr (c, d\<lparr>tax_codes := tax_codes d @ [c]\<rparr>))"

definition seed_code :: "string list \<Rightarrow> string \<times> string \<times> dec \<Rightarrow> nat \<times> db \<Rightarrow> (nat \<times> db) res" where
  "seed_code existing c s = (case c of (code, name, rate) \<Rightarrow> case s of (created, d) \<Rightarrow>
     if code \<in> set existing then Inr (created, d)
     else bnd (add_tax_code code name rate d) (\<lambda>(_, d). Inr (Suc created, d)))"

definition seed_tax_codes :: "db \<Rightarrow> (nat \<times> db) res" where
  "seed_tax_codes d = fold_res (seed_code (map tc_code (tax_codes d))) SEED_CODES (0, d)"

text \<open>
  The handlers take their body as a dictionary: a field is \<open>None\<close> when its key is absent.
\<close>

record code_in =
  ci_code :: "string option"
  ci_name :: "string option"
  ci_rate :: "dec option"
  ci_is_active :: "bool option"

definition create_code :: "code_in \<Rightarrow> db \<Rightarrow> (tax_code \<times> db) res" where
  "create_code body d =
     (case ci_code body of
        None \<Rightarrow> Inl (KeyError ''code'')
      | Some code \<Rightarrow> add_tax_code code (case ci_name body of None \<Rightarrow> code | Some n \<Rightarrow> n)
                       (case ci_rate body of None \<Rightarrow> 0 | Some r \<Rightarrow> r) d)"

definition update_code :: "string \<Rightarrow> code_in \<Rightarrow> db \<Rightarrow> (tax_code \<times> db) res" where
  "update_code code_id body d =
     bnd (scalar_one_or_none (\<lambda>c. tc_id c = code_id) (tax_codes d)) (\<lambda>c.
     case c of
       None \<Rightarrow> Inl (HTTPException 404 (Msg ''Tax code not found'' []))
     | Some c \<Rightarrow>
         let c = (case ci_rate body of None \<Rightarrow> c | Some r \<Rightarrow> c\<lparr>tc_rate := r\<rparr>);
             c = (case ci_name body of None \<Rightarrow> c | Some n \<Rightarrow> c\<lparr>tc_name := n\<rparr>);
             c = (case ci_is_active body of None \<Rightarrow> c | Some b \<Rightarrow> c\<lparr>tc_is_active := b\<rparr>)
         in Inr (c, d\<lparr>tax_codes := upd_rows (\<lambda>x. tc_id x = code_id) (\<lambda>_. c) (tax_codes d)\<rparr>))"

definition list_codes :: "db \<Rightarrow> tax_code list" where
  "list_codes d = sort_key tc_code (tax_codes d)"

section \<open>The VAT return\<close>

definition quarter_range :: "int \<Rightarrow> int \<Rightarrow> (date \<times> date) res" where
  "quarter_range year quarter =
     raise_if (quarter \<notin> {1, 2, 3, 4}) (HTTPException 422 (Msg ''quarter must be 1-4'' []))
    (let start_month = (quarter - 1) * 3 + 1; end_month = quarter * 3;
         last_day = days_in_month year end_month in
     bnd (mk_date year start_month 1) (\<lambda>frm. bnd (mk_date year end_month last_day) (\<lambda>until. Inr (frm, until))))"

definition account_id :: "db \<Rightarrow> string \<Rightarrow> string res" where
  "account_id d system_key = bnd (scalar_one (\<lambda>a. acc_system_key a = Some system_key) (gl_accounts d)) (\<lambda>a. Inr (acc_id a))"

datatype vat_kind = Output | Input

record vat_txn =
  vt_entry_no :: string
  vt_date :: date
  vt_source_type :: string
  vt_kind :: vat_kind
  vt_vat :: dec

datatype vat_direction = PAYABLE | REFUNDABLE | NIL

record vat_report =
  vr_from :: date
  vr_until :: date
  vr_output_vat :: dec
  vr_input_vat :: dec
  vr_net_payable :: dec
  vr_direction :: vat_direction
  vr_transactions :: "vat_txn list"
  vr_cash_split :: "(dec \<times> dec) option"

text \<open>The loop over the lines: the two running totals and the transactions.\<close>

definition vat_step :: "string \<Rightarrow> gl_journal_line \<times> gl_journal_entry \<Rightarrow> dec \<times> dec \<times> vat_txn list \<Rightarrow> dec \<times> dec \<times> vat_txn list" where
  "vat_step out_id le s = (case le of (l, e) \<Rightarrow> case s of (output_vat, input_vat, txns) \<Rightarrow>
     let (amt, kind, output_vat, input_vat) =
       (if jl_account_id l = out_id
        then let amt = jl_base_credit l - jl_base_debit l in (amt, Output, output_vat + amt, input_vat)
        else let amt = jl_base_debit l - jl_base_credit l in (amt, Input, output_vat, input_vat + amt))
     in (output_vat, input_vat,
         txns @ [\<lparr>vt_entry_no = je_entry_no e, vt_date = je_entry_date e, vt_source_type = je_source_type e,
                  vt_kind = kind, vt_vat = q_money amt\<rparr>]))"

definition cash_split :: "dec \<Rightarrow> (dec \<times> dec) option" where
  "cash_split net = (if 0 < net then Some (q_money (dmul net (3 / 4)), q_money (dmul net (1 / 4))) else None)"

definition vat_lines :: "db \<Rightarrow> date \<Rightarrow> date \<Rightarrow> string \<Rightarrow> string \<Rightarrow> (gl_journal_line \<times> gl_journal_entry) list" where
  "vat_lines d frm until out_id in_id = filter (\<lambda>(l, e). jl_account_id l \<in> {out_id, in_id}) (dated_lines d frm until)"

definition compute_vat_return :: "db \<Rightarrow> int \<Rightarrow> int \<Rightarrow> vat_report res" where
  "compute_vat_return d year quarter =
     bnd (quarter_range year quarter) (\<lambda>(frm, until).
     bnd (account_id d ''VAT_PAYABLE'') (\<lambda>out_id.
     bnd (account_id d ''VAT_RECEIVABLE'') (\<lambda>in_id.
     let (output_vat, input_vat, txns) = fold (vat_step out_id) (vat_lines d frm until out_id in_id) (0, 0, []);
         output_vat = q_money output_vat; input_vat = q_money input_vat;
         net = q_money (output_vat - input_vat)
     in Inr \<lparr>vr_from = frm, vr_until = until, vr_output_vat = output_vat, vr_input_vat = input_vat, vr_net_payable = net,
             vr_direction = (if 0 < net then PAYABLE else if net < 0 then REFUNDABLE else NIL),
             vr_transactions = sort_key (\<lambda>t. (vt_date t, vt_entry_no t)) txns,
             vr_cash_split = cash_split net\<rparr>)))"

section \<open>Seeding\<close>

lemma add_tax_code_frame:
  assumes "add_tax_code code name rate d = Inr (c, d')"
  shows "d' = d\<lparr>uid_next := Suc (uid_next d), tax_codes := tax_codes d @ [c]\<rparr>" "tc_code c = code" "tc_rate c = rate"
  using assms by (auto simp: add_tax_code_def res_simps Let_def fresh_uid_def)

lemma add_tax_code_total: "code \<notin> tc_code ` set (tax_codes d) \<Longrightarrow> \<exists>c d'. add_tax_code code name rate d = Inr (c, d')"
  by (simp add: add_tax_code_def Let_def fresh_uid_def)

lemma seed_code_same_books: "seed_code ex c (n, d) = Inr (m, d') \<Longrightarrow> same_books d d'"
  by (cases c) (auto simp: seed_code_def res_simps same_books_refl same_books_def split: if_split_asm dest!: add_tax_code_frame(1))

lemma seed_tax_codes_same_books:
  assumes "seed_tax_codes d = Inr (n, d')"
  shows "same_books d d'"
proof -
  from assms have "same_books d (snd (n, d'))" unfolding seed_tax_codes_def
    by (rule fold_res_inv) (auto simp: same_books_refl dest!: seed_code_same_books intro: same_books_trans)
  then show ?thesis by simp
qed

text \<open>Seeding adds the codes that are missing, and only those.\<close>

lemma seed_fold:
  assumes "distinct (map fst cs)" "fst ` set cs \<inter> tc_code ` set (tax_codes d) \<subseteq> set ex" "set ex \<subseteq> tc_code ` set (tax_codes d)"
  shows "\<exists>d'. fold_res (seed_code ex) cs (n, d) = Inr (n + length (filter (\<lambda>c. fst c \<notin> set ex) cs), d')
    \<and> map tc_code (tax_codes d') = map tc_code (tax_codes d) @ map fst (filter (\<lambda>c. fst c \<notin> set ex) cs)"
  using assms
proof (induction cs arbitrary: n d)
  case (Cons c cs)
  obtain code name rate where c: "c = (code, name, rate)" by (cases c) auto
  show ?case
  proof (cases "code \<in> set ex")
    case True
    then show ?thesis using Cons.IH [of d n] Cons.prems by (auto simp: seed_code_def c)
  next
    case False
    then have "code \<notin> tc_code ` set (tax_codes d)" using Cons.prems(2) by (auto simp: c)
    then obtain r d1 where r: "add_tax_code code name rate d = Inr (r, d1)" using add_tax_code_total by blast
    note f = add_tax_code_frame [OF r]
    have t: "tax_codes d1 = tax_codes d @ [r]" by (subst f(1)) simp
    have "\<exists>d'. fold_res (seed_code ex) cs (Suc n, d1) = Inr (Suc n + length (filter (\<lambda>c. fst c \<notin> set ex) cs), d')
      \<and> map tc_code (tax_codes d') = map tc_code (tax_codes d1) @ map fst (filter (\<lambda>c. fst c \<notin> set ex) cs)"
      by (rule Cons.IH) (use Cons.prems in \<open>auto simp: t f(2) c\<close>)
    moreover have "seed_code ex c (n, d) = Inr (Suc n, d1)" using False r by (simp add: seed_code_def c)
    ultimately show ?thesis using False by (auto simp: c t f(2))
  qed
qed simp

lemma seed_tax_codes_adds:
  obtains d' where "seed_tax_codes d = Inr (length (filter (\<lambda>c. fst c \<notin> tc_code ` set (tax_codes d)) SEED_CODES), d')"
    "map tc_code (tax_codes d') = map tc_code (tax_codes d) @ map fst (filter (\<lambda>c. fst c \<notin> tc_code ` set (tax_codes d)) SEED_CODES)"
  using seed_fold [of SEED_CODES d "map tc_code (tax_codes d)" 0]
  by (auto simp: seed_tax_codes_def SEED_CODES_def)

section \<open>Quarters\<close>

lemma quarter_range_eq:
  assumes "1 \<le> y" "y \<le> 9999" "q \<in> {1, 2, 3, 4}"
  shows "quarter_range y q = Inr (Date y (3 * q - 2) 1, Date y (3 * q) (days_in_month y (3 * q)))"
  using assms by (auto simp: quarter_range_def raise_if_def mk_date_def valid_date_def days_in_month_def Let_def)

lemma quarter_range_err: "q \<notin> {1, 2, 3, 4} \<Longrightarrow> quarter_range y q = Inl (HTTPException 422 (Msg ''quarter must be 1-4'' []))"
  by (simp add: quarter_range_def)

definition in_quarter :: "int \<Rightarrow> int \<Rightarrow> date \<Rightarrow> bool" where
  "in_quarter y q t \<longleftrightarrow> (case quarter_range y q of Inl _ \<Rightarrow> False | Inr (a, b) \<Rightarrow> a \<le> t \<and> t \<le> b)"

lemma in_quarter_iff:
  assumes "1 \<le> y" "y \<le> 9999" "q \<in> {1, 2, 3, 4}" "valid_date t"
  shows "in_quarter y q t \<longleftrightarrow> d_year t = y \<and> (d_month t - 1) div 3 + 1 = q"
proof -
  have "in_quarter y q t \<longleftrightarrow> d_year t = y \<and> 3 * q - 2 \<le> d_month t \<and> d_month t \<le> 3 * q"
    using assms by (cases t) (auto simp: in_quarter_def quarter_range_eq less_eq_date_def valid_date_def)
  also have "\<dots> \<longleftrightarrow> d_year t = y \<and> (d_month t - 1) div 3 + 1 = q" by auto
  finally show ?thesis .
qed

section \<open>Totals\<close>

definition vat_out :: "string \<Rightarrow> gl_journal_line \<times> gl_journal_entry \<Rightarrow> dec" where
  "vat_out out_id le = (if jl_account_id (fst le) = out_id then jl_base_credit (fst le) - jl_base_debit (fst le) else 0)"

definition vat_in :: "string \<Rightarrow> gl_journal_line \<times> gl_journal_entry \<Rightarrow> dec" where
  "vat_in out_id le = (if jl_account_id (fst le) = out_id then 0 else jl_base_debit (fst le) - jl_base_credit (fst le))"

definition txn_of :: "string \<Rightarrow> gl_journal_line \<times> gl_journal_entry \<Rightarrow> vat_txn" where
  "txn_of out_id le = \<lparr>vt_entry_no = je_entry_no (snd le), vt_date = je_entry_date (snd le), vt_source_type = je_source_type (snd le),
     vt_kind = (if jl_account_id (fst le) = out_id then Output else Input),
     vt_vat = q_money (vat_out out_id le + vat_in out_id le)\<rparr>"

lemma vat_fold: "fold (vat_step out_id) les (o', i, txns)
    = (o' + sum_of (vat_out out_id) les, i + sum_of (vat_in out_id) les, txns @ map (txn_of out_id) les)"
  by (induction les arbitrary: o' i txns) (auto simp: vat_step_def vat_out_def vat_in_def txn_of_def Let_def)

text \<open>Every line of the journal with its entry; a dated selection is a filter of it.\<close>

definition journal_rows :: "db \<Rightarrow> (gl_journal_line \<times> gl_journal_entry) list" where
  "journal_rows d = concat (map (\<lambda>l. map (\<lambda>e. (l, e)) (filter (\<lambda>e. je_id e = jl_entry_id l) (gl_entries d))) (gl_lines d))"

lemma dated_lines_filter:
  "dated_lines d a b = filter (\<lambda>(l, e). a \<le> je_entry_date e \<and> je_entry_date e \<le> b) (journal_rows d)"
  by (simp add: dated_lines_def journal_rows_def filter_concat comp_def filter_map)

lemma journal_rows_mem: "(l, e) \<in> set (journal_rows d) \<Longrightarrow> l \<in> set (gl_lines d) \<and> e \<in> set (gl_entries d)"
  by (auto simp: journal_rows_def)

lemma vat_lines_mem: "(l, e) \<in> set (vat_lines d a b o' i) \<Longrightarrow> l \<in> set (gl_lines d) \<and> e \<in> set (gl_entries d)"
  by (auto simp: vat_lines_def dated_lines_filter dest: journal_rows_mem)

lemma vat_scales:
  assumes "journal_ok sha d" "le \<in> set (vat_lines d a b o' i)"
  shows "at_scale 2 (vat_out o' le)" "at_scale 2 (vat_in o' le)"
  using assms vat_lines_mem [of "fst le" "snd le" d a b o' i]
  by (auto simp: vat_out_def vat_in_def journal_ok_def lines_ok_def line_wf_def intro!: scale_intros)

text \<open>What a return says, over the rows of the books.\<close>

lemma compute_vat_return_steps:
  assumes "compute_vat_return d y q = Inr r"
  obtains a b oid iid where "quarter_range y q = Inr (a, b)" "account_id d ''VAT_PAYABLE'' = Inr oid"
    "account_id d ''VAT_RECEIVABLE'' = Inr iid" "vr_from r = a" "vr_until r = b"
    "vr_output_vat r = q_money (sum_of (vat_out oid) (vat_lines d a b oid iid))"
    "vr_input_vat r = q_money (sum_of (vat_in oid) (vat_lines d a b oid iid))"
    "vr_net_payable r = q_money (vr_output_vat r - vr_input_vat r)"
    "vr_transactions r = sort_key (\<lambda>t. (vt_date t, vt_entry_no t)) (map (txn_of oid) (vat_lines d a b oid iid))"
    "vr_direction r = (if 0 < vr_net_payable r then PAYABLE else if vr_net_payable r < 0 then REFUNDABLE else NIL)"
    "vr_cash_split r = cash_split (vr_net_payable r)"
proof -
  from assms obtain a b oid iid where s: "quarter_range y q = Inr (a, b)" "account_id d ''VAT_PAYABLE'' = Inr oid"
    "account_id d ''VAT_RECEIVABLE'' = Inr iid"
    by (auto simp: compute_vat_return_def res_simps)
  let ?o = "q_money (sum_of (vat_out oid) (vat_lines d a b oid iid))"
  let ?i = "q_money (sum_of (vat_in oid) (vat_lines d a b oid iid))"
  have r: "r = \<lparr>vr_from = a, vr_until = b, vr_output_vat = ?o, vr_input_vat = ?i, vr_net_payable = q_money (?o - ?i),
      vr_direction = (if 0 < q_money (?o - ?i) then PAYABLE else if q_money (?o - ?i) < 0 then REFUNDABLE else NIL),
      vr_transactions = sort_key (\<lambda>t. (vt_date t, vt_entry_no t)) (map (txn_of oid) (vat_lines d a b oid iid)),
      vr_cash_split = cash_split (q_money (?o - ?i))\<rparr>"
    using assms by (simp add: compute_vat_return_def s vat_fold Let_def)
  show ?thesis by (rule that [OF s]) (simp_all only: r vat_report.select_convs)
qed

lemma txn_sums:
  "sum_of vt_vat (filter (\<lambda>t. vt_kind t = Output) (map (txn_of oid) les)) = sum_of (\<lambda>le. q_money (vat_out oid le)) les"
  "sum_of vt_vat (filter (\<lambda>t. vt_kind t = Input) (map (txn_of oid) les)) = sum_of (\<lambda>le. q_money (vat_in oid le)) les"
  by (induction les) (auto simp: txn_of_def vat_out_def vat_in_def)

lemma sum_of_filter_sort: "sum_of f (filter P (sort_key k xs)) = sum_of f (filter P xs)"
proof -
  have "mset (filter P (sort_key k xs)) = mset (filter P xs)" by (simp only: mset_filter mset_sort)
  then have "sum_mset (image_mset f (mset (filter P (sort_key k xs)))) = sum_mset (image_mset f (mset (filter P xs)))" by simp
  then show ?thesis by (simp only: mset_map [symmetric] sum_mset_sum_list sum_of_def)
qed

lemma vat_return_totals:
  assumes "journal_ok sha d" "compute_vat_return d y q = Inr r"
  shows "vr_output_vat r = sum_of vt_vat (filter (\<lambda>t. vt_kind t = Output) (vr_transactions r))
    \<and> vr_input_vat r = sum_of vt_vat (filter (\<lambda>t. vt_kind t = Input) (vr_transactions r))
    \<and> vr_net_payable r = vr_output_vat r - vr_input_vat r \<and> at_scale 2 (vr_net_payable r)"
  using assms(2)
proof (cases rule: compute_vat_return_steps)
  case (1 a b oid iid)
  let ?les = "vat_lines d a b oid iid"
  have q: "sum_of (\<lambda>le. q_money (vat_out oid le)) ?les = sum_of (vat_out oid) ?les"
    "sum_of (\<lambda>le. q_money (vat_in oid le)) ?les = sum_of (vat_in oid) ?les"
    using vat_scales [OF assms(1)] by (auto intro!: sum_of_cong)
  have sc: "at_scale 2 (sum_of (vat_out oid) ?les)" "at_scale 2 (sum_of (vat_in oid) ?les)"
    using vat_scales [OF assms(1)] by (auto intro: scale_intros)
  show ?thesis
    unfolding 1(9) sum_of_filter_sort txn_sums q 1(8) 1(6,7) using sc by (simp add: scale_intros)
qed

text \<open>The four returns of a year add up to the year.\<close>

definition year_vat :: "(gl_journal_line \<times> gl_journal_entry \<Rightarrow> dec) \<Rightarrow> db \<Rightarrow> int \<Rightarrow> string \<Rightarrow> string \<Rightarrow> dec" where
  "year_vat f d y oid iid = sum_of f (vat_lines d (Date y 1 1) (Date y 12 31) oid iid)"

lemma date_quarter:
  assumes "valid_date t"
  shows "(if Date y 1 1 \<le> t \<and> t \<le> Date y 3 31 then x else 0) + (if Date y 4 1 \<le> t \<and> t \<le> Date y 6 30 then x else 0)
    + (if Date y 7 1 \<le> t \<and> t \<le> Date y 9 30 then x else 0) + (if Date y 10 1 \<le> t \<and> t \<le> Date y 12 31 then x else 0)
    = (if Date y 1 1 \<le> t \<and> t \<le> Date y 12 31 then x else (0 :: dec))"
proof (cases "d_year t = y")
  case True
  obtain m k where t: "t = Date y m k" using True by (cases t) auto
  have "m \<in> {1, 2, 3, 4, 5, 6, 7, 8, 9, 10, 11, 12}" using assms unfolding t valid_date_def by simp presburger
  then show ?thesis using assms unfolding t
    by (elim insertE emptyE) (simp_all add: less_eq_date_def valid_date_def days_in_month_def)
next
  case False
  then show ?thesis by (cases t) (auto simp: less_eq_date_def)
qed

lemma quarters_partition:
  assumes "\<And>e. e \<in> set (gl_entries d) \<Longrightarrow> valid_date (je_entry_date e)"
  shows "sum_of f (vat_lines d (Date y 1 1) (Date y 3 31) i j) + sum_of f (vat_lines d (Date y 4 1) (Date y 6 30) i j)
     + sum_of f (vat_lines d (Date y 7 1) (Date y 9 30) i j) + sum_of f (vat_lines d (Date y 10 1) (Date y 12 31) i j)
     = year_vat f d y i j"
proof -
  have s: "sum_of f (vat_lines d a b i j) = sum_of (\<lambda>le. if a \<le> je_entry_date (snd le) \<and> je_entry_date (snd le) \<le> b
      then (if jl_account_id (fst le) \<in> {i, j} then f le else 0) else 0) (journal_rows d)" for a b
    unfolding vat_lines_def dated_lines_filter sum_of_filter_if by (rule sum_of_cong) auto
  have "valid_date (je_entry_date (snd le))" if "le \<in> set (journal_rows d)" for le
    using assms journal_rows_mem [of "fst le" "snd le" d] that by simp
  then show ?thesis
    unfolding year_vat_def s sum_of_add [symmetric] by (intro sum_of_cong date_quarter)
qed

section \<open>The cash split\<close>

lemma half_even_parts:
  assumes "0 \<le> c" "c < 1"
  shows "half_even (of_int a + c) = (if c < 1 / 2 then a else if 1 / 2 < c then a + 1 else if even a then a else a + 1)"
proof -
  have "\<lfloor>of_int a + c\<rfloor> = a" using assms by (simp add: floor_eq_iff)
  then show ?thesis by (simp add: half_even_def Let_def)
qed

lemma half_even_quarters: "half_even (of_int k * (3 / 4)) + half_even (of_int k * (1 / 4)) = k"
proof -
  have k: "k = 4 * (k div 4) + k mod 4" "k mod 4 \<in> {0, 1, 2, 3}" by auto
  then obtain m r where m: "k = 4 * m + r" "r \<in> {0, 1, 2, 3}" by metis
  have e: "of_int k * (3 / 4) = of_int (3 * m + 3 * r div 4) + (of_int (3 * r mod 4) / 4 :: rat)"
    "of_int k * (1 / 4) = of_int m + (of_int r / 4 :: rat)"
    using m(2) unfolding m(1) by (elim insertE emptyE; simp add: field_simps)+
  have b: "0 \<le> (of_int (3 * r mod 4) / 4 :: rat)" "(of_int (3 * r mod 4) / 4 :: rat) < 1"
    "0 \<le> (of_int r / 4 :: rat)" "(of_int r / 4 :: rat) < 1"
    using m(2) by auto
  show ?thesis unfolding e half_even_parts [OF b(1,2)] half_even_parts [OF b(3,4)]
    using m(2) by (elim insertE emptyE; simp add: m(1))
qed

lemma cash_split_sums:
  assumes "at_scale 2 net" "0 < net" "net < 10 ^ 24"
  obtains c t where "cash_split net = Some (c, t)" "c + t = net"
proof -
  obtain k where k: "net = of_int k / 10 ^ 2" using assms(1) at_scale_iff by blast
  have e: "dmul net (3 / 4) = net * (3 / 4)" "dmul net (1 / 4) = net * (1 / 4)"
    unfolding dmul_def
    by (rule ctx_id [of 4]; (use assms(2,3) in simp)?;
        simp add: at_scale_iff k, rule exI [of _ "75 * k"] exI [of _ "25 * k"], simp)+
  have n: "net * (3 / 4) * 10 ^ 2 = of_int k * (3 / 4)" "net * (1 / 4) * 10 ^ 2 = of_int k * (1 / 4)" by (simp_all add: k)
  have "q_money (net * (3 / 4)) + q_money (net * (1 / 4))
      = of_int (half_even (of_int k * (3 / 4)) + half_even (of_int k * (1 / 4))) / 10 ^ 2"
    unfolding quantize_def quant_def n by (simp only: of_int_add add_divide_distrib)
  then have "q_money (net * (3 / 4)) + q_money (net * (1 / 4)) = net" unfolding half_even_quarters k .
  then show ?thesis using assms(2) by (intro that) (simp_all add: cash_split_def e)
qed

end
