(* ===== verification/Trading.thy ===== *)
theory Trading
  imports ReceivablesRuns Tax
begin

text \<open>
  The properties of the components that trade on credit or keep the money: receivables,
  payables, the bank, VAT, and the chart with its opening entry. Each follows from the
  facts of its component; the runs of the demo shop witness them.
\<close>

section \<open>Receivables\<close>



text \<open>
  C18. A receipt never pays an invoice beyond its total, whichever way it is allocated, and
  an invoice it marks as paid is paid in full.
\<close>

theorem receipt_never_overpays:
  assumes "post_receipt sha c dt amount key memo st actor als cur fx d = Inr (r, d')"
    and "\<forall>i \<in> set (ar_invoices d). invoice_wf i"
  shows "\<forall>i \<in> set (ar_invoices d'). invoice_wf i"
  using assms by (rule post_receipt_invoices_wf)

theorem receipt_never_overpays_witness:
  "\<exists>r d. post_receipt demo_sha (uid 14) (Date 2026 1 15) 100 ''CASH'' [] demo_settings ''u1'' None ''USD'' None ar_demo = Inr (r, d)
     \<and> (\<forall>i \<in> set (ar_invoices d). invoice_wf i)"
proof -
  have w: "demo_way ''CASH'' (demo_account 0 ''530001'' ASSET MONEY ''CASH'') (uid 0) 100 ''USD'' 1" by (simp add: demo_way_def)
  obtain r d where p: "post_receipt demo_sha (uid 14) (Date 2026 1 15) 100 ''CASH'' [] demo_settings ''u1'' None ''USD'' None ar_demo = Inr (r, d)"
    by (rule demo_receipt [OF w]) blast
  from receipt_never_overpays [OF p] p show ?thesis by (auto simp: ar_demo_parts)
qed

text \<open>
  C19. The allocation loop of a receipt refines first in, first out: over invoices that are
  not overpaid it allocates what the specification \<open>fifo_amounts\<close> allocates to the
  amounts owed, in their order, records the positive ones, and keeps the rest; and what it
  allocates is the whole amount, or all that is owed when that is less.
\<close>

theorem receipt_allocation_is_fifo:
  assumes "\<forall>i \<in> set invs. inv_amount_paid i \<le> inv_total i" "0 \<le> st_rest s"
  shows "st_specs (fifo_receipt rid invs s) = st_specs s @ concat (map2 (\<lambda>i a. if 0 < a
            then [Allocation (or_usd (inv_currency i)) (or_one (inv_fx_rate i)) a] else [])
          invs (fifo_amounts (st_rest s) (map invoice_owed invs)))
     \<and> st_rest (fifo_receipt rid invs s) = st_rest s - min (st_rest s) (sum_of invoice_owed invs)"
proof -
  have "sum_list (fifo_amounts (st_rest s) (map invoice_owed invs)) = min (st_rest s) (sum_list (map invoice_owed invs))"
    by (rule fifo_amounts_exhaust [OF assms(2)]) (use assms(1) in \<open>auto simp: invoice_owed_def\<close>)
  then show ?thesis
    using ar.fifo_specs [of invs s rid] ar.fifo_rest [of invs s rid] assms
    by (simp add: invoice_owed_def [abs_def] sum_of_def)
qed

definition demo_invoice :: "nat \<Rightarrow> dec \<Rightarrow> dec \<Rightarrow> ar_invoice" where
  "demo_invoice n t p = \<lparr>inv_id = uid n, inv_no = ''AR'', inv_customer_id = uid 14, inv_order_id = None, inv_date = Date 2026 1 n,
     inv_due_date = None, inv_currency = ''USD'', inv_fx_rate = 1, inv_subtotal = t, inv_vat_amount = 0, inv_total = t,
     inv_amount_paid = p, inv_status = AR_OPEN, inv_gl_entry_id = None, inv_memo = []\<rparr>"

theorem receipt_allocation_is_fifo_witness:
  "map ag_applied_money (st_specs (fifo_receipt (uid 9) [demo_invoice 1 60 20, demo_invoice 2 50 0, demo_invoice 3 70 0]
     \<lparr>st_db = ar_demo, st_specs = [], st_rest = 75\<rparr>)) = [40, 35]"
  using receipt_allocation_is_fifo [of "[demo_invoice 1 60 20, demo_invoice 2 50 0, demo_invoice 3 70 0]" "\<lparr>st_db = ar_demo, st_specs = [], st_rest = 75\<rparr>" "uid 9"]
  by (simp add: demo_invoice_def invoice_owed_def Allocation_def)

text \<open>
  The aging report accounts for every open invoice: its grand total is what the open
  invoices owe, and each bucket holds what the open invoices of its age owe.
\<close>

theorem aging_accounts_for_open_invoices:
  assumes "\<forall>i \<in> set (ar_invoices d). invoice_wf i"
  shows "ag_grand_total (compute_aging d as_of None) = sum_of aged (filter open_invoice (ar_invoices d))
    \<and> list_all (\<lambda>b. map_of (ag_totals (compute_aging d as_of None)) b
        = Some (sum_of aged (filter (\<lambda>i. bucket (toordinal as_of - toordinal (inv_date i)) = b) (filter open_invoice (ar_invoices d)))))
      [''0_30'', ''31_60'', ''61_90'', ''90_plus'']"
  using aging_agrees [where d = d and as_of = as_of] assms
  by (auto simp: invoice_wf_def invoice_owed_def empty_buckets_def intro!: at_scale_diff)

theorem aging_accounts_for_open_invoices_witness:
  "ag_grand_total (compute_aging (ar_demo\<lparr>ar_invoices := [demo_invoice 1 60 20, demo_invoice 2 50 0]\<rparr>) (Date 2026 2 1) None) = 90"
proof -
  let ?d = "ar_demo\<lparr>ar_invoices := [demo_invoice 1 60 20, demo_invoice 2 50 0]\<rparr>"
  have "\<forall>i \<in> set (ar_invoices ?d). invoice_wf i" by (simp add: demo_invoice_def invoice_wf_def)
  from aging_accounts_for_open_invoices [OF this, of "Date 2026 2 1"] show ?thesis
    by (simp add: aged_def invoice_owed_def demo_invoice_def open_invoice_def)
qed

text \<open>
  A customer's statement lists its events in date order, and closes with the invoiced
  less the received over the dates asked for.
\<close>

theorem statement_closes_in_order:
  "sorted (map se_date (sm_events (customer_statement d c from_date until)))
   \<and> sm_closing_balance (customer_statement d c from_date until)
     = q_money (sum_of inv_total (filter (\<lambda>i. inv_customer_id i = c \<and> from_date \<le> inv_date i \<and> inv_date i \<le> until) (ar_invoices d))
        - sum_of re_amount (filter (\<lambda>r. re_customer_id r = c \<and> from_date \<le> re_date r \<and> re_date r \<le> until) (ar_receipts d)))"
  using statement_in_order statement_closes by blast


section \<open>Payables\<close>

text \<open>
  In dollars the lines of a vendor bill balance: the expense lines, the input VAT and
  the credit to the account it is owed to or paid from, for any number of lines.
\<close>

theorem vendor_bill_balances:
  assumes "bill_gl_lines d key items vat (sum_of (\<lambda>(_, amt, _). amt) items + vat) (sum_of (\<lambda>(_, amt, _). amt) items + vat) cur 1 = Inr ls"
    and "\<forall>x \<in> set items. money_col (fst (snd x))" "money_col vat" "0 \<le> vat"
  shows "rounded_balanced ls"
  by (rule bill_gl_lines_balanced [OF assms(1) refl]) (use assms in \<open>auto simp: money_col_def\<close>)

theorem vendor_bill_balances_witness:
  "\<exists>ls. bill_gl_lines ar_demo None [(uid 12, 100, ''rent''), (uid 12, 50, [])] 15 165 165 ''USD'' 1 = Inr ls
     \<and> length ls = 4 \<and> rounded_balanced ls"
proof -
  let ?items = "[(uid 12, 100, ''rent''), (uid 12, 50, [])]"
  have r: "resolve_gl ar_demo ''VENDOR_AP'' = Inr (uid 9)" "resolve_gl ar_demo ''VAT_RECEIVABLE'' = Inr (uid 13)"
    by (simp_all add: resolve_gl_def scalar_one_or_none_def ar_demo_parts demo_accounts_def demo_account_def lbp_cash_def)
  obtain ls where b: "bill_gl_lines ar_demo None ?items 15 165 165 ''USD'' 1 = Inr ls" "length ls = 4"
    by (simp add: bill_gl_lines_def r bill_line_def ddiv_def del: ddiv_Inr)
  have "sum_of (\<lambda>(_, amt, _). amt) ?items + 15 = 165" by simp
  then have "bill_gl_lines ar_demo None ?items 15 (sum_of (\<lambda>(_, amt, _). amt) ?items + 15) (sum_of (\<lambda>(_, amt, _). amt) ?items + 15) ''USD'' 1 = Inr ls"
    using b(1) by (simp only:)
  then have "rounded_balanced ls" by (rule vendor_bill_balances) (simp_all add: money_col_def)
  with b show ?thesis by blast
qed

section \<open>The bank\<close>

text \<open>
  The search for the code of a new bank account ends. It gives the smallest number of
  the band no account has, which is then no account's code either; it gives up, with a
  422, only when every number of the band is taken.
\<close>

theorem bank_code_smallest_free:
  "case next_bank_account_code d ty of
     Inr c \<Rightarrow> c \<notin> set (map acc_code (gl_accounts d)) \<and> int_of_str c \<in> {fst (CODE_BANDS ty)<..snd (CODE_BANDS ty)}
       \<and> {fst (CODE_BANDS ty)<..<int_of_str c} \<subseteq> int_of_str ` acc_code ` set (gl_accounts d)
   | Inl e \<Rightarrow> e = HTTPException 422 (Msg ''No free {} code in {}-{}''
         [AStr (bank_account_type_value ty), AInt (fst (CODE_BANDS ty)), AInt (snd (CODE_BANDS ty))])
       \<and> {fst (CODE_BANDS ty)<..snd (CODE_BANDS ty)} \<subseteq> int_of_str ` acc_code ` set (gl_accounts d)"
proof (cases "next_bank_account_code d ty")
  case (Inr c)
  then show ?thesis using next_bank_account_code_free [OF Inr] by (force simp: image_image)
next
  case (Inl e)
  obtain lo hi where b: "CODE_BANDS ty = (lo, hi)" by fastforce
  have "\<forall>k. lo + 1 \<le> k \<and> k < first_free (used_codes d lo hi) (lo + 1) \<longrightarrow> k \<in> set (used_codes d lo hi)"
    using first_free_least by blast
  moreover have "set (used_codes d lo hi) \<subseteq> int_of_str ` acc_code ` set (gl_accounts d)" by (auto simp: used_codes_def)
  ultimately show ?thesis using Inl by (fastforce simp: next_bank_account_code_def b Let_def raise_if_def split: if_splits)
qed

text \<open>
  The lines of a transfer balance in dollars whatever the two currencies and the rate,
  with an FX line exactly when the two sides are worth different amounts.
\<close>

theorem transfer_lines_balance:
  assumes "usd_base amount (ba_currency s) rate = Inr src" "usd_base dest (ba_currency t) rate = Inr dst"
    and "transfer_lines d s t amount dest src dst memo = Inr ls"
  shows "rounded_balanced ls \<and> length ls = (if src = dst then 2 else 3)"
proof -
  have sc: "at_scale 2 src" "at_scale 2 dst" using assms(1,2) by (auto dest: usd_base_scale)
  then have "q_money (src - dst) = src - dst" by (simp add: at_scale_diff)
  then have "length ls = (if src = dst then 2 else 3)"
    using assms(3) by (auto simp: transfer_lines_def Let_def res_simps split: if_splits)
  then show ?thesis using transfer_lines_balanced [OF assms(3) sc] by simp
qed

definition demo_bank :: "nat \<Rightarrow> string \<Rightarrow> bank_account" where
  "demo_bank n cur = (new_bank_account ''Cash'' (uid n) BA_CASH cur None None)\<lparr>ba_id := uid n\<rparr>"

theorem transfer_lines_balance_witness:
  "\<exists>ls. transfer_lines ar_demo (demo_bank 0 ''USD'') (demo_bank 16 ''LBP'') 100 8860500 100 99 [] = Inr ls
     \<and> rounded_balanced ls \<and> length ls = 3"
proof -
  have c: "ctx 99 = 99" by (rule ctx_id [of 0]) simp_all
  have q: "q_money 1 = 1" by code_simp
  have u: "usd_base 100 (ba_currency (demo_bank 0 ''USD'')) 89500 = Inr 100"
    "usd_base 8860500 (ba_currency (demo_bank 16 ''LBP'')) 89500 = Inr 99"
    by (simp_all add: usd_base_def demo_bank_def new_bank_account_def ddiv_def c del: ddiv_Inr)
  obtain ls where l: "transfer_lines ar_demo (demo_bank 0 ''USD'') (demo_bank 16 ''LBP'') 100 8860500 100 99 [] = Inr ls"
    by (simp add: transfer_lines_def Let_def q ar_demo_parts demo_accounts_def demo_account_def lbp_cash_def scalar_one_def)
  from transfer_lines_balance [OF u l] l show ?thesis by simp
qed

text \<open>
  The suggested matches are sound and one to one: each pairs an unmatched line of the
  statement with a line of the account for the same amount, on the same side, within the
  window, that no statement line has been matched with; no journal line is suggested
  twice, and no statement line twice.
\<close>

theorem suggestions_sound:
  assumes "suggest_matches d bank_id window = Inr ms"
  shows "list_all (\<lambda>(sl, l, e). bs_bank_account_id sl = bank_id \<and> bs_status sl = UNMATCHED \<and> explains window sl (l, e)
       \<and> l \<in> set (gl_lines d) \<and> jl_id l \<notin> set (cleared_lines d)) ms
     \<and> distinct (map (\<lambda>(sl, l, e). jl_id l) ms) \<and> subseq (map fst ms) (statement_lines d)"
proof -
  from assms obtain ba where "scalar_one (\<lambda>b. ba_id b = bank_id) (bank_accounts d) = Inr ba" and m: "ms = suggest window (cleared_lines d) (gl_lines_for_account d (ba_gl_account_id ba))
     (filter (\<lambda>s. bs_bank_account_id s = bank_id \<and> bs_status s = UNMATCHED) (statement_lines d)) []"
    by (auto simp: suggest_matches_def res_simps)
  have "list_all (\<lambda>(sl, l, e). bs_bank_account_id sl = bank_id \<and> bs_status sl = UNMATCHED \<and> explains window sl (l, e)
       \<and> l \<in> set (gl_lines d) \<and> jl_id l \<notin> set (cleared_lines d)) ms"
    unfolding m by (auto simp: list_all_iff gl_lines_for_account_def dest!: suggest_sound)
  moreover have "subseq (map fst ms) (statement_lines d)"
    unfolding m by (rule subseq_order.order_trans [OF suggest_lines]) (rule subseq_filter_left)
  ultimately show ?thesis using suggest_distinct m by blast
qed

definition demo_statement_line :: bank_statement_line where
  "demo_statement_line = \<lparr>bs_id = ''s1'', bs_bank_account_id = uid 0, bs_stmt_date = Date 2026 1 17, bs_description = [],
     bs_amount = 125, bs_reference = None, bs_matched_gl_line_id = None, bs_reconciliation_id = None, bs_status = UNMATCHED\<rparr>"

theorem suggestions_sound_witness:
  "\<exists>d ms. suggest_matches d (uid 0) 5 = Inr ms \<and> length ms = 1 \<and> distinct (map (\<lambda>(sl, l, e). jl_id l) ms)"
proof -
  obtain e d0 where p: "post_entry demo_sha demo_request demo_db = Inr (e, d0)" by (rule demo_posted)
  let ?d = "d0\<lparr>bank_accounts := [demo_bank 0 ''USD''], statement_lines := [demo_statement_line]\<rparr>"
  have "toordinal (Date 2026 1 15) - toordinal (Date 2026 1 17) = -2" by code_simp
  then have "\<exists>ms. suggest_matches ?d (uid 0) 5 = Inr ms \<and> length ms = 1"
    using demo_posted_parts [OF p] demo_posted_lines [OF p]
    by (simp add: suggest_matches_def scalar_one_def demo_bank_def new_bank_account_def gl_lines_for_account_def cleared_lines_def
      new_lines_def mk_line_def demo_lines_def demo_statement_line_def explains_def upt_rec check_simps)
  with suggestions_sound [of ?d "uid 0" 5] show ?thesis by blast
qed

section \<open>VAT\<close>

text \<open>
  C38. The four quarterly returns of a year add up to the year: in a database the system can
  be in, the net amounts due sum to the output VAT less the input VAT of the lines dated in
  that year, none left out and none counted twice.
\<close>

theorem vat_returns_add_up:
  assumes "live_db sha d" "\<forall>e \<in> set (gl_entries d). valid_date (je_entry_date e)" "1 \<le> y" "y \<le> 9999"
    and "compute_vat_return d y 1 = Inr r1" "compute_vat_return d y 2 = Inr r2"
    and "compute_vat_return d y 3 = Inr r3" "compute_vat_return d y 4 = Inr r4"
    and "account_id d ''VAT_PAYABLE'' = Inr oid" "account_id d ''VAT_RECEIVABLE'' = Inr iid"
  shows "vr_net_payable r1 + vr_net_payable r2 + vr_net_payable r3 + vr_net_payable r4
    = year_vat (vat_out oid) d y oid iid - year_vat (vat_in oid) d y oid iid"
proof -
  have ok: "journal_ok sha d" by (rule live_db_ok(1) [OF assms(1)])
  have q: "quarter_range y 1 = Inr (Date y 1 1, Date y 3 31)" "quarter_range y 2 = Inr (Date y 4 1, Date y 6 30)"
    "quarter_range y 3 = Inr (Date y 7 1, Date y 9 30)" "quarter_range y 4 = Inr (Date y 10 1, Date y 12 31)"
    using assms(3,4) by (simp_all add: quarter_range_eq days_in_month_def)
  have net: "vr_net_payable r = sum_of (vat_out oid) (vat_lines d a b oid iid) - sum_of (vat_in oid) (vat_lines d a b oid iid)"
    if "compute_vat_return d y k = Inr r" "quarter_range y k = Inr (a, b)" for k r a b
    using that(1)
  proof (cases rule: compute_vat_return_steps)
    case (1 a' b' o' i')
    have e: "a' = a" "b' = b" "o' = oid" "i' = iid" using 1(1-3) that(2) assms(9,10) by simp_all
    have "at_scale 2 (sum_of (vat_out oid) (vat_lines d a b oid iid))" "at_scale 2 (sum_of (vat_in oid) (vat_lines d a b oid iid))"
      using vat_scales [OF ok] by (auto intro: scale_intros)
    then show ?thesis using 1(6-8) vat_return_totals [OF ok that(1)] unfolding e by simp
  qed
  note part = quarters_partition [where d = d and y = y and i = oid and j = iid, OF bspec [OF assms(2)]]
  show ?thesis
    unfolding net [OF assms(5) q(1)] net [OF assms(6) q(2)] net [OF assms(7) q(3)] net [OF assms(8) q(4)]
    using part [of "vat_out oid"] part [of "vat_in oid"] by simp
qed

lemma compute_vat_return_total:
  assumes "quarter_range y q = Inr ab" "account_id d ''VAT_PAYABLE'' = Inr oid" "account_id d ''VAT_RECEIVABLE'' = Inr iid"
  shows "\<exists>r. compute_vat_return d y q = Inr r"
  using assms by (cases ab) (auto simp: compute_vat_return_def Let_def split: prod.split)

theorem vat_returns_add_up_witness:
  "\<exists>d r1 r2 r3 r4. gl_entries d \<noteq> [] \<and> compute_vat_return d 2026 1 = Inr r1 \<and> compute_vat_return d 2026 2 = Inr r2
     \<and> compute_vat_return d 2026 3 = Inr r3 \<and> compute_vat_return d 2026 4 = Inr r4
     \<and> vr_net_payable r1 + vr_net_payable r2 + vr_net_payable r3 + vr_net_payable r4
       = year_vat (vat_out (uid 5)) d 2026 (uid 5) (uid 13) - year_vat (vat_in (uid 5)) d 2026 (uid 5) (uid 13)"
proof -
  obtain e d where p: "post_entry demo_sha demo_request demo_db = Inr (e, d)" and l: "live_db demo_sha d" by (rule demo_posted)
  have a: "account_id d ''VAT_PAYABLE'' = Inr (uid 5)" "account_id d ''VAT_RECEIVABLE'' = Inr (uid 13)"
    using demo_posted_parts [OF p]
    by (simp_all add: account_id_def scalar_one_def demo_db_parts demo_accounts_def demo_account_def)
  have q: "\<exists>ab. quarter_range 2026 k = Inr ab" if "k \<in> {1, 2, 3, 4}" for k using that by (simp add: quarter_range_eq)
  have t: "\<exists>r. compute_vat_return d 2026 k = Inr r" if "k \<in> {1, 2, 3, 4}" for k
    using q [OF that] compute_vat_return_total [OF _ a] by blast
  obtain r1 r2 r3 r4 where r: "compute_vat_return d 2026 1 = Inr r1" "compute_vat_return d 2026 2 = Inr r2"
    "compute_vat_return d 2026 3 = Inr r3" "compute_vat_return d 2026 4 = Inr r4"
    using t [of 1] t [of 2] t [of 3] t [of 4] by auto
  have "\<forall>e \<in> set (gl_entries d). valid_date (je_entry_date e)"
    using demo_posted_parts [OF p] by (simp add: valid_date_def days_in_month_def)
  from vat_returns_add_up [OF l this _ _ r a] have sum: "vr_net_payable r1 + vr_net_payable r2 + vr_net_payable r3 + vr_net_payable r4
      = year_vat (vat_out (uid 5)) d 2026 (uid 5) (uid 13) - year_vat (vat_in (uid 5)) d 2026 (uid 5) (uid 13)" by simp
  have "gl_entries d \<noteq> []" using demo_posted_parts(1) [OF p] by simp
  with r sum show ?thesis by blast
qed

text \<open>
  The two parts of the cash split, three quarters and one quarter of the amount due,
  each rounded to cents, add up to the amount due to the cent.
\<close>

theorem cash_split_exact:
  assumes "at_scale 2 net" "0 < net" "net < 10 ^ 24"
  shows "\<exists>c t. cash_split net = Some (c, t) \<and> c + t = net"
  using cash_split_sums [OF assms] by metis

theorem cash_split_exact_witness:
  "\<exists>c t. cash_split (1003 / 100) = Some (c, t) \<and> c + t = 1003 / 100"
  by (rule cash_split_exact) (simp_all add: at_scale_def)

section \<open>The chart and the opening entry\<close>

text \<open>
  Seeding the chart leaves every system account present, so that none is reported as
  missing; it keeps the accounts there were; and seeding again adds nothing.
\<close>

theorem chart_seeded_once:
  assumes "seed_chart_of_accounts d = Inr (n, d')"
  shows "(\<lambda>a. Some (sys_key a)) ` set SYSTEM_ACCOUNTS \<subseteq> acc_system_key ` set (gl_accounts d')
    \<and> (\<exists>new. gl_accounts d' = gl_accounts d @ new \<and> length new = n)
    \<and> ''MISSING'' \<notin> snd ` set (unusable_system_accounts d')
    \<and> seed_chart_of_accounts d' = Inr (0, d')"
proof -
  have "\<exists>new. gl_accounts d' = gl_accounts d @ new \<and> length new = n" by (rule seed_adds [OF assms]) blast
  moreover have "''MISSING'' \<notin> snd ` set (unusable_system_accounts d')" using seeded_not_missing [OF assms] by auto
  ultimately show ?thesis using seed_complete [OF assms] seed_idempotent [OF assms] by blast
qed

lemma seed_fold_total:
  assumes "distinct (map sys_code as)" "distinct (map sys_key as)"
    and "sys_code ` set as \<inter> acc_code ` set (gl_accounts d) = {}"
    and "(\<lambda>a. Some (sys_key a)) ` set as \<inter> acc_system_key ` set (gl_accounts d) = {}"
  shows "\<exists>m d'. fold_res (seed_step []) as (n, d) = Inr (m, d')"
  using assms
proof (induction "as" arbitrary: n d)
  case (Cons a "as")
  have c: "acc_code (system_account_row a) = sys_code a" by (simp add: system_account_row_def sys_code_def split: prod.splits)
  obtain b d1 where b: "add_account (system_account_row a) d = Inr (b, d1)"
    using Cons.prems(3,4) by (auto simp: add_account_def c system_account_row_key Let_def fresh_uid_def)
  note fr = add_account_frame [OF b]
  have "acc_code b = sys_code a" "acc_system_key b = Some (sys_key a)" by (simp_all add: fr(2) c system_account_row_key)
  then have "\<exists>m d'. fold_res (seed_step []) as (Suc n, d1) = Inr (m, d')"
    using Cons.prems by (intro Cons.IH) (auto simp: fr(1))
  then show ?case using b by (simp add: seed_step_simp)
qed simp

theorem chart_seeded_once_witness:
  "\<exists>n d. seed_chart_of_accounts (empty_db 0) = Inr (n, d) \<and> seed_chart_of_accounts d = Inr (0, d)"
proof -
  have "distinct (map sys_code SYSTEM_ACCOUNTS)" "distinct (map sys_key SYSTEM_ACCOUNTS)" by code_simp+
  then have "\<exists>n d. fold_res (seed_step []) SYSTEM_ACCOUNTS (0, empty_db 0) = Inr (n, d)"
    by (intro seed_fold_total) (simp_all add: empty_db_def)
  then have "\<exists>n d. seed_chart_of_accounts (empty_db 0) = Inr (n, d)"
    by (simp add: seed_chart_of_accounts_def existing_keys_def empty_db_def)
  then show ?thesis using chart_seeded_once by blast
qed

text \<open>
  The opening entry balances: whatever lots, finished goods, supplier balances and cash
  it is made of, the plug on the opening equity evens out the money and each karat.
\<close>

theorem opening_entry_balances:
  assumes "opening_lines cash_lines rate d = Inr lines" "stock_in_scale d" "\<forall>cl \<in> set cash_lines. at_scale 2 (cl_amount cl)"
  shows "rounded_balanced lines"
  by (rule opening_lines_balanced [OF assms(1,2)]) (use assms(3) in blast)

definition demo_lot :: gold_lot where
  "demo_lot = \<lparr>lot_id = ''l1'', lot_karat = K21, lot_weight_grams = 12, lot_weight_remaining_grams = 12,
     lot_source = SRC_SEED, lot_source_ref_type = None, lot_source_ref_id = None, lot_cost_basis_usd = 950,
     lot_acquired_at = 0, lot_notes = None, lot_is_depleted = False\<rparr>"

definition opening_demo :: db where
  "opening_demo = (empty_db demo_clock)\<lparr>gl_accounts := [demo_account 0 ''530001'' ASSET MONEY ''CASH'',
     demo_account 1 ''370011'' ASSET DUAL ''METAL_INVENTORY'', demo_account 2 ''401201'' LIABILITY DUAL ''METAL_AP'',
     demo_account 3 ''401101'' LIABILITY MONEY ''AP'', demo_account 4 ''109000'' EQUITY DUAL ''OPENING_BALANCE_EQUITY''],
     gold_lots := [demo_lot]\<rparr>"

theorem opening_entry_balances_witness:
  "\<exists>ls. opening_lines [\<lparr>cl_account_id = None, cl_system_key = Some ''CASH'', cl_amount = 500\<rparr>] None opening_demo = Inr ls
     \<and> length ls = 4 \<and> rounded_balanced ls"
proof -
  let ?cl = "[\<lparr>cl_account_id = None, cl_system_key = Some ''CASH'', cl_amount = 500\<rparr>]"
  have k: "key_to_account_id opening_demo ''METAL_INVENTORY'' = Inr (uid 1)" "key_to_account_id opening_demo ''METAL_AP'' = Inr (uid 2)"
    "key_to_account_id opening_demo ''AP'' = Inr (uid 3)" "key_to_account_id opening_demo ''OPENING_BALANCE_EQUITY'' = Inr (uid 4)"
    "key_to_account_id opening_demo ''CASH'' = Inr (uid 0)"
    by (simp_all add: key_to_account_id_def scalar_one_def opening_demo_def demo_account_def)
  have d: "gold_lots opening_demo = [demo_lot]" "products opening_demo = []" "coin_types opening_demo = []"
    "ounce_types opening_demo = []" "supplier_balances opening_demo = []"
    by (simp_all add: opening_demo_def empty_db_def)
  obtain ls where l: "opening_lines ?cl None opening_demo = Inr ls" "length ls = 4"
    by (simp add: opening_lines_def k d opening_lot_def demo_lot_def oa_add_def opening_cash_def cash_account_def
      opening_plugs_def metal_plugs_def)
  have "stock_in_scale opening_demo" by (simp add: stock_in_scale_def d demo_lot_def)
  from opening_entry_balances [OF l(1) this] l show ?thesis by simp
qed

end
