(* ===== verification/Reversal.thy ===== *)
theory Reversal
  imports TrialBalance
begin

text \<open>
  What a reversal does to the accounts: \<open>reverse_entry\<close> takes back exactly what the
  original entry put on each account, in base money and in grams of each karat, from the
  reversal's date on.
\<close>

definition metal_net :: "db \<Rightarrow> date \<Rightarrow> string \<Rightarrow> string option \<Rightarrow> dec" where
  "metal_net d as_of i k =
     account_total (\<lambda>l. if jl_karat l = k then jl_metal_debit_grams l - jl_metal_credit_grams l else 0) d as_of i"

definition entry_net :: "db \<Rightarrow> string \<Rightarrow> string \<Rightarrow> dec" where
  "entry_net d i a = sum_of (\<lambda>l. jl_base_debit l - jl_base_credit l)
     (filter (\<lambda>l. jl_account_id l = a) (entry_lines d i))"

definition entry_metal :: "db \<Rightarrow> string \<Rightarrow> string \<Rightarrow> string option \<Rightarrow> dec" where
  "entry_metal d i a k = sum_of (\<lambda>l. if jl_karat l = k then jl_metal_debit_grams l - jl_metal_credit_grams l else 0)
     (filter (\<lambda>l. jl_account_id l = a) (entry_lines d i))"

lemma post_entry_metal:
  assumes "post_entry sha q d = Inr (e, d')" "ids_ok d"
  shows "metal_net d' as_of i k = metal_net d as_of i k
    + (if pq_entry_date q \<le> as_of
       then sum_of (\<lambda>l. if ln_karat l = k then q_grams (ln_metal_debit_grams l) - q_grams (ln_metal_credit_grams l) else 0)
              (filter (\<lambda>l. ln_account_id l = i) (pq_lines q)) else 0)"
proof -
  obtain ls where p: "posted sha q d e ls d'" using post_entry_posted [OF assms(1)] by blast
  then obtain rs where rs: "resolve_denominations d (pq_lines q) = Inr rs" "ls = map normalize_line_decimals rs"
    by (auto simp: posted_def)
  have "sum_of (\<lambda>l. if ln_karat l = k then ln_metal_debit_grams l - ln_metal_credit_grams l else 0) (filter (\<lambda>l. ln_account_id l = i) ls)
      = sum_of (\<lambda>l. if ln_karat l = k then q_grams (ln_metal_debit_grams l) - q_grams (ln_metal_credit_grams l) else 0)
          (filter (\<lambda>l. ln_account_id l = i) (pq_lines q))"
    unfolding rs(2) by (rule resolve_denominations_sum [OF rs(1)]) (simp add: normalize_line_decimals_def)
  then show ?thesis
    unfolding metal_net_def
    by (subst account_total_posted [OF p assms(2),
          where g = "\<lambda>l. if ln_karat l = k then ln_metal_debit_grams l - ln_metal_credit_grams l else 0"])
      (simp_all add: mk_line_def)
qed

lemma entry_lines_wf: "lines_ok d \<Longrightarrow> l \<in> set (entry_lines d i) \<Longrightarrow> line_wf l"
  by (simp add: lines_ok_def entry_lines_def)

text \<open>Swapping the sides negates what the lines carry; stored amounts are already rounded.\<close>

lemma swap_line_account: "ln_account_id (swap_line l) = jl_account_id l"
  by (simp add: swap_line_def)

lemma swapped_sum:
  assumes "\<And>l. l \<in> set ls \<Longrightarrow> g (swap_line l) = - f l"
  shows "sum_of g (filter (\<lambda>l. ln_account_id l = a) (map swap_line ls)) = - sum_of f (filter (\<lambda>l. jl_account_id l = a) ls)"
  using assms by (induction ls) (simp_all add: swap_line_account)

lemma reversal_lines: "pq_lines (reversal_request f ls actor dt memo) = map swap_line ls"
  "pq_entry_date (reversal_request f ls actor dt memo) = dt"
  by (simp_all add: reversal_request_def post_args_def)

lemma reverse_entry_net:
  assumes "reverse_entry sha i actor dt memo d = Inr (e, d')" "ids_ok d" "lines_ok d"
  shows "account_net d' as_of a = account_net d as_of a - (if dt \<le> as_of then entry_net d i a else 0)"
    and "metal_net d' as_of a k = metal_net d as_of a k - (if dt \<le> as_of then entry_metal d i a k else 0)"
proof -
  obtain f where p: "post_entry sha (reversal_request f (entry_lines d i) actor dt memo) d = Inr (e, d')"
    by (rule reverse_entry_proper [OF assms(1)])
  have wf: "line_wf l" if "l \<in> set (entry_lines d i)" for l using entry_lines_wf [OF assms(3) that] .
  have "request_net (reversal_request f (entry_lines d i) actor dt memo) a = - entry_net d i a"
    unfolding request_net_def reversal_lines entry_net_def
    by (rule swapped_sum) (use wf in \<open>simp add: swap_line_def line_wf_def\<close>)
  then show "account_net d' as_of a = account_net d as_of a - (if dt \<le> as_of then entry_net d i a else 0)"
    using post_entry_net [OF p assms(2), of as_of a] by (simp add: reversal_lines)
  have "sum_of (\<lambda>l. if ln_karat l = k then q_grams (ln_metal_debit_grams l) - q_grams (ln_metal_credit_grams l) else 0)
      (filter (\<lambda>l. ln_account_id l = a) (map swap_line (entry_lines d i))) = - entry_metal d i a k"
    unfolding entry_metal_def
    by (rule swapped_sum) (use wf in \<open>simp add: swap_line_def line_wf_def\<close>)
  then show "metal_net d' as_of a k = metal_net d as_of a k - (if dt \<le> as_of then entry_metal d i a k else 0)"
    using post_entry_metal [OF p assms(2), of as_of a k] by (simp add: reversal_lines)
qed

end
