(* ===== verification/Calendar.thy ===== *)
theory Calendar
  imports Dates
begin

text \<open>
  The calendar arithmetic of \<open>Dates\<close> is right: \<open>fromordinal\<close> and \<open>toordinal\<close> are inverse
  on the days of the years 1 to 9999, and the day before a date is the latest date before it.
\<close>

definition max_ordinal :: int where "max_ordinal = 3652059"

lemma days_before_year_parts:
  assumes "0 \<le> b" "b \<le> 3" "0 \<le> c" "c \<le> 24" "0 \<le> e" "e \<le> 3"
  shows "days_before_year (a * 400 + 1 + b * 100 + c * 4 + e) = a * 146097 + b * 36524 + c * 1461 + e * 365"
proof -
  let ?z = "a * 400 + b * 100 + c * 4 + e"
  have "?z div 4 = a * 100 + b * 25 + c" "?z div 100 = a * 4 + b" "?z div 400 = a"
    using assms by linarith+
  then show ?thesis by (simp add: days_before_year_def Let_def algebra_simps)
qed

lemma month_of_day:
  assumes "0 \<le> r" "r < 365" "m = (r + 50) div 32" "m' = (if days_before_month y m > r then m - 1 else m)"
  shows "1 \<le> m' \<and> m' \<le> 12 \<and> days_before_month y m' \<le> r \<and> r < days_before_month y m' + days_in_month y m'"
proof -
  have "1 \<le> m" "m \<le> 12" using assms(1-3) by linarith+
  from month_cases [OF this] have m: "m = 1 \<or> m = 2 \<or> m = 3 \<or> m = 4 \<or> m = 5 \<or> m = 6 \<or> m = 7 \<or> m = 8 \<or> m = 9
    \<or> m = 10 \<or> m = 11 \<or> m = 12" .
  have r: "32 * m \<le> r + 50" "r + 50 < 32 * m + 32" using assms(3) by linarith+
  show ?thesis
    using m
    by (elim disjE; insert assms(1,2,4) r; cases "is_leap y";
        simp add: days_before_month_def days_in_month_def split: if_splits)
qed

lemma days_before_year_le: "y \<le> z \<Longrightarrow> days_before_year y \<le> days_before_year z"
  using days_before_year_mono [of y z] by (cases "y = z") (auto split: if_splits)

lemma toordinal_bounds:
  assumes "valid_date t"
  shows "1 \<le> toordinal t" "toordinal t \<le> max_ordinal" "days_before_year (d_year t) < toordinal t"
    "toordinal t \<le> days_before_year (d_year t + 1)"
proof -
  note v = assms [unfolded valid_date_def]
  have b: "0 \<le> days_before_month (d_year t) (d_month t)" using v by (intro days_before_month_nonneg) auto
  show lo: "days_before_year (d_year t) < toordinal t" using b v by (simp add: toordinal_def)
  have "days_before_year 1 \<le> days_before_year (d_year t)"
    using v by (intro days_before_year_le) simp
  then show "1 \<le> toordinal t" using lo by (simp add: days_before_year_def)
  show hi: "toordinal t \<le> days_before_year (d_year t + 1)"
    using days_before_month_end [of "d_month t" "d_year t"] v by (simp add: toordinal_def days_before_year_step)
  have "days_before_year (d_year t + 1) \<le> days_before_year 10000"
    using v by (intro days_before_year_le) simp
  then show "toordinal t \<le> max_ordinal" using hi by (simp add: max_ordinal_def days_before_year_def)
qed

lemma year_in_range:
  assumes "days_before_year y < n" "n \<le> max_ordinal"
  shows "y \<le> 9999"
proof (rule ccontr)
  assume "\<not> y \<le> 9999"
  then have "days_before_year 10000 \<le> days_before_year y"
    by (intro days_before_year_le) simp
  with assms show False by (simp add: max_ordinal_def days_before_year_def)
qed

lemma leap_year_end:
  assumes "is_leap y"
  shows "toordinal (Date y 12 31) = days_before_year y + 366" "1 \<le> y \<Longrightarrow> y \<le> 9999 \<Longrightarrow> valid_date (Date y 12 31)"
  using assms by (simp_all add: toordinal_def days_before_month_def valid_date_def days_in_month_def)

lemma leap_in_century:
  assumes "0 \<le> c" "c \<le> 23"
  shows "is_leap (a * 400 + 1 + b * 100 + c * 4 + 3)"
proof -
  have "a * 400 + 1 + b * 100 + c * 4 + 3 = (c * 4 + 4) + (a * 4 + b) * 100"
    "a * 400 + 1 + b * 100 + c * 4 + 3 = (a * 100 + b * 25 + c + 1) * 4"
    by simp_all
  then have "(a * 400 + 1 + b * 100 + c * 4 + 3) mod 100 = (c * 4 + 4) mod 100"
    "(a * 400 + 1 + b * 100 + c * 4 + 3) mod 4 = 0"
    by (metis mod_mult_self1, presburger)
  moreover have "(c * 4 + 4) mod 100 = c * 4 + 4" using assms by simp
  ultimately show ?thesis using assms by (simp add: is_leap_def)
qed

text \<open>The quotients \<open>fromordinal\<close> takes, with their ranges.\<close>

lemma ordinal_parts:
  fixes n :: int
  assumes "n = a * 146097 + r1" "r1 = b * 36524 + r2" "r2 = c * 1461 + r3" "r3 = e * 365 + r"
    and "0 \<le> r1" "r1 < 146097" "0 \<le> r2" "r2 < 36524" "0 \<le> r3" "r3 < 1461" "0 \<le> r" "r < 365"
  shows "0 \<le> b" "b \<le> 4" "0 \<le> c" "c \<le> 24" "0 \<le> e" "e \<le> 4"
    and "b = 4 \<Longrightarrow> r2 = 0 \<and> c = 0 \<and> r3 = 0 \<and> e = 0 \<and> r = 0"
    and "e = 4 \<Longrightarrow> r = 0 \<and> c \<le> 23"
proof -
  show rng: "0 \<le> b" "b \<le> 4" "0 \<le> c" "c \<le> 24" "0 \<le> e" "e \<le> 4" using assms by linarith+
  show "r2 = 0 \<and> c = 0 \<and> r3 = 0 \<and> e = 0 \<and> r = 0" if "b = 4"
  proof -
    have "r2 = 0" using assms that by linarith
    moreover from this have "c = 0" "r3 = 0" using assms(3,9) rng by linarith+
    moreover from this have "e = 0" "r = 0" using assms(4,11) rng by linarith+
    ultimately show ?thesis by simp
  qed
  show "r = 0 \<and> c \<le> 23" if "e = 4"
  proof -
    have "r = 0" using assms(4,10,11) that by linarith
    moreover have "c \<le> 23" using assms that by linarith
    ultimately show ?thesis by simp
  qed
qed

lemma fromordinal_right:
  assumes "1 \<le> n" "n \<le> max_ordinal"
  shows "valid_date (fromordinal n) \<and> toordinal (fromordinal n) = n"
proof -
  define a where "a = (n - 1) div 146097"
  define r1 where "r1 = (n - 1) mod 146097"
  define b where "b = r1 div 36524"
  define r2 where "r2 = r1 mod 36524"
  define c where "c = r2 div 1461"
  define r3 where "r3 = r2 mod 1461"
  define e where "e = r3 div 365"
  define r where "r = r3 mod 365"
  note defs = a_def r1_def b_def r2_def c_def r3_def e_def r_def
  let ?y = "a * 400 + 1 + b * 100 + c * 4 + e"
  have n: "n - 1 = a * 146097 + r1" "r1 = b * 36524 + r2" "r2 = c * 1461 + r3" "r3 = e * 365 + r"
    by (simp_all add: defs)
  have rng: "0 \<le> a" "0 \<le> r1" "r1 < 146097" "0 \<le> r2" "r2 < 36524" "0 \<le> r3" "r3 < 1461" "0 \<le> r" "r < 365"
    using assms(1) by (simp_all add: defs pos_imp_zdiv_nonneg_iff)
  note parts = ordinal_parts [OF n rng(2-)]
  note rng2 = parts(1-6)
  have f: "fromordinal n = (if e = 4 \<or> b = 4 then Date (?y - 1) 12 31
      else let m = (r + 50) div 32; m = (if days_before_month ?y m > r then m - 1 else m)
           in Date ?y m (r - days_before_month ?y m + 1))"
    by (simp add: fromordinal_def Let_def defs)
  consider (b4) "b = 4" | (e4) "b \<le> 3" "e = 4" | (in_year) "b \<le> 3" "e \<le> 3" using rng2 by linarith
  then show ?thesis
  proof cases
    case b4
    then have z: "r2 = 0" "c = 0" "r3 = 0" "e = 0" "r = 0" using parts(7) by simp_all
    have y: "?y - 1 = a * 400 + 1 + 3 * 100 + 24 * 4 + 3" by (simp add: b4 z)
    have leap: "is_leap (?y - 1)" unfolding is_leap_def by (simp add: b4 z)
    have "days_before_year (?y - 1) = a * 146097 + 3 * 36524 + 24 * 1461 + 3 * 365"
      unfolding y by (rule days_before_year_parts) simp_all
    then have "toordinal (Date (?y - 1) 12 31) = n"
      using leap_year_end(1) [OF leap] n b4 z by linarith
    moreover have "fromordinal n = Date (?y - 1) 12 31" unfolding f using b4 by simp
    moreover have "1 \<le> ?y - 1" using b4 rng rng2 by simp
    ultimately show ?thesis
      using leap_year_end [OF leap] year_in_range [of "?y - 1" n] assms(2) by simp
  next
    case e4
    have c: "c \<le> 23" and r0: "r = 0" using parts(8) e4 by simp_all
    have y: "?y - 1 = a * 400 + 1 + b * 100 + c * 4 + 3" by (simp add: e4)
    have leap: "is_leap (?y - 1)" unfolding y by (rule leap_in_century) (use rng2 c in simp_all)
    have "days_before_year (?y - 1) = a * 146097 + b * 36524 + c * 1461 + 3 * 365"
      unfolding y by (rule days_before_year_parts) (use e4 c rng2 in simp_all)
    then have "toordinal (Date (?y - 1) 12 31) = n"
      using leap_year_end(1) [OF leap] n e4 r0 by linarith
    moreover have "fromordinal n = Date (?y - 1) 12 31" unfolding f using e4 by simp
    moreover have "1 \<le> ?y - 1" using e4 rng rng2 by simp
    ultimately show ?thesis
      using leap_year_end [OF leap] year_in_range [of "?y - 1" n] assms(2) by simp
  next
    case in_year
    have dy: "days_before_year ?y = n - 1 - r"
      using days_before_year_parts [of b c e a] in_year rng2 n by simp
    define m where "m = (let m = (r + 50) div 32 in if days_before_month ?y m > r then m - 1 else m)"
    have m: "1 \<le> m" "m \<le> 12" "days_before_month ?y m \<le> r" "r < days_before_month ?y m + days_in_month ?y m"
      using month_of_day [OF rng(8,9) refl refl, of ?y] by (simp_all add: m_def Let_def)
    have g: "fromordinal n = Date ?y m (r - days_before_month ?y m + 1)"
      using in_year by (simp add: f m_def Let_def)
    have "?y \<le> 9999" by (rule year_in_range [OF _ assms(2)]) (use dy rng in simp)
    then show ?thesis using m rng rng2 by (simp add: g toordinal_def dy valid_date_def)
  qed
qed

lemma toordinal_le_iff:
  assumes "valid_date a" "valid_date b"
  shows "a \<le> b \<longleftrightarrow> toordinal a \<le> toordinal b"
  using toordinal_less [OF assms] toordinal_less [OF assms(2,1)] by (metis linorder_not_less order_le_less)

text \<open>\<open>t - timedelta(days=1)\<close>\<close>

definition day_before :: "date \<Rightarrow> date" where
  "day_before t = fromordinal (toordinal t - 1)"

lemma day_before_iff:
  assumes "valid_date t" "1 < toordinal t" "valid_date s"
  shows "s \<le> day_before t \<longleftrightarrow> s < t"
proof -
  have b: "valid_date (day_before t)" "toordinal (day_before t) = toordinal t - 1"
    using fromordinal_right [of "toordinal t - 1"] toordinal_bounds(2) [OF assms(1)] assms(2)
    by (simp_all add: day_before_def)
  show ?thesis
    using toordinal_le_iff [OF assms(3) b(1)] toordinal_le_iff [OF assms(1,3)] b(2) by (simp add: linorder_not_le [symmetric])
qed

end
