(* ===== verification/Statements.thy ===== *)
theory Statements
  imports PeriodClose Receivables_Reports Calendar
begin

text \<open>
  The financial statements of \<open>app/core/statements.py\<close> and the ratios of \<open>app/core/kpis.py\<close>:
  the income statement, the balance sheet, the cash flow and the statement of one account,
  each a replay of the journal lines joined to their entries and accounts. A sort by code is
  stable here; rows the query leaves unordered come in the order they were inserted. What the
  reports add up to is in \<open>Statements_Facts\<close>.
\<close>

section \<open>The joined rows\<close>

type_synonym joined = "gl_journal_line \<times> gl_journal_entry \<times> gl_account"

definition joined_lines :: "db \<Rightarrow> joined list" where
  "joined_lines d =
     concat (map (\<lambda>l. case (find (\<lambda>e. je_id e = jl_entry_id l) (gl_entries d),
                            find (\<lambda>a. acc_id a = jl_account_id l) (gl_accounts d)) of
                        (Some e, Some a) \<Rightarrow> [(l, e, a)] | _ \<Rightarrow> []) (gl_lines d))"

definition in_window :: "date \<Rightarrow> date \<Rightarrow> gl_journal_entry \<Rightarrow> bool" where
  "in_window start until e \<longleftrightarrow> start \<le> je_entry_date e \<and> je_entry_date e \<le> until"

definition window_lines :: "db \<Rightarrow> date \<Rightarrow> date \<Rightarrow> joined list" where
  "window_lines d start until = filter (\<lambda>(l, e, a). in_window start until e) (joined_lines d)"

section \<open>Account keys\<close>

definition COGS_KEYS :: "string list" where "COGS_KEYS = [''METAL_COGS'', ''MAKING_COGS'']"
definition OTHER_KEYS :: "string list" where "OTHER_KEYS = [''FX_GAIN'', ''FX_LOSS'']"
definition INVENTORY_KEYS :: "string list" where "INVENTORY_KEYS = [''METAL_INVENTORY'', ''PRODUCT_INVENTORY'']"
definition MONEY_AP_KEYS :: "string list" where "MONEY_AP_KEYS = [''AP'', ''VENDOR_AP'']"

definition key_in :: "string option \<Rightarrow> string list \<Rightarrow> bool" where
  "key_in k keys = (case k of None \<Rightarrow> False | Some s \<Rightarrow> s \<in> set keys)"

section \<open>The income statement\<close>

record statement_line =
  st_code :: string
  st_name :: string
  st_system_key :: "string option"
  st_amount :: dec

record income_acct =
  ia_code :: string
  ia_name :: string
  ia_system_key :: "string option"
  ia_type :: account_type
  ia_debit :: dec
  ia_credit :: dec

definition income_rows :: "db \<Rightarrow> date \<Rightarrow> date \<Rightarrow> joined list" where
  "income_rows d start until =
     filter (\<lambda>(l, e, a). in_window start until e \<and> je_source_type e \<noteq> ''YEAR_CLOSE'' \<and> acc_type a \<in> {INCOME, EXPENSE})
       (joined_lines d)"

definition new_income_acct :: "gl_account \<Rightarrow> income_acct" where
  "new_income_acct a = \<lparr>ia_code = acc_code a, ia_name = acc_name a, ia_system_key = acc_system_key a,
     ia_type = acc_type a, ia_debit = 0, ia_credit = 0\<rparr>"

definition add_income_line :: "gl_journal_line \<Rightarrow> income_acct \<Rightarrow> income_acct" where
  "add_income_line l a = a\<lparr>ia_debit := ia_debit a + jl_base_debit l, ia_credit := ia_credit a + jl_base_credit l\<rparr>"

definition income_accts :: "joined list \<Rightarrow> (string \<times> income_acct) list" where
  "income_accts rows = fold (\<lambda>(l, e, a). dict_upd (acc_id a) (new_income_acct a) (add_income_line l)) rows []"

record income_state =
  in_revenue_lines :: "statement_line list"
  in_cogs_lines :: "statement_line list"
  in_opex_lines :: "statement_line list"
  in_other_lines :: "statement_line list"
  in_revenue :: dec
  in_cogs :: dec
  in_opex :: dec
  in_other :: dec

definition income_line :: "income_acct \<Rightarrow> dec \<Rightarrow> statement_line" where
  "income_line a x = \<lparr>st_code = ia_code a, st_name = ia_name a, st_system_key = ia_system_key a, st_amount = x\<rparr>"

definition income_step :: "income_acct \<Rightarrow> income_state \<Rightarrow> income_state" where
  "income_step a s =
     (if key_in (ia_system_key a) OTHER_KEYS then
        let x = q_money (if ia_type a = INCOME then ia_credit a - ia_debit a else - (ia_debit a - ia_credit a))
        in s\<lparr>in_other := in_other s + x, in_other_lines := in_other_lines s @ [income_line a x]\<rparr>
      else if ia_type a = INCOME then
        let x = q_money (ia_credit a - ia_debit a)
        in s\<lparr>in_revenue := in_revenue s + x, in_revenue_lines := in_revenue_lines s @ [income_line a x]\<rparr>
      else if key_in (ia_system_key a) COGS_KEYS then
        let x = q_money (ia_debit a - ia_credit a)
        in s\<lparr>in_cogs := in_cogs s + x, in_cogs_lines := in_cogs_lines s @ [income_line a x]\<rparr>
      else
        let x = q_money (ia_debit a - ia_credit a)
        in s\<lparr>in_opex := in_opex s + x, in_opex_lines := in_opex_lines s @ [income_line a x]\<rparr>)"

record income_report =
  ir_start :: date
  ir_end :: date
  ir_revenue_lines :: "statement_line list"
  ir_cogs_lines :: "statement_line list"
  ir_opex_lines :: "statement_line list"
  ir_other_lines :: "statement_line list"
  ir_revenue :: dec
  ir_cogs :: dec
  ir_gross_profit :: dec
  ir_operating_expenses :: dec
  ir_operating_profit :: dec
  ir_other_income_expense :: dec
  ir_net_profit :: dec

definition EMPTY_INCOME :: income_state where
  "EMPTY_INCOME = \<lparr>in_revenue_lines = [], in_cogs_lines = [], in_opex_lines = [], in_other_lines = [],
     in_revenue = 0, in_cogs = 0, in_opex = 0, in_other = 0\<rparr>"

definition income_report_of :: "date \<Rightarrow> date \<Rightarrow> income_state \<Rightarrow> income_report" where
  "income_report_of start until s =
     (let revenue = q_money (in_revenue s); cogs = q_money (in_cogs s); opex = q_money (in_opex s);
          other = q_money (in_other s); gross = q_money (revenue - cogs); operating = q_money (gross - opex)
      in \<lparr>ir_start = start, ir_end = until, ir_revenue_lines = in_revenue_lines s, ir_cogs_lines = in_cogs_lines s,
          ir_opex_lines = in_opex_lines s, ir_other_lines = in_other_lines s, ir_revenue = revenue, ir_cogs = cogs,
          ir_gross_profit = gross, ir_operating_expenses = opex, ir_operating_profit = operating,
          ir_other_income_expense = other, ir_net_profit = q_money (operating + other)\<rparr>)"

definition income_statement :: "db \<Rightarrow> date \<Rightarrow> date \<Rightarrow> income_report" where
  "income_statement d start until =
     income_report_of start until
       (fold income_step (sort_key ia_code (map snd (income_accts (income_rows d start until)))) EMPTY_INCOME)"

section \<open>The balance sheet\<close>

record sheet_state =
  sh_asset_lines :: "statement_line list"
  sh_liability_lines :: "statement_line list"
  sh_equity_lines :: "statement_line list"
  sh_assets :: dec
  sh_liabilities :: dec
  sh_equity :: dec
  sh_net_income :: dec
  sh_metal :: "(string \<times> dec) list"

definition sheet_line :: "tb_acct \<Rightarrow> dec \<Rightarrow> statement_line" where
  "sheet_line a x = \<lparr>st_code = ta_code a, st_name = ta_name a, st_system_key = ta_system_key a, st_amount = x\<rparr>"

definition add_metal_position :: "(string \<times> tb_bucket) list \<Rightarrow> (string \<times> dec) list \<Rightarrow> (string \<times> dec) list" where
  "add_metal_position buckets m = fold (\<lambda>(k, v). dict_upd k 0 (\<lambda>x. x + net_grams v)) buckets m"

fun sheet_step :: "tb_acct \<Rightarrow> sheet_state \<Rightarrow> sheet_state" where
  "sheet_step a s =
     (case ta_type a of
        ASSET \<Rightarrow>
          let x = q_money (ta_base_debit a - ta_base_credit a)
          in s\<lparr>sh_assets := sh_assets s + x, sh_asset_lines := sh_asset_lines s @ [sheet_line a x],
               sh_metal := add_metal_position (ta_metal_by_karat a) (sh_metal s)\<rparr>
      | LIABILITY \<Rightarrow>
          let x = q_money (ta_base_credit a - ta_base_debit a)
          in s\<lparr>sh_liabilities := sh_liabilities s + x, sh_liability_lines := sh_liability_lines s @ [sheet_line a x]\<rparr>
      | EQUITY \<Rightarrow>
          let x = q_money (ta_base_credit a - ta_base_debit a)
          in s\<lparr>sh_equity := sh_equity s + x, sh_equity_lines := sh_equity_lines s @ [sheet_line a x]\<rparr>
      | INCOME \<Rightarrow> s\<lparr>sh_net_income := sh_net_income s + (ta_base_credit a - ta_base_debit a)\<rparr>
      | EXPENSE \<Rightarrow> s\<lparr>sh_net_income := sh_net_income s + (ta_base_credit a - ta_base_debit a)\<rparr>)"

definition EMPTY_SHEET :: sheet_state where
  "EMPTY_SHEET = \<lparr>sh_asset_lines = [], sh_liability_lines = [], sh_equity_lines = [], sh_assets = 0,
     sh_liabilities = 0, sh_equity = 0, sh_net_income = 0, sh_metal = []\<rparr>"

record balance_sheet_report =
  bs_as_of :: date
  bs_all_current :: bool
  bs_asset_lines :: "statement_line list"
  bs_liability_lines :: "statement_line list"
  bs_equity_lines :: "statement_line list"
  bs_total_assets :: dec
  bs_total_liabilities :: dec
  bs_total_equity :: dec
  bs_balanced :: bool
  bs_metal_position :: "(string \<times> dec) list"

definition earnings_line :: "dec \<Rightarrow> statement_line" where
  "earnings_line x = \<lparr>st_code = ''-'', st_name = ''Current-period earnings'',
     st_system_key = Some ''CURRENT_EARNINGS'', st_amount = x\<rparr>"

definition balance_sheet :: "db \<Rightarrow> date \<Rightarrow> balance_sheet_report" where
  "balance_sheet d as_of =
     (let s = fold sheet_step (tb_accounts (compute_trial_balance d as_of)) EMPTY_SHEET;
          net_income = q_money (sh_net_income s);
          equity = q_money (sh_equity s + net_income);
          assets = q_money (sh_assets s);
          liabilities = q_money (sh_liabilities s)
      in \<lparr>bs_as_of = as_of, bs_all_current = True, bs_asset_lines = sh_asset_lines s,
          bs_liability_lines = sh_liability_lines s,
          bs_equity_lines = sh_equity_lines s @ [earnings_line net_income],
          bs_total_assets = assets, bs_total_liabilities = liabilities, bs_total_equity = equity,
          bs_balanced = (assets = q_money (liabilities + equity)),
          bs_metal_position =
            map (map_prod id q_grams) (filter (\<lambda>kv. snd kv \<noteq> 0) (sort_key fst (sh_metal s)))\<rparr>)"

section \<open>The cash flow\<close>

definition CF_CATEGORIES :: "(string \<times> string) list" where
  "CF_CATEGORIES =
     [(''sales'', ''Sales & receipts''), (''purchases'', ''Supplier & purchase payments''),
      (''expenses'', ''Operating expenses paid''), (''tax'', ''Tax''), (''owner'', ''Owner / equity''),
      (''transfers'', ''Transfers''), (''other'', ''Other'')]"

definition cash_account_ids :: "db \<Rightarrow> string list" where
  "cash_account_ids d = map ba_gl_account_id (bank_accounts d)"

definition cash_balance :: "db \<Rightarrow> date \<Rightarrow> string list \<Rightarrow> dec" where
  "cash_balance d as_of cash_ids =
     q_money (sum_of (\<lambda>a. ta_base_debit a - ta_base_credit a)
       (filter (\<lambda>a. ta_account_id a \<in> set cash_ids) (tb_accounts (compute_trial_balance d as_of))))"

definition counterpart_category :: "gl_account \<Rightarrow> string list \<Rightarrow> string" where
  "counterpart_category a cash_ids =
     (if acc_id a \<in> set cash_ids then ''transfers''
      else if acc_type a = INCOME \<or> acc_system_key a = Some ''AR'' then ''sales''
      else if key_in (acc_system_key a) [''AP'', ''VENDOR_AP'', ''METAL_AP''] \<or> key_in (acc_system_key a) INVENTORY_KEYS
      then ''purchases''
      else if key_in (acc_system_key a) [''VAT_PAYABLE'', ''VAT_RECEIVABLE''] then ''tax''
      else if acc_type a = EXPENSE then ''expenses''
      else if acc_type a = EQUITY then ''owner''
      else ''other'')"

text \<open>\<open>max(xs, key=f)\<close>: the first of the largest.\<close>

fun max_by :: "('a \<Rightarrow> rat) \<Rightarrow> 'a \<Rightarrow> 'a list \<Rightarrow> 'a" where
  "max_by f x [] = x"
| "max_by f x (y # ys) = max_by f (if f x < f y then y else x) ys"

type_synonym posted_line = "gl_journal_line \<times> gl_account"

definition lines_by_entry :: "joined list \<Rightarrow> (string \<times> posted_line list) list" where
  "lines_by_entry rows = fold (\<lambda>(l, e, a). dict_upd (jl_entry_id l) [] (\<lambda>ls. ls @ [(l, a)])) rows []"

definition entry_category :: "string list \<Rightarrow> posted_line list \<Rightarrow> string" where
  "entry_category cash_ids ls =
     (case filter (\<lambda>(l, a). acc_id a \<notin> set cash_ids) ls of
        [] \<Rightarrow> ''transfers''
      | x # xs \<Rightarrow> counterpart_category
          (snd (max_by (\<lambda>(l, a). \<bar>jl_base_debit l - jl_base_credit l\<bar>) x xs)) cash_ids)"

definition cash_step :: "string list \<Rightarrow> posted_line list \<Rightarrow> (string \<times> dec) list \<Rightarrow> (string \<times> dec) list" where
  "cash_step cash_ids ls totals =
     (let cash_lines = filter (\<lambda>(l, a). acc_id a \<in> set cash_ids) ls in
      if cash_lines = [] then totals
      else fold (\<lambda>(l, a). dict_upd (entry_category cash_ids ls) 0 (\<lambda>x. x + (jl_money_debit l - jl_money_credit l)))
             cash_lines totals)"

record cash_category =
  cc_key :: string
  cc_label :: string
  cc_amount :: dec

record cash_flow_report =
  cf_start :: date
  cf_end :: date
  cf_opening_cash :: dec
  cf_closing_cash :: dec
  cf_categories :: "cash_category list"
  cf_net_change :: dec
  cf_reconciles :: bool

definition get_or :: "'k \<Rightarrow> 'v \<Rightarrow> ('k \<times> 'v) list \<Rightarrow> 'v" where
  "get_or k v al = (case map_of al k of None \<Rightarrow> v | Some w \<Rightarrow> w)"

definition cash_flow :: "db \<Rightarrow> date \<Rightarrow> date \<Rightarrow> cash_flow_report" where
  "cash_flow d start until =
     (let cash_ids = cash_account_ids d;
          opening_cash = cash_balance d (day_before start) cash_ids;
          closing_cash = cash_balance d until cash_ids;
          totals = fold (cash_step cash_ids) (map snd (lines_by_entry (window_lines d start until)))
                     (map (\<lambda>(k, label). (k, 0)) CF_CATEGORIES);
          net_change = q_money (sum_of snd totals)
      in \<lparr>cf_start = start, cf_end = until, cf_opening_cash = opening_cash, cf_closing_cash = closing_cash,
          cf_categories =
            map (\<lambda>(k, label). \<lparr>cc_key = k, cc_label = label, cc_amount = q_money (get_or k 0 totals)\<rparr>)
              (filter (\<lambda>(k, label). get_or k 0 totals \<noteq> 0) CF_CATEGORIES),
          cf_net_change = net_change,
          cf_reconciles = (q_money (opening_cash + net_change) = closing_cash)\<rparr>)"

section \<open>The statement of an account\<close>

record account_row =
  ar_entry_id :: string
  ar_entry_no :: string
  ar_date :: date
  ar_memo :: string
  ar_debit :: dec
  ar_credit :: dec
  ar_running_balance :: dec
  ar_metal_debit_grams :: dec
  ar_metal_credit_grams :: dec
  ar_running_grams :: dec

record account_report =
  as_account_id :: string
  as_code :: string
  as_name :: string
  as_type :: account_type
  as_system_key :: "string option"
  as_start :: date
  as_end :: date
  as_opening_balance :: dec
  as_closing_balance :: dec
  as_opening_grams :: dec
  as_closing_grams :: dec
  as_rows :: "account_row list"

text \<open>The lines of an account with their entries.\<close>

definition account_lines :: "db \<Rightarrow> string \<Rightarrow> (gl_journal_line \<times> gl_journal_entry) list" where
  "account_lines d account_id =
     concat (map (\<lambda>l. case find (\<lambda>e. je_id e = jl_entry_id l) (gl_entries d) of None \<Rightarrow> [] | Some e \<Rightarrow> [(l, e)])
       (filter (\<lambda>l. jl_account_id l = account_id) (gl_lines d)))"

fun run_account :: "dec \<Rightarrow> dec \<Rightarrow> (gl_journal_line \<times> gl_journal_entry) list \<Rightarrow> account_row list \<times> dec \<times> dec" where
  "run_account x g [] = ([], x, g)"
| "run_account x g ((l, e) # rest) =
     (let x = x + (jl_base_debit l - jl_base_credit l);
          g = g + (jl_metal_debit_grams l - jl_metal_credit_grams l);
          (rows, y, h) = run_account x g rest
      in (\<lparr>ar_entry_id = je_id e, ar_entry_no = je_entry_no e, ar_date = je_entry_date e, ar_memo = je_memo e,
            ar_debit = q_money (jl_base_debit l), ar_credit = q_money (jl_base_credit l),
            ar_running_balance = q_money x, ar_metal_debit_grams = q_grams (jl_metal_debit_grams l),
            ar_metal_credit_grams = q_grams (jl_metal_credit_grams l), ar_running_grams = q_grams g\<rparr> # rows, y, h))"

definition account_statement :: "db \<Rightarrow> string \<Rightarrow> date \<Rightarrow> date \<Rightarrow> account_report res" where
  "account_statement d account_id start until =
     bnd (scalar_one (\<lambda>a. acc_id a = account_id) (gl_accounts d)) (\<lambda>a.
     let before = filter (\<lambda>(l, e). je_entry_date e < start) (account_lines d account_id);
         opening_balance = sum_of (\<lambda>(l, e). jl_base_debit l - jl_base_credit l) before;
         opening_grams = sum_of (\<lambda>(l, e). jl_metal_debit_grams l - jl_metal_credit_grams l) before;
         window = sort_key (\<lambda>(l, e). (je_entry_date e, je_entry_no e))
                    (filter (\<lambda>(l, e). in_window start until e) (account_lines d account_id));
         (rows, closing_balance, closing_grams) = run_account opening_balance opening_grams window
     in Inr \<lparr>as_account_id = acc_id a, as_code = acc_code a, as_name = acc_name a, as_type = acc_type a,
             as_system_key = acc_system_key a, as_start = start, as_end = until,
             as_opening_balance = q_money opening_balance, as_closing_balance = q_money closing_balance,
             as_opening_grams = q_grams opening_grams, as_closing_grams = q_grams closing_grams, as_rows = rows\<rparr>)"

section \<open>Ratios\<close>

text \<open>\<open>_div\<close>: a quotient, or nothing over zero.\<close>

definition div_or_none :: "dec \<Rightarrow> dec \<Rightarrow> dec option" where
  "div_or_none a b = (if b = 0 then None else Some (dquot a b))"

record kpi_snapshot =
  ks_inventory :: dec
  ks_ar :: dec
  ks_ap :: dec
  ks_metal_grams :: dec
  ks_current_assets :: dec
  ks_current_liabilities :: dec

fun snapshot_step :: "tb_acct \<Rightarrow> kpi_snapshot \<Rightarrow> kpi_snapshot" where
  "snapshot_step a s =
     (if ta_type a = ASSET then
        let net = ta_base_debit a - ta_base_credit a;
            s = s\<lparr>ks_current_assets := ks_current_assets s + net\<rparr>;
            s = (if key_in (ta_system_key a) INVENTORY_KEYS
                 then s\<lparr>ks_inventory := ks_inventory s + net,
                        ks_metal_grams := ks_metal_grams s + sum_of (\<lambda>kv. net_grams (snd kv)) (ta_metal_by_karat a)\<rparr>
                 else s)
        in if ta_system_key a = Some ''AR'' then s\<lparr>ks_ar := ks_ar s + net\<rparr> else s
      else if ta_type a = LIABILITY then
        let net = ta_base_credit a - ta_base_debit a;
            s = s\<lparr>ks_current_liabilities := ks_current_liabilities s + net\<rparr>
        in if key_in (ta_system_key a) MONEY_AP_KEYS then s\<lparr>ks_ap := ks_ap s + net\<rparr> else s
      else s)"

definition kpi_snapshot_of :: "db \<Rightarrow> date \<Rightarrow> kpi_snapshot" where
  "kpi_snapshot_of d as_of =
     fold snapshot_step (tb_accounts (compute_trial_balance d as_of))
       \<lparr>ks_inventory = 0, ks_ar = 0, ks_ap = 0, ks_metal_grams = 0, ks_current_assets = 0, ks_current_liabilities = 0\<rparr>"

text \<open>\<open>_flows\<close>: the debits of the receivables account and the grams of metal sold.\<close>

definition kpi_flows :: "db \<Rightarrow> date \<Rightarrow> date \<Rightarrow> dec \<times> dec" where
  "kpi_flows d start until =
     (let rows = window_lines d start until
      in (sum_of (\<lambda>(l, e, a). if acc_system_key a = Some ''AR'' then jl_base_debit l else 0) rows,
          sum_of (\<lambda>(l, e, a). if acc_system_key a = Some ''METAL_COGS''
                              then jl_metal_debit_grams l - jl_metal_credit_grams l else 0) rows))"

record kpi_report =
  kp_days :: int
  kp_dsi :: "dec option"
  kp_inventory_turnover :: "dec option"
  kp_dpo :: "dec option"
  kp_gross_margin :: "dec option"
  kp_net_margin :: "dec option"
  kp_metal_turnover :: "dec option"
  kp_dso :: "dec option"
  kp_ccc :: "dec option"
  kp_current_ratio :: "dec option"
  kp_quick_ratio :: "dec option"

text \<open>The ratios; the report repeats its inputs beside each of them, which is left out.\<close>

definition compute_kpis :: "db \<Rightarrow> date \<Rightarrow> date \<Rightarrow> kpi_report" where
  "compute_kpis d start until =
     (let days = toordinal until - toordinal start + 1;
          before = kpi_snapshot_of d (day_before start);
          after = kpi_snapshot_of d until;
          (credit_sales, metal_cogs_grams) = kpi_flows d start until;
          pnl = income_statement d start until;
          avg = (\<lambda>f. dquot (f before + f after) 2);
          times_days = map_option (\<lambda>x. dmul x (of_int days));
          percent = map_option (\<lambda>x. dmul x 100);
          dsi = times_days (div_or_none (avg ks_inventory) (ir_cogs pnl));
          dpo = times_days (div_or_none (avg ks_ap) (ir_cogs pnl));
          dso = times_days (div_or_none (avg ks_ar) credit_sales);
          ccc = (case (dso, dsi, dpo) of (Some x, Some y, Some z) \<Rightarrow> Some (ctx (ctx (x + y) - z)) | _ \<Rightarrow> None);
          q2 = map_option q_money
      in \<lparr>kp_days = days, kp_dsi = q2 dsi,
          kp_inventory_turnover = q2 (div_or_none (ir_cogs pnl) (avg ks_inventory)),
          kp_dpo = q2 dpo,
          kp_gross_margin = q2 (percent (div_or_none (ir_gross_profit pnl) (ir_revenue pnl))),
          kp_net_margin = q2 (percent (div_or_none (ir_net_profit pnl) (ir_revenue pnl))),
          kp_metal_turnover = q2 (div_or_none metal_cogs_grams (avg ks_metal_grams)),
          kp_dso = q2 dso, kp_ccc = q2 ccc,
          kp_current_ratio = q2 (div_or_none (ks_current_assets after) (ks_current_liabilities after)),
          kp_quick_ratio = q2 (div_or_none (ks_current_assets after - ks_inventory after) (ks_current_liabilities after))\<rparr>)"

end
