(* ===== verification/Statements_Facts.thy ===== *)
theory Statements_Facts
  imports Statements
begin

text \<open>
  What the statements add up to: the balance sheet balances, the income statement is the
  replay of the income and expense lines, the statement of an account closes with what the
  trial balance shows for it, and the cash flow reconciles exactly when the cash lines
  carry the same amount in their own currency and in base money.
\<close>

section \<open>Joined rows\<close>

lemma find_by_key:
  assumes "distinct (map key xs)" "x \<in> set xs" "key x = k"
  shows "find (\<lambda>y. key y = k) xs = Some x"
  using assms
proof (induction xs)
  case (Cons y ys)
  then show ?case by (cases "key y = k") (auto simp: image_iff)
qed simp

lemma entry_unique: "ids_ok d \<Longrightarrow> e \<in> set (gl_entries d) \<Longrightarrow> f \<in> set (gl_entries d) \<Longrightarrow> je_id e = je_id f \<Longrightarrow> e = f"
  by (auto simp: ids_ok_def distinct_map inj_on_def)

lemma account_unique:
  "accounts_ok d \<Longrightarrow> a \<in> set (gl_accounts d) \<Longrightarrow> b \<in> set (gl_accounts d) \<Longrightarrow> acc_id a = acc_id b \<Longrightarrow> a = b"
  by (auto simp: accounts_ok_def distinct_map inj_on_def)

lemma find_entry:
  "ids_ok d \<Longrightarrow> e \<in> set (gl_entries d) \<Longrightarrow> je_id e = k \<Longrightarrow> find (\<lambda>e. je_id e = k) (gl_entries d) = Some e"
  unfolding ids_ok_def by (rule find_by_key) blast+

lemma find_account:
  "accounts_ok d \<Longrightarrow> a \<in> set (gl_accounts d) \<Longrightarrow> acc_id a = k \<Longrightarrow> find (\<lambda>a. acc_id a = k) (gl_accounts d) = Some a"
  unfolding accounts_ok_def by (rule find_by_key) blast+

lemma concat_singletons:
  assumes "\<And>x. x \<in> set xs \<Longrightarrow> \<exists>y. f x = [y] \<and> g y = x"
  shows "map g (concat (map f xs)) = xs"
  using assms
proof (induction xs)
  case (Cons x xs)
  then obtain y where "f x = [y]" "g y = x" by force
  with Cons show ?case by simp
qed simp

lemma joined_lineD:
  assumes "(l, e, a) \<in> set (joined_lines d)"
  shows "l \<in> set (gl_lines d)" "e \<in> set (gl_entries d)" "je_id e = jl_entry_id l"
    "a \<in> set (gl_accounts d)" "acc_id a = jl_account_id l"
  using assms by (auto simp: joined_lines_def split: option.splits dest: find_SomeD dest!: sym [of "Some _"])

lemma joined_all:
  assumes "ids_ok d" "accounts_ok d"
  shows "map fst (joined_lines d) = gl_lines d"
  unfolding joined_lines_def
proof (rule concat_singletons)
  fix l assume l: "l \<in> set (gl_lines d)"
  then obtain e a where ea: "e \<in> set (gl_entries d)" "je_id e = jl_entry_id l"
    "a \<in> set (gl_accounts d)" "acc_id a = jl_account_id l"
    using assms by (fastforce simp: ids_ok_def accounts_ok_def)
  have "find (\<lambda>e. je_id e = jl_entry_id l) (gl_entries d) = Some e"
    "find (\<lambda>a. acc_id a = jl_account_id l) (gl_accounts d) = Some a"
    using find_entry [OF assms(1) ea(1,2)] find_account [OF assms(2) ea(3,4)] by simp_all
  then show "\<exists>y. (case (find (\<lambda>e. je_id e = jl_entry_id l) (gl_entries d), find (\<lambda>a. acc_id a = jl_account_id l) (gl_accounts d)) of
      (None, b) \<Rightarrow> [] | (Some e, None) \<Rightarrow> [] | (Some e, Some a) \<Rightarrow> [(l, e, a)]) = [y] \<and> fst y = l"
    by simp
qed

text \<open>Filtering the joined rows by what the line alone determines filters the lines.\<close>

lemma joined_filter:
  assumes "ids_ok d" "accounts_ok d" "\<And>l e a. (l, e, a) \<in> set (joined_lines d) \<Longrightarrow> P (l, e, a) \<longleftrightarrow> Q l"
  shows "sum_of (\<lambda>(l, e, a). f l) (filter P (joined_lines d)) = sum_of f (filter Q (gl_lines d))"
proof -
  have "filter P (joined_lines d) = filter (Q \<circ> fst) (joined_lines d)"
    by (rule filter_cong) (use assms(3) in auto)
  then have "sum_of (\<lambda>(l, e, a). f l) (filter P (joined_lines d)) = sum_of f (map fst (filter (Q \<circ> fst) (joined_lines d)))"
    by (simp only: sum_of_map comp_def case_prod_unfold)
  also have "map fst (filter (Q \<circ> fst) (joined_lines d)) = filter Q (map fst (joined_lines d))" by (simp add: filter_map)
  finally show ?thesis unfolding joined_all [OF assms(1,2)] .
qed

lemma dated_joined:
  assumes "ids_ok d" "(l, e, a) \<in> set (joined_lines d)"
  shows "dated d t (jl_entry_id l) \<longleftrightarrow> je_entry_date e \<le> t"
proof
  assume "dated d t (jl_entry_id l)"
  then obtain f where f: "f \<in> set (gl_entries d)" "je_id f = jl_entry_id l" "je_entry_date f \<le> t"
    by (auto simp: dated_def)
  then have "f = e" using entry_unique [OF assms(1)] joined_lineD [OF assms(2)] by simp
  with f show "je_entry_date e \<le> t" by simp
next
  assume "je_entry_date e \<le> t"
  then show "dated d t (jl_entry_id l)" using joined_lineD [OF assms(2)] by (auto simp: dated_def)
qed

section \<open>Sums over dictionaries\<close>

lemma dict_upd_all:
  assumes "\<forall>kv \<in> set al. P (snd kv)" "P v" "\<And>x. P x \<Longrightarrow> P (f x)"
  shows "\<forall>kv \<in> set (dict_upd k v f al). P (snd kv)"
  using assms
proof (induction al)
  case (Cons kv al)
  then show ?case by (cases kv) auto
qed simp

section \<open>The trial balance by account\<close>

lemma tb_accounts_sum:
  assumes "accounts_ok d" "lines_ok d"
    and fg: "f = ta_base_debit \<and> g = jl_base_debit \<or> f = ta_base_credit \<and> g = jl_base_credit"
  shows "sum_of f (filter (\<lambda>t. Q (ta_account_id t)) (tb_accounts (compute_trial_balance d as_of)))
    = sum_of g (filter (\<lambda>l. Q (jl_account_id l) \<and> dated d as_of (jl_entry_id l)) (gl_lines d))"
proof -
  let ?ts = "filter (\<lambda>t. Q (ta_account_id t)) (tb_accounts (compute_trial_balance d as_of))"
  let ?rows = "filter (\<lambda>l. dated d as_of (jl_entry_id l)) (gl_lines d)"
  have "f t = sum_of g (filter (\<lambda>l. jl_account_id l = ta_account_id t) ?rows)" if "t \<in> set ?ts" for t
    using tb_accounts_rows [OF assms(1,2), of t as_of] that fg
    by (auto simp: tb_row_for_def account_total_def conj_commute)
  then have "sum_of f ?ts = sum_of (\<lambda>k. sum_of g (filter (\<lambda>l. jl_account_id l = k) ?rows)) (map ta_account_id ?ts)"
    unfolding sum_of_map by (intro sum_of_cong) simp
  also have "\<dots> = sum_of g (filter (\<lambda>l. jl_account_id l \<in> set (map ta_account_id ?ts)) ?rows)"
    by (rule sum_groups) (simp add: distinct_map_filter tb_accounts_distinct [OF assms(1,2)])
  also have "filter (\<lambda>l. jl_account_id l \<in> set (map ta_account_id ?ts)) ?rows
      = filter (\<lambda>l. Q (jl_account_id l)) ?rows"
  proof (rule filter_cong [OF refl])
    fix l assume "l \<in> set ?rows"
    then have "has_activity d as_of (jl_account_id l)" by (auto simp: has_activity_def)
    from tb_accounts_complete [OF assms(1,2) this] obtain t
      where "t \<in> set (tb_accounts (compute_trial_balance d as_of))" "ta_account_id t = jl_account_id l" by blast
    then show "jl_account_id l \<in> set (map ta_account_id ?ts) \<longleftrightarrow> Q (jl_account_id l)"
      by (auto intro!: image_eqI [of _ _ t])
  qed
  finally show ?thesis by (simp add: conj_commute)
qed

definition of_type :: "db \<Rightarrow> account_type list \<Rightarrow> string \<Rightarrow> bool" where
  "of_type d tys i \<longleftrightarrow> (\<exists>a \<in> set (gl_accounts d). acc_id a = i \<and> acc_type a \<in> set tys)"

text \<open>Debits less credits of the accounts of some types, up to a date.\<close>

definition type_net :: "db \<Rightarrow> date \<Rightarrow> account_type list \<Rightarrow> dec" where
  "type_net d as_of tys =
     sum_of (\<lambda>l. jl_base_debit l - jl_base_credit l)
       (filter (\<lambda>l. of_type d tys (jl_account_id l) \<and> dated d as_of (jl_entry_id l)) (gl_lines d))"

lemma tb_type_sum:
  assumes "accounts_ok d" "lines_ok d"
  shows "sum_of (\<lambda>t. ta_base_debit t - ta_base_credit t)
      (filter (\<lambda>t. ta_type t \<in> set tys) (tb_accounts (compute_trial_balance d as_of))) = type_net d as_of tys"
proof -
  have "filter (\<lambda>t. ta_type t \<in> set tys) (tb_accounts (compute_trial_balance d as_of))
      = filter (\<lambda>t. of_type d tys (ta_account_id t)) (tb_accounts (compute_trial_balance d as_of))"
  proof (rule filter_cong [OF refl])
    fix t assume "t \<in> set (tb_accounts (compute_trial_balance d as_of))"
    then obtain a where a: "a \<in> set (gl_accounts d)" "tb_row_for d as_of a t"
      using tb_accounts_rows [OF assms] by blast
    then have "b = a" if "b \<in> set (gl_accounts d)" "acc_id b = ta_account_id t" for b
      using that assms(1) by (auto simp: accounts_ok_def distinct_map tb_row_for_def dest: inj_onD)
    then show "ta_type t \<in> set tys \<longleftrightarrow> of_type d tys (ta_account_id t)"
      using a by (auto simp: of_type_def tb_row_for_def)
  qed
  then show ?thesis
    using tb_accounts_sum [OF assms, of ta_base_debit jl_base_debit "of_type d tys" as_of]
      tb_accounts_sum [OF assms, of ta_base_credit jl_base_credit "of_type d tys" as_of]
    by (simp add: sum_of_diff type_net_def)
qed

lemma tb_rows_scaled:
  assumes "accounts_ok d" "lines_ok d" "t \<in> set (tb_accounts (compute_trial_balance d as_of))"
  shows "at_scale 2 (ta_base_debit t)" "at_scale 2 (ta_base_credit t)"
  using tb_accounts_rows [OF assms] account_total_scaled [OF assms(2)] by (auto simp: tb_row_for_def)

section \<open>The balance sheet\<close>

lemma sheet_fold:
  assumes "\<forall>t \<in> set ts. at_scale 2 (ta_base_debit t) \<and> at_scale 2 (ta_base_credit t)"
  shows "sh_assets (fold sheet_step ts s) = sh_assets s
      + sum_of (\<lambda>t. ta_base_debit t - ta_base_credit t) (filter (\<lambda>t. ta_type t \<in> set [ASSET]) ts)"
    and "sh_liabilities (fold sheet_step ts s) = sh_liabilities s
      - sum_of (\<lambda>t. ta_base_debit t - ta_base_credit t) (filter (\<lambda>t. ta_type t \<in> set [LIABILITY]) ts)"
    and "sh_equity (fold sheet_step ts s) = sh_equity s
      - sum_of (\<lambda>t. ta_base_debit t - ta_base_credit t) (filter (\<lambda>t. ta_type t \<in> set [EQUITY]) ts)"
    and "sh_net_income (fold sheet_step ts s) = sh_net_income s
      - sum_of (\<lambda>t. ta_base_debit t - ta_base_credit t) (filter (\<lambda>t. ta_type t \<in> set [INCOME, EXPENSE]) ts)"
  using assms by (induction ts arbitrary: s; simp add: Let_def at_scale_diff split: account_type.splits)+

lemma type_net_scaled: "lines_ok d \<Longrightarrow> at_scale 2 (type_net d as_of tys)"
  by (auto simp: type_net_def lines_ok_def line_wf_def intro!: at_scale_sum_of at_scale_diff)

lemma type_net_all:
  assumes "accounts_ok d" "lines_ok d"
  shows "type_net d as_of [ASSET] + type_net d as_of [LIABILITY] + type_net d as_of [EQUITY]
    + type_net d as_of [INCOME, EXPENSE] = 0"
proof -
  let ?f = "\<lambda>t. ta_base_debit t - ta_base_credit t" and ?ts = "tb_accounts (compute_trial_balance d as_of)"
  have "sum_of ?f (filter (\<lambda>t. ta_type t \<in> set [ASSET]) ts) + sum_of ?f (filter (\<lambda>t. ta_type t \<in> set [LIABILITY]) ts)
    + sum_of ?f (filter (\<lambda>t. ta_type t \<in> set [EQUITY]) ts) + sum_of ?f (filter (\<lambda>t. ta_type t \<in> set [INCOME, EXPENSE]) ts)
    = sum_of ?f ts" for ts
  proof (induction ts)
    case (Cons t ts)
    then show ?case by (cases "ta_type t") auto
  qed simp
  then have "type_net d as_of [ASSET] + type_net d as_of [LIABILITY] + type_net d as_of [EQUITY]
    + type_net d as_of [INCOME, EXPENSE] = sum_of ?f ?ts"
    unfolding tb_type_sum [OF assms, symmetric] .
  also have "\<dots> = 0"
    using tb_accounts_sum [OF assms, of ta_base_debit jl_base_debit "\<lambda>_. True" as_of]
      tb_accounts_sum [OF assms, of ta_base_credit jl_base_credit "\<lambda>_. True" as_of]
      dated_base_balanced [OF assms(2)]
    by (simp add: sum_of_diff)
  finally show ?thesis .
qed

lemma balance_sheet_totals:
  assumes "accounts_ok d" "lines_ok d"
  shows "bs_total_assets (balance_sheet d as_of) = type_net d as_of [ASSET]"
    and "bs_total_liabilities (balance_sheet d as_of) = - type_net d as_of [LIABILITY]"
    and "bs_total_equity (balance_sheet d as_of) = - (type_net d as_of [EQUITY] + type_net d as_of [INCOME, EXPENSE])"
    and "bs_balanced (balance_sheet d as_of)"
    and "st_amount (last (bs_equity_lines (balance_sheet d as_of))) = - type_net d as_of [INCOME, EXPENSE]"
proof -
  let ?ts = "tb_accounts (compute_trial_balance d as_of)"
  have "\<forall>t \<in> set ?ts. at_scale 2 (ta_base_debit t) \<and> at_scale 2 (ta_base_credit t)"
    using tb_rows_scaled [OF assms] by blast
  note sums = sheet_fold [OF this, unfolded tb_type_sum [OF assms]]
  have sc: "at_scale 2 (type_net d as_of tys)" "at_scale 2 (- type_net d as_of tys)" for tys
    using type_net_scaled [OF assms(2)] by (simp_all add: at_scale_uminus)
  have q: "q_money (type_net d as_of tys) = type_net d as_of tys" "q_money (- type_net d as_of tys) = - type_net d as_of tys" for tys
    using sc by simp_all
  have q2: "q_money (- type_net d as_of a - type_net d as_of b) = - type_net d as_of a - type_net d as_of b" for a b
    using sc by (intro quantize_id at_scale_diff)
  show assets: "bs_total_assets (balance_sheet d as_of) = type_net d as_of [ASSET]"
    and liabilities: "bs_total_liabilities (balance_sheet d as_of) = - type_net d as_of [LIABILITY]"
    and equity: "bs_total_equity (balance_sheet d as_of) = - (type_net d as_of [EQUITY] + type_net d as_of [INCOME, EXPENSE])"
    and "st_amount (last (bs_equity_lines (balance_sheet d as_of))) = - type_net d as_of [INCOME, EXPENSE]"
    by (simp_all add: balance_sheet_def Let_def sums EMPTY_SHEET_def earnings_line_def q q2)
  have b: "bs_balanced (balance_sheet d as_of) \<longleftrightarrow> bs_total_assets (balance_sheet d as_of)
      = q_money (bs_total_liabilities (balance_sheet d as_of) + bs_total_equity (balance_sheet d as_of))"
    by (simp add: balance_sheet_def Let_def)
  have e: "type_net d as_of [ASSET]
      = - type_net d as_of [LIABILITY] + - (type_net d as_of [EQUITY] + type_net d as_of [INCOME, EXPENSE])"
    using type_net_all [OF assms, of as_of] by simp
  show "bs_balanced (balance_sheet d as_of)"
    unfolding b assets liabilities equity e [symmetric] q by simp
qed

section \<open>The income statement\<close>

definition income_scaled :: "income_acct \<Rightarrow> bool" where
  "income_scaled a \<longleftrightarrow> at_scale 2 (ia_debit a) \<and> at_scale 2 (ia_credit a)"

definition income_result :: "income_state \<Rightarrow> dec" where
  "income_result s = in_revenue s + in_other s - in_cogs s - in_opex s"

definition state_scaled :: "income_state \<Rightarrow> bool" where
  "state_scaled s \<longleftrightarrow> at_scale 2 (in_revenue s) \<and> at_scale 2 (in_other s) \<and> at_scale 2 (in_cogs s) \<and> at_scale 2 (in_opex s)"

lemma income_step_result:
  assumes "income_scaled a" "state_scaled s"
  shows "income_result (income_step a s) = income_result s + (ia_credit a - ia_debit a)" "state_scaled (income_step a s)"
  using assms
  by (auto simp: income_step_def income_result_def state_scaled_def income_scaled_def Let_def at_scale_diff at_scale_add)

lemma income_fold:
  assumes "\<forall>a \<in> set as. income_scaled a" "state_scaled s"
  shows "income_result (fold income_step as s) = income_result s + sum_of (\<lambda>a. ia_credit a - ia_debit a) as
    \<and> state_scaled (fold income_step as s)"
  using assms by (induction as arbitrary: s) (simp_all add: income_step_result)

lemma income_report_net:
  assumes "state_scaled s"
  shows "ir_net_profit (income_report_of start until s) = income_result s"
    and "ir_gross_profit (income_report_of start until s) = ir_revenue (income_report_of start until s) - ir_cogs (income_report_of start until s)"
  using assms by (simp_all add: income_report_of_def Let_def income_result_def state_scaled_def at_scale_diff at_scale_add)

lemma income_accts_sum:
  "sum_of (\<lambda>kv. ia_credit (snd kv) - ia_debit (snd kv))
      (fold (\<lambda>(l, e, a). dict_upd (acc_id a) (new_income_acct a) (add_income_line l)) rows m)
   = sum_of (\<lambda>kv. ia_credit (snd kv) - ia_debit (snd kv)) m + sum_of (\<lambda>(l, e, a). jl_base_credit l - jl_base_debit l) rows"
proof (induction rows arbitrary: m)
  case (Cons row rows)
  obtain l e a where row: "row = (l, e, a)" by (cases row)
  have "sum_of (\<lambda>kv. ia_credit (snd kv) - ia_debit (snd kv)) (dict_upd (acc_id a) (new_income_acct a) (add_income_line l) m)
      = sum_of (\<lambda>kv. ia_credit (snd kv) - ia_debit (snd kv)) m + (jl_base_credit l - jl_base_debit l)"
    by (rule sum_snd_dict_upd2 [where g = "\<lambda>x. ia_credit x - ia_debit x"])
      (simp_all add: add_income_line_def new_income_acct_def)
  then show ?case by (simp add: row Cons.IH)
qed simp

lemma income_accts_scaled:
  assumes "\<forall>(l, e, a) \<in> set rows. line_wf l" "\<forall>kv \<in> set m. income_scaled (snd kv)"
  shows "\<forall>kv \<in> set (fold (\<lambda>(l, e, a). dict_upd (acc_id a) (new_income_acct a) (add_income_line l)) rows m). income_scaled (snd kv)"
  using assms
proof (induction rows arbitrary: m)
  case (Cons row rows)
  obtain l e a where row: "row = (l, e, a)" by (cases row)
  have "\<forall>kv \<in> set (dict_upd (acc_id a) (new_income_acct a) (add_income_line l) m). income_scaled (snd kv)"
    using Cons.prems
    by (intro dict_upd_all) (auto simp: row income_scaled_def new_income_acct_def add_income_line_def line_wf_def intro: at_scale_add)
  then show ?case using Cons.prems(1) Cons.IH by (simp add: row)
qed simp

lemma net_profit_is_replay:
  assumes "lines_ok d"
  shows "ir_net_profit (income_statement d start until)
    = sum_of (\<lambda>(l, e, a). jl_base_credit l - jl_base_debit l) (income_rows d start until)"
proof -
  let ?rows = "income_rows d start until"
  let ?as = "sort_key ia_code (map snd (income_accts ?rows))"
  have "\<forall>(l, e, a) \<in> set ?rows. line_wf l"
    using assms by (auto simp: income_rows_def lines_ok_def dest: joined_lineD)
  from income_accts_scaled [OF this, of "[]"] have sc: "\<forall>a \<in> set ?as. income_scaled a"
    by (auto simp: income_accts_def)
  have "state_scaled EMPTY_INCOME" by (simp add: state_scaled_def EMPTY_INCOME_def)
  with income_fold [OF sc] have "ir_net_profit (income_statement d start until)
      = income_result EMPTY_INCOME + sum_of (\<lambda>a. ia_credit a - ia_debit a) ?as"
    by (simp add: income_statement_def income_report_net(1))
  also have "\<dots> = sum_of (\<lambda>a. ia_credit a - ia_debit a) ?as"
    by (simp add: income_result_def EMPTY_INCOME_def)
  also have "\<dots> = sum_of (\<lambda>kv. ia_credit (snd kv) - ia_debit (snd kv)) (income_accts ?rows)"
    by (simp only: sum_of_sort_key sum_of_map comp_def)
  also have "\<dots> = sum_of (\<lambda>(l, e, a). jl_base_credit l - jl_base_debit l) ?rows"
    by (simp add: income_accts_def income_accts_sum)
  finally show ?thesis .
qed

text \<open>What the balance sheet calls the earnings of the current period, as a replay.\<close>

definition earnings :: "db \<Rightarrow> date \<Rightarrow> dec" where
  "earnings d as_of = st_amount (last (bs_equity_lines (balance_sheet d as_of)))"

lemma earnings_is_replay:
  assumes "ids_ok d" "accounts_ok d" "lines_ok d"
  shows "earnings d as_of = sum_of (\<lambda>(l, e, a). jl_base_credit l - jl_base_debit l)
    (filter (\<lambda>(l, e, a). acc_type a \<in> {INCOME, EXPENSE} \<and> je_entry_date e \<le> as_of) (joined_lines d))"
proof -
  have "earnings d as_of = sum_of (\<lambda>l. jl_base_credit l - jl_base_debit l)
      (filter (\<lambda>l. of_type d [INCOME, EXPENSE] (jl_account_id l) \<and> dated d as_of (jl_entry_id l)) (gl_lines d))"
    unfolding earnings_def balance_sheet_totals(5) [OF assms(2,3)] type_net_def sum_of_uminus [symmetric] by simp
  also have "\<dots> = sum_of (\<lambda>(l, e, a). jl_base_credit l - jl_base_debit l)
    (filter (\<lambda>(l, e, a). acc_type a \<in> {INCOME, EXPENSE} \<and> je_entry_date e \<le> as_of) (joined_lines d))"
  proof (rule joined_filter [OF assms(1,2), where f = "\<lambda>l. jl_base_credit l - jl_base_debit l"
        and P = "\<lambda>(l, e, a). acc_type a \<in> {INCOME, EXPENSE} \<and> je_entry_date e \<le> as_of"
        and Q = "\<lambda>l. of_type d [INCOME, EXPENSE] (jl_account_id l) \<and> dated d as_of (jl_entry_id l)", symmetric])
    fix l e a assume j: "(l, e, a) \<in> set (joined_lines d)"
    note a = joined_lineD [OF j]
    have "b = a" if "b \<in> set (gl_accounts d)" "acc_id b = jl_account_id l" for b
      using account_unique [OF assms(2) that(1) a(4)] that(2) a(5) by simp
    then have "of_type d [INCOME, EXPENSE] (jl_account_id l) \<longleftrightarrow> acc_type a \<in> {INCOME, EXPENSE}"
      unfolding of_type_def list.set using a by blast
    then show "(case (l, e, a) of (l, e, a) \<Rightarrow> acc_type a \<in> {INCOME, EXPENSE} \<and> je_entry_date e \<le> as_of)
        \<longleftrightarrow> of_type d [INCOME, EXPENSE] (jl_account_id l) \<and> dated d as_of (jl_entry_id l)"
      using dated_joined [OF assms(1) j] by simp
  qed
  finally show ?thesis .
qed

definition dates_valid :: "db \<Rightarrow> bool" where
  "dates_valid d \<longleftrightarrow> (\<forall>e \<in> set (gl_entries d). valid_date (je_entry_date e))"

lemma articulation:
  assumes "ids_ok d" "accounts_ok d" "lines_ok d" "dates_valid d"
    and start: "valid_date start" "1 < toordinal start" "start \<le> until"
    and open_window: "\<And>e. e \<in> set (gl_entries d) \<Longrightarrow> je_source_type e = ''YEAR_CLOSE'' \<Longrightarrow> \<not> in_window start until e"
  shows "earnings d until = earnings d (day_before start) + ir_net_profit (income_statement d start until)"
proof -
  let ?t = "\<lambda>a. acc_type a \<in> {INCOME, EXPENSE}" and ?f = "\<lambda>(l, e, a). jl_base_credit l - jl_base_debit l"
  have bef: "je_entry_date e \<le> day_before start \<longleftrightarrow> je_entry_date e < start" if "(l, e, a) \<in> set (joined_lines d)" for l e a
    using day_before_iff [OF start(1,2)] assms(4) joined_lineD(2) [OF that] by (auto simp: dates_valid_def)
  have src: "je_source_type e \<noteq> ''YEAR_CLOSE''"
    if "(l, e, a) \<in> set (joined_lines d)" "\<not> je_entry_date e < start" "je_entry_date e \<le> until" for l e a
    using open_window [OF joined_lineD(2) [OF that(1)]] that(2,3) by (auto simp: in_window_def)
  have "earnings d until = sum_of (\<lambda>x. (if (case x of (l, e, a) \<Rightarrow> ?t a \<and> je_entry_date e \<le> day_before start) then ?f x else 0)
      + (if (case x of (l, e, a) \<Rightarrow> in_window start until e \<and> je_source_type e \<noteq> ''YEAR_CLOSE'' \<and> ?t a) then ?f x else 0)) (joined_lines d)"
    unfolding earnings_is_replay [OF assms(1-3)] sum_of_filter_if
    using start(3) by (intro sum_of_cong) (auto simp: bef in_window_def dest: src)
  then show ?thesis
    by (simp only: sum_of_add earnings_is_replay [OF assms(1-3)] net_profit_is_replay [OF assms(3)] income_rows_def sum_of_filter_if)
qed

section \<open>The statement of an account\<close>

lemma run_account_final:
  "run_account x g ls = (rows, y, h) \<Longrightarrow>
     y = x + sum_of (\<lambda>(l, e). jl_base_debit l - jl_base_credit l) ls
     \<and> h = g + sum_of (\<lambda>(l, e). jl_metal_debit_grams l - jl_metal_credit_grams l) ls \<and> length rows = length ls"
proof (induction ls arbitrary: x g rows)
  case (Cons le ls)
  obtain l e where le: "le = (l, e)" by (cases le)
  obtain rs where "run_account (x + (jl_base_debit l - jl_base_credit l)) (g + (jl_metal_debit_grams l - jl_metal_credit_grams l)) ls = (rs, y, h)"
    "length rows = Suc (length rs)"
    using Cons.prems by (auto simp: le Let_def split: prod.splits)
  from Cons.IH [OF this(1)] this(2) show ?case by (simp add: le)
qed simp

lemma run_account_last:
  "run_account x g ls = (rows, y, h) \<Longrightarrow> rows \<noteq> [] \<Longrightarrow> ar_running_balance (last rows) = q_money y \<and> ar_running_grams (last rows) = q_grams h"
proof (induction ls arbitrary: x g rows)
  case (Cons le ls)
  obtain l e where le: "le = (l, e)" by (cases le)
  obtain rs where rs: "run_account (x + (jl_base_debit l - jl_base_credit l)) (g + (jl_metal_debit_grams l - jl_metal_credit_grams l)) ls = (rs, y, h)"
    and rows: "tl rows = rs" "ar_running_balance (hd rows) = q_money (x + (jl_base_debit l - jl_base_credit l))"
      "ar_running_grams (hd rows) = q_grams (g + (jl_metal_debit_grams l - jl_metal_credit_grams l))"
    using Cons.prems by (auto simp: le Let_def split: prod.splits)
  show ?case
  proof (cases "rs = []")
    case True
    then have "ls = []" using run_account_final [OF rs] by simp
    then show ?thesis using Cons.prems rs rows True by (cases rows) auto
  next
    case False
    then show ?thesis using Cons.IH [OF rs] rows Cons.prems(2) by (cases rows) auto
  qed
qed simp

lemma account_lineD:
  assumes "(l, e) \<in> set (account_lines d i)"
  shows "l \<in> set (gl_lines d)" "jl_account_id l = i" "e \<in> set (gl_entries d)" "je_id e = jl_entry_id l"
  using assms by (auto simp: account_lines_def split: option.splits dest: find_SomeD dest!: sym [of "Some _"])

lemma account_lines_all:
  assumes "ids_ok d"
  shows "map fst (account_lines d i) = filter (\<lambda>l. jl_account_id l = i) (gl_lines d)"
  unfolding account_lines_def
proof (rule concat_singletons)
  fix l assume "l \<in> set (filter (\<lambda>l. jl_account_id l = i) (gl_lines d))"
  then obtain e where e: "e \<in> set (gl_entries d)" "je_id e = jl_entry_id l" using assms by (fastforce simp: ids_ok_def)
  have "find (\<lambda>e. je_id e = jl_entry_id l) (gl_entries d) = Some e"
    using find_entry [OF assms e] .
  then show "\<exists>y. (case find (\<lambda>e. je_id e = jl_entry_id l) (gl_entries d) of None \<Rightarrow> [] | Some e \<Rightarrow> [(l, e)]) = [y] \<and> fst y = l"
    by simp
qed

lemma account_filter:
  assumes "ids_ok d"
  shows "sum_of (\<lambda>(l, e). f l) (filter (\<lambda>(l, e). je_entry_date e \<le> t) (account_lines d i)) = account_total f d t i"
proof -
  have dt: "dated d t (jl_entry_id l) \<longleftrightarrow> je_entry_date e \<le> t" if "(l, e) \<in> set (account_lines d i)" for l e
  proof -
    note a = account_lineD [OF that]
    have "f = e" if "f \<in> set (gl_entries d)" "je_id f = jl_entry_id l" for f
      using entry_unique [OF assms that(1) a(3)] that(2) a(4) by simp
    then show ?thesis unfolding dated_def using a by blast
  qed
  have "filter (\<lambda>(l, e). je_entry_date e \<le> t) (account_lines d i) = filter ((\<lambda>l. dated d t (jl_entry_id l)) \<circ> fst) (account_lines d i)"
    by (rule filter_cong) (auto simp: dt)
  then have "sum_of (\<lambda>(l, e). f l) (filter (\<lambda>(l, e). je_entry_date e \<le> t) (account_lines d i))
      = sum_of f (map fst (filter ((\<lambda>l. dated d t (jl_entry_id l)) \<circ> fst) (account_lines d i)))"
    by (simp only: sum_of_map comp_def case_prod_unfold)
  also have "map fst (filter ((\<lambda>l. dated d t (jl_entry_id l)) \<circ> fst) (account_lines d i))
      = filter (\<lambda>l. dated d t (jl_entry_id l)) (map fst (account_lines d i))" by (simp add: filter_map)
  also have "filter (\<lambda>l. dated d t (jl_entry_id l)) (map fst (account_lines d i))
      = filter (\<lambda>l. jl_account_id l = i \<and> dated d t (jl_entry_id l)) (gl_lines d)"
    unfolding account_lines_all [OF assms] filter_filter by (simp add: conj_commute)
  finally show ?thesis unfolding account_total_def .
qed

lemma account_net_scaled: "lines_ok d \<Longrightarrow> at_scale 2 (account_net d t i)"
  by (simp add: account_net_def account_total_scaled at_scale_diff)

lemma account_statement_closes:
  assumes "ids_ok d" "lines_ok d" "account_statement d i start until = Inr r" "start \<le> until"
  shows "as_closing_balance r = account_net d until i"
    and "as_rows r \<noteq> [] \<Longrightarrow> ar_running_balance (last (as_rows r)) = as_closing_balance r"
    and "as_rows r = [] \<Longrightarrow> as_closing_balance r = as_opening_balance r"
proof -
  let ?f = "\<lambda>(l, e). jl_base_debit l - jl_base_credit l"
  let ?bef = "filter (\<lambda>(l, e). je_entry_date e < start) (account_lines d i)"
  let ?w = "filter (\<lambda>(l, e). in_window start until e) (account_lines d i)"
  let ?k = "\<lambda>(l :: gl_journal_line, e). (je_entry_date e, je_entry_no e)"
  obtain rows y h where run: "run_account (sum_of ?f ?bef)
      (sum_of (\<lambda>(l, e). jl_metal_debit_grams l - jl_metal_credit_grams l) ?bef) (sort_key ?k ?w) = (rows, y, h)"
    using prod_cases3 by blast
  have r: "as_closing_balance r = q_money y" "as_rows r = rows" "as_opening_balance r = q_money (sum_of ?f ?bef)"
    using assms(3) unfolding account_statement_def Let_def run prod.case bnd_eq_Inr by auto
  have "y = sum_of ?f ?bef + sum_of ?f ?w"
    using run_account_final [OF run] by (simp only: sum_of_sort_key)
  also have "\<dots> = sum_of ?f (filter (\<lambda>(l, e). je_entry_date e \<le> until) (account_lines d i))"
    unfolding sum_of_filter_if sum_of_add [symmetric] using assms(4)
    by (intro sum_of_cong) (auto simp: in_window_def)
  also have "\<dots> = account_net d until i"
    using account_filter [OF assms(1), of jl_base_debit until i] account_filter [OF assms(1), of jl_base_credit until i]
    by (simp add: account_net_def sum_of_diff case_prod_unfold)
  finally have y: "y = account_net d until i" .
  then show "as_closing_balance r = account_net d until i" using account_net_scaled [OF assms(2)] r by simp
  show "as_rows r \<noteq> [] \<Longrightarrow> ar_running_balance (last (as_rows r)) = as_closing_balance r"
    using run_account_last [OF run] r by simp
  show "as_rows r = [] \<Longrightarrow> as_closing_balance r = as_opening_balance r"
  proof -
    assume "as_rows r = []"
    then have "sort_key ?k ?w = []" using run_account_final [OF run] r(2) by simp
    then show ?thesis using run r by simp
  qed
qed

section \<open>The cash flow\<close>

lemma grouped_sum:
  "sum_of (\<lambda>kv. sum_of f (snd kv)) (fold (\<lambda>(l, e, a). dict_upd (jl_entry_id l) [] (\<lambda>ls. ls @ [(l, a)])) rows m)
   = sum_of (\<lambda>kv. sum_of f (snd kv)) m + sum_of (\<lambda>(l, e, a). f (l, a)) rows"
proof (induction rows arbitrary: m)
  case (Cons row rows)
  obtain l e a where row: "row = (l, e, a)" by (cases row)
  have "sum_of (\<lambda>kv. sum_of f (snd kv)) (dict_upd (jl_entry_id l) [] (\<lambda>ls. ls @ [(l, a)]) m)
      = sum_of (\<lambda>kv. sum_of f (snd kv)) m + f (l, a)"
    by (rule sum_snd_dict_upd2) simp_all
  then show ?case by (simp add: row Cons.IH)
qed simp

text \<open>What a line moves on the cash accounts, in its own currency and in base money.\<close>

definition cash_money :: "string list \<Rightarrow> posted_line \<Rightarrow> dec" where
  "cash_money ids la = (if acc_id (snd la) \<in> set ids then jl_money_debit (fst la) - jl_money_credit (fst la) else 0)"

definition cash_base :: "string list \<Rightarrow> posted_line \<Rightarrow> dec" where
  "cash_base ids la = (if acc_id (snd la) \<in> set ids then jl_base_debit (fst la) - jl_base_credit (fst la) else 0)"

lemma cash_step_sum: "sum_of snd (cash_step ids ls totals) = sum_of snd totals + sum_of (cash_money ids) ls"
proof -
  have f: "sum_of snd (fold (\<lambda>(l, a). dict_upd k 0 (\<lambda>x. x + (jl_money_debit l - jl_money_credit l))) xs m)
      = sum_of snd m + sum_of (\<lambda>(l, a). jl_money_debit l - jl_money_credit l) xs"
    for k :: string and xs :: "posted_line list" and m
    by (induction xs arbitrary: m) (auto simp: sum_snd_dict_upd)
  have "sum_of (cash_money ids) ls = sum_of (\<lambda>(l, a). jl_money_debit l - jl_money_credit l) (filter (\<lambda>(l, a). acc_id a \<in> set ids) ls)"
    unfolding sum_of_filter_if by (rule sum_of_cong) (auto simp: cash_money_def)
  then show ?thesis by (simp add: cash_step_def Let_def f)
qed

lemma cash_fold_sum: "sum_of snd (fold (cash_step ids) gs totals) = sum_of snd totals + sum_of (sum_of (cash_money ids)) gs"
  by (induction gs arbitrary: totals) (simp_all add: cash_step_sum)

lemma cf_net_change_sum:
  assumes "lines_ok d"
  shows "cf_net_change (cash_flow d start until)
    = sum_of (\<lambda>(l, e, a). cash_money (cash_account_ids d) (l, a)) (window_lines d start until)" (is "_ = ?s")
proof -
  have "sum_of snd (fold (cash_step (cash_account_ids d)) (map snd (lines_by_entry (window_lines d start until)))
      (map (\<lambda>(k, label). (k, 0)) CF_CATEGORIES)) = ?s"
    unfolding cash_fold_sum sum_of_map comp_def lines_by_entry_def grouped_sum by (simp add: CF_CATEGORIES_def)
  moreover have "at_scale 2 ?s"
  proof (intro at_scale_sum_of, clarify)
    fix l e a assume "(l, e, a) \<in> set (window_lines d start until)"
    then have "line_wf l" using assms joined_lineD(1) by (auto simp: window_lines_def lines_ok_def)
    then show "at_scale 2 (cash_money (cash_account_ids d) (l, a))" by (auto simp: cash_money_def line_wf_def intro!: at_scale_diff)
  qed
  ultimately show ?thesis by (simp add: cash_flow_def Let_def)
qed

lemma cash_balance_replay:
  assumes "ids_ok d" "accounts_ok d" "lines_ok d"
  shows "cash_balance d t ids
    = sum_of (\<lambda>(l, e, a). cash_base ids (l, a)) (filter (\<lambda>(l, e, a). je_entry_date e \<le> t) (joined_lines d))"
proof -
  let ?f = "\<lambda>l. jl_base_debit l - jl_base_credit l"
  let ?ls = "filter (\<lambda>l. jl_account_id l \<in> set ids \<and> dated d t (jl_entry_id l)) (gl_lines d)"
  have s: "at_scale 2 (sum_of ?f ?ls)"
    using assms(3) by (intro at_scale_sum_of) (auto simp: lines_ok_def line_wf_def intro!: at_scale_diff)
  have "cash_balance d t ids = q_money (sum_of ?f ?ls)"
    using tb_accounts_sum [OF assms(2,3), of ta_base_debit jl_base_debit "\<lambda>i. i \<in> set ids" t]
      tb_accounts_sum [OF assms(2,3), of ta_base_credit jl_base_credit "\<lambda>i. i \<in> set ids" t]
    by (simp add: cash_balance_def sum_of_diff)
  also have "\<dots> = sum_of ?f ?ls" using s by simp
  also have "\<dots> = sum_of (\<lambda>(l, e, a). ?f l) (filter (\<lambda>(l, e, a). acc_id a \<in> set ids \<and> je_entry_date e \<le> t) (joined_lines d))"
  proof (rule joined_filter [OF assms(1,2), where f = ?f
        and P = "\<lambda>(l, e, a). acc_id a \<in> set ids \<and> je_entry_date e \<le> t"
        and Q = "\<lambda>l. jl_account_id l \<in> set ids \<and> dated d t (jl_entry_id l)", symmetric])
    fix l e a assume j: "(l, e, a) \<in> set (joined_lines d)"
    show "(case (l, e, a) of (l, e, a) \<Rightarrow> acc_id a \<in> set ids \<and> je_entry_date e \<le> t)
        \<longleftrightarrow> jl_account_id l \<in> set ids \<and> dated d t (jl_entry_id l)"
      using joined_lineD(5) [OF j] dated_joined [OF assms(1) j] by simp
  qed
  also have "\<dots> = sum_of (\<lambda>(l, e, a). cash_base ids (l, a)) (filter (\<lambda>(l, e, a). je_entry_date e \<le> t) (joined_lines d))"
    unfolding sum_of_filter_if by (rule sum_of_cong) (auto simp: cash_base_def split: if_splits)
  finally show ?thesis .
qed

lemma cash_flow_opens_and_closes:
  "cf_opening_cash (cash_flow d start until) = cash_balance d (day_before start) (cash_account_ids d)"
  "cf_closing_cash (cash_flow d start until) = cash_balance d until (cash_account_ids d)"
  "cf_reconciles (cash_flow d start until)
     \<longleftrightarrow> q_money (cf_opening_cash (cash_flow d start until) + cf_net_change (cash_flow d start until))
         = cf_closing_cash (cash_flow d start until)"
  by (simp_all add: cash_flow_def Let_def)

lemma cash_moves_between:
  assumes "ids_ok d" "accounts_ok d" "lines_ok d" "dates_valid d"
    and start: "valid_date start" "1 < toordinal start" "start \<le> until"
  shows "cash_balance d until ids = cash_balance d (day_before start) ids
    + sum_of (\<lambda>(l, e, a). cash_base ids (l, a)) (window_lines d start until)"
proof -
  have bef: "je_entry_date e \<le> day_before start \<longleftrightarrow> je_entry_date e < start" if "(l, e, a) \<in> set (joined_lines d)" for l e a
    using day_before_iff [OF start(1,2)] assms(4) joined_lineD(2) [OF that] by (auto simp: dates_valid_def)
  show ?thesis
    unfolding cash_balance_replay [OF assms(1-3)] window_lines_def sum_of_filter_if sum_of_add [symmetric]
    using start(3) by (intro sum_of_cong) (auto simp: bef in_window_def)
qed

lemma reconciles_iff:
  assumes "ids_ok d" "accounts_ok d" "lines_ok d" "dates_valid d" "valid_date start" "1 < toordinal start" "start \<le> until"
  shows "cf_reconciles (cash_flow d start until)
    \<longleftrightarrow> sum_of (\<lambda>(l, e, a). cash_money (cash_account_ids d) (l, a)) (window_lines d start until)
        = sum_of (\<lambda>(l, e, a). cash_base (cash_account_ids d) (l, a)) (window_lines d start until)"
proof -
  have sc: "at_scale 2 (cash_balance d t ids)" for t ids by (simp add: cash_balance_def)
  have "at_scale 2 (cf_net_change (cash_flow d start until))" by (simp add: cash_flow_def Let_def)
  with sc have q: "q_money (cash_balance d (day_before start) (cash_account_ids d) + cf_net_change (cash_flow d start until))
      = cash_balance d (day_before start) (cash_account_ids d) + cf_net_change (cash_flow d start until)"
    by (intro quantize_id at_scale_add)
  show ?thesis
    unfolding cash_flow_opens_and_closes q unfolding cash_moves_between [OF assms] cf_net_change_sum [OF assms(3)] by simp
qed

end
