(* ===== verification/AccountingApi.thy ===== *)
theory AccountingApi
  imports System Statements_Facts
begin

text \<open>
  The handlers of \<open>app/api/accounting.py\<close> with the role checks of \<open>app/core/permissions.py\<close>:
  the chart of accounts, the months, manual entries and their reversal, the opening balances
  and the verification of the ledger. The lemmas show that every handler is a path of the
  system's steps, that a cashier gets through none of them, that no manual entry passes for
  one the system posts itself, and that the verification finds nothing wrong in a database
  the system can be in. Request text is ASCII here, so \<open>upper\<close> only has the letters to change.
\<close>

section \<open>Roles\<close>

definition require_admin :: "user \<Rightarrow> user res" where
  "require_admin u = raise_if (us_role u \<noteq> ADMIN) (HTTPException 403 (Msg ''Admin access required'' [])) (Inr u)"

definition require_accounting :: "user \<Rightarrow> user res" where
  "require_accounting u =
     raise_if (us_role u \<notin> {ADMIN, ACCOUNTANT}) (HTTPException 403 (Msg ''Accounting access required'' [])) (Inr u)"

section \<open>Reserved source types\<close>

definition RESERVED_SOURCE_TYPES :: "string list" where
  "RESERVED_SOURCE_TYPES =
     [SOURCE_OPENING, SOURCE_REVERSAL, YEAR_CLOSE, SOURCE_ORDER, SOURCE_ORDER_REFUND, SOURCE_SUPPLIER_PURCHASE,
      SOURCE_SUPPLIER_PAYMENT, SOURCE_BUYBACK, SOURCE_MELT, SOURCE_ADJUSTMENT, SOURCE_AR_INVOICE, SOURCE_AR_RECEIPT,
      SOURCE_VENDOR_BILL, SOURCE_VENDOR_PAYMENT, SOURCE_TRANSFER]"

text \<open>\<open>s.strip()\<close> and \<open>s.upper()\<close>\<close>

definition is_space :: "char \<Rightarrow> bool" where
  "is_space c \<longleftrightarrow> (of_char c :: nat) \<in> {9, 10, 11, 12, 13, 28, 29, 30, 31, 32}"

definition strip :: "string \<Rightarrow> string" where
  "strip s = rev (dropWhile is_space (rev (dropWhile is_space s)))"

definition upper_char :: "char \<Rightarrow> char" where
  "upper_char c = (let n = of_char c :: nat in if 97 \<le> n \<and> n \<le> 122 then char_of (n - 32) else c)"

definition upper :: "string \<Rightarrow> string" where
  "upper s = map upper_char s"

section \<open>The chart of accounts\<close>

definition account_type_of :: "string \<Rightarrow> account_type res" where
  "account_type_of s =
     (if s = ''ASSET'' then Inr ASSET else if s = ''LIABILITY'' then Inr LIABILITY
      else if s = ''EQUITY'' then Inr EQUITY else if s = ''INCOME'' then Inr INCOME
      else if s = ''EXPENSE'' then Inr EXPENSE
      else Inl (ValueError (Msg ''{} is not a valid AccountType'' [AStr (quoted s)])))"

definition denomination_of :: "string \<Rightarrow> denomination res" where
  "denomination_of s =
     (if s = ''MONEY'' then Inr MONEY else if s = ''METAL'' then Inr METAL else if s = ''DUAL'' then Inr DUAL
      else Inl (ValueError (Msg ''{} is not a valid Denomination'' [AStr (quoted s)])))"

definition normal_balance_of :: "string \<Rightarrow> normal_balance res" where
  "normal_balance_of s =
     (if s = ''DEBIT'' then Inr DEBIT else if s = ''CREDIT'' then Inr CREDIT
      else Inl (ValueError (Msg ''{} is not a valid NormalBalance'' [AStr (quoted s)])))"

record account_create =
  ac_code :: string
  ac_name :: string
  ac_type :: string
  ac_denomination :: string
  ac_normal_balance :: string
  ac_parent_id :: "string option"
  ac_currency :: "string option"

text \<open>The foreign key of \<open>parent_id\<close>.\<close>

definition unknown_parent :: "string option \<Rightarrow> db \<Rightarrow> bool" where
  "unknown_parent r d = (case r of None \<Rightarrow> False | Some k \<Rightarrow> k \<notin> set (map acc_id (gl_accounts d)))"

definition list_accounts :: "user \<Rightarrow> db \<Rightarrow> gl_account list res" where
  "list_accounts u d = bnd (require_accounting u) (\<lambda>_. Inr (sort_key acc_code (gl_accounts d)))"

definition create_account :: "(string \<Rightarrow> string) \<Rightarrow> account_create \<Rightarrow> user \<Rightarrow> db \<Rightarrow> (gl_account \<times> db) res" where
  "create_account sha b u d =
     bnd (require_accounting u) (\<lambda>_.
     bnd (account_type_of (ac_type b)) (\<lambda>ty.
     bnd (denomination_of (ac_denomination b)) (\<lambda>dn.
     bnd (normal_balance_of (ac_normal_balance b)) (\<lambda>nb.
     raise_if (unknown_parent (ac_parent_id b) d) (IntegrityError ''gl_accounts.parent_id'')
    (bnd (add_account \<lparr>acc_id = [], acc_code = ac_code b, acc_name = ac_name b, acc_type = ty,
            acc_parent_id = ac_parent_id b, acc_denomination = dn, acc_currency = ac_currency b,
            acc_system_key = None, acc_normal_balance = nb, acc_is_active = True\<rparr> d) (\<lambda>(acct, d).
     bnd (ledger_record sha EVENT_GL_ACCOUNT_CREATED (us_id u) ''gl_account'' (acc_id acct)
            (PDict [(''code'', PStr (acc_code acct)), (''name'', PStr (acc_name acct))]) d) (\<lambda>(_, d).
     Inr (acct, d))))))))"

record account_update =
  au_name :: "string option"
  au_parent_id :: "string option"
  au_is_active :: "bool option"

definition change_account :: "account_update \<Rightarrow> gl_account \<Rightarrow> gl_account" where
  "change_account b a =
     (let a = (case au_name b of None \<Rightarrow> a | Some n \<Rightarrow> a\<lparr>acc_name := n\<rparr>);
          a = (case au_parent_id b of None \<Rightarrow> a | Some p \<Rightarrow> a\<lparr>acc_parent_id := Some p\<rparr>)
      in case au_is_active b of None \<Rightarrow> a | Some x \<Rightarrow> a\<lparr>acc_is_active := x\<rparr>)"

definition put_account :: "gl_account \<Rightarrow> db \<Rightarrow> db" where
  "put_account a d = d\<lparr>gl_accounts := upd_rows (\<lambda>x. acc_id x = acc_id a) (\<lambda>_. a) (gl_accounts d)\<rparr>"

definition update_account ::
    "(string \<Rightarrow> string) \<Rightarrow> string \<Rightarrow> account_update \<Rightarrow> user \<Rightarrow> db \<Rightarrow> (gl_account \<times> db) res" where
  "update_account sha account_id b u d =
     bnd (require_accounting u) (\<lambda>_.
     bnd (scalar_one_or_none (\<lambda>a. acc_id a = account_id) (gl_accounts d)) (\<lambda>found.
     case found of
       None \<Rightarrow> Inl (HTTPException 404 (Msg ''Account not found'' []))
     | Some acct \<Rightarrow>
         raise_if (au_is_active b = Some False \<and> acc_system_key acct \<notin> {None, Some []} \<and> us_role u \<noteq> ADMIN)
           (HTTPException 403 (Msg ''Only ADMIN may deactivate a system account'' []))
        (raise_if (unknown_parent (au_parent_id b) d) (IntegrityError ''gl_accounts.parent_id'')
        (let acct = change_account b acct; d = put_account acct d in
         bnd (ledger_record sha EVENT_GL_ACCOUNT_UPDATED (us_id u) ''gl_account'' (acc_id acct)
                (PDict [(''code'', PStr (acc_code acct))]) d) (\<lambda>(_, d).
         Inr (acct, d))))))"

definition seed_coa :: "user \<Rightarrow> db \<Rightarrow> (nat \<times> db) res" where
  "seed_coa u d = bnd (require_admin u) (\<lambda>_. seed_chart_of_accounts d)"

section \<open>Periods\<close>

definition list_periods :: "user \<Rightarrow> db \<Rightarrow> gl_period list res" where
  "list_periods u d = bnd (require_accounting u) (\<lambda>_. Inr (sort_key (\<lambda>p. (per_year p, per_no p)) (gl_periods d)))"

definition open_period :: "int \<Rightarrow> int \<Rightarrow> user \<Rightarrow> db \<Rightarrow> (gl_period \<times> db) res" where
  "open_period year period_no u d =
     bnd (require_admin u) (\<lambda>_.
     bnd (scalar_one_or_none (\<lambda>p. per_year p = year \<and> per_no p = period_no) (gl_periods d)) (\<lambda>existing.
     raise_if (existing \<noteq> None) (HTTPException 409 (Msg ''Period already exists'' []))
       (add_period year period_no PERIOD_OPEN d)))"

definition put_period :: "gl_period \<Rightarrow> db \<Rightarrow> db" where
  "put_period p d = d\<lparr>gl_periods := upd_rows (\<lambda>x. per_id x = per_id p) (\<lambda>_. p) (gl_periods d)\<rparr>"

definition semicolon_join :: "string list \<Rightarrow> string" where
  "semicolon_join xs = (case xs of [] \<Rightarrow> [] | y # ys \<Rightarrow> y @ concat (map (\<lambda>z. ''; '' @ z) ys))"

definition period_payload :: "gl_period \<Rightarrow> pyval" where
  "period_payload p = PDict [(''year'', PInt (per_year p)), (''period_no'', PInt (per_no p))]"

definition close_period :: "(string \<Rightarrow> string) \<Rightarrow> string \<Rightarrow> user \<Rightarrow> db \<Rightarrow> (gl_period \<times> db) res" where
  "close_period sha period_id u d =
     bnd (require_admin u) (\<lambda>_.
     bnd (scalar_one_or_none (\<lambda>p. per_id p = period_id) (gl_periods d)) (\<lambda>found.
     case found of
       None \<Rightarrow> Inl (HTTPException 404 (Msg ''Period not found'' []))
     | Some p \<Rightarrow>
         bnd (close_readiness sha d (per_year p) (per_no p)) (\<lambda>readiness.
         raise_if (\<not> rd_can_close readiness)
           (HTTPException 422 (Msg ''Cannot close: {}''
              [AStr (semicolon_join (map (\<lambda>(_, _, detail). detail) (filter (\<lambda>(_, ok, _). \<not> ok) (rd_hard readiness))))]))
        (let (now, d) = read_clock d;
             p = p\<lparr>per_status := PERIOD_CLOSED, per_closed_by_user_id := Some (us_id u), per_closed_at := Some now\<rparr>;
             d = put_period p d in
         bnd (ledger_record sha EVENT_GL_PERIOD_CLOSED (us_id u) ''gl_period'' (per_id p) (period_payload p) d) (\<lambda>(_, d).
         Inr (p, d))))))"

definition reopen_period :: "(string \<Rightarrow> string) \<Rightarrow> string \<Rightarrow> user \<Rightarrow> db \<Rightarrow> (gl_period \<times> db) res" where
  "reopen_period sha period_id u d =
     bnd (require_admin u) (\<lambda>_.
     bnd (scalar_one_or_none (\<lambda>p. per_id p = period_id) (gl_periods d)) (\<lambda>found.
     case found of
       None \<Rightarrow> Inl (HTTPException 404 (Msg ''Period not found'' []))
     | Some p \<Rightarrow>
         let p = p\<lparr>per_status := PERIOD_OPEN, per_closed_at := None\<rparr>; d = put_period p d in
         bnd (ledger_record sha EVENT_GL_PERIOD_REOPENED (us_id u) ''gl_period'' (per_id p) (period_payload p) d) (\<lambda>(_, d).
         Inr (p, d))))"

definition close_readiness_endpoint :: "(string \<Rightarrow> string) \<Rightarrow> int \<Rightarrow> int \<Rightarrow> user \<Rightarrow> db \<Rightarrow> close_readiness_report res" where
  "close_readiness_endpoint sha year period_no u d =
     bnd (require_accounting u) (\<lambda>_. close_readiness sha d year period_no)"

definition year_close_preview_endpoint :: "int \<Rightarrow> user \<Rightarrow> db \<Rightarrow> close_preview res" where
  "year_close_preview_endpoint year u d = bnd (require_accounting u) (\<lambda>_. year_close_preview d year)"

definition close_year_endpoint ::
    "(string \<Rightarrow> string) \<Rightarrow> int \<Rightarrow> user \<Rightarrow> db \<Rightarrow> ((string \<times> string \<times> string list) \<times> db) res" where
  "close_year_endpoint sha year u d =
     bnd (require_admin u) (\<lambda>_.
     bnd (close_year sha year (us_id u) d) (\<lambda>(entry, d).
     Inr ((je_id entry, je_entry_no entry,
           map period_label (sort_key per_no (filter (\<lambda>p. per_year p = year + 1) (gl_periods d)))), d)))"

section \<open>Journal entries\<close>

definition get_entry :: "string \<Rightarrow> user \<Rightarrow> db \<Rightarrow> (gl_journal_entry \<times> gl_journal_line list) res" where
  "get_entry entry_id u d =
     bnd (require_accounting u) (\<lambda>_.
     bnd (scalar_one_or_none (\<lambda>e. je_id e = entry_id) (gl_entries d)) (\<lambda>found.
     case found of
       None \<Rightarrow> Inl (HTTPException 404 (Msg ''Entry not found'' []))
     | Some e \<Rightarrow> Inr (e, entry_lines d (je_id e))))"

text \<open>One page, newest first; \<open>page\<close> counts from 1.\<close>

definition list_entries :: "nat \<Rightarrow> nat \<Rightarrow> user \<Rightarrow> db \<Rightarrow> (gl_journal_entry list \<times> nat) res" where
  "list_entries page page_size u d =
     bnd (require_accounting u) (\<lambda>_.
     Inr (take page_size (drop ((page - 1) * page_size) (rev (sort_key je_occurred_at (gl_entries d)))),
          length (gl_entries d)))"

record journal_entry_create =
  jc_entry_date :: date
  jc_memo :: string
  jc_source_type :: string
  jc_source_id :: "string option"
  jc_lines :: "gl_line list"

text \<open>A line of the request has the fields of a \<open>GLLine\<close>; its denomination is left to the engine.\<close>

definition manual_line :: "gl_line \<Rightarrow> gl_line" where
  "manual_line l = l\<lparr>ln_denomination := None\<rparr>"

definition create_entry :: "(string \<Rightarrow> string) \<Rightarrow> journal_entry_create \<Rightarrow> user \<Rightarrow> db \<Rightarrow> (gl_journal_entry \<times> db) res" where
  "create_entry sha b u d =
     bnd (require_accounting u) (\<lambda>_.
     raise_if (upper (strip (jc_source_type b)) \<in> set RESERVED_SOURCE_TYPES)
       (HTTPException 422 (Msg ''source_type {} is reserved for entries the system posts itself. Post manual entries as {}.''
          [AStr (quoted (strip (jc_source_type b))), AStr SOURCE_MANUAL]))
       (post_entry sha (post_args (jc_entry_date b) (jc_memo b) (jc_source_type b) (jc_source_id b)
          (map manual_line (jc_lines b)) (us_id u)) d))"

definition reverse_endpoint :: "(string \<Rightarrow> string) \<Rightarrow> string \<Rightarrow> user \<Rightarrow> db \<Rightarrow> (gl_journal_entry \<times> db) res" where
  "reverse_endpoint sha entry_id u d =
     bnd (require_accounting u) (\<lambda>_. reverse_entry sha entry_id (us_id u) (today d) [] d)"

section \<open>Reports, opening balances, verification\<close>

definition trial_balance_endpoint :: "date \<Rightarrow> user \<Rightarrow> db \<Rightarrow> trial_balance res" where
  "trial_balance_endpoint as_of u d = bnd (require_accounting u) (\<lambda>_. Inr (compute_trial_balance d as_of))"

definition general_ledger :: "string \<Rightarrow> date \<Rightarrow> date \<Rightarrow> user \<Rightarrow> db \<Rightarrow> account_report res" where
  "general_ledger account_id start until u d =
     bnd (require_accounting u) (\<lambda>_. account_statement d account_id start until)"

text \<open>The endpoint names its cash lines by system key; the rate is the current one.\<close>

definition opening_balances ::
    "(string \<Rightarrow> string) \<Rightarrow> date \<Rightarrow> (string \<times> dec) list \<Rightarrow> dec option \<Rightarrow> user \<Rightarrow> db \<Rightarrow> (gl_journal_entry \<times> db) res" where
  "opening_balances sha as_of cash gold_rate u d =
     bnd (require_admin u) (\<lambda>_.
     post_opening_balances sha as_of (us_id u)
       (map (\<lambda>(k, x). \<lparr>cl_account_id = None, cl_system_key = Some k, cl_amount = x\<rparr>) cash) gold_rate d)"

record verify_report =
  vf_chain :: chain_report
  vf_head_row_count :: nat
  vf_head_latest_hash :: string
  vf_computed_latest_hash :: string
  vf_head_matches :: bool

definition verify :: "(string \<Rightarrow> string) \<Rightarrow> user \<Rightarrow> db \<Rightarrow> verify_report res" where
  "verify sha u d =
     bnd (require_accounting u) (\<lambda>_.
     let rows = ordered_gl_rows d in
     bnd (verify_gl_chain sha rows) (\<lambda>rep.
     let computed = (if rows = [] then ''GENESIS'' else je_entry_hash (fst (last rows)));
         head = gl_head d
     in Inr \<lparr>vf_chain = rep, vf_head_row_count = row_count head, vf_head_latest_hash = latest_entry_hash head,
             vf_computed_latest_hash = computed,
             vf_head_matches = (latest_entry_hash head = computed \<and> row_count head = length rows)\<rparr>))"

section \<open>Every handler is a path of the system\<close>

inductive accounting_call :: "(string \<Rightarrow> string) \<Rightarrow> user \<Rightarrow> db \<Rightarrow> db \<Rightarrow> bool" for sha u where
  "create_account sha ca u d = Inr (a, d') \<Longrightarrow> accounting_call sha u d d'"
| "update_account sha i ua u d = Inr (a, d') \<Longrightarrow> accounting_call sha u d d'"
| "seed_coa u d = Inr (n, d') \<Longrightarrow> accounting_call sha u d d'"
| "open_period y m u d = Inr (p, d') \<Longrightarrow> accounting_call sha u d d'"
| "close_period sha i u d = Inr (p, d') \<Longrightarrow> accounting_call sha u d d'"
| "reopen_period sha i u d = Inr (p, d') \<Longrightarrow> accounting_call sha u d d'"
| "close_year_endpoint sha y u d = Inr (r, d') \<Longrightarrow> accounting_call sha u d d'"
| "create_entry sha je u d = Inr (e, d') \<Longrightarrow> accounting_call sha u d d'"
| "reverse_endpoint sha i u d = Inr (e, d') \<Longrightarrow> accounting_call sha u d d'"
| "opening_balances sha as_of cash rate u d = Inr (e, d') \<Longrightarrow> accounting_call sha u d d'"

lemma require_Inr:
  "require_admin u = Inr v \<longleftrightarrow> us_role u = ADMIN \<and> v = u"
  "require_accounting u = Inr v \<longleftrightarrow> us_role u \<in> {ADMIN, ACCOUNTANT} \<and> v = u"
  by (auto simp: require_admin_def require_accounting_def raise_if_def)

lemma accounting_call_role: "accounting_call sha u d d' \<Longrightarrow> us_role u \<in> {ADMIN, ACCOUNTANT}"
  by (induction rule: accounting_call.induct)
    (auto simp: create_account_def update_account_def seed_coa_def open_period_def close_period_def reopen_period_def
      close_year_endpoint_def create_entry_def reverse_endpoint_def opening_balances_def bnd_eq_Inr require_Inr)

lemma change_account_id [simp]: "acc_id (change_account b a) = acc_id a"
  by (simp add: change_account_def Let_def split: option.splits)

lemma put_account_same_books: "same_books d (put_account a d)"
  by (auto simp: same_books_def put_account_def map_upd_rows)

lemma put_period_same_books: "same_books d (put_period p d)"
  by (simp add: same_books_def put_period_def)

lemma open_period_same_books:
  assumes "add_period y n st d = Inr (p, d')"
  shows "same_books d d'"
  unfolding same_books_def add_period_frame(1) [OF assms] by simp

lemma tick_period_same_books: "same_books d (put_period p (d\<lparr>clock := clock d + 1\<rparr>))"
  by (simp add: same_books_def put_period_def)

context journal_invariant
begin

lemma inv_frame_record:
  assumes "ledger_record sha ev ac rt ri pl d1 = Inr (r, d')" "Inv d" "same_books d d1"
  shows "Inv d'"
  by (rule inv_record [OF assms(1) inv_frame [OF assms(3,2)]])

lemma inv_create_account: "create_account sha ca u d = Inr (a, d') \<Longrightarrow> Inv d \<Longrightarrow> Inv d'"
  by (auto simp: create_account_def res_simps dest!: add_account_same_books intro: inv_record inv_frame)

lemma inv_update_account: "update_account sha i ua u d = Inr (a, d') \<Longrightarrow> Inv d \<Longrightarrow> Inv d'"
  by (auto simp: update_account_def res_simps Let_def split: option.splits
      dest!: inv_frame_record [OF _ _ put_account_same_books])

lemma inv_close_period: "close_period sha i u d = Inr (p, d') \<Longrightarrow> Inv d \<Longrightarrow> Inv d'"
  by (auto simp: close_period_def res_simps Let_def read_clock_def split: option.splits
      dest!: inv_frame_record [OF _ _ tick_period_same_books])

lemma inv_reopen_period: "reopen_period sha i u d = Inr (p, d') \<Longrightarrow> Inv d \<Longrightarrow> Inv d'"
  by (auto simp: reopen_period_def res_simps Let_def split: option.splits
      dest!: inv_frame_record [OF _ _ put_period_same_books])

lemma inv_accounting_call: "accounting_call sha u d d' \<Longrightarrow> Inv d \<Longrightarrow> Inv d'"
proof (induction rule: accounting_call.induct)
  case (8 je d e d')
  then show ?case by (auto simp: create_entry_def res_simps intro: inv_post [OF _ proper_post_args])
qed (auto simp: seed_coa_def open_period_def close_year_endpoint_def reverse_endpoint_def opening_balances_def res_simps
    dest: seed_same_books open_period_same_books
    intro: inv_create_account inv_update_account inv_close_period inv_reopen_period inv_frame inv_close_year inv_reverse inv_opening)

end

section \<open>What they guarantee\<close>

lemma reserved_is_upper: "s \<in> set RESERVED_SOURCE_TYPES \<Longrightarrow> upper (strip s) = s"
proof -
  have "list_all (\<lambda>s. upper (strip s) = s) RESERVED_SOURCE_TYPES" by code_simp
  then show "s \<in> set RESERVED_SOURCE_TYPES \<Longrightarrow> upper (strip s) = s" by (simp add: list_all_iff)
qed

lemma create_entry_posts:
  assumes "create_entry sha b u d = Inr (e, d')"
  shows "je_source_type e = jc_source_type b" "je_reverses_entry_id e = None"
    "je_source_type e \<notin> set RESERVED_SOURCE_TYPES"
proof -
  have p: "post_entry sha (post_args (jc_entry_date b) (jc_memo b) (jc_source_type b) (jc_source_id b)
      (map manual_line (jc_lines b)) (us_id u)) d = Inr (e, d')"
    and r: "upper (strip (jc_source_type b)) \<notin> set RESERVED_SOURCE_TYPES"
    using assms by (auto simp: create_entry_def res_simps)
  from post_entry_posted [OF p] show s: "je_source_type e = jc_source_type b" "je_reverses_entry_id e = None"
    by (auto simp: posted_def post_args_def)
  show "je_source_type e \<notin> set RESERVED_SOURCE_TYPES" using r s(1) reserved_is_upper by metis
qed

lemma verify_finds_nothing:
  assumes "journal_ok sha d" "us_role u \<in> {ADMIN, ACCOUNTANT}"
  shows "\<exists>r. verify sha u d = Inr r \<and> cr_status (vf_chain r) \<noteq> Broken \<and> vf_head_matches r
    \<and> vf_head_row_count r = length (gl_entries d)"
proof -
  have t: "time_ok d" and c: "chain_ok sha d" using assms(1) by (simp_all add: journal_ok_def)
  have rows: "ordered_gl_rows d = [] \<longleftrightarrow> gl_entries d = []" "length (ordered_gl_rows d) = length (gl_entries d)"
    "gl_entries d \<noteq> [] \<Longrightarrow> fst (last (ordered_gl_rows d)) = last (gl_entries d)"
    by (simp_all add: ordered_gl_rows_eq [OF t] gl_rows_def last_map)
  show ?thesis
    using c rows assms(2)
    by (auto simp: verify_def require_accounting_def raise_if_def Let_def gl_chain_verified [OF assms(1)] chain_ok_def GENESIS_HASH_def)
qed

text \<open>A closed month takes no ordinary posting.\<close>

lemma closed_period_refuses:
  assumes "close_period sha i u d = Inr (p, d')" "per_year p = d_year (pq_entry_date q)" "per_no p = d_month (pq_entry_date q)"
    "\<not> pq_allow_closed_period q"
  shows "\<exists>err. post_entry sha q d' = Inl err"
proof -
  obtain p0 r where p0: "p0 \<in> set (gl_periods d)" "per_id p0 = i"
    and p: "p = p0\<lparr>per_status := PERIOD_CLOSED, per_closed_by_user_id := Some (us_id u), per_closed_at := Some (clock d)\<rparr>"
    and r: "ledger_record sha EVENT_GL_PERIOD_CLOSED (us_id u) ''gl_period'' (per_id p) (period_payload p)
      (put_period p (d\<lparr>clock := clock d + 1\<rparr>)) = Inr (r, d')"
    using assms(1)
    by (auto simp: close_period_def res_simps Let_def read_clock_def split: option.splits dest!: scalar_one_or_none_SomeD)
  have per: "gl_periods d' = upd_rows (\<lambda>x. per_id x = per_id p) (\<lambda>_. p) (gl_periods d)"
    using arg_cong [OF ledger_record_frame(1) [OF r], of gl_periods] by (simp add: put_period_def)
  let ?ps = "filter (\<lambda>x. per_year x = d_year (pq_entry_date q) \<and> per_no x = d_month (pq_entry_date q)) (gl_periods d')"
  have "p \<in> set (gl_periods d')" using p0 p by (force simp: per upd_rows_def)
  then have m: "p \<in> set ?ps" "per_status p = PERIOD_CLOSED" using assms(2,3) p by simp_all
  have "\<exists>err. resolve_open_period d' (pq_entry_date q) False = Inl err"
  proof (cases ?ps)
    case (Cons x xs)
    then show ?thesis
      using m by (cases xs) (auto simp: resolve_open_period_def scalar_one_or_none_def raise_if_def)
  qed (use m in simp)
  then show ?thesis using assms(4) by (auto simp: post_entry_def)
qed

end
