(* ===== verification/Stock.thy ===== *)
theory Stock
  imports GlPostings
begin

text \<open>
  Gold lots and manual adjustments: \<open>app/core/inventory.py\<close> (the one way to debit a lot),
  \<open>app/core/supplier_balance.py\<close>, the writing handler of \<open>app/api/lots.py\<close> and
  \<open>app/api/adjustments.py\<close>, with the event names of \<open>app/core/ledger.py\<close> they write.
  A Decimal of a request comes with the number of decimals it was written with, because
  the ledger's payloads repeat its text. The facts: a lot never goes below zero, and what
  is left in a lot is what came in, less what was consumed, plus what was adjusted.
\<close>

type_synonym sdec = "nat \<times> dec"

definition sd_text :: "sdec \<Rightarrow> string" where
  "sd_text x = str_dec (fst x) (snd x)"

section \<open>Looking a row up\<close>

text \<open>\<open>if not row: raise e\<close> after \<open>scalar_one_or_none()\<close>\<close>

definition or_raise :: "err \<Rightarrow> 'r option res \<Rightarrow> 'r res" where
  "or_raise e m = bnd m (\<lambda>row. case row of None \<Rightarrow> Inl e | Some r \<Rightarrow> Inr r)"

definition fetch :: "err \<Rightarrow> ('r \<Rightarrow> bool) \<Rightarrow> 'r list \<Rightarrow> 'r res" where
  "fetch e P rows = or_raise e (scalar_one_or_none P rows)"

lemma or_raise_eq_Inr [res_simps]: "or_raise e m = Inr r \<longleftrightarrow> m = Inr (Some r)"
  by (auto simp: or_raise_def bnd_eq_Inr split: option.splits)

lemma fetch_eq_Inr [res_simps]: "fetch e P rows = Inr r \<longleftrightarrow> filter P rows = [r]"
  by (auto simp: fetch_def or_raise_eq_Inr scalar_one_or_none_def split: list.splits)

text \<open>A pair taken apart in the middle of a run.\<close>

lemma case_prod_eq_Inr [res_simps]:
  "(case p of (x, y) \<Rightarrow> f x y) = Inr r \<longleftrightarrow> (\<exists>x y. p = (x, y) \<and> f x y = Inr r)"
  by (cases p) auto

section \<open>Events and enum values\<close>

definition EVENT_LOT_CREATED :: string where "EVENT_LOT_CREATED = ''LOT_CREATED''"
definition EVENT_MANUAL_ADJUSTMENT :: string where "EVENT_MANUAL_ADJUSTMENT = ''MANUAL_ADJUSTMENT''"
definition EVENT_PRODUCT_STATUS_CHANGED :: string where
  "EVENT_PRODUCT_STATUS_CHANGED = ''PRODUCT_STATUS_CHANGED''"
definition EVENT_COIN_STOCK_ADJUSTED :: string where "EVENT_COIN_STOCK_ADJUSTED = ''COIN_STOCK_ADJUSTED''"
definition EVENT_OUNCE_STOCK_ADJUSTED :: string where "EVENT_OUNCE_STOCK_ADJUSTED = ''OUNCE_STOCK_ADJUSTED''"

fun product_status_value :: "product_status \<Rightarrow> string" where
  "product_status_value AVAILABLE = ''AVAILABLE''"
| "product_status_value SOLD = ''SOLD''"
| "product_status_value MELTED = ''MELTED''"
| "product_status_value RESERVED = ''RESERVED''"
| "product_status_value INACTIVE = ''INACTIVE''"

fun lot_source_value :: "lot_source \<Rightarrow> string" where
  "lot_source_value SRC_BUYBACK = ''BUYBACK''"
| "lot_source_value SRC_MELT = ''MELT''"
| "lot_source_value SRC_SUPPLIER = ''SUPPLIER''"
| "lot_source_value SRC_SEED = ''SEED''"
| "lot_source_value SRC_ADJUSTMENT = ''ADJUSTMENT''"

fun adjustment_reason_value :: "adjustment_reason \<Rightarrow> string" where
  "adjustment_reason_value LOSS = ''LOSS''"
| "adjustment_reason_value THEFT = ''THEFT''"
| "adjustment_reason_value GIFT = ''GIFT''"
| "adjustment_reason_value SAMPLE = ''SAMPLE''"
| "adjustment_reason_value CORRECTION = ''CORRECTION''"

text \<open>\<open>Enum(value)\<close>: the member with that value, if there is one.\<close>

definition member_of :: "('e \<Rightarrow> string) \<Rightarrow> 'e list \<Rightarrow> string \<Rightarrow> 'e option" where
  "member_of val es s = find (\<lambda>e. val e = s) es"

definition parse_enum :: "('e \<Rightarrow> string) \<Rightarrow> 'e list \<Rightarrow> string \<Rightarrow> string \<Rightarrow> 'e res" where
  "parse_enum val es template s = (case member_of val es s of
      None \<Rightarrow> Inl (HTTPException 422 (Msg template [AStr (quoted s)]))
    | Some e \<Rightarrow> Inr e)"

definition karats :: "karat list" where "karats = [K18, K21, K22, K24]"

definition parse_karat :: "string \<Rightarrow> karat res" where
  "parse_karat s = parse_enum karat_value karats ''Invalid karat {}'' s"

definition lot_sources :: "lot_source list" where
  "lot_sources = [SRC_BUYBACK, SRC_MELT, SRC_SUPPLIER, SRC_SEED, SRC_ADJUSTMENT]"

definition reasons :: "adjustment_reason list" where "reasons = [LOSS, THEFT, GIFT, SAMPLE, CORRECTION]"

fun target_value :: "adjustment_target \<Rightarrow> string" where
  "target_value TARGET_LOT = ''LOT''"
| "target_value TARGET_PRODUCT = ''PRODUCT''"
| "target_value TARGET_COIN_STOCK = ''COIN_STOCK''"
| "target_value TARGET_OUNCE_STOCK = ''OUNCE_STOCK''"

definition targets :: "adjustment_target list" where
  "targets = [TARGET_LOT, TARGET_PRODUCT, TARGET_COIN_STOCK, TARGET_OUNCE_STOCK]"

text \<open>\<open>{**base, **extra}\<close>\<close>

definition dict_merge :: "(string \<times> pyval) list \<Rightarrow> (string \<times> pyval) list \<Rightarrow> (string \<times> pyval) list" where
  "dict_merge base extra =
     map (\<lambda>(k, v). (k, case map_of extra k of None \<Rightarrow> v | Some w \<Rightarrow> w)) base
       @ filter (\<lambda>kv. fst kv \<notin> set (map fst base)) extra"

section \<open>Row updates\<close>

definition put_lot :: "gold_lot \<Rightarrow> db \<Rightarrow> db" where
  "put_lot l d = d\<lparr>gold_lots := upd_rows (\<lambda>x. lot_id x = lot_id l) (\<lambda>_. l) (gold_lots d)\<rparr>"

definition put_product :: "product \<Rightarrow> db \<Rightarrow> db" where
  "put_product p d = d\<lparr>products := upd_rows (\<lambda>x. pr_id x = pr_id p) (\<lambda>_. p) (products d)\<rparr>"

definition put_coin :: "coin_type \<Rightarrow> db \<Rightarrow> db" where
  "put_coin c d = d\<lparr>coin_types := upd_rows (\<lambda>x. co_id x = co_id c) (\<lambda>_. c) (coin_types d)\<rparr>"

definition put_ounce :: "ounce_type \<Rightarrow> db \<Rightarrow> db" where
  "put_ounce z d = d\<lparr>ounce_types := upd_rows (\<lambda>x. oz_id x = oz_id z) (\<lambda>_. z) (ounce_types d)\<rparr>"

section \<open>Lots\<close>

definition cost_share :: "gold_lot \<Rightarrow> dec \<Rightarrow> dec" where
  "cost_share lot grams =
     (if 0 < lot_weight_grams lot
      then q_money (dquot (dmul (lot_cost_basis_usd lot) grams) (lot_weight_grams lot)) else 0)"

definition debit_lot :: "gold_lot \<Rightarrow> dec \<Rightarrow> gold_lot" where
  "debit_lot lot grams =
     (let lot = lot\<lparr>lot_weight_remaining_grams := lot_weight_remaining_grams lot - grams\<rparr>
      in if lot_weight_remaining_grams lot \<le> 0 then lot\<lparr>lot_is_depleted := True\<rparr> else lot)"

definition consumption_payload :: "sdec \<Rightarrow> gold_lot \<Rightarrow> gold_lot_consumption \<Rightarrow> pyval" where
  "consumption_payload gr lot c =
     PDict [(''consumption_id'', PStr (gc_id c)), (''grams'', PStr (sd_text gr)),
            (''cost_basis_consumed_usd'',
              PStr (str_dec (if 0 < lot_weight_grams lot then 2 else 0) (gc_cost_basis_consumed_usd c))),
            (''remaining_after'', PStr (str_dec (max 3 (fst gr)) (lot_weight_remaining_grams lot))),
            (''consumer_ref_type'', PStr (gc_ref_type c)), (''consumer_ref_id'', PStr (gc_ref_id c))]"

definition consume_from_lot ::
    "(string \<Rightarrow> string) \<Rightarrow> string \<Rightarrow> sdec \<Rightarrow> string \<Rightarrow> string \<Rightarrow> string \<Rightarrow> db \<Rightarrow> (gold_lot_consumption \<times> db) res" where
  "consume_from_lot sha i gr ref_type ref_id actor d =
     (let grams = snd gr in
      raise_if (grams \<le> 0) (HTTPException 422 (Msg ''grams must be positive'' []))
     (bnd (fetch (HTTPException 404 (Msg ''Lot {} not found'' [AStr i])) (\<lambda>l. lot_id l = i) (gold_lots d)) (\<lambda>lot.
          raise_if (lot_is_depleted lot) (HTTPException 422 (Msg ''Lot {} is depleted'' [AStr i]))
         (raise_if (lot_weight_remaining_grams lot < grams)
            (HTTPException 422 (Msg ''Insufficient grams in lot {}: requested {}, remaining {}''
               [AStr i, ADec grams, ADec (lot_weight_remaining_grams lot)]))
         (let share = cost_share lot grams; (k, d) = fresh_uid d;
              c = \<lparr>gc_id = k, gc_lot_id = lot_id lot, gc_grams = grams, gc_cost_basis_consumed_usd = share,
                   gc_ref_type = ref_type, gc_ref_id = ref_id, gc_created_by_user_id = actor\<rparr>;
              d = d\<lparr>lot_consumptions := lot_consumptions d @ [c]\<rparr>;
              lot = debit_lot lot grams; d = put_lot lot d in
          bnd (ledger_record sha EVENT_LOT_CONSUMED actor ''gold_lot'' (lot_id lot)
                 (consumption_payload gr lot c) d) (\<lambda>(_, d).
          if lot_is_depleted lot
          then bnd (ledger_record sha EVENT_LOT_DEPLETED actor ''gold_lot'' (lot_id lot)
                 (PDict [(''depleted_at_consumption_id'', PStr (gc_id c))]) d) (\<lambda>(_, d). Inr (c, d))
          else Inr (c, d)))))))"

text \<open>A new lot, and its flush.\<close>

definition add_lot :: "gold_lot \<Rightarrow> db \<Rightarrow> gold_lot \<times> db" where
  "add_lot l d =
     (let (k, d) = fresh_uid d; l = l\<lparr>lot_id := k\<rparr> in (l, d\<lparr>gold_lots := gold_lots d @ [l]\<rparr>))"

definition new_lot ::
    "karat \<Rightarrow> dec \<Rightarrow> lot_source \<Rightarrow> string option \<Rightarrow> string option \<Rightarrow> dec \<Rightarrow> instant \<Rightarrow> string option \<Rightarrow> gold_lot" where
  "new_lot k weight src ref_type ref_id cost t notes =
     \<lparr>lot_id = [], lot_karat = k, lot_weight_grams = weight, lot_weight_remaining_grams = weight,
      lot_source = src, lot_source_ref_type = ref_type, lot_source_ref_id = ref_id, lot_cost_basis_usd = cost,
      lot_acquired_at = t, lot_notes = notes, lot_is_depleted = False\<rparr>"

text \<open>The body of a request, with what its schema checks (a positive weight, a cost not negative).\<close>

record lot_in =
  lc_karat :: string
  lc_weight_grams :: sdec
  lc_source :: string
  lc_cost_basis_usd :: sdec
  lc_acquired_at :: "instant option"
  lc_notes :: "string option"

definition lot_in_valid :: "lot_in \<Rightarrow> bool" where
  "lot_in_valid b \<longleftrightarrow> 0 < snd (lc_weight_grams b) \<and> 0 \<le> snd (lc_cost_basis_usd b)"

definition create_lot :: "(string \<Rightarrow> string) \<Rightarrow> lot_in \<Rightarrow> string \<Rightarrow> db \<Rightarrow> (gold_lot \<times> db) res" where
  "create_lot sha b actor d =
     bnd (parse_karat (lc_karat b)) (\<lambda>k.
     bnd (parse_enum lot_source_value lot_sources ''Invalid source {}'' (lc_source b)) (\<lambda>src.
     raise_if (src \<notin> {SRC_SEED, SRC_ADJUSTMENT})
       (HTTPException 422 (Msg ''Source {} cannot be created via this endpoint; use the buyback / supplier purchase / melt endpoints (Phases 3-6).''
          [AStr (quoted (lc_source b))]))
     (let (now, d) = read_clock d;
          (lot, d) = add_lot (new_lot k (snd (lc_weight_grams b)) src None None (snd (lc_cost_basis_usd b))
                       (case lc_acquired_at b of None \<Rightarrow> now | Some t \<Rightarrow> t) (lc_notes b)) d in
      bnd (ledger_record sha EVENT_LOT_CREATED actor ''gold_lot'' (lot_id lot)
             (PDict [(''karat'', PStr (karat_value k)), (''weight_grams'', PStr (sd_text (lc_weight_grams b))),
                     (''source'', PStr (lot_source_value src)),
                     (''cost_basis_usd'', PStr (sd_text (lc_cost_basis_usd b)))]) d) (\<lambda>(_, d). Inr (lot, d)))))"

text \<open>Only the notes of a lot can be edited; \<open>None\<close> when the request does not name them.\<close>

definition update_lot :: "string \<Rightarrow> string option option \<Rightarrow> db \<Rightarrow> (gold_lot \<times> db) res" where
  "update_lot i notes d =
     bnd (fetch (HTTPException 404 (Msg ''Lot not found'' [])) (\<lambda>l. lot_id l = i) (gold_lots d)) (\<lambda>lot.
     let lot = (case notes of None \<Rightarrow> lot | Some n \<Rightarrow> lot\<lparr>lot_notes := n\<rparr>) in Inr (lot, put_lot lot d))"

section \<open>Supplier balances\<close>

definition balance_key :: "string \<Rightarrow> debt_unit \<Rightarrow> string \<Rightarrow> supplier_balance \<Rightarrow> bool" where
  "balance_key sid u k r \<longleftrightarrow> sb_supplier_id r = sid \<and> sb_unit r = u \<and> sb_karat r = k"

definition owed_label :: "debt_unit \<Rightarrow> string \<Rightarrow> string" where
  "owed_label u k = debt_unit_value u @ (if k \<noteq> [] then '' K'' @ k else [])"

definition adjust_balance ::
    "string \<Rightarrow> debt_unit \<Rightarrow> string \<Rightarrow> dec \<Rightarrow> bool \<Rightarrow> db \<Rightarrow> ((dec \<times> dec) \<times> db) res" where
  "adjust_balance sid u k delta allow_negative d =
     bnd (scalar_one_or_none (balance_key sid u k) (supplier_balances d)) (\<lambda>row.
     bnd (case row of
            None \<Rightarrow> raise_if (delta < 0 \<and> \<not> allow_negative)
                 (HTTPException 422 (Msg ''Cannot repay {} of {} - no outstanding balance''
                    [ADec \<bar>delta\<bar>, AStr (owed_label u k)]))
                 (let r = \<lparr>sb_supplier_id = sid, sb_unit = u, sb_karat = k, sb_balance = 0\<rparr>
                  in Inr (r, d\<lparr>supplier_balances := supplier_balances d @ [r]\<rparr>))
          | Some r \<Rightarrow> Inr (r, d)) (\<lambda>(r, d).
     let before = sb_balance r; after = before + delta in
     raise_if (after < 0 \<and> \<not> allow_negative)
       (HTTPException 422 (Msg ''Repayment of {} {} exceeds outstanding balance {}. Refusing to overpay.''
          [ADec \<bar>delta\<bar>, AStr (owed_label u k), ADec before]))
     (Inr ((before, after),
           d\<lparr>supplier_balances := upd_rows (balance_key sid u k) (\<lambda>x. x\<lparr>sb_balance := after\<rparr>) (supplier_balances d)\<rparr>))))"

definition get_supplier_balances :: "db \<Rightarrow> string \<Rightarrow> supplier_balance list" where
  "get_supplier_balances d sid =
     filter (\<lambda>r. sb_balance r \<noteq> 0) (filter (\<lambda>r. sb_supplier_id r = sid) (supplier_balances d))"

section \<open>Manual adjustments\<close>

record adjustment_in =
  an_target_type :: string
  an_target_id :: string
  an_delta :: sdec
  an_reason :: string
  an_notes :: string

definition add_adjustment ::
    "adjustment_target \<Rightarrow> string \<Rightarrow> dec \<Rightarrow> adjustment_reason \<Rightarrow> string \<Rightarrow> string \<Rightarrow> db \<Rightarrow> manual_adjustment \<times> db" where
  "add_adjustment t i delta reason notes actor d =
     (let (k, d) = fresh_uid d; (now, d) = read_clock d;
          a = \<lparr>ma_id = k, ma_target_type = t, ma_target_id = i, ma_delta = delta, ma_reason = reason,
               ma_notes = notes, ma_occurred_at = now, ma_actor_user_id = actor\<rparr>
      in (a, d\<lparr>adjustments := adjustments d @ [a]\<rparr>))"

definition adjust_lot ::
    "(string \<Rightarrow> string) \<Rightarrow> settings option \<Rightarrow> adjustment_in \<Rightarrow> adjustment_reason \<Rightarrow> string \<Rightarrow> db
     \<Rightarrow> (manual_adjustment \<times> db) res" where
  "adjust_lot sha st b reason actor d =
     (let delta = snd (an_delta b) in
      bnd (fetch (HTTPException 404 (Msg ''Lot {} not found'' [AStr (an_target_id b)]))
             (\<lambda>l. lot_id l = an_target_id b) (gold_lots d)) (\<lambda>lot.
         let prev_remaining = lot_weight_remaining_grams lot; new_remaining = prev_remaining + delta in
         raise_if (new_remaining < 0)
           (HTTPException 422 (Msg ''Adjustment would push lot remaining below zero: current {}, delta {}''
              [ADec prev_remaining, ADec delta]))
         (let lot = lot\<lparr>lot_weight_remaining_grams := new_remaining, lot_is_depleted := new_remaining \<le> 0\<rparr>;
              d = put_lot lot d;
              (adj, d) = add_adjustment TARGET_LOT (an_target_id b) delta reason (an_notes b) actor d in
          bnd (ledger_record sha EVENT_MANUAL_ADJUSTMENT actor ''gold_lot'' (lot_id lot)
                 (PDict [(''adjustment_id'', PStr (ma_id adj)), (''delta_grams'', PStr (sd_text (an_delta b))),
                         (''reason'', PStr (adjustment_reason_value reason)), (''notes'', PStr (an_notes b)),
                         (''remaining_before'', PStr (str_dec 3 prev_remaining)),
                         (''remaining_after'', PStr (str_dec (max 3 (fst (an_delta b))) new_remaining)),
                         (''is_depleted_after'', PBool (lot_is_depleted lot))]) d) (\<lambda>(_, d).
          case st of
            Some s \<Rightarrow>
              if delta < 0 then
                let lost = - delta;
                    cost = (if 0 < lot_weight_grams lot
                            then dquot (dmul (lot_cost_basis_usd lot) lost) (lot_weight_grams lot) else 0)
                in bnd (post_adjustment sha \<lparr>ad_id = ma_id adj, ad_occurred_at = None, ad_karat = Some (lot_karat lot),
                          ad_grams = Some lost, ad_cost_usd = cost\<rparr> s actor d) (\<lambda>(_, d). Inr (adj, d))
              else Inr (adj, d)
          | None \<Rightarrow> Inr (adj, d)))))"

definition adjust_product ::
    "(string \<Rightarrow> string) \<Rightarrow> adjustment_in \<Rightarrow> adjustment_reason \<Rightarrow> string \<Rightarrow> db \<Rightarrow> (manual_adjustment \<times> db) res" where
  "adjust_product sha b reason actor d =
     (let delta = snd (an_delta b) in
      raise_if (delta \<noteq> - 1 \<and> delta \<noteq> 1)
        (HTTPException 422 (Msg ''PRODUCT adjustment delta must be -1 (remove) or +1 (restore)'' []))
     (bnd (fetch (HTTPException 404 (Msg ''Product {} not found'' [AStr (an_target_id b)]))
             (\<lambda>p. pr_id p = an_target_id b) (products d)) (\<lambda>p.
         let prev_status = pr_status p in
         bnd (if delta = - 1
              then raise_if (prev_status = SOLD \<or> prev_status = MELTED)
                     (HTTPException 409 (Msg ''Cannot remove {} from stock - already {}. Sold/melted products are immutable.''
                        [AStr (pr_code p), AStr (product_status_value prev_status)]))
                     (Inr (p\<lparr>pr_status := INACTIVE\<rparr>))
              else raise_if (prev_status \<noteq> INACTIVE)
                     (HTTPException 409 (Msg ''Can only restore products currently INACTIVE; {} is {}.''
                        [AStr (pr_code p), AStr (product_status_value prev_status)]))
                     (Inr (p\<lparr>pr_status := AVAILABLE\<rparr>))) (\<lambda>p.
         let d = put_product p d;
             (adj, d) = add_adjustment TARGET_PRODUCT (an_target_id b) delta reason (an_notes b) actor d in
         bnd (ledger_record sha EVENT_PRODUCT_STATUS_CHANGED actor ''product'' (pr_id p)
                (PDict [(''adjustment_id'', PStr (ma_id adj)), (''product_code'', PStr (pr_code p)),
                        (''reason'', PStr (adjustment_reason_value reason)), (''notes'', PStr (an_notes b)),
                        (''status_before'', PStr (product_status_value prev_status)),
                        (''status_after'', PStr (product_status_value (pr_status p)))]) d) (\<lambda>(_, d).
         Inr (adj, d))))))"

text \<open>
  The one path that adjusts coin and ounce counts; the stock-take approval calls it too.
  \<open>extra\<close> is merged into the event's payload.
\<close>

definition unit_payload ::
    "manual_adjustment \<Rightarrow> int \<Rightarrow> int \<Rightarrow> int \<Rightarrow> pyval \<Rightarrow> (string \<times> pyval) list \<Rightarrow> pyval" where
  "unit_payload adj delta_int prev_qty new_qty notes extra =
     PDict (dict_merge [(''adjustment_id'', PStr (ma_id adj)), (''delta_qty'', PInt delta_int),
             (''reason'', PStr (adjustment_reason_value (ma_reason adj))), (''notes'', notes),
             (''qty_before'', PInt prev_qty), (''qty_after'', PInt new_qty)] extra)"

definition below_zero :: "int \<Rightarrow> int \<Rightarrow> err" where
  "below_zero current delta =
     HTTPException 422 (Msg ''Adjustment would push on_hand_qty below zero: current {}, delta {}'' [AInt current, AInt delta])"

definition apply_unit_stock_adjustment_core ::
    "(string \<Rightarrow> string) \<Rightarrow> adjustment_target \<Rightarrow> string \<Rightarrow> dec \<Rightarrow> adjustment_reason \<Rightarrow> string \<Rightarrow> string
     \<Rightarrow> (string \<times> pyval) list \<Rightarrow> db \<Rightarrow> (manual_adjustment \<times> db) res" where
  "apply_unit_stock_adjustment_core sha t i delta reason notes actor extra d =
     raise_if (t \<noteq> TARGET_COIN_STOCK \<and> t \<noteq> TARGET_OUNCE_STOCK)
       (HTTPException 422 (Msg ''apply_unit_stock_adjustment_core only handles COIN_STOCK / OUNCE_STOCK; got {}.''
          [AStr (target_value t)]))
    (raise_if (delta \<noteq> of_int \<lfloor>delta\<rfloor>)
       (HTTPException 422 (Msg ''delta must be an integer for COIN_STOCK / OUNCE_STOCK adjustments'' []))
    (let delta_int = \<lfloor>delta\<rfloor> in
     if t = TARGET_COIN_STOCK
     then bnd (fetch (HTTPException 404 (Msg ''{} {} not found'' [AStr ''coin_type'', AStr i]))
                 (\<lambda>c. co_id c = i) (coin_types d)) (\<lambda>c.
             let prev_qty = co_on_hand_qty c; new_qty = prev_qty + delta_int in
             raise_if (new_qty < 0) (below_zero prev_qty delta_int)
             (let d = put_coin (c\<lparr>co_on_hand_qty := new_qty\<rparr>) d;
                  (adj, d) = add_adjustment t i delta reason notes actor d in
              bnd (ledger_record sha EVENT_COIN_STOCK_ADJUSTED actor ''coin_type'' (co_id c)
                     (unit_payload adj delta_int prev_qty new_qty (PStr notes) extra) d) (\<lambda>(_, d). Inr (adj, d))))
     else bnd (fetch (HTTPException 404 (Msg ''{} {} not found'' [AStr ''ounce_type'', AStr i]))
                 (\<lambda>z. oz_id z = i) (ounce_types d)) (\<lambda>z.
             let prev_qty = oz_on_hand_qty z; new_qty = prev_qty + delta_int in
             raise_if (new_qty < 0) (below_zero prev_qty delta_int)
             (let d = put_ounce (z\<lparr>oz_on_hand_qty := new_qty\<rparr>) d;
                  (adj, d) = add_adjustment t i delta reason notes actor d in
              bnd (ledger_record sha EVENT_OUNCE_STOCK_ADJUSTED actor ''ounce_type'' (oz_id z)
                     (unit_payload adj delta_int prev_qty new_qty (PStr notes) extra) d) (\<lambda>(_, d). Inr (adj, d))))))"

definition create_adjustment ::
    "(string \<Rightarrow> string) \<Rightarrow> settings option \<Rightarrow> adjustment_in \<Rightarrow> string \<Rightarrow> db \<Rightarrow> (manual_adjustment \<times> db) res" where
  "create_adjustment sha st b actor d =
     bnd (parse_enum target_value targets ''Invalid target_type {}'' (an_target_type b)) (\<lambda>t.
     bnd (parse_enum adjustment_reason_value reasons ''Invalid reason {}'' (an_reason b)) (\<lambda>reason.
     raise_if (snd (an_delta b) = 0) (HTTPException 422 (Msg ''delta must be non-zero'' []))
     (case t of
        TARGET_PRODUCT \<Rightarrow> adjust_product sha b reason actor d
      | TARGET_LOT \<Rightarrow> adjust_lot sha st b reason actor d
      | _ \<Rightarrow> apply_unit_stock_adjustment_core sha t (an_target_id b) (snd (an_delta b)) reason (an_notes b) actor [] d)))"

end
