(* ===== verification/GoldRate.thy ===== *)
theory GoldRate
  imports Stock
begin

text \<open>
  The gold rate a request trades on: \<open>get_current_gold_rate\<close> and \<open>build_rate_history_row\<close> of
  \<open>app/core/gold_api.py\<close>, the stale-rate guard of \<open>app/core/gold_guard.py\<close>, and the code
  generators of \<open>app/core/pricing.py\<close>. The thresholds of the configuration
  (\<open>GOLD_REFRESH_MINUTES\<close>, \<open>GOLD_ALERT_FAILURE_THRESHOLD\<close>, not in the database) are a
  parameter. The facts: an override is never stale; a closed market is always stale; no
  trade passes on a closed market's rate without an acknowledgement of that rate, within a
  second.
\<close>

section \<open>The current rate\<close>

record rate_config =
  cf_gold_refresh_minutes :: int
  cf_gold_alert_failure_threshold :: int

record rate_info =
  ri_rate :: dec
  ri_rate_22k :: "dec option"
  ri_rate_21k :: "dec option"
  ri_rate_18k :: "dec option"
  ri_source :: string
  ri_fetched_at :: instant
  ri_is_stale :: bool
  ri_market_closed :: bool

definition or_int :: "int \<Rightarrow> int \<Rightarrow> int" where
  "or_int n dflt = (if n = 0 then dflt else n)"

definition us_per_second :: int where "us_per_second = 1000000"

definition refresh_min :: "rate_config \<Rightarrow> int" where
  "refresh_min cf = or_int (cf_gold_refresh_minutes cf) 15"

definition stale_threshold :: "rate_config \<Rightarrow> int" where
  "stale_threshold cf = refresh_min cf * 60"

definition closed_threshold :: "rate_config \<Rightarrow> int" where
  "closed_threshold cf =
     max (stale_threshold cf * 2) (or_int (cf_gold_alert_failure_threshold cf) 3 * refresh_min cf * 60)"

text \<open>\<open>order_by(fetched_at.desc()).limit(1)\<close>\<close>

definition latest_rate :: "db \<Rightarrow> gold_rate_history option" where
  "latest_rate d = (case sort_key (\<lambda>r. - gh_fetched_at r) (rate_history d) of [] \<Rightarrow> None | r # _ \<Rightarrow> Some r)"

text \<open>The rate of a row: a live reading, judged by the clock, which is read here.\<close>

definition live_rate :: "rate_config \<Rightarrow> gold_rate_history \<Rightarrow> instant \<Rightarrow> rate_info" where
  "live_rate cf r now =
     (let age = now - gh_fetched_at r in
      \<lparr>ri_rate = gh_rate_24k r, ri_rate_22k = gh_rate_22k r, ri_rate_21k = gh_rate_21k r, ri_rate_18k = gh_rate_18k r,
       ri_source = ''live'', ri_fetched_at = gh_fetched_at r,
       ri_is_stale = stale_threshold cf * us_per_second < age,
       ri_market_closed = closed_threshold cf * us_per_second < age\<rparr>)"

definition override_rate :: "gold_rate_override \<Rightarrow> rate_info" where
  "override_rate o' =
     \<lparr>ri_rate = go_rate_24k o', ri_rate_22k = None, ri_rate_21k = None, ri_rate_18k = None, ri_source = ''override'',
      ri_fetched_at = go_set_at o', ri_is_stale = False, ri_market_closed = False\<rparr>"

definition get_current_gold_rate :: "rate_config \<Rightarrow> db \<Rightarrow> (rate_info \<times> db) res" where
  "get_current_gold_rate cf d =
     (case find go_is_active (rate_overrides d) of
        Some o' \<Rightarrow> Inr (override_rate o', d)
      | None \<Rightarrow> (case latest_rate d of
          None \<Rightarrow> Inl (RuntimeError (Msg ''No gold rate available - run the poller or seed a rate'' []))
        | Some r \<Rightarrow> let (now, d) = read_clock d in Inr (live_rate cf r now, d)))"

definition PURITY_22K :: dec where "PURITY_22K = 917 / 1000"
definition PURITY_21K :: dec where "PURITY_21K = 875 / 1000"
definition PURITY_18K :: dec where "PURITY_18K = 750 / 1000"

definition build_rate_history_row :: "dec \<Rightarrow> string \<Rightarrow> instant \<Rightarrow> gold_rate_history" where
  "build_rate_history_row v source now =
     \<lparr>gh_id = [], gh_rate_24k = v, gh_rate_22k = Some (q_money (dmul v PURITY_22K)),
      gh_rate_21k = Some (q_money (dmul v PURITY_21K)), gh_rate_18k = Some (q_money (dmul v PURITY_18K)),
      gh_per_karat_backfilled = False, gh_source = source, gh_fetched_at = now\<rparr>"

text \<open>
  \<open>Decimal(str(float(x)))\<close> of a rate with two decimals is the rate; its text is the
  shortest one, which drops a final zero but keeps one decimal.
\<close>

definition float_text :: "dec \<Rightarrow> string" where
  "float_text x = str_dec (if at_scale 1 x then 1 else 2) x"

section \<open>The guard\<close>

definition ACK_TOLERANCE :: int where "ACK_TOLERANCE = us_per_second"

text \<open>Instants are UTC: \<open>_as_utc\<close> is \<open>utc_instant\<close> on what the request carries.\<close>

type_synonym stale_rate_ack = datetime

definition as_utc :: "datetime \<Rightarrow> instant" where
  "as_utc value = utc_instant value"

definition age_minutes :: "instant \<Rightarrow> instant \<Rightarrow> int" where
  "age_minutes now fetched_at = max 0 ((now - fetched_at) div (60 * us_per_second))"

definition requires_ack :: "rate_info \<Rightarrow> bool" where
  "requires_ack info = (if ri_source info = ''override'' then False else ri_market_closed info)"

text \<open>
  The structured body of the two refusals, as a message: its code, the rate, when it was
  fetched, its age.
\<close>

definition stale_refusal :: "string \<Rightarrow> string \<Rightarrow> arg list \<Rightarrow> rate_info \<Rightarrow> int \<Rightarrow> err" where
  "stale_refusal code message args info age =
     HTTPException 409 (Joined [Msg code [], Msg message args,
       Msg ''rate_24k {} rate_fetched_at {} age_minutes {}''
         [AStr (money 2 (ri_rate info)), AStr (utc_iso (ri_fetched_at info)), AInt age]])"

definition assert_rate_acceptable :: "rate_info \<Rightarrow> stale_rate_ack option \<Rightarrow> db \<Rightarrow> (unit \<times> db) res" where
  "assert_rate_acceptable info ack d =
     (if \<not> requires_ack info then Inr ((), d)
      else let (now, d) = read_clock d; fetched_at = ri_fetched_at info; age = age_minutes now fetched_at in
        (case ack of
           None \<Rightarrow> Inl (stale_refusal ''STALE_RATE_ACK_REQUIRED'' ''Gold rate has not refreshed since {} ({} minutes ago).''
                       [AStr (utc_iso fetched_at), AInt age] info age)
         | Some a \<Rightarrow> raise_if (ACK_TOLERANCE \<le> \<bar>as_utc a - fetched_at\<bar>)
             (stale_refusal ''STALE_RATE_ACK_MISMATCH''
                ''The gold rate changed since you confirmed it. Please review and confirm again.'' [] info age)
             (Inr ((), d))))"

definition record_stale_rate_ack ::
    "(string \<Rightarrow> string) \<Rightarrow> string \<Rightarrow> rate_info \<Rightarrow> string \<Rightarrow> string \<Rightarrow> string \<Rightarrow> stale_rate_ack option \<Rightarrow> db \<Rightarrow> db res" where
  "record_stale_rate_ack sha actor info ref_type ref_id what ack d =
     (if ack = None \<or> \<not> requires_ack info then Inr d
      else let (now, d) = read_clock d in
        bnd (ledger_record sha EVENT_SALE_ON_STALE_RATE_ACK actor ref_type ref_id
               (PDict [(''rate_24k'', PStr (float_text (ri_rate info))),
                       (''rate_fetched_at'', PStr (utc_iso (ri_fetched_at info))),
                       (''age_minutes'', PInt (age_minutes now (ri_fetched_at info))),
                       (''context'', PStr what)]) d) (\<lambda>(_, d). Inr d))"

lemma override_needs_no_ack: "get_current_gold_rate cf d = Inr (info, d') \<Longrightarrow> ri_source info = ''override''
    \<Longrightarrow> \<not> requires_ack info"
  by (simp add: requires_ack_def)

text \<open>A closed market is always a stale one, whatever the configuration, unless its refresh is negative.\<close>

lemma closed_is_stale:
  assumes "0 \<le> cf_gold_refresh_minutes cf" "get_current_gold_rate cf d = Inr (info, d')" "ri_market_closed info"
  shows "ri_is_stale info"
proof -
  have r: "0 < refresh_min cf" using assms(1) by (simp add: refresh_min_def or_int_def)
  then have "stale_threshold cf \<le> closed_threshold cf" by (simp add: closed_threshold_def stale_threshold_def)
  then have "stale_threshold cf * us_per_second \<le> closed_threshold cf * us_per_second" by (simp add: us_per_second_def)
  then show ?thesis
    using assms(2,3) by (auto simp: get_current_gold_rate_def live_rate_def override_rate_def read_clock_def Let_def
        split: option.splits)
qed

lemma stale_trade_needs_ack:
  assumes "assert_rate_acceptable info ack d = Inr (u, d')" "ri_market_closed info" "ri_source info \<noteq> ''override''"
  obtains a where "ack = Some a" "\<bar>as_utc a - ri_fetched_at info\<bar> < us_per_second"
  using assms
  by (cases ack) (auto simp: assert_rate_acceptable_def requires_ack_def ACK_TOLERANCE_def read_clock_def Let_def res_simps)

section \<open>Order numbers and item codes\<close>

definition same_day :: "instant \<Rightarrow> instant option \<Rightarrow> bool" where
  "same_day now t = (case t of None \<Rightarrow> False | Some x \<Rightarrow> date_of x = date_of now)"

definition generate_order_number :: "db \<Rightarrow> instant \<Rightarrow> string" where
  "generate_order_number d now =
     ''ORD-'' @ day_key (date_of now) @ ''-''
       @ zpad 3 (int (length (filter (\<lambda>o'. same_day now (or_created_at o')) (orders d))) + 1)"

fun KARAT_LABEL :: "karat \<Rightarrow> string" where
  "KARAT_LABEL K18 = ''18K''"
| "KARAT_LABEL K21 = ''21K''"
| "KARAT_LABEL K22 = ''22K''"
| "KARAT_LABEL K24 = ''24K''"

text \<open>The last code with a prefix, in the order of strings, and the code after it.\<close>

definition last_code :: "string \<Rightarrow> string list \<Rightarrow> string option" where
  "last_code prefix codes =
     (case sort (filter (\<lambda>c. take (length prefix) c = prefix) codes) of [] \<Rightarrow> None | c # cs \<Rightarrow> Some (last (c # cs)))"

text \<open>\<open>int(s)\<close> of a string of digits.\<close>

definition int_of :: "string \<Rightarrow> int res" where
  "int_of s =
     (if s \<noteq> [] \<and> list_all (\<lambda>x. (48 :: int) \<le> of_char x \<and> of_char x \<le> (57 :: int)) s then Inr (int_of_str s)
      else Inl (ValueError (Msg ''invalid literal for int() with base 10: {}'' [AStr (quoted s)])))"

definition next_code :: "(string \<Rightarrow> string) \<Rightarrow> string \<Rightarrow> string list \<Rightarrow> string res" where
  "next_code num prefix codes =
     bnd (case last_code prefix codes of None \<Rightarrow> Inr 0 | Some c \<Rightarrow> int_of (num c)) (\<lambda>last_num.
     Inr (prefix @ zpad 4 (last_num + 1)))"

text \<open>\<open>last_code.split("-")[2]\<close> of a code with a prefix of two dashes, and \<open>rsplit("-", 1)[-1]\<close>.\<close>

definition third_part :: "string \<Rightarrow> string" where
  "third_part c = takeWhile (\<lambda>x. x \<noteq> CHR ''-'')
     (drop 1 (dropWhile (\<lambda>x. x \<noteq> CHR ''-'') (drop 1 (dropWhile (\<lambda>x. x \<noteq> CHR ''-'') c))))"

definition last_part :: "string \<Rightarrow> string" where
  "last_part c = rev (takeWhile (\<lambda>x. x \<noteq> CHR ''-'') (rev c))"

definition generate_item_code :: "db \<Rightarrow> karat \<Rightarrow> string res" where
  "generate_item_code d k = next_code third_part (''FN-'' @ KARAT_LABEL k @ ''-'') (map pr_code (products d))"

definition generate_unit_code :: "db \<Rightarrow> string \<Rightarrow> karat \<Rightarrow> string res" where
  "generate_unit_code d kind k =
     (if kind = ''COIN'' then next_code last_part (''FN-COIN-'' @ KARAT_LABEL k @ ''-'') (map co_code (coin_types d))
      else if kind = ''OUNCE'' then next_code last_part (''FN-OZ-'' @ KARAT_LABEL k @ ''-'') (map oz_code (ounce_types d))
      else Inl (ValueError (Msg ''unknown unit kind {}'' [AStr (quoted kind)])))"

end
