(* ===== verification/Orders.thy ===== *)
theory Orders
  imports GoldRate Receivables
begin

text \<open>
  \<open>app/api/orders.py\<close>: checkout of products, coins and ounce bars, voids, refunds of a whole
  order and of part of a line. A handler takes what its dependencies inject: the settings
  row, the configuration of the rate, the user. The coin and ounce branches share their code
  in the source through the variable \<open>Model\<close>; here through a view of the two tables.
\<close>

definition EVENT_SALE_PRODUCT :: string where "EVENT_SALE_PRODUCT = ''SALE_PRODUCT''"
definition EVENT_SALE_COIN :: string where "EVENT_SALE_COIN = ''SALE_COIN''"
definition EVENT_SALE_OUNCE :: string where "EVENT_SALE_OUNCE = ''SALE_OUNCE''"
definition EVENT_ORDER_VOID :: string where "EVENT_ORDER_VOID = ''ORDER_VOID''"
definition EVENT_ORDER_ITEM_REFUND :: string where "EVENT_ORDER_ITEM_REFUND = ''ORDER_ITEM_REFUND''"

definition COIN_OUNCE_QTY_CAP :: int where "COIN_OUNCE_QTY_CAP = 100"

fun order_status_value :: "order_status \<Rightarrow> string" where
  "order_status_value COMPLETED = ''COMPLETED''"
| "order_status_value REFUNDED = ''REFUNDED''"
| "order_status_value PARTIALLY_REFUNDED = ''PARTIALLY_REFUNDED''"
| "order_status_value VOIDED = ''VOIDED''"

fun payment_method_value :: "payment_method \<Rightarrow> string" where
  "payment_method_value PAY_CASH = ''CASH''"
| "payment_method_value PAY_CARD = ''CARD''"
| "payment_method_value PAY_MIXED = ''MIXED''"
| "payment_method_value PAY_CREDIT = ''CREDIT''"

definition payment_methods :: "payment_method list" where
  "payment_methods = [PAY_CASH, PAY_CARD, PAY_MIXED, PAY_CREDIT]"

fun order_item_kind_value :: "order_item_kind \<Rightarrow> string" where
  "order_item_kind_value ITEM_PRODUCT = ''PRODUCT''"
| "order_item_kind_value ITEM_COIN = ''COIN''"
| "order_item_kind_value ITEM_OUNCE = ''OUNCE''"

fun margin_mode_value :: "margin_mode \<Rightarrow> string" where
  "margin_mode_value MARGIN_USD = ''USD''"
| "margin_mode_value MARGIN_PERCENT = ''PERCENT''"

text \<open>\<open>not s\<close> of an optional string\<close>

definition falsy :: "string option \<Rightarrow> bool" where
  "falsy s \<longleftrightarrow> s = None \<or> s = Some []"

section \<open>Coins and ounce bars\<close>

record unit_type =
  ut_id :: string
  ut_code :: string
  ut_name_en :: string
  ut_karat :: karat
  ut_weight_grams :: dec
  ut_markup_per_gram :: dec
  ut_margin_mode :: margin_mode
  ut_margin_value :: dec
  ut_on_hand_qty :: int
  ut_is_active :: bool

definition coin_view :: "coin_type \<Rightarrow> unit_type" where
  "coin_view c = \<lparr>ut_id = co_id c, ut_code = co_code c, ut_name_en = co_name_en c, ut_karat = co_karat c,
     ut_weight_grams = co_weight_grams c, ut_markup_per_gram = co_markup_per_gram c, ut_margin_mode = co_margin_mode c,
     ut_margin_value = co_margin_value c, ut_on_hand_qty = co_on_hand_qty c, ut_is_active = co_is_active c\<rparr>"

definition ounce_view :: "ounce_type \<Rightarrow> unit_type" where
  "ounce_view z = \<lparr>ut_id = oz_id z, ut_code = oz_code z, ut_name_en = oz_name_en z, ut_karat = oz_karat z,
     ut_weight_grams = oz_weight_grams z, ut_markup_per_gram = oz_markup_per_gram z, ut_margin_mode = oz_margin_mode z,
     ut_margin_value = oz_margin_value z, ut_on_hand_qty = oz_on_hand_qty z, ut_is_active = oz_is_active z\<rparr>"

definition unit_rows :: "bool \<Rightarrow> db \<Rightarrow> unit_type list" where
  "unit_rows is_coin d = (if is_coin then map coin_view (coin_types d) else map ounce_view (ounce_types d))"

definition find_unit :: "bool \<Rightarrow> string \<Rightarrow> db \<Rightarrow> unit_type option res" where
  "find_unit is_coin i d = scalar_one_or_none (\<lambda>u. ut_id u = i) (unit_rows is_coin d)"

definition set_unit_qty :: "bool \<Rightarrow> string \<Rightarrow> int \<Rightarrow> db \<Rightarrow> db" where
  "set_unit_qty is_coin i q d =
     (if is_coin then d\<lparr>coin_types := upd_rows (\<lambda>c. co_id c = i) (\<lambda>c. c\<lparr>co_on_hand_qty := q\<rparr>) (coin_types d)\<rparr>
      else d\<lparr>ounce_types := upd_rows (\<lambda>z. oz_id z = i) (\<lambda>z. z\<lparr>oz_on_hand_qty := q\<rparr>) (ounce_types d)\<rparr>)"

definition kind_label :: "bool \<Rightarrow> string" where
  "kind_label is_coin = (if is_coin then ''coin_type'' else ''ounce_type'')"

section \<open>Checkout\<close>

record order_line_in =
  ol_item_kind :: string
  ol_product_id :: "string option"
  ol_coin_type_id :: "string option"
  ol_ounce_type_id :: "string option"
  ol_quantity :: int

record checkout_request =
  cr_items :: "order_line_in list"
  cr_payment_method :: string
  cr_customer_name :: "string option"
  cr_customer_id :: "string option"
  cr_discount_percent :: dec
  cr_stale_rate_ack :: "stale_rate_ack option"

text \<open>A ledger record to be written once the order has its id.\<close>

record pending_event =
  pe_event_type :: string
  pe_ref_type :: string
  pe_ref_id :: string
  pe_payload :: "(string \<times> pyval) list"

definition karat_markup :: "settings \<Rightarrow> karat \<Rightarrow> dec" where
  "karat_markup s k = (case k of K18 \<Rightarrow> markup_k18 s | K21 \<Rightarrow> markup_k21 s | K24 \<Rightarrow> markup_k24 s | K22 \<Rightarrow> 0)"

definition product_price :: "settings \<Rightarrow> dec \<Rightarrow> product \<Rightarrow> dec" where
  "product_price s rate p =
     px_final_price (calculate_price rate (pr_karat p) (pr_weight_grams p) (pr_margin_percent p) (pr_making_charge p)
       (karat_markup s (pr_karat p)) (or_zero (pr_stone_value_usd p)))"

definition product_item :: "product \<Rightarrow> dec \<Rightarrow> int \<Rightarrow> dec \<Rightarrow> order_item" where
  "product_item p rate qty line_total =
     \<lparr>oi_id = [], oi_order_id = [], oi_item_kind = ITEM_PRODUCT, oi_product_id = Some (pr_id p),
      oi_coin_type_id = None, oi_ounce_type_id = None, oi_quantity = qty, oi_product_code = pr_code p,
      oi_product_name = pr_name_en p, oi_karat = pr_karat p, oi_weight_grams = pr_weight_grams p,
      oi_gold_rate_at_sale = rate, oi_margin_percent = pr_margin_percent p, oi_making_charge = pr_making_charge p,
      oi_final_price = line_total, oi_cost_basis_usd = None, oi_stone_value_at_sale = pr_stone_value_usd p,
      oi_stone_cost_at_sale = pr_stone_cost_usd p, oi_refunded_qty = 0, oi_refunded_amount = 0, oi_refunded_at = None\<rparr>"

definition sell_product :: "product \<Rightarrow> int \<Rightarrow> product" where
  "sell_product p qty =
     (let p = p\<lparr>pr_on_hand_qty := pr_on_hand_qty p - qty\<rparr>
      in p\<lparr>pr_status := (if pr_on_hand_qty p = 0 then SOLD else AVAILABLE)\<rparr>)"

definition stone_text :: "dec option \<Rightarrow> string" where
  "stone_text v = (case v of None \<Rightarrow> ''0'' | Some x \<Rightarrow> if x = 0 then ''0'' else str_dec 2 x)"

definition insufficient :: "string \<Rightarrow> int \<Rightarrow> int \<Rightarrow> err" where
  "insufficient code requested on_hand =
     HTTPException 409 (Msg ''Insufficient stock for {}: requested {}, on hand {}'' [AStr code, AInt requested, AInt on_hand])"

definition checkout_product_line ::
    "order_line_in \<Rightarrow> dec \<Rightarrow> settings \<Rightarrow> db \<Rightarrow> (order_item \<times> dec \<times> pending_event \<times> db) res" where
  "checkout_product_line line rate s d =
     raise_if (falsy (ol_product_id line)) (HTTPException 400 (Msg ''PRODUCT line requires product_id'' []))
    (raise_if (ol_quantity line < 1) (HTTPException 400 (Msg ''quantity must be >= 1'' []))
    (let i = the (ol_product_id line); qty = ol_quantity line in
     bnd (fetch (HTTPException 400 (Msg ''Invalid product {}'' [AStr i])) (\<lambda>p. pr_id p = i) (products d)) (\<lambda>p.
         raise_if (\<not> pr_is_active p) (HTTPException 400 (Msg ''Invalid product {}'' [AStr i]))
        (raise_if (pr_status p = MELTED \<or> pr_status p = INACTIVE)
           (HTTPException 409 (Msg ''Product {} is not available (status={})''
              [AStr (pr_code p), AStr (product_status_value (pr_status p))]))
        (raise_if (pr_on_hand_qty p < qty) (insufficient (pr_code p) qty (pr_on_hand_qty p))
        (let price = product_price s rate p; line_total = dmul price (of_int qty);
             item = product_item p rate qty line_total; p = sell_product p qty; d = put_product p d;
             ev = \<lparr>pe_event_type = EVENT_SALE_PRODUCT, pe_ref_type = ''product'', pe_ref_id = pr_id p,
                   pe_payload = [(''product_code'', PStr (pr_code p)), (''karat'', PStr (karat_value (pr_karat p))),
                     (''weight_grams'', PStr (str_dec 3 (pr_weight_grams p))), (''quantity'', PInt qty),
                     (''unit_price'', PStr (str_dec 2 price)), (''line_total'', PStr (str_dec 2 line_total)),
                     (''gold_rate_at_sale'', PStr (float_text rate)), (''stone_value'', PStr (stone_text (pr_stone_value_usd p))),
                     (''qty_after'', PInt (pr_on_hand_qty p)), (''status_after'', PStr (product_status_value (pr_status p)))]\<rparr> in
         bnd (cogs_cost_for_item d item qty) (\<lambda>cost.
         Inr (item\<lparr>oi_cost_basis_usd := Some cost\<rparr>, line_total, ev, d))))))))"

definition unit_item :: "bool \<Rightarrow> unit_type \<Rightarrow> dec \<Rightarrow> int \<Rightarrow> dec \<Rightarrow> order_item" where
  "unit_item is_coin u rate qty line_total =
     \<lparr>oi_id = [], oi_order_id = [], oi_item_kind = (if is_coin then ITEM_COIN else ITEM_OUNCE), oi_product_id = None,
      oi_coin_type_id = (if is_coin then Some (ut_id u) else None),
      oi_ounce_type_id = (if \<not> is_coin then Some (ut_id u) else None), oi_quantity = qty, oi_product_code = ut_code u,
      oi_product_name = ut_name_en u, oi_karat = ut_karat u, oi_weight_grams = ut_weight_grams u,
      oi_gold_rate_at_sale = rate,
      oi_margin_percent = (if ut_margin_mode u = MARGIN_PERCENT then ut_margin_value u else 0), oi_making_charge = 0,
      oi_final_price = line_total, oi_cost_basis_usd = None, oi_stone_value_at_sale = None,
      oi_stone_cost_at_sale = None, oi_refunded_qty = 0, oi_refunded_amount = 0, oi_refunded_at = None\<rparr>"

definition checkout_unit_line ::
    "order_line_in \<Rightarrow> dec \<Rightarrow> db \<Rightarrow> (order_item \<times> dec \<times> pending_event \<times> db) res" where
  "checkout_unit_line line rate d =
     (let is_coin = (ol_item_kind line = ''COIN'');
          type_id = (if is_coin then ol_coin_type_id line else ol_ounce_type_id line); qty = ol_quantity line in
      raise_if (falsy type_id) (HTTPException 400 (Msg ''{} line requires {}''
          [AStr (ol_item_kind line), AStr (if is_coin then ''coin_type_id'' else ''ounce_type_id'')]))
     (raise_if (qty < 1) (HTTPException 400 (Msg ''quantity must be >= 1'' []))
     (raise_if (COIN_OUNCE_QTY_CAP < qty) (HTTPException 422 (Msg ''quantity must be <= {} per line'' [AInt COIN_OUNCE_QTY_CAP]))
     (bnd (or_raise (HTTPException 400 (Msg ''Invalid {} {}'' [AStr (kind_label is_coin), AStr (the type_id)]))
             (find_unit is_coin (the type_id) d)) (\<lambda>u.
          raise_if (\<not> ut_is_active u)
            (HTTPException 400 (Msg ''Invalid {} {}'' [AStr (kind_label is_coin), AStr (the type_id)]))
         (raise_if (ut_on_hand_qty u < qty) (insufficient (ut_code u) qty (ut_on_hand_qty u))
         (bnd (calculate_unit_price rate (ut_weight_grams u) (ut_markup_per_gram u)
                 (margin_mode_value (ut_margin_mode u)) (ut_margin_value u)) (\<lambda>priced.
          let price = ux_final_price priced; line_total = dmul price (of_int qty);
              item = unit_item is_coin u rate qty line_total; after = ut_on_hand_qty u - qty;
              d = set_unit_qty is_coin (ut_id u) after d;
              ev = \<lparr>pe_event_type = (if is_coin then EVENT_SALE_COIN else EVENT_SALE_OUNCE),
                    pe_ref_type = kind_label is_coin, pe_ref_id = ut_id u,
                    pe_payload = [(''code'', PStr (ut_code u)), (''quantity'', PInt qty),
                      (''unit_price'', PStr (str_dec 2 price)), (''line_total'', PStr (str_dec 2 line_total)),
                      (''gold_rate_at_sale'', PStr (float_text rate)), (''qty_after'', PInt after)]\<rparr> in
          bnd (cogs_cost_for_item d item qty) (\<lambda>cost.
          Inr (item\<lparr>oi_cost_basis_usd := Some cost\<rparr>, line_total, ev, d))))))))))"

definition checkout_line ::
    "settings \<Rightarrow> dec \<Rightarrow> order_line_in \<Rightarrow> db \<Rightarrow> (order_item \<times> dec \<times> pending_event \<times> db) res" where
  "checkout_line s rate line d =
     (if ol_item_kind line = ''PRODUCT'' then checkout_product_line line rate s d
      else if ol_item_kind line = ''COIN'' \<or> ol_item_kind line = ''OUNCE'' then checkout_unit_line line rate d
      else Inl (HTTPException 400 (Msg ''Unknown item_kind {}'' [AStr (quoted (ol_item_kind line))])))"

text \<open>The loop over the cart: items, subtotal, events, the database.\<close>

fun checkout_lines ::
    "settings \<Rightarrow> dec \<Rightarrow> order_line_in list \<Rightarrow> db \<Rightarrow> (order_item list \<times> dec \<times> pending_event list \<times> db) res" where
  "checkout_lines s rate [] d = Inr ([], 0, [], d)"
| "checkout_lines s rate (l # ls) d =
     bnd (checkout_line s rate l d) (\<lambda>(item, line_total, ev, d).
     bnd (checkout_lines s rate ls d) (\<lambda>(items, subtotal, evs, d).
     Inr (item # items, line_total + subtotal, ev # evs, d)))"


record order_totals =
  ot_vat_amount :: dec
  ot_discount_amount :: dec
  ot_total_usd :: dec
  ot_total_lbp :: dec

text \<open>VAT on the subtotal before the discount; the discount off the total.\<close>

definition checkout_totals :: "settings \<Rightarrow> dec \<Rightarrow> dec \<Rightarrow> order_totals" where
  "checkout_totals s subtotal discount_percent =
     (let vat_amount = q_money (dquot (dmul subtotal (vat_percent s)) 100);
          discount_amount = q_money (dquot (dmul subtotal discount_percent) 100);
          total_usd = subtotal + vat_amount - discount_amount
      in \<lparr>ot_vat_amount = vat_amount, ot_discount_amount = discount_amount, ot_total_usd = total_usd,
          ot_total_lbp = q_money (dmul total_usd (lbp_exchange_rate s))\<rparr>)"

definition check_discount :: "settings \<Rightarrow> dec \<Rightarrow> unit res" where
  "check_discount s discount_percent =
     raise_if (discount_percent < 0) (HTTPException 422 (Msg ''discount_percent must be >= 0'' []))
    (raise_if (max_discount_percent s < discount_percent)
       (HTTPException 422 (Msg ''Discount {}% exceeds the maximum allowed {}%''
          [ADec discount_percent, ADec (max_discount_percent s)]))
    (Inr ()))"

definition check_credit_sale :: "checkout_request \<Rightarrow> dec \<Rightarrow> db \<Rightarrow> unit res" where
  "check_credit_sale b total_usd d =
     (if cr_payment_method b = ''CREDIT'' then
        raise_if (falsy (cr_customer_id b)) (HTTPException 422 (Msg ''Credit sale requires a customer_id'' []))
       (bnd (fetch (HTTPException 404 (Msg ''Customer not found'' []))
               (\<lambda>c. Some (cu_id c) = cr_customer_id b) (customers d)) (\<lambda>c. check_credit_limit d c total_usd))
      else Inr ())"

text \<open>\<open>db.add(order)\<close> and its flush: the order, then its items, get their keys.\<close>

fun number_items :: "string \<Rightarrow> order_item list \<Rightarrow> db \<Rightarrow> order_item list \<times> db" where
  "number_items oid [] d = ([], d)"
| "number_items oid (it # its) d =
     (let (k, d) = fresh_uid d; (its, d) = number_items oid its d in (it\<lparr>oi_id := k, oi_order_id := oid\<rparr> # its, d))"

text \<open>A foreign key that is set and points nowhere.\<close>

definition dangling :: "string option \<Rightarrow> string list \<Rightarrow> bool" where
  "dangling r keys = (case r of None \<Rightarrow> False | Some k \<Rightarrow> k \<notin> set keys)"

definition add_order :: "order \<Rightarrow> db \<Rightarrow> (order \<times> db) res" where
  "add_order o' d =
     raise_if (or_order_number o' \<in> set (map or_order_number (orders d))) (IntegrityError ''orders.order_number'')
    (raise_if (dangling (or_customer_id o') (map cu_id (customers d))) (IntegrityError ''orders.customer_id'')
    (let (k, d) = fresh_uid d; (its, d) = number_items k (or_items o') d; (now, d) = read_clock d;
         o' = o'\<lparr>or_id := k, or_items := its, or_created_at := Some now\<rparr>
     in Inr (o', d\<lparr>orders := orders d @ [o']\<rparr>)))"

definition put_order :: "order \<Rightarrow> db \<Rightarrow> db" where
  "put_order o' d = d\<lparr>orders := upd_rows (\<lambda>x. or_id x = or_id o') (\<lambda>_. o') (orders d)\<rparr>"

definition write_event :: "(string \<Rightarrow> string) \<Rightarrow> string \<Rightarrow> (string \<times> pyval) list \<Rightarrow> pending_event \<Rightarrow> db \<Rightarrow> db res" where
  "write_event sha actor extra ev d =
     bnd (ledger_record sha (pe_event_type ev) actor (pe_ref_type ev) (pe_ref_id ev) (PDict (pe_payload ev @ extra)) d)
       (\<lambda>(_, d). Inr d)"

definition new_order ::
    "checkout_request \<Rightarrow> settings \<Rightarrow> string \<Rightarrow> string \<Rightarrow> payment_method \<Rightarrow> order_item list \<Rightarrow> dec \<Rightarrow> order_totals \<Rightarrow> order" where
  "new_order b s user_id order_number m items subtotal t =
     \<lparr>or_id = [], or_order_number = order_number, or_status = COMPLETED, or_payment_method = m,
      or_customer_name = cr_customer_name b, or_customer_id = cr_customer_id b, or_cashier_id = user_id,
      or_subtotal = subtotal, or_vat_percent = vat_percent s, or_vat_amount = ot_vat_amount t,
      or_discount_percent = cr_discount_percent b, or_discount_amount = ot_discount_amount t,
      or_total_usd = ot_total_usd t, or_total_lbp = ot_total_lbp t, or_lbp_exchange_rate = lbp_exchange_rate s,
      or_voided_at = None, or_voided_by = None, or_void_reason = None, or_created_at = None, or_items = items\<rparr>"

definition parse_payment_method :: "string \<Rightarrow> payment_method res" where
  "parse_payment_method s = (case member_of payment_method_value payment_methods s of
      None \<Rightarrow> Inl (ValueError (Msg ''{} is not a valid PaymentMethod'' [AStr (quoted s)]))
    | Some m \<Rightarrow> Inr m)"

text \<open>What follows once the order is stored: its events, the acknowledgement, the books, the invoice.\<close>

definition finish_order ::
    "(string \<Rightarrow> string) \<Rightarrow> settings \<Rightarrow> rate_info \<Rightarrow> checkout_request \<Rightarrow> string \<Rightarrow> pending_event list \<Rightarrow> order \<Rightarrow> db
     \<Rightarrow> (order \<times> db) res" where
  "finish_order sha s info b user_id evs o' d =
     bnd (fold_res (write_event sha user_id [(''order_id'', PStr (or_id o')), (''order_number'', PStr (or_order_number o'))])
            evs d) (\<lambda>d.
     bnd (record_stale_rate_ack sha user_id info ''order'' (or_id o') ''ORDER'' (cr_stale_rate_ack b) d) (\<lambda>d.
     bnd (post_sale sha o' s user_id d) (\<lambda>(sale_entry, d).
     if or_payment_method o' = PAY_CREDIT
     then bnd (create_invoice_from_order o' (the (or_customer_id o')) sale_entry user_id d) (\<lambda>(_, d). Inr (o', d))
     else Inr (o', d))))"

definition create_order ::
    "(string \<Rightarrow> string) \<Rightarrow> rate_config \<Rightarrow> settings option \<Rightarrow> checkout_request \<Rightarrow> string \<Rightarrow> db \<Rightarrow> (order \<times> db) res" where
  "create_order sha cf st b user_id d =
     (case st of
        None \<Rightarrow> Inl (HTTPException 500 (Msg ''Settings not configured'' []))
      | Some s \<Rightarrow>
        raise_if (cr_items b = []) (HTTPException 400 (Msg ''Order must have at least one item'' []))
       (bnd (get_current_gold_rate cf d) (\<lambda>(info, d).
        bnd (assert_rate_acceptable info (cr_stale_rate_ack b) d) (\<lambda>(_, d).
        let rate = ri_rate info; (now, d) = read_clock d; order_number = generate_order_number d now in
        bnd (checkout_lines s rate (cr_items b) d) (\<lambda>(items, subtotal, evs, d).
        bnd (check_discount s (cr_discount_percent b)) (\<lambda>_.
        let t = checkout_totals s subtotal (cr_discount_percent b) in
        bnd (check_credit_sale b (ot_total_usd t) d) (\<lambda>_.
        bnd (parse_payment_method (cr_payment_method b)) (\<lambda>m.
        bnd (add_order (new_order b s user_id order_number m items subtotal t) d) (\<lambda>(o', d).
        finish_order sha s info b user_id evs o' d)))))))))"

section \<open>Voids and refunds\<close>

text \<open>Taking units of a line back into stock: what the event says about it, if the row is there.\<close>

definition return_product :: "string \<Rightarrow> int \<Rightarrow> db \<Rightarrow> ((string \<times> (string \<times> pyval) list) option \<times> db) res" where
  "return_product i qty d =
     bnd (scalar_one_or_none (\<lambda>p. pr_id p = i) (products d)) (\<lambda>row. case row of
       None \<Rightarrow> Inr (None, d)
     | Some p \<Rightarrow>
         if pr_status p = MELTED \<or> pr_status p = INACTIVE then Inr (None, d)
         else let p = p\<lparr>pr_on_hand_qty := pr_on_hand_qty p + qty, pr_status := AVAILABLE\<rparr> in
           Inr (Some (pr_id p, [(''product_code'', PStr (pr_code p)), (''quantity_returned'', PInt qty),
                                (''qty_after'', PInt (pr_on_hand_qty p)), (''status_after'', PStr ''AVAILABLE'')]),
                put_product p d))"

definition return_unit :: "bool \<Rightarrow> string \<Rightarrow> int \<Rightarrow> db \<Rightarrow> ((string \<times> (string \<times> pyval) list) option \<times> db) res" where
  "return_unit is_coin i qty d =
     bnd (find_unit is_coin i d) (\<lambda>row. case row of
       None \<Rightarrow> Inr (None, d)
     | Some u \<Rightarrow> let after = ut_on_hand_qty u + qty in
         Inr (Some (ut_id u, [(''code'', PStr (ut_code u)), (''quantity_returned'', PInt qty), (''qty_after'', PInt after)]),
              set_unit_qty is_coin (ut_id u) after d))"

definition return_stock :: "order_item \<Rightarrow> int \<Rightarrow> db \<Rightarrow> ((string \<times> (string \<times> pyval) list) option \<times> db) res" where
  "return_stock it qty d =
     (case oi_item_kind it of
        ITEM_PRODUCT \<Rightarrow> if falsy (oi_product_id it) then Inr (None, d) else return_product (the (oi_product_id it)) qty d
      | ITEM_COIN \<Rightarrow> if falsy (oi_coin_type_id it) then Inr (None, d) else return_unit True (the (oi_coin_type_id it)) qty d
      | ITEM_OUNCE \<Rightarrow> if falsy (oi_ounce_type_id it) then Inr (None, d) else return_unit False (the (oi_ounce_type_id it)) qty d)"

fun item_ref_type :: "order_item_kind \<Rightarrow> string" where
  "item_ref_type ITEM_PRODUCT = ''product''"
| "item_ref_type ITEM_COIN = ''coin_type''"
| "item_ref_type ITEM_OUNCE = ''ounce_type''"

fun item_reversal :: "order_item_kind \<Rightarrow> string" where
  "item_reversal ITEM_PRODUCT = ''SALE_PRODUCT''"
| "item_reversal ITEM_COIN = ''SALE_COIN''"
| "item_reversal ITEM_OUNCE = ''SALE_OUNCE''"

fun return_lines :: "order_item list \<Rightarrow> db \<Rightarrow> (pending_event list \<times> db) res" where
  "return_lines [] d = Inr ([], d)"
| "return_lines (it # its) d =
     bnd (return_stock it (oi_quantity it) d) (\<lambda>(back, d).
     bnd (return_lines its d) (\<lambda>(evs, d).
     case back of
       None \<Rightarrow> Inr (evs, d)
     | Some (ref_id, payload) \<Rightarrow>
         Inr (\<lparr>pe_event_type = EVENT_ORDER_VOID, pe_ref_type = item_ref_type (oi_item_kind it), pe_ref_id = ref_id,
               pe_payload = payload @ [(''reversal_of'', PStr (item_reversal (oi_item_kind it)))]\<rparr> # evs, d)))"

text \<open>The reversal in the books, when there is a settings row.\<close>

definition refund_books ::
    "(string \<Rightarrow> string) \<Rightarrow> settings option \<Rightarrow> order \<Rightarrow> string \<Rightarrow> order_item option \<Rightarrow> dec \<Rightarrow> int option \<Rightarrow> int \<Rightarrow> db \<Rightarrow> db res" where
  "refund_books sha st o' user_id it refund_value refund_qty refund_seq d =
     (case st of
        None \<Rightarrow> Inr d
      | Some s \<Rightarrow> bnd (post_order_refund sha o' s user_id it refund_value refund_qty refund_seq None d) (\<lambda>(_, d). Inr d))"

definition find_order :: "string \<Rightarrow> db \<Rightarrow> order res" where
  "find_order i d =
     bnd (fetch (HTTPException 404 (Msg ''Order not found'' [])) (\<lambda>x. or_id x = i) (orders d)) (\<lambda>o'. Inr o')"

definition void_order ::
    "(string \<Rightarrow> string) \<Rightarrow> settings option \<Rightarrow> string \<Rightarrow> string \<Rightarrow> string \<Rightarrow> db \<Rightarrow> (order \<times> db) res" where
  "void_order sha st order_id reason user_id d =
     bnd (find_order order_id d) (\<lambda>o'.
     raise_if (or_status o' = VOIDED) (HTTPException 400 (Msg ''Order already voided'' []))
    (raise_if (or_status o' = PARTIALLY_REFUNDED \<or> or_status o' = REFUNDED)
       (HTTPException 400 (Msg ''Cannot void a refunded or partially-refunded order; refund the remaining items instead'' []))
    (bnd (return_lines (or_items o') d) (\<lambda>(evs, d).
     let (now, d) = read_clock d;
         o' = o'\<lparr>or_status := VOIDED, or_voided_at := Some now, or_voided_by := Some user_id, or_void_reason := Some reason\<rparr>;
         d = put_order o' d in
     bnd (ledger_record sha EVENT_ORDER_VOID user_id ''order'' (or_id o')
            (PDict [(''order_number'', PStr (or_order_number o')), (''reason'', PStr reason),
                    (''items_reversed'', PInt (int (length evs)))]) d) (\<lambda>(_, d).
     bnd (fold_res (write_event sha user_id [(''voided_order_id'', PStr (or_id o')),
             (''voided_order_number'', PStr (or_order_number o'))]) evs d) (\<lambda>d.
     bnd (refund_books sha st o' user_id None 0 None 0 d) (\<lambda>d. Inr (o', d))))))))"

definition refund_order :: "(string \<Rightarrow> string) \<Rightarrow> settings option \<Rightarrow> string \<Rightarrow> string \<Rightarrow> db \<Rightarrow> (order \<times> db) res" where
  "refund_order sha st order_id user_id d =
     bnd (find_order order_id d) (\<lambda>o'.
     raise_if (or_status o' \<noteq> COMPLETED) (HTTPException 400 (Msg ''Only completed orders can be refunded'' []))
    (let o' = o'\<lparr>or_status := REFUNDED\<rparr>; d = put_order o' d in
     bnd (refund_books sha st o' user_id None 0 None 0 d) (\<lambda>d. Inr (o', d))))"

definition recompute_order_totals :: "order \<Rightarrow> order" where
  "recompute_order_totals o' =
     (let remaining = sum_of (\<lambda>it. oi_final_price it - oi_refunded_amount it) (or_items o');
          vat_amount = q_money (dquot (dmul remaining (or_vat_percent o')) 100);
          discount_amount = q_money (dquot (dmul remaining (or_discount_percent o')) 100);
          total_usd = remaining + vat_amount - discount_amount
      in o'\<lparr>or_subtotal := q_money remaining, or_vat_amount := vat_amount, or_discount_amount := discount_amount,
            or_total_usd := q_money total_usd, or_total_lbp := q_money (dmul total_usd (or_lbp_exchange_rate o'))\<rparr>)"

definition item_refund_value :: "order_item \<Rightarrow> int \<Rightarrow> dec" where
  "item_refund_value it qty =
     (let unit_value = (if oi_quantity it \<noteq> 0 then dquot (oi_final_price it) (of_int (oi_quantity it)) else oi_final_price it)
      in q_money (dmul unit_value (of_int qty)))"

definition refund_item :: "order_item \<Rightarrow> int \<Rightarrow> instant \<Rightarrow> order_item" where
  "refund_item it qty now =
     it\<lparr>oi_refunded_qty := oi_refunded_qty it + qty,
        oi_refunded_amount := q_money (oi_refunded_amount it + item_refund_value it qty), oi_refunded_at := Some now\<rparr>"

definition put_item :: "order_item \<Rightarrow> order \<Rightarrow> order" where
  "put_item it o' = o'\<lparr>or_items := upd_rows (\<lambda>x. oi_id x = oi_id it) (\<lambda>_. it) (or_items o')\<rparr>"

definition fully_refunded :: "order \<Rightarrow> bool" where
  "fully_refunded o' \<longleftrightarrow> list_all (\<lambda>it. oi_quantity it \<le> oi_refunded_qty it) (or_items o')"

definition refund_qty_of :: "order_item \<Rightarrow> int option \<Rightarrow> int res" where
  "refund_qty_of it quantity =
     (let remaining = oi_quantity it - oi_refunded_qty it in
      raise_if (remaining \<le> 0) (HTTPException 400 (Msg ''This line item is already fully refunded'' []))
     (let qty = (case quantity of None \<Rightarrow> remaining | Some n \<Rightarrow> n) in
      raise_if (qty < 1) (HTTPException 422 (Msg ''quantity must be >= 1'' []))
     (raise_if (remaining < qty)
        (HTTPException 409 (Msg ''Cannot refund {}; only {} unit(s) remaining on this line'' [AInt qty, AInt remaining]))
      (Inr qty))))"

definition refund_order_item ::
    "(string \<Rightarrow> string) \<Rightarrow> settings option \<Rightarrow> string \<Rightarrow> string \<Rightarrow> int option \<Rightarrow> string \<Rightarrow> db \<Rightarrow> (order \<times> db) res" where
  "refund_order_item sha st order_id item_id quantity user_id d =
     bnd (find_order order_id d) (\<lambda>o'.
     raise_if (or_status o' \<noteq> COMPLETED \<and> or_status o' \<noteq> PARTIALLY_REFUNDED)
       (HTTPException 400 (Msg ''Only completed or partially-refunded orders can have items refunded'' []))
    (case find (\<lambda>it. oi_id it = item_id) (or_items o') of
       None \<Rightarrow> Inl (HTTPException 404 (Msg ''Order item not found on this order'' []))
     | Some it \<Rightarrow>
         bnd (refund_qty_of it quantity) (\<lambda>qty.
         bnd (return_stock it qty d) (\<lambda>(back, d).
         let refund_value = item_refund_value it qty; (now, d) = read_clock d;
             it = refund_item it qty now; total_before = or_total_usd o';
             o' = recompute_order_totals (put_item it o'); cash_refunded = q_money (total_before - or_total_usd o');
             o' = o'\<lparr>or_status := (if fully_refunded o' then REFUNDED else PARTIALLY_REFUNDED)\<rparr>; d = put_order o' d in
         bnd (ledger_record sha EVENT_ORDER_ITEM_REFUND user_id ''order_item'' (oi_id it)
                (PDict (dict_merge
                  [(''order_id'', PStr (or_id o')), (''order_number'', PStr (or_order_number o')),
                   (''item_kind'', PStr (order_item_kind_value (oi_item_kind it))), (''code'', PStr (oi_product_code it)),
                   (''refunded_qty'', PInt qty), (''refunded_qty_total'', PInt (oi_refunded_qty it)),
                   (''line_quantity'', PInt (oi_quantity it)), (''refund_amount'', PStr (str_dec 2 refund_value)),
                   (''cash_refunded_usd'', PStr (str_dec 2 cash_refunded)),
                   (''order_status_after'', PStr (order_status_value (or_status o'))),
                   (''order_total_usd_after'', PStr (str_dec 2 (or_total_usd o')))]
                  (case back of None \<Rightarrow> [] | Some (_, payload) \<Rightarrow> payload))) d) (\<lambda>(_, d).
         bnd (refund_books sha st o' user_id (Some it) refund_value (Some qty) (oi_refunded_qty it) d) (\<lambda>d.
         Inr (o', d)))))))"

end
