(* ===== verification/Walkin.thy ===== *)
theory Walkin
  imports Orders
begin

text \<open>
  What a walk-in sells the shop and what becomes of it: \<open>app/api/buybacks.py\<close> (pure gold into
  a new lot, coins and ounce bars into stock, used pieces kept aside), \<open>app/api/melts.py\<close> (a
  product or a used piece into a lot) and \<open>app/api/polish.py\<close> (a used piece into a product).
  The rows with a timestamp the database sets read its clock when they are flushed.
\<close>

definition EVENT_BUYBACK_PURE_GOLD :: string where "EVENT_BUYBACK_PURE_GOLD = ''BUYBACK_PURE_GOLD''"
definition EVENT_BUYBACK_COIN :: string where "EVENT_BUYBACK_COIN = ''BUYBACK_COIN''"
definition EVENT_BUYBACK_OUNCE :: string where "EVENT_BUYBACK_OUNCE = ''BUYBACK_OUNCE''"
definition EVENT_BUYBACK_USED_PRODUCT :: string where "EVENT_BUYBACK_USED_PRODUCT = ''BUYBACK_USED_PRODUCT''"
definition EVENT_MELT :: string where "EVENT_MELT = ''MELT''"
definition EVENT_POLISH :: string where "EVENT_POLISH = ''POLISH''"

fun buyback_kind_value :: "buyback_kind \<Rightarrow> string" where
  "buyback_kind_value BB_PURE_GOLD = ''PURE_GOLD''"
| "buyback_kind_value BB_COIN = ''COIN''"
| "buyback_kind_value BB_OUNCE = ''OUNCE''"
| "buyback_kind_value BB_USED_PRODUCT = ''USED_PRODUCT''"

definition buyback_kinds :: "buyback_kind list" where
  "buyback_kinds = [BB_PURE_GOLD, BB_COIN, BB_OUNCE, BB_USED_PRODUCT]"

fun buyback_margin_mode_value :: "buyback_margin_mode \<Rightarrow> string" where
  "buyback_margin_mode_value USD_PER_GRAM = ''USD_PER_GRAM''"
| "buyback_margin_mode_value BUYBACK_PERCENT = ''PERCENT''"

fun buyback_price_mode_value :: "buyback_price_mode \<Rightarrow> string" where
  "buyback_price_mode_value PRICE_FORMULA = ''FORMULA''"
| "buyback_price_mode_value PRICE_MANUAL = ''MANUAL''"

text \<open>\<open>s or dflt\<close> of an optional string\<close>

definition str_or :: "string option \<Rightarrow> string \<Rightarrow> string" where
  "str_or s dflt = (if falsy s then dflt else the s)"

section \<open>Buybacks\<close>

record buyback_in =
  bi_seller_name :: string
  bi_seller_phone :: string
  bi_kind :: string
  bi_karat :: "string option"
  bi_weight_grams :: "sdec option"
  bi_coin_type_id :: "string option"
  bi_ounce_type_id :: "string option"
  bi_quantity :: "int option"
  bi_manual_price :: "sdec option"
  bi_margin_mode :: "string option"
  bi_margin_value :: "dec option"
  bi_expected_rate :: "dec option"
  bi_notes :: "string option"
  bi_stale_rate_ack :: "stale_rate_ack option"

text \<open>What the request's schema checks.\<close>

definition buyback_in_valid :: "buyback_in \<Rightarrow> bool" where
  "buyback_in_valid b \<longleftrightarrow> bi_seller_name b \<noteq> [] \<and> bi_seller_phone b \<noteq> []
     \<and> (\<forall>w. bi_weight_grams b = Some w \<longrightarrow> 0 < snd w) \<and> (\<forall>n. bi_quantity b = Some n \<longrightarrow> 0 < n)
     \<and> (\<forall>p. bi_manual_price b = Some p \<longrightarrow> 0 \<le> snd p)"

definition check_rate_drift :: "dec \<Rightarrow> dec \<Rightarrow> dec \<Rightarrow> unit res" where
  "check_rate_drift current expected max_pct =
     (if expected \<le> 0 then Inr ()
      else let drift_pct = dmul (dquot \<bar>current - expected\<bar> expected) 100 in
        raise_if (max_pct < drift_pct)
          (HTTPException 409 (Msg ''Gold rate drifted {}% since quote (quoted {}, current {}, max {}%). Re-quote and confirm with seller.''
             [AStr (str_dec 2 (quantize 2 drift_pct)), ADec expected, ADec current, ADec max_pct]))
        (Inr ()))"

text \<open>The live quote: rate, purity rate, effective rate, price, with the margin it used.\<close>

definition quote_margin :: "settings \<Rightarrow> string option \<Rightarrow> dec option \<Rightarrow> string \<times> dec" where
  "quote_margin s margin_mode margin_value =
     (str_or margin_mode (buyback_margin_mode_value (default_buyback_margin_mode s)),
      case margin_value of Some v \<Rightarrow> v | None \<Rightarrow> default_buyback_margin_value s)"

definition buyback_quote ::
    "rate_config \<Rightarrow> settings option \<Rightarrow> string \<Rightarrow> dec \<Rightarrow> string option \<Rightarrow> dec option \<Rightarrow> db \<Rightarrow> ((rate_info \<times> buyback_price) \<times> db) res" where
  "buyback_quote cf st k weight margin_mode margin_value d =
     (case st of
        None \<Rightarrow> Inl (HTTPException 500 (Msg ''Settings singleton missing'' []))
      | Some s \<Rightarrow>
        bnd (get_current_gold_rate cf d) (\<lambda>(info, d).
        bnd (parse_karat k) (\<lambda>karat.
        let (m, v) = quote_margin s margin_mode margin_value in
        bnd (value_error_422 (compute_buyback_price (ri_rate info) karat weight m v)) (\<lambda>priced.
        Inr ((info, priced), d)))))"

definition buyback_margin_modes :: "buyback_margin_mode list" where
  "buyback_margin_modes = [USD_PER_GRAM, BUYBACK_PERCENT]"

definition resolve_margin ::
    "buyback_in \<Rightarrow> settings \<Rightarrow> (buyback_price_mode \<times> buyback_margin_mode option \<times> dec option) res" where
  "resolve_margin b s =
     (if bi_manual_price b \<noteq> None then Inr (PRICE_MANUAL, None, None)
      else let (mode_str, value) = quote_margin s (bi_margin_mode b) (bi_margin_value b) in
        bnd (parse_enum buyback_margin_mode_value buyback_margin_modes ''Invalid margin_mode {}'' mode_str) (\<lambda>mode.
        Inr (PRICE_FORMULA, Some mode, Some value)))"

text \<open>The price: by hand, or by formula for the quantity.\<close>

definition buy_price ::
    "buyback_in \<Rightarrow> buyback_price_mode \<times> buyback_margin_mode option \<times> dec option \<Rightarrow> dec \<Rightarrow> karat \<Rightarrow> dec \<Rightarrow> int option
     \<Rightarrow> sdec res" where
  "buy_price b margin rate k weight quantity =
     (case margin of (price_mode, mode, value) \<Rightarrow>
        if price_mode = PRICE_MANUAL then Inr (the (bi_manual_price b))
        else bnd (value_error_422 (compute_buyback_price rate k weight (buyback_margin_mode_value (the mode)) (the value)))
          (\<lambda>priced. Inr (2, case quantity of None \<Rightarrow> bx_buy_price priced | Some n \<Rightarrow> dmul (bx_buy_price priced) (of_int n))))"

definition new_buyback ::
    "buyback_in \<Rightarrow> string \<Rightarrow> buyback_kind \<Rightarrow> buyback_price_mode \<times> buyback_margin_mode option \<times> dec option
     \<Rightarrow> karat \<Rightarrow> dec \<Rightarrow> dec \<Rightarrow> dec \<Rightarrow> walkin_buyback" where
  "new_buyback b cashier kind margin k weight price rate =
     \<lparr>wb_id = [], wb_occurred_at = None, wb_seller_name = bi_seller_name b, wb_seller_phone = bi_seller_phone b,
      wb_cashier_id = cashier, wb_kind = kind, wb_result_lot_id = None, wb_coin_type_id = None,
      wb_ounce_type_id = None, wb_product_id = None, wb_quantity = None, wb_weight_grams = Some weight,
      wb_karat = Some k, wb_buy_price_usd = price, wb_gold_rate_at_buy = rate, wb_margin_mode = fst (snd margin),
      wb_margin_value = snd (snd margin), wb_price_mode = fst margin, wb_notes = bi_notes b\<rparr>"

definition add_buyback :: "walkin_buyback \<Rightarrow> db \<Rightarrow> walkin_buyback \<times> db" where
  "add_buyback w d =
     (let (k, d) = fresh_uid d; (now, d) = read_clock d; w = w\<lparr>wb_id := k, wb_occurred_at := Some now\<rparr>
      in (w, d\<lparr>buybacks := buybacks d @ [w]\<rparr>))"

definition put_buyback :: "walkin_buyback \<Rightarrow> db \<Rightarrow> db" where
  "put_buyback w d = d\<lparr>buybacks := upd_rows (\<lambda>x. wb_id x = wb_id w) (\<lambda>_. w) (buybacks d)\<rparr>"

text \<open>A lot whose \<open>acquired_at\<close> the database sets.\<close>

definition add_lot_now ::
    "karat \<Rightarrow> dec \<Rightarrow> lot_source \<Rightarrow> string \<Rightarrow> string \<Rightarrow> dec \<Rightarrow> string \<Rightarrow> db \<Rightarrow> gold_lot \<times> db" where
  "add_lot_now k weight src ref_type ref_id cost notes d =
     (let (now, d) = read_clock d in add_lot (new_lot k weight src (Some ref_type) (Some ref_id) cost now (Some notes)) d)"

text \<open>The end of every buyback: the acknowledgement of a stale rate, and the books.\<close>

definition finish_buyback ::
    "(string \<Rightarrow> string) \<Rightarrow> settings \<Rightarrow> rate_info \<Rightarrow> buyback_in \<Rightarrow> string \<Rightarrow> walkin_buyback \<Rightarrow> db \<Rightarrow> (walkin_buyback \<times> db) res" where
  "finish_buyback sha s info b user_id w d =
     bnd (record_stale_rate_ack sha user_id info ''walkin_buyback'' (wb_id w) ''BUYBACK'' (bi_stale_rate_ack b) d) (\<lambda>d.
     bnd (post_buyback sha w s user_id d) (\<lambda>(_, d). Inr (w, d)))"

definition seller_payload :: "buyback_in \<Rightarrow> (string \<times> pyval) list" where
  "seller_payload b = [(''seller_name'', PStr (bi_seller_name b)), (''seller_phone'', PStr (bi_seller_phone b))]"

definition create_pure_gold_buyback ::
    "(string \<Rightarrow> string) \<Rightarrow> settings \<Rightarrow> rate_info \<Rightarrow> buyback_in \<Rightarrow> string \<Rightarrow> db \<Rightarrow> (walkin_buyback \<times> db) res" where
  "create_pure_gold_buyback sha s info b user_id d =
     raise_if (bi_karat b = None \<or> bi_weight_grams b = None)
       (HTTPException 422 (Msg ''PURE_GOLD buyback requires karat and weight_grams'' []))
    (let weight = the (bi_weight_grams b); rate = ri_rate info in
     bnd (parse_karat (the (bi_karat b))) (\<lambda>k.
     bnd (resolve_margin b s) (\<lambda>margin.
     bnd (buy_price b margin rate k (snd weight) None) (\<lambda>price.
     let (w, d) = add_buyback (new_buyback b user_id BB_PURE_GOLD margin k (snd weight) (snd price) rate) d;
         (lot, d) = add_lot_now k (snd weight) SRC_BUYBACK ''walkin_buyback'' (wb_id w) (snd price)
                      (''From walk-in buyback '' @ wb_id w) d;
         w = w\<lparr>wb_result_lot_id := Some (lot_id lot)\<rparr>; d = put_buyback w d in
     bnd (ledger_record sha EVENT_LOT_CREATED user_id ''gold_lot'' (lot_id lot)
            (PDict [(''karat'', PStr (karat_value k)), (''weight_grams'', PStr (sd_text weight)),
                    (''source'', PStr (lot_source_value SRC_BUYBACK)), (''cost_basis_usd'', PStr (sd_text price)),
                    (''from_buyback_id'', PStr (wb_id w))]) d) (\<lambda>(_, d).
     bnd (ledger_record sha EVENT_BUYBACK_PURE_GOLD user_id ''walkin_buyback'' (wb_id w)
            (PDict (seller_payload b @
                   [(''karat'', PStr (karat_value k)), (''weight_grams'', PStr (sd_text weight)),
                    (''buy_price_usd'', PStr (sd_text price)), (''rate_24k'', PStr (float_text rate)),
                    (''price_mode'', PStr (buyback_price_mode_value (fst margin))),
                    (''result_lot_id'', PStr (lot_id lot))])) d) (\<lambda>(_, d).
     finish_buyback sha s info b user_id w d))))))"

text \<open>Coins and ounce bars: the two handlers differ in the table, the names and the event.\<close>

definition unit_title :: "bool \<Rightarrow> string" where
  "unit_title is_coin = (if is_coin then ''Coin'' else ''Ounce'')"

definition create_unit_buyback ::
    "bool \<Rightarrow> (string \<Rightarrow> string) \<Rightarrow> settings \<Rightarrow> rate_info \<Rightarrow> buyback_in \<Rightarrow> string \<Rightarrow> db \<Rightarrow> (walkin_buyback \<times> db) res" where
  "create_unit_buyback is_coin sha s info b user_id d =
     (let type_id = (if is_coin then bi_coin_type_id b else bi_ounce_type_id b);
          qty = (case bi_quantity b of None \<Rightarrow> 0 | Some n \<Rightarrow> n); rate = ri_rate info in
      raise_if (falsy type_id \<or> qty = 0) (HTTPException 422 (Msg ''{} buyback requires {} and quantity''
          [AStr (if is_coin then ''COIN'' else ''OUNCE''), AStr (if is_coin then ''coin_type_id'' else ''ounce_type_id'')]))
     (bnd (or_raise (HTTPException 404 (Msg ''{} type {} not found'' [AStr (unit_title is_coin), AStr (the type_id)]))
             (find_unit is_coin (the type_id) d)) (\<lambda>u.
      bnd (resolve_margin b s) (\<lambda>margin.
      bnd (buy_price b margin rate (ut_karat u) (ut_weight_grams u) (Some qty)) (\<lambda>price.
      let after = ut_on_hand_qty u + qty; d = set_unit_qty is_coin (ut_id u) after d;
          w = (new_buyback b user_id (if is_coin then BB_COIN else BB_OUNCE) margin (ut_karat u)
                 (dmul (ut_weight_grams u) (of_int qty)) (snd price) rate)
                \<lparr>wb_coin_type_id := (if is_coin then Some (ut_id u) else None),
                 wb_ounce_type_id := (if is_coin then None else Some (ut_id u)), wb_quantity := Some qty\<rparr>;
          (w, d) = add_buyback w d in
      bnd (ledger_record sha (if is_coin then EVENT_BUYBACK_COIN else EVENT_BUYBACK_OUNCE) user_id ''walkin_buyback'' (wb_id w)
             (PDict (seller_payload b @
                    [(kind_label is_coin @ ''_id'', PStr (ut_id u)),
                     ((if is_coin then ''coin_code'' else ''ounce_code''), PStr (ut_code u)), (''quantity'', PInt qty),
                     (''buy_price_usd'', PStr (sd_text price)), (''rate_24k'', PStr (float_text rate)),
                     (''price_mode'', PStr (buyback_price_mode_value (fst margin))), (''qty_after'', PInt after)])) d) (\<lambda>(_, d).
      finish_buyback sha s info b user_id w d))))))"

definition create_coin_buyback where "create_coin_buyback = create_unit_buyback True"
definition create_ounce_buyback where "create_ounce_buyback = create_unit_buyback False"

definition create_used_product_buyback ::
    "(string \<Rightarrow> string) \<Rightarrow> settings \<Rightarrow> rate_info \<Rightarrow> buyback_in \<Rightarrow> string \<Rightarrow> db \<Rightarrow> (walkin_buyback \<times> db) res" where
  "create_used_product_buyback sha s info b user_id d =
     raise_if (bi_karat b = None \<or> bi_weight_grams b = None \<or> bi_manual_price b = None)
       (HTTPException 422 (Msg ''USED_PRODUCT buyback requires karat, weight_grams, and manual_price. Used pieces are priced by hand.'' []))
    (let weight = the (bi_weight_grams b); price = the (bi_manual_price b); rate = ri_rate info in
     bnd (parse_karat (the (bi_karat b))) (\<lambda>k.
     let (w, d) = add_buyback (new_buyback b user_id BB_USED_PRODUCT (PRICE_MANUAL, None, None) k (snd weight) (snd price) rate) d in
     bnd (ledger_record sha EVENT_BUYBACK_USED_PRODUCT user_id ''walkin_buyback'' (wb_id w)
            (PDict (seller_payload b @
                   [(''karat'', PStr (karat_value k)), (''weight_grams'', PStr (sd_text weight)),
                    (''buy_price_usd'', PStr (sd_text price)), (''rate_24k'', PStr (float_text rate)),
                    (''pending_polish'', PBool True)])) d) (\<lambda>(_, d).
     finish_buyback sha s info b user_id w d)))"

definition create_buyback ::
    "(string \<Rightarrow> string) \<Rightarrow> rate_config \<Rightarrow> settings option \<Rightarrow> buyback_in \<Rightarrow> string \<Rightarrow> db \<Rightarrow> (walkin_buyback \<times> db) res" where
  "create_buyback sha cf st b user_id d =
     bnd (parse_enum buyback_kind_value buyback_kinds ''Invalid kind {}'' (bi_kind b)) (\<lambda>kind.
     case st of
       None \<Rightarrow> Inl (HTTPException 500 (Msg ''Settings singleton missing'' []))
     | Some s \<Rightarrow>
         bnd (get_current_gold_rate cf d) (\<lambda>(info, d).
         bnd (assert_rate_acceptable info (bi_stale_rate_ack b) d) (\<lambda>(_, d).
         bnd (case bi_expected_rate b of
                None \<Rightarrow> Inr () | Some e \<Rightarrow> check_rate_drift (ri_rate info) e (buyback_rate_drift_pct_max s)) (\<lambda>_.
         (case kind of
            BB_PURE_GOLD \<Rightarrow> create_pure_gold_buyback sha s info b user_id d
          | BB_COIN \<Rightarrow> create_coin_buyback sha s info b user_id d
          | BB_OUNCE \<Rightarrow> create_ounce_buyback sha s info b user_id d
          | BB_USED_PRODUCT \<Rightarrow> create_used_product_buyback sha s info b user_id d)))))"

section \<open>Melting\<close>

record melt_in =
  ml_product_id :: "string option"
  ml_walkin_buyback_id :: "string option"
  ml_override_weight_grams :: "sdec option"
  ml_override_karat :: "string option"
  ml_notes :: "string option"

definition melt_in_valid :: "melt_in \<Rightarrow> bool" where
  "melt_in_valid b \<longleftrightarrow> (\<forall>w. ml_override_weight_grams b = Some w \<longrightarrow> 0 < snd w)"

definition override_karat :: "string option \<Rightarrow> karat \<Rightarrow> karat res" where
  "override_karat s k = (if falsy s then Inr k else parse_karat (the s))"

definition override_weight :: "sdec option \<Rightarrow> dec \<Rightarrow> sdec" where
  "override_weight s w = (case s of Some x \<Rightarrow> x | None \<Rightarrow> (3, w))"

text \<open>The books of a melt, when there is a settings row.\<close>

definition melt_books ::
    "(string \<Rightarrow> string) \<Rightarrow> settings option \<Rightarrow> gold_lot \<Rightarrow> karat \<Rightarrow> dec \<Rightarrow> string \<Rightarrow> db \<Rightarrow> (gold_lot \<times> db) res" where
  "melt_books sha st lot from_karat from_grams user_id d =
     (case st of
        None \<Rightarrow> Inr (lot, d)
      | Some s \<Rightarrow>
          bnd (post_melt sha \<lparr>me_id = lot_id lot, me_occurred_at = None, me_from_karat = from_karat,
                 me_from_grams = from_grams, me_to_karat = lot_karat lot, me_to_grams = lot_weight_grams lot,
                 me_cost_usd = lot_cost_basis_usd lot\<rparr> s user_id d) (\<lambda>(_, d). Inr (lot, d)))"

definition melt_product ::
    "(string \<Rightarrow> string) \<Rightarrow> settings option \<Rightarrow> melt_in \<Rightarrow> string \<Rightarrow> db \<Rightarrow> (gold_lot \<times> db) res" where
  "melt_product sha st b user_id d =
     (let i = the (ml_product_id b) in
      bnd (fetch (HTTPException 404 (Msg ''Product {} not found'' [AStr i])) (\<lambda>p. pr_id p = i) (products d)) (\<lambda>p.
      raise_if (pr_status p \<notin> {AVAILABLE, INACTIVE})
        (HTTPException 409 (Msg ''Cannot melt product {} (status={}). Only AVAILABLE or INACTIVE products can be melted.''
           [AStr (pr_code p), AStr (product_status_value (pr_status p))]))
     (bnd (override_karat (ml_override_karat b) (pr_karat p)) (\<lambda>k.
      let weight = override_weight (ml_override_weight_grams b) (pr_weight_grams p);
          cost = (case pr_cost_basis_usd p of Some c \<Rightarrow> (2, c) | None \<Rightarrow> (0, 0));
          (lot, d) = add_lot_now k (snd weight) SRC_MELT ''product'' (pr_id p) (snd cost)
                       (str_or (ml_notes b) (''Melted from product '' @ pr_code p)) d;
          prev_status = pr_status p; d = put_product (p\<lparr>pr_status := MELTED\<rparr>) d in
      bnd (ledger_record sha EVENT_LOT_CREATED user_id ''gold_lot'' (lot_id lot)
             (PDict [(''karat'', PStr (karat_value k)), (''weight_grams'', PStr (sd_text weight)),
                     (''source'', PStr (lot_source_value SRC_MELT)), (''cost_basis_usd'', PStr (sd_text cost)),
                     (''from_product_id'', PStr (pr_id p)), (''from_product_code'', PStr (pr_code p))]) d) (\<lambda>(_, d).
      bnd (ledger_record sha EVENT_MELT user_id ''product'' (pr_id p)
             (PDict [(''product_code'', PStr (pr_code p)), (''status_before'', PStr (product_status_value prev_status)),
                     (''status_after'', PStr (product_status_value MELTED)), (''lot_id'', PStr (lot_id lot)),
                     (''karat'', PStr (karat_value k)), (''weight_grams'', PStr (sd_text weight)),
                     (''cost_basis_usd'', PStr (sd_text cost)),
                     (''weight_override'', PBool (ml_override_weight_grams b \<noteq> None)),
                     (''karat_override'', PBool (ml_override_karat b \<noteq> None))]) d) (\<lambda>(_, d).
      melt_books sha st lot (pr_karat p) (pr_weight_grams p) user_id d))))))"

definition fetch_buyback :: "string \<Rightarrow> db \<Rightarrow> walkin_buyback res" where
  "fetch_buyback i d =
     fetch (HTTPException 404 (Msg ''Buyback {} not found'' [AStr i])) (\<lambda>w. wb_id w = i) (buybacks d)"

definition melt_used_buyback ::
    "(string \<Rightarrow> string) \<Rightarrow> settings option \<Rightarrow> melt_in \<Rightarrow> string \<Rightarrow> db \<Rightarrow> (gold_lot \<times> db) res" where
  "melt_used_buyback sha st b user_id d =
     bnd (fetch_buyback (the (ml_walkin_buyback_id b)) d) (\<lambda>w.
     raise_if (wb_kind w \<noteq> BB_USED_PRODUCT)
       (HTTPException 409 (Msg ''Only USED_PRODUCT buybacks can be melted from this endpoint; this buyback is kind={}.''
          [AStr (buyback_kind_value (wb_kind w))]))
    (raise_if (\<not> falsy (wb_product_id w))
       (HTTPException 409 (Msg ''This buyback was already polished into a product - cannot melt.'' []))
    (raise_if (\<not> falsy (wb_result_lot_id w)) (HTTPException 409 (Msg ''This buyback was already melted.'' []))
    (raise_if (wb_weight_grams w = None \<or> wb_karat w = None)
       (HTTPException 422 (Msg ''USED_PRODUCT buyback missing weight or karat - cannot melt'' []))
    (let from_karat = the (wb_karat w); from_grams = the (wb_weight_grams w) in
     bnd (override_karat (ml_override_karat b) from_karat) (\<lambda>k.
     let weight = override_weight (ml_override_weight_grams b) from_grams; cost = (2, wb_buy_price_usd w);
         (lot, d) = add_lot_now k (snd weight) SRC_MELT ''walkin_buyback'' (wb_id w) (snd cost)
                      (str_or (ml_notes b) (''Melted from used-product buyback '' @ wb_id w)) d;
         w = w\<lparr>wb_result_lot_id := Some (lot_id lot)\<rparr>; d = put_buyback w d in
     bnd (ledger_record sha EVENT_LOT_CREATED user_id ''gold_lot'' (lot_id lot)
            (PDict [(''karat'', PStr (karat_value k)), (''weight_grams'', PStr (sd_text weight)),
                    (''source'', PStr (lot_source_value SRC_MELT)), (''cost_basis_usd'', PStr (sd_text cost)),
                    (''from_buyback_id'', PStr (wb_id w))]) d) (\<lambda>(_, d).
     bnd (ledger_record sha EVENT_MELT user_id ''walkin_buyback'' (wb_id w)
            (PDict [(''lot_id'', PStr (lot_id lot)), (''karat'', PStr (karat_value k)),
                    (''weight_grams'', PStr (sd_text weight)), (''cost_basis_usd'', PStr (sd_text cost)),
                    (''seller_name'', PStr (wb_seller_name w)),
                    (''weight_override'', PBool (ml_override_weight_grams b \<noteq> None)),
                    (''karat_override'', PBool (ml_override_karat b \<noteq> None))]) d) (\<lambda>(_, d).
     melt_books sha st lot from_karat from_grams user_id d))))))))"

definition create_melt ::
    "(string \<Rightarrow> string) \<Rightarrow> settings option \<Rightarrow> melt_in \<Rightarrow> string \<Rightarrow> db \<Rightarrow> (gold_lot \<times> db) res" where
  "create_melt sha st b user_id d =
     raise_if (falsy (ml_product_id b) = falsy (ml_walkin_buyback_id b))
       (HTTPException 422 (Msg ''Provide exactly one of product_id or walkin_buyback_id'' []))
    (if \<not> falsy (ml_product_id b) then melt_product sha st b user_id d else melt_used_buyback sha st b user_id d)"

section \<open>Polishing\<close>

record polish_in =
  pi_walkin_buyback_id :: string
  pi_name_en :: string
  pi_name_ar :: string
  pi_category :: string
  pi_category_id :: "string option"
  pi_margin_percent :: dec
  pi_making_charge :: dec
  pi_photos :: "pyval list"
  pi_override_weight_grams :: "sdec option"
  pi_override_karat :: "string option"
  pi_notes :: "string option"

definition polish_in_valid :: "polish_in \<Rightarrow> bool" where
  "polish_in_valid b \<longleftrightarrow> pi_name_en b \<noteq> [] \<and> pi_category b \<noteq> [] \<and> 0 \<le> pi_margin_percent b \<and> 0 \<le> pi_making_charge b
     \<and> (\<forall>w. pi_override_weight_grams b = Some w \<longrightarrow> 0 < snd w)"

text \<open>
  A new product row: one piece in stock, no stones. Its code is unique, and so is the
  reference to a category checked by the database.
\<close>

definition add_product :: "product \<Rightarrow> db \<Rightarrow> (product \<times> db) res" where
  "add_product p d =
     raise_if (pr_code p \<in> set (map pr_code (products d))) (IntegrityError ''products.code'')
    (raise_if (dangling (pr_category_id p) (map ct_id (categories d))) (IntegrityError ''products.category_id'')
    (let (k, d) = fresh_uid d; p = p\<lparr>pr_id := k\<rparr> in Inr (p, d\<lparr>products := products d @ [p]\<rparr>)))"

definition new_product ::
    "string \<Rightarrow> string \<Rightarrow> string \<Rightarrow> string \<Rightarrow> string option \<Rightarrow> karat \<Rightarrow> dec \<Rightarrow> dec \<Rightarrow> dec \<Rightarrow> pyval list \<Rightarrow> bool \<Rightarrow> dec
     \<Rightarrow> string \<Rightarrow> string \<Rightarrow> product" where
  "new_product code name_en name_ar category category_id k weight margin making photos used cost ref_type ref_id =
     \<lparr>pr_id = [], pr_code = code, pr_name_en = name_en, pr_name_ar = name_ar, pr_category = category,
      pr_category_id = category_id, pr_karat = k, pr_weight_grams = weight, pr_margin_percent = margin,
      pr_making_charge = making, pr_photos = photos, pr_is_active = True, pr_on_hand_qty = 1, pr_min_stock_qty = None,
      pr_is_used = used, pr_cost_basis_usd = Some cost, pr_stone_value_usd = None, pr_stone_cost_usd = None,
      pr_stone_carats = None, pr_stone_count = None, pr_stone_cert = None, pr_stone_note = None, pr_status = AVAILABLE,
      pr_source_ref_type = Some ref_type, pr_source_ref_id = Some ref_id\<rparr>"

definition create_polish :: "(string \<Rightarrow> string) \<Rightarrow> polish_in \<Rightarrow> string \<Rightarrow> db \<Rightarrow> (product \<times> db) res" where
  "create_polish sha b user_id d =
     bnd (fetch_buyback (pi_walkin_buyback_id b) d) (\<lambda>w.
     raise_if (wb_kind w \<noteq> BB_USED_PRODUCT)
       (HTTPException 409 (Msg ''Only USED_PRODUCT buybacks can be polished; this buyback is kind={}.''
          [AStr (buyback_kind_value (wb_kind w))]))
    (raise_if (\<not> falsy (wb_product_id w)) (HTTPException 409 (Msg ''This buyback has already been polished'' []))
    (raise_if (\<not> falsy (wb_result_lot_id w))
       (HTTPException 409 (Msg ''This buyback was already melted - cannot polish'' []))
    (raise_if (wb_weight_grams w = None \<or> wb_karat w = None)
       (HTTPException 422 (Msg ''USED_PRODUCT buyback missing weight or karat - cannot polish'' []))
    (bnd (override_karat (pi_override_karat b) (the (wb_karat w))) (\<lambda>k.
     let weight = override_weight (pi_override_weight_grams b) (the (wb_weight_grams w)) in
     bnd (generate_item_code d k) (\<lambda>code.
     bnd (add_product (new_product code (pi_name_en b) (pi_name_ar b) (pi_category b) (pi_category_id b) k (snd weight)
            (pi_margin_percent b) (pi_making_charge b) (pi_photos b) True (wb_buy_price_usd w) ''walkin_buyback'' (wb_id w)) d)
       (\<lambda>(p, d).
     let w = w\<lparr>wb_product_id := Some (pr_id p)\<rparr>; d = put_buyback w d in
     bnd (ledger_record sha EVENT_POLISH user_id ''walkin_buyback'' (wb_id w)
            (PDict [(''product_id'', PStr (pr_id p)), (''product_code'', PStr (pr_code p)), (''karat'', PStr (karat_value k)),
                    (''weight_grams'', PStr (sd_text weight)), (''cost_basis_usd'', PStr (str_dec 2 (wb_buy_price_usd w))),
                    (''seller_name'', PStr (wb_seller_name w)),
                    (''weight_override'', PBool (pi_override_weight_grams b \<noteq> None)),
                    (''karat_override'', PBool (pi_override_karat b \<noteq> None)), (''notes'', popt (pi_notes b))]) d) (\<lambda>(_, d).
     Inr (p, d))))))))))"

end
