(* ===== verification/Suppliers.thy ===== *)
theory Suppliers
  imports Walkin
begin

text \<open>
  \<open>app/api/suppliers.py\<close>: the supplier master, purchases (gold paid with lots, stock taken in,
  debts booked per unit and karat), repayments, and the store-wide view of what is owed.
  The specification of a product bought is a JSON dictionary in the source; here its keys
  are fields that may be absent, and its numbers come with their texts' decimals.
\<close>

definition EVENT_SUPPLIER_CREATED :: string where "EVENT_SUPPLIER_CREATED = ''SUPPLIER_CREATED''"
definition EVENT_SUPPLIER_UPDATED :: string where "EVENT_SUPPLIER_UPDATED = ''SUPPLIER_UPDATED''"
definition EVENT_SUPPLIER_PURCHASE :: string where "EVENT_SUPPLIER_PURCHASE = ''SUPPLIER_PURCHASE''"
definition EVENT_SUPPLIER_PAYMENT_CASH :: string where "EVENT_SUPPLIER_PAYMENT_CASH = ''SUPPLIER_PAYMENT_CASH''"
definition EVENT_SUPPLIER_PAYMENT_GOLD :: string where "EVENT_SUPPLIER_PAYMENT_GOLD = ''SUPPLIER_PAYMENT_GOLD''"
definition EVENT_SUPPLIER_BALANCE_CHANGED :: string where
  "EVENT_SUPPLIER_BALANCE_CHANGED = ''SUPPLIER_BALANCE_CHANGED''"

fun supplier_item_kind_value :: "supplier_item_kind \<Rightarrow> string" where
  "supplier_item_kind_value SI_PRODUCT = ''PRODUCT''"
| "supplier_item_kind_value SI_COIN = ''COIN''"
| "supplier_item_kind_value SI_OUNCE = ''OUNCE''"
| "supplier_item_kind_value SI_PURE_GOLD = ''PURE_GOLD''"

definition supplier_item_kinds :: "supplier_item_kind list" where
  "supplier_item_kinds = [SI_PRODUCT, SI_COIN, SI_OUNCE, SI_PURE_GOLD]"

fun purchase_mode_value :: "supplier_purchase_mode \<Rightarrow> string" where
  "purchase_mode_value MODE_CASH = ''CASH''"
| "purchase_mode_value MODE_GOLD = ''GOLD''"
| "purchase_mode_value MODE_MIXED = ''MIXED''"

definition purchase_modes :: "supplier_purchase_mode list" where
  "purchase_modes = [MODE_CASH, MODE_GOLD, MODE_MIXED]"

definition debt_units :: "debt_unit list" where "debt_units = [DEBT_CASH, DEBT_GOLD]"

section \<open>The supplier master\<close>

record supplier_in =
  sn_name :: string
  sn_contact_name :: "string option"
  sn_phone :: "string option"
  sn_email :: "string option"
  sn_address :: "string option"
  sn_default_currency :: string
  sn_payment_terms :: "string option"
  sn_notes :: "string option"

definition create_supplier :: "(string \<Rightarrow> string) \<Rightarrow> supplier_in \<Rightarrow> string \<Rightarrow> db \<Rightarrow> (supplier \<times> db) res" where
  "create_supplier sha b user_id d =
     (let (k, d) = fresh_uid d;
          supr = \<lparr>sup_id = k, sup_name = sn_name b, sup_contact_name = sn_contact_name b, sup_phone = sn_phone b,
                 sup_email = sn_email b, sup_address = sn_address b, sup_default_currency = sn_default_currency b,
                 sup_payment_terms = sn_payment_terms b, sup_notes = sn_notes b, sup_is_active = True\<rparr>;
          d = d\<lparr>suppliers := suppliers d @ [supr]\<rparr> in
      bnd (ledger_record sha EVENT_SUPPLIER_CREATED user_id ''supplier'' (sup_id supr)
             (PDict [(''name'', PStr (sup_name supr))]) d) (\<lambda>(_, d). Inr (supr, d)))"

text \<open>The fields a request sets: absent, or a value, \<open>None\<close> for null.\<close>

record supplier_update =
  su_name :: "string option option"
  su_contact_name :: "string option option"
  su_phone :: "string option option"
  su_email :: "string option option"
  su_address :: "string option option"
  su_default_currency :: "string option option"
  su_payment_terms :: "string option option"
  su_notes :: "string option option"
  su_is_active :: "bool option option"

definition or_none :: "string option \<Rightarrow> string" where
  "or_none s = (case s of None \<Rightarrow> ''None'' | Some x \<Rightarrow> x)"

definition changed_field :: "string \<Rightarrow> string option option \<Rightarrow> (string \<times> pyval) list" where
  "changed_field name u = (case u of None \<Rightarrow> [] | Some v \<Rightarrow> [(name, PStr (or_none v))])"

definition changed_fields :: "supplier_update \<Rightarrow> (string \<times> pyval) list" where
  "changed_fields u =
     changed_field ''name'' (su_name u) @ changed_field ''contact_name'' (su_contact_name u)
     @ changed_field ''phone'' (su_phone u) @ changed_field ''email'' (su_email u)
     @ changed_field ''address'' (su_address u) @ changed_field ''default_currency'' (su_default_currency u)
     @ changed_field ''payment_terms'' (su_payment_terms u) @ changed_field ''notes'' (su_notes u)
     @ (case su_is_active u of None \<Rightarrow> []
        | Some v \<Rightarrow> [(''is_active'', PStr (case v of None \<Rightarrow> ''None'' | Some x \<Rightarrow> if x then ''True'' else ''False''))])"

definition set_or :: "'a option \<Rightarrow> 'a \<Rightarrow> 'a" where
  "set_or u v = (case u of None \<Rightarrow> v | Some x \<Rightarrow> x)"

text \<open>A column that cannot be null.\<close>

definition set_required :: "string \<Rightarrow> 'a option option \<Rightarrow> 'a \<Rightarrow> 'a res" where
  "set_required column u v = (case u of None \<Rightarrow> Inr v | Some None \<Rightarrow> Inl (IntegrityError column) | Some (Some x) \<Rightarrow> Inr x)"

definition put_supplier :: "supplier \<Rightarrow> db \<Rightarrow> db" where
  "put_supplier s d = d\<lparr>suppliers := upd_rows (\<lambda>x. sup_id x = sup_id s) (\<lambda>_. s) (suppliers d)\<rparr>"

definition find_supplier :: "string \<Rightarrow> db \<Rightarrow> supplier res" where
  "find_supplier i d = fetch (HTTPException 404 (Msg ''Supplier not found'' [])) (\<lambda>s. sup_id s = i) (suppliers d)"

definition update_supplier ::
    "(string \<Rightarrow> string) \<Rightarrow> string \<Rightarrow> supplier_update \<Rightarrow> string \<Rightarrow> db \<Rightarrow> (supplier \<times> db) res" where
  "update_supplier sha i u user_id d =
     bnd (find_supplier i d) (\<lambda>supr.
     let balances = get_supplier_balances d i in
     raise_if (su_is_active u = Some (Some False) \<and> sup_is_active supr \<and> balances \<noteq> [])
       (HTTPException 409 (Msg ''Cannot deactivate supplier with {} non-zero balance(s). Settle outstanding debt first.''
          [AInt (int (length balances))]))
    (bnd (set_required ''suppliers.name'' (su_name u) (sup_name supr)) (\<lambda>name.
     bnd (set_required ''suppliers.default_currency'' (su_default_currency u) (sup_default_currency supr)) (\<lambda>cur.
     bnd (set_required ''suppliers.is_active'' (su_is_active u) (sup_is_active supr)) (\<lambda>act.
     let supr = supr\<lparr>sup_name := name, sup_contact_name := set_or (su_contact_name u) (sup_contact_name supr),
                   sup_phone := set_or (su_phone u) (sup_phone supr), sup_email := set_or (su_email u) (sup_email supr),
                   sup_address := set_or (su_address u) (sup_address supr), sup_default_currency := cur,
                   sup_payment_terms := set_or (su_payment_terms u) (sup_payment_terms supr),
                   sup_notes := set_or (su_notes u) (sup_notes supr), sup_is_active := act\<rparr>;
         d = put_supplier supr d in
     bnd (ledger_record sha EVENT_SUPPLIER_UPDATED user_id ''supplier'' (sup_id supr)
            (PDict [(''changed'', PDict (changed_fields u))]) d) (\<lambda>(_, d). Inr (supr, d)))))))"

definition delete_supplier :: "(string \<Rightarrow> string) \<Rightarrow> string \<Rightarrow> string \<Rightarrow> db \<Rightarrow> (unit \<times> db) res" where
  "delete_supplier sha i user_id d =
     bnd (find_supplier i d) (\<lambda>supr.
     let balances = get_supplier_balances d i in
     raise_if (balances \<noteq> [])
       (HTTPException 409 (Msg ''Cannot delete supplier with {} non-zero balance(s)'' [AInt (int (length balances))]))
    (let d = put_supplier (supr\<lparr>sup_is_active := False\<rparr>) d in
     bnd (ledger_record sha EVENT_SUPPLIER_UPDATED user_id ''supplier'' (sup_id supr)
            (PDict [(''soft_delete'', PBool True)]) d) (\<lambda>(_, d). Inr ((), d))))"

text \<open>The supplier with its balances, its purchases and its payments, the last first.\<close>

definition get_supplier ::
    "string \<Rightarrow> db \<Rightarrow> (supplier \<times> supplier_balance list \<times> supplier_purchase list \<times> supplier_payment list) res" where
  "get_supplier i d =
     bnd (find_supplier i d) (\<lambda>supr.
     Inr (supr, get_supplier_balances d i,
          sort_key (\<lambda>p. - the (sp_occurred_at p)) (filter (\<lambda>p. sp_supplier_id p = i) (supplier_purchases d)),
          sort_key (\<lambda>p. - the (pay_paid_at p)) (filter (\<lambda>p. pay_supplier_id p = i) (supplier_payments d))))"

section \<open>Stock taken in\<close>

record product_spec =
  ps_name_en :: "string option"
  ps_name_ar :: "string option"
  ps_category :: "string option"
  ps_category_id :: "string option"
  ps_karat :: "string option"
  ps_weight_grams :: "dec option"
  ps_margin_percent :: "dec option"
  ps_making_charge :: "dec option"
  ps_photos :: "pyval list option"

record purchase_item_in =
  pn_item_kind :: string
  pn_unit_cost_usd :: sdec
  pn_notes :: "string option"
  pn_product :: "product_spec option"
  pn_coin_type_id :: "string option"
  pn_ounce_type_id :: "string option"
  pn_quantity :: "int option"
  pn_weight_grams :: "sdec option"
  pn_karat :: "string option"

definition purchase_item_in_valid :: "purchase_item_in \<Rightarrow> bool" where
  "purchase_item_in_valid b \<longleftrightarrow> 0 \<le> snd (pn_unit_cost_usd b) \<and> (\<forall>n. pn_quantity b = Some n \<longrightarrow> 0 < n)
     \<and> (\<forall>w. pn_weight_grams b = Some w \<longrightarrow> 0 < snd w)"

definition missing_keys :: "product_spec \<Rightarrow> string list" where
  "missing_keys s =
     (if ps_name_en s = None then [''name_en''] else []) @ (if ps_category s = None then [''category''] else [])
     @ (if ps_karat s = None then [''karat''] else []) @ (if ps_weight_grams s = None then [''weight_grams''] else [])
     @ (if ps_margin_percent s = None then [''margin_percent''] else [])
     @ (if ps_making_charge s = None then [''making_charge''] else [])"

definition new_purchase_item :: "supplier_purchase \<Rightarrow> supplier_item_kind \<Rightarrow> purchase_item_in \<Rightarrow> supplier_purchase_item" where
  "new_purchase_item purchase kind b =
     \<lparr>si_id = [], si_purchase_id = sp_id purchase, si_item_kind = kind, si_product_id = None, si_coin_type_id = None,
      si_ounce_type_id = None, si_lot_id = None, si_quantity = None, si_weight_grams = None, si_karat = None,
      si_unit_cost_usd = snd (pn_unit_cost_usd b), si_notes = pn_notes b\<rparr>"

definition take_in_gold ::
    "(string \<Rightarrow> string) \<Rightarrow> string \<Rightarrow> supplier_purchase \<Rightarrow> purchase_item_in \<Rightarrow> supplier_purchase_item \<Rightarrow> db
     \<Rightarrow> (supplier_purchase_item \<times> db) res" where
  "take_in_gold sha user_id purchase b item d =
     raise_if (pn_weight_grams b = None \<or> falsy (pn_karat b))
       (HTTPException 422 (Msg ''PURE_GOLD item requires weight_grams and karat'' []))
    (let weight = the (pn_weight_grams b) in
     bnd (parse_karat (the (pn_karat b))) (\<lambda>k.
     let (lot, d) = add_lot_now k (snd weight) SRC_SUPPLIER ''supplier_purchase'' (sp_id purchase)
           (snd (pn_unit_cost_usd b)) (''From supplier purchase '' @ sp_id purchase) d in
     bnd (ledger_record sha EVENT_LOT_CREATED user_id ''gold_lot'' (lot_id lot)
            (PDict [(''karat'', PStr (karat_value k)), (''weight_grams'', PStr (sd_text weight)),
                    (''source'', PStr (lot_source_value SRC_SUPPLIER)),
                    (''cost_basis_usd'', PStr (sd_text (pn_unit_cost_usd b))),
                    (''from_purchase_id'', PStr (sp_id purchase))]) d) (\<lambda>(_, d).
     Inr (item\<lparr>si_lot_id := Some (lot_id lot), si_weight_grams := Some (snd weight), si_karat := Some k\<rparr>, d))))"

definition take_in_units ::
    "bool \<Rightarrow> purchase_item_in \<Rightarrow> supplier_purchase_item \<Rightarrow> db \<Rightarrow> (supplier_purchase_item \<times> db) res" where
  "take_in_units is_coin b item d =
     (let type_id = (if is_coin then pn_coin_type_id b else pn_ounce_type_id b);
          qty = (case pn_quantity b of None \<Rightarrow> 0 | Some n \<Rightarrow> n) in
      raise_if (falsy type_id \<or> qty = 0) (HTTPException 422 (Msg ''{} item requires {} and quantity''
          [AStr (if is_coin then ''COIN'' else ''OUNCE''), AStr (if is_coin then ''coin_type_id'' else ''ounce_type_id'')]))
     (bnd (or_raise (HTTPException 404 (Msg ''{} type {} not found'' [AStr (unit_title is_coin), AStr (the type_id)]))
             (find_unit is_coin (the type_id) d)) (\<lambda>u.
      Inr (item\<lparr>si_coin_type_id := (if is_coin then Some (ut_id u) else None),
                si_ounce_type_id := (if is_coin then None else Some (ut_id u)), si_quantity := Some qty,
                si_karat := Some (ut_karat u), si_weight_grams := Some (dmul (ut_weight_grams u) (of_int qty))\<rparr>,
           set_unit_qty is_coin (ut_id u) (ut_on_hand_qty u + qty) d))))"

definition take_in_product ::
    "supplier_purchase \<Rightarrow> purchase_item_in \<Rightarrow> supplier_purchase_item \<Rightarrow> db \<Rightarrow> (supplier_purchase_item \<times> db) res" where
  "take_in_product purchase b item d =
     (case pn_product b of
        None \<Rightarrow> Inl (HTTPException 422 (Msg ''PRODUCT item requires `product` spec'' []))
      | Some s \<Rightarrow>
        raise_if (missing_keys s \<noteq> [])
          (HTTPException 422 (Msg ''PRODUCT item `product` missing {}'' [AStr (quoted (hd (missing_keys s)))]))
       (bnd (parse_karat (the (ps_karat s))) (\<lambda>k.
        bnd (generate_item_code d k) (\<lambda>code.
        bnd (add_product (new_product code (the (ps_name_en s)) (case ps_name_ar s of None \<Rightarrow> [] | Some x \<Rightarrow> x)
               (the (ps_category s)) (ps_category_id s) k (the (ps_weight_grams s)) (the (ps_margin_percent s))
               (the (ps_making_charge s)) (case ps_photos s of None \<Rightarrow> [] | Some x \<Rightarrow> x) False
               (snd (pn_unit_cost_usd b)) ''supplier_purchase'' (sp_id purchase)) d) (\<lambda>(p, d).
        Inr (item\<lparr>si_product_id := Some (pr_id p), si_karat := Some k, si_weight_grams := ps_weight_grams s\<rparr>, d))))))"

definition materialize_item ::
    "(string \<Rightarrow> string) \<Rightarrow> string \<Rightarrow> supplier_purchase \<Rightarrow> purchase_item_in \<Rightarrow> db \<Rightarrow> (supplier_purchase_item \<times> db) res" where
  "materialize_item sha user_id purchase b d =
     bnd (parse_enum supplier_item_kind_value supplier_item_kinds ''Invalid item_kind {}'' (pn_item_kind b)) (\<lambda>kind.
     let item = new_purchase_item purchase kind b in
     bnd (case kind of
            SI_PURE_GOLD \<Rightarrow> take_in_gold sha user_id purchase b item d
          | SI_COIN \<Rightarrow> take_in_units True b item d
          | SI_OUNCE \<Rightarrow> take_in_units False b item d
          | SI_PRODUCT \<Rightarrow> take_in_product purchase b item d) (\<lambda>(item, d).
     let (k, d) = fresh_uid d; item = item\<lparr>si_id := k\<rparr> in
     Inr (item, d\<lparr>supplier_purchase_items := supplier_purchase_items d @ [item]\<rparr>)))"

section \<open>Gold paid out of lots\<close>

record gold_payment_in =
  gp_lot_id :: string
  gp_grams :: sdec
  gp_karat :: string

definition sd_add :: "sdec \<Rightarrow> sdec \<Rightarrow> sdec" where
  "sd_add x y = (max (fst x) (fst y), snd x + snd y)"

definition sd_get0 :: "(string \<times> sdec) list \<Rightarrow> string \<Rightarrow> sdec" where
  "sd_get0 m k = (case map_of m k of None \<Rightarrow> (0, 0) | Some v \<Rightarrow> v)"

definition dec_dict :: "(string \<times> sdec) list \<Rightarrow> (string \<times> dec) list" where
  "dec_dict m = map (\<lambda>(k, v). (k, snd v)) m"

definition text_dict :: "(string \<times> sdec) list \<Rightarrow> pyval" where
  "text_dict m = PDict (map (\<lambda>(k, v). (k, PStr (sd_text v))) m)"

fun consume_lots ::
    "(string \<Rightarrow> string) \<Rightarrow> string \<Rightarrow> string \<Rightarrow> string \<Rightarrow> gold_payment_in list \<Rightarrow> (string \<times> sdec) list \<Rightarrow> db
     \<Rightarrow> ((string \<times> sdec) list \<times> db) res" where
  "consume_lots sha user_id ref_type ref_id [] tot d = Inr (tot, d)"
| "consume_lots sha user_id ref_type ref_id (gp # gps) tot d =
     bnd (parse_karat (gp_karat gp)) (\<lambda>k.
     bnd (fetch (HTTPException 404 (Msg ''Lot {} not found'' [AStr (gp_lot_id gp)]))
            (\<lambda>l. lot_id l = gp_lot_id gp) (gold_lots d)) (\<lambda>lot.
     raise_if (lot_karat lot \<noteq> k) (HTTPException 422 (Msg ''Lot {} is {}, payment claims {}''
         [AStr (gp_lot_id gp), AStr (karat_value (lot_karat lot)), AStr (karat_value k)]))
    (bnd (consume_from_lot sha (gp_lot_id gp) (gp_grams gp) ref_type ref_id user_id d) (\<lambda>(_, d).
     consume_lots sha user_id ref_type ref_id gps
       (dict_upd (karat_value k) (0, 0) (\<lambda>v. sd_add v (gp_grams gp)) tot) d))))"

section \<open>Debts\<close>

text \<open>A change of a balance, and its event. A row read from the database has three decimals.\<close>

definition balance_places :: "string \<Rightarrow> debt_unit \<Rightarrow> string \<Rightarrow> db \<Rightarrow> nat" where
  "balance_places sid u k d = (if filter (balance_key sid u k) (supplier_balances d) = [] then 0 else 3)"

record debt_change =
  dc_before :: sdec
  dc_after :: sdec

definition change_balance :: "string \<Rightarrow> debt_unit \<Rightarrow> string \<Rightarrow> sdec \<Rightarrow> db \<Rightarrow> (debt_change \<times> db) res" where
  "change_balance sid u k delta d =
     (let n = balance_places sid u k d in
      bnd (adjust_balance sid u k (snd delta) False d) (\<lambda>((before, after), d).
      Inr (\<lparr>dc_before = (n, before), dc_after = (max n (fst delta), after)\<rparr>, d)))"

definition record_debt ::
    "(string \<Rightarrow> string) \<Rightarrow> string \<Rightarrow> string \<Rightarrow> debt_unit \<Rightarrow> string \<Rightarrow> sdec \<Rightarrow> debt_change \<Rightarrow> (string \<times> pyval) list \<Rightarrow> db \<Rightarrow> db res" where
  "record_debt sha user_id sid u k delta c why d =
     bnd (ledger_record sha EVENT_SUPPLIER_BALANCE_CHANGED user_id ''supplier_balance''
            (sid @ '':'' @ debt_unit_value u @ '':'' @ k)
            (PDict ([(''supplier_id'', PStr sid), (''unit'', PStr (debt_unit_value u)),
                     (''karat'', if u = DEBT_CASH then PNone else PStr k), (''delta'', PStr (sd_text delta)),
                     (''before'', PStr (sd_text (dc_before c))), (''after'', PStr (sd_text (dc_after c)))] @ why)) d) (\<lambda>(_, d).
     Inr d)"

definition owe ::
    "(string \<Rightarrow> string) \<Rightarrow> string \<Rightarrow> string \<Rightarrow> string \<Rightarrow> debt_unit \<times> string \<times> sdec \<Rightarrow> db \<Rightarrow> db res" where
  "owe sha user_id sid purchase_id debt d =
     (case debt of (u, k, delta) \<Rightarrow>
        if 0 < snd delta
        then bnd (change_balance sid u k delta d) (\<lambda>(c, d).
             record_debt sha user_id sid u k delta c
               [(''reason'', PStr ''purchase''), (''purchase_id'', PStr purchase_id)] d)
        else Inr d)"

section \<open>Purchases\<close>

record purchase_in =
  pu_occurred_at :: "instant option"
  pu_payment_mode :: string
  pu_trade_markup_per_gram :: "sdec option"
  pu_total_cash_due :: sdec
  pu_total_grams_due_by_karat :: "(string \<times> sdec) list"
  pu_cash_paid_at_creation :: sdec
  pu_gold_payments_at_creation :: "gold_payment_in list"
  pu_items :: "purchase_item_in list"
  pu_notes :: "string option"

definition purchase_in_valid :: "purchase_in \<Rightarrow> bool" where
  "purchase_in_valid b \<longleftrightarrow> 0 \<le> snd (pu_total_cash_due b) \<and> 0 \<le> snd (pu_cash_paid_at_creation b)
     \<and> list_all (\<lambda>gp. 0 < snd (gp_grams gp)) (pu_gold_payments_at_creation b)
     \<and> list_all purchase_item_in_valid (pu_items b)"

definition add_purchase :: "supplier_purchase \<Rightarrow> db \<Rightarrow> supplier_purchase \<times> db" where
  "add_purchase p d =
     (let (k, d) = fresh_uid d; (now, d) = read_clock d;
          p = p\<lparr>sp_id := k, sp_occurred_at := Some (case sp_occurred_at p of Some t \<Rightarrow> t | None \<Rightarrow> now)\<rparr>
      in (p, d\<lparr>supplier_purchases := supplier_purchases d @ [p]\<rparr>))"

definition put_purchase :: "supplier_purchase \<Rightarrow> db \<Rightarrow> db" where
  "put_purchase p d = d\<lparr>supplier_purchases := upd_rows (\<lambda>x. sp_id x = sp_id p) (\<lambda>_. p) (supplier_purchases d)\<rparr>"

definition check_purchase :: "purchase_in \<Rightarrow> supplier_purchase_mode \<Rightarrow> unit res" where
  "check_purchase b m =
     raise_if (snd (pu_total_cash_due b) < snd (pu_cash_paid_at_creation b))
       (HTTPException 422 (Msg ''cash_paid_at_creation ({}) exceeds total_cash_due ({})''
          [ADec (snd (pu_cash_paid_at_creation b)), ADec (snd (pu_total_cash_due b))]))
    (raise_if (m = MODE_CASH \<and> (pu_gold_payments_at_creation b \<noteq> [] \<or> pu_total_grams_due_by_karat b \<noteq> []))
       (HTTPException 422 (Msg ''CASH payment_mode rejects any gold payments or gold dues'' []))
    (raise_if (m = MODE_GOLD \<and> (snd (pu_cash_paid_at_creation b) \<noteq> 0 \<or> snd (pu_total_cash_due b) \<noteq> 0))
       (HTTPException 422 (Msg ''GOLD payment_mode rejects any cash dues or cash payments'' []))
    (bnd (map_res (\<lambda>(k, _). parse_karat k) (pu_total_grams_due_by_karat b)) (\<lambda>_. Inr ()))))"

definition check_overpaid :: "(string \<times> sdec) list \<Rightarrow> string \<times> sdec \<Rightarrow> unit res" where
  "check_overpaid due kv =
     raise_if (snd (sd_get0 due (fst kv)) < snd (snd kv))
       (HTTPException 422 (Msg ''Gold paid {} K{} exceeds total due {} K{} on this purchase''
          [ADec (snd (snd kv)), AStr (fst kv), ADec (snd (sd_get0 due (fst kv))), AStr (fst kv)]))
       (Inr ())"

text \<open>What is owed after the purchase: cash first, then each karat of the dues.\<close>

definition purchase_debts :: "purchase_in \<Rightarrow> (string \<times> sdec) list \<Rightarrow> (debt_unit \<times> string \<times> sdec) list" where
  "purchase_debts b paid =
     (DEBT_CASH, [], (max (fst (pu_total_cash_due b)) (fst (pu_cash_paid_at_creation b)),
                      snd (pu_total_cash_due b) - snd (pu_cash_paid_at_creation b)))
     # map (\<lambda>(k, due). (DEBT_GOLD, k, (max (fst due) (fst (sd_get0 paid k)), snd due - snd (sd_get0 paid k))))
         (pu_total_grams_due_by_karat b)"

definition purchase_payload ::
    "supplier \<Rightarrow> supplier_purchase_mode \<Rightarrow> purchase_in \<Rightarrow> (string \<times> sdec) list \<Rightarrow> pyval" where
  "purchase_payload supr m b paid =
     PDict [(''supplier_id'', PStr (sup_id supr)), (''supplier_name'', PStr (sup_name supr)),
            (''payment_mode'', PStr (purchase_mode_value m)),
            (''total_cash_due'', PStr (sd_text (pu_total_cash_due b))),
            (''total_grams_due_by_karat'', text_dict (pu_total_grams_due_by_karat b)),
            (''cash_paid_at_creation'', PStr (sd_text (pu_cash_paid_at_creation b))),
            (''grams_paid_at_creation_by_karat'', text_dict paid),
            (''trade_markup_per_gram'', case pu_trade_markup_per_gram b of
               None \<Rightarrow> PNone | Some x \<Rightarrow> if snd x = 0 then PNone else PStr (sd_text x)),
            (''items'', PInt (int (length (pu_items b))))]"

definition new_purchase :: "purchase_in \<Rightarrow> supplier \<Rightarrow> supplier_purchase_mode \<Rightarrow> string \<Rightarrow> supplier_purchase" where
  "new_purchase b supr m user_id =
     \<lparr>sp_id = [], sp_supplier_id = sup_id supr, sp_occurred_at = pu_occurred_at b, sp_payment_mode = m,
      sp_trade_markup_per_gram = map_option snd (pu_trade_markup_per_gram b),
      sp_total_cash_due = snd (pu_total_cash_due b),
      sp_total_grams_due_by_karat = dec_dict (pu_total_grams_due_by_karat b),
      sp_cash_paid_at_creation = snd (pu_cash_paid_at_creation b), sp_grams_paid_at_creation_by_karat = [],
      sp_notes = pu_notes b, sp_created_by_user_id = user_id\<rparr>"

fun materialize_items ::
    "(string \<Rightarrow> string) \<Rightarrow> string \<Rightarrow> supplier_purchase \<Rightarrow> purchase_item_in list \<Rightarrow> db \<Rightarrow> db res" where
  "materialize_items sha user_id p [] d = Inr d"
| "materialize_items sha user_id p (b # bs) d =
     bnd (materialize_item sha user_id p b d) (\<lambda>(_, d). materialize_items sha user_id p bs d)"

definition create_purchase ::
    "(string \<Rightarrow> string) \<Rightarrow> settings option \<Rightarrow> string \<Rightarrow> purchase_in \<Rightarrow> string \<Rightarrow> db \<Rightarrow> (supplier_purchase \<times> db) res" where
  "create_purchase sha st supplier_id b user_id d =
     bnd (scalar_one_or_none (\<lambda>s. sup_id s = supplier_id) (suppliers d)) (\<lambda>row.
     case row of
       None \<Rightarrow> Inl (HTTPException 404 (Msg ''Supplier not found or inactive'' []))
     | Some supr \<Rightarrow>
     raise_if (\<not> sup_is_active supr) (HTTPException 404 (Msg ''Supplier not found or inactive'' []))
    (bnd (parse_enum purchase_mode_value purchase_modes ''Invalid payment_mode {}'' (pu_payment_mode b)) (\<lambda>m.
     bnd (check_purchase b m) (\<lambda>_.
     let (p, d) = add_purchase (new_purchase b supr m user_id) d in
     bnd (consume_lots sha user_id ''supplier_purchase'' (sp_id p) (pu_gold_payments_at_creation b) [] d) (\<lambda>(paid, d).
     bnd (map_res (check_overpaid (pu_total_grams_due_by_karat b)) paid) (\<lambda>_.
     let p = p\<lparr>sp_grams_paid_at_creation_by_karat := dec_dict paid\<rparr>; d = put_purchase p d in
     bnd (materialize_items sha user_id p (pu_items b) d) (\<lambda>d.
     bnd (fold_res (owe sha user_id (sup_id supr) (sp_id p)) (purchase_debts b paid) d) (\<lambda>d.
     bnd (ledger_record sha EVENT_SUPPLIER_PURCHASE user_id ''supplier_purchase'' (sp_id p)
            (purchase_payload supr m b paid) d) (\<lambda>(_, d).
     case st of
       None \<Rightarrow> Inr (p, d)
     | Some s \<Rightarrow> bnd (post_supplier_purchase sha p s user_id d) (\<lambda>(_, d). Inr (p, d)))))))))))"

section \<open>Repayments\<close>

record payment_in =
  py_unit :: string
  py_karat :: "string option"
  py_amount :: sdec
  py_gold_payments :: "gold_payment_in list"
  py_notes :: "string option"

definition payment_in_valid :: "payment_in \<Rightarrow> bool" where
  "payment_in_valid b \<longleftrightarrow> 0 < snd (py_amount b) \<and> list_all (\<lambda>gp. 0 < snd (gp_grams gp)) (py_gold_payments b)"

definition add_payment :: "supplier_payment \<Rightarrow> db \<Rightarrow> supplier_payment \<times> db" where
  "add_payment p d =
     (let (k, d) = fresh_uid d; (now, d) = read_clock d; p = p\<lparr>pay_id := k, pay_paid_at := Some now\<rparr>
      in (p, d\<lparr>supplier_payments := supplier_payments d @ [p]\<rparr>))"

definition put_payment_row :: "supplier_payment \<Rightarrow> db \<Rightarrow> db" where
  "put_payment_row p d = d\<lparr>supplier_payments := upd_rows (\<lambda>x. pay_id x = pay_id p) (\<lambda>_. p) (supplier_payments d)\<rparr>"

definition new_supplier_payment :: "payment_in \<Rightarrow> supplier \<Rightarrow> debt_unit \<Rightarrow> karat option \<Rightarrow> string \<Rightarrow> supplier_payment" where
  "new_supplier_payment b supr u k user_id =
     \<lparr>pay_id = [], pay_supplier_id = sup_id supr, pay_paid_at = None, pay_unit = u, pay_karat = k,
      pay_amount = snd (py_amount b), pay_source_lot_ids = None, pay_paid_by_user_id = user_id, pay_notes = py_notes b\<rparr>"

definition sd_neg :: "sdec \<Rightarrow> sdec" where
  "sd_neg x = (fst x, - snd x)"

definition pay_cash ::
    "(string \<Rightarrow> string) \<Rightarrow> supplier \<Rightarrow> payment_in \<Rightarrow> string \<Rightarrow> db \<Rightarrow> (supplier_payment \<times> db) res" where
  "pay_cash sha supr b user_id d =
     raise_if (\<not> falsy (py_karat b)) (HTTPException 422 (Msg ''CASH payment must not specify karat'' []))
    (raise_if (py_gold_payments b \<noteq> []) (HTTPException 422 (Msg ''CASH payment must not specify gold_payments'' []))
    (let (p, d) = add_payment (new_supplier_payment b supr DEBT_CASH None user_id) d; delta = sd_neg (py_amount b) in
     bnd (change_balance (sup_id supr) DEBT_CASH [] delta d) (\<lambda>(c, d).
     bnd (ledger_record sha EVENT_SUPPLIER_PAYMENT_CASH user_id ''supplier_payment'' (pay_id p)
            (PDict [(''supplier_id'', PStr (sup_id supr)), (''amount'', PStr (sd_text (py_amount b))),
                    (''balance_before'', PStr (sd_text (dc_before c))), (''balance_after'', PStr (sd_text (dc_after c))),
                    (''notes'', popt (py_notes b))]) d) (\<lambda>(_, d).
     bnd (record_debt sha user_id (sup_id supr) DEBT_CASH [] delta c
            [(''reason'', PStr ''payment''), (''payment_id'', PStr (pay_id p))] d) (\<lambda>d. Inr (p, d))))))"

definition pay_gold ::
    "(string \<Rightarrow> string) \<Rightarrow> supplier \<Rightarrow> payment_in \<Rightarrow> string \<Rightarrow> db \<Rightarrow> (supplier_payment \<times> db) res" where
  "pay_gold sha supr b user_id d =
     raise_if (falsy (py_karat b)) (HTTPException 422 (Msg ''GOLD payment requires karat'' []))
    (bnd (parse_karat (the (py_karat b))) (\<lambda>k.
     raise_if (py_gold_payments b = [])
       (HTTPException 422 (Msg ''GOLD payment requires gold_payments (which lots to draw)'' []))
    (let sum_grams = sum_of (\<lambda>gp. snd (gp_grams gp)) (py_gold_payments b) in
     raise_if (sum_grams \<noteq> snd (py_amount b))
       (HTTPException 422 (Msg ''GOLD payment amount ({}) must equal sum of grams drawn ({})''
          [ADec (snd (py_amount b)), ADec sum_grams]))
    (raise_if (\<exists>gp \<in> set (py_gold_payments b). gp_karat gp \<noteq> karat_value k)
       (HTTPException 422 (Msg ''All gold_payments must match payment karat {}'' [AStr (karat_value k)]))
    (let (p, d) = add_payment (new_supplier_payment b supr DEBT_GOLD (Some k) user_id) d; delta = sd_neg (py_amount b) in
     bnd (change_balance (sup_id supr) DEBT_GOLD (karat_value k) delta d) (\<lambda>(c, d).
     bnd (consume_lots sha user_id ''supplier_payment'' (pay_id p) (py_gold_payments b) [] d) (\<lambda>(used, d).
     let p = p\<lparr>pay_source_lot_ids := Some (map gp_lot_id (py_gold_payments b))\<rparr>; d = put_payment_row p d in
     bnd (ledger_record sha EVENT_SUPPLIER_PAYMENT_GOLD user_id ''supplier_payment'' (pay_id p)
            (PDict [(''supplier_id'', PStr (sup_id supr)), (''karat'', PStr (karat_value k)),
                    (''amount_grams'', PStr (sd_text (py_amount b))), (''lots_consumed'', text_dict used),
                    (''balance_before'', PStr (sd_text (dc_before c))), (''balance_after'', PStr (sd_text (dc_after c))),
                    (''notes'', popt (py_notes b))]) d) (\<lambda>(_, d).
     bnd (record_debt sha user_id (sup_id supr) DEBT_GOLD (karat_value k) delta c
            [(''reason'', PStr ''payment''), (''payment_id'', PStr (pay_id p))] d) (\<lambda>d. Inr (p, d))))))))))"

definition create_payment ::
    "(string \<Rightarrow> string) \<Rightarrow> settings option \<Rightarrow> string \<Rightarrow> payment_in \<Rightarrow> string \<Rightarrow> db \<Rightarrow> (supplier_payment \<times> db) res" where
  "create_payment sha st supplier_id b user_id d =
     bnd (find_supplier supplier_id d) (\<lambda>supr.
     bnd (parse_enum debt_unit_value debt_units ''Invalid unit {}'' (py_unit b)) (\<lambda>u.
     bnd (if u = DEBT_CASH then pay_cash sha supr b user_id d else pay_gold sha supr b user_id d) (\<lambda>(p, d).
     case st of
       None \<Rightarrow> Inr (p, d)
     | Some s \<Rightarrow> bnd (post_supplier_payment sha p s user_id d) (\<lambda>(_, d). Inr (p, d)))))"

section \<open>What is owed, store-wide\<close>

record ap_supplier_row =
  apr_supplier_id :: string
  apr_supplier_name :: string
  apr_balances :: "supplier_balance list"

record accounts_payable_out =
  apo_total_cash_owed :: dec
  apo_total_grams_owed_by_karat :: "(string \<times> dec) list"
  apo_suppliers :: "ap_supplier_row list"

text \<open>The join of the non-zero balances with their suppliers, by name.\<close>

definition owed_rows :: "db \<Rightarrow> (supplier_balance \<times> string) list" where
  "owed_rows d =
     sort_key snd (concat (map (\<lambda>b. map (\<lambda>s. (b, sup_name s)) (filter (\<lambda>s. sup_id s = sb_supplier_id b) (suppliers d)))
       (filter (\<lambda>b. sb_balance b \<noteq> 0) (supplier_balances d))))"

definition ap_step :: "supplier_balance \<times> string \<Rightarrow> accounts_payable_out \<Rightarrow> accounts_payable_out" where
  "ap_step row o' =
     (let b = fst row;
          o' = (if sb_unit b = DEBT_CASH then o'\<lparr>apo_total_cash_owed := apo_total_cash_owed o' + sb_balance b\<rparr>
                else o'\<lparr>apo_total_grams_owed_by_karat :=
                         dict_upd (sb_karat b) 0 (\<lambda>v. v + sb_balance b) (apo_total_grams_owed_by_karat o')\<rparr>);
          rows = apo_suppliers o';
          rows = (if \<exists>r \<in> set rows. apr_supplier_id r = sb_supplier_id b then rows
                  else rows @ [\<lparr>apr_supplier_id = sb_supplier_id b, apr_supplier_name = snd row, apr_balances = []\<rparr>])
      in o'\<lparr>apo_suppliers := upd_rows (\<lambda>r. apr_supplier_id r = sb_supplier_id b)
                               (\<lambda>r. r\<lparr>apr_balances := apr_balances r @ [b]\<rparr>) rows\<rparr>)"

definition accounts_payable :: "db \<Rightarrow> accounts_payable_out" where
  "accounts_payable d =
     fold ap_step (owed_rows d) \<lparr>apo_total_cash_owed = 0, apo_total_grams_owed_by_karat = [], apo_suppliers = []\<rparr>"

end
