(* ===== verification/StockTakes.thy ===== *)
theory StockTakes
  imports Orders
begin

text \<open>
  Physical counts: \<open>app/api/stock_takes.py\<close> and \<open>app/core/stock_take.py\<close>. A take goes from DRAFT
  (lines are added, edited, removed) to SUBMITTED (what the system expects is frozen into
  every line) to CLOSED (every line is resolved). Approving a line posts its variance
  through the one adjustment core; nothing here writes a quantity itself. The lock on the
  parent row is the handler's atomicity: each handler is one step on the database.
\<close>

definition EVENT_STOCK_TAKE_STARTED :: string where "EVENT_STOCK_TAKE_STARTED = ''STOCK_TAKE_STARTED''"
definition EVENT_STOCK_TAKE_SUBMITTED :: string where "EVENT_STOCK_TAKE_SUBMITTED = ''STOCK_TAKE_SUBMITTED''"
definition EVENT_STOCK_TAKE_LINE_APPROVED :: string where
  "EVENT_STOCK_TAKE_LINE_APPROVED = ''STOCK_TAKE_LINE_APPROVED''"
definition EVENT_STOCK_TAKE_LINE_REJECTED :: string where
  "EVENT_STOCK_TAKE_LINE_REJECTED = ''STOCK_TAKE_LINE_REJECTED''"
definition EVENT_STOCK_TAKE_CLOSED :: string where "EVENT_STOCK_TAKE_CLOSED = ''STOCK_TAKE_CLOSED''"

fun ref_type_value :: "stock_take_ref_type \<Rightarrow> string" where
  "ref_type_value REF_COIN_STOCK = ''COIN_STOCK''"
| "ref_type_value REF_OUNCE_STOCK = ''OUNCE_STOCK''"

definition ref_types :: "stock_take_ref_type list" where "ref_types = [REF_COIN_STOCK, REF_OUNCE_STOCK]"

fun take_status_value :: "stock_take_status \<Rightarrow> string" where
  "take_status_value DRAFT = ''DRAFT''"
| "take_status_value SUBMITTED = ''SUBMITTED''"
| "take_status_value CLOSED = ''CLOSED''"

definition take_statuses :: "stock_take_status list" where "take_statuses = [DRAFT, SUBMITTED, CLOSED]"

fun resolution_value :: "stock_take_line_resolution \<Rightarrow> string" where
  "resolution_value PENDING = ''PENDING''"
| "resolution_value APPROVED = ''APPROVED''"
| "resolution_value REJECTED = ''REJECTED''"
| "resolution_value NO_VARIANCE = ''NO_VARIANCE''"

fun to_adjustment_target :: "stock_take_ref_type \<Rightarrow> adjustment_target" where
  "to_adjustment_target REF_COIN_STOCK = TARGET_COIN_STOCK"
| "to_adjustment_target REF_OUNCE_STOCK = TARGET_OUNCE_STOCK"

section \<open>Reading and writing rows\<close>

definition parse_ref_type :: "string \<Rightarrow> stock_take_ref_type res" where
  "parse_ref_type s =
     parse_enum ref_type_value ref_types ''Invalid ref_type {}; expected COIN_STOCK or OUNCE_STOCK'' s"

definition get_target_on_hand_qty :: "db \<Rightarrow> stock_take_ref_type \<Rightarrow> string \<Rightarrow> int res" where
  "get_target_on_hand_qty d ref_type ref_id =
     bnd (or_raise (HTTPException 404 (Msg ''{} {} not found at submit time'' [AStr (ref_type_value ref_type), AStr ref_id]))
            (find_unit (ref_type = REF_COIN_STOCK) ref_id d)) (\<lambda>u. Inr (ut_on_hand_qty u))"

definition load_take_or_404 :: "db \<Rightarrow> string \<Rightarrow> stock_take res" where
  "load_take_or_404 d i =
     fetch (HTTPException 404 (Msg ''Stock-take {} not found'' [AStr i])) (\<lambda>t. sto_id t = i) (stock_takes d)"

definition fresh_lines :: "db \<Rightarrow> string \<Rightarrow> stock_take_line list" where
  "fresh_lines d i = filter (\<lambda>l. stl_stock_take_id l = i) (stock_take_lines d)"

definition find_take_line :: "db \<Rightarrow> string \<Rightarrow> string \<Rightarrow> stock_take_line res" where
  "find_take_line d i line_id =
     fetch (HTTPException 404 (Msg ''Line {} not found'' [AStr line_id]))
       (\<lambda>l. stl_id l = line_id \<and> stl_stock_take_id l = i) (stock_take_lines d)"

definition put_take :: "stock_take \<Rightarrow> db \<Rightarrow> db" where
  "put_take t d = d\<lparr>stock_takes := upd_rows (\<lambda>x. sto_id x = sto_id t) (\<lambda>_. t) (stock_takes d)\<rparr>"

definition put_take_line :: "stock_take_line \<Rightarrow> db \<Rightarrow> db" where
  "put_take_line l d = d\<lparr>stock_take_lines := upd_rows (\<lambda>x. stl_id x = stl_id l) (\<lambda>_. l) (stock_take_lines d)\<rparr>"

definition wrong_status :: "string \<Rightarrow> stock_take_status \<Rightarrow> err" where
  "wrong_status what s = HTTPException 409 (Msg ''Cannot {} stock-take in status {}'' [AStr what, AStr (take_status_value s)])"

section \<open>Closing\<close>

definition resolved_count :: "stock_take_line_resolution \<Rightarrow> stock_take_line list \<Rightarrow> int" where
  "resolved_count r ls = int (length (filter (\<lambda>l. stl_resolution l = r) ls))"

definition maybe_close_take :: "(string \<Rightarrow> string) \<Rightarrow> stock_take \<Rightarrow> string \<Rightarrow> db \<Rightarrow> (stock_take \<times> db) res" where
  "maybe_close_take sha t actor d =
     (if sto_status t = CLOSED then Inr (t, d)
      else let ls = fresh_lines d (sto_id t) in
        if 0 < resolved_count PENDING ls then Inr (t, d)
        else let (now, d) = read_clock d; t = t\<lparr>sto_status := CLOSED, sto_closed_at := Some now\<rparr>; d = put_take t d in
          bnd (ledger_record sha EVENT_STOCK_TAKE_CLOSED actor ''stock_take'' (sto_id t)
                 (PDict [(''approved_count'', PInt (resolved_count APPROVED ls)),
                         (''rejected_count'', PInt (resolved_count REJECTED ls)),
                         (''no_variance_count'', PInt (resolved_count NO_VARIANCE ls))]) d) (\<lambda>(_, d). Inr (t, d)))"

section \<open>Drafting\<close>

definition create_stock_take :: "(string \<Rightarrow> string) \<Rightarrow> string option \<Rightarrow> string \<Rightarrow> db \<Rightarrow> (stock_take \<times> db) res" where
  "create_stock_take sha notes user_id d =
     (let (k, d) = fresh_uid d; (now, d) = read_clock d;
          t = \<lparr>sto_id = k, sto_started_at = now, sto_started_by_user_id = user_id, sto_submitted_at = None,
               sto_closed_at = None, sto_status = DRAFT, sto_notes = notes\<rparr>;
          d = d\<lparr>stock_takes := stock_takes d @ [t]\<rparr> in
      bnd (ledger_record sha EVENT_STOCK_TAKE_STARTED user_id ''stock_take'' (sto_id t)
             (PDict [(''notes'', popt notes)]) d) (\<lambda>(_, d). Inr (t, d)))"

text \<open>The unique index, whose violation the handler answers with a conflict.\<close>

definition add_line :: "string \<Rightarrow> string \<Rightarrow> string \<Rightarrow> int \<Rightarrow> db \<Rightarrow> (stock_take_line \<times> db) res" where
  "add_line take_id ref_type ref_id counted_qty d =
     bnd (load_take_or_404 d take_id) (\<lambda>t.
     raise_if (sto_status t \<noteq> DRAFT) (wrong_status ''add lines to'' (sto_status t))
    (bnd (parse_ref_type ref_type) (\<lambda>rt.
     bnd (get_target_on_hand_qty d rt ref_id) (\<lambda>_.
     raise_if (\<exists>l \<in> set (fresh_lines d (sto_id t)). stl_ref_type l = rt \<and> stl_ref_id l = ref_id)
       (HTTPException 409 (Msg ''A line for ({}, {}) already exists in this stock-take.'' [AStr ref_type, AStr ref_id]))
    (let (k, d) = fresh_uid d;
         l = \<lparr>stl_id = k, stl_stock_take_id = sto_id t, stl_ref_type = rt, stl_ref_id = ref_id,
              stl_counted_qty = counted_qty, stl_expected_qty_at_submit = None, stl_variance = None,
              stl_resolution = PENDING, stl_rejection_reason = None, stl_adjustment_id = None,
              stl_resolved_at = None, stl_resolved_by_user_id = None\<rparr> in
     Inr (l, d\<lparr>stock_take_lines := stock_take_lines d @ [l]\<rparr>))))))"

definition edit_line :: "string \<Rightarrow> string \<Rightarrow> int \<Rightarrow> db \<Rightarrow> (stock_take_line \<times> db) res" where
  "edit_line take_id line_id counted_qty d =
     bnd (load_take_or_404 d take_id) (\<lambda>t.
     raise_if (sto_status t \<noteq> DRAFT) (wrong_status ''edit lines on'' (sto_status t))
    (bnd (find_take_line d take_id line_id) (\<lambda>l.
     let l = l\<lparr>stl_counted_qty := counted_qty\<rparr> in Inr (l, put_take_line l d))))"

definition remove_line :: "string \<Rightarrow> string \<Rightarrow> db \<Rightarrow> (unit \<times> db) res" where
  "remove_line take_id line_id d =
     bnd (load_take_or_404 d take_id) (\<lambda>t.
     raise_if (sto_status t \<noteq> DRAFT) (wrong_status ''delete lines on'' (sto_status t))
    (bnd (find_take_line d take_id line_id) (\<lambda>l.
     Inr ((), d\<lparr>stock_take_lines := filter (\<lambda>x. stl_id x \<noteq> stl_id l) (stock_take_lines d)\<rparr>))))"

section \<open>Submitting\<close>

definition freeze_line :: "stock_take_line \<Rightarrow> int \<Rightarrow> stock_take_line" where
  "freeze_line l expected =
     l\<lparr>stl_expected_qty_at_submit := Some expected, stl_variance := Some (stl_counted_qty l - expected)\<rparr>"

definition mark_line :: "stock_take_line_resolution \<Rightarrow> instant \<Rightarrow> string \<Rightarrow> stock_take_line \<Rightarrow> stock_take_line" where
  "mark_line r now user_id l =
     l\<lparr>stl_resolution := r, stl_resolved_at := Some now, stl_resolved_by_user_id := Some user_id\<rparr>"

fun submit_lines :: "string \<Rightarrow> stock_take_line list \<Rightarrow> db \<Rightarrow> (stock_take_line list \<times> db) res" where
  "submit_lines user_id [] d = Inr ([], d)"
| "submit_lines user_id (l # ls) d =
     bnd (get_target_on_hand_qty d (stl_ref_type l) (stl_ref_id l)) (\<lambda>expected.
     let l = freeze_line l expected;
         (l, d) = (if stl_variance l = Some 0 then let (now, d) = read_clock d in (mark_line NO_VARIANCE now user_id l, d)
                   else (l, d)) in
     bnd (submit_lines user_id ls (put_take_line l d)) (\<lambda>(ls, d). Inr (l # ls, d)))"

definition variances :: "stock_take_line list \<Rightarrow> int list" where
  "variances ls = filter (\<lambda>v. v \<noteq> 0) (map (\<lambda>l. the (stl_variance l)) ls)"

definition submit_stock_take :: "(string \<Rightarrow> string) \<Rightarrow> string \<Rightarrow> string \<Rightarrow> db \<Rightarrow> (stock_take \<times> db) res" where
  "submit_stock_take sha take_id user_id d =
     bnd (load_take_or_404 d take_id) (\<lambda>t.
     raise_if (sto_status t \<noteq> DRAFT) (wrong_status ''submit'' (sto_status t))
    (let ls = fresh_lines d take_id in
     raise_if (ls = []) (HTTPException 422 (Msg ''Cannot submit a stock-take with zero lines'' []))
    (bnd (submit_lines user_id ls d) (\<lambda>(ls, d).
     let (now, d) = read_clock d; t = t\<lparr>sto_status := SUBMITTED, sto_submitted_at := Some now\<rparr>; d = put_take t d in
     bnd (ledger_record sha EVENT_STOCK_TAKE_SUBMITTED user_id ''stock_take'' (sto_id t)
            (PDict [(''line_count'', PInt (int (length ls))), (''variance_count'', PInt (int (length (variances ls)))),
                    (''total_variance_abs'', PInt (sum_list (map abs (variances ls))))]) d) (\<lambda>(_, d).
     maybe_close_take sha t user_id d)))))"

section \<open>Resolving\<close>

definition line_payload :: "stock_take \<Rightarrow> stock_take_line \<Rightarrow> string \<Rightarrow> string \<Rightarrow> pyval" where
  "line_payload t l key v =
     PDict [(''stock_take_id'', PStr (sto_id t)), (''ref_type'', PStr (ref_type_value (stl_ref_type l))),
            (''ref_id'', PStr (stl_ref_id l)), (''counted_qty'', PInt (stl_counted_qty l)),
            (''expected_qty'', case stl_expected_qty_at_submit l of None \<Rightarrow> PNone | Some n \<Rightarrow> PInt n),
            (''variance'', case stl_variance l of None \<Rightarrow> PNone | Some n \<Rightarrow> PInt n), (key, PStr v)]"

definition approve_line ::
    "(string \<Rightarrow> string) \<Rightarrow> string \<Rightarrow> string \<Rightarrow> string \<Rightarrow> db \<Rightarrow> (stock_take_line \<times> db) res" where
  "approve_line sha take_id line_id user_id d =
     bnd (load_take_or_404 d take_id) (\<lambda>t.
     raise_if (sto_status t \<noteq> SUBMITTED) (wrong_status ''approve lines on'' (sto_status t))
    (bnd (find_take_line d take_id line_id) (\<lambda>l.
     raise_if (stl_resolution l \<noteq> PENDING)
       (HTTPException 409 (Msg ''Line is already {}; cannot approve.'' [AStr (resolution_value (stl_resolution l))]))
    (raise_if (stl_variance l = None \<or> stl_variance l = Some 0)
       (HTTPException 409 (Msg ''Line has no variance to approve (should have been NO_VARIANCE).'' []))
    (bnd (apply_unit_stock_adjustment_core sha (to_adjustment_target (stl_ref_type l)) (stl_ref_id l)
            (of_int (the (stl_variance l))) CORRECTION
            (''Stock-take '' @ sto_id t @ '' approval (line '' @ stl_id l @ '')'') user_id
            [(''stock_take_line_id'', PStr (stl_id l))] d) (\<lambda>(adj, d).
     let (now, d) = read_clock d; l = (mark_line APPROVED now user_id l)\<lparr>stl_adjustment_id := Some (ma_id adj)\<rparr>;
         d = put_take_line l d in
     bnd (ledger_record sha EVENT_STOCK_TAKE_LINE_APPROVED user_id ''stock_take_line'' (stl_id l)
            (line_payload t l ''adjustment_id'' (ma_id adj)) d) (\<lambda>(_, d).
     bnd (maybe_close_take sha t user_id d) (\<lambda>(_, d). Inr (l, d)))))))))"

definition reject_line ::
    "(string \<Rightarrow> string) \<Rightarrow> string \<Rightarrow> string \<Rightarrow> string \<Rightarrow> string \<Rightarrow> db \<Rightarrow> (stock_take_line \<times> db) res" where
  "reject_line sha take_id line_id reason user_id d =
     bnd (load_take_or_404 d take_id) (\<lambda>t.
     raise_if (sto_status t \<noteq> SUBMITTED) (wrong_status ''reject lines on'' (sto_status t))
    (bnd (find_take_line d take_id line_id) (\<lambda>l.
     raise_if (stl_resolution l \<noteq> PENDING)
       (HTTPException 409 (Msg ''Line is already {}; cannot reject.'' [AStr (resolution_value (stl_resolution l))]))
    (let (now, d) = read_clock d; l = (mark_line REJECTED now user_id l)\<lparr>stl_rejection_reason := Some reason\<rparr>;
         d = put_take_line l d in
     bnd (ledger_record sha EVENT_STOCK_TAKE_LINE_REJECTED user_id ''stock_take_line'' (stl_id l)
            (line_payload t l ''reason'' reason) d) (\<lambda>(_, d).
     bnd (maybe_close_take sha t user_id d) (\<lambda>(_, d). Inr (l, d)))))))"

section \<open>Listing\<close>

record stock_take_list_item =
  sli_take :: stock_take
  sli_line_count :: nat
  sli_variance_line_count :: nat
  sli_approved_count :: int
  sli_rejected_count :: int

definition stock_take_summary :: "db \<Rightarrow> stock_take \<Rightarrow> stock_take_list_item" where
  "stock_take_summary d t =
     (let ls = fresh_lines d (sto_id t) in
      \<lparr>sli_take = t, sli_line_count = length ls,
       sli_variance_line_count = length (filter (\<lambda>l. stl_variance l \<noteq> None \<and> stl_variance l \<noteq> Some 0) ls),
       sli_approved_count = resolved_count APPROVED ls, sli_rejected_count = resolved_count REJECTED ls\<rparr>)"

text \<open>One page, the last started first, and the number of all.\<close>

definition list_stock_takes :: "string \<Rightarrow> nat \<Rightarrow> nat \<Rightarrow> db \<Rightarrow> (stock_take_list_item list \<times> nat) res" where
  "list_stock_takes status_filter page page_size d =
     bnd (if status_filter = [] then Inr (stock_takes d)
          else bnd (parse_enum take_status_value take_statuses ''Invalid status {}'' status_filter)
            (\<lambda>s. Inr (filter (\<lambda>t. sto_status t = s) (stock_takes d)))) (\<lambda>rows.
     Inr (map (stock_take_summary d)
            (take page_size (drop ((page - 1) * page_size) (sort_key (\<lambda>t. - sto_started_at t) rows))), length rows))"

end
