(* ===== verification/Stock_Facts.thy ===== *)
theory Stock_Facts
  imports Stock
begin

text \<open>
  What the lots and the adjustments guarantee. First the frame: the books' writers leave
  the goods alone (\<open>keeps_goods\<close>), and the goods' writers leave the books alone. Then the
  conservation of lots: what is left in a lot is its weight, less what was consumed, plus
  what was adjusted, and never below zero.
\<close>

section \<open>The books leave the goods alone\<close>

definition goods ::
    "db \<Rightarrow> (product list \<times> coin_type list \<times> ounce_type list \<times> order list)
       \<times> (gold_lot list \<times> gold_lot_consumption list \<times> manual_adjustment list)
       \<times> (supplier_balance list \<times> walkin_buyback list \<times> stock_take list \<times> stock_take_line list)
       \<times> (supplier list \<times> supplier_purchase list \<times> supplier_payment list)" where
  "goods d = ((products d, coin_types d, ounce_types d, orders d),
              (gold_lots d, lot_consumptions d, adjustments d),
              (supplier_balances d, buybacks d, stock_takes d, stock_take_lines d),
              (suppliers d, supplier_purchases d, supplier_payments d))"

definition keeps_goods :: "db \<Rightarrow> db \<Rightarrow> bool" where
  "keeps_goods d d' \<longleftrightarrow> goods d' = goods d \<and> uid_next d \<le> uid_next d'"

lemma keeps_goods_refl [simp]: "keeps_goods d d"
  by (simp add: keeps_goods_def)

lemma keeps_goods_trans: "keeps_goods a b \<Longrightarrow> keeps_goods b c \<Longrightarrow> keeps_goods a c"
  by (auto simp: keeps_goods_def)

lemma ledger_record_goods: "ledger_record sha ev ac rt ri p d = Inr (r, d') \<Longrightarrow> keeps_goods d d'"
  by (subst ledger_record_frame(1), assumption) (simp add: keeps_goods_def goods_def)

lemma post_entry_goods:
  assumes "post_entry sha q d = Inr (e, d')"
  shows "keeps_goods d d'"
proof -
  obtain ls where "posted sha q d e ls d'" and
    fr: "d' = d\<lparr>clock := clock d', uid_next := uid_next d', inv_ledger := inv_ledger d', inv_head := inv_head d',
               gl_entries := gl_entries d', gl_lines := gl_lines d', gl_head := gl_head d', gl_seqs := gl_seqs d'\<rparr>"
    using assms by (rule post_entry_full)
  then have "uid_next d \<le> uid_next d'" by (simp add: posted_def)
  moreover have "goods d' = goods d" unfolding goods_def by (subst (1 2 3 4 5 6 7 8 9 10 11 12 13 14) fr) simp
  ultimately show ?thesis by (simp add: keeps_goods_def)
qed

lemma ensure_period_goods: "ensure_period dt d = Inr (p, d') \<Longrightarrow> keeps_goods d d'"
  by (auto simp: ensure_period_def res_simps split: option.splits dest!: add_period_frame(1))
    (simp add: keeps_goods_def goods_def)

lemma reverse_entry_goods: "reverse_entry sha i actor dt memo d = Inr (e, d') \<Longrightarrow> keeps_goods d d'"
  by (auto elim: reverse_entry_proper dest: post_entry_goods)

lemmas goods_dests = ensure_period_goods post_entry_goods reverse_entry_goods ledger_record_goods

lemma post_sale_goods: "post_sale sha ord st actor d = Inr (r, d') \<Longrightarrow> keeps_goods d d'"
  by (auto simp: post_sale_def res_simps Let_def split: if_splits dest!: goods_dests intro: keeps_goods_trans)

lemma post_order_refund_goods:
  "post_order_refund sha ord st actor ri rv rq rs dt d = Inr (r, d') \<Longrightarrow> keeps_goods d d'"
  by (auto simp: post_order_refund_def post_item_refund_def res_simps Let_def split: if_splits option.splits
      dest!: goods_dests intro: keeps_goods_trans)

lemma post_adjustment_goods: "post_adjustment sha a st actor d = Inr (r, d') \<Longrightarrow> keeps_goods d d'"
  by (cases "ad_karat a"; cases "ad_grams a")
    (auto simp: post_adjustment_def res_simps Let_def split: if_splits dest!: goods_dests intro: keeps_goods_trans)

lemma post_melt_goods: "post_melt sha m st actor d = Inr (r, d') \<Longrightarrow> keeps_goods d d'"
  by (auto simp: post_melt_def res_simps Let_def split: if_splits dest!: goods_dests intro: keeps_goods_trans)

lemma post_buyback_goods: "post_buyback sha b st actor d = Inr (r, d') \<Longrightarrow> keeps_goods d d'"
  by (cases "wb_karat b"; cases "wb_weight_grams b")
    (auto simp: post_buyback_def res_simps Let_def split: if_splits dest!: goods_dests intro: keeps_goods_trans)

lemma post_supplier_payment_goods: "post_supplier_payment sha p st actor d = Inr (r, d') \<Longrightarrow> keeps_goods d d'"
  by (auto simp: post_supplier_payment_def res_simps Let_def split: if_splits dest!: goods_dests intro: keeps_goods_trans)

lemma post_supplier_purchase_goods: "post_supplier_purchase sha p st actor d = Inr (r, d') \<Longrightarrow> keeps_goods d d'"
  by (auto simp: post_supplier_purchase_def res_simps Let_def split: if_splits dest!: goods_dests intro: keeps_goods_trans)

section \<open>The goods' writers leave the books alone\<close>

lemma put_same_books:
  "same_books d (put_lot l d)" "same_books d (put_product p d)" "same_books d (put_coin c d)" "same_books d (put_ounce z d)"
  by (simp_all add: same_books_def put_lot_def put_product_def put_coin_def put_ounce_def)

lemma add_lot_frame: "add_lot l d = (l', d') \<Longrightarrow> l' = l\<lparr>lot_id := uid (uid_next d)\<rparr>
    \<and> d' = d\<lparr>uid_next := Suc (uid_next d), gold_lots := gold_lots d @ [l']\<rparr>"
  by (auto simp: add_lot_def fresh_uid_def Let_def)

lemma add_lot_same_books: "add_lot l d = (l', d') \<Longrightarrow> same_books d d'"
  by (auto simp: same_books_def dest: add_lot_frame)

lemma add_adjustment_frame: "add_adjustment t i delta r n ac d = (a, d') \<Longrightarrow>
    d' = d\<lparr>uid_next := Suc (uid_next d), clock := clock d + 1, adjustments := adjustments d @ [a]\<rparr>
    \<and> ma_target_type a = t \<and> ma_target_id a = i \<and> ma_delta a = delta"
  by (auto simp: add_adjustment_def fresh_uid_def read_clock_def Let_def)

lemma add_adjustment_same_books: "add_adjustment t i delta r n ac d = (a, d') \<Longrightarrow> same_books d d'"
  by (auto simp: same_books_def dest!: add_adjustment_frame)

text \<open>What a successful debit is.\<close>

lemma debit_lot_id [simp]: "lot_id (debit_lot lot g) = lot_id lot"
  by (simp add: debit_lot_def Let_def)

lemma consume_from_lot_steps:
  assumes "consume_from_lot sha i gr rt ri actor d = Inr (c, d')"
  obtains lot d1 where "filter (\<lambda>l. lot_id l = i) (gold_lots d) = [lot]"
    "0 < snd gr" "\<not> lot_is_depleted lot" "snd gr \<le> lot_weight_remaining_grams lot"
    "gc_lot_id c = lot_id lot" "gc_grams c = snd gr" "gc_cost_basis_consumed_usd c = cost_share lot (snd gr)"
    "d1 = put_lot (debit_lot lot (snd gr)) (d\<lparr>uid_next := Suc (uid_next d), lot_consumptions := lot_consumptions d @ [c]\<rparr>)"
    "\<exists>p r d2. ledger_record sha EVENT_LOT_CONSUMED actor ''gold_lot'' (lot_id lot) p d1 = Inr (r, d2)
       \<and> (d' = d2 \<or> (\<exists>p r. ledger_record sha EVENT_LOT_DEPLETED actor ''gold_lot'' (lot_id lot) p d2 = Inr (r, d')))"
  using assms
  by (auto simp: consume_from_lot_def res_simps Let_def fresh_uid_def split: if_splits intro!: that) blast+

lemma adjust_lot_steps:
  assumes "adjust_lot sha st b reason actor d = Inr (a, d')"
  obtains lot d2 p r d3 where "filter (\<lambda>l. lot_id l = an_target_id b) (gold_lots d) = [lot]"
    "0 \<le> lot_weight_remaining_grams lot + snd (an_delta b)"
    "add_adjustment TARGET_LOT (an_target_id b) (snd (an_delta b)) reason (an_notes b) actor
       (put_lot (lot\<lparr>lot_weight_remaining_grams := lot_weight_remaining_grams lot + snd (an_delta b),
                     lot_is_depleted := lot_weight_remaining_grams lot + snd (an_delta b) \<le> 0\<rparr>) d) = (a, d2)"
    "ledger_record sha EVENT_MANUAL_ADJUSTMENT actor ''gold_lot'' (lot_id lot) p d2 = Inr (r, d3)"
    "d' = d3 \<or> (\<exists>x s e. post_adjustment sha x s actor d3 = Inr (e, d'))"
proof (cases st)
  case None
  then show ?thesis using assms by (auto simp: adjust_lot_def res_simps Let_def not_less intro!: that)
next
  case (Some s)
  show ?thesis
  proof (cases "snd (an_delta b) < 0")
    case True
    then show ?thesis using assms Some by (auto simp: adjust_lot_def res_simps Let_def not_less intro!: that)
  next
    case False
    then show ?thesis using assms Some by (auto simp: adjust_lot_def res_simps Let_def not_less intro!: that)
  qed
qed

lemma apply_unit_steps:
  assumes "apply_unit_stock_adjustment_core sha t i delta reason notes actor extra d = Inr (a, d')"
  obtains d1 d2 ev rt ri p r where "(\<exists>c. d1 = put_coin c d) \<or> (\<exists>z. d1 = put_ounce z d)"
    "add_adjustment t i delta reason notes actor d1 = (a, d2)" "ledger_record sha ev actor rt ri p d2 = Inr (r, d')"
  using assms
  by (auto simp: apply_unit_stock_adjustment_core_def res_simps Let_def split: if_split_asm) blast+

context journal_invariant
begin

lemma inv_consume_from_lot:
  assumes "consume_from_lot sha i gr rt ri actor d = Inr (c, d')" "Inv d"
  shows "Inv d'"
  using assms(1)
proof (cases rule: consume_from_lot_steps)
  case (1 lot d1)
  have "same_books d d1" unfolding 1(8) by (simp add: same_books_def put_lot_def)
  then have "Inv d1" using assms(2) by (rule inv_frame)
  then show ?thesis using 1(9) by (blast intro: inv_record)
qed

lemma inv_create_lot:
  assumes "create_lot sha b actor d = Inr (l, d')" "Inv d"
  shows "Inv d'"
proof -
  obtain x d1 p r where "add_lot x (d\<lparr>clock := clock d + 1\<rparr>) = (l, d1)"
    "ledger_record sha EVENT_LOT_CREATED actor ''gold_lot'' (lot_id l) p d1 = Inr (r, d')"
    using assms(1) by (auto simp: create_lot_def res_simps Let_def read_clock_def)
  moreover have "same_books d (d\<lparr>clock := clock d + 1\<rparr>)" by (simp add: same_books_def)
  ultimately show ?thesis
    using inv_record inv_frame [OF add_lot_same_books] inv_frame [OF _ assms(2)] by blast
qed

text \<open>Goods changed, an adjustment added, an event written.\<close>

lemma inv_adjusted:
  assumes "same_books d d1" "add_adjustment t i delta reason notes actor d1 = (a, d2)"
    "ledger_record sha ev ac rt ri p d2 = Inr (r, d3)" "Inv d"
  shows "Inv d3"
  using inv_record [OF assms(3) inv_frame [OF add_adjustment_same_books [OF assms(2)] inv_frame [OF assms(1,4)]]] .

lemma inv_adjust_lot:
  assumes "adjust_lot sha st b reason actor d = Inr (a, d')" "Inv d"
  shows "Inv d'"
  using assms(1)
proof (cases rule: adjust_lot_steps)
  case (1 lot d2 p r d3)
  have "Inv d3" by (rule inv_adjusted [OF put_same_books(1) 1(3,4) assms(2)])
  then show ?thesis using 1(5) adjustment.run_inv [OF journal_invariant_axioms] by blast
qed

lemma inv_adjust_product:
  assumes "adjust_product sha b reason actor d = Inr (a, d')" "Inv d"
  shows "Inv d'"
proof -
  obtain x d2 p r where "add_adjustment TARGET_PRODUCT (an_target_id b) (snd (an_delta b)) reason (an_notes b) actor (put_product x d) = (a, d2)"
    "ledger_record sha EVENT_PRODUCT_STATUS_CHANGED actor ''product'' (pr_id x) p d2 = Inr (r, d')"
    using assms(1)
    by (auto simp: adjust_product_def res_simps Let_def split: if_split_asm)
  then show ?thesis by (rule inv_adjusted [OF put_same_books(2) _ _ assms(2)])
qed

lemma inv_apply_unit_stock_adjustment:
  assumes "apply_unit_stock_adjustment_core sha t i delta reason notes actor extra d = Inr (a, d')" "Inv d"
  shows "Inv d'"
  using assms(1)
proof (cases rule: apply_unit_steps)
  case (1 d1 d2 ev rt ri p r)
  have "same_books d d1" using 1(1) put_same_books by blast
  then show ?thesis by (rule inv_adjusted [OF _ 1(2,3) assms(2)])
qed

lemma inv_create_adjustment:
  assumes "create_adjustment sha st b actor d = Inr (a, d')" "Inv d"
  shows "Inv d'"
proof -
  obtain t reason where "(case t of
        TARGET_PRODUCT \<Rightarrow> adjust_product sha b reason actor d
      | TARGET_LOT \<Rightarrow> adjust_lot sha st b reason actor d
      | _ \<Rightarrow> apply_unit_stock_adjustment_core sha t (an_target_id b) (snd (an_delta b)) reason (an_notes b) actor [] d)
    = Inr (a, d')"
    using assms(1) by (auto simp: create_adjustment_def res_simps)
  then show ?thesis
    using inv_adjust_lot inv_adjust_product inv_apply_unit_stock_adjustment assms(2) by (cases t) auto
qed

end


section \<open>Lots are conserved\<close>

definition consumed :: "db \<Rightarrow> string \<Rightarrow> dec" where
  "consumed d i = sum_of gc_grams (filter (\<lambda>c. gc_lot_id c = i) (lot_consumptions d))"

definition adjusted :: "db \<Rightarrow> string \<Rightarrow> dec" where
  "adjusted d i = sum_of ma_delta (filter (\<lambda>a. ma_target_type a = TARGET_LOT \<and> ma_target_id a = i) (adjustments d))"

definition lot_ok :: "db \<Rightarrow> gold_lot \<Rightarrow> bool" where
  "lot_ok d l \<longleftrightarrow> 0 \<le> lot_weight_remaining_grams l \<and> lot_is_depleted l = (lot_weight_remaining_grams l = 0)
     \<and> lot_weight_remaining_grams l = lot_weight_grams l - consumed d (lot_id l) + adjusted d (lot_id l)"

definition lots_ok :: "db \<Rightarrow> bool" where
  "lots_ok d \<longleftrightarrow> distinct (map lot_id (gold_lots d)) \<and> (\<forall>l \<in> set (gold_lots d). lot_ok d l)
     \<and> (\<forall>l \<in> set (gold_lots d). \<exists>k < uid_next d. lot_id l = uid k)
     \<and> (\<forall>c \<in> set (lot_consumptions d). gc_lot_id c \<in> lot_id ` set (gold_lots d))
     \<and> (\<forall>a \<in> set (adjustments d). ma_target_type a = TARGET_LOT \<longrightarrow> ma_target_id a \<in> lot_id ` set (gold_lots d))"

lemma lots_ok_empty: "lots_ok (empty_db t)"
  by (simp add: lots_ok_def empty_db_def)

lemma lots_ok_cong:
  assumes "gold_lots d' = gold_lots d" "lot_consumptions d' = lot_consumptions d" "uid_next d \<le> uid_next d'"
    "filter (\<lambda>a. ma_target_type a = TARGET_LOT) (adjustments d') = filter (\<lambda>a. ma_target_type a = TARGET_LOT) (adjustments d)"
    "lots_ok d"
  shows "lots_ok d'"
proof -
  have f: "filter (\<lambda>a. ma_target_type a = TARGET_LOT \<and> ma_target_id a = i) xs
      = filter (\<lambda>a. ma_target_id a = i) (filter (\<lambda>a. ma_target_type a = TARGET_LOT) xs)" for i and xs :: "manual_adjustment list"
    by (simp add: conj_commute)
  have "adjusted d' i = adjusted d i" "consumed d' i = consumed d i" for i
    unfolding adjusted_def consumed_def f assms(2,4) by (rule refl)+
  then have lot: "lot_ok d' l = lot_ok d l" for l by (simp add: lot_ok_def)
  have "ma_target_id a \<in> lot_id ` set (gold_lots d)" if "a \<in> set (adjustments d')" "ma_target_type a = TARGET_LOT" for a
  proof -
    have "a \<in> set (filter (\<lambda>a. ma_target_type a = TARGET_LOT) (adjustments d'))" using that by simp
    then have "a \<in> set (adjustments d)" unfolding assms(4) by simp
    then show ?thesis using assms(5) that(2) by (simp add: lots_ok_def)
  qed
  moreover have "\<exists>k < uid_next d'. lot_id l = uid k" if l: "l \<in> set (gold_lots d)" for l
  proof -
    obtain k where "k < uid_next d" "lot_id l = uid k" using assms(5) l unfolding lots_ok_def by blast
    then show ?thesis using assms(3) less_le_trans by blast
  qed
  ultimately show ?thesis using assms(5) unfolding lots_ok_def assms(1,2) lot by blast
qed

lemma keeps_goods_lots_ok: "keeps_goods d d' \<Longrightarrow> lots_ok d \<Longrightarrow> lots_ok d'"
  by (rule lots_ok_cong [of d' d]) (simp_all add: keeps_goods_def goods_def)

lemma consumed_add: "lot_consumptions d' = lot_consumptions d @ [c] \<Longrightarrow>
    consumed d' i = consumed d i + (if gc_lot_id c = i then gc_grams c else 0)"
  by (simp add: consumed_def)

lemma adjusted_add: "adjustments d' = adjustments d @ [a] \<Longrightarrow>
    adjusted d' i = adjusted d i + (if ma_target_type a = TARGET_LOT \<and> ma_target_id a = i then ma_delta a else 0)"
  by (simp add: adjusted_def)

text \<open>
  The step both changes of a lot are: the row is replaced by one that accounts for a new
  consumption or a new adjustment of it.
\<close>

lemma lot_changed_ok:
  assumes ok: "lots_ok d" and row: "filter (\<lambda>l. lot_id l = i) (gold_lots d) = [lot]" and id: "lot_id lot' = lot_id lot"
    and lots: "gold_lots d' = upd_rows (\<lambda>x. lot_id x = lot_id lot) (\<lambda>_. lot') (gold_lots d)"
    and u: "uid_next d \<le> uid_next d'"
    and c: "set (lot_consumptions d') \<subseteq> set (lot_consumptions d) \<union> {c. gc_lot_id c = i}"
    and a: "set (adjustments d') \<subseteq> set (adjustments d) \<union> {a. ma_target_id a = i}"
    and others: "\<And>j. j \<noteq> i \<Longrightarrow> consumed d' j = consumed d j \<and> adjusted d' j = adjusted d j"
    and new: "lot_ok d' lot'"
  shows "lots_ok d'"
proof -
  have lot: "lot \<in> set (gold_lots d)" "lot_id lot = i" using row by (auto simp: filter_eq_Cons_iff)
  have ids: "map lot_id (gold_lots d') = map lot_id (gold_lots d)"
    unfolding lots by (rule map_upd_rows) (simp add: id)
  then have idset: "lot_id ` set (gold_lots d') = lot_id ` set (gold_lots d)" by (metis set_map)
  have "lot_ok d' l" if "l \<in> set (gold_lots d')" for l
    using that unfolding lots
  proof (rule set_upd_rowsE)
    fix l0 assume l0: "l0 \<in> set (gold_lots d)" "l = (if lot_id l0 = lot_id lot then lot' else l0)"
    show "lot_ok d' l"
    proof (cases "lot_id l0 = lot_id lot")
      case True
      then show ?thesis using l0 new by simp
    next
      case False
      have cs: "consumed d' (lot_id l0) = consumed d (lot_id l0)" "adjusted d' (lot_id l0) = adjusted d (lot_id l0)"
        using False others lot(2) by blast+
      have "lot_ok d' l0 = lot_ok d l0" unfolding lot_ok_def cs ..
      moreover have "lot_ok d l0" using ok l0(1) unfolding lots_ok_def by blast
      moreover have "l = l0" using False l0(2) by simp
      ultimately show ?thesis by blast
    qed
  qed
  moreover have "\<exists>k < uid_next d'. lot_id l = uid k" if "l \<in> set (gold_lots d')" for l
  proof -
    have "lot_id l \<in> lot_id ` set (gold_lots d)" using that unfolding idset [symmetric] by (rule imageI)
    then obtain k where "k < uid_next d" "lot_id l = uid k" using ok unfolding lots_ok_def by auto
    then show ?thesis using u less_le_trans by blast
  qed
  moreover have "gc_lot_id x \<in> lot_id ` set (gold_lots d)" if "x \<in> set (lot_consumptions d')" for x
  proof (cases "gc_lot_id x = i")
    case True
    then show ?thesis using lot by (metis imageI)
  next
    case False
    then have "x \<in> set (lot_consumptions d)" using that c by blast
    then show ?thesis using ok unfolding lots_ok_def by blast
  qed
  moreover have "ma_target_id x \<in> lot_id ` set (gold_lots d)"
    if "x \<in> set (adjustments d')" "ma_target_type x = TARGET_LOT" for x
  proof (cases "ma_target_id x = i")
    case True
    then show ?thesis using lot by (metis imageI)
  next
    case False
    then have "x \<in> set (adjustments d)" using that(1) a by blast
    then show ?thesis using ok that(2) unfolding lots_ok_def by blast
  qed
  moreover have "distinct (map lot_id (gold_lots d'))" using ok unfolding ids lots_ok_def by blast
  ultimately show ?thesis unfolding lots_ok_def idset by blast
qed


lemma put_lot_tables [simp]:
  "gold_lots (put_lot l d) = upd_rows (\<lambda>x. lot_id x = lot_id l) (\<lambda>_. l) (gold_lots d)"
  "lot_consumptions (put_lot l d) = lot_consumptions d" "adjustments (put_lot l d) = adjustments d"
  "uid_next (put_lot l d) = uid_next d" "products (put_lot l d) = products d" "orders (put_lot l d) = orders d"
  "coin_types (put_lot l d) = coin_types d" "ounce_types (put_lot l d) = ounce_types d"
  by (simp_all add: put_lot_def)

lemma lots_row: "lots_ok d \<Longrightarrow> filter (\<lambda>l. lot_id l = i) (gold_lots d) = [lot] \<Longrightarrow> lot_ok d lot \<and> lot_id lot = i"
  by (metis (mono_tags, lifting) filter_eq_Cons_iff in_set_conv_decomp lots_ok_def)

lemma consume_from_lot_ok:
  assumes "consume_from_lot sha i gr rt ri actor d = Inr (c, d')" "lots_ok d"
  shows "lots_ok d'"
  using assms(1)
proof (cases rule: consume_from_lot_steps)
  case (1 lot d1)
  have r: "lot_ok d lot" "lot_id lot = i" using lots_row [OF assms(2) 1(1)] by auto
  have con: "lot_consumptions d1 = lot_consumptions d @ [c]" and adj: "adjustments d1 = adjustments d"
    by (simp_all add: 1(8))
  have "adjusted d1 j = adjusted d j" for j by (simp add: adjusted_def adj)
  moreover have "consumed d1 j = consumed d j + (if j = i then snd gr else 0)" for j
    using consumed_add [OF con, of j] by (auto simp: 1(5,6) r(2))
  ultimately have "lot_ok d1 (debit_lot lot (snd gr))"
    using r 1(2-4) by (auto simp: lot_ok_def debit_lot_def Let_def)
  then have "lots_ok d1"
    using \<open>\<And>j. adjusted d1 j = adjusted d j\<close> \<open>\<And>j. consumed d1 j = consumed d j + (if j = i then snd gr else 0)\<close>
    by (intro lot_changed_ok [OF assms(2) 1(1), of "debit_lot lot (snd gr)" d1]) (auto simp: 1(5,8) r(2))
  then show ?thesis using 1(9) by (blast intro: keeps_goods_lots_ok ledger_record_goods)
qed

lemma adjust_lot_ok:
  assumes "adjust_lot sha st b reason actor d = Inr (a, d')" "lots_ok d"
  shows "lots_ok d'"
  using assms(1)
proof (cases rule: adjust_lot_steps)
  case (1 lot d2 p r d3)
  let ?l = "lot\<lparr>lot_weight_remaining_grams := lot_weight_remaining_grams lot + snd (an_delta b),
                 lot_is_depleted := lot_weight_remaining_grams lot + snd (an_delta b) \<le> 0\<rparr>"
  have r: "lot_ok d lot" "lot_id lot = an_target_id b" using lots_row [OF assms(2) 1(1)] by auto
  note f = add_adjustment_frame [OF 1(3)]
  have con: "lot_consumptions d2 = lot_consumptions d" and adj: "adjustments d2 = adjustments d @ [a]"
    and u: "uid_next d2 = Suc (uid_next d)"
    and lots: "gold_lots d2 = upd_rows (\<lambda>x. lot_id x = lot_id lot) (\<lambda>_. ?l) (gold_lots d)"
    by (subst conjunct1 [OF f], simp)+
  have "consumed d2 j = consumed d j" for j by (simp add: consumed_def con)
  moreover have "adjusted d2 j = adjusted d j + (if j = an_target_id b then snd (an_delta b) else 0)" for j
    using adjusted_add [OF adj, of j] f by auto
  ultimately have "lot_ok d2 ?l"
    using r 1(2) by (auto simp: lot_ok_def)
  then have "lots_ok d2"
    using \<open>\<And>j. consumed d2 j = consumed d j\<close> f
      \<open>\<And>j. adjusted d2 j = adjusted d j + (if j = an_target_id b then snd (an_delta b) else 0)\<close>
    by (intro lot_changed_ok [OF assms(2) 1(1), of ?l d2]) (auto simp: con adj u lots)
  then have "lots_ok d3" by (rule keeps_goods_lots_ok [OF ledger_record_goods [OF 1(4)]])
  then show ?thesis using 1(5) by (blast intro: keeps_goods_lots_ok post_adjustment_goods)
qed

text \<open>A new lot has a key no row refers to.\<close>

lemma add_lot_ok:
  assumes "add_lot l d = (l', d')" "lots_ok d" "lot_weight_remaining_grams l = lot_weight_grams l" "0 < lot_weight_grams l"
    "\<not> lot_is_depleted l"
  shows "lots_ok d'"
proof -
  have f: "l' = l\<lparr>lot_id := uid (uid_next d)\<rparr>" "d' = d\<lparr>uid_next := Suc (uid_next d), gold_lots := gold_lots d @ [l']\<rparr>"
    using add_lot_frame [OF assms(1)] by auto
  have new: "uid (uid_next d) \<notin> lot_id ` set (gold_lots d)"
    using assms(2) by (fastforce simp: lots_ok_def)
  have "filter (\<lambda>c. gc_lot_id c = uid (uid_next d)) (lot_consumptions d) = []"
    "filter (\<lambda>a. ma_target_type a = TARGET_LOT \<and> ma_target_id a = uid (uid_next d)) (adjustments d) = []"
    using assms(2) new unfolding lots_ok_def filter_empty_conv by metis+
  then have z: "consumed d (uid (uid_next d)) = 0" "adjusted d (uid (uid_next d)) = 0"
    by (simp_all only: consumed_def adjusted_def sum_of_simps)
  have same: "consumed d' i = consumed d i" "adjusted d' i = adjusted d i" for i
    by (simp_all add: consumed_def adjusted_def f(2))
  have "lot_ok d' l'" using assms(3-5) z by (simp add: lot_ok_def same f(1))
  moreover have "lot_ok d' x = lot_ok d x" for x by (simp add: lot_ok_def same)
  moreover have "\<exists>k < uid_next d'. lot_id x = uid k" if x: "x \<in> set (gold_lots d)" for x
  proof -
    obtain k where "k < uid_next d" "lot_id x = uid k" using assms(2) x unfolding lots_ok_def by blast
    then show ?thesis by (intro exI [of _ k]) (simp add: f)
  qed
  moreover have "lot_id l' = uid (uid_next d)" "uid_next d' = Suc (uid_next d)" "gold_lots d' = gold_lots d @ [l']"
    "lot_consumptions d' = lot_consumptions d" "adjustments d' = adjustments d"
    by (simp_all add: f)
  moreover have "distinct (map lot_id (gold_lots d))" "\<forall>l \<in> set (gold_lots d). lot_ok d l"
    "\<forall>c \<in> set (lot_consumptions d). gc_lot_id c \<in> lot_id ` set (gold_lots d)"
    "\<forall>a \<in> set (adjustments d). ma_target_type a = TARGET_LOT \<longrightarrow> ma_target_id a \<in> lot_id ` set (gold_lots d)"
    using assms(2) unfolding lots_ok_def by blast+
  ultimately show ?thesis using new unfolding lots_ok_def by auto
qed

lemma create_lot_ok:
  assumes "create_lot sha b actor d = Inr (l, d')" "lot_in_valid b" "lots_ok d"
  shows "lots_ok d'"
proof -
  obtain k src t d1 p r where a: "add_lot (new_lot k (snd (lc_weight_grams b)) src None None (snd (lc_cost_basis_usd b)) t
        (lc_notes b)) (d\<lparr>clock := clock d + 1\<rparr>) = (l, d1)"
    and r: "ledger_record sha EVENT_LOT_CREATED actor ''gold_lot'' (lot_id l) p d1 = Inr (r, d')"
    using assms(1) by (auto simp: create_lot_def res_simps Let_def read_clock_def)
  have "lots_ok (d\<lparr>clock := clock d + 1\<rparr>)" by (rule lots_ok_cong [of _ d]) (simp_all add: assms(3))
  then have "lots_ok d1" using add_lot_ok [OF a] assms(2) by (simp add: new_lot_def lot_in_valid_def)
  then show ?thesis by (rule keeps_goods_lots_ok [OF ledger_record_goods [OF r]])
qed

text \<open>The other adjustments leave the lots alone.\<close>

lemma adjusted_lots_ok:
  assumes "gold_lots d1 = gold_lots d" "lot_consumptions d1 = lot_consumptions d" "adjustments d1 = adjustments d"
    "uid_next d1 = uid_next d" "add_adjustment t i delta reason notes actor d1 = (a, d2)" "t \<noteq> TARGET_LOT"
    "ledger_record sha ev ac rt ri p d2 = Inr (r, d3)" "lots_ok d"
  shows "lots_ok d3"
proof -
  note f = add_adjustment_frame [OF assms(5)]
  have "lots_ok d2"
    by (rule lots_ok_cong [OF _ _ _ _ assms(8)]) (subst conjunct1 [OF f], use f assms(1-4,6) in simp)+
  then show ?thesis by (rule keeps_goods_lots_ok [OF ledger_record_goods [OF assms(7)]])
qed

lemma create_adjustment_ok:
  assumes "create_adjustment sha st b actor d = Inr (a, d')" "lots_ok d"
  shows "lots_ok d'"
proof -
  obtain t reason where c: "(case t of
        TARGET_PRODUCT \<Rightarrow> adjust_product sha b reason actor d
      | TARGET_LOT \<Rightarrow> adjust_lot sha st b reason actor d
      | _ \<Rightarrow> apply_unit_stock_adjustment_core sha t (an_target_id b) (snd (an_delta b)) reason (an_notes b) actor [] d)
    = Inr (a, d')"
    using assms(1) by (auto simp: create_adjustment_def res_simps)
  have product: "lots_ok d'" if run: "adjust_product sha b reason actor d = Inr (a, d')"
  proof -
    obtain x d2 p r where "add_adjustment TARGET_PRODUCT (an_target_id b) (snd (an_delta b)) reason (an_notes b) actor (put_product x d) = (a, d2)"
      "ledger_record sha EVENT_PRODUCT_STATUS_CHANGED actor ''product'' (pr_id x) p d2 = Inr (r, d')"
      using run by (auto simp: adjust_product_def res_simps Let_def split: if_split_asm)
    then show ?thesis by (intro adjusted_lots_ok [OF _ _ _ _ _ _ _ assms(2)]) (auto simp: put_product_def)
  qed
  have unit: "lots_ok d'" if t: "t \<noteq> TARGET_LOT" and
    run: "apply_unit_stock_adjustment_core sha t (an_target_id b) (snd (an_delta b)) reason (an_notes b) actor [] d = Inr (a, d')"
  proof -
    show ?thesis using run
    proof (cases rule: apply_unit_steps)
      case (1 d1 d2 ev rt ri p r)
      then show ?thesis
        by (intro adjusted_lots_ok [OF _ _ _ _ 1(2) t 1(3) assms(2)]) (auto simp: put_coin_def put_ounce_def)
    qed
  qed
  show ?thesis using c adjust_lot_ok [OF _ assms(2)] product unit by (cases t) auto
qed

end
