(* ===== verification/Orders_Facts.thy ===== *)
theory Orders_Facts
  imports Orders Stock_Facts Receivables_Facts
begin

text \<open>
  What checkout, voids and refunds guarantee about the stock: the three kinds of stock are
  one shelf (\<open>on_hand\<close>), each order line is so many units of one place on it, and what is on
  the shelf plus what is out in orders is the same after every operation (\<open>accounted\<close>).
  Nothing is sold that is not there, and no line is refunded twice.
\<close>

section \<open>The shelf\<close>

definition shelf :: "order_item_kind \<Rightarrow> db \<Rightarrow> (string \<times> int) list" where
  "shelf k d = (case k of
      ITEM_PRODUCT \<Rightarrow> map (\<lambda>p. (pr_id p, pr_on_hand_qty p)) (products d)
    | ITEM_COIN \<Rightarrow> map (\<lambda>c. (co_id c, co_on_hand_qty c)) (coin_types d)
    | ITEM_OUNCE \<Rightarrow> map (\<lambda>z. (oz_id z, oz_on_hand_qty z)) (ounce_types d))"

definition on_hand :: "order_item_kind \<Rightarrow> string \<Rightarrow> db \<Rightarrow> int" where
  "on_hand k i d = sum_list (map snd (filter (\<lambda>x. fst x = i) (shelf k d)))"

text \<open>There is such a row, and one that takes units back.\<close>

definition returnable :: "order_item_kind \<Rightarrow> string \<Rightarrow> db \<Rightarrow> bool" where
  "returnable k i d \<longleftrightarrow> (\<exists>q. filter (\<lambda>x. fst x = i) (shelf k d) = [(i, q)])
     \<and> (k = ITEM_PRODUCT \<longrightarrow> (\<forall>p \<in> set (products d). pr_id p = i \<longrightarrow> pr_status p \<noteq> MELTED \<and> pr_status p \<noteq> INACTIVE))"

definition stock_ref :: "order_item \<Rightarrow> string option" where
  "stock_ref it = (case oi_item_kind it of
      ITEM_PRODUCT \<Rightarrow> oi_product_id it | ITEM_COIN \<Rightarrow> oi_coin_type_id it | ITEM_OUNCE \<Rightarrow> oi_ounce_type_id it)"

definition of_stock :: "order_item_kind \<Rightarrow> string \<Rightarrow> order_item \<Rightarrow> bool" where
  "of_stock k i it \<longleftrightarrow> oi_item_kind it = k \<and> stock_ref it = Some i \<and> i \<noteq> []"

definition units_out :: "order_item_kind \<Rightarrow> string \<Rightarrow> order_item list \<Rightarrow> int" where
  "units_out k i its = sum_list (map (\<lambda>it. if of_stock k i it then oi_quantity it - oi_refunded_qty it else 0) its)"

definition outstanding :: "order_item_kind \<Rightarrow> string \<Rightarrow> db \<Rightarrow> int" where
  "outstanding k i d =
     sum_list (map (\<lambda>o'. if or_status o' = VOIDED then 0 else units_out k i (or_items o')) (orders d))"

definition accounted :: "order_item_kind \<Rightarrow> string \<Rightarrow> db \<Rightarrow> int" where
  "accounted k i d = on_hand k i d + outstanding k i d"

text \<open>Units moved on one place of the shelf, and nothing else.\<close>

definition shifted :: "order_item_kind \<Rightarrow> string \<Rightarrow> int \<Rightarrow> db \<Rightarrow> db \<Rightarrow> bool" where
  "shifted k i n d d' \<longleftrightarrow>
     (\<forall>k' j. on_hand k' j d' = on_hand k' j d + (if k' = k \<and> j = i then n else 0))
     \<and> (\<forall>k' j. returnable k' j d \<longrightarrow> returnable k' j d') \<and> orders d' = orders d \<and> uid_next d' = uid_next d"

text \<open>A row with a unique key, replaced.\<close>

lemma filter_upd_key:
  assumes "filter (\<lambda>x. key x = i) rows = [r]" "\<And>x. key x = i \<Longrightarrow> key (f x) = i"
  shows "filter (\<lambda>x. key x = j) (upd_rows (\<lambda>x. key x = i) f rows)
    = (if j = i then [f r] else filter (\<lambda>x. key x = j) rows)"
proof (cases "j = i")
  case True
  have "filter (\<lambda>x. key x = i) (upd_rows (\<lambda>x. key x = i) f rows) = map f (filter (\<lambda>x. key x = i) rows)"
    using assms(2) by (induction rows) (auto simp: upd_rows_def)
  then show ?thesis using True assms(1) by simp
next
  case False
  then have "filter (\<lambda>x. key x = j) (upd_rows (\<lambda>x. key x = i) f rows) = filter (\<lambda>x. key x = j) rows"
    using assms(2) by (induction rows) (auto simp: upd_rows_def)
  then show ?thesis using False by simp
qed

lemma sum_upd_unique:
  fixes g :: "'r \<Rightarrow> int"
  assumes "filter P rows = [r]" "P r"
  shows "sum_list (map g (upd_rows P f rows)) = sum_list (map g rows) - g r + g (f r)"
  using assms
proof (induction rows)
  case (Cons x xs)
  show ?case
  proof (cases "P x")
    case True
    then have "filter P xs = []" "x = r" using Cons.prems by auto
    then have "upd_rows P f xs = xs" by (intro upd_rows_none) (auto simp: filter_empty_conv)
    moreover have "upd_rows P f (x # xs) = f x # upd_rows P f xs" using True by (simp add: upd_rows_def)
    ultimately show ?thesis using \<open>x = r\<close> by simp
  next
    case False
    then have "filter P xs = [r]" using Cons.prems by simp
    moreover have "upd_rows P f (x # xs) = x # upd_rows P f xs" using False by (simp add: upd_rows_def)
    ultimately show ?thesis using Cons.IH Cons.prems(2) by simp
  qed
qed simp

lemma shelf_filter:
  "filter (\<lambda>x. fst x = i) (shelf ITEM_PRODUCT d) = map (\<lambda>p. (pr_id p, pr_on_hand_qty p)) (filter (\<lambda>p. pr_id p = i) (products d))"
  "filter (\<lambda>x. fst x = i) (shelf ITEM_COIN d) = map (\<lambda>c. (co_id c, co_on_hand_qty c)) (filter (\<lambda>c. co_id c = i) (coin_types d))"
  "filter (\<lambda>x. fst x = i) (shelf ITEM_OUNCE d) = map (\<lambda>z. (oz_id z, oz_on_hand_qty z)) (filter (\<lambda>z. oz_id z = i) (ounce_types d))"
  by (simp_all add: shelf_def filter_map comp_def)

lemma product_shifted:
  assumes "filter (\<lambda>x. pr_id x = i) (products d) = [p]" "pr_id p' = i" "pr_on_hand_qty p' = pr_on_hand_qty p + n"
    "pr_status p' \<noteq> MELTED" "pr_status p' \<noteq> INACTIVE"
  shows "shifted ITEM_PRODUCT i n d (put_product p' d)" "on_hand ITEM_PRODUCT i d = pr_on_hand_qty p"
proof -
  let ?d = "put_product p' d"
  have p: "pr_id p = i" using assms(1) by (auto simp: filter_eq_Cons_iff)
  have rows: "products ?d = upd_rows (\<lambda>x. pr_id x = i) (\<lambda>_. p') (products d)" and
    rest: "coin_types ?d = coin_types d" "ounce_types ?d = ounce_types d" "orders ?d = orders d" "uid_next ?d = uid_next d"
    by (simp_all add: put_product_def assms(2))
  have f: "filter (\<lambda>x. pr_id x = j) (products ?d) = (if j = i then [p'] else filter (\<lambda>x. pr_id x = j) (products d))" for j
    unfolding rows by (rule filter_upd_key [OF assms(1), of "\<lambda>_. p'"]) (rule assms(2))
  show h: "on_hand ITEM_PRODUCT i d = pr_on_hand_qty p" by (simp add: on_hand_def shelf_filter assms(1))
  have q: "on_hand ITEM_PRODUCT j ?d = on_hand ITEM_PRODUCT j d + (if j = i then n else 0)" for j
    by (simp add: on_hand_def shelf_filter f assms(1,3))
  have o: "on_hand k j ?d = on_hand k j d" if "k \<noteq> ITEM_PRODUCT" for k j
    using that by (cases k) (simp_all add: on_hand_def shelf_def rest)
  have r: "returnable k j ?d" if "returnable k j d" for k j
  proof (cases "k = ITEM_PRODUCT")
    case True
    have st: "\<forall>x \<in> set (products d). pr_id x = j \<longrightarrow> pr_status x \<noteq> MELTED \<and> pr_status x \<noteq> INACTIVE"
      and one: "\<exists>q. filter (\<lambda>x. fst x = j) (shelf ITEM_PRODUCT d) = [(j, q)]"
      using that True by (simp_all add: returnable_def)
    have "pr_status x \<noteq> MELTED \<and> pr_status x \<noteq> INACTIVE" if "x \<in> set (products ?d)" "pr_id x = j" for x
      using that(1) unfolding rows
    proof (rule set_upd_rowsE)
      fix r0 assume "r0 \<in> set (products d)" "x = (if pr_id r0 = i then p' else r0)"
      then show ?thesis using st assms(4,5) that(2) by (cases "pr_id r0 = i") auto
    qed
    moreover have "\<exists>q. filter (\<lambda>x. fst x = j) (shelf ITEM_PRODUCT ?d) = [(j, q)]"
      using one by (cases "j = i") (simp_all add: shelf_filter f assms(2))
    ultimately show ?thesis unfolding returnable_def True by blast
  next
    case False
    then show ?thesis using that by (cases k) (simp_all add: returnable_def shelf_def rest)
  qed
  show "shifted ITEM_PRODUCT i n d ?d"
    unfolding shifted_def
  proof (intro conjI allI impI)
    show "on_hand k j ?d = on_hand k j d + (if k = ITEM_PRODUCT \<and> j = i then n else 0)" for k j
      using q o by (cases "k = ITEM_PRODUCT") simp_all
  qed (use r rest(3,4) in simp_all)
qed

lemma unit_shifted:
  assumes "find_unit is_coin i d = Inr (Some u)" "k = (if is_coin then ITEM_COIN else ITEM_OUNCE)"
  shows "shifted k i n d (set_unit_qty is_coin i (ut_on_hand_qty u + n) d)" "on_hand k i d = ut_on_hand_qty u"
    "ut_id u = i"
proof -
  let ?d = "set_unit_qty is_coin i (ut_on_hand_qty u + n) d"
  have u: "filter (\<lambda>x. ut_id x = i) (unit_rows is_coin d) = [u]"
    using assms(1) by (auto simp: find_unit_def scalar_one_or_none_def split: list.splits)
  then show id: "ut_id u = i" by (auto simp: filter_eq_Cons_iff)
  have rest: "products ?d = products d" "is_coin \<Longrightarrow> ounce_types ?d = ounce_types d"
    "\<not> is_coin \<Longrightarrow> coin_types ?d = coin_types d" "orders ?d = orders d" "uid_next ?d = uid_next d"
    by (simp_all add: set_unit_qty_def)
  have main: "filter (\<lambda>x. fst x = i) (shelf k d) = [(i, ut_on_hand_qty u)] \<and>
    filter (\<lambda>x. fst x = j) (shelf k ?d) = (if j = i then [(i, ut_on_hand_qty u + n)] else filter (\<lambda>x. fst x = j) (shelf k d))" for j
  proof (cases is_coin)
    case True
    then obtain c where c: "filter (\<lambda>x. co_id x = i) (coin_types d) = [c]" "u = coin_view c"
      using u by (auto simp: unit_rows_def filter_map comp_def coin_view_def)
    then show ?thesis using True assms(2) filter_upd_key [OF c(1), of "\<lambda>c. c\<lparr>co_on_hand_qty := ut_on_hand_qty u + n\<rparr>" j] id
      by (simp add: shelf_filter set_unit_qty_def coin_view_def)
  next
    case False
    then obtain z where z: "filter (\<lambda>x. oz_id x = i) (ounce_types d) = [z]" "u = ounce_view z"
      using u by (auto simp: unit_rows_def filter_map comp_def ounce_view_def)
    then show ?thesis using False assms(2) filter_upd_key [OF z(1), of "\<lambda>z. z\<lparr>oz_on_hand_qty := ut_on_hand_qty u + n\<rparr>" j] id
      by (simp add: shelf_filter set_unit_qty_def ounce_view_def)
  qed
  have same: "shelf k' ?d = shelf k' d" if "k' \<noteq> k" for k'
    using that assms(2) rest by (cases k'; cases is_coin) (auto simp: shelf_def)
  show h: "on_hand k i d = ut_on_hand_qty u" using main by (simp add: on_hand_def)
  have "on_hand k' j ?d = on_hand k' j d + (if k' = k \<and> j = i then n else 0)" for k' j
    using main [of j] same by (cases "k' = k") (auto simp: on_hand_def)
  moreover have "returnable k' j ?d" if "returnable k' j d" for k' j
    using that main [of j] same [of k'] assms(2) rest(1) by (cases "k' = k") (auto simp: returnable_def)
  ultimately show "shifted k i n d ?d" unfolding shifted_def using rest(4,5) by blast
qed


section \<open>Checkout takes units off the shelf\<close>

lemma checkout_product_line_shifts:
  assumes "checkout_product_line line rate s d = Inr (it, tot, ev, d')"
  shows "\<exists>i. shifted ITEM_PRODUCT i (- oi_quantity it) d d' \<and> oi_quantity it \<le> on_hand ITEM_PRODUCT i d
     \<and> 0 < oi_quantity it \<and> oi_refunded_qty it = 0 \<and> (\<forall>k j. of_stock k j it \<longleftrightarrow> k = ITEM_PRODUCT \<and> j = i)"
proof -
  let ?i = "the (ol_product_id line)" and ?q = "ol_quantity line"
  obtain p where f: "\<not> falsy (ol_product_id line)" "1 \<le> ?q" "filter (\<lambda>p. pr_id p = ?i) (products d) = [p]"
    "?q \<le> pr_on_hand_qty p" "d' = put_product (sell_product p ?q) d"
    "oi_quantity it = ?q" "oi_refunded_qty it = 0" "oi_item_kind it = ITEM_PRODUCT" "oi_product_id it = Some (pr_id p)"
    using assms by (auto simp: checkout_product_line_def res_simps Let_def product_item_def not_less)
  have i: "pr_id p = ?i" "?i \<noteq> []" using f(1,3) by (auto simp: falsy_def filter_eq_Cons_iff)
  have "shifted ITEM_PRODUCT ?i (- ?q) d d' \<and> on_hand ITEM_PRODUCT ?i d = pr_on_hand_qty p"
    unfolding f(5) using product_shifted [OF f(3), of "sell_product p ?q" "- ?q"] i
    by (simp add: sell_product_def Let_def)
  then show ?thesis using f(2,4,6-9) i by (intro exI [of _ ?i]) (auto simp: of_stock_def stock_ref_def)
qed

lemma checkout_unit_line_shifts:
  assumes "checkout_unit_line line rate d = Inr (it, tot, ev, d')"
  shows "\<exists>k i. shifted k i (- oi_quantity it) d d' \<and> oi_quantity it \<le> on_hand k i d
     \<and> 0 < oi_quantity it \<and> oi_refunded_qty it = 0 \<and> (\<forall>k' j. of_stock k' j it \<longleftrightarrow> k' = k \<and> j = i)"
proof -
  let ?c = "ol_item_kind line = ''COIN''" and ?q = "ol_quantity line"
  let ?i = "the (if ?c then ol_coin_type_id line else ol_ounce_type_id line)"
  let ?k = "if ?c then ITEM_COIN else ITEM_OUNCE"
  obtain u where f: "\<not> falsy (if ?c then ol_coin_type_id line else ol_ounce_type_id line)" "1 \<le> ?q"
    "find_unit ?c ?i d = Inr (Some u)" "?q \<le> ut_on_hand_qty u"
    "d' = set_unit_qty ?c (ut_id u) (ut_on_hand_qty u - ?q) d" "oi_quantity it = ?q" "oi_refunded_qty it = 0"
    "oi_item_kind it = ?k" "stock_ref it = Some (ut_id u)"
    using assms
    by (auto simp: checkout_unit_line_def res_simps Let_def unit_item_def not_less stock_ref_def simp del: split_paired_All split_paired_Ex
        cong: if_cong)
  note s = unit_shifted(1) [OF f(3) refl, of "- ?q"] unit_shifted(2,3) [OF f(3) refl]
  have "?i \<noteq> []" using f(1) by (auto simp: falsy_def split: if_splits)
  then show ?thesis using f s by (intro exI [of _ ?k] exI [of _ ?i]) (auto simp: of_stock_def)
qed

lemma checkout_line_shifts:
  assumes "checkout_line s rate l d = Inr (it, tot, ev, d')"
  obtains k i where "shifted k i (- oi_quantity it) d d'" "oi_quantity it \<le> on_hand k i d" "0 < oi_quantity it"
    "oi_refunded_qty it = 0" "\<And>k' j. of_stock k' j it \<longleftrightarrow> k' = k \<and> j = i"
  using assms checkout_product_line_shifts checkout_unit_line_shifts
  unfolding checkout_line_def by (smt (verit) Inl_Inr_False)

text \<open>The whole cart: what left the shelf is what the items hold; no place goes below zero.\<close>

definition unsold :: "order_item \<Rightarrow> bool" where
  "unsold it \<longleftrightarrow> 0 < oi_quantity it \<and> oi_refunded_qty it = 0"

lemma units_out_simps [simp]: "units_out k i [] = 0"
  "units_out k i (it # its) = (if of_stock k i it then oi_quantity it - oi_refunded_qty it else 0) + units_out k i its"
  by (simp_all add: units_out_def)

lemma checkout_lines_shifts:
  assumes "checkout_lines s rate ls d = Inr (its, tot, evs, d')"
  shows "on_hand k i d' = on_hand k i d - units_out k i its \<and> (0 \<le> on_hand k i d \<longrightarrow> 0 \<le> on_hand k i d')
    \<and> (returnable k i d \<longrightarrow> returnable k i d') \<and> orders d' = orders d \<and> uid_next d' = uid_next d \<and> list_all unsold its"
  using assms
proof (induction ls arbitrary: d its tot evs)
  case (Cons l ls)
  obtain it t ev d1 its' t' evs' where c: "checkout_line s rate l d = Inr (it, t, ev, d1)"
    and r: "checkout_lines s rate ls d1 = Inr (its', t', evs', d')" and its: "its = it # its'"
    using Cons.prems by (auto simp: res_simps)
  obtain k' j where h: "shifted k' j (- oi_quantity it) d d1" "oi_quantity it \<le> on_hand k' j d" "0 < oi_quantity it"
    "oi_refunded_qty it = 0" "\<And>k'' j'. of_stock k'' j' it \<longleftrightarrow> k'' = k' \<and> j' = j"
    by (rule checkout_line_shifts [OF c]) blast
  have "on_hand k i d1 = on_hand k i d - (if of_stock k i it then oi_quantity it else 0)"
    using h(1,5) by (simp add: shifted_def)
  moreover have "0 \<le> on_hand k i d \<longrightarrow> 0 \<le> on_hand k i d1"
    using h(1,2) by (simp add: shifted_def)
  moreover have "units_out k i its = (if of_stock k i it then oi_quantity it else 0) + units_out k i its'"
    unfolding its by (simp add: h(4))
  moreover have "returnable k i d \<longrightarrow> returnable k i d1" "orders d1 = orders d" "uid_next d1 = uid_next d" "unsold it"
    using h(1,3,4) by (simp_all add: shifted_def unsold_def)
  ultimately show ?case using Cons.IH [OF r] unfolding its by auto
qed simp

section \<open>Returns put units back\<close>

lemma return_stock_shifts:
  assumes "return_stock it n d = Inr (back, d')"
  shows "(of_stock k i it \<and> returnable k i d \<longrightarrow> on_hand k i d' = on_hand k i d + n)
    \<and> (\<not> of_stock k i it \<longrightarrow> on_hand k i d' = on_hand k i d)
    \<and> (returnable k i d \<longrightarrow> returnable k i d') \<and> orders d' = orders d \<and> uid_next d' = uid_next d"
proof (cases "oi_item_kind it = ITEM_PRODUCT")
  case True
  then consider "d' = d" "falsy (oi_product_id it) \<or> filter (\<lambda>p. pr_id p = the (oi_product_id it)) (products d) = []
        \<or> (\<exists>p. filter (\<lambda>p. pr_id p = the (oi_product_id it)) (products d) = [p] \<and> (pr_status p = MELTED \<or> pr_status p = INACTIVE))"
    | p where "\<not> falsy (oi_product_id it)" "filter (\<lambda>p. pr_id p = the (oi_product_id it)) (products d) = [p]"
      "d' = put_product (p\<lparr>pr_on_hand_qty := pr_on_hand_qty p + n, pr_status := AVAILABLE\<rparr>) d"
    using assms
    by (auto simp: return_stock_def return_product_def res_simps Let_def scalar_one_or_none_def
        split: if_split_asm list.split_asm)
  then show ?thesis
  proof cases
    case 1
    have "\<not> (of_stock k i it \<and> returnable k i d)"
    proof
      assume a: "of_stock k i it \<and> returnable k i d"
      then have "oi_product_id it = Some i" "k = ITEM_PRODUCT" "i \<noteq> []"
        using True by (auto simp: of_stock_def stock_ref_def)
      then obtain p where p: "filter (\<lambda>p. pr_id p = i) (products d) = [p]"
        using a by (auto simp: returnable_def shelf_filter map_eq_Cons_conv)
      then have "p \<in> set (products d)" "pr_id p = i" by (auto simp: filter_eq_Cons_iff)
      then have "pr_status p \<noteq> MELTED" "pr_status p \<noteq> INACTIVE"
        using a \<open>k = ITEM_PRODUCT\<close> by (simp_all add: returnable_def)
      then show False using 1(2) p \<open>oi_product_id it = Some i\<close> \<open>i \<noteq> []\<close> by (auto simp: falsy_def)
    qed
    then show ?thesis using 1(1) by blast
  next
    case (2 p)
    let ?i = "the (oi_product_id it)"
    have p: "pr_id p = ?i" using 2(2) by (auto simp: filter_eq_Cons_iff)
    have sh: "shifted ITEM_PRODUCT ?i n d d'" unfolding 2(3) by (rule product_shifted(1) [OF 2(2)]) (simp_all add: p)
    have "of_stock k i it \<longleftrightarrow> k = ITEM_PRODUCT \<and> i = ?i"
      using True 2(1) by (auto simp: of_stock_def stock_ref_def falsy_def)
    then show ?thesis using sh by (auto simp: shifted_def)
  qed
next
  case False
  let ?c = "oi_item_kind it = ITEM_COIN"
  let ?r = "if ?c then oi_coin_type_id it else oi_ounce_type_id it" and ?k = "if ?c then ITEM_COIN else ITEM_OUNCE"
  have run: "(if falsy ?r then Inr (None, d) else return_unit ?c (the ?r) n d) = Inr (back, d')"
    using assms False by (cases "oi_item_kind it") (auto simp: return_stock_def)
  have os: "of_stock k i it \<longleftrightarrow> k = ?k \<and> ?r = Some i \<and> i \<noteq> []"
    using False by (cases "oi_item_kind it") (auto simp: of_stock_def stock_ref_def)
  show ?thesis
  proof (cases "falsy ?r \<or> find_unit ?c (the ?r) d = Inr None")
    case True
    then have d: "d' = d" using run by (auto simp: return_unit_def res_simps split: if_split_asm)
    have "\<not> (of_stock k i it \<and> returnable k i d)"
    proof
      assume a: "of_stock k i it \<and> returnable k i d"
      then have r: "the ?r = i" "\<not> falsy ?r" "k = ?k" using os by (auto simp: falsy_def)
      have "\<exists>u. filter (\<lambda>x. ut_id x = i) (unit_rows ?c d) = [u]"
        using a r(3) by (cases ?c) (auto simp: returnable_def shelf_filter unit_rows_def filter_map comp_def coin_view_def ounce_view_def map_eq_Cons_conv)
      then show False using True r by (auto simp: find_unit_def scalar_one_or_none_def)
    qed
    then show ?thesis using d by blast
  next
    case False
    then obtain u where u: "find_unit ?c (the ?r) d = Inr (Some u)" "d' = set_unit_qty ?c (ut_id u) (ut_on_hand_qty u + n) d"
      using run by (auto simp: return_unit_def res_simps Let_def split: option.split_asm)
    have sh: "shifted ?k (the ?r) n d d'" using unit_shifted(1) [OF u(1) refl, of n] unit_shifted(3) [OF u(1) refl] u(2) by simp
    have "of_stock k i it \<longleftrightarrow> k = ?k \<and> i = the ?r" using os False by (auto simp: falsy_def)
    then show ?thesis using sh by (auto simp: shifted_def)
  qed
qed


section \<open>Orders and what is out\<close>

text \<open>
  An order's lines have their own keys, none is refunded beyond what was sold, and a
  completed order has no refund at all.
\<close>

definition order_ok :: "order \<Rightarrow> bool" where
  "order_ok o' \<longleftrightarrow> distinct (map oi_id (or_items o'))
     \<and> (\<forall>it \<in> set (or_items o'). 0 \<le> oi_refunded_qty it \<and> oi_refunded_qty it \<le> oi_quantity it)
     \<and> (or_status o' = COMPLETED \<longrightarrow> (\<forall>it \<in> set (or_items o'). oi_refunded_qty it = 0))"

definition orders_ok :: "db \<Rightarrow> bool" where
  "orders_ok d \<longleftrightarrow> (\<forall>o' \<in> set (orders d). order_ok o')"

text \<open>What every operation on orders does for one place of the shelf.\<close>

definition stock_step :: "order_item_kind \<Rightarrow> string \<Rightarrow> db \<Rightarrow> db \<Rightarrow> bool" where
  "stock_step k i d d' \<longleftrightarrow> (orders_ok d \<longrightarrow> orders_ok d')
     \<and> (returnable k i d \<and> orders_ok d \<longrightarrow> accounted k i d' = accounted k i d \<and> returnable k i d'
          \<and> (0 \<le> on_hand k i d \<longrightarrow> 0 \<le> on_hand k i d'))"

lemma goods_cong:
  assumes "goods d' = goods d"
  shows "on_hand k i d' = on_hand k i d" "returnable k i d' = returnable k i d" "outstanding k i d' = outstanding k i d"
    "orders_ok d' = orders_ok d" "orders d' = orders d"
proof -
  have t: "products d' = products d" "coin_types d' = coin_types d" "ounce_types d' = ounce_types d" "orders d' = orders d"
    using assms by (simp_all add: goods_def)
  then have "shelf k d' = shelf k d" for k by (cases k) (simp_all add: shelf_def)
  then show "on_hand k i d' = on_hand k i d" "returnable k i d' = returnable k i d" "outstanding k i d' = outstanding k i d"
    "orders_ok d' = orders_ok d" "orders d' = orders d"
    by (simp_all add: on_hand_def returnable_def outstanding_def orders_ok_def t)
qed

lemma stock_step_goods: "goods d1 = goods d \<Longrightarrow> stock_step k i d1 d2 \<Longrightarrow> goods d' = goods d2 \<Longrightarrow> stock_step k i d d'"
  using goods_cong(1-3) [of d1 d k i] goods_cong(1-3) [of d' d2 k i] goods_cong(4) [of d1 d] goods_cong(4) [of d' d2]
  by (simp add: stock_step_def accounted_def)

lemma renumbered [simp]: "of_stock k i (it\<lparr>oi_id := x, oi_order_id := y\<rparr>) = of_stock k i it"
  "unsold (it\<lparr>oi_id := x, oi_order_id := y\<rparr>) = unsold it"
  by (cases "oi_item_kind it"; simp add: of_stock_def stock_ref_def unsold_def)+

lemma number_items_facts:
  assumes "number_items oid its d = (its', d')"
  shows "d' = d\<lparr>uid_next := uid_next d + length its\<rparr>" "map oi_id its' = map uid [uid_next d ..< uid_next d + length its]"
    "units_out k i its' = units_out k i its" "list_all unsold its \<longrightarrow> list_all unsold its'"
proof -
  have "d' = d\<lparr>uid_next := uid_next d + length its\<rparr> \<and> map oi_id its' = map uid [uid_next d ..< uid_next d + length its]
    \<and> units_out k i its' = units_out k i its \<and> (list_all unsold its \<longrightarrow> list_all unsold its')"
    using assms
  proof (induction its arbitrary: d its' d')
    case (Cons it its)
    obtain r d1 where r: "number_items oid its (d\<lparr>uid_next := Suc (uid_next d)\<rparr>) = (r, d1)" by fastforce
    then have its': "its' = it\<lparr>oi_id := uid (uid_next d), oi_order_id := oid\<rparr> # r" "d' = d1"
      using Cons.prems by (simp_all add: fresh_uid_def Let_def)
    show ?case using Cons.IH [OF r] by (simp add: its' upt_conv_Cons del: upt_Suc)
  qed simp
  then show "d' = d\<lparr>uid_next := uid_next d + length its\<rparr>" "map oi_id its' = map uid [uid_next d ..< uid_next d + length its]"
    "units_out k i its' = units_out k i its" "list_all unsold its \<longrightarrow> list_all unsold its'" by blast+
qed

lemma add_order_facts:
  assumes "add_order o0 d = Inr (o', d')" "list_all unsold (or_items o0)" "or_status o0 = COMPLETED"
  shows "orders d' = orders d @ [o']" "order_ok o'" "units_out k i (or_items o') = units_out k i (or_items o0)"
    "or_status o' = COMPLETED" "shelf k' d' = shelf k' d" "products d' = products d" "same_books d d'"
proof -
  obtain its d1 where n: "number_items (uid (uid_next d)) (or_items o0) (d\<lparr>uid_next := Suc (uid_next d)\<rparr>) = (its, d1)"
    by fastforce
  note f = number_items_facts [OF n]
  have o': "o' = o0\<lparr>or_id := uid (uid_next d), or_items := its, or_created_at := Some (clock d1)\<rparr>"
    and d': "d' = d1\<lparr>clock := clock d1 + 1, orders := orders d1 @ [o']\<rparr>"
    using assms(1) n by (auto simp: add_order_def res_simps Let_def fresh_uid_def read_clock_def)
  show "orders d' = orders d @ [o']" "shelf k' d' = shelf k' d" "products d' = products d" "same_books d d'"
    by (simp_all add: d' f(1) shelf_def same_books_def cong: order_item_kind.case_cong)
  show "units_out k i (or_items o') = units_out k i (or_items o0)" "or_status o' = COMPLETED"
    using f(3) assms(3) by (simp_all add: o')
  have "distinct (map oi_id its)" unfolding f(2) by (simp add: distinct_map inj_on_def)
  moreover have "list_all unsold its" using f(4) assms(2) by blast
  ultimately show "order_ok o'" by (auto simp: order_ok_def o' unsold_def list_all_iff)
qed

text \<open>The row of an order replaced: what is out changes by its lines.\<close>

definition out_of :: "order_item_kind \<Rightarrow> string \<Rightarrow> order \<Rightarrow> int" where
  "out_of k i o' = (if or_status o' = VOIDED then 0 else units_out k i (or_items o'))"

lemma outstanding_out: "outstanding k i d = sum_list (map (out_of k i) (orders d))"
  by (simp add: outstanding_def out_of_def [abs_def])

lemma put_order_outstanding:
  assumes "filter (\<lambda>x. or_id x = n) (orders d) = [o0]" "or_id o' = n"
  shows "outstanding k i (put_order o' d) = outstanding k i d - out_of k i o0 + out_of k i o'"
    and "orders_ok d \<Longrightarrow> order_ok o' \<Longrightarrow> orders_ok (put_order o' d)"
proof -
  have "or_id o0 = n" using assms(1) by (auto simp: filter_eq_Cons_iff)
  then show "outstanding k i (put_order o' d) = outstanding k i d - out_of k i o0 + out_of k i o'"
    using sum_upd_unique [OF assms(1), of "out_of k i" "\<lambda>_. o'"] by (simp add: outstanding_out put_order_def assms(2))
  show "orders_ok d \<Longrightarrow> order_ok o' \<Longrightarrow> orders_ok (put_order o' d)"
    by (auto simp: orders_ok_def put_order_def elim!: set_upd_rowsE)
qed

lemma put_order_shelf [simp]: "shelf k (put_order o' d) = shelf k d" "products (put_order o' d) = products d"
  "on_hand k i (put_order o' d) = on_hand k i d" "returnable k i (put_order o' d) = returnable k i d"
  by (cases k; simp add: put_order_def shelf_def on_hand_def returnable_def)+

lemma put_order_same_books: "same_books d (put_order o' d)"
  by (simp add: put_order_def same_books_def)


section \<open>The handlers\<close>

lemma write_event_goods: "write_event sha actor extra ev d = Inr d' \<Longrightarrow> keeps_goods d d'"
  by (auto simp: write_event_def res_simps dest!: ledger_record_goods)

lemma write_events_goods: "fold_res (write_event sha actor extra) evs d = Inr d' \<Longrightarrow> keeps_goods d d'"
  by (rule fold_res_inv [where P = "keeps_goods d"]) (auto intro: keeps_goods_trans dest: write_event_goods)

lemma record_stale_rate_ack_goods: "record_stale_rate_ack sha actor info rt ri w ack d = Inr d' \<Longrightarrow> keeps_goods d d'"
  by (auto simp: record_stale_rate_ack_def read_clock_def Let_def res_simps split: if_split_asm dest!: ledger_record_goods)
    (simp add: keeps_goods_def goods_def)

lemma next_doc_no_goods:
  assumes "next_doc_no p dt d = (no, d')"
  shows "keeps_goods d d'"
proof -
  obtain sq where "d' = d\<lparr>gl_seqs := sq\<rparr>" using next_doc_no_frame(1) [OF assms] by blast
  then show ?thesis by (simp add: keeps_goods_def goods_def)
qed

lemma create_invoice_goods:
  assumes "create_invoice_from_order o' c e actor d = Inr (i, d')"
  shows "keeps_goods d d'"
proof -
  obtain dt no row d1 d2 where n: "next_doc_no ''AR'' dt d = (no, d1)" and a: "add_ar_invoice row d1 = Inr (i, d2)"
    and l: "d' = fold (\<lambda>x. add_ar_line (order_invoice_line (inv_id i) x)) (or_items o') d2"
    using assms unfolding create_invoice_from_order_def Let_def by (rule store_invoice_steps) blast
  have "keeps_goods d1 d2" by (subst add_ar_invoice_frame(1) [OF a]) (simp add: keeps_goods_def goods_def)
  moreover have "keeps_goods d2 d'"
    using fold_ar_line_frame [of "\<lambda>x. order_invoice_line (inv_id i) x" "or_items o'" d2] by (auto simp: l keeps_goods_def goods_def)
  ultimately show ?thesis using next_doc_no_goods [OF n] by (blast intro: keeps_goods_trans)
qed

lemma finish_order_goods: "finish_order sha s info b u evs o' d = Inr (r, d') \<Longrightarrow> keeps_goods d d'"
  by (auto simp: finish_order_def res_simps split: if_split_asm
      dest!: write_events_goods record_stale_rate_ack_goods post_sale_goods create_invoice_goods intro: keeps_goods_trans)

lemma refund_books_goods: "refund_books sha st o' u it v q n d = Inr d' \<Longrightarrow> keeps_goods d d'"
  by (auto simp: refund_books_def res_simps split: option.split_asm dest!: post_order_refund_goods)

lemma create_order_steps:
  assumes "create_order sha cf st b user_id d = Inr (o', d')"
  obtains s info d0 now items subtotal evs d1 m d2 where "st = Some s" "get_current_gold_rate cf d = Inr (info, d0)"
    "goods d0 = goods d" "same_books d d0"
    "assert_rate_acceptable info (cr_stale_rate_ack b) d0 = Inr ((), now)" "goods now = goods d0" "same_books d0 now"
    "checkout_lines s (ri_rate info) (cr_items b) (now\<lparr>clock := clock now + 1\<rparr>) = Inr (items, subtotal, evs, d1)"
    "check_discount s (cr_discount_percent b) = Inr ()"
    "check_credit_sale b (ot_total_usd (checkout_totals s subtotal (cr_discount_percent b))) d1 = Inr ()"
    "add_order (new_order b s user_id (generate_order_number (now\<lparr>clock := clock now + 1\<rparr>) (clock now)) m items subtotal
        (checkout_totals s subtotal (cr_discount_percent b))) d1 = Inr (o', d2)"
    "finish_order sha s info b user_id evs o' d2 = Inr (o', d')"
proof -
  have rate: "goods d0 = goods d \<and> same_books d d0" if "get_current_gold_rate cf d = Inr (info, d0)" for info d0
    using that by (auto simp: get_current_gold_rate_def read_clock_def same_books_def goods_def Let_def split: option.split_asm)
  have ok: "goods d1 = goods d0 \<and> same_books d0 d1" if "assert_rate_acceptable info ack d0 = Inr (u, d1)" for info ack d0 u d1
    using that by (auto simp: assert_rate_acceptable_def read_clock_def same_books_def goods_def Let_def res_simps
        split: option.split_asm if_split_asm)
  have fin: "r = o2" if "finish_order sha s info b u evs o2 d2 = Inr (r, d3)" for s info u evs o2 d2 r d3
    using that by (auto simp: finish_order_def res_simps split: if_split_asm)
  obtain s where st: "st = Some s" using assms by (cases st) (auto simp: create_order_def)
  obtain info d0 now items subtotal evs d1 m o2 d2 where a: "get_current_gold_rate cf d = Inr (info, d0)"
    "assert_rate_acceptable info (cr_stale_rate_ack b) d0 = Inr ((), now)"
    and c: "checkout_lines s (ri_rate info) (cr_items b) (now\<lparr>clock := clock now + 1\<rparr>) = Inr (items, subtotal, evs, d1)"
    "check_discount s (cr_discount_percent b) = Inr ()"
    "check_credit_sale b (ot_total_usd (checkout_totals s subtotal (cr_discount_percent b))) d1 = Inr ()"
    "add_order (new_order b s user_id (generate_order_number (now\<lparr>clock := clock now + 1\<rparr>) (clock now)) m items subtotal
        (checkout_totals s subtotal (cr_discount_percent b))) d1 = Inr (o2, d2)"
    "finish_order sha s info b user_id evs o2 d2 = Inr (o', d')"
    using assms by (auto simp: st create_order_def res_simps Let_def read_clock_def)
  with fin have "o2 = o'" by blast
  show ?thesis
    by (rule that [OF st a(1) _ _ a(2) _ _ c(1-3)]) (use rate [OF a(1)] ok [OF a(2)] c(4,5) \<open>o2 = o'\<close> in auto)
qed

lemma create_order_stock:
  assumes "create_order sha cf st b user_id d = Inr (o', d')"
  shows "stock_step k i d d'" "orders d' = orders d @ [o']" "units_out k i (or_items o') = on_hand k i d - on_hand k i d'"
    "or_status o' = COMPLETED"
proof -
  have "stock_step k i d d' \<and> orders d' = orders d @ [o'] \<and> units_out k i (or_items o') = on_hand k i d - on_hand k i d'
    \<and> or_status o' = COMPLETED"
    using assms
  proof (cases rule: create_order_steps)
    case (1 s info d0 now items subtotal evs d1 m d2)
    let ?now = "now\<lparr>clock := clock now + 1\<rparr>"
    have g: "goods ?now = goods d" using 1(3,6) by (simp add: goods_def)
    note c = checkout_lines_shifts [OF 1(8), of k i]
    have un: "list_all unsold items" using c by blast
    have a: "orders d2 = orders d1 @ [o']" "order_ok o'" "units_out k i (or_items o') = units_out k i items"
      "or_status o' = COMPLETED" "\<And>k'. shelf k' d2 = shelf k' d1" "products d2 = products d1"
      using add_order_facts [OF 1(11)] un by (simp_all add: new_order_def)
    have f: "goods d' = goods d2" using finish_order_goods [OF 1(12)] by (simp add: keeps_goods_def)
    note n = goods_cong [OF g] and e = goods_cong [OF f]
    have d2: "on_hand k i d2 = on_hand k i d1" "returnable k i d2 = returnable k i d1"
      by (simp_all add: on_hand_def returnable_def a(5,6))
    have oh: "on_hand k i d' = on_hand k i d - units_out k i items"
      using c by (simp only: e(1) n(1) d2)
    have os: "orders d' = orders d @ [o']" using c a(1) n(5) e(5) by simp
    have out: "outstanding k i d' = outstanding k i d + units_out k i items"
      by (simp add: outstanding_def os a(3,4))
    have ret: "returnable k i d \<longrightarrow> returnable k i d'"
      using c by (simp only: e(2) n(2) d2) blast
    have ok: "orders_ok d \<longrightarrow> orders_ok d'"
      using a(2) by (simp add: orders_ok_def os)
    have pos: "0 \<le> on_hand k i d \<longrightarrow> 0 \<le> on_hand k i d'"
      using c unfolding e(1) n(1) d2 by auto
    show ?thesis
      using oh out ret ok pos os a(3,4) by (simp add: stock_step_def accounted_def)
  qed
  then show "stock_step k i d d'" "orders d' = orders d @ [o']" "units_out k i (or_items o') = on_hand k i d - on_hand k i d'"
    "or_status o' = COMPLETED" by blast+
qed


text \<open>A void takes every line back.\<close>

lemma return_lines_shifts:
  assumes "return_lines its d = Inr (evs, d')" "\<forall>it \<in> set its. oi_refunded_qty it = 0"
  shows "(returnable k i d \<longrightarrow> on_hand k i d' = on_hand k i d + units_out k i its \<and> returnable k i d')
    \<and> orders d' = orders d \<and> uid_next d' = uid_next d"
  using assms
proof (induction its arbitrary: d evs)
  case (Cons it its)
  obtain bk d1 evs' where r: "return_stock it (oi_quantity it) d = Inr (bk, d1)" "return_lines its d1 = Inr (evs', d')"
    using Cons.prems(1) by (auto simp: res_simps split: option.split_asm)
  have z: "oi_refunded_qty it = 0" and zs: "\<forall>it \<in> set its. oi_refunded_qty it = 0" using Cons.prems(2) by simp_all
  show ?case
    using return_stock_shifts [OF r(1), of k i] Cons.IH [OF r(2) zs] by (auto simp: z)
qed simp

lemma find_order_eq: "find_order n d = Inr o' \<longleftrightarrow> filter (\<lambda>x. or_id x = n) (orders d) = [o']"
  by (auto simp: find_order_def res_simps)

lemma filter_single: "filter P xs = [x] \<Longrightarrow> x \<in> set xs \<and> P x"
  by (auto simp: filter_eq_Cons_iff)

lemma goods_tick [simp]: "goods (d\<lparr>clock := t\<rparr>) = goods d"
  by (simp add: goods_def)

lemma void_order_steps:
  assumes "void_order sha st n reason u d = Inr (o', d')"
  obtains o0 evs d1 p r d2 d3 where "find_order n d = Inr o0" "or_status o0 = COMPLETED"
    "return_lines (or_items o0) d = Inr (evs, d1)"
    "o' = o0\<lparr>or_status := VOIDED, or_voided_at := Some (clock d1), or_voided_by := Some u, or_void_reason := Some reason\<rparr>"
    "ledger_record sha EVENT_ORDER_VOID u ''order'' (or_id o0) p (put_order o' (d1\<lparr>clock := clock d1 + 1\<rparr>)) = Inr (r, d2)"
    "fold_res (write_event sha u [(''voided_order_id'', PStr (or_id o0)), (''voided_order_number'', PStr (or_order_number o0))]) evs d2 = Inr d3"
    "refund_books sha st o' u None 0 None 0 d3 = Inr d'"
proof -
  have st: "or_status x = COMPLETED" if "or_status x \<noteq> VOIDED" "or_status x \<noteq> PARTIALLY_REFUNDED" "or_status x \<noteq> REFUNDED" for x :: order
    using that by (cases "or_status x") simp_all
  show ?thesis
    using assms by (auto simp: void_order_def res_simps Let_def read_clock_def intro: that st)
qed

lemma void_order_stock:
  assumes "void_order sha st n reason u d = Inr (o', d')"
  shows "stock_step k i d d'"
  using assms
proof (cases rule: void_order_steps)
  case (1 o0 evs d1 p r d2 d3)
  note o0 = 1(1) and com = 1(2) and ret = 1(3) and o' = 1(4) and l = 1(5) and w = 1(6) and b = 1(7)
  let ?d = "put_order o' (d1\<lparr>clock := clock d1 + 1\<rparr>)"
  have row: "filter (\<lambda>x. or_id x = n) (orders d) = [o0]" using o0 by (simp add: find_order_eq)
  have "keeps_goods ?d d'"
    using ledger_record_goods [OF l] write_events_goods [OF w] refund_books_goods [OF b] by (blast intro: keeps_goods_trans)
  then have g: "goods d' = goods ?d" by (simp add: keeps_goods_def)
  note c = goods_cong [OF g] goods_cong [OF goods_tick [where d = d1 and t = "clock d1 + 1"]]
  have "stock_step k i d d'" if ok: "orders_ok d"
  proof -
    have ok0: "order_ok o0" using ok filter_single [OF row] by (simp add: orders_ok_def)
    then have z: "\<forall>it \<in> set (or_items o0). oi_refunded_qty it = 0" using com by (simp add: order_ok_def)
    note s = return_lines_shifts [OF ret z, of k i]
    have row1: "filter (\<lambda>x. or_id x = n) (orders (d1\<lparr>clock := clock d1 + 1\<rparr>)) = [o0]" using row s by simp
    have id: "or_id o' = n" using filter_single [OF row] by (simp add: o')
    note p = put_order_outstanding [OF row1 id]
    have "order_ok o'" using ok0 by (simp add: order_ok_def o')
    moreover have "orders_ok (d1\<lparr>clock := clock d1 + 1\<rparr>)" using ok s by (simp add: orders_ok_def)
    ultimately have "orders_ok ?d" by (rule p(2) [rotated])
    moreover have "outstanding k i ?d = outstanding k i d - units_out k i (or_items o0)"
      using p(1) [of k i] s by (simp add: out_of_def com o' outstanding_def)
    moreover have "0 \<le> units_out k i (or_items o0)"
      unfolding units_out_def using ok0 by (intro sum_list_nonneg) (auto simp: order_ok_def)
    ultimately show ?thesis using s by (auto simp: stock_step_def accounted_def c)
  qed
  then show ?thesis by (auto simp: stock_step_def)
qed

lemma refund_order_stock:
  assumes "refund_order sha st n u d = Inr (o', d')"
  shows "stock_step k i d d'"
proof -
  obtain o0 where o0: "find_order n d = Inr o0" "or_status o0 = COMPLETED" "o' = o0\<lparr>or_status := REFUNDED\<rparr>"
    and b: "refund_books sha st o' u None 0 None 0 (put_order o' d) = Inr d'"
    using assms by (auto simp: refund_order_def res_simps Let_def)
  have row: "filter (\<lambda>x. or_id x = n) (orders d) = [o0]" using o0(1) by (simp add: find_order_eq)
  have id: "or_id o' = n" using filter_single [OF row] by (simp add: o0(3))
  have g: "goods d' = goods (put_order o' d)" using refund_books_goods [OF b] by (simp add: keeps_goods_def)
  note p = put_order_outstanding [OF row id] and c = goods_cong [OF g]
  have "orders_ok d \<longrightarrow> order_ok o0" using filter_single [OF row] by (simp add: orders_ok_def)
  then have "orders_ok d \<longrightarrow> order_ok o'" by (simp add: order_ok_def o0(3))
  then have "orders_ok d \<longrightarrow> orders_ok (put_order o' d)" using p(2) by blast
  moreover have "outstanding k i (put_order o' d) = outstanding k i d"
    using p(1) by (simp add: out_of_def o0(2,3))
  ultimately show ?thesis by (simp add: stock_step_def accounted_def c)
qed


text \<open>A line refunded: the units come back, and the line remembers how many.\<close>

lemma sum_put_item:
  assumes "find (\<lambda>it. oi_id it = x) its = Some it" "distinct (map oi_id its)" "oi_id it' = x"
  shows "filter (\<lambda>y. oi_id y = x) its = [it]"
  using assms
proof (induction its)
  case (Cons y ys)
  show ?case
  proof (cases "oi_id y = x")
    case True
    moreover have "filter (\<lambda>z. oi_id z = x) ys = []"
      using Cons.prems(2) True by (auto simp: filter_empty_conv image_iff)
    ultimately show ?thesis using Cons.prems(1) by simp
  next
    case False
    then show ?thesis using Cons by simp
  qed
qed simp

lemma refund_qty_bounds: "refund_qty_of it q = Inr n \<Longrightarrow> 0 < n \<and> n \<le> oi_quantity it - oi_refunded_qty it"
  by (auto simp: refund_qty_of_def Let_def res_simps not_less)

lemma refund_item_fields [simp]: "oi_id (refund_item it n t) = oi_id it" "of_stock k i (refund_item it n t) = of_stock k i it"
  "oi_quantity (refund_item it n t) = oi_quantity it" "oi_refunded_qty (refund_item it n t) = oi_refunded_qty it + n"
  by (cases "oi_item_kind it"; simp add: refund_item_def of_stock_def stock_ref_def)+

lemma refund_item_order:
  assumes "find (\<lambda>it. oi_id it = x) (or_items o0) = Some it" "order_ok o0" "0 < n" "n \<le> oi_quantity it - oi_refunded_qty it"
    "o1 = put_item (refund_item it n t) o0"
  shows "units_out k i (or_items o1) = units_out k i (or_items o0) - (if of_stock k i it then n else 0)"
    and "distinct (map oi_id (or_items o1))"
    and "\<forall>y \<in> set (or_items o1). 0 \<le> oi_refunded_qty y \<and> oi_refunded_qty y \<le> oi_quantity y"
    and "it \<in> set (or_items o0)"
proof -
  have id: "oi_id it = x" using assms(1) by (auto dest: find_SomeD)
  have f: "filter (\<lambda>y. oi_id y = x) (or_items o0) = [it]"
    by (rule sum_put_item [OF assms(1) _ id]) (use assms(2) in \<open>simp add: order_ok_def\<close>)
  have o1: "or_items o1 = upd_rows (\<lambda>y. oi_id y = x) (\<lambda>_. refund_item it n t) (or_items o0)"
    by (simp add: assms(5) put_item_def id)
  show "units_out k i (or_items o1) = units_out k i (or_items o0) - (if of_stock k i it then n else 0)"
    unfolding o1 units_out_def by (subst sum_upd_unique [OF f id]) (simp add: f id)
  have "map oi_id (or_items o1) = map oi_id (or_items o0)" unfolding o1 by (rule map_upd_rows) (simp add: id)
  then show "distinct (map oi_id (or_items o1))" using assms(2) by (simp add: order_ok_def)
  show m: "it \<in> set (or_items o0)" using filter_single [OF f] by blast
  show "\<forall>y \<in> set (or_items o1). 0 \<le> oi_refunded_qty y \<and> oi_refunded_qty y \<le> oi_quantity y"
  proof
    fix y assume "y \<in> set (or_items o1)"
    then show "0 \<le> oi_refunded_qty y \<and> oi_refunded_qty y \<le> oi_quantity y" unfolding o1
    proof (rule set_upd_rowsE)
      fix y0 assume y0: "y0 \<in> set (or_items o0)" "y = (if oi_id y0 = x then refund_item it n t else y0)"
      have "0 \<le> oi_refunded_qty it" "0 \<le> oi_refunded_qty y0 \<and> oi_refunded_qty y0 \<le> oi_quantity y0"
        using assms(2) m y0(1) by (auto simp: order_ok_def)
      then show ?thesis using assms(3,4) y0(2) by (cases "oi_id y0 = x") auto
    qed
  qed
qed

lemma recompute_fields [simp]: "or_items (recompute_order_totals o') = or_items o'" "or_id (recompute_order_totals o') = or_id o'"
  "or_status (recompute_order_totals o') = or_status o'"
  by (simp_all add: recompute_order_totals_def Let_def)

lemma refund_order_item_steps:
  assumes "refund_order_item sha st n x q u d = Inr (o', d')"
  obtains o0 it m bk d1 o1 p r d2 v where "find_order n d = Inr o0" "or_status o0 = COMPLETED \<or> or_status o0 = PARTIALLY_REFUNDED"
    "find (\<lambda>it. oi_id it = x) (or_items o0) = Some it" "refund_qty_of it q = Inr m" "return_stock it m d = Inr (bk, d1)"
    "o1 = recompute_order_totals (put_item (refund_item it m (clock d1)) o0)"
    "o' = o1\<lparr>or_status := (if fully_refunded o1 then REFUNDED else PARTIALLY_REFUNDED)\<rparr>"
    "ledger_record sha EVENT_ORDER_ITEM_REFUND u ''order_item'' (oi_id it) p (put_order o' (d1\<lparr>clock := clock d1 + 1\<rparr>)) = Inr (r, d2)"
    "refund_books sha st o' u (Some (refund_item it m (clock d1))) v (Some m) (oi_refunded_qty (refund_item it m (clock d1))) d2 = Inr d'"
    "v = item_refund_value it m"
proof -
  obtain o0 where o0: "find_order n d = Inr o0" using assms by (auto simp: refund_order_item_def res_simps)
  obtain it where it: "find (\<lambda>it. oi_id it = x) (or_items o0) = Some it"
    using assms o0 by (cases "find (\<lambda>it. oi_id it = x) (or_items o0)") (auto simp: refund_order_item_def res_simps)
  show ?thesis
    using assms o0 it by (auto simp: refund_order_item_def res_simps read_clock_def Let_def intro: that)
qed

lemma refund_order_item_stock:
  assumes "refund_order_item sha st n x q u d = Inr (o', d')"
  shows "stock_step k i d d'"
  using assms
proof (cases rule: refund_order_item_steps)
  case (1 o0 it m bk d1 o1 p r d2 v)
  let ?d1 = "d1\<lparr>clock := clock d1 + 1\<rparr>"
  let ?d = "put_order o' ?d1"
  have row: "filter (\<lambda>x. or_id x = n) (orders d) = [o0]" using 1(1) by (simp add: find_order_eq)
  have "keeps_goods ?d d'"
    using ledger_record_goods [OF 1(8)] refund_books_goods [OF 1(9)] by (blast intro: keeps_goods_trans)
  then have g: "goods d' = goods ?d" by (simp add: keeps_goods_def)
  note c = goods_cong [OF g] goods_cong [OF goods_tick [where d = d1 and t = "clock d1 + 1"]]
  note s = return_stock_shifts [OF 1(5), of k i] and b = refund_qty_bounds [OF 1(4)]
  have "stock_step k i d d'" if ok: "orders_ok d"
  proof -
    have ok0: "order_ok o0" using ok filter_single [OF row] by (simp add: orders_ok_def)
    obtain o2 where o2: "o2 = put_item (refund_item it m (clock d1)) o0" by simp
    note ro = refund_item_order [OF 1(3) ok0 conjunct1 [OF b] conjunct2 [OF b] o2]
    have items: "or_items o' = or_items o2" by (simp add: 1(6,7) o2)
    have id: "or_id o' = n" using filter_single [OF row] by (simp add: 1(6,7) put_item_def)
    have st: "or_status o' \<noteq> VOIDED" "or_status o' \<noteq> COMPLETED" "or_status o0 \<noteq> VOIDED" using 1(2) by (auto simp: 1(7))
    have row1: "filter (\<lambda>x. or_id x = n) (orders ?d1) = [o0]" using row s by simp
    note p = put_order_outstanding [OF row1 id]
    have "order_ok o'" using ro(2,3) st(2) by (simp add: order_ok_def items)
    moreover have "orders_ok ?d1" using ok s by (simp add: orders_ok_def)
    ultimately have "orders_ok ?d" by (rule p(2) [rotated])
    moreover have "outstanding k i ?d = outstanding k i d - (if of_stock k i it then m else 0)"
      using p(1) [of k i] ro(1) [where k = k and i = i] s st(1,3) by (simp add: out_of_def items outstanding_def)
    ultimately show ?thesis using s b by (auto simp: stock_step_def accounted_def c)
  qed
  then show ?thesis by (auto simp: stock_step_def)
qed


section \<open>The books across the handlers\<close>

lemma shelf_same_books: "same_books d (set_unit_qty c i q d)"
  by (simp add: same_books_def set_unit_qty_def)

lemma checkout_line_same_books: "checkout_line s rate l d = Inr (it, tot, ev, d') \<Longrightarrow> same_books d d'"
  by (auto simp: checkout_line_def checkout_product_line_def checkout_unit_line_def res_simps Let_def
      put_same_books shelf_same_books split: if_split_asm)

lemma checkout_lines_same_books: "checkout_lines s rate ls d = Inr (its, tot, evs, d') \<Longrightarrow> same_books d d'"
  by (induction ls arbitrary: d its tot evs)
    (auto simp: res_simps same_books_refl dest!: checkout_line_same_books intro: same_books_trans)

lemma return_stock_same_books: "return_stock it n d = Inr (b, d') \<Longrightarrow> same_books d d'"
  by (cases "oi_item_kind it")
    (auto simp: return_stock_def return_product_def return_unit_def res_simps Let_def same_books_refl put_same_books
      shelf_same_books split: if_split_asm option.split_asm)

lemma return_lines_same_books: "return_lines its d = Inr (evs, d') \<Longrightarrow> same_books d d'"
  by (induction its arbitrary: d evs)
    (auto simp: res_simps same_books_refl split: option.split_asm dest!: return_stock_same_books intro: same_books_trans)

lemma tick_same_books: "same_books d (d\<lparr>clock := clock d + 1\<rparr>)"
  by (simp add: same_books_def)

context journal_invariant
begin

lemma inv_write_events: "fold_res (write_event sha actor extra) evs d = Inr d' \<Longrightarrow> Inv d \<Longrightarrow> Inv d'"
  by (erule fold_res_inv) (auto simp: write_event_def res_simps intro: inv_record)

lemma inv_record_stale_rate_ack: "record_stale_rate_ack sha actor info rt ri w ack d = Inr d' \<Longrightarrow> Inv d \<Longrightarrow> Inv d'"
  by (auto simp: record_stale_rate_ack_def read_clock_def Let_def res_simps split: if_split_asm
      intro: inv_record inv_frame [OF tick_same_books])

lemma inv_finish_order: "finish_order sha s info b u evs o' d = Inr (r, d') \<Longrightarrow> Inv d \<Longrightarrow> Inv d'"
  by (auto simp: finish_order_def res_simps split: if_split_asm)
    (blast intro: inv_create_invoice_from_order sale.run_inv [OF journal_invariant_axioms] inv_record_stale_rate_ack inv_write_events)+

lemma inv_refund_books: "refund_books sha st o' u it v q n d = Inr d' \<Longrightarrow> Inv d \<Longrightarrow> Inv d'"
  by (auto simp: refund_books_def res_simps split: option.split_asm
      intro: post_order_refund_inv [OF journal_invariant_axioms])

lemma inv_create_order:
  assumes "create_order sha cf st b u d = Inr (o', d')" "Inv d"
  shows "Inv d'"
  using assms(1)
proof (cases rule: create_order_steps)
  case (1 s info d0 now items subtotal evs d1 m d2)
  let ?t = "checkout_totals s subtotal (cr_discount_percent b)"
  obtain its d3 where n: "number_items (uid (uid_next d1)) items (d1\<lparr>uid_next := Suc (uid_next d1)\<rparr>) = (its, d3)" by fastforce
  have "same_books d1 d2"
    using 1(11) n number_items_facts(1) [OF n]
    by (auto simp: add_order_def new_order_def res_simps Let_def fresh_uid_def read_clock_def same_books_def)
  then have "same_books d d2"
    using 1(4,7) checkout_lines_same_books [OF 1(8)] tick_same_books by (blast intro: same_books_trans)
  then show ?thesis using inv_finish_order [OF 1(12)] inv_frame assms(2) by blast
qed

lemma inv_void_order:
  assumes "void_order sha st n reason u d = Inr (o', d')" "Inv d"
  shows "Inv d'"
  using assms(1)
proof (cases rule: void_order_steps)
  case (1 o0 evs d1 p r d2 d3)
  have "same_books d (put_order o' (d1\<lparr>clock := clock d1 + 1\<rparr>))"
    using return_lines_same_books [OF 1(3)] tick_same_books put_order_same_books by (blast intro: same_books_trans)
  then show ?thesis
    using inv_refund_books [OF 1(7)] inv_write_events [OF 1(6)] inv_record [OF 1(5)] inv_frame assms(2) by blast
qed

lemma inv_refund_order: "refund_order sha st n u d = Inr (o', d') \<Longrightarrow> Inv d \<Longrightarrow> Inv d'"
  by (auto simp: refund_order_def res_simps Let_def intro: inv_refund_books inv_frame [OF put_order_same_books])

lemma inv_refund_order_item:
  assumes "refund_order_item sha st n x q u d = Inr (o', d')" "Inv d"
  shows "Inv d'"
  using assms(1)
proof (cases rule: refund_order_item_steps)
  case (1 o0 it m bk d1 o1 p r d2 v)
  have "same_books d (put_order o' (d1\<lparr>clock := clock d1 + 1\<rparr>))"
    using return_stock_same_books [OF 1(5)] tick_same_books put_order_same_books by (blast intro: same_books_trans)
  then show ?thesis using inv_refund_books [OF 1(9)] inv_record [OF 1(8)] inv_frame assms(2) by blast
qed

end

end
