(* ===== verification/StockTakes_Facts.thy ===== *)
theory StockTakes_Facts
  imports StockTakes Orders_Facts
begin

text \<open>
  What the stock-take workflow guarantees. The status of a take says what its lines are
  (\<open>take_ok\<close>): in DRAFT all pending, in SUBMITTED all frozen with at least one pending, in
  CLOSED all resolved. Every handler keeps it, each resolution settles exactly one line for
  good, and an approval moves the stock by exactly the line's variance.
\<close>

section \<open>Takes and lines that fit together\<close>

text \<open>A line after submission: expectation and variance frozen, and resolved in line with them.\<close>

definition frozen_ok :: "stock_take_line \<Rightarrow> bool" where
  "frozen_ok l \<longleftrightarrow> (\<exists>e. stl_expected_qty_at_submit l = Some e \<and> stl_variance l = Some (stl_counted_qty l - e)
     \<and> (stl_resolution l = NO_VARIANCE \<longleftrightarrow> stl_counted_qty l = e)
     \<and> (stl_resolution l = APPROVED \<longleftrightarrow> stl_adjustment_id l \<noteq> None))"

definition fresh_line :: "stock_take_line \<Rightarrow> bool" where
  "fresh_line l \<longleftrightarrow> stl_resolution l = PENDING \<and> stl_adjustment_id l = None"

fun take_ok :: "stock_take_status \<Rightarrow> stock_take_line set \<Rightarrow> bool" where
  "take_ok DRAFT ls \<longleftrightarrow> (\<forall>l \<in> ls. fresh_line l)"
| "take_ok SUBMITTED ls \<longleftrightarrow> (\<forall>l \<in> ls. frozen_ok l) \<and> (\<exists>l \<in> ls. stl_resolution l = PENDING)"
| "take_ok CLOSED ls \<longleftrightarrow> (\<forall>l \<in> ls. frozen_ok l \<and> stl_resolution l \<noteq> PENDING)"

definition lines_of :: "db \<Rightarrow> string \<Rightarrow> stock_take_line set" where
  "lines_of d i = {l \<in> set (stock_take_lines d). stl_stock_take_id l = i}"

definition takes_ok :: "db \<Rightarrow> bool" where
  "takes_ok d \<longleftrightarrow> distinct (map sto_id (stock_takes d)) \<and> distinct (map stl_id (stock_take_lines d))
     \<and> (\<forall>t \<in> set (stock_takes d). \<exists>k < uid_next d. sto_id t = uid k)
     \<and> (\<forall>l \<in> set (stock_take_lines d). \<exists>k < uid_next d. stl_id l = uid k)
     \<and> (\<forall>l \<in> set (stock_take_lines d). stl_stock_take_id l \<in> sto_id ` set (stock_takes d))
     \<and> (\<forall>t \<in> set (stock_takes d). take_ok (sto_status t) (lines_of d (sto_id t)))"

lemma set_fresh_lines [simp]: "set (fresh_lines d i) = lines_of d i"
  by (auto simp: fresh_lines_def lines_of_def)

lemma takes_ok_empty: "takes_ok (empty_db t)"
  by (simp add: takes_ok_def empty_db_def)

lemma takes_ok_cong:
  assumes "stock_takes d' = stock_takes d" "stock_take_lines d' = stock_take_lines d" "uid_next d \<le> uid_next d'" "takes_ok d"
  shows "takes_ok d'"
proof -
  have mono: "\<exists>k < uid_next d'. x = uid k" if "\<exists>k < uid_next d. x = uid k" for x
    using that assms(3) less_le_trans by blast
  have "lines_of d' i = lines_of d i" for i by (simp add: lines_of_def assms(2))
  then show ?thesis using assms(4) mono unfolding takes_ok_def assms(1,2) by simp
qed

lemma keeps_goods_takes: "keeps_goods d d' \<Longrightarrow> stock_takes d' = stock_takes d \<and> stock_take_lines d' = stock_take_lines d
    \<and> uid_next d \<le> uid_next d'"
  by (simp add: keeps_goods_def goods_def)

lemma row_in: "filter P rows = [r] \<Longrightarrow> r \<in> set rows \<and> P r"
  by (rule filter_single)

text \<open>A row replaced by itself.\<close>

lemma upd_rows_self: "filter P rows = [r] \<Longrightarrow> upd_rows P (\<lambda>_. r) rows = rows"
proof (induction rows)
  case (Cons x xs)
  show ?case
  proof (cases "P x")
    case True
    then have "filter P xs = []" "x = r" using Cons.prems by auto
    then have "upd_rows P (\<lambda>_. r) xs = xs" by (intro upd_rows_none) (auto simp: filter_empty_conv)
    moreover have "upd_rows P (\<lambda>_. r) (x # xs) = r # upd_rows P (\<lambda>_. r) xs" using True by (simp add: upd_rows_def)
    ultimately show ?thesis using \<open>x = r\<close> by simp
  next
    case False
    then have "filter P xs = [r]" using Cons.prems by simp
    moreover have "upd_rows P (\<lambda>_. r) (x # xs) = x # upd_rows P (\<lambda>_. r) xs" using False by (simp add: upd_rows_def)
    ultimately show ?thesis using Cons.IH by simp
  qed
qed (simp add: upd_rows_def)

text \<open>The step every handler takes: one take's row and lines change, the others stay.\<close>

lemma takes_changed:
  assumes ok: "takes_ok d" and row: "filter (\<lambda>t. sto_id t = i) (stock_takes d) = [t]" and id: "sto_id t' = i"
    and takes: "stock_takes d' = upd_rows (\<lambda>x. sto_id x = i) (\<lambda>_. t') (stock_takes d)"
    and u: "uid_next d \<le> uid_next d'"
    and others: "\<And>j. j \<noteq> i \<Longrightarrow> lines_of d' j = lines_of d j"
    and ids: "distinct (map stl_id (stock_take_lines d'))" "\<And>l. l \<in> lines_of d' i \<Longrightarrow> \<exists>k < uid_next d'. stl_id l = uid k"
    and new: "take_ok (sto_status t') (lines_of d' i)"
  shows "takes_ok d'"
proof -
  have mono: "\<exists>k < uid_next d'. x = uid k" if "\<exists>k < uid_next d. x = uid k" for x
    using that u less_le_trans by blast
  have sto: "map sto_id (stock_takes d') = map sto_id (stock_takes d)"
    unfolding takes by (rule map_upd_rows) (simp add: id)
  then have stos: "sto_id ` set (stock_takes d') = sto_id ` set (stock_takes d)" by (metis set_map)
  have i: "i \<in> sto_id ` set (stock_takes d)" using row_in [OF row] by (metis imageI)
  have line: "l \<in> lines_of d' (stl_stock_take_id l)" if "l \<in> set (stock_take_lines d')" for l
    using that by (simp add: lines_of_def)
  have old: "l \<in> set (stock_take_lines d)" if "l \<in> set (stock_take_lines d')" "stl_stock_take_id l \<noteq> i" for l
    using line [OF that(1)] others [OF that(2)] by (auto simp: lines_of_def)
  have "\<exists>k < uid_next d'. stl_id l = uid k" if l: "l \<in> set (stock_take_lines d')" for l
  proof (cases "stl_stock_take_id l = i")
    case True
    then show ?thesis using line [OF l] ids(2) by simp
  next
    case False
    then show ?thesis using old [OF l] ok mono unfolding takes_ok_def by blast
  qed
  moreover have "stl_stock_take_id l \<in> sto_id ` set (stock_takes d)" if l: "l \<in> set (stock_take_lines d')" for l
  proof (cases "stl_stock_take_id l = i")
    case False
    then show ?thesis using old [OF l] ok unfolding takes_ok_def by blast
  qed (simp add: i)
  moreover have "take_ok (sto_status x) (lines_of d' (sto_id x))" if "x \<in> set (stock_takes d')" for x
    using that unfolding takes
  proof (rule set_upd_rowsE)
    fix x0 assume x0: "x0 \<in> set (stock_takes d)" "x = (if sto_id x0 = i then t' else x0)"
    show ?thesis
    proof (cases "sto_id x0 = i")
      case False
      then show ?thesis using x0 others [of "sto_id x0"] ok unfolding takes_ok_def by simp
    qed (use x0 id new in simp)
  qed
  moreover have "\<exists>k < uid_next d'. sto_id x = uid k" if "x \<in> set (stock_takes d')" for x
  proof -
    have "sto_id x \<in> sto_id ` set (stock_takes d)" using that unfolding stos [symmetric] by (rule imageI)
    then show ?thesis using ok mono unfolding takes_ok_def by auto
  qed
  ultimately show ?thesis using ids(1) ok unfolding takes_ok_def sto stos by blast
qed

text \<open>One line of a take replaced.\<close>

lemma put_take_line_lines:
  assumes "distinct (map stl_id (stock_take_lines d))" "l \<in> lines_of d i" "stl_id l' = stl_id l" "stl_stock_take_id l' = i"
  shows "lines_of (put_take_line l' d) j = (if j = i then insert l' (lines_of d i - {l}) else lines_of d j)"
    and "map stl_id (stock_take_lines (put_take_line l' d)) = map stl_id (stock_take_lines d)"
proof -
  have l: "x = l" if "x \<in> set (stock_take_lines d)" "stl_id x = stl_id l" for x
    using that assms(1,2) by (auto simp: lines_of_def distinct_map inj_on_def)
  have s: "set (stock_take_lines (put_take_line l' d)) = insert l' (set (stock_take_lines d) - {l})"
    using assms(2,3) l by (fastforce simp: put_take_line_def upd_rows_def lines_of_def image_iff)
  show "lines_of (put_take_line l' d) j = (if j = i then insert l' (lines_of d i - {l}) else lines_of d j)"
    using assms(2,4) by (auto simp: lines_of_def s)
  show "map stl_id (stock_take_lines (put_take_line l' d)) = map stl_id (stock_take_lines d)"
    by (simp add: put_take_line_def map_upd_rows)
qed

lemma put_take_line_rest [simp]:
  "stock_takes (put_take_line l d) = stock_takes d" "uid_next (put_take_line l d) = uid_next d"
  "coin_types (put_take_line l d) = coin_types d" "ounce_types (put_take_line l d) = ounce_types d"
  "products (put_take_line l d) = products d" "orders (put_take_line l d) = orders d" "clock (put_take_line l d) = clock d"
  by (simp_all add: put_take_line_def)

lemma put_take_rest [simp]:
  "stock_takes (put_take t d) = upd_rows (\<lambda>x. sto_id x = sto_id t) (\<lambda>_. t) (stock_takes d)"
  "stock_take_lines (put_take t d) = stock_take_lines d" "uid_next (put_take t d) = uid_next d"
  "coin_types (put_take t d) = coin_types d" "ounce_types (put_take t d) = ounce_types d"
  "products (put_take t d) = products d" "orders (put_take t d) = orders d"
  by (simp_all add: put_take_def)

lemma lines_of_cong: "stock_take_lines d' = stock_take_lines d \<Longrightarrow> lines_of d' i = lines_of d i"
  by (simp add: lines_of_def)

section \<open>Submission freezes every line\<close>

definition submitted_as :: "stock_take_line \<Rightarrow> stock_take_line \<Rightarrow> bool" where
  "submitted_as l l' \<longleftrightarrow> stl_id l' = stl_id l \<and> stl_stock_take_id l' = stl_stock_take_id l \<and> (fresh_line l \<longrightarrow> frozen_ok l')"

lemma freeze_submitted:
  "stl_variance (freeze_line l e) = Some 0 \<Longrightarrow> submitted_as l (mark_line NO_VARIANCE now u (freeze_line l e))"
  "stl_variance (freeze_line l e) \<noteq> Some 0 \<Longrightarrow> submitted_as l (freeze_line l e)"
  by (auto simp: submitted_as_def freeze_line_def mark_line_def frozen_ok_def fresh_line_def)

lemma submit_lines_step:
  assumes "submit_lines u (l # ls) d = Inr (ls', d')"
  obtains l1 d1 ls1 where "submitted_as l l1" "stock_take_lines d1 = stock_take_lines d" "stock_takes d1 = stock_takes d"
    "uid_next d1 = uid_next d" "submit_lines u ls (put_take_line l1 d1) = Inr (ls1, d')" "ls' = l1 # ls1"
proof -
  obtain e where e: "get_target_on_hand_qty d (stl_ref_type l) (stl_ref_id l) = Inr e" using assms by (auto simp: res_simps)
  show ?thesis
  proof (cases "stl_variance (freeze_line l e) = Some 0")
    case True
    have "\<exists>ls1. submit_lines u ls (put_take_line (mark_line NO_VARIANCE (clock d) u (freeze_line l e)) (d\<lparr>clock := clock d + 1\<rparr>))
        = Inr (ls1, d') \<and> ls' = mark_line NO_VARIANCE (clock d) u (freeze_line l e) # ls1"
      using assms e True by (auto simp: res_simps Let_def read_clock_def)
    then obtain ls1 where r: "submit_lines u ls (put_take_line (mark_line NO_VARIANCE (clock d) u (freeze_line l e))
        (d\<lparr>clock := clock d + 1\<rparr>)) = Inr (ls1, d')" "ls' = mark_line NO_VARIANCE (clock d) u (freeze_line l e) # ls1" by blast
    show ?thesis by (rule that [OF freeze_submitted(1) [OF True] _ _ _ r]) simp_all
  next
    case False
    have "\<exists>ls1. submit_lines u ls (put_take_line (freeze_line l e) d) = Inr (ls1, d') \<and> ls' = freeze_line l e # ls1"
      using assms e False by (auto simp: res_simps Let_def)
    then obtain ls1 where r: "submit_lines u ls (put_take_line (freeze_line l e) d) = Inr (ls1, d')"
      "ls' = freeze_line l e # ls1" by blast
    show ?thesis by (rule that [OF freeze_submitted(2) [OF False] _ _ _ r]) simp_all
  qed
qed

lemma submit_lines_set:
  assumes "submit_lines u ls d = Inr (ls', d')" "distinct (map stl_id ls)" "set ls \<subseteq> set (stock_take_lines d)"
    "distinct (map stl_id (stock_take_lines d))"
  shows "set (stock_take_lines d') = set ls' \<union> {x \<in> set (stock_take_lines d). stl_id x \<notin> stl_id ` set ls}
    \<and> map stl_id (stock_take_lines d') = map stl_id (stock_take_lines d) \<and> list_all2 submitted_as ls ls'
    \<and> stock_takes d' = stock_takes d \<and> uid_next d' = uid_next d"
  using assms
proof (induction ls arbitrary: d ls')
  case Nil
  then show ?case by auto
next
  case (Cons l ls)
  obtain l1 d1 ls1 where l1: "submitted_as l l1" "stock_take_lines d1 = stock_take_lines d" "stock_takes d1 = stock_takes d"
    "uid_next d1 = uid_next d" and r: "submit_lines u ls (put_take_line l1 d1) = Inr (ls1, d')" and ls': "ls' = l1 # ls1"
    using Cons.prems(1) by (rule submit_lines_step)
  let ?d = "put_take_line l1 d1"
  have l: "l \<in> lines_of d1 (stl_stock_take_id l)" using Cons.prems(3) by (simp add: lines_of_def l1(2))
  have id1: "stl_id l1 = stl_id l" "stl_stock_take_id l1 = stl_stock_take_id l" using l1(1) by (simp_all add: submitted_as_def)
  have lin: "l \<in> set (stock_take_lines d)" using Cons.prems(3) by simp
  have uniq: "x = l" if "x \<in> set (stock_take_lines d)" "stl_id x = stl_id l" for x
    using that lin Cons.prems(4) by (auto simp: distinct_map inj_on_def)
  have s: "set (stock_take_lines ?d) = insert l1 (set (stock_take_lines d) - {l})"
    using lin uniq id1 by (fastforce simp: put_take_line_def upd_rows_def l1(2) image_iff)
  have m: "map stl_id (stock_take_lines ?d) = map stl_id (stock_take_lines d)"
    by (simp add: put_take_line_def map_upd_rows l1(2))
  have "set ls \<subseteq> set (stock_take_lines ?d)" using Cons.prems(2,3) unfolding s by auto
  then have IH: "set (stock_take_lines d') = set ls1 \<union> {x \<in> set (stock_take_lines ?d). stl_id x \<notin> stl_id ` set ls}"
    "map stl_id (stock_take_lines d') = map stl_id (stock_take_lines ?d)" "list_all2 submitted_as ls ls1"
    "stock_takes d' = stock_takes ?d" "uid_next d' = uid_next ?d"
    using Cons.IH [OF r] Cons.prems(2,4) by (simp_all add: m)
  have "set (stock_take_lines d') = set ls' \<union> {x \<in> set (stock_take_lines d). stl_id x \<notin> stl_id ` set (l # ls)}"
    using Cons.prems(2) uniq unfolding IH(1) s ls' by (auto simp: id1)
  then show ?case using IH(2-5) l1 by (simp add: m ls')
qed

section \<open>The handlers\<close>

lemma resolved_count_pos: "0 < resolved_count r (fresh_lines d i) \<longleftrightarrow> (\<exists>l \<in> lines_of d i. stl_resolution l = r)"
  by (auto simp: resolved_count_def filter_empty_conv simp flip: set_fresh_lines)

text \<open>Closing: a take is closed exactly when nothing is pending any more.\<close>

lemma maybe_close_steps:
  assumes "maybe_close_take sha t u d = Inr (t', d')" "sto_status t \<noteq> CLOSED"
  obtains (still_open) "t' = t" "d' = d" "\<exists>l \<in> lines_of d (sto_id t). stl_resolution l = PENDING"
  | (closed) n p r where "t' = t\<lparr>sto_status := CLOSED, sto_closed_at := Some n\<rparr>" "\<forall>l \<in> lines_of d (sto_id t). stl_resolution l \<noteq> PENDING"
      "ledger_record sha EVENT_STOCK_TAKE_CLOSED u ''stock_take'' (sto_id t) p (put_take t' (d\<lparr>clock := clock d + 1\<rparr>)) = Inr (r, d')"
proof (cases "0 < resolved_count PENDING (fresh_lines d (sto_id t))")
  case True
  then show ?thesis using assms resolved_count_pos still_open by (auto simp: maybe_close_take_def Let_def)
next
  case False
  then have "\<forall>l \<in> lines_of d (sto_id t). stl_resolution l \<noteq> PENDING" using resolved_count_pos by blast
  then show ?thesis using assms False closed by (auto simp: maybe_close_take_def Let_def read_clock_def res_simps)
qed

lemma maybe_close_take_ok:
  assumes "maybe_close_take sha t' u d1 = Inr (t2, d2)" "sto_status t' = SUBMITTED" "sto_id t' = i"
    and ok: "takes_ok d" and row: "filter (\<lambda>t. sto_id t = i) (stock_takes d) = [t]"
    and takes: "stock_takes d1 = upd_rows (\<lambda>x. sto_id x = i) (\<lambda>_. t') (stock_takes d)"
    and u: "uid_next d \<le> uid_next d1"
    and others: "\<And>j. j \<noteq> i \<Longrightarrow> lines_of d1 j = lines_of d j"
    and ids: "map stl_id (stock_take_lines d1) = map stl_id (stock_take_lines d)"
    and frozen: "\<forall>l \<in> lines_of d1 i. frozen_ok l"
  shows "takes_ok d2"
    and "sto_status t2 = (if \<exists>l \<in> lines_of d2 i. stl_resolution l = PENDING then SUBMITTED else CLOSED)"
    and "stock_take_lines d2 = stock_take_lines d1" "t2 \<in> set (stock_takes d2)" "sto_id t2 = i"
proof -
  have nc: "sto_status t' \<noteq> CLOSED" using assms(2) by simp
  have dist: "distinct (map stl_id (stock_take_lines d1))" using ok unfolding ids takes_ok_def by blast
  have bound: "\<exists>k < uid_next d1. stl_id l = uid k" if "l \<in> lines_of d1 i" for l
  proof -
    have "stl_id l \<in> set (map stl_id (stock_take_lines d1))" using that by (auto simp: lines_of_def)
    then have "stl_id l \<in> stl_id ` set (stock_take_lines d)" unfolding ids by simp
    then show ?thesis using ok u less_le_trans unfolding takes_ok_def by (metis imageE)
  qed
  have t1: "t' \<in> set (stock_takes d1)" using row_in [OF row] by (auto simp: takes upd_rows_def)
  have main: "takes_ok d2 \<and> sto_status t2 = (if \<exists>l \<in> lines_of d2 i. stl_resolution l = PENDING then SUBMITTED else CLOSED)
    \<and> stock_take_lines d2 = stock_take_lines d1 \<and> t2 \<in> set (stock_takes d2) \<and> sto_id t2 = i"
    using assms(1) nc
  proof (cases rule: maybe_close_steps)
    case still_open
    have "takes_ok d1"
      using still_open(3) frozen assms(2,3) by (intro takes_changed [OF ok row assms(3) takes u others dist bound]) auto
    then show ?thesis using still_open assms(2,3) t1 by auto
  next
    case (closed n p r)
    let ?d = "put_take t2 (d1\<lparr>clock := clock d1 + 1\<rparr>)"
    have id2: "sto_id t2 = i" and st2: "sto_status t2 = CLOSED" using closed(1) assms(3) by simp_all
    have keep: "stock_takes d2 = stock_takes ?d \<and> stock_take_lines d2 = stock_take_lines d1 \<and> uid_next d1 \<le> uid_next d2"
      using keeps_goods_takes [OF ledger_record_goods [OF closed(3)]] by simp
    have ut: "upd_rows (\<lambda>x. sto_id x = i) (\<lambda>_. t2) (upd_rows (\<lambda>x. sto_id x = i) (\<lambda>_. t') (stock_takes d))
        = upd_rows (\<lambda>x. sto_id x = i) (\<lambda>_. t2) (stock_takes d)"
      using assms(3) id2 by (auto simp: upd_rows_def)
    have tk: "stock_takes d2 = upd_rows (\<lambda>x. sto_id x = i) (\<lambda>_. t2) (stock_takes d)"
      using keep id2 by (simp add: takes ut)
    have ls: "lines_of d2 j = lines_of d1 j" for j using keep by (simp add: lines_of_def)
    have "takes_ok d2"
    proof (rule takes_changed [OF ok row id2 tk])
      show "uid_next d \<le> uid_next d2" using keep u by simp
      show "lines_of d2 j = lines_of d j" if "j \<noteq> i" for j using others [OF that] ls by simp
      show "distinct (map stl_id (stock_take_lines d2))" using dist keep by simp
      show "\<exists>k<uid_next d2. stl_id l = uid k" if "l \<in> lines_of d2 i" for l
        using bound [of l] that ls keep less_le_trans by blast
      show "take_ok (sto_status t2) (lines_of d2 i)" using closed(2) frozen assms(3) by (simp add: ls st2)
    qed
    moreover have "t2 \<in> set (stock_takes d2)" using row_in [OF row] by (auto simp: tk upd_rows_def)
    moreover have "\<not> (\<exists>l \<in> lines_of d2 i. stl_resolution l = PENDING)" using closed(2) assms(3) by (simp add: ls)
    ultimately show ?thesis using st2 id2 keep by simp
  qed
  then show "takes_ok d2" "sto_status t2 = (if \<exists>l \<in> lines_of d2 i. stl_resolution l = PENDING then SUBMITTED else CLOSED)"
    "stock_take_lines d2 = stock_take_lines d1" "t2 \<in> set (stock_takes d2)" "sto_id t2 = i" by blast+
qed

text \<open>Resolving one line of a submitted take.\<close>

lemma take_row:
  "takes_ok d \<Longrightarrow> load_take_or_404 d i = Inr t \<Longrightarrow> filter (\<lambda>t. sto_id t = i) (stock_takes d) = [t] \<and> sto_id t = i
     \<and> t \<in> set (stock_takes d) \<and> take_ok (sto_status t) (lines_of d i)"
  using row_in [of "\<lambda>t. sto_id t = i" "stock_takes d" t]
  by (auto simp: load_take_or_404_def res_simps takes_ok_def)

lemma take_line_row: "find_take_line d i x = Inr l \<Longrightarrow> l \<in> lines_of d i \<and> stl_id l = x"
  using row_in [of "\<lambda>l. stl_id l = x \<and> stl_stock_take_id l = i" "stock_take_lines d" l]
  by (auto simp: find_take_line_def res_simps lines_of_def)

definition resolved_one :: "string \<Rightarrow> stock_take_line \<Rightarrow> stock_take_line \<Rightarrow> db \<Rightarrow> db \<Rightarrow> bool" where
  "resolved_one i l l' d d' \<longleftrightarrow> takes_ok d' \<and> stl_resolution l = PENDING \<and> stl_resolution l' \<noteq> PENDING \<and> l \<in> lines_of d i
     \<and> lines_of d' i = insert l' (lines_of d i - {l}) \<and> (\<forall>j. j \<noteq> i \<longrightarrow> lines_of d' j = lines_of d j)
     \<and> (\<exists>t \<in> set (stock_takes d'). sto_id t = i
          \<and> sto_status t = (if \<exists>x \<in> lines_of d' i. stl_resolution x = PENDING then SUBMITTED else CLOSED))"

lemma resolve_one:
  assumes ok: "takes_ok d" and t: "load_take_or_404 d i = Inr t" "sto_status t = SUBMITTED"
    and l: "l \<in> lines_of d i" "stl_resolution l = PENDING"
    and l': "stl_id l' = stl_id l" "stl_stock_take_id l' = i" "frozen_ok l \<longrightarrow> frozen_ok l'" "stl_resolution l' \<noteq> PENDING"
    and d1: "stock_takes d1 = stock_takes d" "stock_take_lines d1 = stock_take_lines d" "uid_next d \<le> uid_next d1"
    and r: "ledger_record sha ev u rt ri p (put_take_line l' d1) = Inr (r, d2)"
    and c: "maybe_close_take sha t u d2 = Inr (t2, d3)"
  shows "resolved_one i l l' d d3"
proof -
  note tr = take_row [OF ok t(1)]
  have dist: "distinct (map stl_id (stock_take_lines d1))" using ok by (simp add: d1(2) takes_ok_def)
  have l1: "l \<in> lines_of d1 i" using l(1) lines_of_cong [OF d1(2)] by simp
  note p = put_take_line_lines [OF dist l1 l'(1,2)]
  have k: "stock_takes d2 = stock_takes d1 \<and> stock_take_lines d2 = stock_take_lines (put_take_line l' d1) \<and> uid_next d1 \<le> uid_next d2"
    using keeps_goods_takes [OF ledger_record_goods [OF r]] by simp
  have ls: "lines_of d2 j = (if j = i then insert l' (lines_of d i - {l}) else lines_of d j)" for j
    using p(1) [of j] k lines_of_cong [OF d1(2)] lines_of_cong [of d2 "put_take_line l' d1" j] by simp
  have froz: "\<forall>x \<in> lines_of d i. frozen_ok x" using tr t(2) by simp
  have "\<forall>x \<in> lines_of d2 i. frozen_ok x" using froz l'(3) l(1) by (auto simp: ls)
  moreover have "stock_takes d2 = upd_rows (\<lambda>x. sto_id x = i) (\<lambda>_. t) (stock_takes d)"
    using upd_rows_self [OF conjunct1 [OF tr]] k d1(1) by simp
  moreover have "map stl_id (stock_take_lines d2) = map stl_id (stock_take_lines d)" using p(2) k d1(2) by simp
  moreover have "uid_next d \<le> uid_next d2" using k d1(3) by simp
  moreover have "lines_of d2 j = lines_of d j" if "j \<noteq> i" for j using ls that by simp
  ultimately have m: "takes_ok d3"
      "sto_status t2 = (if \<exists>x \<in> lines_of d3 i. stl_resolution x = PENDING then SUBMITTED else CLOSED)"
      "stock_take_lines d3 = stock_take_lines d2" "t2 \<in> set (stock_takes d3)" "sto_id t2 = i"
    using maybe_close_take_ok [OF c t(2) _ ok conjunct1 [OF tr]] tr by blast+
  have "lines_of d3 j = lines_of d2 j" for j by (rule lines_of_cong [OF m(3)])
  then have "lines_of d3 i = insert l' (lines_of d i - {l})" "\<forall>j. j \<noteq> i \<longrightarrow> lines_of d3 j = lines_of d j"
    using ls by simp_all
  with m l l'(4) show ?thesis unfolding resolved_one_def by blast
qed

text \<open>The adjustment core leaves the workflow's tables alone, and moves one quantity.\<close>

lemma apply_unit_takes:
  assumes "apply_unit_stock_adjustment_core sha t i delta reason notes actor extra d = Inr (a, d')"
  shows "stock_takes d' = stock_takes d \<and> stock_take_lines d' = stock_take_lines d \<and> uid_next d \<le> uid_next d'"
  using assms
proof (cases rule: apply_unit_steps)
  case (1 d1 d2 ev rt ri p r)
  have "stock_takes d1 = stock_takes d \<and> stock_take_lines d1 = stock_take_lines d \<and> uid_next d1 = uid_next d"
    using 1(1) by (auto simp: put_coin_def put_ounce_def)
  moreover have "stock_takes d2 = stock_takes d1 \<and> stock_take_lines d2 = stock_take_lines d1 \<and> uid_next d2 = Suc (uid_next d1)"
    by (subst (1 2 3) conjunct1 [OF add_adjustment_frame [OF 1(2)]]) simp
  ultimately show ?thesis using keeps_goods_takes [OF ledger_record_goods [OF 1(3)]] by simp
qed

definition stock_kind :: "stock_take_ref_type \<Rightarrow> order_item_kind" where
  "stock_kind rt = (case rt of REF_COIN_STOCK \<Rightarrow> ITEM_COIN | REF_OUNCE_STOCK \<Rightarrow> ITEM_OUNCE)"

lemma put_coin_unit: "put_coin (c\<lparr>co_on_hand_qty := q\<rparr>) d
    = set_unit_qty True (co_id c) q d" if "filter (\<lambda>x. co_id x = co_id c) (coin_types d) = [c]"
proof -
  have "x = c" if "x \<in> set (coin_types d)" "co_id x = co_id c" for x
  proof -
    have "x \<in> set (filter (\<lambda>x. co_id x = co_id c) (coin_types d))" using that by simp
    then show ?thesis unfolding \<open>filter (\<lambda>x. co_id x = co_id c) (coin_types d) = [c]\<close> by simp
  qed
  then have "map (\<lambda>x. if co_id x = co_id c then c\<lparr>co_on_hand_qty := q\<rparr> else x) (coin_types d)
      = map (\<lambda>x. if co_id x = co_id c then x\<lparr>co_on_hand_qty := q\<rparr> else x) (coin_types d)"
    by (intro map_cong) auto
  then show ?thesis by (simp add: put_coin_def set_unit_qty_def upd_rows_def)
qed

lemma put_ounce_unit: "put_ounce (z\<lparr>oz_on_hand_qty := q\<rparr>) d
    = set_unit_qty False (oz_id z) q d" if "filter (\<lambda>x. oz_id x = oz_id z) (ounce_types d) = [z]"
proof -
  have "x = z" if "x \<in> set (ounce_types d)" "oz_id x = oz_id z" for x
  proof -
    have "x \<in> set (filter (\<lambda>x. oz_id x = oz_id z) (ounce_types d))" using that by simp
    then show ?thesis unfolding \<open>filter (\<lambda>x. oz_id x = oz_id z) (ounce_types d) = [z]\<close> by simp
  qed
  then have "map (\<lambda>x. if oz_id x = oz_id z then z\<lparr>oz_on_hand_qty := q\<rparr> else x) (ounce_types d)
      = map (\<lambda>x. if oz_id x = oz_id z then x\<lparr>oz_on_hand_qty := q\<rparr> else x) (ounce_types d)"
    by (intro map_cong) auto
  then show ?thesis by (simp add: put_ounce_def set_unit_qty_def upd_rows_def)
qed

definition unit_kind :: "bool \<Rightarrow> order_item_kind" where
  "unit_kind is_coin = (if is_coin then ITEM_COIN else ITEM_OUNCE)"

lemma add_adjustment_shelf:
  assumes "add_adjustment t i delta r n ac d = (a, d')"
  shows "on_hand k j d' = on_hand k j d \<and> orders d' = orders d \<and> (returnable k j d' \<longleftrightarrow> returnable k j d)"
proof -
  have "products d' = products d \<and> coin_types d' = coin_types d \<and> ounce_types d' = ounce_types d \<and> orders d' = orders d"
    by (subst (1 2 3 4) conjunct1 [OF add_adjustment_frame [OF assms]]) simp
  then show ?thesis by (cases k) (simp_all add: on_hand_def shelf_def returnable_def)
qed

text \<open>The core: the delta is a whole number, and it moves that quantity only, not below zero.\<close>

lemma unit_adjusted:
  assumes "find_unit c i d = Inr (Some u)" "d1 = set_unit_qty c i (ut_on_hand_qty u + n) d"
    "add_adjustment t i delta reason notes actor d1 = (a, d2)" "ledger_record sha ev ac rt ri p d2 = Inr (r, d')"
  shows "on_hand k j d' = on_hand k j d + (if k = unit_kind c \<and> j = i then n else 0)" "orders d' = orders d"
    "returnable k j d \<longrightarrow> returnable k j d'" "on_hand (unit_kind c) i d = ut_on_hand_qty u"
proof -
  note s = unit_shifted(1) [OF assms(1) unit_kind_def [of c], where n = n] and h = unit_shifted(2) [OF assms(1) unit_kind_def [of c]]
  have "goods d' = goods d2" using ledger_record_goods [OF assms(4)] by (simp add: keeps_goods_def)
  note g = goods_cong [OF this] and a = add_adjustment_shelf [OF assms(3)]
  show "on_hand k j d' = on_hand k j d + (if k = unit_kind c \<and> j = i then n else 0)"
    using s a [of k j] g(1) [of k j] by (simp add: assms(2) shifted_def)
  show "orders d' = orders d" using s a g(5) by (simp add: assms(2) shifted_def)
  show "returnable k j d \<longrightarrow> returnable k j d'"
    using s a [of k j] g(2) [of k j] by (simp add: assms(2) shifted_def)
  show "on_hand (unit_kind c) i d = ut_on_hand_qty u" by (rule h)
qed

lemma apply_unit_shifts:
  assumes "apply_unit_stock_adjustment_core sha t i delta reason notes actor extra d = Inr (a, d')"
  shows "\<exists>n. delta = of_int n \<and> t = (if t = TARGET_COIN_STOCK then TARGET_COIN_STOCK else TARGET_OUNCE_STOCK)
    \<and> (\<forall>k j. on_hand k j d' = on_hand k j d + (if k = unit_kind (t = TARGET_COIN_STOCK) \<and> j = i then n else 0))
    \<and> 0 \<le> on_hand (unit_kind (t = TARGET_COIN_STOCK)) i d' \<and> orders d' = orders d \<and> ma_delta a = delta
    \<and> (\<forall>k j. returnable k j d \<longrightarrow> returnable k j d')"
proof -
  have t: "t = TARGET_COIN_STOCK \<or> t = TARGET_OUNCE_STOCK" and n: "delta = of_int \<lfloor>delta\<rfloor>"
    using assms by (auto simp: apply_unit_stock_adjustment_core_def res_simps)
  obtain u d1 d2 ev rt p r where f: "find_unit (t = TARGET_COIN_STOCK) i d = Inr (Some u)"
    "d1 = set_unit_qty (t = TARGET_COIN_STOCK) i (ut_on_hand_qty u + \<lfloor>delta\<rfloor>) d" "0 \<le> ut_on_hand_qty u + \<lfloor>delta\<rfloor>"
    "add_adjustment t i delta reason notes actor d1 = (a, d2)" "ledger_record sha ev actor rt i p d2 = Inr (r, d')"
  proof (cases "t = TARGET_COIN_STOCK")
    case True
    obtain c d2 p r where c: "filter (\<lambda>c. co_id c = i) (coin_types d) = [c]" "0 \<le> co_on_hand_qty c + \<lfloor>delta\<rfloor>"
      "add_adjustment t i delta reason notes actor (put_coin (c\<lparr>co_on_hand_qty := co_on_hand_qty c + \<lfloor>delta\<rfloor>\<rparr>) d) = (a, d2)"
      "ledger_record sha EVENT_COIN_STOCK_ADJUSTED actor ''coin_type'' (co_id c) p d2 = Inr (r, d')"
      using assms True by (auto simp: apply_unit_stock_adjustment_core_def res_simps Let_def not_less)
    have i: "co_id c = i" using filter_single [OF c(1)] by simp
    have u: "find_unit True i d = Inr (Some (coin_view c))"
      using c(1) by (simp add: find_unit_def unit_rows_def scalar_one_or_none_def filter_map comp_def coin_view_def)
    show ?thesis
      by (rule that [of "coin_view c"]) (use u c i put_coin_unit [of c d] True in \<open>auto simp: coin_view_def\<close>)
  next
    case False
    then have o: "t = TARGET_OUNCE_STOCK" using t by simp
    obtain z d2 p r where z: "filter (\<lambda>z. oz_id z = i) (ounce_types d) = [z]" "0 \<le> oz_on_hand_qty z + \<lfloor>delta\<rfloor>"
      "add_adjustment t i delta reason notes actor (put_ounce (z\<lparr>oz_on_hand_qty := oz_on_hand_qty z + \<lfloor>delta\<rfloor>\<rparr>) d) = (a, d2)"
      "ledger_record sha EVENT_OUNCE_STOCK_ADJUSTED actor ''ounce_type'' (oz_id z) p d2 = Inr (r, d')"
      using assms o by (auto simp: apply_unit_stock_adjustment_core_def res_simps Let_def not_less)
    have i: "oz_id z = i" using filter_single [OF z(1)] by simp
    have u: "find_unit False i d = Inr (Some (ounce_view z))"
      using z(1) by (simp add: find_unit_def unit_rows_def scalar_one_or_none_def filter_map comp_def ounce_view_def)
    show ?thesis
      by (rule that [of "ounce_view z"]) (use u z i put_ounce_unit [of z d] o in \<open>auto simp: ounce_view_def\<close>)
  qed
  note m = unit_adjusted [OF f(1,2,4,5)]
  have "ma_delta a = delta" using add_adjustment_frame [OF f(4)] by blast
  moreover have "0 \<le> on_hand (unit_kind (t = TARGET_COIN_STOCK)) i d'" using m(1,4) f(3) by simp
  ultimately show ?thesis using t n m(1-3) by (intro exI [of _ "\<lfloor>delta\<rfloor>"]) auto
qed

section \<open>Every handler keeps takes and lines together\<close>

lemma create_stock_take_ok:
  assumes "create_stock_take sha notes u d = Inr (t, d')" "takes_ok d"
  shows "takes_ok d'"
proof -
  obtain p r where t: "sto_id t = uid (uid_next d)" "sto_status t = DRAFT"
    and r: "ledger_record sha EVENT_STOCK_TAKE_STARTED u ''stock_take'' (sto_id t) p
      (d\<lparr>uid_next := Suc (uid_next d), clock := clock d + 1, stock_takes := stock_takes d @ [t]\<rparr>) = Inr (r, d')"
    using assms(1) by (auto simp: create_stock_take_def res_simps Let_def fresh_uid_def read_clock_def)
  note k = keeps_goods_takes [OF ledger_record_goods [OF r], simplified]
  have new: "uid (uid_next d) \<notin> sto_id ` set (stock_takes d)" using assms(2) by (fastforce simp: takes_ok_def)
  have old: "lines_of d' i = lines_of d i" for i by (rule lines_of_cong) (use k in simp)
  have "\<forall>l \<in> set (stock_take_lines d). stl_stock_take_id l \<in> sto_id ` set (stock_takes d)"
    using assms(2) unfolding takes_ok_def by blast
  then have "stl_stock_take_id l \<noteq> uid (uid_next d)" if "l \<in> set (stock_take_lines d)" for l using that new by metis
  then have "lines_of d (uid (uid_next d)) = {}" by (auto simp: lines_of_def)
  moreover have "\<exists>j < uid_next d'. x = uid j" if "\<exists>j < uid_next d. x = uid j" for x
    using that k less_le_trans [of _ "uid_next d" "uid_next d'"] by auto
  moreover have "\<exists>j < uid_next d'. uid (uid_next d) = uid j" using k by (intro exI [of _ "uid_next d"]) simp
  ultimately show ?thesis using assms(2) new k unfolding takes_ok_def by (auto simp: old t)
qed

lemma add_line_ok:
  assumes "add_line i rt ref n d = Inr (l, d')" "takes_ok d"
  shows "takes_ok d'"
proof -
  obtain t where t: "load_take_or_404 d i = Inr t" "sto_status t = DRAFT" and l: "fresh_line l" "stl_id l = uid (uid_next d)"
    "stl_stock_take_id l = sto_id t" and d': "d' = d\<lparr>uid_next := Suc (uid_next d), stock_take_lines := stock_take_lines d @ [l]\<rparr>"
    using assms(1) by (auto simp: add_line_def res_simps Let_def fresh_uid_def fresh_line_def)
  note tr = take_row [OF assms(2) t(1)]
  have new: "uid (uid_next d) \<notin> stl_id ` set (stock_take_lines d)" using assms(2) by (fastforce simp: takes_ok_def)
  have ls: "lines_of d' j = (if j = i then insert l (lines_of d i) else lines_of d j)" for j
    using tr l(3) by (auto simp: lines_of_def d')
  show ?thesis
  proof (rule takes_changed [OF assms(2) conjunct1 [OF tr]])
    show "stock_takes d' = upd_rows (\<lambda>x. sto_id x = i) (\<lambda>_. t) (stock_takes d)"
      using upd_rows_self [OF conjunct1 [OF tr]] by (simp add: d')
    show "distinct (map stl_id (stock_take_lines d'))" using assms(2) new by (auto simp: takes_ok_def d' l(2))
    show "\<exists>k<uid_next d'. stl_id x = uid k" if "x \<in> lines_of d' i" for x
    proof (cases "x = l")
      case True
      then show ?thesis by (intro exI [of _ "uid_next d"]) (simp add: d' l(2))
    next
      case False
      then have "x \<in> set (stock_take_lines d)" using that by (simp add: lines_of_def d')
      then obtain k where "k < uid_next d" "stl_id x = uid k" using assms(2) unfolding takes_ok_def by blast
      then show ?thesis by (intro exI [of _ k]) (simp add: d')
    qed
    show "take_ok (sto_status t) (lines_of d' i)" using tr t(2) l(1) by (simp add: ls)
    show "lines_of d' j = lines_of d j" if "j \<noteq> i" for j using that by (simp add: ls)
  qed (use tr in \<open>simp_all add: d'\<close>)
qed

lemma edit_line_ok:
  assumes "edit_line i x n d = Inr (l', d')" "takes_ok d"
  shows "takes_ok d'"
proof -
  obtain t l where t: "load_take_or_404 d i = Inr t" "sto_status t = DRAFT" and l: "find_take_line d i x = Inr l"
    and l': "l' = l\<lparr>stl_counted_qty := n\<rparr>" and d': "d' = put_take_line l' d"
    using assms(1) by (auto simp: edit_line_def res_simps Let_def)
  note tr = take_row [OF assms(2) t(1)] and lr = take_line_row [OF l]
  have p: "lines_of d' j = (if j = i then insert l' (lines_of d i - {l}) else lines_of d j)"
    "map stl_id (stock_take_lines d') = map stl_id (stock_take_lines d)" for j
    using put_take_line_lines [of d l i l'] assms(2) lr unfolding d' by (auto simp: l' takes_ok_def lines_of_def)
  show ?thesis
  proof (rule takes_changed [OF assms(2) conjunct1 [OF tr]])
    show "stock_takes d' = upd_rows (\<lambda>x. sto_id x = i) (\<lambda>_. t) (stock_takes d)"
      using upd_rows_self [OF conjunct1 [OF tr]] by (simp add: d')
    show "distinct (map stl_id (stock_take_lines d'))" using assms(2) by (simp add: takes_ok_def p(2))
    show "\<exists>k<uid_next d'. stl_id y = uid k" if "y \<in> lines_of d' i" for y
    proof -
      have "stl_id y \<in> set (map stl_id (stock_take_lines d'))" using that by (simp add: lines_of_def)
      then have "stl_id y \<in> stl_id ` set (stock_take_lines d)" by (simp add: p(2))
      then show ?thesis using assms(2) by (auto simp: takes_ok_def d')
    qed
    show "take_ok (sto_status t) (lines_of d' i)" using tr t(2) lr by (auto simp: p(1) l' fresh_line_def)
  qed (use tr p(1) in \<open>simp_all add: d'\<close>)
qed

lemma remove_line_ok:
  assumes "remove_line i x d = Inr (u, d')" "takes_ok d"
  shows "takes_ok d'"
proof -
  obtain t l where t: "load_take_or_404 d i = Inr t" "sto_status t = DRAFT" and l: "find_take_line d i x = Inr l"
    and d': "d' = d\<lparr>stock_take_lines := filter (\<lambda>y. stl_id y \<noteq> stl_id l) (stock_take_lines d)\<rparr>"
    using assms(1) by (auto simp: remove_line_def res_simps)
  note tr = take_row [OF assms(2) t(1)] and lr = take_line_row [OF l]
  have sub: "lines_of d' j \<subseteq> lines_of d j" for j by (auto simp: lines_of_def d')
  have uniq: "y = l" if "y \<in> set (stock_take_lines d)" "stl_id y = stl_id l" for y
    using that lr assms(2) by (auto simp: takes_ok_def lines_of_def distinct_map inj_on_def)
  show ?thesis
  proof (rule takes_changed [OF assms(2) conjunct1 [OF tr]])
    show "stock_takes d' = upd_rows (\<lambda>x. sto_id x = i) (\<lambda>_. t) (stock_takes d)"
      using upd_rows_self [OF conjunct1 [OF tr]] by (simp add: d')
    show "distinct (map stl_id (stock_take_lines d'))"
      using assms(2) by (simp add: takes_ok_def d' distinct_map_filter)
    show "\<exists>k<uid_next d'. stl_id y = uid k" if "y \<in> lines_of d' i" for y
      using that assms(2) by (auto simp: takes_ok_def lines_of_def d')
    show "take_ok (sto_status t) (lines_of d' i)" using tr t(2) sub by auto
    show "lines_of d' j = lines_of d j" if "j \<noteq> i" for j
      using that lr uniq by (auto simp: lines_of_def d')
  qed (use tr in \<open>simp_all add: d'\<close>)
qed

lemma submit_stock_take_ok:
  assumes "submit_stock_take sha i u d = Inr (t', d')" "takes_ok d"
  shows "takes_ok d'" "\<forall>l \<in> lines_of d i. stl_resolution l = PENDING" "\<forall>j. j \<noteq> i \<longrightarrow> lines_of d' j = lines_of d j"
proof -
  obtain t ls d1 p r d2 where t: "load_take_or_404 d i = Inr t" "sto_status t = DRAFT" "fresh_lines d i \<noteq> []"
    and s: "submit_lines u (fresh_lines d i) d = Inr (ls, d1)"
    and r: "ledger_record sha EVENT_STOCK_TAKE_SUBMITTED u ''stock_take'' (sto_id t) p
       (put_take (t\<lparr>sto_status := SUBMITTED, sto_submitted_at := Some (clock d1)\<rparr>) (d1\<lparr>clock := clock d1 + 1\<rparr>)) = Inr (r, d2)"
    and c: "maybe_close_take sha (t\<lparr>sto_status := SUBMITTED, sto_submitted_at := Some (clock d1)\<rparr>) u d2 = Inr (t', d')"
    using assms(1) by (auto simp: submit_stock_take_def res_simps Let_def read_clock_def)
  let ?t = "t\<lparr>sto_status := SUBMITTED, sto_submitted_at := Some (clock d1)\<rparr>"
  note tr = take_row [OF assms(2) t(1)]
  have dist: "distinct (map stl_id (stock_take_lines d))" using assms(2) by (simp add: takes_ok_def)
  have dist': "distinct (map stl_id (fresh_lines d i))" unfolding fresh_lines_def by (rule distinct_map_filter [OF dist])
  have sub: "set (fresh_lines d i) \<subseteq> set (stock_take_lines d)" by (auto simp: lines_of_def)
  note f = submit_lines_set [OF s dist' sub dist]
  have k: "stock_takes d2 = stock_takes (put_take ?t (d1\<lparr>clock := clock d1 + 1\<rparr>)) \<and> stock_take_lines d2 = stock_take_lines d1
      \<and> uid_next d1 \<le> uid_next d2"
    using keeps_goods_takes [OF ledger_record_goods [OF r]] by simp
  have rel: "\<exists>l0 \<in> lines_of d i. submitted_as l0 l" if "l \<in> set ls" for l
    using that f unfolding list_all2_conv_all_nth in_set_conv_nth by (metis in_set_conv_nth set_fresh_lines)
  have froz: "frozen_ok l \<and> stl_stock_take_id l = i" if "l \<in> set ls" for l
    using rel [OF that] tr t(2) by (auto simp: submitted_as_def lines_of_def)
  have ids: "stl_id x \<in> stl_id ` lines_of d i \<longleftrightarrow> stl_stock_take_id x = i" if "x \<in> set (stock_take_lines d)" for x
    using that dist by (auto simp: lines_of_def distinct_map inj_on_def)
  have set1: "set (stock_take_lines d1) = set ls \<union> {x \<in> set (stock_take_lines d). stl_stock_take_id x \<noteq> i}"
    using f ids by auto
  have ls: "lines_of d2 j = (if j = i then set ls else lines_of d j)" for j
    using k froz by (auto simp: lines_of_def set1)
  have k2: "stock_takes d2 = upd_rows (\<lambda>x. sto_id x = i) (\<lambda>_. ?t) (stock_takes d)"
    "uid_next d \<le> uid_next d2" "map stl_id (stock_take_lines d2) = map stl_id (stock_take_lines d)"
    "\<forall>l\<in>lines_of d2 i. frozen_ok l" "\<And>j. j \<noteq> i \<Longrightarrow> lines_of d2 j = lines_of d j"
    using k f tr froz by (simp_all add: ls)
  have tt: "sto_status ?t = SUBMITTED" "sto_id ?t = i" using tr by simp_all
  note m = maybe_close_take_ok [OF c tt assms(2) conjunct1 [OF tr] k2(1,2) k2(5,3,4)]
  show "takes_ok d'" by (rule m(1))
  show "\<forall>j. j \<noteq> i \<longrightarrow> lines_of d' j = lines_of d j" using k2(5) lines_of_cong [OF m(3)] by simp
  show "\<forall>l \<in> lines_of d i. stl_resolution l = PENDING" using tr t(2) by (simp add: fresh_line_def)
qed

text \<open>An approval: the line is resolved and its variance is posted.\<close>

lemma approve_line_steps:
  assumes "approve_line sha i x u d = Inr (l', d')"
  obtains t l a d1 p r d2 t2 v extra nts where "load_take_or_404 d i = Inr t" "sto_status t = SUBMITTED"
    "find_take_line d i x = Inr l" "stl_resolution l = PENDING" "stl_variance l = Some v" "v \<noteq> 0"
    "apply_unit_stock_adjustment_core sha (to_adjustment_target (stl_ref_type l)) (stl_ref_id l) (of_int v) CORRECTION
       nts u extra d = Inr (a, d1)"
    "l' = (mark_line APPROVED (clock d1) u l)\<lparr>stl_adjustment_id := Some (ma_id a)\<rparr>"
    "ledger_record sha EVENT_STOCK_TAKE_LINE_APPROVED u ''stock_take_line'' (stl_id l') p
       (put_take_line l' (d1\<lparr>clock := clock d1 + 1\<rparr>)) = Inr (r, d2)"
    "maybe_close_take sha t u d2 = Inr (t2, d')"
  using assms by (auto simp: approve_line_def res_simps Let_def read_clock_def)

lemma approve_line_resolves:
  assumes "approve_line sha i x u d = Inr (l', d')" "takes_ok d"
  obtains l where "resolved_one i l l' d d'" "stl_id l = x" "stl_resolution l' = APPROVED"
  using assms(1)
proof (cases rule: approve_line_steps)
  case (1 t l a d1 p r d2 t2 v extra nts)
  note lr = take_line_row [OF 1(3)] and k = apply_unit_takes [OF 1(7)]
  have "stl_stock_take_id l = i" using lr by (simp add: lines_of_def)
  then have "resolved_one i l l' d d'"
    using k lr 1(8) by (intro resolve_one [OF assms(2) 1(1,2) conjunct1 [OF lr] 1(4) _ _ _ _ _ _ _ 1(9,10)])
      (auto simp: mark_line_def frozen_ok_def 1(4))
  then show ?thesis by (rule that) (use lr 1(8) in \<open>simp_all add: mark_line_def\<close>)
qed

lemma reject_line_resolves:
  assumes "reject_line sha i x reason u d = Inr (l', d')" "takes_ok d"
  obtains l where "resolved_one i l l' d d'" "stl_id l = x" "stl_resolution l' = REJECTED"
proof -
  obtain t l p r d2 t2 where t: "load_take_or_404 d i = Inr t" "sto_status t = SUBMITTED" and l: "find_take_line d i x = Inr l"
    "stl_resolution l = PENDING" and l': "l' = (mark_line REJECTED (clock d) u l)\<lparr>stl_rejection_reason := Some reason\<rparr>"
    and r: "ledger_record sha EVENT_STOCK_TAKE_LINE_REJECTED u ''stock_take_line'' (stl_id l') p
       (put_take_line l' (d\<lparr>clock := clock d + 1\<rparr>)) = Inr (r, d2)"
    and c: "maybe_close_take sha t u d2 = Inr (t2, d')"
    using assms(1) by (auto simp: reject_line_def res_simps Let_def read_clock_def)
  note lr = take_line_row [OF l(1)]
  have "stl_stock_take_id l = i" using lr by (simp add: lines_of_def)
  then have "resolved_one i l l' d d'"
    using lr by (intro resolve_one [OF assms(2) t conjunct1 [OF lr] l(2) _ _ _ _ _ _ _ r c])
      (auto simp: mark_line_def frozen_ok_def l(2) l')
  then show ?thesis by (rule that) (use lr in \<open>simp_all add: mark_line_def l'\<close>)
qed

text \<open>Drafting touches pending lines of one take only.\<close>

lemma drafting_lines:
  "add_line i rt ref n d = Inr (l, d') \<Longrightarrow> set (stock_take_lines d) \<subseteq> set (stock_take_lines d')"
  "edit_line i x n d = Inr (l, d') \<Longrightarrow> takes_ok d \<Longrightarrow> y \<in> set (stock_take_lines d) \<Longrightarrow> stl_resolution y \<noteq> PENDING
     \<Longrightarrow> y \<in> set (stock_take_lines d')"
  "remove_line i x d = Inr (u, d') \<Longrightarrow> takes_ok d \<Longrightarrow> y \<in> set (stock_take_lines d) \<Longrightarrow> stl_resolution y \<noteq> PENDING
     \<Longrightarrow> y \<in> set (stock_take_lines d')"
proof -
  show "add_line i rt ref n d = Inr (l, d') \<Longrightarrow> set (stock_take_lines d) \<subseteq> set (stock_take_lines d')"
    by (auto simp: add_line_def res_simps Let_def fresh_uid_def)
  have other: "stl_id y \<noteq> stl_id z" if "load_take_or_404 d i = Inr t" "sto_status t = DRAFT" "find_take_line d i x = Inr z"
    "takes_ok d" "y \<in> set (stock_take_lines d)" "stl_resolution y \<noteq> PENDING" for t z
  proof
    assume eq: "stl_id y = stl_id z"
    note tr = take_row [OF that(4,1)] and lr = take_line_row [OF that(3)]
    have "y = z" using eq that(4,5) lr by (auto simp: takes_ok_def distinct_map inj_on_def lines_of_def)
    then show False using tr lr that(2,6) by (auto simp: fresh_line_def)
  qed
  show "edit_line i x n d = Inr (l, d') \<Longrightarrow> takes_ok d \<Longrightarrow> y \<in> set (stock_take_lines d) \<Longrightarrow> stl_resolution y \<noteq> PENDING
     \<Longrightarrow> y \<in> set (stock_take_lines d')"
    using other by (force simp: edit_line_def res_simps Let_def put_take_line_def upd_rows_def)
  show "remove_line i x d = Inr (u, d') \<Longrightarrow> takes_ok d \<Longrightarrow> y \<in> set (stock_take_lines d) \<Longrightarrow> stl_resolution y \<noteq> PENDING
     \<Longrightarrow> y \<in> set (stock_take_lines d')"
    using other by (auto simp: remove_line_def res_simps)
qed

section \<open>The workflow as a state machine\<close>

text \<open>\<open>elsewhere\<close>: every write that leaves the takes and their lines alone, and drops no key.\<close>

inductive take_step :: "(string \<Rightarrow> string) \<Rightarrow> db \<Rightarrow> db \<Rightarrow> bool" for sha where
  started: "create_stock_take sha nts u d = Inr (t, d') \<Longrightarrow> take_step sha d d'"
| counted: "add_line i rt ref n d = Inr (l, d') \<Longrightarrow> take_step sha d d'"
| recounted: "edit_line i x n d = Inr (l, d') \<Longrightarrow> take_step sha d d'"
| removed: "remove_line i x d = Inr (w, d') \<Longrightarrow> take_step sha d d'"
| submitted: "submit_stock_take sha i u d = Inr (t, d') \<Longrightarrow> take_step sha d d'"
| approved: "approve_line sha i x u d = Inr (l, d') \<Longrightarrow> take_step sha d d'"
| rejected: "reject_line sha i x reason u d = Inr (l, d') \<Longrightarrow> take_step sha d d'"
| elsewhere: "stock_takes d' = stock_takes d \<Longrightarrow> stock_take_lines d' = stock_take_lines d \<Longrightarrow> uid_next d \<le> uid_next d'
    \<Longrightarrow> take_step sha d d'"

lemma take_step_ok: "take_step sha d d' \<Longrightarrow> takes_ok d \<Longrightarrow> takes_ok d'"
proof (induction rule: take_step.induct)
  case (approved i x u d l d')
  show ?case by (rule approve_line_resolves [OF approved.hyps approved.prems]) (simp add: resolved_one_def)
next
  case (rejected i x reason u d l d')
  show ?case by (rule reject_line_resolves [OF rejected.hyps rejected.prems]) (simp add: resolved_one_def)
qed (blast intro: create_stock_take_ok add_line_ok edit_line_ok remove_line_ok submit_stock_take_ok(1) takes_ok_cong)+

text \<open>A resolved line is never touched again.\<close>

lemma resolved_one_final:
  assumes "resolved_one i l l' d d'" "y \<in> set (stock_take_lines d)" "stl_resolution y \<noteq> PENDING"
  shows "y \<in> set (stock_take_lines d')"
proof -
  have "y \<in> lines_of d' (stl_stock_take_id y)"
    using assms by (cases "stl_stock_take_id y = i") (auto simp: resolved_one_def lines_of_def)
  then show ?thesis by (simp add: lines_of_def)
qed

lemma create_stock_take_lines:
  assumes "create_stock_take sha nts u d = Inr (t, d')"
  shows "stock_take_lines d' = stock_take_lines d"
proof -
  obtain p r where "ledger_record sha EVENT_STOCK_TAKE_STARTED u ''stock_take'' (sto_id t) p
      (d\<lparr>uid_next := Suc (uid_next d), clock := clock d + 1, stock_takes := stock_takes d @ [t]\<rparr>) = Inr (r, d')"
    using assms by (auto simp: create_stock_take_def res_simps Let_def fresh_uid_def read_clock_def)
  from keeps_goods_takes [OF ledger_record_goods [OF this]] show ?thesis by simp
qed

lemma take_step_final:
  assumes "take_step sha d d'" "takes_ok d" "y \<in> set (stock_take_lines d)" "stl_resolution y \<noteq> PENDING"
  shows "y \<in> set (stock_take_lines d')"
  using assms
proof (induction rule: take_step.induct)
  case (started nts u d t d')
  then show ?case by (simp add: create_stock_take_lines)
next
  case (counted i rt ref n d l d')
  then show ?case using drafting_lines(1) by blast
next
  case (recounted i x n d l d')
  then show ?case using drafting_lines(2) by blast
next
  case (removed i x d w d')
  then show ?case using drafting_lines(3) by blast
next
  case (submitted i u d t d')
  note m = submit_stock_take_ok [OF submitted.hyps submitted.prems(1)]
  have "stl_stock_take_id y \<noteq> i" using m(2) submitted.prems(2,3) by (auto simp: lines_of_def)
  then have "y \<in> lines_of d' (stl_stock_take_id y)" using m(3) submitted.prems(2) by (simp add: lines_of_def)
  then show ?case by (simp add: lines_of_def)
next
  case (approved i x u d l d')
  show ?case
    by (rule approve_line_resolves [OF approved.hyps approved.prems(1)]) (rule resolved_one_final [OF _ approved.prems(2,3)])
next
  case (rejected i x reason u d l d')
  show ?case
    by (rule reject_line_resolves [OF rejected.hyps rejected.prems(1)]) (rule resolved_one_final [OF _ rejected.prems(2,3)])
qed simp

lemma take_reach_ok:
  assumes "(take_step sha)\<^sup>*\<^sup>* d0 d" "takes_ok d0"
  shows "takes_ok d" "y \<in> set (stock_take_lines d0) \<Longrightarrow> stl_resolution y \<noteq> PENDING \<Longrightarrow> y \<in> set (stock_take_lines d)"
proof -
  have "takes_ok d \<and> (y \<in> set (stock_take_lines d0) \<longrightarrow> stl_resolution y \<noteq> PENDING \<longrightarrow> y \<in> set (stock_take_lines d))"
    using assms by (induction rule: rtranclp_induct) (auto intro: take_step_ok take_step_final)
  then show "takes_ok d" "y \<in> set (stock_take_lines d0) \<Longrightarrow> stl_resolution y \<noteq> PENDING \<Longrightarrow> y \<in> set (stock_take_lines d)"
    by blast+
qed

text \<open>Each resolution leaves one pending line less.\<close>

definition pending :: "db \<Rightarrow> string \<Rightarrow> stock_take_line set" where
  "pending d i = {l \<in> lines_of d i. stl_resolution l = PENDING}"

lemma finite_pending [simp]: "finite (pending d i)"
  by (simp add: pending_def lines_of_def)

lemma resolved_one_pending:
  assumes "resolved_one i l l' d d'"
  shows "pending d' i = pending d i - {l}" "l \<in> pending d i"
  using assms by (auto simp: pending_def resolved_one_def)

end
