(* ===== verification/Store_Facts.thy ===== *)
theory Store_Facts
  imports Suppliers StockTakes_Facts System
begin

text \<open>
  The shop's handlers as moves on the store. The interface \<open>store_invariant\<close> says which writes
  an invariant of the lots, the bought pieces and the weights has to keep; every handler of
  the till, the walk-in counter, the suppliers and the stock-takes then keeps it. The books
  and the store are invariants of this kind.
\<close>

section \<open>What the writes leave alone\<close>

lemma rows_same_books:
  "same_books d (put_buyback w d)" "same_books d (put_supplier s d)" "same_books d (put_purchase p d)"
  "same_books d (put_payment_row y d)" "same_books d (put_take t d)" "same_books d (put_take_line l d)"
  by (simp_all add: same_books_def put_buyback_def put_supplier_def put_purchase_def put_payment_row_def put_take_def
      put_take_line_def)

lemma added_same_books:
  "add_buyback w d = (w', d') \<Longrightarrow> same_books d d'" "add_purchase p d = (p', d') \<Longrightarrow> same_books d d'"
  "add_payment y d = (y', d') \<Longrightarrow> same_books d d'" "add_product q d = Inr (q', d') \<Longrightarrow> same_books d d'"
  "adjust_balance sid u k x n d = Inr (z, d') \<Longrightarrow> same_books d d'"
  by (auto simp: same_books_def add_buyback_def add_purchase_def add_payment_def add_product_def adjust_balance_def res_simps
      fresh_uid_def read_clock_def Let_def split: option.split_asm)

lemma add_lot_now_same_books: "add_lot_now k w src rt ri c nts d = (l, d') \<Longrightarrow> same_books d d'"
  by (auto simp: add_lot_now_def read_clock_def Let_def intro: same_books_trans [OF tick_same_books add_lot_same_books])

lemma fresh_same_books: "same_books d (d\<lparr>uid_next := Suc (uid_next d), supplier_purchase_items := its\<rparr>)"
  "same_books d (d\<lparr>uid_next := Suc (uid_next d), suppliers := sups\<rparr>)"
  "same_books d (d\<lparr>uid_next := Suc (uid_next d), stock_take_lines := lns\<rparr>)"
  "same_books d (d\<lparr>uid_next := Suc (uid_next d), clock := clock d + 1, stock_takes := tks\<rparr>)"
  "same_books d (d\<lparr>stock_take_lines := lns\<rparr>)"
  by (simp_all add: same_books_def)

lemma get_rate_same_books: "get_current_gold_rate cf d = Inr (info, d') \<Longrightarrow> same_books d d'"
  by (auto simp: get_current_gold_rate_def read_clock_def same_books_def Let_def split: option.split_asm)

lemma rate_acceptable_same_books: "assert_rate_acceptable info ack d = Inr (u, d') \<Longrightarrow> same_books d d'"
  by (auto simp: assert_rate_acceptable_def read_clock_def same_books_def Let_def res_simps split: option.split_asm if_split_asm)


lemma fresh_rows_same_books: "fresh_uid d = (k, d') \<Longrightarrow> same_books d d'"
  "read_clock d = (t, d') \<Longrightarrow> same_books d d'"
  "same_books d (d\<lparr>suppliers := ss\<rparr>)" "same_books d (d\<lparr>supplier_purchase_items := its\<rparr>)"
  "same_books d (d\<lparr>stock_takes := tks\<rparr>)"
  by (auto simp: same_books_def fresh_uid_def read_clock_def)

text \<open>
  \<open>keeps_lots\<close>: the lots, what was drawn from them and added to them, the bought pieces and
  the weights of the products are the same.
\<close>

definition product_weights :: "db \<Rightarrow> (string \<times> dec) list" where
  "product_weights d = map (\<lambda>p. (pr_id p, pr_weight_grams p)) (products d)"

definition lot_adjustments :: "db \<Rightarrow> manual_adjustment list" where
  "lot_adjustments d = filter (\<lambda>a. ma_target_type a = TARGET_LOT) (adjustments d)"

definition keeps_lots :: "db \<Rightarrow> db \<Rightarrow> bool" where
  "keeps_lots d d' \<longleftrightarrow> gold_lots d' = gold_lots d \<and> lot_consumptions d' = lot_consumptions d
     \<and> lot_adjustments d' = lot_adjustments d \<and> buybacks d' = buybacks d \<and> product_weights d' = product_weights d
     \<and> uid_next d \<le> uid_next d'"

lemma keeps_lots_refl: "keeps_lots d d"
  by (simp add: keeps_lots_def)

lemma keeps_lots_trans: "keeps_lots a b \<Longrightarrow> keeps_lots b c \<Longrightarrow> keeps_lots a c"
  by (auto simp: keeps_lots_def)

lemma goods_lots: "keeps_goods d d' \<Longrightarrow> keeps_lots d d'"
  by (simp add: keeps_goods_def goods_def keeps_lots_def lot_adjustments_def product_weights_def)

lemma put_product_lots:
  assumes "filter (\<lambda>x. pr_id x = i) (products d) = [p]" "pr_id p' = pr_id p" "pr_weight_grams p' = pr_weight_grams p"
  shows "keeps_lots d (put_product p' d)"
proof -
  have p: "pr_id p = i" using assms(1) by (auto simp: filter_eq_Cons_iff)
  have "x = p" if x: "x \<in> set (products d)" "pr_id x = i" for x
  proof -
    have "x \<in> set (filter (\<lambda>x. pr_id x = i) (products d))" using x by simp
    then show ?thesis unfolding assms(1) by simp
  qed
  then have "product_weights (put_product p' d) = product_weights d"
    using assms(2,3) p by (auto simp: product_weights_def put_product_def upd_rows_def)
  then show ?thesis by (simp add: keeps_lots_def lot_adjustments_def put_product_def)
qed

lemma shelf_lots: "keeps_lots d (set_unit_qty c i q d)" "keeps_lots d (put_coin co d)" "keeps_lots d (put_ounce oz d)"
  by (simp_all add: keeps_lots_def lot_adjustments_def product_weights_def set_unit_qty_def put_coin_def put_ounce_def)

lemma rows_lots:
  "keeps_lots d (put_supplier s d)" "keeps_lots d (put_purchase p d)" "keeps_lots d (put_payment_row y d)"
  "keeps_lots d (put_take t d)" "keeps_lots d (put_take_line l d)" "keeps_lots d (put_order o' d)"
  "keeps_lots d (d\<lparr>clock := c\<rparr>)" "keeps_lots d (d\<lparr>suppliers := ss\<rparr>)" "keeps_lots d (d\<lparr>supplier_purchase_items := its\<rparr>)"
  "keeps_lots d (d\<lparr>stock_takes := tks\<rparr>)" "keeps_lots d (d\<lparr>stock_take_lines := lns\<rparr>)"
  by (simp_all add: keeps_lots_def lot_adjustments_def product_weights_def put_supplier_def put_purchase_def
      put_payment_row_def put_take_def put_take_line_def put_order_def)

lemma added_lots:
  "add_purchase p d = (p', d') \<Longrightarrow> keeps_lots d d'" "add_payment y d = (y', d') \<Longrightarrow> keeps_lots d d'"
  "adjust_balance sid u k x n d = Inr (z, d') \<Longrightarrow> keeps_lots d d'" "fresh_uid d = (f, d') \<Longrightarrow> keeps_lots d d'"
  "read_clock d = (t, d') \<Longrightarrow> keeps_lots d d'" "get_current_gold_rate cf d = Inr (info, d') \<Longrightarrow> keeps_lots d d'"
  "assert_rate_acceptable info ack d = Inr ((), d') \<Longrightarrow> keeps_lots d d'"
  "add_order o' d = Inr (o2, d') \<Longrightarrow> keeps_lots d d'"
  by (auto simp: keeps_lots_def lot_adjustments_def product_weights_def add_purchase_def add_payment_def adjust_balance_def
      res_simps fresh_uid_def read_clock_def get_current_gold_rate_def assert_rate_acceptable_def add_order_def Let_def
      split: option.split_asm if_split_asm prod.split_asm dest: number_items_facts(1))

lemma adjusted_lots:
  assumes "apply_unit_stock_adjustment_core sha t i delta reason notes actor extra d = Inr (a, d')"
  shows "keeps_lots d d'"
  using assms
proof (cases rule: apply_unit_steps)
  case (1 d1 d2 ev rt ri p r)
  have t: "t \<noteq> TARGET_LOT" using assms by (auto simp: apply_unit_stock_adjustment_core_def res_simps)
  have "keeps_lots d1 d2"
    using add_adjustment_frame [OF 1(2)] t
    by (auto simp: keeps_lots_def lot_adjustments_def product_weights_def)
  moreover have "keeps_lots d d1" using 1(1) shelf_lots by blast
  ultimately show ?thesis using goods_lots [OF ledger_record_goods [OF 1(3)]] by (blast intro: keeps_lots_trans)
qed

lemma checkout_lines_lots: "checkout_lines s rate ls d = Inr (its, tot, evs, d') \<Longrightarrow> keeps_lots d d'"
proof (induction ls arbitrary: d its tot evs)
  case (Cons l ls)
  obtain it t ev d1 its' t' evs' where c: "checkout_line s rate l d = Inr (it, t, ev, d1)"
    and r: "checkout_lines s rate ls d1 = Inr (its', t', evs', d')"
    using Cons.prems by (auto simp: res_simps)
  have "keeps_lots d d1"
    using c by (auto simp: checkout_line_def checkout_product_line_def checkout_unit_line_def res_simps Let_def shelf_lots
        sell_product_def split: if_split_asm intro: put_product_lots)
  then show ?case using Cons.IH [OF r] by (rule keeps_lots_trans)
qed (simp add: keeps_lots_refl)

lemma scalar_single: "scalar_one_or_none Q rows = Inr (Some r) \<Longrightarrow> filter Q rows = [r]"
  by (auto simp: scalar_one_or_none_def split: list.splits)

lemma return_product_lots:
  assumes "return_product i n d = Inr (b, d')"
  shows "keeps_lots d d'"
proof -
  obtain row where row: "scalar_one_or_none (\<lambda>p. pr_id p = i) (products d) = Inr row"
    using assms by (auto simp: return_product_def res_simps)
  show ?thesis
  proof (cases row)
    case None
    then show ?thesis using assms row by (simp add: return_product_def keeps_lots_refl)
  next
    case (Some p)
    then show ?thesis using assms row put_product_lots [OF scalar_single [OF row [unfolded Some]]]
      by (auto simp: return_product_def keeps_lots_refl Let_def split: if_split_asm)
  qed
qed

lemma return_stock_lots: "return_stock it n d = Inr (b, d') \<Longrightarrow> keeps_lots d d'"
  by (cases "oi_item_kind it")
    (auto simp: return_stock_def return_unit_def res_simps Let_def keeps_lots_refl shelf_lots
      split: if_split_asm option.split_asm intro: return_product_lots)

lemma return_lines_lots: "return_lines its d = Inr (evs, d') \<Longrightarrow> keeps_lots d d'"
  by (induction its arbitrary: d evs)
    (auto simp: res_simps keeps_lots_refl split: option.split_asm dest!: return_stock_lots intro: keeps_lots_trans)


lemma create_order_lots:
  assumes "create_order sha cf st b u d = Inr (o', d')"
  shows "keeps_lots d d'"
  using assms
proof (cases rule: create_order_steps)
  case (1 s info d0 now items subtotal evs d1 m d2)
  have "keeps_lots d0 (now\<lparr>clock := clock now + 1\<rparr>)" "keeps_lots d d0"
    using added_lots(6) [OF 1(2)] added_lots(7) [OF 1(5)] rows_lots(7) by (blast intro: keeps_lots_trans)+
  then show ?thesis
    using checkout_lines_lots [OF 1(8)] added_lots(8) [OF 1(11)] goods_lots [OF finish_order_goods [OF 1(12)]]
    by (blast intro: keeps_lots_trans)
qed

lemma void_order_lots:
  assumes "void_order sha st n reason u d = Inr (o', d')"
  shows "keeps_lots d d'"
  using assms
proof (cases rule: void_order_steps)
  case (1 o0 evs d1 p r d2 d3)
  have "keeps_lots d (put_order o' (d1\<lparr>clock := clock d1 + 1\<rparr>))"
    using return_lines_lots [OF 1(3)] rows_lots(6,7) by (blast intro: keeps_lots_trans)
  moreover have "keeps_lots (put_order o' (d1\<lparr>clock := clock d1 + 1\<rparr>)) d'"
    using ledger_record_goods [OF 1(5)] write_events_goods [OF 1(6)] refund_books_goods [OF 1(7)] goods_lots
    by (blast intro: keeps_lots_trans)
  ultimately show ?thesis by (rule keeps_lots_trans)
qed

lemma refund_order_lots: "refund_order sha st n u d = Inr (o', d') \<Longrightarrow> keeps_lots d d'"
  by (auto simp: refund_order_def res_simps Let_def intro: keeps_lots_trans rows_lots(6) goods_lots dest!: refund_books_goods)

lemma refund_order_item_lots:
  assumes "refund_order_item sha st n x q u d = Inr (o', d')"
  shows "keeps_lots d d'"
  using assms
proof (cases rule: refund_order_item_steps)
  case (1 o0 it m bk d1 o1 p r d2 v)
  have "keeps_lots d (put_order o' (d1\<lparr>clock := clock d1 + 1\<rparr>))"
    using return_stock_lots [OF 1(5)] rows_lots(6,7) by (blast intro: keeps_lots_trans)
  then show ?thesis
    using ledger_record_goods [OF 1(8)] refund_books_goods [OF 1(9)] goods_lots by (blast intro: keeps_lots_trans)
qed

section \<open>The supply handlers keep what their writes keep\<close>

text \<open>
  The interface between the handlers and an invariant of the store: what leaves the lots
  alone keeps it, whatever it writes to the books; and so do the few writes that touch the
  lots, the bought pieces and the weights, at weights the invariant admits. The handlers'
  lemmas are proved once, for every such invariant.
\<close>

interpretation onward: journal_invariant sha "reach sha d0" for sha d0
proof
  show "reach sha d0 d'" if "post_entry sha q d = Inr (e, d')" "proper_request d q" "reach sha d0 d" for q d e d'
    using that by (blast intro: reach.step step.posting)
  show "reach sha d0 d'" if "ledger_record sha ev ac rt ri p d = Inr (r, d')" "reach sha d0 d" for ev ac rt ri p d r d'
    using that by (blast intro: reach.step step.event)
  show "reach sha d0 d'" if "same_books d d'" "reach sha d0 d" for d d'
    using that by (blast intro: reach.step step.other)
qed

lemmas same_reach = onward.inv_frame [OF _ reach.start]

definition spec_weight_ok :: "purchase_item_in \<Rightarrow> bool" where
  "spec_weight_ok b \<longleftrightarrow> (\<forall>s g. pn_product b = Some s \<longrightarrow> ps_weight_grams s = Some g \<longrightarrow> 0 < g)"

locale store_invariant =
  fixes sha :: "string \<Rightarrow> string" and P :: "db \<Rightarrow> bool" and admits :: "dec \<Rightarrow> bool"
  assumes moved: "reach sha d d' \<Longrightarrow> keeps_lots d d' \<Longrightarrow> P d \<Longrightarrow> P d'"
    and lot_in: "add_lot_now k g src rt ri c nts d = (lo, d') \<Longrightarrow> admits g \<Longrightarrow> P d \<Longrightarrow> P d'"
    and lot_out: "consume_from_lot sha i gr rt ri actor d = Inr (cn, d') \<Longrightarrow> P d \<Longrightarrow> P d'"
    and bought: "add_buyback w d = (w', d') \<Longrightarrow> (\<And>g. wb_kind w = BB_USED_PRODUCT \<Longrightarrow> wb_weight_grams w = Some g \<Longrightarrow> admits g)
      \<Longrightarrow> P d \<Longrightarrow> P d'"
    and marked: "w \<in> set (buybacks d) \<Longrightarrow> w' = w\<lparr>wb_result_lot_id := Some (uid n)\<rparr> \<or> w' = w\<lparr>wb_product_id := Some (uid n)\<rparr>
      \<Longrightarrow> P d \<Longrightarrow> P (put_buyback w' d)"
    and made: "add_product q d = Inr (q', d') \<Longrightarrow> admits (pr_weight_grams q) \<Longrightarrow> P d \<Longrightarrow> P d'"
    and product_weight: "P d \<Longrightarrow> q \<in> set (products d) \<Longrightarrow> admits (pr_weight_grams q)"
    and buyback_weight: "P d \<Longrightarrow> w \<in> set (buybacks d) \<Longrightarrow> wb_kind w = BB_USED_PRODUCT \<Longrightarrow> wb_weight_grams w = Some g \<Longrightarrow> admits g"
    and positive: "0 < g \<Longrightarrow> admits g"
begin

text \<open>The moves, as implications from the first state of a run to its last.\<close>

lemma moved_books:
  "ledger_record sha ev ac rt ri pl d = Inr (r, d') \<Longrightarrow> P d \<longrightarrow> P d'"
  "post_buyback sha b s actor d = Inr (e, d') \<Longrightarrow> P d \<longrightarrow> P d'"
  "post_melt sha m s actor d = Inr (e, d') \<Longrightarrow> P d \<longrightarrow> P d'"
  "post_supplier_purchase sha pu s actor d = Inr (e, d') \<Longrightarrow> P d \<longrightarrow> P d'"
  "post_supplier_payment sha pa s actor d = Inr (e, d') \<Longrightarrow> P d \<longrightarrow> P d'"
  by (blast intro: moved reach.step [OF reach.start] step.intros goods_lots ledger_record_goods post_buyback_goods
      post_melt_goods post_supplier_purchase_goods post_supplier_payment_goods)+

lemma moved_rows:
  "P d \<Longrightarrow> P (put_supplier s d)" "P d \<Longrightarrow> P (put_purchase p d)" "P d \<Longrightarrow> P (put_payment_row y d)"
  "P d \<Longrightarrow> P (put_take t d)" "P d \<Longrightarrow> P (put_take_line l d)" "P d \<Longrightarrow> P (d\<lparr>suppliers := ss\<rparr>)"
  "P d \<Longrightarrow> P (d\<lparr>supplier_purchase_items := its\<rparr>)" "P d \<Longrightarrow> P (d\<lparr>stock_takes := tks\<rparr>)"
  "P d \<Longrightarrow> P (d\<lparr>stock_take_lines := lns\<rparr>)" "P d \<Longrightarrow> P (set_unit_qty c i n d)"
  by (blast intro: moved same_reach rows_same_books fresh_rows_same_books fresh_same_books shelf_same_books rows_lots shelf_lots)+

lemma moved_added:
  "add_purchase p d = (p', d') \<Longrightarrow> P d \<longrightarrow> P d'" "add_payment y d = (y', d') \<Longrightarrow> P d \<longrightarrow> P d'"
  "adjust_balance sid u k x n d = Inr (z, d') \<Longrightarrow> P d \<longrightarrow> P d'" "fresh_uid d = (f, d') \<Longrightarrow> P d \<longrightarrow> P d'"
  "read_clock d = (t, d') \<Longrightarrow> P d \<longrightarrow> P d'" "get_current_gold_rate cf d = Inr (info, d') \<Longrightarrow> P d \<longrightarrow> P d'"
  "assert_rate_acceptable info ack d = Inr ((), d') \<Longrightarrow> P d \<longrightarrow> P d'"
  by (blast intro: moved same_reach added_same_books fresh_rows_same_books get_rate_same_books rate_acceptable_same_books
      added_lots)+

lemmas moves = moved_books moved_added

lemma moved_melted:
  "filter (\<lambda>x. pr_id x = i) (products d) = [p] \<Longrightarrow> P d \<Longrightarrow> P (put_product (p\<lparr>pr_status := s\<rparr>) d)"
  by (rule moved [OF same_reach put_product_lots]) (auto intro: put_same_books)

subsection \<open>Buybacks\<close>

lemma finish_buyback_moves: "finish_buyback sha s info b u w d = Inr (w', d') \<Longrightarrow> P d \<longrightarrow> P d'"
  by (auto simp: finish_buyback_def record_stale_rate_ack_def res_simps Let_def split: if_split_asm dest!: moves)

text \<open>A row bought, and the lot it became.\<close>

lemma added_row: "add_buyback w d = (w', d') \<Longrightarrow> w' \<in> set (buybacks d')"
  by (auto simp: add_buyback_def fresh_uid_def read_clock_def Let_def)

lemma lot_row: "add_lot_now k g src rt ri c nts d = (lo, d') \<Longrightarrow> buybacks d' = buybacks d \<and> (\<exists>n. lot_id lo = uid n)"
  by (auto simp: add_lot_now_def add_lot_def fresh_uid_def read_clock_def Let_def new_lot_def)

lemma new_buyback_fields [simp]: "wb_weight_grams (new_buyback b u k m ka g p r) = Some g" "wb_kind (new_buyback b u k m ka g p r) = k"
  by (simp_all add: new_buyback_def)

lemma bought_moves: "add_buyback w d = (w', d') \<Longrightarrow> (wb_kind w = BB_USED_PRODUCT \<Longrightarrow> \<exists>g. wb_weight_grams w = Some g \<and> 0 < g)
    \<Longrightarrow> P d \<longrightarrow> P d'"
  using bought positive by force

lemma lot_bought:
  assumes "add_buyback w d = (w', d1)" "add_lot_now k g src rt ri c nts d1 = (lo, d2)" "wb_kind w \<noteq> BB_USED_PRODUCT" "0 < g"
  shows "P d \<longrightarrow> P (put_buyback (w'\<lparr>wb_result_lot_id := Some (lot_id lo)\<rparr>) d2)"
proof
  assume "P d"
  then have "P d1" using bought_moves [OF assms(1)] assms(3) by simp
  then have p: "P d2" using lot_in [OF assms(2) positive [OF assms(4)]] by blast
  obtain n where n: "lot_id lo = uid n" "buybacks d2 = buybacks d1" using lot_row [OF assms(2)] by blast
  show "P (put_buyback (w'\<lparr>wb_result_lot_id := Some (lot_id lo)\<rparr>) d2)"
    using marked [OF _ disjI1 [OF refl] p, of w' n] added_row [OF assms(1)] n by simp
qed

lemma pure_gold_moves:
  assumes "create_pure_gold_buyback sha s info b u d = Inr (w, d')" "buyback_in_valid b"
  shows "P d \<longrightarrow> P d'"
proof -
  let ?g = "snd (the (bi_weight_grams b))"
  obtain k m x w0 d1 lo d2 c where a: "bi_weight_grams b \<noteq> None"
    "add_buyback (new_buyback b u BB_PURE_GOLD m k ?g x (ri_rate info)) d = (w0, d1)"
    "add_lot_now k ?g SRC_BUYBACK ''walkin_buyback'' (wb_id w0) c (''From walk-in buyback '' @ wb_id w0) d1 = (lo, d2)"
    and r: "P (put_buyback (w0\<lparr>wb_result_lot_id := Some (lot_id lo)\<rparr>) d2) \<longrightarrow> P d'"
    using assms(1) by (auto simp: create_pure_gold_buyback_def res_simps Let_def dest!: moves finish_buyback_moves)
  have "0 < ?g" using a(1) assms(2) by (auto simp: buyback_in_valid_def)
  then show ?thesis using lot_bought [OF a(2,3)] r by auto
qed

lemma unit_bought_moves:
  assumes "create_unit_buyback c sha s info b u d = Inr (w, d')"
  shows "P d \<longrightarrow> P d'"
proof -
  obtain i q w0 w1 d1 where a: "add_buyback w0 (set_unit_qty c i q d) = (w1, d1)" "wb_kind w0 \<noteq> BB_USED_PRODUCT"
    and r: "P d1 \<longrightarrow> P d'"
    using assms by (auto simp: create_unit_buyback_def res_simps Let_def dest!: moves finish_buyback_moves split: if_split_asm)
  show ?thesis using bought_moves [OF a(1)] a(2) r moved_rows(10) by blast
qed

lemma used_bought_moves:
  assumes "create_used_product_buyback sha s info b u d = Inr (w, d')" "buyback_in_valid b"
  shows "P d \<longrightarrow> P d'"
proof -
  let ?g = "snd (the (bi_weight_grams b))"
  obtain k m x w0 d1 where a: "bi_weight_grams b \<noteq> None"
    "add_buyback (new_buyback b u BB_USED_PRODUCT m k ?g x (ri_rate info)) d = (w0, d1)" and r: "P d1 \<longrightarrow> P d'"
    using assms(1) by (auto simp: create_used_product_buyback_def res_simps Let_def dest!: moves finish_buyback_moves)
  have "0 < ?g" using a(1) assms(2) by (auto simp: buyback_in_valid_def)
  then show ?thesis using bought_moves [OF a(2)] r by simp
qed

lemma create_buyback_moves:
  assumes "create_buyback sha cf st b u d = Inr (w, d')" "buyback_in_valid b"
  shows "P d \<longrightarrow> P d'"
proof -
  obtain s where st: "st = Some s" using assms(1) by (cases st) (auto simp: create_buyback_def res_simps)
  obtain kind info d1 d2 where g: "get_current_gold_rate cf d = Inr (info, d1)"
    "assert_rate_acceptable info (bi_stale_rate_ack b) d1 = Inr ((), d2)"
    and k: "(case kind of
            BB_PURE_GOLD \<Rightarrow> create_pure_gold_buyback sha s info b u d2
          | BB_COIN \<Rightarrow> create_coin_buyback sha s info b u d2
          | BB_OUNCE \<Rightarrow> create_ounce_buyback sha s info b u d2
          | BB_USED_PRODUCT \<Rightarrow> create_used_product_buyback sha s info b u d2) = Inr (w, d')"
    using assms(1) by (auto simp: create_buyback_def res_simps st)
  have "P d2 \<longrightarrow> P d'" using k pure_gold_moves [OF _ assms(2)] unit_bought_moves used_bought_moves [OF _ assms(2)]
    by (cases kind) (auto simp: create_coin_buyback_def create_ounce_buyback_def)
  then show ?thesis using moved_added(6) [OF g(1)] moved_added(7) [OF g(2)] by blast
qed

subsection \<open>Melting and polishing\<close>

lemma overridden: "(\<And>x. s = Some x \<Longrightarrow> 0 < snd x) \<Longrightarrow> admits g \<Longrightarrow> admits (snd (override_weight s g))"
  by (auto simp: override_weight_def intro: positive split: option.splits)

lemma melt_books_moves: "melt_books sha st lo k g u d = Inr (l, d') \<Longrightarrow> P d \<longrightarrow> P d'"
  by (auto simp: melt_books_def res_simps split: option.split_asm dest!: moves)

lemma melt_product_moves:
  assumes "melt_product sha st b u d = Inr (l, d')" "melt_in_valid b"
  shows "P d \<longrightarrow> P d'"
proof
  assume p: "P d"
  obtain q k c nts lo d1 where q: "filter (\<lambda>x. pr_id x = the (ml_product_id b)) (products d) = [q]"
    and a: "add_lot_now k (snd (override_weight (ml_override_weight_grams b) (pr_weight_grams q))) SRC_MELT ''product''
       (pr_id q) c nts d = (lo, d1)"
    and r: "P (put_product (q\<lparr>pr_status := MELTED\<rparr>) d1) \<longrightarrow> P d'"
    using assms(1) by (auto simp: melt_product_def res_simps Let_def dest!: moves melt_books_moves)
  have "admits (pr_weight_grams q)" using product_weight [OF p] q by (auto simp: filter_eq_Cons_iff)
  then have "P d1" using assms(2) by (intro lot_in [OF a _ p] overridden) (auto simp: melt_in_valid_def)
  moreover have "products d1 = products d"
    using a by (auto simp: add_lot_now_def add_lot_def fresh_uid_def read_clock_def Let_def)
  ultimately show "P d'" using r moved_melted q by auto
qed

text \<open>The piece found, unspent, and its row marked with what became of it.\<close>

lemma melt_used_steps:
  assumes "melt_used_buyback sha st b u d = Inr (l, d')"
  obtains w g k c nts lo d1 where "filter (\<lambda>x. wb_id x = the (ml_walkin_buyback_id b)) (buybacks d) = [w]"
    "wb_kind w = BB_USED_PRODUCT" "falsy (wb_product_id w)" "falsy (wb_result_lot_id w)" "wb_weight_grams w = Some g"
    "add_lot_now k (snd (override_weight (ml_override_weight_grams b) g)) SRC_MELT ''walkin_buyback'' (wb_id w) c nts d = (lo, d1)"
    "P (put_buyback (w\<lparr>wb_result_lot_id := Some (lot_id lo)\<rparr>) d1) \<longrightarrow> P d'"
  using assms
  by (auto simp: melt_used_buyback_def fetch_buyback_def res_simps Let_def intro: that dest!: moves melt_books_moves)

lemma melt_used_moves:
  assumes "melt_used_buyback sha st b u d = Inr (l, d')" "melt_in_valid b"
  shows "P d \<longrightarrow> P d'"
proof
  assume p: "P d"
  from assms(1) show "P d'"
  proof (cases rule: melt_used_steps)
    case (1 w g k c nts lo d1)
    have w: "w \<in> set (buybacks d)" using 1(1) by (auto simp: filter_eq_Cons_iff)
    obtain n where n: "lot_id lo = uid n" "buybacks d1 = buybacks d" using lot_row [OF 1(6)] by blast
    have "admits g" by (rule buyback_weight [OF p w 1(2,5)])
    then have "P d1" using assms(2) by (intro lot_in [OF 1(6) _ p] overridden) (auto simp: melt_in_valid_def)
    then show ?thesis using marked [OF _ disjI1 [OF refl], of w d1 n] w n 1(7) by simp
  qed
qed

lemma create_melt_moves: "create_melt sha st b u d = Inr (l, d') \<Longrightarrow> melt_in_valid b \<Longrightarrow> P d \<longrightarrow> P d'"
  by (auto simp: create_melt_def res_simps split: if_split_asm dest: melt_product_moves melt_used_moves)

lemma made_row: "add_product q d = Inr (q', d') \<Longrightarrow> buybacks d' = buybacks d \<and> (\<exists>n. pr_id q' = uid n)"
  by (auto simp: add_product_def res_simps fresh_uid_def Let_def)

lemma new_product_weight [simp]: "pr_weight_grams (new_product co ne na ca ci k g m mc ph us cs rt ri) = g"
  by (simp add: new_product_def)

lemma create_polish_steps:
  assumes "create_polish sha b u d = Inr (q, d')"
  obtains w g k c d1 where "filter (\<lambda>x. wb_id x = pi_walkin_buyback_id b) (buybacks d) = [w]"
    "wb_kind w = BB_USED_PRODUCT" "falsy (wb_product_id w)" "falsy (wb_result_lot_id w)" "wb_weight_grams w = Some g"
    "add_product (new_product c (pi_name_en b) (pi_name_ar b) (pi_category b) (pi_category_id b) k
        (snd (override_weight (pi_override_weight_grams b) g)) (pi_margin_percent b) (pi_making_charge b) (pi_photos b) True
        (wb_buy_price_usd w) ''walkin_buyback'' (wb_id w)) d = Inr (q, d1)"
    "P (put_buyback (w\<lparr>wb_product_id := Some (pr_id q)\<rparr>) d1) \<longrightarrow> P d'"
  using assms by (auto simp: create_polish_def fetch_buyback_def res_simps Let_def intro: that dest!: moves)

lemma create_polish_moves:
  assumes "create_polish sha b u d = Inr (q, d')" "polish_in_valid b"
  shows "P d \<longrightarrow> P d'"
proof
  assume p: "P d"
  from assms(1) show "P d'"
  proof (cases rule: create_polish_steps)
    case (1 w g k c d1)
    have b: "w \<in> set (buybacks d)" using 1(1) by (auto simp: filter_eq_Cons_iff)
    obtain n where n: "pr_id q = uid n" "buybacks d1 = buybacks d" using made_row [OF 1(6)] by blast
    have "admits g" by (rule buyback_weight [OF p b 1(2,5)])
    then have "admits (snd (override_weight (pi_override_weight_grams b) g))"
      using assms(2) by (intro overridden) (auto simp: polish_in_valid_def)
    then have "P d1" using made [OF 1(6) _ p] by simp
    then show "P d'" using marked [OF _ disjI2 [OF refl], of w d1 n] b n 1(7) by simp
  qed
qed

subsection \<open>Suppliers\<close>

lemma create_supplier_moves: "create_supplier sha b u d = Inr (s, d') \<Longrightarrow> P d \<longrightarrow> P d'"
  by (auto simp: create_supplier_def res_simps Let_def split: prod.split_asm dest!: moves intro: moved_rows)

lemma update_supplier_moves: "update_supplier sha i b u d = Inr (s, d') \<Longrightarrow> P d \<longrightarrow> P d'"
  by (auto simp: update_supplier_def res_simps Let_def moved_rows dest!: moves)

lemma delete_supplier_moves: "delete_supplier sha i u d = Inr (s, d') \<Longrightarrow> P d \<longrightarrow> P d'"
  by (auto simp: delete_supplier_def res_simps Let_def moved_rows dest!: moves)

lemma consume_lots_moves: "consume_lots sha u rt ri gps acc d = Inr (r, d') \<Longrightarrow> P d \<longrightarrow> P d'"
proof (induction gps arbitrary: acc d)
  case (Cons gp gps)
  obtain c d1 acc' where "consume_from_lot sha (gp_lot_id gp) (gp_grams gp) rt ri u d = Inr (c, d1)"
    "consume_lots sha u rt ri gps acc' d1 = Inr (r, d')"
    using Cons.prems(1) by (auto simp: res_simps)
  then show ?case using Cons.IH lot_out by blast
qed simp

lemma change_balance_moves: "change_balance sid u k x d = Inr (c, d') \<Longrightarrow> P d \<longrightarrow> P d'"
  by (auto simp: change_balance_def res_simps Let_def dest!: moves)

lemma record_debt_moves: "record_debt sha a sid u k x c w d = Inr d' \<Longrightarrow> P d \<longrightarrow> P d'"
  by (auto simp: record_debt_def res_simps dest!: moves)

lemma owe_moves: "owe sha a sid p y d = Inr d' \<Longrightarrow> P d \<longrightarrow> P d'"
  by (cases y) (auto simp: owe_def res_simps split: if_split_asm dest!: change_balance_moves record_debt_moves)

lemma owes_moves: "fold_res (owe sha a sid p) ys d = Inr d' \<Longrightarrow> P d \<longrightarrow> P d'"
  by (rule impI, erule fold_res_inv) (use owe_moves in blast)+

text \<open>The specification of a product bought is not checked by a schema: its weight is a premise.\<close>

lemma take_in_gold_moves:
  assumes "take_in_gold sha u p b it d = Inr (it', d')" "purchase_item_in_valid b"
  shows "P d \<longrightarrow> P d'"
proof -
  obtain g k c nts lo d1 where a: "pn_weight_grams b = Some g"
    "add_lot_now k (snd g) SRC_SUPPLIER ''supplier_purchase'' (sp_id p) c nts d = (lo, d1)" and r: "P d1 \<longrightarrow> P d'"
    using assms(1) by (auto simp: take_in_gold_def res_simps Let_def dest!: moves)
  then show ?thesis using lot_in [OF a(2)] positive [of "snd g"] assms(2) by (auto simp: purchase_item_in_valid_def)
qed

lemma take_in_product_moves:
  assumes "take_in_product p b it d = Inr (it', d')"
    "spec_weight_ok b"
  shows "P d \<longrightarrow> P d'"
proof -
  obtain s g where s: "pn_product b = Some s" "missing_keys s = []"
    using assms(1) by (auto simp: take_in_product_def res_simps split: option.split_asm)
  then obtain g where g: "ps_weight_grams s = Some g" by (auto simp: missing_keys_def split: if_split_asm)
  obtain q q' d1 where a: "add_product q d = Inr (q', d')" "pr_weight_grams q = g"
    using assms(1) s g by (auto simp: take_in_product_def res_simps)
  then show ?thesis using made [OF a(1)] positive assms(2) s(1) g unfolding spec_weight_ok_def by blast
qed

lemma take_in_units_moves: "take_in_units c b it d = Inr (it', d') \<Longrightarrow> P d \<longrightarrow> P d'"
  by (auto simp: take_in_units_def res_simps Let_def moved_rows)

lemma materialize_item_moves:
  assumes "materialize_item sha u p b d = Inr (it, d')" "purchase_item_in_valid b"
    "spec_weight_ok b"
  shows "P d \<longrightarrow> P d'"
proof -
  obtain kind it0 it1 d1 k d2 its where k: "(case kind of
            SI_PURE_GOLD \<Rightarrow> take_in_gold sha u p b it0 d
          | SI_COIN \<Rightarrow> take_in_units True b it0 d
          | SI_OUNCE \<Rightarrow> take_in_units False b it0 d
          | SI_PRODUCT \<Rightarrow> take_in_product p b it0 d) = Inr (it1, d1)" "fresh_uid d1 = (k, d2)"
      "d' = d2\<lparr>supplier_purchase_items := its\<rparr>"
    using assms(1) by (auto simp: materialize_item_def res_simps Let_def split: prod.split_asm)
  have "P d \<longrightarrow> P d1"
    using k(1) take_in_gold_moves [OF _ assms(2)] take_in_units_moves take_in_product_moves [OF _ assms(3)]
    by (cases kind) auto
  then show ?thesis using k(3) moved_added(4) [OF k(2)] moved_rows(7) by blast
qed

lemma materialize_items_moves:
  "materialize_items sha u p bs d = Inr d' \<Longrightarrow> list_all purchase_item_in_valid bs \<Longrightarrow> list_all spec_weight_ok bs \<Longrightarrow> P d \<longrightarrow> P d'"
proof (induction bs arbitrary: d)
  case (Cons b bs)
  obtain it d1 where "materialize_item sha u p b d = Inr (it, d1)" "materialize_items sha u p bs d1 = Inr d'"
    using Cons.prems(1) by (auto simp: res_simps)
  then show ?case using Cons.IH Cons.prems(2,3) materialize_item_moves by auto
qed simp

lemma create_purchase_moves:
  assumes "create_purchase sha st sid b u d = Inr (p, d')" "purchase_in_valid b" "list_all spec_weight_ok (pu_items b)"
  shows "P d \<longrightarrow> P d'"
proof -
  obtain p0 p1 p2 d1 pd d2 d3 d4 ds where a: "add_purchase p0 d = (p1, d1)"
    "consume_lots sha u ''supplier_purchase'' (sp_id p1) (pu_gold_payments_at_creation b) [] d1 = Inr (pd, d2)"
    "materialize_items sha u p2 (pu_items b) (put_purchase p2 d2) = Inr d3"
    "fold_res (owe sha u ds (sp_id p2)) (purchase_debts b pd) d3 = Inr d4" and r: "P d4 \<longrightarrow> P d'"
    using assms(1)
    by (auto simp: create_purchase_def res_simps Let_def split: option.split_asm prod.split_asm dest!: moved_books)
  have "P d3 \<longrightarrow> P d4" by (rule owes_moves [OF a(4)])
  moreover have "P (put_purchase p2 d2) \<longrightarrow> P d3"
    using materialize_items_moves [OF a(3)] assms(2,3) by (simp add: purchase_in_valid_def)
  ultimately show ?thesis using consume_lots_moves [OF a(2)] moved_added(1) [OF a(1)] moved_rows(2) r by blast
qed

lemma pay_cash_moves: "pay_cash sha s b u d = Inr (y, d') \<Longrightarrow> P d \<longrightarrow> P d'"
  by (auto simp: pay_cash_def res_simps Let_def dest!: moves change_balance_moves record_debt_moves)

lemma pay_gold_moves: "pay_gold sha s b u d = Inr (y, d') \<Longrightarrow> P d \<longrightarrow> P d'"
  by (auto simp: pay_gold_def res_simps Let_def moved_rows
      dest!: moves change_balance_moves record_debt_moves consume_lots_moves)

lemma create_payment_moves: "create_payment sha st sid b u d = Inr (y, d') \<Longrightarrow> P d \<longrightarrow> P d'"
  by (auto simp: create_payment_def res_simps split: option.split_asm if_split_asm
      dest!: moved_books pay_cash_moves pay_gold_moves)

subsection \<open>Stock-takes\<close>

lemma unit_adjusted_moves: "apply_unit_stock_adjustment_core sha t i x reason nts actor extra d = Inr (a, d') \<Longrightarrow> P d \<longrightarrow> P d'"
  by (blast intro: moved adjusted_lots onward.inv_apply_unit_stock_adjustment reach.start)

lemma maybe_close_moves: "maybe_close_take sha t u d = Inr (t', d') \<Longrightarrow> P d \<longrightarrow> P d'"
  by (auto simp: maybe_close_take_def res_simps Let_def moved_rows split: prod.split_asm if_split_asm dest!: moves)

lemma create_stock_take_moves: "create_stock_take sha nts u d = Inr (t, d') \<Longrightarrow> P d \<longrightarrow> P d'"
  by (auto simp: create_stock_take_def res_simps Let_def moved_rows split: prod.split_asm dest!: moves)

lemma drafting_moves:
  "add_line ti rt ri n d = Inr (l, d') \<Longrightarrow> P d \<longrightarrow> P d'" "edit_line ti li n d = Inr (l, d') \<Longrightarrow> P d \<longrightarrow> P d'"
  "remove_line ti li d = Inr (u, d') \<Longrightarrow> P d \<longrightarrow> P d'"
  by (auto simp: add_line_def edit_line_def remove_line_def res_simps Let_def moved_rows split: prod.split_asm dest!: moves)

lemma submit_lines_moves: "submit_lines u ls d = Inr (r, d') \<Longrightarrow> P d \<longrightarrow> P d'"
proof (induction ls arbitrary: d r)
  case (Cons l ls)
  obtain l' d1 r' where "d1 = d \<or> (\<exists>t. read_clock d = (t, d1))" "submit_lines u ls (put_take_line l' d1) = Inr (r', d')"
    using Cons.prems by (auto simp: res_simps Let_def split: prod.split_asm if_split_asm)
  then show ?case using Cons.IH moved_added(5) moved_rows(5) by blast
qed simp

lemma submit_stock_take_moves: "submit_stock_take sha ti u d = Inr (t, d') \<Longrightarrow> P d \<longrightarrow> P d'"
  by (auto simp: submit_stock_take_def res_simps Let_def moved_rows split: prod.split_asm
      dest!: moves submit_lines_moves maybe_close_moves)

lemma approve_line_moves: "approve_line sha ti li u d = Inr (l, d') \<Longrightarrow> P d \<longrightarrow> P d'"
  by (auto simp: approve_line_def res_simps Let_def moved_rows split: prod.split_asm
      dest!: moves unit_adjusted_moves maybe_close_moves)

lemma reject_line_moves: "reject_line sha ti li reason u d = Inr (l, d') \<Longrightarrow> P d \<longrightarrow> P d'"
  by (auto simp: reject_line_def res_simps Let_def moved_rows split: prod.split_asm dest!: moves maybe_close_moves)

subsection \<open>Orders\<close>

lemma order_moves:
  "create_order sha cf st b u d = Inr (o', d') \<Longrightarrow> P d \<longrightarrow> P d'" "void_order sha st n reason u d = Inr (o', d') \<Longrightarrow> P d \<longrightarrow> P d'"
  "refund_order sha st n u d = Inr (o', d') \<Longrightarrow> P d \<longrightarrow> P d'" "refund_order_item sha st n x q u d = Inr (o', d') \<Longrightarrow> P d \<longrightarrow> P d'"
  by (blast intro: moved create_order_lots void_order_lots refund_order_lots refund_order_item_lots reach.start
      onward.inv_create_order onward.inv_void_order onward.inv_refund_order onward.inv_refund_order_item)+

end

end
