(* ===== verification/Supply_Facts.thy ===== *)
theory Supply_Facts
  imports Store_Facts
begin

text \<open>
  What the shop guarantees across its handlers (\<open>shop_step\<close>): the books keep every invariant
  of the journal; lots are conserved through every way gold comes in and goes out; a used
  piece is melted or polished at most once; what the shop owes a supplier is what was bought
  on credit less what was paid.
\<close>

section \<open>The shop as a state machine\<close>

text \<open>
  One request at a time, each checked by its schema. \<open>accounting\<close> stands for every operation
  on the books that leaves the lots alone: receivables, payables, bank, closing.
\<close>

inductive shop_step :: "(string \<Rightarrow> string) \<Rightarrow> db \<Rightarrow> db \<Rightarrow> bool" for sha where
  sold: "create_order sha cf st b u d = Inr (o', d') \<Longrightarrow> shop_step sha d d'"
| voided: "void_order sha st n reason u d = Inr (o', d') \<Longrightarrow> shop_step sha d d'"
| order_refunded: "refund_order sha st n u d = Inr (o', d') \<Longrightarrow> shop_step sha d d'"
| item_refunded: "refund_order_item sha st n x q u d = Inr (o', d') \<Longrightarrow> shop_step sha d d'"
| bought_back: "create_buyback sha cf st bb u d = Inr (w, d') \<Longrightarrow> buyback_in_valid bb \<Longrightarrow> shop_step sha d d'"
| melted: "create_melt sha st m u d = Inr (l, d') \<Longrightarrow> melt_in_valid m \<Longrightarrow> shop_step sha d d'"
| polished: "create_polish sha po u d = Inr (p, d') \<Longrightarrow> polish_in_valid po \<Longrightarrow> shop_step sha d d'"
| lot_created: "create_lot sha lb u d = Inr (l, d') \<Longrightarrow> lot_in_valid lb \<Longrightarrow> shop_step sha d d'"
| adjusted: "create_adjustment sha st ab u d = Inr (a, d') \<Longrightarrow> shop_step sha d d'"
| supplier_created: "create_supplier sha sb u d = Inr (s, d') \<Longrightarrow> shop_step sha d d'"
| supplier_updated: "update_supplier sha i su u d = Inr (s, d') \<Longrightarrow> shop_step sha d d'"
| supplier_deleted: "delete_supplier sha i u d = Inr (v, d') \<Longrightarrow> shop_step sha d d'"
| purchased: "create_purchase sha st i pb u d = Inr (sp, d') \<Longrightarrow> purchase_in_valid pb
    \<Longrightarrow> list_all spec_weight_ok (pu_items pb) \<Longrightarrow> shop_step sha d d'"
| paid: "create_payment sha st i yb u d = Inr (y, d') \<Longrightarrow> payment_in_valid yb \<Longrightarrow> shop_step sha d d'"
| take_started: "create_stock_take sha nts u d = Inr (t, d') \<Longrightarrow> shop_step sha d d'"
| line_added: "add_line ti rt ri n d = Inr (sl, d') \<Longrightarrow> shop_step sha d d'"
| line_edited: "edit_line ti li n d = Inr (sl, d') \<Longrightarrow> shop_step sha d d'"
| line_removed: "remove_line ti li d = Inr (v, d') \<Longrightarrow> shop_step sha d d'"
| take_submitted: "submit_stock_take sha ti u d = Inr (t, d') \<Longrightarrow> shop_step sha d d'"
| line_approved: "approve_line sha ti li u d = Inr (sl, d') \<Longrightarrow> shop_step sha d d'"
| line_rejected: "reject_line sha ti li reason u d = Inr (sl, d') \<Longrightarrow> shop_step sha d d'"
| accounting: "step sha d d' \<Longrightarrow> keeps_lots d d' \<Longrightarrow> shop_step sha d d'"

text \<open>Lots created by hand and adjustments are the two moves on lots the interface does not name.\<close>

locale shop_invariant = store_invariant +
  assumes hand_lot: "create_lot sha lb u d = Inr (l, d') \<Longrightarrow> lot_in_valid lb \<Longrightarrow> P d \<Longrightarrow> P d'"
    and hand_adjusted: "create_adjustment sha st ab u d = Inr (a, d') \<Longrightarrow> P d \<Longrightarrow> P d'"
begin

lemma shop_step_keeps: "shop_step sha d d' \<Longrightarrow> P d \<Longrightarrow> P d'"
  by (induction rule: shop_step.induct)
    (blast dest: order_moves create_buyback_moves create_melt_moves create_polish_moves hand_lot hand_adjusted
      create_supplier_moves update_supplier_moves delete_supplier_moves create_purchase_moves create_payment_moves
      create_stock_take_moves drafting_moves submit_stock_take_moves approve_line_moves reject_line_moves
      moved [OF reach.step [OF reach.start]])+

lemma shop_keeps: "(shop_step sha)\<^sup>*\<^sup>* d d' \<Longrightarrow> P d \<Longrightarrow> P d'"
  by (induction rule: rtranclp_induct) (auto intro: shop_step_keeps)

end

section \<open>The books\<close>

sublocale journal_invariant \<subseteq> shop: shop_invariant sha Inv "\<lambda>_. True"
proof
  show "Inv d'" if "reach sha d d'" "Inv d" for d d' using inv_reach that .
  show "Inv d'" if "consume_from_lot sha i gr rt ri actor d = Inr (cn, d')" "Inv d" for i gr rt ri actor d cn d'
    using inv_consume_from_lot that .
  show "Inv d'" if "create_lot sha lb u d = Inr (l, d')" "Inv d" for lb u d l d' using inv_create_lot that .
  show "Inv d'" if "create_adjustment sha st ab u d = Inr (a, d')" "Inv d" for st ab u d a d' using inv_create_adjustment that .
  show "Inv d'" if "add_lot_now k g src rt ri c nts d = (lo, d')" "Inv d" for k g src rt ri c nts d lo d'
    using inv_frame [OF add_lot_now_same_books] that by blast
  show "Inv d'" if "add_buyback w d = (w', d')" "Inv d" for w d w' d'
    using inv_frame [OF added_same_books(1)] that by blast
  show "Inv (put_buyback w d)" if "Inv d" for w d using inv_frame [OF rows_same_books(1)] that by blast
  show "Inv d'" if "add_product q d = Inr (q', d')" "Inv d" for q d q' d'
    using inv_frame [OF added_same_books(4)] that by blast
qed simp_all

text \<open>The reachable databases of the books' state machine are such an invariant.\<close>

interpretation live: journal_invariant sha "live_db sha" for sha
  by unfold_locales (blast intro: live_db_step step.intros)+

section \<open>Lots\<close>

text \<open>What the moves on lots keep of the rest: the weights of the products, and the bought pieces.\<close>

definition keeps_pieces :: "db \<Rightarrow> db \<Rightarrow> bool" where
  "keeps_pieces d d' \<longleftrightarrow> product_weights d' = product_weights d \<and> buybacks d' = buybacks d \<and> uid_next d \<le> uid_next d'"

lemma lots_pieces: "keeps_lots d d' \<Longrightarrow> keeps_pieces d d'"
  by (simp add: keeps_lots_def keeps_pieces_def)

lemma keeps_pieces_trans: "keeps_pieces a b \<Longrightarrow> keeps_pieces b c \<Longrightarrow> keeps_pieces a c"
  by (auto simp: keeps_pieces_def)

lemma ledger_record_pieces: "ledger_record sha ev ac rt ri p d = Inr (r, d') \<Longrightarrow> keeps_pieces d d'"
  by (blast intro: lots_pieces goods_lots ledger_record_goods)

lemma add_adjustment_pieces: "add_adjustment t i delta r n ac d = (a, d') \<Longrightarrow> keeps_pieces d d'"
  by (subst conjunct1 [OF add_adjustment_frame], assumption) (simp add: keeps_pieces_def product_weights_def)

lemma put_lot_pieces: "keeps_pieces d (put_lot l d)"
  by (simp add: keeps_pieces_def product_weights_def put_lot_def)

lemma lot_in_pieces: "add_lot_now k g src rt ri c nts d = (lo, d') \<Longrightarrow> keeps_pieces d d'"
  by (auto simp: keeps_pieces_def product_weights_def add_lot_now_def read_clock_def add_lot_def fresh_uid_def Let_def)

lemma create_lot_pieces: "create_lot sha b u d = Inr (l, d') \<Longrightarrow> keeps_pieces d d'"
  by (auto simp: create_lot_def res_simps Let_def read_clock_def add_lot_def fresh_uid_def dest!: ledger_record_pieces)
    (simp_all add: keeps_pieces_def product_weights_def)

lemma lot_out_pieces:
  assumes "consume_from_lot sha i gr rt ri actor d = Inr (c, d')"
  shows "keeps_pieces d d'"
  using assms
proof (cases rule: consume_from_lot_steps)
  case (1 lot d1)
  have "keeps_pieces d d1"
    unfolding 1(8) by (rule keeps_pieces_trans [OF _ put_lot_pieces]) (simp add: keeps_pieces_def product_weights_def)
  then show ?thesis using 1(9) by (blast intro: keeps_pieces_trans ledger_record_pieces)
qed

lemma adjustment_pieces:
  "adjust_lot sha st b reason actor d = Inr (a, d') \<Longrightarrow> keeps_pieces d d'"
  "adjust_product sha b reason actor d = Inr (a, d') \<Longrightarrow> keeps_pieces d d'"
proof -
  assume "adjust_lot sha st b reason actor d = Inr (a, d')"
  then show "keeps_pieces d d'"
  proof (cases rule: adjust_lot_steps)
    case (1 lot d2 p r d3)
    have "keeps_pieces d d3"
      using put_lot_pieces add_adjustment_pieces [OF 1(3)] ledger_record_pieces [OF 1(4)] by (blast intro: keeps_pieces_trans)
    then show ?thesis
      using 1(5) by (blast intro: keeps_pieces_trans lots_pieces goods_lots post_adjustment_goods)
  qed
next
  assume run: "adjust_product sha b reason actor d = Inr (a, d')"
  obtain p s d2 pl r where p: "filter (\<lambda>x. pr_id x = an_target_id b) (products d) = [p]"
    "add_adjustment TARGET_PRODUCT (an_target_id b) (snd (an_delta b)) reason (an_notes b) actor
       (put_product (p\<lparr>pr_status := s\<rparr>) d) = (a, d2)"
    "ledger_record sha EVENT_PRODUCT_STATUS_CHANGED actor ''product'' (pr_id p) pl d2 = Inr (r, d')"
    using run by (auto simp: adjust_product_def res_simps Let_def split: if_split_asm)
  have "keeps_pieces d (put_product (p\<lparr>pr_status := s\<rparr>) d)" by (rule lots_pieces [OF put_product_lots [OF p(1)]]) simp_all
  then show "keeps_pieces d d'"
    using add_adjustment_pieces [OF p(2)] ledger_record_pieces [OF p(3)] by (blast intro: keeps_pieces_trans)
qed

lemma create_adjustment_pieces:
  assumes "create_adjustment sha st b actor d = Inr (a, d')"
  shows "keeps_pieces d d'"
proof -
  obtain t reason where "(case t of
        TARGET_PRODUCT \<Rightarrow> adjust_product sha b reason actor d
      | TARGET_LOT \<Rightarrow> adjust_lot sha st b reason actor d
      | _ \<Rightarrow> apply_unit_stock_adjustment_core sha t (an_target_id b) (snd (an_delta b)) reason (an_notes b) actor [] d)
    = Inr (a, d')"
    using assms by (auto simp: create_adjustment_def res_simps)
  then show ?thesis using adjustment_pieces lots_pieces adjusted_lots by (cases t) auto
qed

definition weights_ok :: "db \<Rightarrow> bool" where
  "weights_ok d \<longleftrightarrow> (\<forall>p \<in> set (products d). 0 < pr_weight_grams p)
     \<and> (\<forall>w \<in> set (buybacks d). wb_kind w = BB_USED_PRODUCT \<longrightarrow> (\<forall>g. wb_weight_grams w = Some g \<longrightarrow> 0 < g))"

definition store_ok :: "db \<Rightarrow> bool" where
  "store_ok d \<longleftrightarrow> lots_ok d \<and> weights_ok d"

lemma weights_cong:
  assumes "keeps_pieces d d'" "weights_ok d"
  shows "weights_ok d'"
proof -
  have "snd ` set (product_weights d') = snd ` set (product_weights d)" using assms(1) by (simp add: keeps_pieces_def)
  then have same: "pr_weight_grams ` set (products d') = pr_weight_grams ` set (products d)"
    by (simp add: product_weights_def image_image)
  have "\<forall>x \<in> pr_weight_grams ` set (products d'). 0 < x"
    unfolding same using assms(2) by (simp add: weights_ok_def)
  then show ?thesis using assms by (simp add: weights_ok_def keeps_pieces_def)
qed

lemma keeps_lots_store: "keeps_lots d d' \<Longrightarrow> store_ok d \<Longrightarrow> store_ok d'"
proof -
  assume k: "keeps_lots d d'" and ok: "store_ok d"
  have "lots_ok d'"
    by (rule lots_ok_cong [of d' d]) (use k ok in \<open>auto simp: keeps_lots_def lot_adjustments_def store_ok_def\<close>)
  then show "store_ok d'" using weights_cong [OF lots_pieces [OF k]] ok by (simp add: store_ok_def)
qed

interpretation store: shop_invariant sha store_ok "\<lambda>g. 0 < g" for sha
proof
  show "store_ok d'" if "keeps_lots d d'" "store_ok d" for d d' using keeps_lots_store that .
  show "store_ok d'" if "add_lot_now k g src rt ri c nts d = (lo, d')" "0 < g" "store_ok d" for k g src rt ri c nts d lo d'
  proof -
    have a: "add_lot (new_lot k g src (Some rt) (Some ri) c (clock d) (Some nts)) (d\<lparr>clock := clock d + 1\<rparr>) = (lo, d')"
      using that(1) by (simp add: add_lot_now_def read_clock_def)
    have "lots_ok (d\<lparr>clock := clock d + 1\<rparr>)"
      by (rule lots_ok_cong [of _ d]) (use that(3) in \<open>simp_all add: store_ok_def\<close>)
    then have "lots_ok d'" using add_lot_ok [OF a] that(2) by (simp add: new_lot_def)
    then show ?thesis using weights_cong [OF lot_in_pieces [OF that(1)]] that(3) by (simp add: store_ok_def)
  qed
  show "store_ok d'" if "consume_from_lot sha i gr rt ri actor d = Inr (cn, d')" "store_ok d" for i gr rt ri actor d cn d'
    using consume_from_lot_ok [OF that(1)] weights_cong [OF lot_out_pieces [OF that(1)]] that(2) by (simp add: store_ok_def)
  show "store_ok d'" if "add_buyback w d = (w', d')"
    "\<And>g. wb_kind w = BB_USED_PRODUCT \<Longrightarrow> wb_weight_grams w = Some g \<Longrightarrow> 0 < g" "store_ok d" for w d w' d'
  proof -
    have d': "d' = d\<lparr>uid_next := Suc (uid_next d), clock := clock d + 1, buybacks := buybacks d @ [w']\<rparr>"
      and w': "wb_kind w' = wb_kind w" "wb_weight_grams w' = wb_weight_grams w"
      using that(1) by (auto simp: add_buyback_def fresh_uid_def read_clock_def Let_def)
    have "lots_ok d'" by (rule lots_ok_cong [of d' d]) (use that(3) in \<open>simp_all add: d' store_ok_def\<close>)
    then show ?thesis using that(2,3) w' by (auto simp: store_ok_def weights_ok_def d')
  qed
  show "store_ok (put_buyback w' d)" if "w \<in> set (buybacks d)"
    "w' = w\<lparr>wb_result_lot_id := Some (uid n)\<rparr> \<or> w' = w\<lparr>wb_product_id := Some (uid n)\<rparr>" "store_ok d" for w d w' n
  proof -
    have "lots_ok (put_buyback w' d)"
      by (rule lots_ok_cong [of _ d]) (use that(3) in \<open>simp_all add: put_buyback_def store_ok_def\<close>)
    then show ?thesis using that
      by (auto simp: store_ok_def weights_ok_def put_buyback_def elim!: set_upd_rowsE split: if_splits)
  qed
  show "store_ok d'" if "add_product q d = Inr (q', d')" "0 < pr_weight_grams q" "store_ok d" for q d q' d'
  proof -
    have d': "d' = d\<lparr>uid_next := Suc (uid_next d), products := products d @ [q']\<rparr>" and q': "pr_weight_grams q' = pr_weight_grams q"
      using that(1) by (auto simp: add_product_def res_simps fresh_uid_def Let_def)
    have "lots_ok d'" by (rule lots_ok_cong [of d' d]) (use that(3) in \<open>simp_all add: d' store_ok_def\<close>)
    then show ?thesis using that(2,3) q' by (auto simp: store_ok_def weights_ok_def d')
  qed
  show "store_ok d'" if "create_lot sha lb u d = Inr (l, d')" "lot_in_valid lb" "store_ok d" for lb u d l d'
    using create_lot_ok [OF that(1,2)] weights_cong [OF create_lot_pieces [OF that(1)]] that(3) by (simp add: store_ok_def)
  show "store_ok d'" if "create_adjustment sha st ab u d = Inr (a, d')" "store_ok d" for st ab u d a d'
    using create_adjustment_ok [OF that(1)] weights_cong [OF create_adjustment_pieces [OF that(1)]] that(2) by (simp add: store_ok_def)
qed (auto simp: store_ok_def weights_ok_def)

section \<open>A used piece is spent once\<close>

definition buyback_ids :: "db \<Rightarrow> bool" where
  "buyback_ids d \<longleftrightarrow> distinct (map wb_id (buybacks d)) \<and> (\<forall>w \<in> set (buybacks d). \<exists>k < uid_next d. wb_id w = uid k)"

text \<open>The piece has become a lot or a product.\<close>

definition spent :: "string \<Rightarrow> db \<Rightarrow> bool" where
  "spent i d \<longleftrightarrow> buyback_ids d \<and> (\<exists>w \<in> set (buybacks d). wb_id w = i \<and> (\<not> falsy (wb_product_id w) \<or> \<not> falsy (wb_result_lot_id w)))"

lemma buyback_ids_cong:
  assumes "map wb_id (buybacks d') = map wb_id (buybacks d)" "uid_next d \<le> uid_next d'" "buyback_ids d"
  shows "buyback_ids d'"
proof -
  have ids: "wb_id ` set (buybacks d') = wb_id ` set (buybacks d)" using assms(1) by (metis set_map)
  have "\<forall>x \<in> wb_id ` set (buybacks d'). \<exists>k < uid_next d'. x = uid k"
    unfolding ids using assms(2,3) by (fastforce simp: buyback_ids_def)
  then show ?thesis using assms(1,3) by (simp add: buyback_ids_def)
qed

lemma spent_cong: "buybacks d' = buybacks d \<Longrightarrow> uid_next d \<le> uid_next d' \<Longrightarrow> spent i d \<Longrightarrow> spent i d'"
  using buyback_ids_cong [of d' d] by (simp add: spent_def)

lemma uid_not_falsy [simp]: "\<not> falsy (Some (uid n))"
  by (simp add: falsy_def uid_def)

lemma marked_ids: "wb_id w' = wb_id w \<Longrightarrow> w \<in> set (buybacks d) \<Longrightarrow> buyback_ids d \<Longrightarrow> buyback_ids (put_buyback w' d)"
  by (rule buyback_ids_cong [of _ d]) (auto simp: put_buyback_def intro!: map_upd_rows)

text \<open>A row that is marked is spent, and stays so.\<close>

lemma marked_spent:
  assumes "w \<in> set (buybacks d)" "w' = w\<lparr>wb_result_lot_id := Some (uid n)\<rparr> \<or> w' = w\<lparr>wb_product_id := Some (uid n)\<rparr>"
    "buyback_ids d" "wb_id w = i \<or> spent i d"
  shows "spent i (put_buyback w' d)"
proof -
  have id: "wb_id w' = wb_id w" and used: "\<not> falsy (wb_product_id w') \<or> \<not> falsy (wb_result_lot_id w')"
    using assms(2) by auto
  have rows: "buybacks (put_buyback w' d) = upd_rows (\<lambda>x. wb_id x = wb_id w') (\<lambda>_. w') (buybacks d)"
    by (simp add: put_buyback_def)
  have "w' \<in> set (buybacks (put_buyback w' d))" using assms(1) id by (force simp: rows upd_rows_def)
  moreover have "x \<in> set (buybacks (put_buyback w' d))" if "x \<in> set (buybacks d)" "wb_id x \<noteq> wb_id w'" for x
    using that by (force simp: rows upd_rows_def)
  ultimately have "\<exists>x \<in> set (buybacks (put_buyback w' d)). wb_id x = i \<and> (\<not> falsy (wb_product_id x) \<or> \<not> falsy (wb_result_lot_id x))"
    using assms(4) id used unfolding spent_def by metis
  then show ?thesis using marked_ids [OF id assms(1,3)] by (simp add: spent_def)
qed

text \<open>Before the piece is spent, and after: both are kept by every handler.\<close>

lemma spent_pieces: "keeps_pieces d d' \<Longrightarrow> spent i d \<Longrightarrow> spent i d'"
  using spent_cong by (simp add: keeps_pieces_def)

lemma ids_pieces: "keeps_pieces d d' \<Longrightarrow> buyback_ids d \<Longrightarrow> buyback_ids d'"
  using buyback_ids_cong [of d' d] by (simp add: keeps_pieces_def)

lemma bought_ids:
  assumes "add_buyback w d = (w', d')" "buyback_ids d"
  shows "buyback_ids d'" "spent i d \<Longrightarrow> spent i d'"
proof -
  have d': "d' = d\<lparr>uid_next := Suc (uid_next d), clock := clock d + 1, buybacks := buybacks d @ [w']\<rparr>"
    and w': "wb_id w' = uid (uid_next d)"
    using assms(1) by (auto simp: add_buyback_def fresh_uid_def read_clock_def Let_def)
  have "uid (uid_next d) \<notin> wb_id ` set (buybacks d)" using assms(2) by (fastforce simp: buyback_ids_def)
  moreover have "\<exists>k < uid_next d'. wb_id x = uid k" if "x \<in> set (buybacks d)" for x
    using assms(2) that by (fastforce simp: buyback_ids_def d')
  ultimately show ids: "buyback_ids d'" using assms(2) w' by (auto simp: buyback_ids_def d')
  show "spent i d \<Longrightarrow> spent i d'" using ids by (auto simp: spent_def d')
qed

lemma made_ids:
  assumes "add_product q d = Inr (q', d')"
  shows "buybacks d' = buybacks d" "uid_next d \<le> uid_next d'"
  using assms by (auto simp: add_product_def res_simps fresh_uid_def Let_def)

interpretation ids: shop_invariant sha buyback_ids "\<lambda>_. True" for sha
proof
  show "buyback_ids d'" if "add_product q d = Inr (q', d')" "buyback_ids d" for q d q' d'
    using buyback_ids_cong [of d' d] made_ids [OF that(1)] that(2) by simp
  show "buyback_ids (put_buyback w' d)" if "w \<in> set (buybacks d)"
    "w' = w\<lparr>wb_result_lot_id := Some (uid n)\<rparr> \<or> w' = w\<lparr>wb_product_id := Some (uid n)\<rparr>" "buyback_ids d" for w d w' n
    using marked_ids [OF _ that(1,3)] that(2) by auto
qed (auto intro: ids_pieces lots_pieces lot_in_pieces lot_out_pieces create_lot_pieces create_adjustment_pieces bought_ids(1))

interpretation spent: shop_invariant sha "spent i" "\<lambda>_. True" for sha i
proof
  show "spent i d'" if "add_product q d = Inr (q', d')" "spent i d" for q d q' d'
    using spent_cong [OF made_ids [OF that(1)] that(2)] .
  show "spent i (put_buyback w' d)" if "w \<in> set (buybacks d)"
    "w' = w\<lparr>wb_result_lot_id := Some (uid n)\<rparr> \<or> w' = w\<lparr>wb_product_id := Some (uid n)\<rparr>" "spent i d" for w d w' n
    using marked_spent [OF that(1,2) _ disjI2 [OF that(3)]] that(3) by (simp add: spent_def)
  show "spent i d'" if "add_buyback w d = (w', d')" "spent i d" for w d w' d'
    using bought_ids [OF that(1)] that(2) by (simp add: spent_def)
qed (auto intro: spent_pieces lots_pieces lot_in_pieces lot_out_pieces create_lot_pieces create_adjustment_pieces)

text \<open>Melting and polishing spend the piece, and refuse a spent one.\<close>

lemma spent_row:
  assumes "spent i d"
  obtains w where "filter (\<lambda>x. wb_id x = i) (buybacks d) = [w]" "\<not> falsy (wb_product_id w) \<or> \<not> falsy (wb_result_lot_id w)"
proof -
  obtain w where w: "w \<in> set (buybacks d)" "wb_id w = i" "\<not> falsy (wb_product_id w) \<or> \<not> falsy (wb_result_lot_id w)"
    using assms by (auto simp: spent_def)
  have "distinct (map wb_id (buybacks d))" using assms by (simp add: spent_def buyback_ids_def)
  then have "filter (\<lambda>x. wb_id x = i) (buybacks d) = [w]" using filter_by_id [of wb_id "buybacks d" w] w(1,2) by simp
  then show ?thesis using that w(3) by blast
qed

lemma spent_refused:
  assumes "spent i d"
  shows "ml_walkin_buyback_id b = Some i \<Longrightarrow> \<exists>e. create_melt sha st b u d = Inl e"
    and "pi_walkin_buyback_id c = i \<Longrightarrow> \<exists>e. create_polish sha c u d = Inl e"
proof -
  obtain w where w: "filter (\<lambda>x. wb_id x = i) (buybacks d) = [w]"
    "\<not> falsy (wb_product_id w) \<or> \<not> falsy (wb_result_lot_id w)"
    using spent_row [OF assms] by blast
  obtain k where "i = uid k" using assms by (auto simp: spent_def buyback_ids_def)
  then have i: "\<not> falsy (Some i)" by simp
  have f: "fetch_buyback i d = Inr w" by (simp add: fetch_buyback_def fetch_eq_Inr w(1))
  show "\<exists>e. create_melt sha st b u d = Inl e" if b: "ml_walkin_buyback_id b = Some i"
  proof (cases "falsy (ml_product_id b)")
    case True
    then show ?thesis using w(2) i f by (auto simp: create_melt_def melt_used_buyback_def b raise_if_def)
  next
    case False
    then show ?thesis using i by (simp add: create_melt_def b raise_if_def)
  qed
  show "\<exists>e. create_polish sha c u d = Inl e" if "pi_walkin_buyback_id c = i"
    using w(2) f by (auto simp: create_polish_def that raise_if_def)
qed

lemma melt_spends:
  assumes "create_melt sha st b u d = Inr (l, d')" "ml_walkin_buyback_id b = Some i" "i \<noteq> []" "buyback_ids d"
  shows "spent i d'"
proof -
  have "\<not> falsy (ml_walkin_buyback_id b)" using assms(2,3) by (simp add: falsy_def)
  then have "melt_used_buyback sha st b u d = Inr (l, d')"
    using assms(1) by (auto simp: create_melt_def res_simps split: if_split_asm)
  then show ?thesis
  proof (cases rule: spent.melt_used_steps [where i = i])
    case (1 w g k c nts lo d1)
    have w: "w \<in> set (buybacks d)" "wb_id w = i" using 1(1) assms(2) by (auto simp: filter_eq_Cons_iff)
    obtain n where n: "lot_id lo = uid n" "buybacks d1 = buybacks d" using store.lot_row [OF 1(6)] by blast
    have "buyback_ids d1" by (rule ids_pieces [OF lot_in_pieces [OF 1(6)] assms(4)])
    then show ?thesis using marked_spent [OF _ disjI1 [OF refl], where n = n] w n 1(7) by simp
  qed
qed

lemma polish_spends:
  assumes "create_polish sha b u d = Inr (q, d')" "pi_walkin_buyback_id b = i" "buyback_ids d"
  shows "spent i d'"
  using assms(1)
proof (cases rule: spent.create_polish_steps [where i = i])
  case (1 w g k c d1)
  have w: "w \<in> set (buybacks d)" "wb_id w = i" using 1(1) assms(2) by (auto simp: filter_eq_Cons_iff)
  obtain n where n: "pr_id q = uid n" "buybacks d1 = buybacks d" using store.made_row [OF 1(6)] by blast
  have "buyback_ids d1" using buyback_ids_cong [of d1 d] made_ids [OF 1(6)] assms(3) by simp
  then show ?thesis using marked_spent [OF _ disjI2 [OF refl], where n = n] w n 1(7) by simp
qed

end
