(* ===== verification/Debts.thy ===== *)
theory Debts
  imports Store_Facts Receivables_Reports
begin

text \<open>
  What the shop owes its suppliers. A balance is kept per supplier, unit and karat; here it
  is shown to be what the purchases left unpaid, less what was repaid since, and never
  negative. The store-wide view adds the balances up.
\<close>

section \<open>Balances\<close>

definition supplier_debt :: "string \<Rightarrow> debt_unit \<Rightarrow> string \<Rightarrow> db \<Rightarrow> dec" where
  "supplier_debt sid u k d = sum_of sb_balance (filter (balance_key sid u k) (supplier_balances d))"

text \<open>At most one row a key, none below zero.\<close>

definition balances_ok :: "db \<Rightarrow> bool" where
  "balances_ok d \<longleftrightarrow> (\<forall>r \<in> set (supplier_balances d). 0 \<le> sb_balance r)
     \<and> distinct (map (\<lambda>r. (sb_supplier_id r, sb_unit r, sb_karat r)) (supplier_balances d))"

lemma balance_key_eq: "balance_key sid u k r \<longleftrightarrow> (sb_supplier_id r, sb_unit r, sb_karat r) = (sid, u, k)"
  by (simp add: balance_key_def)

lemma adjust_balance_frame:
  assumes "adjust_balance sid u k x False d = Inr (z, d')"
  shows "d' = d\<lparr>supplier_balances := supplier_balances d'\<rparr>"
  using assms by (auto simp: adjust_balance_def res_simps Let_def split: option.split_asm)

lemma adjust_balance_row:
  assumes "adjust_balance sid u k x False d = Inr (z, d')" "balances_ok d"
  shows "balances_ok d'" "supplier_debt s v j d' = supplier_debt s v j d + (if (s, v, j) = (sid, u, k) then x else 0)"
proof -
  let ?key = "\<lambda>r. (sb_supplier_id r, sb_unit r, sb_karat r)" and ?f = "\<lambda>a r. r\<lparr>sb_balance := a\<rparr>"
  obtain rows r where rows: "distinct (map ?key rows)" "\<forall>r \<in> set rows. 0 \<le> sb_balance r"
      "\<And>s v j. sum_of sb_balance (filter (balance_key s v j) rows) = supplier_debt s v j d"
      "filter (balance_key sid u k) rows = [r]" "0 \<le> sb_balance r + x"
      "supplier_balances d' = upd_rows (balance_key sid u k) (?f (sb_balance r + x)) rows"
  proof (cases "filter (balance_key sid u k) (supplier_balances d)")
    case Nil
    let ?r = "\<lparr>sb_supplier_id = sid, sb_unit = u, sb_karat = k, sb_balance = 0\<rparr>"
    have "scalar_one_or_none (balance_key sid u k) (supplier_balances d) = Inr None" using Nil by (simp add: scalar_one_or_none_def)
    then have a: "0 \<le> x" "supplier_balances d' = upd_rows (balance_key sid u k) (?f x) (supplier_balances d @ [?r])"
      using assms(1) by (auto simp: adjust_balance_def res_simps Let_def)
    have "?key ?r \<notin> ?key ` set (supplier_balances d)"
      using Nil by (auto simp: filter_empty_conv balance_key_def)
    then show ?thesis
      using assms(2) Nil a
      by (intro that [of "supplier_balances d @ [?r]" ?r])
        (auto simp: balances_ok_def supplier_debt_def balance_key_def)
  next
    case (Cons r rs)
    then have row: "scalar_one_or_none (balance_key sid u k) (supplier_balances d) = Inr (Some r) \<and> rs = []"
      using assms(1) by (cases rs) (auto simp: adjust_balance_def scalar_one_or_none_def)
    then have a: "0 \<le> sb_balance r + x"
      "supplier_balances d' = upd_rows (balance_key sid u k) (?f (sb_balance r + x)) (supplier_balances d)"
      using assms(1) by (auto simp: adjust_balance_def res_simps Let_def)
    then show ?thesis
      using assms(2) Cons row
      by (intro that [of "supplier_balances d" r]) (auto simp: balances_ok_def supplier_debt_def)
  qed
  have bk: "balance_key s v j = (\<lambda>r. ?key r = (s, v, j))" for s v j by (rule ext) (simp add: balance_key_eq)
  have keys: "map ?key (supplier_balances d') = map ?key rows"
    unfolding rows(6) by (rule map_upd_rows) simp
  have "\<forall>y \<in> set (supplier_balances d'). 0 \<le> sb_balance y"
    using rows(2,5) unfolding rows(6) by (auto elim!: set_upd_rowsE split: if_splits)
  then show "balances_ok d'" using rows(1) keys by (simp add: balances_ok_def)
  have "filter (balance_key s v j) (supplier_balances d')
      = (if (s, v, j) = (sid, u, k) then [?f (sb_balance r + x) r] else filter (balance_key s v j) rows)"
    unfolding rows(6) bk by (rule filter_upd_key [OF rows(4) [unfolded bk]]) simp
  then show "supplier_debt s v j d' = supplier_debt s v j d + (if (s, v, j) = (sid, u, k) then x else 0)"
    using rows(3) [of s v j] rows(4) by (auto simp: supplier_debt_def)
qed

section \<open>What leaves the debts alone\<close>

definition keeps_debts :: "db \<Rightarrow> db \<Rightarrow> bool" where
  "keeps_debts d d' \<longleftrightarrow> supplier_balances d' = supplier_balances d \<and> supplier_purchases d' = supplier_purchases d
     \<and> supplier_payments d' = supplier_payments d \<and> uid_next d \<le> uid_next d'"

lemma keeps_debts_refl [simp]: "keeps_debts d d"
  by (simp add: keeps_debts_def)

lemma keeps_debts_trans: "keeps_debts a b \<Longrightarrow> keeps_debts b c \<Longrightarrow> keeps_debts a c"
  by (auto simp: keeps_debts_def)

lemma goods_debts: "keeps_goods d d' \<Longrightarrow> keeps_debts d d'"
  by (simp add: keeps_goods_def goods_def keeps_debts_def)

lemma record_debts: "ledger_record sha ev ac rt ri p d = Inr (r, d') \<Longrightarrow> keeps_debts d d'"
  by (rule goods_debts [OF ledger_record_goods])

lemma rows_debts:
  "keeps_debts d (put_product p d)" "keeps_debts d (set_unit_qty c i n d)" "keeps_debts d (put_lot l d)"
  "keeps_debts d (d\<lparr>uid_next := Suc (uid_next d)\<rparr>)" "keeps_debts d (d\<lparr>supplier_purchase_items := its\<rparr>)"
  by (simp_all add: keeps_debts_def put_product_def set_unit_qty_def put_lot_def)

lemma added_debts:
  "add_lot_now k g src rt ri c nts d = (lo, d') \<Longrightarrow> keeps_debts d d'" "add_product q d = Inr (q', d') \<Longrightarrow> keeps_debts d d'"
  by (auto simp: keeps_debts_def add_lot_now_def add_lot_def add_product_def res_simps fresh_uid_def read_clock_def Let_def)

lemma consume_from_lot_debts:
  assumes "consume_from_lot sha i gr rt ri actor d = Inr (c, d')"
  shows "keeps_debts d d'"
  using assms
proof (cases rule: consume_from_lot_steps)
  case (1 lot d1)
  have "keeps_debts d d1" unfolding 1(8) by (simp add: keeps_debts_def put_lot_def)
  then show ?thesis using 1(9) by (blast intro: keeps_debts_trans record_debts)
qed

lemma consume_lots_debts: "consume_lots sha u rt ri gps acc d = Inr (r, d') \<Longrightarrow> keeps_debts d d'"
  by (induction gps arbitrary: acc d) (auto simp: res_simps intro: keeps_debts_trans dest!: consume_from_lot_debts)

lemma taken_in_debts:
  "take_in_gold sha u p b it d = Inr (it', d') \<Longrightarrow> keeps_debts d d'"
  "take_in_units c b it d = Inr (it', d') \<Longrightarrow> keeps_debts d d'"
  "take_in_product p b it d = Inr (it', d') \<Longrightarrow> keeps_debts d d'"
  by (auto simp: take_in_gold_def take_in_units_def take_in_product_def res_simps Let_def rows_debts
      split: option.split_asm dest!: record_debts added_debts intro: keeps_debts_trans)

lemma materialize_item_debts:
  assumes "materialize_item sha u p b d = Inr (it, d')"
  shows "keeps_debts d d'"
proof -
  obtain kind it0 it1 d1 k d2 its where k: "(case kind of
            SI_PURE_GOLD \<Rightarrow> take_in_gold sha u p b it0 d
          | SI_COIN \<Rightarrow> take_in_units True b it0 d
          | SI_OUNCE \<Rightarrow> take_in_units False b it0 d
          | SI_PRODUCT \<Rightarrow> take_in_product p b it0 d) = Inr (it1, d1)" "fresh_uid d1 = (k, d2)"
      "d' = d2\<lparr>supplier_purchase_items := its\<rparr>"
    using assms(1) by (auto simp: materialize_item_def res_simps Let_def split: prod.split_asm)
  have "keeps_debts d d1" using k(1) taken_in_debts by (cases kind) auto
  moreover have "keeps_debts d1 d'" using k(2,3) by (auto simp: keeps_debts_def fresh_uid_def)
  ultimately show ?thesis by (rule keeps_debts_trans)
qed

lemma materialize_items_debts: "materialize_items sha u p bs d = Inr d' \<Longrightarrow> keeps_debts d d'"
  by (induction bs arbitrary: d) (auto simp: res_simps intro: keeps_debts_trans dest!: materialize_item_debts)

section \<open>Charges and repayments\<close>

text \<open>What a purchase leaves unpaid of a unit, and what the shop owes for good: charges less payments.\<close>

definition unpaid :: "debt_unit \<Rightarrow> string \<Rightarrow> supplier_purchase \<Rightarrow> dec" where
  "unpaid u k p = (case u of
      DEBT_CASH \<Rightarrow> if k = [] then max 0 (sp_total_cash_due p - sp_cash_paid_at_creation p) else 0
    | DEBT_GOLD \<Rightarrow> sum_of (\<lambda>x. max 0 (snd x - or_zero (map_of (sp_grams_paid_at_creation_by_karat p) k)))
        (filter (\<lambda>x. fst x = k) (sp_total_grams_due_by_karat p)))"

definition owed_karat :: "karat option \<Rightarrow> string" where
  "owed_karat k = (case k of None \<Rightarrow> [] | Some x \<Rightarrow> karat_value x)"

definition charged :: "string \<Rightarrow> debt_unit \<Rightarrow> string \<Rightarrow> db \<Rightarrow> dec" where
  "charged sid u k d = sum_of (unpaid u k) (filter (\<lambda>p. sp_supplier_id p = sid) (supplier_purchases d))"

definition repaid :: "string \<Rightarrow> debt_unit \<Rightarrow> string \<Rightarrow> db \<Rightarrow> dec" where
  "repaid sid u k d = sum_of pay_amount
     (filter (\<lambda>y. pay_supplier_id y = sid \<and> pay_unit y = u \<and> owed_karat (pay_karat y) = k) (supplier_payments d))"

definition debts_ok :: "db \<Rightarrow> bool" where
  "debts_ok d \<longleftrightarrow> balances_ok d \<and> (\<forall>sid u k. supplier_debt sid u k d = charged sid u k d - repaid sid u k d)
     \<and> (\<forall>p \<in> set (supplier_purchases d). \<exists>n < uid_next d. sp_id p = uid n)
     \<and> (\<forall>y \<in> set (supplier_payments d). \<exists>n < uid_next d. pay_id y = uid n)"

lemma debts_ok_empty: "debts_ok (empty_db t)"
  by (simp add: debts_ok_def balances_ok_def empty_db_def supplier_debt_def charged_def repaid_def)

lemma debts_ok_cong:
  assumes "keeps_debts d d'" "debts_ok d"
  shows "debts_ok d'"
proof -
  have t: "supplier_balances d' = supplier_balances d" "supplier_purchases d' = supplier_purchases d"
    "supplier_payments d' = supplier_payments d" "uid_next d \<le> uid_next d'"
    using assms(1) by (simp_all add: keeps_debts_def)
  have "\<exists>n < uid_next d'. i = uid n" if "\<exists>n < uid_next d. i = uid n" for i using that t(4) less_le_trans by blast
  then show ?thesis using assms(2) unfolding debts_ok_def balances_ok_def supplier_debt_def charged_def repaid_def t(1-3) by blast
qed

text \<open>One debt booked, and all those of a purchase.\<close>

definition debt_of :: "debt_unit \<Rightarrow> string \<Rightarrow> debt_unit \<times> string \<times> sdec \<Rightarrow> dec" where
  "debt_of u k y = (case y of (v, j, x) \<Rightarrow> if v = u \<and> j = k then max 0 (snd x) else 0)"

lemma owe_debt:
  assumes "owe sha a sid p y d = Inr d'" "balances_ok d"
  shows "balances_ok d' \<and> (\<forall>s u k. supplier_debt s u k d' = supplier_debt s u k d + (if s = sid then debt_of u k y else 0))
    \<and> supplier_purchases d' = supplier_purchases d \<and> supplier_payments d' = supplier_payments d \<and> uid_next d \<le> uid_next d'"
proof -
  obtain v j x where y: "y = (v, j, x)" by (cases y)
  show ?thesis
  proof (cases "0 < snd x")
    case False
    then have "d' = d" using assms(1) by (simp add: owe_def y)
    then show ?thesis using False assms(2) by (auto simp: debt_of_def y)
  next
    case True
    then obtain z d1 pl r where b: "adjust_balance sid v j (snd x) False d = Inr (z, d1)"
      and r: "ledger_record sha EVENT_SUPPLIER_BALANCE_CHANGED a ''supplier_balance'' (sid @ '':'' @ debt_unit_value v @ '':'' @ j) pl d1 = Inr (r, d')"
      using assms(1) by (auto simp: owe_def y change_balance_def record_debt_def res_simps Let_def)
    have k: "keeps_debts d1 d'" by (rule record_debts [OF r])
    then have "supplier_debt s u k d' = supplier_debt s u k d1" "balances_ok d' = balances_ok d1" for s u k
      by (simp_all add: keeps_debts_def supplier_debt_def balances_ok_def)
    moreover have "supplier_purchases d1 = supplier_purchases d" "supplier_payments d1 = supplier_payments d"
      "uid_next d1 = uid_next d"
      by (subst adjust_balance_frame [OF b], simp)+
    ultimately show ?thesis
      using adjust_balance_row [OF b assms(2)] k True by (auto simp: debt_of_def y keeps_debts_def)
  qed
qed

lemma owe_debts:
  assumes "fold_res (owe sha a sid p) ys d = Inr d'" "balances_ok d"
  shows "balances_ok d' \<and> (\<forall>s u k. supplier_debt s u k d' = supplier_debt s u k d + (if s = sid then sum_of (debt_of u k) ys else 0))
    \<and> supplier_purchases d' = supplier_purchases d \<and> supplier_payments d' = supplier_payments d \<and> uid_next d \<le> uid_next d'"
  using assms
proof (induction ys arbitrary: d)
  case (Cons y ys)
  obtain d1 where o1: "owe sha a sid p y d = Inr d1" "fold_res (owe sha a sid p) ys d1 = Inr d'"
    using Cons.prems(1) by (auto simp: res_simps)
  note a = owe_debt [OF o1(1) Cons.prems(2)]
  then show ?case using Cons.IH [OF o1(2)] by auto
qed simp

text \<open>The debts of a purchase are what its row says it leaves unpaid.\<close>

lemma map_of_dec_dict: "map_of (dec_dict m) k = map_option snd (map_of m k)"
  by (induction m) (auto simp: dec_dict_def)

lemma purchase_debts_unpaid:
  assumes "sp_total_cash_due p = snd (pu_total_cash_due b)" "sp_cash_paid_at_creation p = snd (pu_cash_paid_at_creation b)"
    "sp_total_grams_due_by_karat p = dec_dict (pu_total_grams_due_by_karat b)"
    "sp_grams_paid_at_creation_by_karat p = dec_dict paid"
  shows "sum_of (debt_of u k) (purchase_debts b paid) = unpaid u k p"
proof -
  have z: "or_zero (map_of (dec_dict paid) j) = snd (sd_get0 paid j)" for j
    by (simp add: map_of_dec_dict sd_get0_def or_zero_def split: option.splits)
  have "sum_of (debt_of u k) (map (\<lambda>(j, x). (DEBT_GOLD, j, (max (fst x) (fst (sd_get0 paid j)), snd x - snd (sd_get0 paid j)))) xs)
      = (if u = DEBT_GOLD then sum_of (\<lambda>x. max 0 (snd x - snd (sd_get0 paid k))) (filter (\<lambda>x. fst x = k) (dec_dict xs)) else 0)" for xs
    by (induction xs) (auto simp: debt_of_def dec_dict_def)
  then show ?thesis
    by (cases u) (auto simp: purchase_debts_def unpaid_def assms z debt_of_def)
qed

section \<open>The handlers\<close>

lemma create_purchase_steps:
  assumes "create_purchase sha st sid b u d = Inr (p, d')"
  obtains supr m p1 d1 paid d2 d3 d4 where "sup_id supr = sid" "add_purchase (new_purchase b supr m u) d = (p1, d1)"
    "consume_lots sha u ''supplier_purchase'' (sp_id p1) (pu_gold_payments_at_creation b) [] d1 = Inr (paid, d2)"
    "p = p1\<lparr>sp_grams_paid_at_creation_by_karat := dec_dict paid\<rparr>"
    "materialize_items sha u p (pu_items b) (put_purchase p d2) = Inr d3"
    "fold_res (owe sha u sid (sp_id p)) (purchase_debts b paid) d3 = Inr d4" "keeps_debts d4 d'"
proof -
  obtain supr m p1 d1 paid d2 d3 d4 pl r d5 where
    s: "scalar_one_or_none (\<lambda>s. sup_id s = sid) (suppliers d) = Inr (Some supr)" "add_purchase (new_purchase b supr m u) d = (p1, d1)"
    "consume_lots sha u ''supplier_purchase'' (sp_id p1) (pu_gold_payments_at_creation b) [] d1 = Inr (paid, d2)"
    "p = p1\<lparr>sp_grams_paid_at_creation_by_karat := dec_dict paid\<rparr>"
    "materialize_items sha u p (pu_items b) (put_purchase p d2) = Inr d3"
    "fold_res (owe sha u (sup_id supr) (sp_id p)) (purchase_debts b paid) d3 = Inr d4"
    and r: "ledger_record sha EVENT_SUPPLIER_PURCHASE u ''supplier_purchase'' (sp_id p) pl d4 = Inr (r, d5)"
    and e: "d' = d5 \<or> (\<exists>y e. post_supplier_purchase sha p y u d5 = Inr (e, d'))"
    using assms by (auto simp: create_purchase_def res_simps Let_def split: option.split_asm prod.split_asm) blast
  have "sup_id supr = sid" using scalar_one_or_none_SomeD [OF s(1)] by simp
  moreover have "keeps_debts d4 d'"
    using record_debts [OF r] e by (blast intro: keeps_debts_trans goods_debts post_supplier_purchase_goods)
  ultimately show ?thesis using that s by blast
qed

lemma upd_rows_last:
  assumes "\<And>x. x \<in> set xs \<Longrightarrow> key x \<noteq> key z" "key z' = key z"
  shows "upd_rows (\<lambda>x. key x = key z') (\<lambda>_. z') (xs @ [z]) = xs @ [z']"
  using assms upd_rows_none [of xs "\<lambda>x. key x = key z'"] by (simp add: upd_rows_def)

lemma create_purchase_debts:
  assumes "create_purchase sha st sid b u d = Inr (p, d')" "debts_ok d"
  shows "debts_ok d'"
  using assms(1)
proof (cases rule: create_purchase_steps)
  case (1 supr m p1 d1 paid d2 d3 d4)
  have p1: "sp_id p1 = uid (uid_next d)" "sp_supplier_id p1 = sid" "sp_total_cash_due p1 = snd (pu_total_cash_due b)"
    "sp_cash_paid_at_creation p1 = snd (pu_cash_paid_at_creation b)"
    "sp_total_grams_due_by_karat p1 = dec_dict (pu_total_grams_due_by_karat b)"
    and d1: "d1 = d\<lparr>uid_next := Suc (uid_next d), clock := clock d + 1, supplier_purchases := supplier_purchases d @ [p1]\<rparr>"
    using 1(1,2) by (auto simp: add_purchase_def new_purchase_def fresh_uid_def read_clock_def Let_def)
  note k2 = consume_lots_debts [OF 1(3)] and k3 = materialize_items_debts [OF 1(5)]
  have fresh: "sp_id x \<noteq> sp_id p1" if "x \<in> set (supplier_purchases d)" for x
    using assms(2) that by (force simp: debts_ok_def p1(1))
  have "supplier_purchases (put_purchase p d2) = supplier_purchases d @ [p]"
    using k2 upd_rows_last [of "supplier_purchases d" sp_id p1 p] fresh 1(4) by (simp add: put_purchase_def keeps_debts_def d1)
  then have t3: "supplier_purchases d3 = supplier_purchases d @ [p]" "supplier_payments d3 = supplier_payments d"
    "supplier_balances d3 = supplier_balances d" "Suc (uid_next d) \<le> uid_next d3"
    using k2 k3 by (simp_all add: keeps_debts_def put_purchase_def d1)
  have b3: "balances_ok d3" "supplier_debt s v k d3 = supplier_debt s v k d" for s v k
    using assms(2) t3(3) by (simp_all add: debts_ok_def balances_ok_def supplier_debt_def)
  note o4 = owe_debts [OF 1(6) b3(1)]
  have un: "sum_of (debt_of v k) (purchase_debts b paid) = unpaid v k p" for v k
    by (rule purchase_debts_unpaid) (simp_all add: 1(4) p1)
  have id: "sp_id p = uid (uid_next d)" "sp_supplier_id p = sid" using p1 1(4) by simp_all
  have "supplier_debt s v k d4 = charged s v k d4 - repaid s v k d4" for s v k
  proof -
    have "charged s v k d4 = charged s v k d + (if s = sid then unpaid v k p else 0)" "repaid s v k d4 = repaid s v k d"
      using o4 t3 id by (simp_all add: charged_def repaid_def)
    then show ?thesis using o4 b3(2) un assms(2) by (simp add: debts_ok_def)
  qed
  moreover have "\<exists>n < uid_next d4. i = uid n" if "\<exists>n < Suc (uid_next d). i = uid n" for i
    using that o4 t3(4) less_le_trans by (metis order_trans)
  then have "\<forall>x \<in> set (supplier_purchases d4). \<exists>n < uid_next d4. sp_id x = uid n"
    "\<forall>y \<in> set (supplier_payments d4). \<exists>n < uid_next d4. pay_id y = uid n"
    using assms(2) o4 t3 id(1) less_SucI unfolding debts_ok_def by (simp_all) (metis lessI less_SucI)+
  ultimately have "debts_ok d4" using o4 by (simp add: debts_ok_def)
  then show ?thesis by (rule debts_ok_cong [OF 1(7)])
qed

text \<open>A repayment: a row, and as much off the balance.\<close>

lemma payment_steps:
  assumes "create_payment sha st sid b u d = Inr (y, d')"
  obtains supr v k y1 d1 z d2 where "add_payment (new_supplier_payment b supr v k u) d = (y1, d1)" "sup_id supr = sid"
    "adjust_balance sid v (owed_karat k) (- snd (py_amount b)) False d1 = Inr (z, d2)"
    "\<exists>d3. keeps_debts d2 d3 \<and> (d' = d3 \<or> (\<exists>d4. d4 = put_payment_row y d3 \<and> keeps_debts d4 d'
        \<and> y = y1\<lparr>pay_source_lot_ids := Some (map gp_lot_id (py_gold_payments b))\<rparr>))"
proof -
  obtain supr v d5 where s: "find_supplier sid d = Inr supr"
    and run: "(if v = DEBT_CASH then pay_cash sha supr b u d else pay_gold sha supr b u d) = Inr (y, d5)"
    and e: "d' = d5 \<or> (\<exists>s e. post_supplier_payment sha y s u d5 = Inr (e, d'))"
    using assms by (auto simp: create_payment_def res_simps split: option.split_asm) blast
  have sid: "sup_id supr = sid" using s by (auto simp: find_supplier_def fetch_eq_Inr filter_eq_Cons_iff)
  have fin: "keeps_debts d5 d'" using e by (auto intro: goods_debts post_supplier_payment_goods)
  show ?thesis
  proof (cases "v = DEBT_CASH")
    case True
    then have "pay_cash sha supr b u d = Inr (y, d5)" using run by simp
    then obtain d1 z d2 pl r d3 pl' r' rf where
      a: "add_payment (new_supplier_payment b supr DEBT_CASH None u) d = (y, d1)"
      "adjust_balance (sup_id supr) DEBT_CASH [] (- snd (py_amount b)) False d1 = Inr (z, d2)"
      "ledger_record sha EVENT_SUPPLIER_PAYMENT_CASH u ''supplier_payment'' (pay_id y) pl d2 = Inr (r, d3)"
      "ledger_record sha EVENT_SUPPLIER_BALANCE_CHANGED u ''supplier_balance'' rf pl' d3 = Inr (r', d5)"
      by (auto simp: pay_cash_def change_balance_def record_debt_def sd_neg_def res_simps Let_def)
    have "keeps_debts d2 d'"
      using record_debts [OF a(3)] record_debts [OF a(4)] fin by (blast intro: keeps_debts_trans)
    then show ?thesis using that [OF a(1) sid] a(2) sid by (simp add: owed_karat_def) blast
  next
    case False
    then have "pay_gold sha supr b u d = Inr (y, d5)" using run by simp
    then obtain k y1 d1 z d2 used d3 pl r d4 pl' r' rf where
      a: "add_payment (new_supplier_payment b supr DEBT_GOLD (Some k) u) d = (y1, d1)"
      "adjust_balance (sup_id supr) DEBT_GOLD (karat_value k) (- snd (py_amount b)) False d1 = Inr (z, d2)"
      "consume_lots sha u ''supplier_payment'' (pay_id y1) (py_gold_payments b) [] d2 = Inr (used, d3)"
      "y = y1\<lparr>pay_source_lot_ids := Some (map gp_lot_id (py_gold_payments b))\<rparr>"
      "ledger_record sha EVENT_SUPPLIER_PAYMENT_GOLD u ''supplier_payment'' (pay_id y1) pl (put_payment_row y d3) = Inr (r, d4)"
      "ledger_record sha EVENT_SUPPLIER_BALANCE_CHANGED u ''supplier_balance'' rf pl' d4 = Inr (r', d5)"
      by (auto simp: pay_gold_def change_balance_def record_debt_def sd_neg_def res_simps Let_def)
    have "keeps_debts (put_payment_row y d3) d'"
      using record_debts [OF a(5)] record_debts [OF a(6)] fin by (blast intro: keeps_debts_trans)
    then show ?thesis using that [OF a(1) sid] a(2,4) consume_lots_debts [OF a(3)] sid by (auto simp: owed_karat_def)
  qed
qed

lemma create_payment_debts:
  assumes "create_payment sha st sid b u d = Inr (y, d')" "debts_ok d"
  shows "debts_ok d'"
  using assms(1)
proof (cases rule: payment_steps)
  case (1 supr v k y1 d1 z d2)
  have y1: "pay_id y1 = uid (uid_next d)" "pay_supplier_id y1 = sid" "pay_unit y1 = v" "pay_karat y1 = k"
    "pay_amount y1 = snd (py_amount b)"
    and d1: "d1 = d\<lparr>uid_next := Suc (uid_next d), clock := clock d + 1, supplier_payments := supplier_payments d @ [y1]\<rparr>"
    using 1(1,2) by (auto simp: add_payment_def new_supplier_payment_def fresh_uid_def read_clock_def Let_def)
  have b1: "balances_ok d1" using assms(2) by (simp add: debts_ok_def balances_ok_def d1)
  note adj = adjust_balance_row [OF 1(3) b1]
  have t2: "supplier_purchases d2 = supplier_purchases d" "supplier_payments d2 = supplier_payments d @ [y1]"
    "uid_next d2 = Suc (uid_next d)"
    by (subst adjust_balance_frame [OF 1(3)], simp add: d1)+
  have debt: "supplier_debt s w j d2 = supplier_debt s w j d - (if (s, w, j) = (sid, v, owed_karat k) then snd (py_amount b) else 0)" for s w j
    using adj(2) [of s w j] by (simp add: supplier_debt_def d1)
  have "supplier_debt s w j d2 = charged s w j d2 - repaid s w j d2" for s w j
    using debt [of s w j] assms(2) y1 by (auto simp: debts_ok_def charged_def repaid_def t2)
  moreover have "\<exists>n < uid_next d2. i = uid n" if "\<exists>n < uid_next d. i = uid n" for i using that t2(3) less_SucI by metis
  then have "\<forall>x \<in> set (supplier_purchases d2). \<exists>n < uid_next d2. sp_id x = uid n"
    "\<forall>x \<in> set (supplier_payments d2). \<exists>n < uid_next d2. pay_id x = uid n"
    using assms(2) t2 y1(1) by (auto simp: debts_ok_def)
  ultimately have ok2: "debts_ok d2" using adj(1) by (simp add: debts_ok_def)
  obtain d3 where d3: "keeps_debts d2 d3" and e: "d' = d3 \<or> (\<exists>d4. d4 = put_payment_row y d3 \<and> keeps_debts d4 d'
        \<and> y = y1\<lparr>pay_source_lot_ids := Some (map gp_lot_id (py_gold_payments b))\<rparr>)"
    using 1(4) by blast
  have ok3: "debts_ok d3" by (rule debts_ok_cong [OF d3 ok2])
  from e show ?thesis
  proof
    assume "d' = d3"
    then show ?thesis using ok3 by simp
  next
    assume "\<exists>d4. d4 = put_payment_row y d3 \<and> keeps_debts d4 d'
        \<and> y = y1\<lparr>pay_source_lot_ids := Some (map gp_lot_id (py_gold_payments b))\<rparr>"
    then have k: "keeps_debts (put_payment_row y d3) d'" and y: "y = y1\<lparr>pay_source_lot_ids := Some (map gp_lot_id (py_gold_payments b))\<rparr>"
      by auto
    have fresh: "pay_id x \<noteq> pay_id y1" if "x \<in> set (supplier_payments d)" for x
      using assms(2) that by (force simp: debts_ok_def y1(1))
    have p3: "supplier_payments d3 = supplier_payments d @ [y1]" using d3 t2(2) by (simp add: keeps_debts_def)
    then have p4: "supplier_payments (put_payment_row y d3) = supplier_payments d @ [y]"
      using upd_rows_last [of "supplier_payments d" pay_id y1 y] fresh y by (simp add: put_payment_row_def)
    have "repaid s w j (put_payment_row y d3) = repaid s w j d3" for s w j
      unfolding repaid_def p3 p4 by (simp add: y)
    moreover have "\<exists>n < uid_next d3. pay_id x = uid n" if "x \<in> set (supplier_payments d @ [y])" for x
      using ok3 p3 y that by (auto simp: debts_ok_def)
    ultimately have "debts_ok (put_payment_row y d3)"
      using ok3 p4 unfolding debts_ok_def by (simp add: put_payment_row_def balances_ok_def supplier_debt_def charged_def)
    then show ?thesis by (rule debts_ok_cong [OF k])
  qed
qed

text \<open>Purchases, repayments, and everything that leaves the three tables alone.\<close>

inductive debt_step :: "(string \<Rightarrow> string) \<Rightarrow> db \<Rightarrow> db \<Rightarrow> bool" for sha where
  purchased: "create_purchase sha st sid b u d = Inr (p, d') \<Longrightarrow> debt_step sha d d'"
| repaid: "create_payment sha st sid y u d = Inr (r, d') \<Longrightarrow> debt_step sha d d'"
| elsewhere: "keeps_debts d d' \<Longrightarrow> debt_step sha d d'"

lemma debt_step_ok: "debt_step sha d d' \<Longrightarrow> debts_ok d \<Longrightarrow> debts_ok d'"
  by (induction rule: debt_step.induct) (blast intro: create_purchase_debts create_payment_debts debts_ok_cong)+

lemma debt_reach_ok: "(debt_step sha)\<^sup>*\<^sup>* d d' \<Longrightarrow> debts_ok d \<Longrightarrow> debts_ok d'"
  by (induction rule: rtranclp_induct) (auto intro: debt_step_ok)

section \<open>The store-wide view\<close>

definition owed_sum :: "debt_unit \<Rightarrow> string option \<Rightarrow> supplier_balance list \<Rightarrow> dec" where
  "owed_sum u k bs = sum_of sb_balance (filter (\<lambda>b. sb_unit b = u \<and> (k = None \<or> k = Some (sb_karat b))) bs)"

lemma ap_cash: "apo_total_cash_owed (fold ap_step rows o') = apo_total_cash_owed o' + owed_sum DEBT_CASH None (map fst rows)"
  by (induction rows arbitrary: o') (auto simp: ap_step_def Let_def owed_sum_def)

lemma ap_grams_eq: "apo_total_grams_owed_by_karat (fold ap_step rows o')
    = fold (\<lambda>r. dict_upd (sb_karat (fst r)) 0 (\<lambda>v. v + sb_balance (fst r))) (filter (\<lambda>r. sb_unit (fst r) \<noteq> DEBT_CASH) rows)
        (apo_total_grams_owed_by_karat o')"
  by (induction rows arbitrary: o') (auto simp: ap_step_def Let_def)

lemma fold_add_sum: "fold (\<lambda>r v. v + f r) rows (x :: dec) = x + sum_of f rows"
  by (induction rows arbitrary: x) auto

lemma ap_grams:
  "or_zero (map_of (apo_total_grams_owed_by_karat (fold ap_step rows o')) k)
    = or_zero (map_of (apo_total_grams_owed_by_karat o') k) + owed_sum DEBT_GOLD (Some k) (map fst rows)"
proof -
  have u: "sb_unit b \<noteq> DEBT_CASH \<longleftrightarrow> sb_unit b = DEBT_GOLD" for b by (cases "sb_unit b") simp_all
  have "owed_sum DEBT_GOLD (Some k) (map fst rows)
      = sum_of (\<lambda>r. sb_balance (fst r)) (filter (\<lambda>r. sb_karat (fst r) = k) (filter (\<lambda>r. sb_unit (fst r) \<noteq> DEBT_CASH) rows))"
    by (induction rows) (auto simp: owed_sum_def u)
  then show ?thesis
    unfolding ap_grams_eq map_of_fold_dict_upd
    by (auto simp: fold_add_sum or_zero_def split: list.splits option.splits)
qed

text \<open>Each balance is joined with its one supplier.\<close>

lemma owed_rows_sum:
  assumes "distinct (map sup_id (suppliers d))" "\<forall>b \<in> set (supplier_balances d). sb_supplier_id b \<in> sup_id ` set (suppliers d)"
  shows "owed_sum u k (map fst (owed_rows d)) = owed_sum u k (supplier_balances d)"
proof -
  let ?j = "\<lambda>b. map (\<lambda>s. (b, sup_name s)) (filter (\<lambda>s. sup_id s = sb_supplier_id b) (suppliers d))"
  let ?ok = "\<lambda>b. sb_unit b = u \<and> (k = None \<or> k = Some (sb_karat b))"
  have one: "map fst (?j b) = [b]" if b: "b \<in> set (supplier_balances d)" for b
  proof -
    obtain s where "s \<in> set (suppliers d)" "sup_id s = sb_supplier_id b" using assms(2) b by (metis imageE)
    then have "filter (\<lambda>x. sup_id x = sb_supplier_id b) (suppliers d) = [s]"
      using filter_by_id [OF assms(1)] by metis
    then show ?thesis by simp
  qed
  have j: "map fst (concat (map ?j (filter (\<lambda>b. sb_balance b \<noteq> 0) bs))) = filter (\<lambda>b. sb_balance b \<noteq> 0) bs"
    if "set bs \<subseteq> set (supplier_balances d)" for bs
    using that one by (induction bs) (auto simp: comp_def)
  have "mset (map fst (owed_rows d)) = mset (map fst (concat (map ?j (filter (\<lambda>b. sb_balance b \<noteq> 0) (supplier_balances d)))))"
    unfolding owed_rows_def mset_map mset_sort ..
  then have "mset (map fst (owed_rows d)) = mset (filter (\<lambda>b. sb_balance b \<noteq> 0) (supplier_balances d))"
    unfolding j [OF subset_refl] .
  then have "mset (filter ?ok (map fst (owed_rows d))) = mset (filter ?ok (filter (\<lambda>b. sb_balance b \<noteq> 0) (supplier_balances d)))"
    unfolding mset_filter by (rule arg_cong)
  then have "owed_sum u k (map fst (owed_rows d)) = owed_sum u k (filter (\<lambda>b. sb_balance b \<noteq> 0) (supplier_balances d))"
    unfolding owed_sum_def by (rule sum_of_mset_eq)
  moreover have "owed_sum u k (filter (\<lambda>b. sb_balance b \<noteq> 0) bs) = owed_sum u k bs" for bs
    by (induction bs) (auto simp: owed_sum_def)
  ultimately show ?thesis by simp
qed

lemma accounts_payable_sums:
  assumes "distinct (map sup_id (suppliers d))" "\<forall>b \<in> set (supplier_balances d). sb_supplier_id b \<in> sup_id ` set (suppliers d)"
  shows "apo_total_cash_owed (accounts_payable d) = owed_sum DEBT_CASH None (supplier_balances d)"
    and "or_zero (map_of (apo_total_grams_owed_by_karat (accounts_payable d)) k) = owed_sum DEBT_GOLD (Some k) (supplier_balances d)"
  unfolding accounts_payable_def ap_cash ap_grams owed_rows_sum [OF assms] by (simp_all add: or_zero_def)

end
