(* ===== verification/ShopRuns.thy ===== *)
theory ShopRuns
  imports Supply_Facts Debts DemoRuns
begin

text \<open>
  A small shop, for the witnesses: a coin in stock, a piece bought for polishing, a lot of
  gold, a supplier owed nothing yet. The rate is an override, the books post nothing, so
  that a run is the handler's own writes and its events.
\<close>

definition demo_coin :: coin_type where
  "demo_coin = \<lparr>co_id = uid 30, co_code = ''FN-COIN-21K-0001'', co_name_en = ''Lira'', co_name_ar = [], co_karat = K21,
     co_weight_grams = 8, co_markup_per_gram = 1, co_margin_mode = MARGIN_USD, co_margin_value = 10, co_on_hand_qty = 5,
     co_min_stock_qty = None, co_photo_url = None, co_is_active = True\<rparr>"

definition demo_piece :: walkin_buyback where
  "demo_piece = \<lparr>wb_id = uid 31, wb_occurred_at = Some demo_clock, wb_seller_name = ''S'', wb_seller_phone = ''1'',
     wb_cashier_id = ''u1'', wb_kind = BB_USED_PRODUCT, wb_result_lot_id = None, wb_coin_type_id = None,
     wb_ounce_type_id = None, wb_product_id = None, wb_quantity = None, wb_weight_grams = Some 10, wb_karat = Some K18,
     wb_buy_price_usd = 500, wb_gold_rate_at_buy = 100, wb_margin_mode = None, wb_margin_value = None,
     wb_price_mode = PRICE_MANUAL, wb_notes = None\<rparr>"

definition demo_lot :: gold_lot where
  "demo_lot = (new_lot K21 20 SRC_SEED None None 1000 demo_clock None)\<lparr>lot_id := uid 32\<rparr>"

definition demo_supplier :: supplier where
  "demo_supplier = \<lparr>sup_id = uid 33, sup_name = ''Refinery'', sup_contact_name = None, sup_phone = None, sup_email = None,
     sup_address = None, sup_default_currency = ''USD'', sup_payment_terms = None, sup_notes = None, sup_is_active = True\<rparr>"

definition demo_override :: gold_rate_override where
  "demo_override = \<lparr>go_id = uid 34, go_rate_24k = 100, go_set_by = ''u1'', go_set_at = demo_clock, go_cleared_at = None,
     go_is_active = True\<rparr>"

definition shop_db :: db where
  "shop_db = demo_db\<lparr>uid_next := 40, coin_types := [demo_coin], buybacks := [demo_piece], gold_lots := [demo_lot],
     suppliers := [demo_supplier], rate_overrides := [demo_override]\<rparr>"

definition shop_settings :: settings where
  "shop_settings = demo_settings\<lparr>accounting_auto_post_enabled := False\<rparr>"

definition shop_rates :: rate_config where
  "shop_rates = \<lparr>cf_gold_refresh_minutes = 15, cf_gold_alert_failure_threshold = 3\<rparr>"

definition coin_sale :: checkout_request where
  "coin_sale = \<lparr>cr_items = [\<lparr>ol_item_kind = ''COIN'', ol_product_id = None, ol_coin_type_id = Some (uid 30),
       ol_ounce_type_id = None, ol_quantity = 2\<rparr>],
     cr_payment_method = ''CASH'', cr_customer_name = None, cr_customer_id = None, cr_discount_percent = 0,
     cr_stale_rate_ack = None\<rparr>"

lemmas shop_db_parts = shop_db_def demo_db_def empty_db_def

lemma shop_live: "live_db demo_sha shop_db"
  by (rule live_db_step [OF demo_live step.other]) (auto simp: same_books_def shop_db_parts)

text \<open>With the identity as hash every event of a live shop is written.\<close>

lemma demo_record:
  assumes "live_db demo_sha d"
  obtains r d' where "ledger_record demo_sha ev ac rt ri p d = Inr (r, d')" "live_db demo_sha d'" "keeps_goods d d'"
proof -
  have h: "hashes_fresh demo_sha d" by (rule demo_hashes_fresh [OF live_db_ok(1,2) [OF assms]])
  have "\<exists>r d'. ledger_record demo_sha ev ac rt ri p d = Inr (r, d')"
    by (rule ledger_record_fresh) (use h in \<open>auto simp: hashes_fresh_def\<close>)
  then show ?thesis using that live_db_step [OF assms step.event] ledger_record_goods by blast
qed

lemma live_same: "live_db sha d \<Longrightarrow> same_books d d' \<Longrightarrow> live_db sha d'"
  by (blast intro: live_db_step step.other)

section \<open>A sale, and its void\<close>

lemma coin_priced: "\<exists>x. calculate_unit_price 100 8 1 ''USD'' 10 = Inr x"
proof -
  have "\<not> isl (calculate_unit_price 100 8 1 ''USD'' 10)" by code_simp
  then show ?thesis by (cases "calculate_unit_price 100 8 1 ''USD'' 10") simp_all
qed

lemma uid_neq_Nil [simp]: "uid n \<noteq> []"
  by (simp add: uid_def)

lemma coin_checkout:
  assumes "coin_types d = [demo_coin]"
  obtains it t ev where "checkout_lines shop_settings 100 (cr_items coin_sale) d = Inr ([it], t, [ev], set_unit_qty True (uid 30) 3 d)"
    "oi_item_kind it = ITEM_COIN" "oi_coin_type_id it = Some (uid 30)" "oi_quantity it = 2" "oi_refunded_qty it = 0"
proof -
  obtain x where x: "calculate_unit_price 100 8 1 ''USD'' 10 = Inr x" using coin_priced by blast
  have f: "find_unit True (uid 30) d = Inr (Some (coin_view demo_coin))"
    using assms by (simp add: find_unit_def scalar_one_or_none_def unit_rows_def coin_view_def demo_coin_def)
  let ?it = "(unit_item True (coin_view demo_coin) 100 2 (dmul (ux_final_price x) 2))
        \<lparr>oi_cost_basis_usd := Some (q_money (dmul (dmul (dmul 100 8) (KARAT_PURITY K21)) 2))\<rparr>"
  have "\<exists>t ev. checkout_lines shop_settings 100 (cr_items coin_sale) d = Inr ([?it], t, [ev], set_unit_qty True (uid 30) 3 d)"
    by (simp add: coin_sale_def checkout_line_def checkout_unit_line_def f x raise_if_def COIN_OUNCE_QTY_CAP_def or_raise_def
        falsy_def coin_view_def demo_coin_def cogs_cost_for_item_def unit_item_def Let_def)
  then show ?thesis using that by (auto simp: unit_item_def coin_view_def demo_coin_def)
qed

lemma coin_sale_parts: "cr_items coin_sale \<noteq> []" "cr_payment_method coin_sale = ''CASH''" "cr_discount_percent coin_sale = 0"
  "cr_stale_rate_ack coin_sale = None" "cr_customer_id coin_sale = None" "max_discount_percent shop_settings = 10"
  "accounting_auto_post_enabled shop_settings = False"
  by (simp_all add: coin_sale_def shop_settings_def demo_settings_def)

text \<open>What a successful run of checkout leaves, in a live shop.\<close>

lemma coin_sold:
  obtains o' it d' where "create_order demo_sha shop_rates (Some shop_settings) coin_sale ''u1'' shop_db = Inr (o', d')"
    "live_db demo_sha d'" "orders d' = [o']" "coin_types d' = [demo_coin\<lparr>co_on_hand_qty := 3\<rparr>]" "or_status o' = COMPLETED"
    "or_items o' = [it]" "oi_item_kind it = ITEM_COIN" "oi_coin_type_id it = Some (uid 30)" "oi_quantity it = 2"
proof -
  let ?d0 = "shop_db\<lparr>clock := clock shop_db + 1\<rparr>" and ?now = "clock shop_db"
  obtain it t ev where c: "checkout_lines shop_settings 100 (cr_items coin_sale) ?d0 = Inr ([it], t, [ev], set_unit_qty True (uid 30) 3 ?d0)"
    "oi_item_kind it = ITEM_COIN" "oi_coin_type_id it = Some (uid 30)" "oi_quantity it = 2"
    by (rule coin_checkout [of ?d0]) (simp add: shop_db_def)
  let ?d1 = "set_unit_qty True (uid 30) 3 ?d0"
  let ?o = "new_order coin_sale shop_settings ''u1'' (generate_order_number ?d0 ?now) PAY_CASH [it] t (checkout_totals shop_settings t 0)"
  let ?it = "it\<lparr>oi_id := uid 41, oi_order_id := uid 40\<rparr>"
  let ?o' = "?o\<lparr>or_id := uid 40, or_items := [?it], or_created_at := Some (clock ?d1)\<rparr>"
  let ?d2 = "?d1\<lparr>uid_next := 42, clock := clock ?d1 + 1, orders := [?o']\<rparr>"
  have add: "add_order ?o ?d1 = Inr (?o', ?d2)"
    by (simp add: add_order_def dangling_def shop_db_parts set_unit_qty_def new_order_def coin_sale_parts fresh_uid_def read_clock_def raise_if_def Let_def)
  have "same_books shop_db ?d2" by (simp add: same_books_def set_unit_qty_def shop_db_parts)
  then have "live_db demo_sha ?d2" by (rule live_same [OF shop_live])
  then obtain r d3 where w: "ledger_record demo_sha (pe_event_type ev) ''u1'' (pe_ref_type ev) (pe_ref_id ev)
      (PDict (pe_payload ev @ [(''order_id'', PStr (or_id ?o')), (''order_number'', PStr (or_order_number ?o'))])) ?d2 = Inr (r, d3)"
    and l: "live_db demo_sha d3" and k: "keeps_goods ?d2 d3"
    by (rule demo_record)
  have rate: "get_current_gold_rate shop_rates shop_db = Inr (override_rate demo_override, shop_db)"
    by (simp add: get_current_gold_rate_def shop_db_def demo_override_def)
  have rate_100: "ri_rate (override_rate demo_override) = 100" "ri_source (override_rate demo_override) = ''override''"
    by (simp_all add: override_rate_def demo_override_def)
  have fin: "finish_order demo_sha shop_settings (override_rate demo_override) coin_sale ''u1'' [ev] ?o' ?d2 = Inr (?o', d3)"
    using w by (simp add: finish_order_def write_event_def record_stale_rate_ack_def coin_sale_parts post_sale_def
        auto_post_enabled_def new_order_def)
  have "create_order demo_sha shop_rates (Some shop_settings) coin_sale ''u1'' shop_db = Inr (?o', d3)"
    using c(1) add fin coin_sale_parts(1)
    by (simp add: create_order_def rate assert_rate_acceptable_def requires_ack_def rate_100 read_clock_def raise_if_def
        check_discount_def check_credit_sale_def parse_payment_method_def member_of_def payment_methods_def coin_sale_parts)
  then show ?thesis
    using k l c by (intro that [of ?o' d3 ?it])
      (auto simp: keeps_goods_def goods_def set_unit_qty_def shop_db_def upd_rows_def demo_coin_def new_order_def)
qed

lemma coin_voided:
  obtains o' d1 o2 d2 where "create_order demo_sha shop_rates (Some shop_settings) coin_sale ''u1'' shop_db = Inr (o', d1)"
    "void_order demo_sha None (or_id o') ''mistake'' ''u1'' d1 = Inr (o2, d2)"
proof -
  obtain o' it d1 where o: "create_order demo_sha shop_rates (Some shop_settings) coin_sale ''u1'' shop_db = Inr (o', d1)"
    and l: "live_db demo_sha d1" and d1: "orders d1 = [o']" "coin_types d1 = [demo_coin\<lparr>co_on_hand_qty := 3\<rparr>]"
    and o': "or_status o' = COMPLETED" "or_items o' = [it]" and it: "oi_item_kind it = ITEM_COIN" "oi_coin_type_id it = Some (uid 30)" "oi_quantity it = 2"
    by (rule coin_sold)
  have f: "find_unit True (uid 30) d1 = Inr (Some (coin_view (demo_coin\<lparr>co_on_hand_qty := 3\<rparr>)))"
    by (simp add: find_unit_def scalar_one_or_none_def unit_rows_def d1(2) coin_view_def demo_coin_def)
  let ?d = "set_unit_qty True (uid 30) 5 d1"
  obtain ev where r: "return_lines (or_items o') d1 = Inr ([ev], ?d)"
    by (simp add: o'(2) return_stock_def it return_unit_def f coin_view_def demo_coin_def Let_def)
  let ?o = "o'\<lparr>or_status := VOIDED, or_voided_at := Some (clock ?d), or_voided_by := Some ''u1'', or_void_reason := Some ''mistake''\<rparr>"
  let ?d2 = "put_order ?o (?d\<lparr>clock := clock ?d + 1\<rparr>)"
  have "same_books d1 ?d2"
    by (rule same_books_trans [OF shelf_same_books same_books_trans [OF tick_same_books put_order_same_books]])
  then have "live_db demo_sha ?d2" by (rule live_same [OF l])
  then obtain r1 d3 where w1: "ledger_record demo_sha EVENT_ORDER_VOID ''u1'' ''order'' (or_id ?o)
            (PDict [(''order_number'', PStr (or_order_number ?o)), (''reason'', PStr ''mistake''),
                    (''items_reversed'', PInt (int (length [ev])))]) ?d2 = Inr (r1, d3)" and l3: "live_db demo_sha d3"
    by (rule demo_record)
  obtain r2 d4 where w2: "ledger_record demo_sha (pe_event_type ev) ''u1'' (pe_ref_type ev) (pe_ref_id ev)
      (PDict (pe_payload ev @ [(''voided_order_id'', PStr (or_id ?o)), (''voided_order_number'', PStr (or_order_number ?o))])) d3 = Inr (r2, d4)"
    using demo_record [OF l3] by blast
  have "find_order (or_id o') d1 = Inr o'" by (simp add: find_order_eq d1(1))
  then have "void_order demo_sha None (or_id o') ''mistake'' ''u1'' d1 = Inr (?o, d4)"
    using r w1 w2 o'(1) by (simp add: void_order_def read_clock_def raise_if_def write_event_def refund_books_def)
  then show ?thesis using that [OF o] by blast
qed

section \<open>A piece melted, a purchase on credit\<close>

definition piece_melt :: melt_in where
  "piece_melt = \<lparr>ml_product_id = None, ml_walkin_buyback_id = Some (uid 31), ml_override_weight_grams = None,
     ml_override_karat = None, ml_notes = None\<rparr>"

lemma piece_melted:
  obtains l d where "create_melt demo_sha None piece_melt ''u1'' shop_db = Inr (l, d)"
proof -
  have f: "fetch_buyback (uid 31) shop_db = Inr demo_piece"
    by (simp add: fetch_buyback_def fetch_eq_Inr shop_db_def demo_piece_def)
  obtain lo d1 where a: "add_lot_now K18 10 SRC_MELT ''walkin_buyback'' (wb_id demo_piece) 500
      (str_or (ml_notes piece_melt) (''Melted from used-product buyback '' @ wb_id demo_piece)) shop_db = (lo, d1)" by fastforce
  let ?w = "demo_piece\<lparr>wb_result_lot_id := Some (lot_id lo)\<rparr>"
  have "live_db demo_sha (put_buyback ?w d1)"
    using live_same [OF live_same [OF shop_live add_lot_now_same_books [OF a]] rows_same_books(1)] .
  then obtain r d2 where w1: "ledger_record demo_sha EVENT_LOT_CREATED ''u1'' ''gold_lot'' (lot_id lo)
            (PDict [(''karat'', PStr (karat_value K18)), (''weight_grams'', PStr (sd_text (3, 10))),
                    (''source'', PStr (lot_source_value SRC_MELT)), (''cost_basis_usd'', PStr (sd_text (2, 500))),
                    (''from_buyback_id'', PStr (wb_id ?w))]) (put_buyback ?w d1) = Inr (r, d2)" and l2: "live_db demo_sha d2"
    by (rule demo_record)
  obtain r' d3 where w2: "ledger_record demo_sha EVENT_MELT ''u1'' ''walkin_buyback'' (wb_id ?w)
            (PDict [(''lot_id'', PStr (lot_id lo)), (''karat'', PStr (karat_value K18)),
                    (''weight_grams'', PStr (sd_text (3, 10))), (''cost_basis_usd'', PStr (sd_text (2, 500))),
                    (''seller_name'', PStr (wb_seller_name ?w)),
                    (''weight_override'', PBool False), (''karat_override'', PBool False)]) d2 = Inr (r', d3)"
    using demo_record [OF l2] by blast
  have p: "wb_kind demo_piece = BB_USED_PRODUCT" "wb_product_id demo_piece = None" "wb_result_lot_id demo_piece = None"
    "wb_weight_grams demo_piece = Some 10" "wb_karat demo_piece = Some K18" "wb_buy_price_usd demo_piece = 500"
    by (simp_all add: demo_piece_def)
  have m: "ml_product_id piece_melt = None" "ml_walkin_buyback_id piece_melt = Some (uid 31)"
    "ml_override_weight_grams piece_melt = None" "ml_override_karat piece_melt = None"
    by (simp_all add: piece_melt_def)
  have fy: "falsy None" by (simp add: falsy_def)
  have "create_melt demo_sha None piece_melt ''u1'' shop_db = Inr (lo, d3)"
    using a w1 w2 by (simp add: create_melt_def melt_used_buyback_def m f p fy raise_if_def override_karat_def override_weight_def
        melt_books_def Let_def)
  then show ?thesis by (rule that)
qed

definition credit_purchase :: purchase_in where
  "credit_purchase = \<lparr>pu_occurred_at = None, pu_payment_mode = ''CASH'', pu_trade_markup_per_gram = None,
     pu_total_cash_due = (2, 100), pu_total_grams_due_by_karat = [], pu_cash_paid_at_creation = (2, 40),
     pu_gold_payments_at_creation = [], pu_items = [], pu_notes = None\<rparr>"

lemma demo_record_debt:
  assumes "live_db demo_sha d"
  obtains d' where "record_debt demo_sha a sid u k x c w d = Inr d'" "live_db demo_sha d'" "keeps_goods d d'"
proof -
  obtain r d' where "ledger_record demo_sha EVENT_SUPPLIER_BALANCE_CHANGED a ''supplier_balance''
            (sid @ '':'' @ debt_unit_value u @ '':'' @ k)
            (PDict ([(''supplier_id'', PStr sid), (''unit'', PStr (debt_unit_value u)),
                     (''karat'', if u = DEBT_CASH then PNone else PStr k), (''delta'', PStr (sd_text x)),
                     (''before'', PStr (sd_text (dc_before c))), (''after'', PStr (sd_text (dc_after c)))] @ w)) d = Inr (r, d')"
    and "live_db demo_sha d'" "keeps_goods d d'"
    by (rule demo_record [OF assms])
  then show ?thesis by (intro that [of d']) (simp_all add: record_debt_def)
qed

lemma credit_purchased:
  obtains p d where "create_purchase demo_sha None (uid 33) credit_purchase ''u1'' shop_db = Inr (p, d)"
    "supplier_debt (uid 33) DEBT_CASH [] d = 60"
proof -
  let ?np = "new_purchase credit_purchase demo_supplier MODE_CASH ''u1''"
  obtain p d1 where a: "add_purchase ?np shop_db = (p, d1)" by fastforce
  have d1: "d1 = shop_db\<lparr>uid_next := 41, clock := clock shop_db + 1, supplier_purchases := [p]\<rparr>"
    using a by (auto simp: add_purchase_def fresh_uid_def read_clock_def Let_def shop_db_parts)
  let ?p = "p\<lparr>sp_grams_paid_at_creation_by_karat := []\<rparr>"
  let ?d2 = "put_purchase ?p d1"
  have "same_books shop_db ?d2"
    by (rule same_books_trans [OF added_same_books(2) [OF a] rows_same_books(3)])
  then have l2: "live_db demo_sha ?d2" by (rule live_same [OF shop_live])
  have b2: "supplier_balances ?d2 = []" by (simp add: put_purchase_def d1 shop_db_parts)
  let ?d3 = "?d2\<lparr>supplier_balances := [\<lparr>sb_supplier_id = uid 33, sb_unit = DEBT_CASH, sb_karat = [], sb_balance = 60\<rparr>]\<rparr>"
  have adj: "adjust_balance (uid 33) DEBT_CASH [] 60 False ?d2 = Inr ((0, 60), ?d3)"
    by (simp add: adjust_balance_def b2 scalar_one_or_none_def raise_if_def upd_rows_def balance_key_def Let_def)
  have l3: "live_db demo_sha ?d3" by (rule live_same [OF l2 added_same_books(5) [OF adj]])
  let ?c = "\<lparr>dc_before = (0, 0), dc_after = (2, 60)\<rparr>"
  obtain d4 where owed: "record_debt demo_sha ''u1'' (uid 33) DEBT_CASH [] (2, 60) ?c
      [(''reason'', PStr ''purchase''), (''purchase_id'', PStr (sp_id p))] ?d3 = Inr d4" and l4: "live_db demo_sha d4"
    and g4: "keeps_goods ?d3 d4"
    by (rule demo_record_debt [OF l3])
  obtain r d5 where fin: "ledger_record demo_sha EVENT_SUPPLIER_PURCHASE ''u1'' ''supplier_purchase'' (sp_id p)
      (purchase_payload demo_supplier MODE_CASH credit_purchase []) d4 = Inr (r, d5)" and g5: "keeps_goods d4 d5"
    by (rule demo_record [OF l4])
  have s: "scalar_one_or_none (\<lambda>s. sup_id s = uid 33) (suppliers shop_db) = Inr (Some demo_supplier)"
    "sup_id demo_supplier = uid 33" "sup_is_active demo_supplier"
    by (simp_all add: scalar_one_or_none_def shop_db_def demo_supplier_def)
  have q: "parse_enum purchase_mode_value purchase_modes ''Invalid payment_mode {}'' (pu_payment_mode credit_purchase) = Inr MODE_CASH"
    "check_purchase credit_purchase MODE_CASH = Inr ()" "pu_gold_payments_at_creation credit_purchase = []"
    "pu_items credit_purchase = []" "purchase_debts credit_purchase [] = [(DEBT_CASH, [], (2, 60))]"
    by (simp_all add: parse_enum_def member_of_def purchase_modes_def credit_purchase_def check_purchase_def raise_if_def
        purchase_debts_def)
  have o1: "owe demo_sha ''u1'' (uid 33) (sp_id p) (DEBT_CASH, [], (2, 60)) ?d2 = Inr d4"
    using adj owed by (simp add: owe_def change_balance_def balance_places_def b2)
  have "create_purchase demo_sha None (uid 33) credit_purchase ''u1'' shop_db = Inr (?p, d5)"
    using a fin o1 by (simp add: create_purchase_def s q raise_if_def dec_dict_def)
  moreover have "supplier_balances d5 = [\<lparr>sb_supplier_id = uid 33, sb_unit = DEBT_CASH, sb_karat = [], sb_balance = 60\<rparr>]"
    using g4 g5 by (simp add: keeps_goods_def goods_def)
  ultimately show ?thesis using that by (simp add: supplier_debt_def balance_key_def)
qed

section \<open>A count approved\<close>

text \<open>A take submitted with one line: three coins counted where five were expected.\<close>

definition counted_line :: stock_take_line where
  "counted_line = \<lparr>stl_id = uid 36, stl_stock_take_id = uid 35, stl_ref_type = REF_COIN_STOCK, stl_ref_id = uid 30,
     stl_counted_qty = 3, stl_expected_qty_at_submit = Some 5, stl_variance = Some (- 2), stl_resolution = PENDING,
     stl_rejection_reason = None, stl_adjustment_id = None, stl_resolved_at = None, stl_resolved_by_user_id = None\<rparr>"

definition submitted_take :: stock_take where
  "submitted_take = \<lparr>sto_id = uid 35, sto_started_at = demo_clock, sto_started_by_user_id = ''u1'',
     sto_submitted_at = Some demo_clock, sto_closed_at = None, sto_status = SUBMITTED, sto_notes = None\<rparr>"

definition counted_db :: db where
  "counted_db = shop_db\<lparr>stock_takes := [submitted_take], stock_take_lines := [counted_line]\<rparr>"

lemma counted_takes_ok: "takes_ok counted_db"
  by (auto simp: takes_ok_def counted_db_def shop_db_parts lines_of_def frozen_ok_def submitted_take_def counted_line_def
      uid_inj)

lemma counted_live: "live_db demo_sha counted_db"
  by (rule live_same [OF shop_live]) (simp add: same_books_def counted_db_def)

lemma line_approved:
  obtains l d where "approve_line demo_sha (uid 35) (uid 36) ''u1'' counted_db = Inr (l, d)"
proof -
  let ?d1 = "put_coin (demo_coin\<lparr>co_on_hand_qty := 3\<rparr>) counted_db"
  let ?why = "''Stock-take '' @ sto_id submitted_take @ '' approval (line '' @ stl_id counted_line @ '')''"
  let ?extra = "[(''stock_take_line_id'', PStr (stl_id counted_line))]"
  obtain a d2 where a: "add_adjustment TARGET_COIN_STOCK (uid 30) (- 2) CORRECTION ?why ''u1'' ?d1 = (a, d2)" by fastforce
  have l2: "live_db demo_sha d2"
    using live_same [OF live_same [OF counted_live put_same_books(3)] add_adjustment_same_books [OF a]] .
  obtain r d3 where w1: "ledger_record demo_sha EVENT_COIN_STOCK_ADJUSTED ''u1'' ''coin_type'' (co_id demo_coin)
      (unit_payload a (- 2) 5 3 (PStr ?why) ?extra) d2 = Inr (r, d3)" and l3: "live_db demo_sha d3" and g3: "keeps_goods d2 d3"
    by (rule demo_record [OF l2])
  have core: "apply_unit_stock_adjustment_core demo_sha TARGET_COIN_STOCK (uid 30) (- 2) CORRECTION ?why ''u1'' ?extra counted_db
      = Inr (a, d3)"
  proof -
    have "fetch (HTTPException 404 (Msg ''{} {} not found'' [AStr ''coin_type'', AStr (uid 30)])) (\<lambda>c. co_id c = uid 30)
        (coin_types counted_db) = Inr demo_coin"
      by (simp add: fetch_eq_Inr counted_db_def shop_db_def demo_coin_def)
    moreover have "co_on_hand_qty demo_coin = 5" by (simp add: demo_coin_def)
    moreover have "\<lfloor>- 2 :: rat\<rfloor> = - 2" by simp
    ultimately show ?thesis using a w1
      by (simp add: apply_unit_stock_adjustment_core_def raise_if_def)
  qed
  let ?l = "(mark_line APPROVED (clock d3) ''u1'' counted_line)\<lparr>stl_adjustment_id := Some (ma_id a)\<rparr>"
  let ?d4 = "put_take_line ?l (d3\<lparr>clock := clock d3 + 1\<rparr>)"
  have "live_db demo_sha ?d4"
    using live_same [OF live_same [OF l3 tick_same_books] rows_same_books(6)] .
  then obtain r' d5 where w2: "ledger_record demo_sha EVENT_STOCK_TAKE_LINE_APPROVED ''u1'' ''stock_take_line'' (stl_id ?l)
            (line_payload submitted_take ?l ''adjustment_id'' (ma_id a)) ?d4 = Inr (r', d5)" and l5: "live_db demo_sha d5"
      and g5: "keeps_goods ?d4 d5"
    by (rule demo_record)
  let ?t = "submitted_take\<lparr>sto_status := CLOSED, sto_closed_at := Some (clock d5)\<rparr>"
  let ?d6 = "put_take ?t (d5\<lparr>clock := clock d5 + 1\<rparr>)"
  have "live_db demo_sha ?d6"
    using live_same [OF live_same [OF l5 tick_same_books] rows_same_books(5)] .
  then obtain r'' d7 where w3: "ledger_record demo_sha EVENT_STOCK_TAKE_CLOSED ''u1'' ''stock_take'' (sto_id ?t)
                 (PDict [(''approved_count'', PInt (resolved_count APPROVED (fresh_lines d5 (uid 35)))),
                         (''rejected_count'', PInt (resolved_count REJECTED (fresh_lines d5 (uid 35)))),
                         (''no_variance_count'', PInt (resolved_count NO_VARIANCE (fresh_lines d5 (uid 35))))]) ?d6 = Inr (r'', d7)"
    using demo_record by blast
  have "stock_take_lines d3 = [counted_line]"
    using apply_unit_takes [OF core] by (simp add: counted_db_def)
  then have "stock_take_lines d5 = [?l]"
    using g5 by (simp add: keeps_goods_def goods_def put_take_line_def upd_rows_def mark_line_def)
  then have none: "\<not> 0 < resolved_count PENDING (fresh_lines d5 (uid 35))"
    by (simp add: resolved_count_def fresh_lines_def mark_line_def)
  have close: "maybe_close_take demo_sha submitted_take ''u1'' d5 = Inr (?t, d7)"
    using none w3 by (simp add: maybe_close_take_def read_clock_def submitted_take_def Let_def)
  have rows: "load_take_or_404 counted_db (uid 35) = Inr submitted_take" "find_take_line counted_db (uid 35) (uid 36) = Inr counted_line"
    "sto_status submitted_take = SUBMITTED" "stl_resolution counted_line = PENDING" "stl_variance counted_line = Some (- 2)"
    "to_adjustment_target (stl_ref_type counted_line) = TARGET_COIN_STOCK" "stl_ref_id counted_line = uid 30"
    by (simp_all add: load_take_or_404_def find_take_line_def fetch_eq_Inr counted_db_def counted_line_def submitted_take_def)
  have "approve_line demo_sha (uid 35) (uid 36) ''u1'' counted_db = Inr (?l, d7)"
    using core w2 close by (simp add: approve_line_def rows raise_if_def read_clock_def)
  then show ?thesis by (rule that)
qed

section \<open>A piece bought while the market is closed\<close>

definition closed_rate :: gold_rate_history where
  "closed_rate = \<lparr>gh_id = uid 37, gh_rate_24k = 100, gh_rate_22k = None, gh_rate_21k = None, gh_rate_18k = None,
     gh_per_karat_backfilled = False, gh_source = ''live'', gh_fetched_at = 0\<rparr>"

definition closed_db :: db where
  "closed_db = shop_db\<lparr>rate_overrides := [], rate_history := [closed_rate]\<rparr>"

definition piece_offer :: buyback_in where
  "piece_offer = \<lparr>bi_seller_name = ''S'', bi_seller_phone = ''1'', bi_kind = ''USED_PRODUCT'', bi_karat = Some ''K18'',
     bi_weight_grams = Some (3, 10), bi_coin_type_id = None, bi_ounce_type_id = None, bi_quantity = None,
     bi_manual_price = Some (2, 500), bi_margin_mode = None, bi_margin_value = None, bi_expected_rate = None, bi_notes = None,
     bi_stale_rate_ack = Some (utc_datetime 0)\<rparr>"

definition closed_info :: rate_info where
  "closed_info = live_rate shop_rates closed_rate demo_clock"

lemma closed_rate_read: "get_current_gold_rate shop_rates closed_db = Inr (closed_info, closed_db\<lparr>clock := clock closed_db + 1\<rparr>)"
  by (simp add: get_current_gold_rate_def closed_db_def latest_rate_def read_clock_def closed_info_def shop_db_parts)

lemma closed_info_parts: "ri_market_closed closed_info" "ri_source closed_info \<noteq> ''override''" "ri_fetched_at closed_info = 0"
  "ri_rate closed_info = 100"
  by (simp_all add: closed_info_def live_rate_def closed_rate_def closed_threshold_def stale_threshold_def refresh_min_def or_int_def
      shop_rates_def us_per_second_def demo_clock_def)

lemma closed_bought:
  obtains w d where "create_buyback demo_sha shop_rates (Some shop_settings) piece_offer ''u1'' closed_db = Inr (w, d)"
proof -
  let ?d1 = "closed_db\<lparr>clock := clock closed_db + 1\<rparr>" and ?m = "(PRICE_MANUAL, None, None)"
  have l: "live_db demo_sha closed_db" by (rule live_same [OF shop_live]) (simp add: same_books_def closed_db_def)
  have ok: "assert_rate_acceptable closed_info (Some (utc_datetime 0)) ?d1 = Inr ((), ?d1\<lparr>clock := clock ?d1 + 1\<rparr>)"
    by (simp add: assert_rate_acceptable_def requires_ack_def closed_info_parts read_clock_def as_utc_def utc_instant_def
        utc_datetime_def ACK_TOLERANCE_def us_per_second_def raise_if_def)
  let ?d2 = "?d1\<lparr>clock := clock ?d1 + 1\<rparr>"
  have l2: "live_db demo_sha ?d2" by (rule live_same [OF live_same [OF l tick_same_books] tick_same_books])
  obtain w d3 where a: "add_buyback (new_buyback piece_offer ''u1'' BB_USED_PRODUCT ?m K18 10 500 100) ?d2 = (w, d3)" by fastforce
  have l3: "live_db demo_sha d3" by (rule live_same [OF l2 added_same_books(1) [OF a]])
  obtain r d4 where w1: "ledger_record demo_sha EVENT_BUYBACK_USED_PRODUCT ''u1'' ''walkin_buyback'' (wb_id w)
            (PDict (seller_payload piece_offer @
                   [(''karat'', PStr (karat_value K18)), (''weight_grams'', PStr (sd_text (3, 10))),
                    (''buy_price_usd'', PStr (sd_text (2, 500))), (''rate_24k'', PStr (float_text 100)),
                    (''pending_polish'', PBool True)])) d3 = Inr (r, d4)" and l4: "live_db demo_sha d4"
    by (rule demo_record [OF l3])
  have l5: "live_db demo_sha (d4\<lparr>clock := clock d4 + 1\<rparr>)" by (rule live_same [OF l4 tick_same_books])
  obtain r' d5 where w2: "ledger_record demo_sha EVENT_SALE_ON_STALE_RATE_ACK ''u1'' ''walkin_buyback'' (wb_id w)
               (PDict [(''rate_24k'', PStr (float_text (ri_rate closed_info))),
                       (''rate_fetched_at'', PStr (utc_iso (ri_fetched_at closed_info))),
                       (''age_minutes'', PInt (age_minutes (clock d4) (ri_fetched_at closed_info))),
                       (''context'', PStr ''BUYBACK'')]) (d4\<lparr>clock := clock d4 + 1\<rparr>) = Inr (r', d5)"
    using demo_record [OF l5] by blast
  have k: "parse_karat ''K18'' = Inr K18" by (simp add: parse_karat_def parse_enum_def member_of_def karats_def)
  have b: "bi_kind piece_offer = ''USED_PRODUCT''" "bi_karat piece_offer = Some ''K18''" "bi_weight_grams piece_offer = Some (3, 10)"
    "bi_manual_price piece_offer = Some (2, 500)" "bi_expected_rate piece_offer = None" "bi_stale_rate_ack piece_offer = Some (utc_datetime 0)"
    by (simp_all add: piece_offer_def)
  have used: "create_used_product_buyback demo_sha shop_settings closed_info piece_offer ''u1'' ?d2 = Inr (w, d5)"
    using a w1 w2
    by (simp add: create_used_product_buyback_def b k raise_if_def closed_info_parts finish_buyback_def record_stale_rate_ack_def
        requires_ack_def read_clock_def post_buyback_def auto_post_enabled_def coin_sale_parts)
  have "create_buyback demo_sha shop_rates (Some shop_settings) piece_offer ''u1'' closed_db = Inr (w, d5)"
    using used ok
    by (simp add: create_buyback_def parse_enum_def member_of_def buyback_kinds_def b closed_rate_read)
  then show ?thesis by (rule that)
qed

end
