(* ===== verification/Reports.thy ===== *)
theory Reports
  imports Statements_Facts AccountingApi ShopRuns ReceivablesRuns
begin

text \<open>
  The properties of the statements and of the accounting pages, over every database the
  system can be in, with the demo shop's runs as witnesses.
\<close>

section \<open>The statements\<close>

lemma live_parts:
  assumes "live_db sha d"
  shows "ids_ok d" "accounts_ok d" "lines_ok d"
  using live_db_ok(1) [OF assms] by (simp_all add: journal_ok_def)

text \<open>
  C8. The balance sheet balances in every database the system can be in, at every date: what
  it shows as assets is what it shows as liabilities and equity, the earnings of the period
  included, and each side is the replay of the journal lines of its accounts.
\<close>

theorem balance_sheet_balances:
  assumes "live_db sha d"
  shows "bs_balanced (balance_sheet d as_of)
    \<and> bs_total_assets (balance_sheet d as_of) = bs_total_liabilities (balance_sheet d as_of) + bs_total_equity (balance_sheet d as_of)
    \<and> bs_total_assets (balance_sheet d as_of) = type_net d as_of [ASSET]
    \<and> bs_total_liabilities (balance_sheet d as_of) = - type_net d as_of [LIABILITY]"
  using balance_sheet_totals [OF live_parts(2,3) [OF assms], of as_of] type_net_all [OF live_parts(2,3) [OF assms], of as_of]
  by simp

theorem balance_sheet_balances_witness:
  "\<exists>e d. post_entry demo_sha demo_request demo_db = Inr (e, d) \<and> bs_balanced (balance_sheet d (Date 2026 1 31))"
  by (rule demo_posted) (use balance_sheet_balances in blast)

text \<open>The demo entry's date.\<close>

lemma demo_posted_window:
  assumes "post_entry demo_sha demo_request demo_db = Inr (e, d)"
  shows "dates_valid d" "\<forall>f \<in> set (gl_entries d). je_source_type f \<noteq> ''YEAR_CLOSE''"
  using demo_posted_parts [OF assms] by (simp_all add: dates_valid_def valid_date_def days_in_month_def SOURCE_MANUAL_def)



text \<open>
  The cash flow reconciles, opening cash plus the net change being closing cash, exactly
  when the window's lines on the bank accounts move as much in their own currency as in base
  money: so in dollars always, and with an account in pounds not.
\<close>

theorem cash_flow_reconciles_iff:
  assumes "live_db sha d" "dates_valid d" "valid_date start" "1 < toordinal start" "start \<le> until"
  shows "cf_reconciles (cash_flow d start until)
    \<longleftrightarrow> sum_of (\<lambda>(l, e, a). cash_money (cash_account_ids d) (l, a)) (window_lines d start until)
        = sum_of (\<lambda>(l, e, a). cash_base (cash_account_ids d) (l, a)) (window_lines d start until)"
  by (rule reconciles_iff [OF live_parts [OF assms(1)] assms(2-5)])









theorem cash_flow_reconciles_iff_witness:
  "\<exists>e d. post_entry demo_sha demo_request demo_db = Inr (e, d) \<and> cf_reconciles (cash_flow d (Date 2026 1 1) (Date 2026 1 31))"
proof (rule demo_posted)
  fix e d
  assume p: "post_entry demo_sha demo_request demo_db = Inr (e, d)" and l: "live_db demo_sha d"
  have s: "valid_date (Date 2026 1 1)" "1 < toordinal (Date 2026 1 1)" "Date 2026 1 1 \<le> Date 2026 1 31" by code_simp+
  obtain ls where "d = demo_db\<lparr>clock := clock d, uid_next := uid_next d, inv_ledger := inv_ledger d, inv_head := inv_head d,
      gl_entries := gl_entries d, gl_lines := gl_lines d, gl_head := gl_head d, gl_seqs := gl_seqs d\<rparr>"
    using post_entry_full [OF p] by blast
  then have "bank_accounts d = bank_accounts demo_db" by (rule arg_cong [where f = bank_accounts, THEN trans]) simp
  then have c: "cash_account_ids d = []" by (simp add: cash_account_ids_def demo_db_def empty_db_def)
  have "sum_of (\<lambda>(l, e, a). cash_money (cash_account_ids d) (l, a)) (window_lines d (Date 2026 1 1) (Date 2026 1 31))
      = sum_of (\<lambda>(l, e, a). cash_base (cash_account_ids d) (l, a)) (window_lines d (Date 2026 1 1) (Date 2026 1 31))"
    by (rule sum_of_cong) (simp add: c cash_money_def cash_base_def split: prod.splits)
  then have "cf_reconciles (cash_flow d (Date 2026 1 1) (Date 2026 1 31))"
    using cash_flow_reconciles_iff [OF l demo_posted_window(1) [OF p] s] by simp
  with p show ?thesis by blast
qed


text \<open>
  The statement of an account closes with the account's balance: over a window of any
  length its closing balance is what the trial balance nets for the account at the window's
  end, and it is the running balance of its last row.
\<close>

theorem account_statement_ties:
  assumes "live_db sha d" "account_statement d i start until = Inr r" "start \<le> until"
  shows "as_closing_balance r = account_net d until i
    \<and> (if as_rows r = [] then as_closing_balance r = as_opening_balance r
       else ar_running_balance (last (as_rows r)) = as_closing_balance r)"
  using account_statement_closes [OF live_parts(1,3) [OF assms(1)] assms(2,3)] by simp

theorem account_statement_ties_witness:
  "\<exists>e d r. post_entry demo_sha demo_request demo_db = Inr (e, d)
     \<and> account_statement d (uid 0) (Date 2026 1 1) (Date 2026 1 31) = Inr r
     \<and> as_closing_balance r = account_net d (Date 2026 1 31) (uid 0)"
proof (rule demo_posted)
  fix e d
  assume p: "post_entry demo_sha demo_request demo_db = Inr (e, d)" and l: "live_db demo_sha d"
  have "\<exists>a. scalar_one (\<lambda>a. acc_id a = uid 0) (gl_accounts d) = Inr a"
    by (simp add: demo_posted_parts [OF p] demo_db_parts demo_accounts_def demo_account_def scalar_one_def)
  then have "\<exists>r. account_statement d (uid 0) (Date 2026 1 1) (Date 2026 1 31) = Inr r"
    unfolding account_statement_def Let_def by (elim exE) (simp split: prod.split)
  then obtain r where r: "account_statement d (uid 0) (Date 2026 1 1) (Date 2026 1 31) = Inr r" by blast
  have "Date 2026 1 1 \<le> Date 2026 1 31" by (simp add: less_eq_date_def)
  from account_statement_ties [OF l r this] p r show ?thesis by blast
qed

section \<open>The accounting pages\<close>


theorem accounting_needs_role:
  assumes "accounting_call sha u d d'"
  shows "us_role u \<in> {ADMIN, ACCOUNTANT}"
  by (rule accounting_call_role [OF assms])



end
