(* ===== verification/Auth.thy ===== *)
theory Auth
  imports AccountingApi Orders
begin

text \<open>
  Signing in: the tokens of \<open>app/core/security.py\<close>, \<open>get_current_user\<close> of \<open>app/deps.py\<close>, the
  authentication log of \<open>app/core/auth_audit.py\<close>, the lockout of \<open>app/core/login_lockout.py\<close>,
  the handlers of \<open>app/api/auth.py\<close>, \<open>app/api/staff.py\<close> and \<open>app/api/auth_audit.py\<close>.
  \<open>bcrypt\<close> and \<open>python-jose\<close> are a parameter, a record of the functions called; the
  environment's settings another. A login that is refused commits what it logged, and
  a changed password is committed before its token is made, so \<open>login\<close> and \<open>change_password\<close>
  return their outcome, the events they leave to the background and the database;
  a background event is written by \<open>record_auth_event_safe\<close>, at some later moment or never.
\<close>

section \<open>Libraries and configuration\<close>

record claims =
  cl_sub :: "string option"
  cl_exp :: "instant option"
  cl_role :: "string option"
  cl_ver :: "int option"

text \<open>
  What \<open>jose\<close> and \<open>bcrypt\<close> are called for; \<open>None\<close> is an exception of the library. A key
  object is of a type of its own; decoding depends on the time, because of \<open>exp\<close>.
\<close>

record 'k crypto =
  jwk_construct :: "string \<Rightarrow> 'k option"
  jwk_public_key :: "'k \<Rightarrow> 'k"
  jwt_encode_rs256 :: "claims \<Rightarrow> 'k \<Rightarrow> string option"
  jwt_decode_rs256 :: "instant \<Rightarrow> string \<Rightarrow> 'k \<Rightarrow> claims option"
  jwt_encode_hmac :: "claims \<Rightarrow> string \<Rightarrow> string \<Rightarrow> string"
  jwt_decode_hmac :: "instant \<Rightarrow> string \<Rightarrow> string \<Rightarrow> string \<Rightarrow> claims option"
  jwt_header_alg :: "string \<Rightarrow> string option option"
  bcrypt_hashpw :: "string \<Rightarrow> string \<Rightarrow> string"
  bcrypt_checkpw :: "string \<Rightarrow> string \<Rightarrow> bool"

record auth_config =
  ak_jwt_secret :: string
  ak_jwt_algorithm :: string
  ak_jwt_expires_minutes :: int
  ak_jwt_private_key_pem :: string
  ak_jwt_public_key_pem :: string
  ak_jwt_accept_hs256 :: bool
  ak_auth_audit_retention_days :: int

definition us_per_minute :: int where "us_per_minute = 60 * us_per_second"

section \<open>Passwords\<close>

definition DUMMY_PASSWORD_HASH :: string where
  "DUMMY_PASSWORD_HASH = ''$2b$12$F0XlrDdoK9SQYcDP6E319uxuH16F3iYnuCoaHIQjrMk/W1FVQsLE.''"

definition MAX_PASSWORD_BYTES :: nat where "MAX_PASSWORD_BYTES = 72"

text \<open>\<open>PasswordTooLongError\<close> is a \<open>ValueError\<close>, answered as a 422. The salt is \<open>gensalt()\<close>'s.\<close>

definition hash_password :: "'k crypto \<Rightarrow> string \<Rightarrow> string \<Rightarrow> string res" where
  "hash_password cr salt password =
     raise_if (MAX_PASSWORD_BYTES < length password)
       (ValueError (Msg ''Password is too long: it is {} bytes and the limit is {} bytes (accented and non-Latin characters count as more than one).''
          [AInt (int (length password)), AInt (int MAX_PASSWORD_BYTES)]))
       (Inr (bcrypt_hashpw cr password salt))"

definition verify_password :: "'k crypto \<Rightarrow> string \<Rightarrow> string \<Rightarrow> bool" where
  "verify_password cr plain hashed = bcrypt_checkpw cr (take 72 plain) hashed"

section \<open>Tokens\<close>

definition RSA_ALGORITHM :: string where "RSA_ALGORITHM = ''RS256''"
definition HMAC_ALGORITHMS :: "string list" where "HMAC_ALGORITHMS = [''HS256'', ''HS384'', ''HS512'']"

definition shared_secret_algorithm :: "auth_config \<Rightarrow> string" where
  "shared_secret_algorithm cf =
     (if ak_jwt_algorithm cf \<in> set HMAC_ALGORITHMS then ak_jwt_algorithm cf else ''HS256'')"

definition jwk_error :: err where "jwk_error = RuntimeError (Msg ''JWKError'' [])"

definition construct_key :: "'k crypto \<Rightarrow> string \<Rightarrow> 'k res" where
  "construct_key cr pem = (case jwk_construct cr pem of None \<Rightarrow> Inl jwk_error | Some k \<Rightarrow> Inr k)"

definition load_rsa_keys :: "'k crypto \<Rightarrow> string \<Rightarrow> string \<Rightarrow> ('k option \<times> 'k option) res" where
  "load_rsa_keys cr private_pem public_pem =
     bnd (if private_pem \<noteq> [] then bnd (construct_key cr private_pem) (\<lambda>k. Inr (Some k)) else Inr None) (\<lambda>private.
     bnd (if public_pem \<noteq> [] then bnd (construct_key cr public_pem) (\<lambda>k. Inr (Some k))
          else Inr (map_option (jwk_public_key cr) private)) (\<lambda>public.
     Inr (private, public)))"

definition rsa_keys :: "'k crypto \<Rightarrow> auth_config \<Rightarrow> ('k option \<times> 'k option) res" where
  "rsa_keys cr cf = load_rsa_keys cr (ak_jwt_private_key_pem cf) (ak_jwt_public_key_pem cf)"

definition probe_claims :: claims where
  "probe_claims = \<lparr>cl_sub = Some ''startup-self-check'', cl_exp = None, cl_role = None, cl_ver = None\<rparr>"

definition check_jwt_keys :: "'k crypto \<Rightarrow> auth_config \<Rightarrow> instant \<Rightarrow> unit res" where
  "check_jwt_keys cr cf now =
     (case rsa_keys cr cf of
        Inl e \<Rightarrow> Inl (RuntimeError (Msg ''JWT_PRIVATE_KEY / JWT_PUBLIC_KEY is set but is not a readable RSA key in PEM format'' []))
      | Inr (None, public) \<Rightarrow>
          raise_if (\<not> ak_jwt_accept_hs256 cf)
            (RuntimeError (Msg ''JWT_ACCEPT_HS256 is false but JWT_PRIVATE_KEY is not set: sessions would be signed with JWT_SECRET and then refused. Set JWT_PRIVATE_KEY, or leave JWT_ACCEPT_HS256 true until it is.'' []))
         (raise_if (ak_jwt_secret cf = [])
            (RuntimeError (Msg ''JWT_SECRET is empty and JWT_PRIVATE_KEY is not set: there is nothing to sign sessions with'' []))
            (Inr ()))
      | Inr (Some private, public) \<Rightarrow>
          (case jwt_encode_rs256 cr probe_claims private of
             None \<Rightarrow> Inl (RuntimeError (Msg ''JWT_PRIVATE_KEY cannot sign: it is not an RSA private key'' []))
           | Some probe \<Rightarrow>
               raise_if (case public of None \<Rightarrow> True | Some k \<Rightarrow> jwt_decode_rs256 cr now probe k = None)
                 (RuntimeError (Msg ''JWT_PUBLIC_KEY does not match JWT_PRIVATE_KEY'' []))
                 (Inr ())))"

definition create_access_token ::
    "'k crypto \<Rightarrow> auth_config \<Rightarrow> string \<Rightarrow> string \<Rightarrow> int \<Rightarrow> db \<Rightarrow> (string \<times> db) res" where
  "create_access_token cr cf subject role ver d =
     (let (now, d) = read_clock d;
          payload = \<lparr>cl_sub = Some subject, cl_exp = Some (now + ak_jwt_expires_minutes cf * us_per_minute),
                     cl_role = Some role, cl_ver = Some ver\<rparr>
      in bnd (rsa_keys cr cf) (\<lambda>keys.
         case fst keys of
           Some private \<Rightarrow> (case jwt_encode_rs256 cr payload private of None \<Rightarrow> Inl jwk_error | Some t \<Rightarrow> Inr (t, d))
         | None \<Rightarrow> Inr (jwt_encode_hmac cr payload (ak_jwt_secret cf) (shared_secret_algorithm cf), d)))"

text \<open>\<open>None\<close>: a \<open>JWTError\<close>. The header only chooses between the configured verifiers.\<close>

definition decode_token :: "'k crypto \<Rightarrow> auth_config \<Rightarrow> string \<Rightarrow> db \<Rightarrow> (claims option \<times> db) res" where
  "decode_token cr cf token d =
     (case jwt_header_alg cr token of
        None \<Rightarrow> Inr (None, d)
      | Some alg \<Rightarrow>
          bnd (rsa_keys cr cf) (\<lambda>keys.
          if alg = Some RSA_ALGORITHM \<and> snd keys \<noteq> None
          then let (now, d) = read_clock d in Inr (jwt_decode_rs256 cr now token (the (snd keys)), d)
          else let shared = shared_secret_algorithm cf in
            if alg = Some shared \<and> ak_jwt_accept_hs256 cf \<and> ak_jwt_secret cf \<noteq> []
            then let (now, d) = read_clock d in Inr (jwt_decode_hmac cr now token (ak_jwt_secret cf) shared, d)
            else Inr (None, d)))"

definition put_user :: "user \<Rightarrow> db \<Rightarrow> db" where
  "put_user u d = d\<lparr>users := upd_rows (\<lambda>x. us_id x = us_id u) (\<lambda>_. u) (users d)\<rparr>"

text \<open>
  The increment is made on the row, and read back: what else was changed on the user is
  written with it.
\<close>

definition revoke_sessions :: "user \<Rightarrow> db \<Rightarrow> user \<times> db" where
  "revoke_sessions u d =
     (let d = d\<lparr>users := upd_rows (\<lambda>x. us_id x = us_id u)
                 (\<lambda>x. u\<lparr>us_token_version := us_token_version x + 1\<rparr>) (users d)\<rparr>
      in case find (\<lambda>x. us_id x = us_id u) (users d) of
           None \<Rightarrow> (u, d)
         | Some x \<Rightarrow> (u\<lparr>us_token_version := us_token_version x\<rparr>, d))"

definition unauthorized :: "string \<Rightarrow> err" where
  "unauthorized s = HTTPException 401 (Msg s [])"

text \<open>The user a decoded token stands for, if it still does.\<close>

definition claimed_id :: "claims \<Rightarrow> string" where
  "claimed_id p = (case cl_sub p of None \<Rightarrow> [] | Some s \<Rightarrow> s)"

definition claimed_version :: "claims \<Rightarrow> int" where
  "claimed_version p = (case cl_ver p of None \<Rightarrow> 0 | Some v \<Rightarrow> v)"

definition session_user :: "claims \<Rightarrow> db \<Rightarrow> user res" where
  "session_user p d =
     bnd (fetch (unauthorized ''User not found or inactive'') (\<lambda>u. us_id u = claimed_id p) (users d)) (\<lambda>u.
     raise_if (\<not> us_is_active u) (unauthorized ''User not found or inactive'')
    (raise_if (claimed_version p \<noteq> us_token_version u) (unauthorized ''Session expired'')
    (Inr u)))"

definition get_current_user ::
    "'k crypto \<Rightarrow> auth_config \<Rightarrow> string option \<Rightarrow> string option \<Rightarrow> db \<Rightarrow> (user \<times> db) res" where
  "get_current_user cr cf credentials cookie d =
     (let token = (case credentials of Some c \<Rightarrow> Some c | None \<Rightarrow> cookie) in
      raise_if (falsy token) (unauthorized ''Not authenticated'')
     (bnd (decode_token cr cf (the token) d) (\<lambda>(payload, d).
      case payload of
        None \<Rightarrow> Inl (unauthorized ''Invalid token'')
      | Some p \<Rightarrow> bnd (session_user p d) (\<lambda>u. Inr (u, d)))))"

section \<open>The authentication log\<close>

definition EVENT_LOGIN_SUCCESS :: string where "EVENT_LOGIN_SUCCESS = ''LOGIN_SUCCESS''"
definition EVENT_LOGIN_FAILED :: string where "EVENT_LOGIN_FAILED = ''LOGIN_FAILED''"
definition EVENT_LOGOUT :: string where "EVENT_LOGOUT = ''LOGOUT''"
definition EVENT_PASSWORD_CHANGED :: string where "EVENT_PASSWORD_CHANGED = ''PASSWORD_CHANGED''"
definition EVENT_ACCOUNT_LOCKED :: string where "EVENT_ACCOUNT_LOCKED = ''ACCOUNT_LOCKED''"
definition EVENT_ACCOUNT_UNLOCKED :: string where "EVENT_ACCOUNT_UNLOCKED = ''ACCOUNT_UNLOCKED''"

record request =
  rq_x_forwarded_for :: "string option"
  rq_client_host :: "string option"
  rq_user_agent :: "string option"

definition get_client_ip :: "request \<Rightarrow> string option" where
  "get_client_ip rq =
     (let first = (case rq_x_forwarded_for rq of
                     None \<Rightarrow> [] | Some xff \<Rightarrow> strip (takeWhile (\<lambda>c. c \<noteq> CHR '','') xff))
      in if first \<noteq> [] then Some first else rq_client_host rq)"

definition retention_until :: "auth_config \<Rightarrow> instant \<Rightarrow> instant" where
  "retention_until cf now = now + ak_auth_audit_retention_days cf * us_per_day"

record auth_event =
  ev_event_type :: string
  ev_user_id :: "string option"
  ev_claimed_email :: "string option"
  ev_client_ip :: "string option"
  ev_user_agent :: "string option"
  ev_detail :: "string option"

definition append_auth_event :: "(string \<Rightarrow> string) \<Rightarrow> auth_config \<Rightarrow> auth_event \<Rightarrow> db \<Rightarrow> db res" where
  "append_auth_event sha cf ev d =
     (let head = auth_head d; (occurred_at, d) = read_clock d; (k, d) = fresh_uid d;
          row = \<lparr>aa_id = k, aa_event_type = ev_event_type ev, aa_occurred_at = occurred_at, aa_user_id = ev_user_id ev,
                 aa_claimed_email = ev_claimed_email ev, aa_client_ip = ev_client_ip ev,
                 aa_user_agent = ev_user_agent ev, aa_detail = ev_detail ev,
                 aa_retention_until_at = retention_until cf occurred_at,
                 aa_prev_hash = latest_entry_hash head, aa_entry_hash = []\<rparr>
      in bnd (compute_auth_entry_hash sha (latest_entry_hash head) row) (\<lambda>h.
         raise_if (h \<in> set (map aa_entry_hash (auth_log d))) (IntegrityError ''auth_audit_log.entry_hash'')
           (Inr (d\<lparr>auth_log := auth_log d @ [row\<lparr>aa_entry_hash := h\<rparr>],
                   auth_head := \<lparr>latest_entry_hash = h, row_count = Suc (row_count head)\<rparr>\<rparr>))))"

text \<open>In a session of its own, any exception logged and swallowed.\<close>

definition record_auth_event_safe :: "(string \<Rightarrow> string) \<Rightarrow> auth_config \<Rightarrow> auth_event \<Rightarrow> db \<Rightarrow> db" where
  "record_auth_event_safe sha cf ev d = (case append_auth_event sha cf ev d of Inl _ \<Rightarrow> d | Inr d' \<Rightarrow> d')"

section \<open>The lockout\<close>

definition LOCKOUT_THRESHOLD :: nat where "LOCKOUT_THRESHOLD = 10"
definition LOCKOUT_WINDOW :: int where "LOCKOUT_WINDOW = 15 * us_per_minute"
definition LOCKOUT_DURATION :: int where "LOCKOUT_DURATION = 15 * us_per_minute"
definition LOCKOUT_DETAIL :: string where "LOCKOUT_DETAIL = ''Too many failed login attempts. Try again later.''"

definition lower_char :: "char \<Rightarrow> char" where
  "lower_char c = (let n = of_char c :: nat in if 65 \<le> n \<and> n \<le> 90 then char_of (n + 32) else c)"

definition lower :: "string \<Rightarrow> string" where
  "lower s = map lower_char s"

definition normalise_email :: "string \<Rightarrow> string" where
  "normalise_email email = lower (strip email)"

definition claimed :: "string \<Rightarrow> auth_audit_log \<Rightarrow> bool" where
  "claimed email r \<longleftrightarrow> map_option lower (aa_claimed_email r) = Some (normalise_email email)"

text \<open>\<open>func.max\<close> of a column, and what lies after it.\<close>

definition max_at :: "auth_audit_log list \<Rightarrow> instant option" where
  "max_at rows = (case map aa_occurred_at rows of [] \<Rightarrow> None | t # ts \<Rightarrow> Some (fold max ts t))"

definition past :: "instant option \<Rightarrow> instant \<Rightarrow> bool" where
  "past x t = (case x of None \<Rightarrow> True | Some l \<Rightarrow> l < t)"

definition locked_at :: "db \<Rightarrow> string \<Rightarrow> instant \<Rightarrow> bool" where
  "locked_at d email now =
     (let cutoff = now - LOCKOUT_DURATION;
          last_unlock = max_at (filter (\<lambda>r. claimed email r \<and> aa_event_type r = EVENT_ACCOUNT_UNLOCKED
                                              \<and> cutoff < aa_occurred_at r) (auth_log d))
      in \<exists>r \<in> set (auth_log d). claimed email r \<and> aa_event_type r = EVENT_ACCOUNT_LOCKED
           \<and> cutoff < aa_occurred_at r \<and> past last_unlock (aa_occurred_at r))"

definition is_locked :: "string \<Rightarrow> db \<Rightarrow> bool \<times> db" where
  "is_locked email d = (let (now, d) = read_clock d in (locked_at d email now, d))"

definition failures_at :: "db \<Rightarrow> string \<Rightarrow> instant \<Rightarrow> nat" where
  "failures_at d email now =
     (let window_start = now - LOCKOUT_WINDOW;
          last_reset = max_at (filter (\<lambda>r. claimed email r
              \<and> aa_event_type r \<in> {EVENT_LOGIN_SUCCESS, EVENT_ACCOUNT_LOCKED, EVENT_ACCOUNT_UNLOCKED}
              \<and> window_start < aa_occurred_at r) (auth_log d))
      in length (filter (\<lambda>r. claimed email r \<and> aa_event_type r = EVENT_LOGIN_FAILED
              \<and> window_start < aa_occurred_at r \<and> past last_reset (aa_occurred_at r)) (auth_log d)))"

definition consecutive_failures :: "string \<Rightarrow> db \<Rightarrow> nat \<times> db" where
  "consecutive_failures email d = (let (now, d) = read_clock d in (failures_at d email now, d))"

definition failed_login_event :: "string \<Rightarrow> string option \<Rightarrow> string option \<Rightarrow> auth_event" where
  "failed_login_event email ip ua =
     \<lparr>ev_event_type = EVENT_LOGIN_FAILED, ev_user_id = None, ev_claimed_email = Some email, ev_client_ip = ip,
      ev_user_agent = ua, ev_detail = Some ''invalid credentials''\<rparr>"

definition locked_event :: "string \<Rightarrow> string option \<Rightarrow> string option \<Rightarrow> auth_event" where
  "locked_event email ip ua =
     \<lparr>ev_event_type = EVENT_ACCOUNT_LOCKED, ev_user_id = None, ev_claimed_email = Some email, ev_client_ip = ip,
      ev_user_agent = ua,
      ev_detail = Some (str_int (int LOCKOUT_THRESHOLD) @ '' consecutive failed logins; locked for ''
        @ str_int (LOCKOUT_DURATION div us_per_minute) @ '' minutes'')\<rparr>"

text \<open>The writes of one failed login, and the handler that swallows their errors.\<close>

definition write_failed_login ::
    "(string \<Rightarrow> string) \<Rightarrow> auth_config \<Rightarrow> string \<Rightarrow> string option \<Rightarrow> string option \<Rightarrow> db \<Rightarrow> db res" where
  "write_failed_login sha cf email ip ua d =
     bnd (append_auth_event sha cf (failed_login_event email ip ua) d) (\<lambda>d.
     let (n, d) = consecutive_failures email d in
     if LOCKOUT_THRESHOLD \<le> n then append_auth_event sha cf (locked_event email ip ua) d else Inr d)"

definition record_failed_login ::
    "(string \<Rightarrow> string) \<Rightarrow> auth_config \<Rightarrow> string \<Rightarrow> string option \<Rightarrow> string option \<Rightarrow> db \<Rightarrow> db" where
  "record_failed_login sha cf email ip ua d =
     (case write_failed_login sha cf email ip ua d of Inl _ \<Rightarrow> d | Inr d' \<Rightarrow> d')"

definition record_unlock ::
    "(string \<Rightarrow> string) \<Rightarrow> auth_config \<Rightarrow> user \<Rightarrow> user \<Rightarrow> string option \<Rightarrow> string option \<Rightarrow> db \<Rightarrow> db res" where
  "record_unlock sha cf u actor ip ua d =
     append_auth_event sha cf
       \<lparr>ev_event_type = EVENT_ACCOUNT_UNLOCKED, ev_user_id = Some (us_id u), ev_claimed_email = Some (us_email u),
        ev_client_ip = ip, ev_user_agent = ua, ev_detail = Some (''unlocked by admin '' @ us_id actor)\<rparr> d"

section \<open>Login and logout\<close>

fun role_value :: "role \<Rightarrow> string" where
  "role_value ADMIN = ''ADMIN''"
| "role_value CASHIER = ''CASHIER''"
| "role_value ACCOUNTANT = ''ACCOUNTANT''"
| "role_value MANAGER = ''MANAGER''"

text \<open>The response: the token in the body and in the cookie, and the user.\<close>

record token_response =
  tr_access_token :: string
  tr_cookie :: string
  tr_user :: user

definition issue_token :: "'k crypto \<Rightarrow> auth_config \<Rightarrow> user \<Rightarrow> db \<Rightarrow> (token_response \<times> db) res" where
  "issue_token cr cf u d =
     bnd (create_access_token cr cf (us_id u) (role_value (us_role u)) (us_token_version u) d) (\<lambda>(t, d).
     Inr (\<lparr>tr_access_token = t, tr_cookie = t, tr_user = u\<rparr>, d))"

definition user_event :: "string \<Rightarrow> string option \<Rightarrow> string option \<Rightarrow> request \<Rightarrow> string option \<Rightarrow> auth_event" where
  "user_event ty user_id email rq detail =
     \<lparr>ev_event_type = ty, ev_user_id = user_id, ev_claimed_email = email, ev_client_ip = get_client_ip rq,
      ev_user_agent = rq_user_agent rq, ev_detail = detail\<rparr>"

definition login ::
    "(string \<Rightarrow> string) \<Rightarrow> 'k crypto \<Rightarrow> auth_config \<Rightarrow> request \<Rightarrow> string \<Rightarrow> string \<Rightarrow> db
     \<Rightarrow> token_response res \<times> auth_event list \<times> db" where
  "login sha cr cf rq email password d =
     (let client_ip = get_client_ip rq; ua = rq_user_agent rq; (locked, d) = is_locked email d in
      if locked then (Inl (HTTPException 429 (Msg LOCKOUT_DETAIL [])), [], d)
      else (case scalar_one_or_none (\<lambda>u. us_email u = email) (users d) of
              Inl e \<Rightarrow> (Inl e, [], d)
            | Inr found \<Rightarrow>
                let password_ok = verify_password cr password
                      (case found of None \<Rightarrow> DUMMY_PASSWORD_HASH | Some u \<Rightarrow> us_password_hash u) in
                if found = None \<or> \<not> password_ok
                then (Inl (unauthorized ''Invalid credentials''), [], record_failed_login sha cf email client_ip ua d)
                else let u = the found in
                  if \<not> us_is_active u
                  then (Inl (HTTPException 403 (Msg ''Account disabled'' [])),
                        [user_event EVENT_LOGIN_FAILED (Some (us_id u)) (Some email) rq (Some ''account disabled'')], d)
                  else (case issue_token cr cf u d of
                          Inl e \<Rightarrow> (Inl e, [], d)
                        | Inr (resp, d) \<Rightarrow>
                            (Inr resp, [user_event EVENT_LOGIN_SUCCESS (Some (us_id u)) (Some email) rq None], d))))"

definition logout :: "request \<Rightarrow> auth_event list" where
  "logout rq = [user_event EVENT_LOGOUT None None rq None]"

text \<open>The change is committed before the new token is made.\<close>

definition change_password ::
    "'k crypto \<Rightarrow> auth_config \<Rightarrow> request \<Rightarrow> string \<Rightarrow> string \<Rightarrow> string \<Rightarrow> user \<Rightarrow> db
     \<Rightarrow> token_response res \<times> auth_event list \<times> db" where
  "change_password cr cf rq salt current new u d =
     (if \<not> verify_password cr current (us_password_hash u)
      then (Inl (HTTPException 400 (Msg ''Current password is incorrect'' [])), [], d)
      else (case hash_password cr salt new of
              Inl e \<Rightarrow> (Inl e, [], d)
            | Inr h \<Rightarrow>
                let (u, d) = revoke_sessions (u\<lparr>us_password_hash := h\<rparr>) d in
                (case issue_token cr cf u d of
                   Inl e \<Rightarrow> (Inl e, [], d)
                 | Inr (resp, d) \<Rightarrow>
                     (Inr resp, [user_event EVENT_PASSWORD_CHANGED (Some (us_id u)) (Some (us_email u)) rq None], d))))"

section \<open>Staff\<close>

definition EVENT_STAFF_CREATED :: string where "EVENT_STAFF_CREATED = ''STAFF_CREATED''"
definition EVENT_STAFF_UPDATED :: string where "EVENT_STAFF_UPDATED = ''STAFF_UPDATED''"
definition EVENT_STAFF_FORCE_LOGOUT :: string where "EVENT_STAFF_FORCE_LOGOUT = ''STAFF_FORCE_LOGOUT''"

text \<open>Rows are created in the order of the table, so newest first is that order reversed.\<close>

definition list_staff :: "user \<Rightarrow> db \<Rightarrow> user list res" where
  "list_staff actor d = bnd (require_admin actor) (\<lambda>_. Inr (rev (filter (\<lambda>u. us_role u = CASHIER) (users d))))"

definition create_staff ::
    "(string \<Rightarrow> string) \<Rightarrow> 'k crypto \<Rightarrow> string \<Rightarrow> string \<Rightarrow> string \<Rightarrow> string \<Rightarrow> user \<Rightarrow> db \<Rightarrow> (user \<times> db) res" where
  "create_staff sha cr salt email name password actor d =
     bnd (require_admin actor) (\<lambda>_.
     bnd (scalar_one_or_none (\<lambda>u. us_email u = email) (users d)) (\<lambda>existing.
     raise_if (existing \<noteq> None) (HTTPException 400 (Msg ''Email already in use'' []))
    (bnd (hash_password cr salt password) (\<lambda>h.
     let (k, d) = fresh_uid d;
         u = \<lparr>us_id = k, us_email = email, us_name = name, us_password_hash = h, us_role = CASHIER,
              us_is_active = True, us_token_version = 0\<rparr>;
         d = d\<lparr>users := users d @ [u]\<rparr> in
     bnd (ledger_record sha EVENT_STAFF_CREATED (us_id actor) ''user'' (us_id u)
            (PDict [(''email'', PStr (us_email u)), (''name'', PStr (us_name u)),
                    (''role'', PStr (role_value (us_role u))), (''is_active'', PBool (us_is_active u))]) d) (\<lambda>(_, d).
     Inr (u, d))))))"

record staff_update =
  su_name :: "string option"
  su_password :: "string option"
  su_is_active :: "bool option"

definition staff_fields :: "user \<Rightarrow> (string \<times> pyval) list" where
  "staff_fields u = [(''name'', PStr (us_name u)), (''is_active'', PBool (us_is_active u)),
                     (''password_hash'', PStr (us_password_hash u))]"

definition mask_hash :: "(string \<times> pyval) list \<Rightarrow> (string \<times> pyval) list" where
  "mask_hash diff =
     map (\<lambda>(k, v). (k, if k = ''password_hash'' then PDict [(''from'', PStr ''***''), (''to'', PStr ''***'')] else v)) diff"

definition change_staff :: "staff_update \<Rightarrow> string option \<Rightarrow> user \<Rightarrow> db \<Rightarrow> user \<times> db" where
  "change_staff b new_hash u d =
     (let u = (case su_name b of None \<Rightarrow> u | Some n \<Rightarrow> u\<lparr>us_name := n\<rparr>);
          (u, d) = (case new_hash of None \<Rightarrow> (u, d) | Some h \<Rightarrow> revoke_sessions (u\<lparr>us_password_hash := h\<rparr>) d)
      in case su_is_active b of
           None \<Rightarrow> (u, d)
         | Some x \<Rightarrow>
             let (u, d) = (if us_is_active u \<and> \<not> x then revoke_sessions u d else (u, d))
             in (u\<lparr>us_is_active := x\<rparr>, d))"

definition find_cashier :: "string \<Rightarrow> db \<Rightarrow> user res" where
  "find_cashier i d = fetch (HTTPException 404 (Msg ''Staff not found'' []))
     (\<lambda>u. us_id u = i \<and> us_role u = CASHIER) (users d)"

definition update_staff ::
    "(string \<Rightarrow> string) \<Rightarrow> 'k crypto \<Rightarrow> string \<Rightarrow> string \<Rightarrow> staff_update \<Rightarrow> user \<Rightarrow> db \<Rightarrow> (user \<times> db) res" where
  "update_staff sha cr salt i b actor d =
     bnd (require_admin actor) (\<lambda>_.
     bnd (find_cashier i d) (\<lambda>u0.
     bnd (case su_password b of None \<Rightarrow> Inr None | Some p \<Rightarrow> bnd (hash_password cr salt p) (\<lambda>h. Inr (Some h))) (\<lambda>new_hash.
     let (u, d) = change_staff b new_hash u0 d;
         d = put_user u d;
         diff = mask_hash (field_diff (staff_fields u0) (staff_fields u)) in
     if diff = [] then Inr (u, d)
     else bnd (ledger_record sha EVENT_STAFF_UPDATED (us_id actor) ''user'' (us_id u)
                 (PDict [(''diff'', PDict diff)]) d) (\<lambda>(_, d). Inr (u, d)))))"

definition delete_staff :: "(string \<Rightarrow> string) \<Rightarrow> string \<Rightarrow> user \<Rightarrow> db \<Rightarrow> db res" where
  "delete_staff sha i actor d =
     bnd (require_admin actor) (\<lambda>_.
     bnd (find_cashier i d) (\<lambda>u.
     if us_is_active u
     then let (u, d) = revoke_sessions (u\<lparr>us_is_active := False\<rparr>) d in
       bnd (ledger_record sha EVENT_STAFF_UPDATED (us_id actor) ''user'' (us_id u)
              (PDict [(''diff'', PDict [(''is_active'', PDict [(''from'', PBool True), (''to'', PBool False)])])]) d)
         (\<lambda>(_, d). Inr d)
     else Inr d))"

definition find_staff :: "string \<Rightarrow> db \<Rightarrow> user res" where
  "find_staff i d = fetch (HTTPException 404 (Msg ''Staff not found'' [])) (\<lambda>u. us_id u = i) (users d)"

definition unlock_staff :: "(string \<Rightarrow> string) \<Rightarrow> auth_config \<Rightarrow> request \<Rightarrow> string \<Rightarrow> user \<Rightarrow> db \<Rightarrow> db res" where
  "unlock_staff sha cf rq i actor d =
     bnd (require_admin actor) (\<lambda>_.
     bnd (find_staff i d) (\<lambda>u.
     record_unlock sha cf u actor (get_client_ip rq) (rq_user_agent rq) d))"

definition force_logout_staff :: "(string \<Rightarrow> string) \<Rightarrow> string \<Rightarrow> user \<Rightarrow> db \<Rightarrow> db res" where
  "force_logout_staff sha i actor d =
     bnd (require_admin actor) (\<lambda>_.
     bnd (find_staff i d) (\<lambda>u.
     let (u, d) = revoke_sessions u d in
     bnd (ledger_record sha EVENT_STAFF_FORCE_LOGOUT (us_id actor) ''user'' (us_id u)
            (PDict [(''email'', PStr (us_email u)),
                    (''token_version'', PDict [(''from'', PInt (us_token_version u - 1)),
                                               (''to'', PInt (us_token_version u))])]) d) (\<lambda>(_, d). Inr d)))"

section \<open>Reading the log\<close>

record auth_filter =
  af_event_type :: string
  af_user_id :: string
  af_claimed_email :: string
  af_client_ip :: string
  af_since :: "instant option"
  af_until :: "instant option"

definition auth_row_matches :: "auth_filter \<Rightarrow> auth_audit_log \<Rightarrow> bool" where
  "auth_row_matches f r \<longleftrightarrow>
     (af_event_type f = [] \<or> aa_event_type r = af_event_type f)
     \<and> (af_user_id f = [] \<or> aa_user_id r = Some (af_user_id f))
     \<and> (af_claimed_email f = [] \<or> aa_claimed_email r = Some (af_claimed_email f))
     \<and> (af_client_ip f = [] \<or> aa_client_ip r = Some (af_client_ip f))
     \<and> (case af_since f of None \<Rightarrow> True | Some t \<Rightarrow> t \<le> aa_occurred_at r)
     \<and> (case af_until f of None \<Rightarrow> True | Some t \<Rightarrow> aa_occurred_at r \<le> t)"

definition page_of :: "nat \<Rightarrow> nat \<Rightarrow> 'r list \<Rightarrow> 'r list" where
  "page_of page page_size rows = take page_size (drop ((page - 1) * page_size) rows)"

definition list_auth_audit ::
    "auth_filter \<Rightarrow> nat \<Rightarrow> nat \<Rightarrow> user \<Rightarrow> db \<Rightarrow> (auth_audit_log list \<times> nat) res" where
  "list_auth_audit f page page_size actor d =
     bnd (require_admin actor) (\<lambda>_.
     let rows = filter (auth_row_matches f) (auth_log d) in
     Inr (page_of page page_size (sort_key (\<lambda>r. - aa_occurred_at r) rows), length rows))"

record auth_verify_out =
  av_report :: chain_report
  av_head_row_count :: nat
  av_head_latest_hash :: string
  av_computed_latest_hash :: string
  av_head_matches :: bool

definition verify_auth_audit :: "(string \<Rightarrow> string) \<Rightarrow> user \<Rightarrow> db \<Rightarrow> auth_verify_out res" where
  "verify_auth_audit sha actor d =
     bnd (require_admin actor) (\<lambda>_.
     let rows = sort_key (\<lambda>r. (aa_occurred_at r, aa_id r)) (auth_log d) in
     bnd (verify_auth_chain sha rows) (\<lambda>result.
     let head = auth_head d;
         computed_latest = (if rows = [] then ''GENESIS'' else aa_entry_hash (last rows)) in
     Inr \<lparr>av_report = result, av_head_row_count = row_count head, av_head_latest_hash = latest_entry_hash head,
          av_computed_latest_hash = computed_latest,
          av_head_matches = (latest_entry_hash head = computed_latest \<and> row_count head = length rows)\<rparr>))"

end
