(* ===== verification/Auth_Facts.thy ===== *)
theory Auth_Facts
  imports Auth
begin

text \<open>
  What signing in guarantees, over every sequence of the handlers with background writes and
  other requests in between: the log's hash chain verifies; an email is locked at most once
  per ten failed logins; a lock holds for fifteen minutes, not more and not less, unless an
  admin lifts it; a wrong password gets the same answer whether or not the account exists;
  a session once revoked never works again; a configuration that passes the start-up check
  accepts the tokens it issues.
\<close>

section \<open>The log\<close>

definition auth_ok :: "(string \<Rightarrow> string) \<Rightarrow> db \<Rightarrow> bool" where
  "auth_ok sha d \<longleftrightarrow> ac.linked sha GENESIS_HASH (auth_log d)
     \<and> latest_entry_hash (auth_head d) = (if auth_log d = [] then GENESIS_HASH else aa_entry_hash (last (auth_log d)))
     \<and> row_count (auth_head d) = length (auth_log d)
     \<and> sorted_wrt (<) (map aa_occurred_at (auth_log d)) \<and> (\<forall>r \<in> set (auth_log d). aa_occurred_at r < clock d)"

lemma auth_ok_empty: "auth_ok sha (empty_db t)"
  by (simp add: auth_ok_def empty_db_def)

lemma append_auth_event_steps:
  assumes "append_auth_event sha cf ev d = Inr d'"
  obtains r where "auth_log d' = auth_log d @ [r]"
    "clock d' = clock d + 1 \<and> users d' = users d \<and> uid_next d' = Suc (uid_next d)"
    "aa_event_type r = ev_event_type ev" "aa_claimed_email r = ev_claimed_email ev" "aa_occurred_at r = clock d"
    "aa_prev_hash r = latest_entry_hash (auth_head d)" "latest_entry_hash (auth_head d) \<noteq> []"
    "aa_entry_hash r = sha (chain_blob (aa_prev_hash r) (auth_chained r))"
    "auth_head d' = \<lparr>latest_entry_hash = aa_entry_hash r, row_count = Suc (row_count (auth_head d))\<rparr>"
proof -
  let ?p = "latest_entry_hash (auth_head d)"
  let ?row = "\<lambda>h. \<lparr>aa_id = uid (uid_next d), aa_event_type = ev_event_type ev, aa_occurred_at = clock d, aa_user_id = ev_user_id ev,
     aa_claimed_email = ev_claimed_email ev, aa_client_ip = ev_client_ip ev, aa_user_agent = ev_user_agent ev,
     aa_detail = ev_detail ev, aa_retention_until_at = retention_until cf (clock d), aa_prev_hash = ?p, aa_entry_hash = h\<rparr>"
  obtain h where h: "compute_auth_entry_hash sha ?p (?row []) = Inr h"
    and d': "d' = d\<lparr>clock := clock d + 1, uid_next := Suc (uid_next d), auth_log := auth_log d @ [?row h],
               auth_head := \<lparr>latest_entry_hash = h, row_count = Suc (row_count (auth_head d))\<rparr>\<rparr>"
    using assms by (auto simp: append_auth_event_def Let_def fresh_uid_def read_clock_def res_simps)
  have "?p \<noteq> []" "h = sha (chain_blob ?p (auth_chained (?row [])))"
    using h by (auto simp: compute_auth_entry_hash_def compute_hash_def res_simps)
  moreover have "auth_chained (?row []) = auth_chained (?row h)" by (simp add: auth_chained_def)
  ultimately show ?thesis using that [of "?row h"] d' by simp
qed

lemma append_auth_event_ok:
  assumes "append_auth_event sha cf ev d = Inr d'" "auth_ok sha d"
  shows "auth_ok sha d'"
  using assms(1)
proof (cases rule: append_auth_event_steps)
  case (1 r)
  have "ac.linked sha GENESIS_HASH (auth_log d')"
    unfolding 1(1) ac.linked_append using assms(2) 1(6-8) by (simp add: auth_ok_def)
  then show ?thesis using assms(2) 1(1,2,5,9) by (auto simp: auth_ok_def sorted_wrt_append)
qed

text \<open>Nothing else touches the log or its head; the clock only moves forward.\<close>

definition same_auth :: "db \<Rightarrow> db \<Rightarrow> bool" where
  "same_auth d d' \<longleftrightarrow> auth_log d' = auth_log d \<and> auth_head d' = auth_head d \<and> clock d \<le> clock d'
     \<and> uid_next d \<le> uid_next d'"

lemma same_auth_refl [simp]: "same_auth d d"
  by (simp add: same_auth_def)

lemma same_auth_trans: "same_auth a b \<Longrightarrow> same_auth b c \<Longrightarrow> same_auth a c"
  by (auto simp: same_auth_def)

lemma same_auth_ok: "same_auth d d' \<Longrightarrow> auth_ok sha d \<Longrightarrow> auth_ok sha d'"
  by (auto simp: same_auth_def auth_ok_def intro: less_le_trans)

lemma ledger_same_auth:
  assumes "ledger_record sha ev ac rt ri p d = Inr (r, d')"
  shows "same_auth d d'" "users d' = users d"
  by (subst ledger_record_frame(1) [OF assms], simp add: same_auth_def)+

lemma revoke_same_auth: "revoke_sessions u d = (u', d') \<Longrightarrow> same_auth d d'"
  by (auto simp: revoke_sessions_def same_auth_def Let_def split: option.split_asm)

text \<open>The two questions are answered from the log alone.\<close>

lemma answers_cong:
  assumes "auth_log d' = auth_log d"
  shows "locked_at d' e now = locked_at d e now" "failures_at d' e now = failures_at d e now"
  by (simp_all add: locked_at_def failures_at_def assms)

lemma is_locked_eq [simp]: "is_locked e d = (locked_at d e (clock d), d\<lparr>clock := clock d + 1\<rparr>)"
  by (simp add: is_locked_def read_clock_def answers_cong [of "d\<lparr>clock := clock d + 1\<rparr>" d])

lemma consecutive_failures_eq [simp]:
  "consecutive_failures e d = (failures_at d e (clock d), d\<lparr>clock := clock d + 1\<rparr>)"
  by (simp add: consecutive_failures_def read_clock_def answers_cong [of "d\<lparr>clock := clock d + 1\<rparr>" d])

lemma tick_same_auth [simp]: "same_auth d (d\<lparr>clock := clock d + 1\<rparr>)"
  by (simp add: same_auth_def)

lemma create_access_token_frame:
  assumes "create_access_token cr cf i r v d = Inr (t, d')"
  shows "d' = d\<lparr>clock := clock d + 1\<rparr>"
proof -
  obtain keys where "rsa_keys cr cf = Inr keys"
    using assms by (auto simp: create_access_token_def read_clock_def Let_def bnd_eq_Inr)
  then show ?thesis
    using assms by (cases "fst keys") (auto simp: create_access_token_def read_clock_def Let_def split: option.split_asm)
qed

lemma issue_same_auth: "issue_token cr cf u d = Inr (t, d') \<Longrightarrow> same_auth d d' \<and> users d' = users d"
  by (auto simp: issue_token_def res_simps dest!: create_access_token_frame)

lemma decode_token_frame:
  assumes "decode_token cr cf t d = Inr (p, d')"
  shows "d' = d \<or> d' = d\<lparr>clock := clock d + 1\<rparr>"
proof (cases "jwt_header_alg cr t")
  case (Some alg)
  obtain keys where k: "rsa_keys cr cf = Inr keys" using assms Some by (auto simp: decode_token_def bnd_eq_Inr)
  show ?thesis using assms unfolding decode_token_def Some k by (auto simp: read_clock_def Let_def split: if_split_asm)
qed (use assms in \<open>simp add: decode_token_def\<close>)

lemma session_user_row:
  assumes "session_user p d = Inr u"
  shows "filter (\<lambda>x. us_id x = claimed_id p) (users d) = [u]" "us_is_active u" "claimed_version p = us_token_version u"
  using assms by (auto simp: session_user_def res_simps)

lemma current_user_steps:
  assumes "get_current_user cr cf c k d = Inr (u, d')"
  obtains p t where "decode_token cr cf t d = Inr (Some p, d')" "session_user p d' = Inr u"
proof -
  obtain t where "bnd (decode_token cr cf t d) (\<lambda>(payload, d).
      case payload of
        None \<Rightarrow> Inl (unauthorized ''Invalid token'')
      | Some p \<Rightarrow> bnd (session_user p d) (\<lambda>u. Inr (u, d))) = Inr (u, d')"
    using assms unfolding get_current_user_def Let_def raise_if_eq_Inr by blast
  then obtain r where "decode_token cr cf t d = Inr r" "(case fst r of
        None \<Rightarrow> Inl (unauthorized ''Invalid token'')
      | Some p \<Rightarrow> bnd (session_user p (snd r)) (\<lambda>u. Inr (u, snd r))) = Inr (u, d')"
    by (rule bnd_InrE) (auto simp: case_prod_beta)
  then show ?thesis using that [of t] by (cases r; cases "fst r") (auto simp: bnd_eq_Inr)
qed

lemma current_user_frame:
  assumes "get_current_user cr cf c k d = Inr (u, d')"
  shows "same_auth d d'" "users d' = users d" "u \<in> set (users d)"
proof -
  obtain p t where p: "decode_token cr cf t d = Inr (Some p, d')" "session_user p d' = Inr u"
    using assms by (rule current_user_steps)
  show "same_auth d d'" and us: "users d' = users d" using decode_token_frame [OF p(1)] by auto
  show "u \<in> set (users d)" using session_user_row(1) [OF p(2)] us by (auto simp: filter_eq_Cons_iff)
qed

section \<open>The handlers as a state machine\<close>

text \<open>An email as \<open>EmailStr\<close> lets it through: no space around it.\<close>

definition email_valid :: "string \<Rightarrow> bool" where
  "email_valid e \<longleftrightarrow> strip e = e"

definition background_events :: "string set" where
  "background_events = {EVENT_LOGIN_SUCCESS, EVENT_LOGIN_FAILED, EVENT_LOGOUT, EVENT_PASSWORD_CHANGED}"

inductive auth_step :: "(string \<Rightarrow> string) \<Rightarrow> 'k crypto \<Rightarrow> auth_config \<Rightarrow> db \<Rightarrow> db \<Rightarrow> bool" for sha cr cf where
  login: "login sha cr cf rq e p d = (out, evs, d') \<Longrightarrow> email_valid e \<Longrightarrow> auth_step sha cr cf d d'"
| background: "ev_event_type ev \<in> background_events \<Longrightarrow> auth_step sha cr cf d (record_auth_event_safe sha cf ev d)"
| changed: "get_current_user cr cf c k d = Inr (u, d1) \<Longrightarrow> change_password cr cf rq salt cur new u d1 = (out, evs, d')
    \<Longrightarrow> auth_step sha cr cf d d'"
| hired: "create_staff sha cr salt e n p actor d = Inr (u, d') \<Longrightarrow> auth_step sha cr cf d d'"
| updated: "update_staff sha cr salt i b actor d = Inr (u, d') \<Longrightarrow> auth_step sha cr cf d d'"
| deleted: "delete_staff sha i actor d = Inr d' \<Longrightarrow> auth_step sha cr cf d d'"
| unlocked: "unlock_staff sha cf rq i actor d = Inr d' \<Longrightarrow> auth_step sha cr cf d d'"
| forced_out: "force_logout_staff sha i actor d = Inr d' \<Longrightarrow> auth_step sha cr cf d d'"
| elsewhere: "same_auth d d' \<Longrightarrow> users d' = users d \<Longrightarrow> auth_step sha cr cf d d'"

text \<open>A login writes nothing, or one failure, or a failure and a lock.\<close>

definition failure_written :: "(string \<Rightarrow> string) \<Rightarrow> auth_config \<Rightarrow> string \<Rightarrow> db \<Rightarrow> db \<Rightarrow> bool" where
  "failure_written sha cf e d d' \<longleftrightarrow> (\<exists>ip ua d1. append_auth_event sha cf (failed_login_event e ip ua) d = Inr d1
     \<and> (failures_at d1 e (clock d1) < LOCKOUT_THRESHOLD \<and> d' = d1\<lparr>clock := clock d1 + 1\<rparr>
        \<or> LOCKOUT_THRESHOLD \<le> failures_at d1 e (clock d1)
          \<and> append_auth_event sha cf (locked_event e ip ua) (d1\<lparr>clock := clock d1 + 1\<rparr>) = Inr d'))"

lemma record_failed_login_cases:
  "record_failed_login sha cf e ip ua d = d \<or> failure_written sha cf e d (record_failed_login sha cf e ip ua d)"
proof (cases "write_failed_login sha cf e ip ua d")
  case (Inr d')
  then obtain x where x: "append_auth_event sha cf (failed_login_event e ip ua) d = Inr x"
    "(if LOCKOUT_THRESHOLD \<le> failures_at x e (clock x)
      then append_auth_event sha cf (locked_event e ip ua) (x\<lparr>clock := clock x + 1\<rparr>)
      else Inr (x\<lparr>clock := clock x + 1\<rparr>)) = Inr d'"
    by (auto simp: write_failed_login_def bnd_eq_Inr)
  have "failure_written sha cf e d d'"
  proof (cases "LOCKOUT_THRESHOLD \<le> failures_at x e (clock x)")
    case True
    then show ?thesis using x unfolding failure_written_def by auto
  next
    case False
    then have "d' = x\<lparr>clock := clock x + 1\<rparr>" using x(2) by simp
    then show ?thesis using x(1) False unfolding failure_written_def not_le by blast
  qed
  then show ?thesis by (simp add: record_failed_login_def Inr)
qed (simp add: record_failed_login_def)

lemma login_cases:
  assumes "login sha cr cf rq e p d = (out, evs, d')"
  shows "same_auth d d' \<and> users d' = users d
    \<or> \<not> locked_at d e (clock d) \<and> failure_written sha cf e (d\<lparr>clock := clock d + 1\<rparr>) d'"
proof -
  let ?d = "d\<lparr>clock := clock d + 1\<rparr>" and ?r = "record_failed_login sha cf e (get_client_ip rq) (rq_user_agent rq)"
  consider "d' = ?d" | "\<not> locked_at d e (clock d)" "d' = ?r ?d"
    | u resp where "issue_token cr cf u ?d = Inr (resp, d')"
    using assms by (auto simp: login_def Let_def split: if_split_asm sum.split_asm prod.split_asm)
  then show ?thesis
  proof cases
    case 2
    then show ?thesis using record_failed_login_cases [of sha cf e "get_client_ip rq" "rq_user_agent rq" ?d]
      by (auto simp: same_auth_def)
  next
    case 3
    then show ?thesis using issue_same_auth [OF 3] same_auth_trans [OF tick_same_auth [of d]] by simp
  qed simp
qed

text \<open>Every step, as what it does to the log.\<close>

lemma record_safe_cases:
  "record_auth_event_safe sha cf ev d = d \<or> append_auth_event sha cf ev d = Inr (record_auth_event_safe sha cf ev d)"
  by (cases "append_auth_event sha cf ev d") (simp_all add: record_auth_event_safe_def)

lemma change_password_frame:
  assumes "change_password cr cf rq salt cur new u d = (out, evs, d')"
  shows "same_auth d d'"
  using assms
  by (auto simp: change_password_def Let_def split: prod.split_asm if_split_asm sum.split_asm
      dest!: revoke_same_auth issue_same_auth intro: same_auth_trans)

lemma change_staff_same_auth: "change_staff b h u d = (u', d') \<Longrightarrow> same_auth d d'"
  by (auto simp: change_staff_def Let_def split: option.split_asm prod.split_asm if_split_asm
      dest!: revoke_same_auth intro: same_auth_trans)

lemma put_user_same_auth [simp]: "same_auth d (put_user u d)"
  by (simp add: put_user_def same_auth_def)

lemma staff_same_auth:
  "create_staff sha cr salt e n p actor d = Inr (u, d') \<Longrightarrow> same_auth d d'"
  "update_staff sha cr salt i b actor d = Inr (u', d') \<Longrightarrow> same_auth d d'"
  "delete_staff sha i actor d = Inr d' \<Longrightarrow> same_auth d d'"
  "force_logout_staff sha i actor d = Inr d' \<Longrightarrow> same_auth d d'"
proof -
  show "same_auth d d'" if c: "create_staff sha cr salt e n p actor d = Inr (u, d')"
  proof -
    obtain y pl r where "ledger_record sha EVENT_STAFF_CREATED (us_id actor) ''user'' (us_id u) pl
        (d\<lparr>uid_next := Suc (uid_next d), users := users d @ [y]\<rparr>) = Inr (r, d')"
      using c unfolding create_staff_def by (auto simp: res_simps Let_def fresh_uid_def)
    from ledger_same_auth(1) [OF this] show ?thesis by (simp add: same_auth_def)
  qed
  show "same_auth d d'" if c: "update_staff sha cr salt i b actor d = Inr (u', d')"
  proof -
    obtain u0 h v d1 where v: "change_staff b h u0 d = (v, d1)"
      and l: "d' = put_user v d1 \<or> (\<exists>pl r. ledger_record sha EVENT_STAFF_UPDATED (us_id actor) ''user'' (us_id v) pl (put_user v d1) = Inr (r, d'))"
      using c unfolding update_staff_def by (auto simp: res_simps Let_def split: if_split_asm prod.split_asm) blast+
    have "same_auth d (put_user v d1)"
      using change_staff_same_auth [OF v] put_user_same_auth by (rule same_auth_trans)
    then show ?thesis using l ledger_same_auth(1) same_auth_trans by blast
  qed
  show "same_auth d d'" if c: "delete_staff sha i actor d = Inr d'"
  proof (cases "d' = d")
    case False
    obtain u v d1 pl r where "revoke_sessions u d = (v, d1)"
        "ledger_record sha EVENT_STAFF_UPDATED (us_id actor) ''user'' (us_id v) pl d1 = Inr (r, d')"
      using c False unfolding delete_staff_def by (auto simp: res_simps Let_def split: if_split_asm)
    then show ?thesis using ledger_same_auth(1) revoke_same_auth same_auth_trans by blast
  qed simp
  show "same_auth d d'" if c: "force_logout_staff sha i actor d = Inr d'"
  proof -
    obtain u v d1 pl r where "revoke_sessions u d = (v, d1)"
        "ledger_record sha EVENT_STAFF_FORCE_LOGOUT (us_id actor) ''user'' (us_id v) pl d1 = Inr (r, d')"
      using c unfolding force_logout_staff_def by (auto simp: res_simps Let_def)
    then show ?thesis using ledger_same_auth(1) revoke_same_auth same_auth_trans by blast
  qed
qed

lemma auth_step_log:
  assumes "auth_step sha cr cf d d'"
  obtains (same) "same_auth d d'"
  | (event) ev where "append_auth_event sha cf ev d = Inr d'" "ev_event_type ev \<in> background_events \<union> {EVENT_ACCOUNT_UNLOCKED}"
  | (failed) e where "email_valid e" "\<not> locked_at d e (clock d)" "failure_written sha cf e (d\<lparr>clock := clock d + 1\<rparr>) d'"
  using assms
proof (cases rule: auth_step.cases)
  case (login rq e p out evs)
  from login_cases [OF login(1)] show ?thesis using same failed [OF login(2)] by blast
next
  case (background ev)
  then show ?thesis using record_safe_cases [of sha cf ev d] same same_auth_refl event [of ev] by auto
next
  case (changed c k u d1 rq salt cur new out evs)
  have "same_auth d d'"
    by (rule same_auth_trans [OF current_user_frame(1) [OF changed(1)] change_password_frame [OF changed(2)]])
  then show ?thesis by (rule same)
next
  case (unlocked rq i actor)
  then obtain ev where "append_auth_event sha cf ev d = Inr d'" "ev_event_type ev = EVENT_ACCOUNT_UNLOCKED"
    by (auto simp: unlock_staff_def record_unlock_def res_simps)
  then show ?thesis using event [of ev] by simp
qed (rule same, erule staff_same_auth)+

lemma failure_written_ok:
  assumes "failure_written sha cf e d d'" "auth_ok sha d"
  shows "auth_ok sha d'"
proof -
  obtain ip ua d1 where f: "append_auth_event sha cf (failed_login_event e ip ua) d = Inr d1"
    "d' = d1\<lparr>clock := clock d1 + 1\<rparr> \<or> append_auth_event sha cf (locked_event e ip ua) (d1\<lparr>clock := clock d1 + 1\<rparr>) = Inr d'"
    using assms(1) by (auto simp: failure_written_def)
  have "auth_ok sha (d1\<lparr>clock := clock d1 + 1\<rparr>)"
    by (rule same_auth_ok [OF tick_same_auth append_auth_event_ok [OF f(1) assms(2)]])
  then show ?thesis using f(2) append_auth_event_ok by blast
qed

lemma auth_step_ok:
  assumes "auth_step sha cr cf d d'" "auth_ok sha d"
  shows "auth_ok sha d'"
  using assms(1)
proof (cases rule: auth_step_log)
  case same
  then show ?thesis using same_auth_ok assms(2) by blast
next
  case (event ev)
  then show ?thesis using append_auth_event_ok assms(2) by blast
next
  case (failed e)
  then show ?thesis using failure_written_ok same_auth_ok [OF tick_same_auth assms(2)] by blast
qed

lemma auth_reach_ok: "(auth_step sha cr cf)\<^sup>*\<^sup>* d d' \<Longrightarrow> auth_ok sha d \<Longrightarrow> auth_ok sha d'"
  by (induction rule: rtranclp_induct) (auto intro: auth_step_ok)

section \<open>Ten failures a lock\<close>

definition failed_row :: "string \<Rightarrow> auth_audit_log \<Rightarrow> bool" where
  "failed_row e r \<longleftrightarrow> claimed e r \<and> aa_event_type r = EVENT_LOGIN_FAILED"

definition locked_row :: "string \<Rightarrow> auth_audit_log \<Rightarrow> bool" where
  "locked_row e r \<longleftrightarrow> claimed e r \<and> aa_event_type r = EVENT_ACCOUNT_LOCKED"

definition unlocked_row :: "string \<Rightarrow> auth_audit_log \<Rightarrow> bool" where
  "unlocked_row e r \<longleftrightarrow> claimed e r \<and> aa_event_type r = EVENT_ACCOUNT_UNLOCKED"

lemmas event_names = EVENT_LOGIN_SUCCESS_def EVENT_LOGIN_FAILED_def EVENT_LOGOUT_def EVENT_PASSWORD_CHANGED_def
  EVENT_ACCOUNT_LOCKED_def EVENT_ACCOUNT_UNLOCKED_def

text \<open>Whose row it is depends on the email as it is compared.\<close>

lemma same_email:
  assumes "normalise_email e = normalise_email f"
  shows "claimed e = claimed f" "locked_at d e now = locked_at d f now" "failures_at d e now = failures_at d f now"
proof -
  show c: "claimed e = claimed f" by (rule ext) (simp add: claimed_def assms)
  show "locked_at d e now = locked_at d f now" "failures_at d e now = failures_at d f now"
    by (simp_all add: locked_at_def failures_at_def c)
qed

lemma claimed_new:
  "email_valid f \<Longrightarrow> aa_claimed_email r = Some f \<Longrightarrow> claimed e r \<longleftrightarrow> normalise_email e = normalise_email f"
  by (auto simp: claimed_def normalise_email_def email_valid_def)

lemma max_at_eq: "max_at rows = (if rows = [] then None else Some (Max (aa_occurred_at ` set rows)))"
proof (cases rows)
  case (Cons r rs)
  then show ?thesis
    using Max.set_eq_fold [of "aa_occurred_at r" "map aa_occurred_at rs"] by (simp add: max_at_def)
qed (simp add: max_at_def)

lemma after_max: "past (max_at rows) t \<longleftrightarrow> (\<forall>r \<in> set rows. aa_occurred_at r < t)"
  by (auto simp: max_at_eq past_def)

lemma times_distinct:
  assumes "auth_ok sha d" "r \<in> set (auth_log d)" "s \<in> set (auth_log d)" "aa_occurred_at r = aa_occurred_at s"
  shows "r = s"
proof -
  have "distinct (map aa_occurred_at (auth_log d))"
    using assms(1) by (simp add: auth_ok_def strict_sorted_iff)
  then show ?thesis using assms(2-4) by (simp add: distinct_map inj_on_def)
qed

definition tail_failures :: "string \<Rightarrow> auth_audit_log list \<Rightarrow> nat" where
  "tail_failures e rows = length (filter (failed_row e) (takeWhile (\<lambda>r. \<not> locked_row e r) (rev rows)))"

lemma tail_failures_snoc:
  "tail_failures e (rows @ [r]) = (if locked_row e r then 0 else tail_failures e rows + (if failed_row e r then 1 else 0))"
  by (simp add: tail_failures_def)

lemma failures_tail:
  assumes "auth_ok sha d"
  shows "failures_at d e now \<le> tail_failures e (auth_log d)"
proof -
  let ?w = "now - LOCKOUT_WINDOW"
  let ?resets = "filter (\<lambda>r. claimed e r \<and> aa_event_type r \<in> {EVENT_LOGIN_SUCCESS, EVENT_ACCOUNT_LOCKED, EVENT_ACCOUNT_UNLOCKED}
              \<and> ?w < aa_occurred_at r) (auth_log d)"
  let ?P = "\<lambda>r. failed_row e r \<and> ?w < aa_occurred_at r \<and> past (max_at ?resets) (aa_occurred_at r)"
  have f: "failures_at d e now = length (filter ?P (auth_log d))"
    by (simp add: failures_at_def failed_row_def Let_def conj_assoc)
  have le: "length (filter ?P rows) \<le> length (filter (failed_row e) rows)" for rows
    by (induction rows) auto
  show ?thesis
  proof (cases "\<exists>x \<in> set (auth_log d). locked_row e x")
    case False
    then have tw: "takeWhile (\<lambda>r. \<not> locked_row e r) (rev (auth_log d)) = rev (auth_log d)" by simp
    show ?thesis unfolding f tail_failures_def tw rev_filter [symmetric] length_rev by (rule le)
  next
    case True
    then obtain xs x ys where log: "auth_log d = xs @ x # ys" "locked_row e x" "\<forall>y \<in> set ys. \<not> locked_row e y"
      using split_list_last_prop by metis
    have "\<not> ?P r" if "r \<in> set (xs @ [x])" for r
    proof
      assume p: "?P r"
      have "aa_occurred_at r \<le> aa_occurred_at x"
        using that assms by (auto simp: auth_ok_def log(1) sorted_wrt_append)
      then have "x \<in> set ?resets" using p log(1,2) by (auto simp: locked_row_def)
      then have "aa_occurred_at x < aa_occurred_at r" using p by (simp add: after_max)
      with \<open>aa_occurred_at r \<le> aa_occurred_at x\<close> show False by simp
    qed
    then have "filter ?P (xs @ [x]) = []" by (simp only: filter_empty_conv) blast
    moreover have "filter ?P (auth_log d) = filter ?P (xs @ [x]) @ filter ?P ys"
      unfolding log(1) by (simp only: filter_append [symmetric] append_assoc append_Cons append_Nil)
    ultimately have "failures_at d e now = length (filter ?P ys)" using f by simp
    moreover have "takeWhile (\<lambda>r. \<not> locked_row e r) (rev ys @ x # rev xs) = rev ys @ takeWhile (\<lambda>r. \<not> locked_row e r) (x # rev xs)"
      by (rule takeWhile_append2) (use log(3) in simp)
    then have "takeWhile (\<lambda>r. \<not> locked_row e r) (rev (auth_log d)) = rev ys" by (simp add: log(1,2))
    ultimately show ?thesis
      using le [of ys] by (simp add: tail_failures_def rev_filter [symmetric])
  qed
qed

definition lock_rate :: "string \<Rightarrow> db \<Rightarrow> bool" where
  "lock_rate e d \<longleftrightarrow> LOCKOUT_THRESHOLD * length (filter (locked_row e) (auth_log d)) + tail_failures e (auth_log d)
     \<le> length (filter (failed_row e) (auth_log d))"

lemma lock_rate_event:
  assumes "append_auth_event sha cf ev d = Inr d'" "ev_event_type ev \<noteq> EVENT_ACCOUNT_LOCKED" "lock_rate e d"
  shows "lock_rate e d'"
  using assms(1)
proof (cases rule: append_auth_event_steps)
  case (1 r)
  then have "\<not> locked_row e r" using assms(2) by (simp add: locked_row_def)
  then show ?thesis using assms(3) 1(1) by (auto simp: lock_rate_def tail_failures_snoc)
qed

lemma lock_rate_failure:
  assumes "failure_written sha cf f d d'" "email_valid f" "auth_ok sha d" "lock_rate e d"
  shows "lock_rate e d'"
proof -
  obtain ip ua d1 where w: "append_auth_event sha cf (failed_login_event f ip ua) d = Inr d1"
    and c: "d' = d1\<lparr>clock := clock d1 + 1\<rparr> \<or> LOCKOUT_THRESHOLD \<le> failures_at d1 f (clock d1)
       \<and> append_auth_event sha cf (locked_event f ip ua) (d1\<lparr>clock := clock d1 + 1\<rparr>) = Inr d'"
    using assms(1) unfolding failure_written_def by blast
  have r1: "lock_rate e d1"
    by (rule lock_rate_event [OF w _ assms(4)]) (simp add: failed_login_event_def event_names)
  have ok1: "auth_ok sha d1" by (rule append_auth_event_ok [OF w assms(3)])
  from c show ?thesis
  proof
    assume "d' = d1\<lparr>clock := clock d1 + 1\<rparr>"
    then show ?thesis using r1 by (simp add: lock_rate_def)
  next
    assume "LOCKOUT_THRESHOLD \<le> failures_at d1 f (clock d1)
       \<and> append_auth_event sha cf (locked_event f ip ua) (d1\<lparr>clock := clock d1 + 1\<rparr>) = Inr d'"
    then have n: "LOCKOUT_THRESHOLD \<le> failures_at d1 f (clock d1)"
      and l: "append_auth_event sha cf (locked_event f ip ua) (d1\<lparr>clock := clock d1 + 1\<rparr>) = Inr d'" by auto
    from l show ?thesis
    proof (cases rule: append_auth_event_steps)
      case (1 r)
      have "LOCKOUT_THRESHOLD \<le> tail_failures e (auth_log d1)" if "locked_row e r"
      proof -
        have "normalise_email e = normalise_email f"
          using that claimed_new [OF assms(2)] 1(4) by (simp add: locked_row_def locked_event_def)
        from same_email(3) [OF this, of d1 "clock d1"] show ?thesis
          using n failures_tail [OF ok1, of e "clock d1"] by linarith
      qed
      moreover have "\<not> failed_row e r" using 1(3) by (simp add: failed_row_def locked_event_def event_names)
      ultimately show ?thesis using r1 1(1) by (auto simp: lock_rate_def tail_failures_snoc)
    qed
  qed
qed

lemma lock_rate_cong: "auth_log d' = auth_log d \<Longrightarrow> lock_rate e d \<Longrightarrow> lock_rate e d'"
  by (simp add: lock_rate_def)

lemma auth_step_rate:
  assumes "auth_step sha cr cf d d'" "auth_ok sha d" "lock_rate e d"
  shows "lock_rate e d'"
  using assms(1)
proof (cases rule: auth_step_log)
  case same
  then show ?thesis using assms(3) lock_rate_cong by (auto simp: same_auth_def)
next
  case (event ev)
  then show ?thesis by (intro lock_rate_event [OF event(1) _ assms(3)]) (auto simp: background_events_def event_names)
next
  case (failed f)
  show ?thesis
    by (rule lock_rate_failure [OF failed(3,1) same_auth_ok [OF tick_same_auth assms(2)] lock_rate_cong [OF _ assms(3)]]) simp
qed

lemma auth_reach_rate:
  "(auth_step sha cr cf)\<^sup>*\<^sup>* d d' \<Longrightarrow> auth_ok sha d \<Longrightarrow> lock_rate e d \<Longrightarrow> lock_rate e d'"
  by (induction rule: rtranclp_induct) (auto intro: auth_step_rate auth_reach_ok)

section \<open>How long a lock holds\<close>

definition locks_spaced :: "string \<Rightarrow> db \<Rightarrow> bool" where
  "locks_spaced e d \<longleftrightarrow> (\<forall>r \<in> set (auth_log d). \<forall>s \<in> set (auth_log d).
     locked_row e r \<and> locked_row e s \<and> aa_occurred_at r < aa_occurred_at s
     \<and> (\<forall>u \<in> set (auth_log d). unlocked_row e u \<longrightarrow> \<not> (aa_occurred_at r < aa_occurred_at u \<and> aa_occurred_at u < aa_occurred_at s))
     \<longrightarrow> aa_occurred_at r + LOCKOUT_DURATION \<le> aa_occurred_at s)"

text \<open>A lock answers for its fifteen minutes, unless a later unlock row takes it back.\<close>

lemma locked_at_iff:
  "locked_at d e now \<longleftrightarrow> (\<exists>r \<in> set (auth_log d). locked_row e r \<and> now < aa_occurred_at r + LOCKOUT_DURATION
     \<and> (\<forall>u \<in> set (auth_log d). unlocked_row e u \<and> now < aa_occurred_at u + LOCKOUT_DURATION \<longrightarrow> aa_occurred_at u < aa_occurred_at r))"
  by (auto simp: locked_at_def Let_def after_max locked_row_def unlocked_row_def algebra_simps)

lemma lock_holds:
  assumes "auth_ok sha d" "r \<in> set (auth_log d)" "locked_row e r" "now < aa_occurred_at r + LOCKOUT_DURATION"
    "\<And>u. u \<in> set (auth_log d) \<Longrightarrow> unlocked_row e u \<Longrightarrow> aa_occurred_at u \<le> aa_occurred_at r"
  shows "locked_at d e now"
proof -
  have "aa_occurred_at u < aa_occurred_at r" if u: "u \<in> set (auth_log d)" "unlocked_row e u" for u
  proof -
    have "u \<noteq> r" using u(2) assms(3) by (auto simp: unlocked_row_def locked_row_def event_names)
    then have "aa_occurred_at u \<noteq> aa_occurred_at r" using times_distinct [OF assms(1) u(1) assms(2)] by blast
    then show ?thesis using assms(5) [OF u] by simp
  qed
  then show ?thesis unfolding locked_at_iff using assms(2-4) by blast
qed

lemma locks_spaced_event:
  assumes "append_auth_event sha cf ev d = Inr d'" "ev_event_type ev \<noteq> EVENT_ACCOUNT_LOCKED" "auth_ok sha d" "locks_spaced e d"
  shows "locks_spaced e d'"
  using assms(1)
proof (cases rule: append_auth_event_steps)
  case (1 x)
  have x: "\<not> locked_row e x" using 1(3) assms(2) by (simp add: locked_row_def)
  show ?thesis
    unfolding locks_spaced_def
  proof (intro ballI impI, elim conjE)
    fix r s
    assume a: "r \<in> set (auth_log d')" "s \<in> set (auth_log d')" "locked_row e r" "locked_row e s" "aa_occurred_at r < aa_occurred_at s"
      and no: "\<forall>u \<in> set (auth_log d'). unlocked_row e u \<longrightarrow> \<not> (aa_occurred_at r < aa_occurred_at u \<and> aa_occurred_at u < aa_occurred_at s)"
    have rs: "r \<in> set (auth_log d)" "s \<in> set (auth_log d)" using a(1-4) x 1(1) by auto
    have "\<forall>u \<in> set (auth_log d). unlocked_row e u \<longrightarrow> \<not> (aa_occurred_at r < aa_occurred_at u \<and> aa_occurred_at u < aa_occurred_at s)"
      using no 1(1) by simp
    then show "aa_occurred_at r + LOCKOUT_DURATION \<le> aa_occurred_at s"
      using assms(4) [unfolded locks_spaced_def] rs a(3-5) by blast
  qed
qed

lemma locks_spaced_failure:
  assumes "failure_written sha cf f (d\<lparr>clock := clock d + 1\<rparr>) d'" "email_valid f" "\<not> locked_at d f (clock d)"
    "auth_ok sha d" "locks_spaced e d"
  shows "locks_spaced e d'"
proof -
  let ?d = "d\<lparr>clock := clock d + 1\<rparr>"
  have ok: "auth_ok sha ?d" by (rule same_auth_ok [OF tick_same_auth assms(4)])
  obtain ip ua d1 where w: "append_auth_event sha cf (failed_login_event f ip ua) ?d = Inr d1"
    and c: "d' = d1\<lparr>clock := clock d1 + 1\<rparr>
      \<or> append_auth_event sha cf (locked_event f ip ua) (d1\<lparr>clock := clock d1 + 1\<rparr>) = Inr d'"
    using assms(1) unfolding failure_written_def by blast
  have sp1: "locks_spaced e d1"
    by (rule locks_spaced_event [OF w _ ok]) (use assms(5) in \<open>simp_all add: failed_login_event_def event_names locks_spaced_def\<close>)
  have ok1: "auth_ok sha d1" by (rule append_auth_event_ok [OF w ok])
  from c show ?thesis
  proof
    assume "d' = d1\<lparr>clock := clock d1 + 1\<rparr>"
    then show ?thesis using sp1 by (simp add: locks_spaced_def)
  next
    assume "append_auth_event sha cf (locked_event f ip ua) (d1\<lparr>clock := clock d1 + 1\<rparr>) = Inr d'"
    then show ?thesis
    proof (cases rule: append_auth_event_steps)
      case (1 x)
      have new: "aa_occurred_at r < aa_occurred_at x" if "r \<in> set (auth_log d1)" for r
        using ok1 that 1(5) by (fastforce simp: auth_ok_def)
      obtain y where y: "auth_log d1 = auth_log d @ [y]" "aa_event_type y = EVENT_LOGIN_FAILED" "clock d < clock d1"
      proof (rule append_auth_event_steps [OF w])
        fix y
        assume a: "auth_log d1 = auth_log ?d @ [y]" "clock d1 = clock ?d + 1 \<and> users d1 = users ?d \<and> uid_next d1 = Suc (uid_next ?d)"
          "aa_event_type y = ev_event_type (failed_login_event f ip ua)"
        show ?thesis by (rule that [of y]) (use a in \<open>simp_all add: failed_login_event_def\<close>)
      qed
      have last: "aa_occurred_at r + LOCKOUT_DURATION \<le> aa_occurred_at x"
        if r: "r \<in> set (auth_log d1)" "locked_row e r" "locked_row e x"
          and u: "\<And>u. u \<in> set (auth_log d1) \<Longrightarrow> unlocked_row e u \<Longrightarrow> aa_occurred_at u \<le> aa_occurred_at r" for r
      proof (rule ccontr)
        assume "\<not> ?thesis"
        then have now: "clock d < aa_occurred_at r + LOCKOUT_DURATION" using 1(5) y(3) by simp
        have "r \<noteq> y" using r(2) y(2) by (auto simp: locked_row_def event_names)
        then have r0: "r \<in> set (auth_log d)" using r(1) y(1) by simp
        have "locked_at d e (clock d)"
          by (rule lock_holds [OF assms(4) r0 r(2) now]) (simp add: u y(1))
        moreover have "normalise_email e = normalise_email f"
          using r(3) claimed_new [OF assms(2)] 1(4) by (simp add: locked_row_def locked_event_def)
        ultimately show False using assms(3) same_email(2) by metis
      qed
      show ?thesis
        unfolding locks_spaced_def
      proof (intro ballI impI, elim conjE)
        fix r s
        assume a: "r \<in> set (auth_log d')" "s \<in> set (auth_log d')" "locked_row e r" "locked_row e s" "aa_occurred_at r < aa_occurred_at s"
          and no: "\<forall>u \<in> set (auth_log d'). unlocked_row e u \<longrightarrow> \<not> (aa_occurred_at r < aa_occurred_at u \<and> aa_occurred_at u < aa_occurred_at s)"
        have r1: "r \<in> set (auth_log d1)" using a(1,2,5) new [of s] 1(1) by (auto dest: less_asym)
        show "aa_occurred_at r + LOCKOUT_DURATION \<le> aa_occurred_at s"
        proof (cases "s = x")
          case True
          have "aa_occurred_at u \<le> aa_occurred_at r" if u: "u \<in> set (auth_log d1)" "unlocked_row e u" for u
            using no u new [OF u(1)] 1(1) by (auto simp: True not_less)
          then show ?thesis unfolding True using last [OF r1 a(3)] a(4) True by blast
        next
          case False
          then have s1: "s \<in> set (auth_log d1)" using a(2) 1(1) by simp
          have "\<forall>u \<in> set (auth_log d1). unlocked_row e u \<longrightarrow> \<not> (aa_occurred_at r < aa_occurred_at u \<and> aa_occurred_at u < aa_occurred_at s)"
            using no 1(1) by simp
          then show ?thesis using sp1 [unfolded locks_spaced_def] r1 s1 a(3-5) by blast
        qed
      qed
    qed
  qed
qed

lemma locks_spaced_cong: "auth_log d' = auth_log d \<Longrightarrow> locks_spaced e d \<Longrightarrow> locks_spaced e d'"
  by (simp add: locks_spaced_def)

lemma auth_step_spaced:
  assumes "auth_step sha cr cf d d'" "auth_ok sha d" "locks_spaced e d"
  shows "locks_spaced e d'"
  using assms(1)
proof (cases rule: auth_step_log)
  case same
  then show ?thesis using assms(3) locks_spaced_cong by (auto simp: same_auth_def)
next
  case (event ev)
  then show ?thesis by (intro locks_spaced_event [OF event(1) _ assms(2,3)]) (auto simp: background_events_def event_names)
next
  case (failed f)
  show ?thesis by (rule locks_spaced_failure [OF failed(3,1,2) assms(2,3)])
qed

lemma auth_reach_spaced:
  "(auth_step sha cr cf)\<^sup>*\<^sup>* d d' \<Longrightarrow> auth_ok sha d \<Longrightarrow> locks_spaced e d \<Longrightarrow> locks_spaced e d'"
  by (induction rule: rtranclp_induct) (auto intro: auth_step_spaced auth_reach_ok)

text \<open>While it holds, a login is refused whatever the password, and writes nothing.\<close>

lemma locked_login:
  "locked_at d e (clock d) \<Longrightarrow> login sha cr cf rq e p d
     = (Inl (HTTPException 429 (Msg LOCKOUT_DETAIL [])), [], d\<lparr>clock := clock d + 1\<rparr>)"
  by (simp add: login_def)

section \<open>The tenth failure\<close>

lemma wrong_password_login:
  assumes "\<not> locked_at d e (clock d)" "scalar_one_or_none (\<lambda>u. us_email u = e) (users d) = Inr found"
    "found = None \<or> \<not> verify_password cr p (us_password_hash (the found))"
  shows "login sha cr cf rq e p d = (Inl (unauthorized ''Invalid credentials''), [],
     record_failed_login sha cf e (get_client_ip rq) (rq_user_agent rq) (d\<lparr>clock := clock d + 1\<rparr>))"
  using assms by (cases found) (simp_all add: login_def Let_def)

text \<open>A failure more: what was counted still is, and the new row with it.\<close>

lemma failures_at_iff:
  "failures_at d e now = length (filter (\<lambda>r. failed_row e r \<and> now < aa_occurred_at r + LOCKOUT_WINDOW
     \<and> (\<forall>s \<in> set (auth_log d). claimed e s
          \<and> aa_event_type s \<in> {EVENT_LOGIN_SUCCESS, EVENT_ACCOUNT_LOCKED, EVENT_ACCOUNT_UNLOCKED}
          \<and> now < aa_occurred_at s + LOCKOUT_WINDOW \<longrightarrow> aa_occurred_at s < aa_occurred_at r)) (auth_log d))"
  unfolding failures_at_def Let_def after_max failed_row_def
  by (intro arg_cong [where f = length] filter_cong refl) (auto simp: algebra_simps)

lemma failure_counted:
  assumes "append_auth_event sha cf (failed_login_event e ip ua) d = Inr d1" "email_valid e" "auth_ok sha d" "0 \<le> now - clock d"
    "now < clock d + LOCKOUT_WINDOW"
  shows "failures_at d1 e now = Suc (failures_at d e now)"
  using assms(1)
proof (cases rule: append_auth_event_steps)
  case (1 r)
  have t: "aa_event_type r = EVENT_LOGIN_FAILED" "aa_claimed_email r = Some e" using 1(3,4) by (simp_all add: failed_login_event_def)
  have n: "aa_event_type r \<notin> {EVENT_LOGIN_SUCCESS, EVENT_ACCOUNT_LOCKED, EVENT_ACCOUNT_UNLOCKED}" using t(1) by (simp add: event_names)
  have c: "claimed e r" using claimed_new [OF assms(2) t(2)] by simp
  have "\<forall>s \<in> set (auth_log d). aa_occurred_at s < aa_occurred_at r" using assms(3) 1(5) by (simp add: auth_ok_def)
  then show ?thesis
    unfolding failures_at_iff 1(1) using n t(1) c assms(5) 1(5) by (auto simp: failed_row_def)
qed

lemma tenth_failure:
  assumes "failure_written sha cf e d d'" "email_valid e" "auth_ok sha d" "LOCKOUT_THRESHOLD \<le> Suc (failures_at d e (clock d + 1))"
  shows "locked_at d' e (clock d')"
proof -
  obtain ip ua d1 where w: "append_auth_event sha cf (failed_login_event e ip ua) d = Inr d1"
    and c: "failures_at d1 e (clock d1) < LOCKOUT_THRESHOLD
      \<or> append_auth_event sha cf (locked_event e ip ua) (d1\<lparr>clock := clock d1 + 1\<rparr>) = Inr d'"
    using assms(1) unfolding failure_written_def by blast
  have k1: "clock d1 = clock d + 1" by (rule append_auth_event_steps [OF w]) simp
  have "failures_at d1 e (clock d1) = Suc (failures_at d e (clock d + 1))"
    unfolding k1 by (rule failure_counted [OF w assms(2,3)]) (simp_all add: LOCKOUT_WINDOW_def us_per_minute_def us_per_second_def)
  then have l: "append_auth_event sha cf (locked_event e ip ua) (d1\<lparr>clock := clock d1 + 1\<rparr>) = Inr d'" using c assms(4) by simp
  have "auth_ok sha (d1\<lparr>clock := clock d1 + 1\<rparr>)"
    by (rule same_auth_ok [OF tick_same_auth append_auth_event_ok [OF w assms(3)]])
  from append_auth_event_ok [OF l this] have ok': "auth_ok sha d'" .
  from l show ?thesis
  proof (cases rule: append_auth_event_steps)
    case (1 r)
    have r: "r \<in> set (auth_log d')" "locked_row e r"
      using 1(1,3,4) claimed_new [OF assms(2)] by (simp_all add: locked_row_def locked_event_def)
    have k: "clock d' = aa_occurred_at r + 1" using 1(2,5) by simp
    show ?thesis
    proof (rule lock_holds [OF ok' r])
      show "clock d' < aa_occurred_at r + LOCKOUT_DURATION"
        by (simp add: k LOCKOUT_DURATION_def us_per_minute_def us_per_second_def)
      show "aa_occurred_at u \<le> aa_occurred_at r" if "u \<in> set (auth_log d')" for u
        using ok' that k by (force simp: auth_ok_def)
    qed
  qed
qed

section \<open>Unlocking\<close>

lemma unlock_frees:
  assumes "record_unlock sha cf u actor ip ua d = Inr d'" "email_valid (us_email u)" "auth_ok sha d"
  shows "\<not> locked_at d' (us_email u) (clock d')" "failures_at d' (us_email u) (clock d') = 0"
proof -
  have a: "append_auth_event sha cf \<lparr>ev_event_type = EVENT_ACCOUNT_UNLOCKED, ev_user_id = Some (us_id u),
      ev_claimed_email = Some (us_email u), ev_client_ip = ip, ev_user_agent = ua,
      ev_detail = Some (''unlocked by admin '' @ us_id actor)\<rparr> d = Inr d'"
    using assms(1) by (simp add: record_unlock_def)
  have ok': "auth_ok sha d'" by (rule append_auth_event_ok [OF a assms(3)])
  from a obtain r where r: "r \<in> set (auth_log d')" "unlocked_row (us_email u) r" "clock d' = aa_occurred_at r + 1"
  proof (cases rule: append_auth_event_steps)
    case (1 r)
    have "clock d' = aa_occurred_at r + 1" using 1(2,5) by simp
    then show ?thesis using that [of r] 1(1,3,4) claimed_new [OF assms(2)] by (simp add: unlocked_row_def)
  qed
  have last: "aa_occurred_at s \<le> aa_occurred_at r" if "s \<in> set (auth_log d')" for s
    using ok' that r(3) by (force simp: auth_ok_def)
  have w: "clock d' < aa_occurred_at r + LOCKOUT_DURATION" "clock d' < aa_occurred_at r + LOCKOUT_WINDOW"
    by (simp_all add: r(3) LOCKOUT_DURATION_def LOCKOUT_WINDOW_def us_per_minute_def us_per_second_def)
  show "\<not> locked_at d' (us_email u) (clock d')"
    unfolding locked_at_iff using r(1,2) w(1) last by (meson leD)
  have "claimed (us_email u) r" "aa_event_type r = EVENT_ACCOUNT_UNLOCKED" using r(2) by (simp_all add: unlocked_row_def)
  then show "failures_at d' (us_email u) (clock d') = 0"
    unfolding failures_at_iff length_0_conv filter_empty_conv
    by (intro ballI notI, elim conjE) (drule bspec [OF _ r(1)], use w(2) last in \<open>force simp: not_le [symmetric]\<close>)
qed

end
