(* ===== verification/Sessions.thy ===== *)
theory Sessions
  imports Auth_Facts
begin

text \<open>
  Sessions over time: the version of a user's tokens never goes back, so what one handler
  revokes no later one revives; and what a login answers gives nothing away about accounts.
  The laws of \<open>jose\<close> the code relies on are stated here, as predicates on the parameter.
\<close>

section \<open>The users table only grows\<close>

definition users_ok :: "db \<Rightarrow> bool" where
  "users_ok d \<longleftrightarrow> distinct (map us_id (users d)) \<and> (\<forall>u \<in> set (users d). \<exists>n < uid_next d. us_id u = uid n)"

text \<open>Every user is still there, with a version at least as high.\<close>

definition versions_grow :: "db \<Rightarrow> db \<Rightarrow> bool" where
  "versions_grow d d' \<longleftrightarrow> (\<forall>u \<in> set (users d). \<exists>v \<in> set (users d'). us_id v = us_id u \<and> us_token_version u \<le> us_token_version v)"

definition users_step :: "db \<Rightarrow> db \<Rightarrow> bool" where
  "users_step d d' \<longleftrightarrow> (users_ok d \<longrightarrow> users_ok d') \<and> versions_grow d d'"

lemma users_step_refl [simp]: "users_step d d"
  by (auto simp: users_step_def versions_grow_def)

lemma users_step_trans:
  assumes "users_step a b" "users_step b c"
  shows "users_step a c"
proof -
  have "versions_grow a c"
    unfolding versions_grow_def
  proof
    fix u assume "u \<in> set (users a)"
    then obtain v where v: "v \<in> set (users b)" "us_id v = us_id u" "us_token_version u \<le> us_token_version v"
      using assms(1) unfolding users_step_def versions_grow_def by blast
    then obtain w where "w \<in> set (users c)" "us_id w = us_id v" "us_token_version v \<le> us_token_version w"
      using assms(2) unfolding users_step_def versions_grow_def by blast
    with v show "\<exists>w \<in> set (users c). us_id w = us_id u \<and> us_token_version u \<le> us_token_version w" by force
  qed
  then show ?thesis using assms unfolding users_step_def by blast
qed

lemma users_step_same: "users d' = users d \<Longrightarrow> uid_next d \<le> uid_next d' \<Longrightarrow> users_step d d'"
  by (auto simp: users_step_def versions_grow_def users_ok_def intro: less_le_trans)

lemma same_users_step: "same_auth d d' \<Longrightarrow> users d' = users d \<Longrightarrow> users_step d d'"
  by (simp add: users_step_same same_auth_def)

lemma ledger_users_step:
  assumes "ledger_record sha ev ac rt ri p d = Inr (r, d')"
  shows "users_step d d'"
  using ledger_same_auth [OF assms] by (rule same_users_step)

lemma append_users_step: "append_auth_event sha cf ev d = Inr d' \<Longrightarrow> users_step d d'"
  by (erule append_auth_event_steps) (simp add: users_step_same)

text \<open>Rows changed in place: the id is kept, the version may rise.\<close>

lemma upd_users_step:
  assumes "\<And>x. x \<in> set (users d) \<Longrightarrow> P x \<Longrightarrow> us_id (f x) = us_id x \<and> us_token_version x \<le> us_token_version (f x)"
  shows "users_step d (d\<lparr>users := upd_rows P f (users d)\<rparr>)"
proof -
  have ids: "map us_id (upd_rows P f (users d)) = map us_id (users d)"
    using assms by (simp add: upd_rows_def)
  have "\<exists>n < uid_next d. us_id v = uid n" if "users_ok d" "v \<in> set (upd_rows P f (users d))" for v
  proof -
    from that(2) obtain x where "x \<in> set (users d)" "us_id v = us_id x" using assms by (auto elim!: set_upd_rowsE)
    with that(1) show ?thesis by (auto simp: users_ok_def)
  qed
  then have "users_ok d \<Longrightarrow> users_ok (d\<lparr>users := upd_rows P f (users d)\<rparr>)"
    by (simp add: users_ok_def ids)
  moreover have "versions_grow d (d\<lparr>users := upd_rows P f (users d)\<rparr>)"
    unfolding versions_grow_def
  proof
    fix u assume u: "u \<in> set (users d)"
    show "\<exists>v \<in> set (users (d\<lparr>users := upd_rows P f (users d)\<rparr>)). us_id v = us_id u \<and> us_token_version u \<le> us_token_version v"
      using u assms [OF u] by (intro bexI [of _ "if P u then f u else u"]) (auto simp: upd_rows_def)
  qed
  ultimately show ?thesis by (simp add: users_step_def)
qed

text \<open>A user value that agrees with its row.\<close>

definition in_row :: "db \<Rightarrow> user \<Rightarrow> bool" where
  "in_row d u \<longleftrightarrow> (\<exists>x \<in> set (users d). us_id x = us_id u)
     \<and> (\<forall>x \<in> set (users d). us_id x = us_id u \<longrightarrow> us_token_version x = us_token_version u)"

lemma in_row_member: "users_ok d \<Longrightarrow> u \<in> set (users d) \<Longrightarrow> in_row d u"
  by (auto simp: in_row_def users_ok_def distinct_map inj_on_def)

lemma in_row_cong: "us_id v = us_id u \<Longrightarrow> us_token_version v = us_token_version u \<Longrightarrow> in_row d u \<Longrightarrow> in_row d v"
  by (simp add: in_row_def)

lemma put_user_step: "in_row d u \<Longrightarrow> users_step d (put_user u d)"
  unfolding put_user_def by (rule upd_users_step) (auto simp: in_row_def)

lemma revoke_step:
  assumes "revoke_sessions u d = (v, d')"
  shows "users_step d d'" "us_id v = us_id u"
    "users_ok d \<Longrightarrow> in_row d u \<Longrightarrow> in_row d' v \<and> us_token_version v = us_token_version u + 1"
proof -
  let ?d = "d\<lparr>users := upd_rows (\<lambda>x. us_id x = us_id u) (\<lambda>x. u\<lparr>us_token_version := us_token_version x + 1\<rparr>) (users d)\<rparr>"
  have d': "d' = ?d" and v: "v = (case find (\<lambda>x. us_id x = us_id u) (users ?d) of
      None \<Rightarrow> u | Some x \<Rightarrow> u\<lparr>us_token_version := us_token_version x\<rparr>)"
    using assms unfolding revoke_sessions_def Let_def by (auto split: option.splits)
  show "users_step d d'" unfolding d' by (rule upd_users_step) auto
  show "us_id v = us_id u" unfolding v by (simp split: option.splits)
  show "in_row d' v \<and> us_token_version v = us_token_version u + 1" if ok: "users_ok d" "in_row d u"
  proof -
    have rows: "us_token_version x = us_token_version u + 1" if "x \<in> set (users ?d)" "us_id x = us_id u" for x
      using that ok(2) by (auto simp: upd_rows_def in_row_def)
    obtain x where x: "x \<in> set (users d)" "us_id x = us_id u" using ok(2) by (auto simp: in_row_def)
    then have m: "u\<lparr>us_token_version := us_token_version x + 1\<rparr> \<in> set (users ?d)" by (force simp: upd_rows_def)
    then have "find (\<lambda>x. us_id x = us_id u) (users ?d) \<noteq> None" by (auto simp: find_None_iff)
    then obtain y where y: "find (\<lambda>x. us_id x = us_id u) (users ?d) = Some y" by blast
    then have "us_token_version y = us_token_version u + 1" using rows find_SomeD [OF y] by blast
    then have v': "us_id v = us_id u" "us_token_version v = us_token_version u + 1" unfolding v y by simp_all
    have "in_row ?d v"
      unfolding in_row_def v'
    proof (intro conjI ballI impI)
      show "\<exists>x \<in> set (users ?d). us_id x = us_id u" using m by (rule rev_bexI) simp
      show "us_token_version x = us_token_version u + 1" if "x \<in> set (users ?d)" "us_id x = us_id u" for x
        using that by (rule rows)
    qed
    then show ?thesis using v' d' by simp
  qed
qed

lemma revoke_active: "revoke_sessions u d = (v, d') \<Longrightarrow> us_is_active v = us_is_active u"
  by (auto simp: revoke_sessions_def Let_def split: option.splits)

section \<open>Every handler\<close>

lemma issue_users_step: "issue_token cr cf u d = Inr (t, d') \<Longrightarrow> users_step d d'"
  using issue_same_auth same_users_step by blast

lemma change_password_step:
  assumes "change_password cr cf rq salt cur new u d = (out, evs, d')"
  obtains (refused) err where "d' = d" "out = Inl err"
  | (revoked) h d1 v where "revoke_sessions (u\<lparr>us_password_hash := h\<rparr>) d = (v, d1)" "users_step d1 d'"
  using assms
  by (auto simp: change_password_def Let_def dest!: issue_users_step split: if_split_asm sum.split_asm prod.split_asm)

text \<open>An update revokes when it sets a password, or deactivates an active account.\<close>

definition update_revokes :: "staff_update \<Rightarrow> user \<Rightarrow> bool" where
  "update_revokes b u \<longleftrightarrow> su_password b \<noteq> None \<or> us_is_active u \<and> su_is_active b = Some False"

lemma change_staff_step:
  assumes "change_staff b h u d = (v, d')" "users_ok d" "in_row d u"
  shows "users_step d d' \<and> in_row d' v \<and> us_id v = us_id u \<and> us_token_version u \<le> us_token_version v
    \<and> (h \<noteq> None \<or> us_is_active u \<and> su_is_active b = Some False \<longrightarrow> us_token_version u < us_token_version v)"
proof -
  let ?u1 = "case su_name b of None \<Rightarrow> u | Some n \<Rightarrow> u\<lparr>us_name := n\<rparr>"
  have u1: "in_row d ?u1" "us_id ?u1 = us_id u" "us_token_version ?u1 = us_token_version u" "us_is_active ?u1 = us_is_active u"
    using assms(3) by (auto intro: in_row_cong split: option.splits)
  obtain u2 d2 where p: "(case h of None \<Rightarrow> (?u1, d) | Some h \<Rightarrow> revoke_sessions (?u1\<lparr>us_password_hash := h\<rparr>) d) = (u2, d2)"
    by (rule prod.exhaust)
  have s2: "users_step d d2 \<and> in_row d2 u2 \<and> us_id u2 = us_id u \<and> us_is_active u2 = us_is_active u
    \<and> us_token_version u2 = us_token_version u + (if h = None then 0 else 1)"
  proof (cases h)
    case (Some x)
    then have r: "revoke_sessions (?u1\<lparr>us_password_hash := x\<rparr>) d = (u2, d2)" using p by simp
    from revoke_step [OF r] show ?thesis
      using assms(2) u1 in_row_cong [OF _ _ u1(1), of "?u1\<lparr>us_password_hash := x\<rparr>"] revoke_active [OF r] Some by simp
  qed (use p u1 in auto)
  then have ok2: "users_ok d2" using assms(2) by (simp add: users_step_def)
  have c: "(case su_is_active b of
           None \<Rightarrow> (u2, d2)
         | Some x \<Rightarrow>
             let (u, d) = (if us_is_active u2 \<and> \<not> x then revoke_sessions u2 d2 else (u2, d2))
             in (u\<lparr>us_is_active := x\<rparr>, d)) = (v, d')"
    using assms(1) unfolding change_staff_def Let_def p by simp
  show ?thesis
  proof (cases "su_is_active b")
    case (Some x)
    obtain u3 d3 where p3: "(if us_is_active u2 \<and> \<not> x then revoke_sessions u2 d2 else (u2, d2)) = (u3, d3)"
      by (rule prod.exhaust)
    have s3: "users_step d2 d3 \<and> in_row d3 u3 \<and> us_id u3 = us_id u2
      \<and> us_token_version u3 = us_token_version u2 + (if us_is_active u2 \<and> \<not> x then 1 else 0)"
    proof (cases "us_is_active u2 \<and> \<not> x")
      case True
      then have r: "revoke_sessions u2 d2 = (u3, d3)" using p3 by simp
      show ?thesis using revoke_step [OF r] ok2 s2 True by simp
    qed (use p3 s2 in auto)
    have "v = u3\<lparr>us_is_active := x\<rparr>" "d' = d3" using c unfolding Some Let_def option.case p3 prod.case by auto
    then show ?thesis using s2 s3 in_row_cong [of v u3 d3] users_step_trans [of d d2 d3] Some by auto
  qed (use c s2 in auto)
qed

lemma find_rowD: "find_cashier i d = Inr u \<Longrightarrow> u \<in> set (users d) \<and> us_id u = i" "find_staff i d = Inr u \<Longrightarrow> u \<in> set (users d) \<and> us_id u = i"
  by (auto simp: find_cashier_def find_staff_def res_simps filter_eq_Cons_iff)

lemma create_staff_step:
  assumes "create_staff sha cr salt e n p actor d = Inr (u, d')" "users_ok d"
  shows "users_step d d'"
proof -
  obtain pl r where y: "us_id u = uid (uid_next d)"
    and l: "ledger_record sha EVENT_STAFF_CREATED (us_id actor) ''user'' (us_id u) pl
        (d\<lparr>uid_next := Suc (uid_next d), users := users d @ [u]\<rparr>) = Inr (r, d')"
    using assms(1) unfolding create_staff_def by (auto simp: res_simps Let_def fresh_uid_def)
  have "users_step d (d\<lparr>uid_next := Suc (uid_next d), users := users d @ [u]\<rparr>)"
    using assms(2) y by (auto simp: users_step_def versions_grow_def users_ok_def intro: less_SucI)
  then show ?thesis using ledger_users_step [OF l] by (rule users_step_trans)
qed

text \<open>What a handler does to one user's version.\<close>

definition version_bumped :: "string \<Rightarrow> db \<Rightarrow> db \<Rightarrow> bool" where
  "version_bumped i d d' \<longleftrightarrow> (\<forall>u \<in> set (users d). us_id u = i
     \<longrightarrow> (\<exists>v \<in> set (users d'). us_id v = i \<and> us_token_version u < us_token_version v))"

lemma bumped_rowI:
  assumes "users_ok d" "u \<in> set (users d)" "in_row d' v" "us_id v = us_id u" "us_token_version u < us_token_version v"
  shows "version_bumped (us_id u) d d'"
proof -
  obtain x where "x \<in> set (users d')" "us_id x = us_id v" "us_token_version x = us_token_version v"
    using assms(3) by (auto simp: in_row_def)
  moreover have "w = u" if "w \<in> set (users d)" "us_id w = us_id u" for w
    using assms(1,2) that by (auto simp: users_ok_def distinct_map inj_on_def)
  ultimately show ?thesis using assms(4,5) unfolding version_bumped_def by (metis (no_types))
qed

lemma bumped_then:
  assumes "version_bumped i d d1" "users_step d1 d'"
  shows "version_bumped i d d'"
  unfolding version_bumped_def
proof (intro ballI impI)
  fix u assume "u \<in> set (users d)" "us_id u = i"
  then obtain v where v: "v \<in> set (users d1)" "us_id v = i" "us_token_version u < us_token_version v"
    using assms(1) unfolding version_bumped_def by blast
  then obtain w where "w \<in> set (users d')" "us_id w = us_id v" "us_token_version v \<le> us_token_version w"
    using assms(2) unfolding users_step_def versions_grow_def by blast
  with v show "\<exists>w \<in> set (users d'). us_id w = i \<and> us_token_version u < us_token_version w" by force
qed

lemma revoke_bumps:
  assumes "revoke_sessions u d = (v, d')" "users_ok d" "x \<in> set (users d)" "us_id x = us_id u" "us_token_version x = us_token_version u"
  shows "version_bumped (us_id u) d d'"
proof -
  have "in_row d u" by (rule in_row_cong [OF _ _ in_row_member [OF assms(2,3)]]) (use assms(4,5) in simp_all)
  with revoke_step [OF assms(1)] assms(2) show ?thesis
    using bumped_rowI [OF assms(2,3), of d' v] assms(4,5) by simp
qed

lemma put_user_in_row: "in_row d u \<Longrightarrow> in_row (put_user u d) u"
  by (auto simp: in_row_def put_user_def upd_rows_def)

lemma update_staff_step:
  assumes "update_staff sha cr salt i b actor d = Inr (u, d')" "users_ok d"
  shows "users_step d d'" "\<And>u0. find_cashier i d = Inr u0 \<Longrightarrow> update_revokes b u0 \<Longrightarrow> version_bumped i d d'"
proof -
  obtain u0 h v d1 where u0: "find_cashier i d = Inr u0" and v: "change_staff b h u0 d = (v, d1)"
    and h: "h = None \<longleftrightarrow> su_password b = None"
    and l: "d' = put_user v d1 \<or> (\<exists>pl r. ledger_record sha EVENT_STAFF_UPDATED (us_id actor) ''user'' (us_id v) pl (put_user v d1) = Inr (r, d'))"
    using assms(1) unfolding update_staff_def
    by (auto simp: res_simps Let_def split: if_split_asm prod.split_asm option.split_asm) blast+
  have m: "u0 \<in> set (users d)" "us_id u0 = i" using find_rowD(1) [OF u0] by blast+
  note c = change_staff_step [OF v assms(2) in_row_member [OF assms(2) m(1)]]
  have s: "users_step d (put_user v d1)" using c users_step_trans put_user_step by blast
  have l': "users_step (put_user v d1) d'" using l ledger_users_step by auto
  show "users_step d d'" by (rule users_step_trans [OF s l'])
  show "version_bumped i d d'" if w: "find_cashier i d = Inr w" "update_revokes b w" for w
  proof -
    have "w = u0" using w(1) u0 by simp
    then have "us_token_version u0 < us_token_version v" using c h w(2) by (auto simp: update_revokes_def)
    then have "version_bumped (us_id u0) d (put_user v d1)"
      using bumped_rowI [OF assms(2) m(1) put_user_in_row] c by blast
    then show ?thesis using bumped_then [OF _ l'] m(2) by blast
  qed
qed

lemma delete_staff_step:
  assumes "delete_staff sha i actor d = Inr d'"
  shows "users_step d d'" "users_ok d \<Longrightarrow> d' \<noteq> d \<Longrightarrow> version_bumped i d d'"
proof -
  have *: "users_step d d' \<and> (users_ok d \<longrightarrow> version_bumped i d d')" if ne: "d' \<noteq> d"
  proof -
    obtain u v d1 pl r where u: "find_cashier i d = Inr u" and r: "revoke_sessions (u\<lparr>us_is_active := False\<rparr>) d = (v, d1)"
      and l: "ledger_record sha EVENT_STAFF_UPDATED (us_id actor) ''user'' (us_id v) pl d1 = Inr (r, d')"
      using assms ne unfolding delete_staff_def by (auto simp: res_simps Let_def split: if_split_asm)
    have "version_bumped i d d1" if "users_ok d"
      using revoke_bumps [OF r that, of u] find_rowD(1) [OF u] by simp
    then show ?thesis using bumped_then ledger_users_step [OF l] revoke_step(1) [OF r] users_step_trans by blast
  qed
  show "users_step d d'" using * by (cases "d' = d") auto
  show "users_ok d \<Longrightarrow> d' \<noteq> d \<Longrightarrow> version_bumped i d d'" using * by blast
qed

lemma force_logout_step:
  assumes "force_logout_staff sha i actor d = Inr d'"
  shows "users_step d d'" "users_ok d \<Longrightarrow> version_bumped i d d'"
proof -
  obtain u v d1 where u: "find_staff i d = Inr u" and r: "revoke_sessions u d = (v, d1)" and s: "users_step d1 d'"
    using assms unfolding force_logout_staff_def by (auto simp: res_simps Let_def dest!: ledger_users_step)
  show "users_step d d'" by (rule users_step_trans [OF revoke_step(1) [OF r] s])
  show "version_bumped i d d'" if "users_ok d"
    using bumped_then [OF revoke_bumps [OF r that, of u] s] find_rowD(2) [OF u] by simp
qed

lemma failure_users_step:
  assumes "failure_written sha cf e d d'"
  shows "users_step d d'"
proof -
  obtain ip ua d1 where "append_auth_event sha cf (failed_login_event e ip ua) d = Inr d1"
    "d' = d1\<lparr>clock := clock d1 + 1\<rparr> \<or> append_auth_event sha cf (locked_event e ip ua) (d1\<lparr>clock := clock d1 + 1\<rparr>) = Inr d'"
    using assms by (auto simp: failure_written_def)
  then have "users_step d d1" and l: "d' = d1\<lparr>clock := clock d1 + 1\<rparr> \<or> users_step (d1\<lparr>clock := clock d1 + 1\<rparr>) d'"
    using append_users_step by blast+
  moreover have "users_step d1 (d1\<lparr>clock := clock d1 + 1\<rparr>)" by (simp add: users_step_same)
  ultimately show ?thesis using users_step_trans by blast
qed

lemma auth_step_users:
  assumes "auth_step sha cr cf d d'" "users_ok d"
  shows "users_step d d'"
  using assms(1)
proof (cases rule: auth_step.cases)
  case (login rq e p out evs)
  have "users_step d (d\<lparr>clock := clock d + 1\<rparr>)" by (simp add: users_step_same)
  then show ?thesis
    using login_cases [OF login(1)] same_users_step failure_users_step users_step_trans by blast
next
  case (background ev)
  then show ?thesis using record_safe_cases [of sha cf ev d] append_users_step users_step_refl by metis
next
  case (changed c k u d1 rq salt cur new out evs)
  have "users_step d1 d'"
    using changed(2)
  proof (cases rule: change_password_step)
    case (revoked h d2 v)
    then show ?thesis using revoke_step(1) users_step_trans by blast
  qed simp
  moreover have "users_step d d1" by (rule same_users_step [OF current_user_frame(1,2) [OF changed(1)]])
  ultimately show ?thesis by (rule users_step_trans [rotated])
next
  case (hired salt e n p actor u)
  then show ?thesis using create_staff_step assms(2) by blast
next
  case (updated salt i b actor u)
  then show ?thesis using update_staff_step(1) assms(2) by blast
next
  case (deleted i actor)
  then show ?thesis by (rule delete_staff_step(1))
next
  case (unlocked rq i actor)
  then show ?thesis by (auto simp: unlock_staff_def record_unlock_def res_simps intro: append_users_step)
next
  case (forced_out i actor)
  then show ?thesis by (rule force_logout_step(1))
next
  case elsewhere
  then show ?thesis by (rule same_users_step)
qed

lemma auth_reach_users:
  "(auth_step sha cr cf)\<^sup>*\<^sup>* d d' \<Longrightarrow> users_ok d \<Longrightarrow> users_step d d'"
proof (induction rule: rtranclp_induct)
  case (step d1 d2)
  then have s: "users_step d d1" by blast
  then have "users_ok d1" using step.prems by (simp add: users_step_def)
  with auth_step_users [OF step.hyps(2)] s show ?case using users_step_trans by blast
qed simp

section \<open>Revoked for good\<close>

lemma stale_version_refused:
  assumes "users_ok d" "u \<in> set (users d)" "us_id u = claimed_id p" "claimed_version p < us_token_version u" "users_step d d'"
  shows "session_user p d' \<noteq> Inr w"
proof
  assume s: "session_user p d' = Inr w"
  have ok: "users_ok d'" and g: "versions_grow d d'" using assms(1,5) by (simp_all add: users_step_def)
  obtain v where v: "v \<in> set (users d')" "us_id v = us_id u" "us_token_version u \<le> us_token_version v"
    using g assms(2) unfolding versions_grow_def by blast
  have "v \<in> set [w]" unfolding session_user_row(1) [OF s, symmetric] using v(1,2) assms(3) by simp
  then show False using session_user_row(3) [OF s] v(3) assms(4) by simp
qed

text \<open>A token decodes to the same claims whenever it decodes at all.\<close>

definition decodes_alike :: "'k crypto \<Rightarrow> bool" where
  "decodes_alike cr \<longleftrightarrow>
     (\<forall>s t tok k p q. jwt_decode_rs256 cr s tok k = Some p \<longrightarrow> jwt_decode_rs256 cr t tok k = Some q \<longrightarrow> p = q)
     \<and> (\<forall>s t tok k a p q. jwt_decode_hmac cr s tok k a = Some p \<longrightarrow> jwt_decode_hmac cr t tok k a = Some q \<longrightarrow> p = q)"

lemma decode_token_alike:
  assumes "decodes_alike cr" "decode_token cr cf tok d = Inr (Some p, d1)" "decode_token cr cf tok e = Inr (Some q, e1)"
  shows "p = q"
proof -
  obtain alg where alg: "jwt_header_alg cr tok = Some alg"
    using assms(2) by (cases "jwt_header_alg cr tok") (auto simp: decode_token_def)
  then obtain keys where k: "rsa_keys cr cf = Inr keys" using assms(2) by (auto simp: decode_token_def bnd_eq_Inr)
  show ?thesis
    using assms unfolding decode_token_def alg k decodes_alike_def
    by (auto simp: read_clock_def Let_def split: if_split_asm)
qed

lemma current_user_token:
  assumes "get_current_user cr cf c k d = Inr (u, d')"
  obtains p where "decode_token cr cf (the (case c of Some c \<Rightarrow> Some c | None \<Rightarrow> k)) d = Inr (Some p, d')" "session_user p d' = Inr u"
proof -
  let ?t = "the (case c of Some c \<Rightarrow> Some c | None \<Rightarrow> k)"
  have "bnd (decode_token cr cf ?t d) (\<lambda>(payload, d).
      case payload of
        None \<Rightarrow> Inl (unauthorized ''Invalid token'')
      | Some p \<Rightarrow> bnd (session_user p d) (\<lambda>u. Inr (u, d))) = Inr (u, d')"
    using assms unfolding get_current_user_def Let_def raise_if_eq_Inr by blast
  then obtain r where "decode_token cr cf ?t d = Inr r" "(case fst r of
        None \<Rightarrow> Inl (unauthorized ''Invalid token'')
      | Some p \<Rightarrow> bnd (session_user p (snd r)) (\<lambda>u. Inr (u, snd r))) = Inr (u, d')"
    by (rule bnd_InrE) (auto simp: case_prod_beta)
  then show ?thesis using that by (cases r; cases "fst r") (auto simp: bnd_eq_Inr)
qed

text \<open>The ways a user's sessions are revoked.\<close>

inductive revokes :: "(string \<Rightarrow> string) \<Rightarrow> 'k crypto \<Rightarrow> auth_config \<Rightarrow> string \<Rightarrow> db \<Rightarrow> db \<Rightarrow> bool" for sha cr cf i where
  forced_out: "force_logout_staff sha i actor d = Inr d' \<Longrightarrow> revokes sha cr cf i d d'"
| deleted: "delete_staff sha i actor d = Inr d' \<Longrightarrow> d' \<noteq> d \<Longrightarrow> revokes sha cr cf i d d'"
| updated: "find_cashier i d = Inr u0 \<Longrightarrow> update_revokes b u0 \<Longrightarrow> update_staff sha cr salt i b actor d = Inr (u, d')
    \<Longrightarrow> revokes sha cr cf i d d'"
| changed: "get_current_user cr cf c k d = Inr (u, d1) \<Longrightarrow> us_id u = i
    \<Longrightarrow> change_password cr cf rq salt cur new u d1 = (Inr resp, evs, d') \<Longrightarrow> revokes sha cr cf i d d'"

lemma revokes_bumps:
  assumes "revokes sha cr cf i d d'" "users_ok d"
  shows "version_bumped i d d'"
  using assms(1)
proof (cases rule: revokes.cases)
  case (changed c k u d1 rq salt cur new resp evs)
  note f = current_user_frame [OF changed(1)]
  have ok1: "users_ok d1" using same_users_step [OF f(1,2)] assms(2) by (simp add: users_step_def)
  have "version_bumped i d1 d'"
    using changed(3)
  proof (cases rule: change_password_step)
    case (revoked h d2 v)
    have "version_bumped i d1 d2" using revoke_bumps [OF revoked(1) ok1, of u] f(2,3) changed(2) by simp
    then show ?thesis using revoked(2) by (rule bumped_then)
  qed simp
  then show ?thesis by (simp add: version_bumped_def f(2))
qed (use assms(2) force_logout_step(2) delete_staff_step(2) update_staff_step(2) in blast)+

lemma revokes_users_step:
  assumes "revokes sha cr cf i d d'" "users_ok d"
  shows "users_step d d'"
proof -
  have "auth_step sha cr cf d d'"
    using assms(1) by (cases rule: revokes.cases) (blast intro: auth_step.intros)+
  then show ?thesis using auth_step_users assms(2) by blast
qed

lemma revoked_for_good:
  assumes "decodes_alike cr" "users_ok d" "get_current_user cr cf c k d = Inr (u, d0)"
    and "revokes sha cr cf (us_id u) d1 d2" "users_step d0 d1" "users_step d2 d'"
  shows "get_current_user cr cf c k d' \<noteq> Inr w"
proof
  assume w: "get_current_user cr cf c k d' = Inr w"
  obtain p where p: "decode_token cr cf (the (case c of Some c \<Rightarrow> Some c | None \<Rightarrow> k)) d = Inr (Some p, d0)" "session_user p d0 = Inr u"
    using assms(3) by (rule current_user_token)
  obtain w' e where we: "w = (w', e)" by (cases w)
  obtain q where q: "decode_token cr cf (the (case c of Some c \<Rightarrow> Some c | None \<Rightarrow> k)) d' = Inr (Some q, e)" "session_user q e = Inr w'"
    using w unfolding we by (rule current_user_token)
  have pq: "q = p" by (rule decode_token_alike [OF assms(1) q(1) p(1)])
  have "users_ok d0"
    using same_users_step [OF current_user_frame(1,2) [OF assms(3)]] assms(2) by (simp add: users_step_def)
  then have ok1: "users_ok d1" using assms(5) by (simp add: users_step_def)
  have u: "u \<in> set (users d0)" "us_id u = claimed_id p" using session_user_row(1) [OF p(2)] by (auto simp: filter_eq_Cons_iff)
  then obtain u1 where u1: "u1 \<in> set (users d1)" "us_id u1 = us_id u" "us_token_version u \<le> us_token_version u1"
    using assms(5) unfolding users_step_def versions_grow_def by blast
  obtain x where x: "x \<in> set (users d2)" "us_id x = us_id u" "us_token_version u1 < us_token_version x"
    using revokes_bumps [OF assms(4) ok1] u1(1,2) unfolding version_bumped_def by blast
  have ok2: "users_ok d2" using revokes_users_step [OF assms(4) ok1] ok1 by (simp add: users_step_def)
  have "claimed_version p < us_token_version x" using session_user_row(3) [OF p(2)] x(3) u1(3) by simp
  moreover have "users_step d2 e"
    using users_step_trans [OF assms(6) same_users_step [OF current_user_frame(1,2) [OF w [unfolded we]]]] .
  ultimately show False using stale_version_refused [OF ok2 x(1)] x(2) u(2) q(2) pq by auto
qed

section \<open>A server that started accepts what it signs\<close>

text \<open>
  What \<open>jose\<close> promises: the header names the algorithm a token was signed with; a token is
  read back, subject and version, under the secret, or the public key, that belongs to what signed it, until it
  expires; whether a key can sign depends on the key alone.
\<close>

definition headers_name_alg :: "'k crypto \<Rightarrow> bool" where
  "headers_name_alg cr \<longleftrightarrow>
     (\<forall>c k t. jwt_encode_rs256 cr c k = Some t \<longrightarrow> t \<noteq> [] \<and> jwt_header_alg cr t = Some (Some RSA_ALGORITHM))
     \<and> (\<forall>c s a. jwt_encode_hmac cr c s a \<noteq> [] \<and> jwt_header_alg cr (jwt_encode_hmac cr c s a) = Some (Some a))"

definition same_session :: "claims option \<Rightarrow> claims \<Rightarrow> bool" where
  "same_session r c \<longleftrightarrow> (\<exists>p. r = Some p \<and> cl_sub p = cl_sub c \<and> cl_ver p = cl_ver c)"

definition reads_back :: "'k crypto \<Rightarrow> bool" where
  "reads_back cr \<longleftrightarrow>
     (\<forall>c s a now e. cl_exp c = Some e \<and> now < e \<longrightarrow> same_session (jwt_decode_hmac cr now (jwt_encode_hmac cr c s a) s a) c)
     \<and> (\<forall>c p k pub t probe s now e. jwt_encode_rs256 cr p k = Some probe \<and> jwt_decode_rs256 cr s probe pub \<noteq> None
          \<and> jwt_encode_rs256 cr c k = Some t \<and> cl_exp c = Some e \<and> now < e \<longrightarrow> same_session (jwt_decode_rs256 cr now t pub) c)"

definition keys_sign :: "'k crypto \<Rightarrow> bool" where
  "keys_sign cr \<longleftrightarrow> (\<forall>c p k. jwt_encode_rs256 cr p k \<noteq> None \<longrightarrow> jwt_encode_rs256 cr c k \<noteq> None)"

definition session_claims :: "auth_config \<Rightarrow> user \<Rightarrow> db \<Rightarrow> claims" where
  "session_claims cf u d = \<lparr>cl_sub = Some (us_id u), cl_exp = Some (clock d + ak_jwt_expires_minutes cf * us_per_minute),
     cl_role = Some (role_value (us_role u)), cl_ver = Some (us_token_version u)\<rparr>"

lemma shared_not_rsa: "shared_secret_algorithm cf \<noteq> RSA_ALGORITHM"
  by (auto simp: shared_secret_algorithm_def HMAC_ALGORITHMS_def RSA_ALGORITHM_def)

text \<open>The two ways a server starts: with a key pair that fits, or with a shared secret.\<close>

lemma check_jwt_keys_cases:
  assumes "check_jwt_keys cr cf now = Inr ()"
  obtains (rsa) priv publ probe where "rsa_keys cr cf = Inr (Some priv, Some publ)"
      "jwt_encode_rs256 cr probe_claims priv = Some probe" "jwt_decode_rs256 cr now probe publ \<noteq> None"
  | (shared) publ where "rsa_keys cr cf = Inr (None, publ)" "ak_jwt_accept_hs256 cf" "ak_jwt_secret cf \<noteq> []"
proof (cases "rsa_keys cr cf")
  case (Inr keys)
  obtain a b where ab: "keys = (a, b)" by (cases keys)
  show ?thesis
  proof (cases a)
    case None
    then show ?thesis using assms shared [of b] Inr ab by (auto simp: check_jwt_keys_def raise_if_eq_Inr)
  next
    case (Some priv)
    then obtain probe where "jwt_encode_rs256 cr probe_claims priv = Some probe"
      using assms Inr ab by (cases "jwt_encode_rs256 cr probe_claims priv") (auto simp: check_jwt_keys_def)
    then show ?thesis using assms rsa [of priv _ probe] Inr ab Some
      by (cases b) (auto simp: check_jwt_keys_def raise_if_eq_Inr)
  qed
qed (use assms in \<open>simp add: check_jwt_keys_def\<close>)

lemma started_signs:
  assumes "check_jwt_keys cr cf now = Inr ()" "keys_sign cr"
  obtains tok where "issue_token cr cf u d = Inr (\<lparr>tr_access_token = tok, tr_cookie = tok, tr_user = u\<rparr>, d\<lparr>clock := clock d + 1\<rparr>)"
    "\<And>priv publ. rsa_keys cr cf = Inr (Some priv, publ) \<Longrightarrow> jwt_encode_rs256 cr (session_claims cf u d) priv = Some tok"
    "\<And>publ. rsa_keys cr cf = Inr (None, publ)
       \<Longrightarrow> tok = jwt_encode_hmac cr (session_claims cf u d) (ak_jwt_secret cf) (shared_secret_algorithm cf)"
  using assms(1)
proof (cases rule: check_jwt_keys_cases)
  case (rsa priv publ probe)
  have "jwt_encode_rs256 cr (session_claims cf u d) priv \<noteq> None"
    using assms(2) rsa(2) unfolding keys_sign_def by force
  then obtain tok where "jwt_encode_rs256 cr (session_claims cf u d) priv = Some tok" by blast
  then show ?thesis
    using that [of tok] rsa(1) by (simp add: issue_token_def create_access_token_def read_clock_def Let_def session_claims_def)
next
  case (shared publ)
  then show ?thesis
    using that by (simp add: issue_token_def create_access_token_def read_clock_def Let_def session_claims_def)
qed

lemma session_userI:
  assumes "filter (\<lambda>x. us_id x = claimed_id p) (users d) = [u]" "us_is_active u" "claimed_version p = us_token_version u"
  shows "session_user p d = Inr u"
  using assms fetch_eq_Inr [of "unauthorized ''User not found or inactive''" "\<lambda>u. us_id u = claimed_id p" "users d" u]
  by (simp add: session_user_def)

lemma current_user_accepts:
  assumes "jwt_header_alg cr tok = Some alg" "tok \<noteq> []" "decode_token cr cf tok d = Inr (Some p, d')" "session_user p d' = Inr u"
  shows "get_current_user cr cf (Some tok) k d = Inr (u, d')" "get_current_user cr cf None (Some tok) d = Inr (u, d')"
  using assms by (simp_all add: get_current_user_def falsy_def)

lemma started_accepts:
  assumes "check_jwt_keys cr cf now = Inr ()" "headers_name_alg cr" "reads_back cr" "keys_sign cr"
    and "issue_token cr cf u d = Inr (resp, d1)" "clock e < clock d + ak_jwt_expires_minutes cf * us_per_minute"
    and "filter (\<lambda>x. us_id x = us_id u) (users e) = [v]" "us_is_active v" "us_token_version v = us_token_version u"
  shows "get_current_user cr cf (Some (tr_access_token resp)) k e = Inr (v, e\<lparr>clock := clock e + 1\<rparr>)"
    "get_current_user cr cf None (Some (tr_cookie resp)) e = Inr (v, e\<lparr>clock := clock e + 1\<rparr>)"
proof -
  let ?c = "session_claims cf u d" and ?e = "e\<lparr>clock := clock e + 1\<rparr>"
  obtain tok where i: "issue_token cr cf u d = Inr (\<lparr>tr_access_token = tok, tr_cookie = tok, tr_user = u\<rparr>, d\<lparr>clock := clock d + 1\<rparr>)"
    and rsa: "\<And>priv publ. rsa_keys cr cf = Inr (Some priv, publ) \<Longrightarrow> jwt_encode_rs256 cr ?c priv = Some tok"
    and hmac: "\<And>publ. rsa_keys cr cf = Inr (None, publ) \<Longrightarrow> tok = jwt_encode_hmac cr ?c (ak_jwt_secret cf) (shared_secret_algorithm cf)"
    by (rule started_signs [OF assms(1,4)]) blast
  have resp: "tr_access_token resp = tok" "tr_cookie resp = tok" using assms(5) i by auto
  have c: "cl_exp ?c = Some (clock d + ak_jwt_expires_minutes cf * us_per_minute)" "claimed_id ?c = us_id u"
    "claimed_version ?c = us_token_version u"
    by (simp_all add: session_claims_def claimed_id_def claimed_version_def)
  have su: "session_user p ?e = Inr v" if "cl_sub p = cl_sub ?c" "cl_ver p = cl_ver ?c" for p
  proof -
    have "claimed_id p = us_id u" "claimed_version p = us_token_version u"
      using c(2,3) that by (simp_all add: claimed_id_def claimed_version_def)
    then show ?thesis by (intro session_userI) (use assms(7-9) in simp_all)
  qed
  from assms(1) have "\<exists>alg p. jwt_header_alg cr tok = Some alg \<and> tok \<noteq> [] \<and> decode_token cr cf tok e = Inr (Some p, ?e)
    \<and> cl_sub p = cl_sub ?c \<and> cl_ver p = cl_ver ?c"
  proof (cases rule: check_jwt_keys_cases)
    case (rsa priv publ probe)
    note t = \<open>\<And>priv publ. rsa_keys cr cf = Inr (Some priv, publ) \<Longrightarrow> jwt_encode_rs256 cr ?c priv = Some tok\<close> [OF rsa(1)]
    have h: "tok \<noteq> []" "jwt_header_alg cr tok = Some (Some RSA_ALGORITHM)"
      using assms(2) t unfolding headers_name_alg_def by blast+
    have "same_session (jwt_decode_rs256 cr (clock e) tok publ) ?c"
      using assms(3) rsa(2,3) t c(1) assms(6) unfolding reads_back_def by blast
    then show ?thesis using h rsa(1) by (auto simp: decode_token_def read_clock_def same_session_def)
  next
    case (shared publ)
    note t = hmac [OF shared(1)]
    have h: "tok \<noteq> []" "jwt_header_alg cr tok = Some (Some (shared_secret_algorithm cf))"
      using assms(2) unfolding t headers_name_alg_def by blast+
    have "same_session (jwt_decode_hmac cr (clock e) tok (ak_jwt_secret cf) (shared_secret_algorithm cf)) ?c"
      using assms(3) c(1) assms(6) unfolding t reads_back_def by blast
    then show ?thesis using h shared shared_not_rsa [of cf]
      by (auto simp: decode_token_def read_clock_def Let_def same_session_def)
  qed
  then obtain alg p where k: "jwt_header_alg cr tok = Some alg" "tok \<noteq> []" "decode_token cr cf tok e = Inr (Some p, ?e)"
    and p: "cl_sub p = cl_sub ?c" "cl_ver p = cl_ver ?c" by blast
  from current_user_accepts [OF k su [OF p]] show "get_current_user cr cf (Some (tr_access_token resp)) k e = Inr (v, ?e)"
    "get_current_user cr cf None (Some (tr_cookie resp)) e = Inr (v, ?e)"
    unfolding resp by simp_all
qed

section \<open>No telling an account from none\<close>

lemma append_users_irrelevant:
  "append_auth_event sha cf ev (d\<lparr>users := us\<rparr>) = bnd (append_auth_event sha cf ev d) (\<lambda>d'. Inr (d'\<lparr>users := us\<rparr>))"
  by (cases "compute_auth_entry_hash sha (latest_entry_hash (auth_head d))
      \<lparr>aa_id = uid (uid_next d), aa_event_type = ev_event_type ev, aa_occurred_at = clock d, aa_user_id = ev_user_id ev,
       aa_claimed_email = ev_claimed_email ev, aa_client_ip = ev_client_ip ev, aa_user_agent = ev_user_agent ev,
       aa_detail = ev_detail ev, aa_retention_until_at = retention_until cf (clock d),
       aa_prev_hash = latest_entry_hash (auth_head d), aa_entry_hash = []\<rparr>")
    (simp_all add: append_auth_event_def read_clock_def fresh_uid_def Let_def raise_if_def)

lemma locked_users_irrelevant [simp]:
  "locked_at (d\<lparr>users := us\<rparr>) e now = locked_at d e now" "failures_at (d\<lparr>users := us\<rparr>) e now = failures_at d e now"
  by (rule answers_cong, simp)+

lemma write_users_irrelevant:
  "write_failed_login sha cf e ip ua (d\<lparr>users := us\<rparr>)
    = bnd (write_failed_login sha cf e ip ua d) (\<lambda>d'. Inr (d'\<lparr>users := us\<rparr>))"
proof (cases "append_auth_event sha cf (failed_login_event e ip ua) d")
  case (Inr d1)
  have eq: "d1\<lparr>users := us, clock := clock d1 + 1\<rparr> = (d1\<lparr>clock := clock d1 + 1\<rparr>)\<lparr>users := us\<rparr>" by simp
  show ?thesis
    using Inr append_users_irrelevant [of sha cf "locked_event e ip ua" us "d1\<lparr>clock := clock d1 + 1\<rparr>", folded eq]
    by (simp add: write_failed_login_def append_users_irrelevant)
qed (simp add: write_failed_login_def append_users_irrelevant)

lemma record_users_irrelevant:
  "record_failed_login sha cf e ip ua (d\<lparr>users := us\<rparr>) = (record_failed_login sha cf e ip ua d)\<lparr>users := us\<rparr>"
proof (cases "write_failed_login sha cf e ip ua d")
  case (Inl e)
  then show ?thesis by (simp add: record_failed_login_def write_users_irrelevant)
next
  case (Inr d1)
  then show ?thesis by (simp add: record_failed_login_def write_users_irrelevant)
qed

lemma login_without_account:
  assumes "scalar_one_or_none (\<lambda>u. us_email u = e) (users d) = Inr (Some u)" "\<not> verify_password cr p (us_password_hash u)"
    and "login sha cr cf rq e p d = (out, evs, d')"
    and "login sha cr cf rq e p (d\<lparr>users := filter (\<lambda>u. us_email u \<noteq> e) (users d)\<rparr>) = (out2, evs2, d2)"
  shows "out2 = out \<and> evs2 = evs \<and> auth_log d2 = auth_log d' \<and> auth_head d2 = auth_head d' \<and> clock d2 = clock d'"
proof (cases "locked_at d e (clock d)")
  case True
  then have "locked_at (d\<lparr>users := filter (\<lambda>u. us_email u \<noteq> e) (users d)\<rparr>) e (clock (d\<lparr>users := filter (\<lambda>u. us_email u \<noteq> e) (users d)\<rparr>))"
    by simp
  from locked_login [OF this, of sha cr cf rq p] locked_login [OF True, of sha cr cf rq p] show ?thesis
    using assms(3,4) by simp
next
  case False
  let ?us = "filter (\<lambda>u. us_email u \<noteq> e) (users d)"
  have n: "scalar_one_or_none (\<lambda>u. us_email u = e) ?us = Inr None" by (simp add: scalar_one_or_none_def)
  have "login sha cr cf rq e p d = (Inl (unauthorized ''Invalid credentials''), [],
     record_failed_login sha cf e (get_client_ip rq) (rq_user_agent rq) (d\<lparr>clock := clock d + 1\<rparr>))"
    by (rule wrong_password_login [OF False assms(1)]) (simp add: assms(2))
  moreover have "login sha cr cf rq e p (d\<lparr>users := ?us\<rparr>) = (Inl (unauthorized ''Invalid credentials''), [],
     record_failed_login sha cf e (get_client_ip rq) (rq_user_agent rq) ((d\<lparr>users := ?us\<rparr>)\<lparr>clock := clock (d\<lparr>users := ?us\<rparr>) + 1\<rparr>))"
    by (rule wrong_password_login [where found = None]) (use False n in simp_all)
  moreover have "(d\<lparr>users := ?us\<rparr>)\<lparr>clock := clock (d\<lparr>users := ?us\<rparr>) + 1\<rparr> = (d\<lparr>clock := clock d + 1\<rparr>)\<lparr>users := ?us\<rparr>" by simp
  ultimately have "d2 = (record_failed_login sha cf e (get_client_ip rq) (rq_user_agent rq) (d\<lparr>clock := clock d + 1\<rparr>))\<lparr>users := ?us\<rparr>"
    and "out = Inl (unauthorized ''Invalid credentials'')" "out2 = out" "evs = []" "evs2 = []"
    and "d' = record_failed_login sha cf e (get_client_ip rq) (rq_user_agent rq) (d\<lparr>clock := clock d + 1\<rparr>)"
    using assms(3,4) record_users_irrelevant by (metis Pair_inject)+
  then show ?thesis by simp
qed

end
