(* ===== verification/Access.thy ===== *)
theory Access
  imports Sessions ShopRuns "HOL-Library.Countable"
begin

text \<open>
  The properties of signing in, each over every sequence of the handlers, the background
  writes and the requests in between, with the runs that witness them: a shop with two
  users, and a library whose tokens are the claims themselves, written as a number.
\<close>

section \<open>A shop with two users\<close>

definition demo_user :: "nat \<Rightarrow> string \<Rightarrow> role \<Rightarrow> user" where
  "demo_user n email r = \<lparr>us_id = uid n, us_email = email, us_name = email, us_password_hash = ''h:secret'',
     us_role = r, us_is_active = True, us_token_version = 0\<rparr>"

definition access_db :: db where
  "access_db = (empty_db demo_clock)\<lparr>uid_next := 2,
     users := [demo_user 0 ''boss@shop.lb'' ADMIN, demo_user 1 ''till@shop.lb'' CASHIER]\<rparr>"

text \<open>A token is a number in unary: that of its algorithm and its claims.\<close>

definition demo_token :: "string \<Rightarrow> claims \<Rightarrow> string" where
  "demo_token alg c = replicate (Suc (to_nat (alg, cl_sub c, cl_exp c, cl_role c, cl_ver c))) (CHR ''x'')"

definition demo_parts :: "string \<Rightarrow> string \<times> claims" where
  "demo_parts tok = (case from_nat (length tok - 1) of (alg, s, e, r, v) \<Rightarrow>
     (alg, \<lparr>cl_sub = s, cl_exp = e, cl_role = r, cl_ver = v\<rparr>))"

definition demo_read :: "instant \<Rightarrow> string \<Rightarrow> string \<Rightarrow> claims option" where
  "demo_read now alg tok = (case demo_parts tok of (a, c) \<Rightarrow>
     if a = alg \<and> (case cl_exp c of None \<Rightarrow> True | Some e \<Rightarrow> now < e) then Some c else None)"

definition demo_crypto :: "nat crypto" where
  "demo_crypto = \<lparr>jwk_construct = (\<lambda>s. Some (length s)), jwk_public_key = id,
     jwt_encode_rs256 = (\<lambda>c k. Some (demo_token RSA_ALGORITHM c)), jwt_decode_rs256 = (\<lambda>now tok k. demo_read now RSA_ALGORITHM tok),
     jwt_encode_hmac = (\<lambda>c s a. demo_token a c), jwt_decode_hmac = (\<lambda>now tok s a. demo_read now a tok),
     jwt_header_alg = (\<lambda>tok. Some (Some (fst (demo_parts tok)))),
     bcrypt_hashpw = (\<lambda>p salt. ''h:'' @ p), bcrypt_checkpw = (\<lambda>p h. h = ''h:'' @ p)\<rparr>"

definition demo_auth_config :: auth_config where
  "demo_auth_config = \<lparr>ak_jwt_secret = ''s'', ak_jwt_algorithm = ''HS256'', ak_jwt_expires_minutes = 480,
     ak_jwt_private_key_pem = [], ak_jwt_public_key_pem = [], ak_jwt_accept_hs256 = True, ak_auth_audit_retention_days = 365\<rparr>"

definition demo_http :: request where
  "demo_http = \<lparr>rq_x_forwarded_for = None, rq_client_host = Some ''10.0.0.7'', rq_user_agent = None\<rparr>"

lemma demo_parts_token [simp]: "demo_parts (demo_token alg c) = (alg, c)"
  by (simp add: demo_parts_def demo_token_def)

lemma demo_laws: "headers_name_alg demo_crypto" "reads_back demo_crypto" "keys_sign demo_crypto" "decodes_alike demo_crypto"
proof -
  have "demo_token a c \<noteq> []" for a c by (simp add: demo_token_def)
  then show "headers_name_alg demo_crypto" by (auto simp: headers_name_alg_def demo_crypto_def)
  show "reads_back demo_crypto" by (auto simp: reads_back_def same_session_def demo_crypto_def demo_read_def)
  show "keys_sign demo_crypto" by (simp add: keys_sign_def demo_crypto_def)
  show "decodes_alike demo_crypto" by (auto simp: decodes_alike_def demo_crypto_def demo_read_def split: prod.splits if_splits)
qed

lemma access_db_parts:
  "users access_db = [demo_user 0 ''boss@shop.lb'' ADMIN, demo_user 1 ''till@shop.lb'' CASHIER]"
  "auth_log access_db = []" "auth_head access_db = \<lparr>latest_entry_hash = GENESIS_HASH, row_count = 0\<rparr>"
  "clock access_db = demo_clock" "uid_next access_db = 2" "inv_ledger access_db = []"
  by (simp_all add: access_db_def empty_db_def)

lemma access_users_ok: "users_ok access_db"
proof -
  have "\<exists>n < 2. uid 0 = uid n" "\<exists>n < 2. uid 1 = uid n" by (auto intro: exI [of _ 0] exI [of _ 1])
  then show ?thesis by (simp add: users_ok_def access_db_parts demo_user_def)
qed

section \<open>The authentication log\<close>

text \<open>A log before its first row.\<close>

definition log_empty :: "db \<Rightarrow> bool" where
  "log_empty d \<longleftrightarrow> auth_log d = [] \<and> auth_head d = \<lparr>latest_entry_hash = GENESIS_HASH, row_count = 0\<rparr>"

lemma log_empty_ok: "log_empty d \<Longrightarrow> auth_ok sha d \<and> lock_rate e d \<and> locks_spaced e d"
  by (simp add: log_empty_def auth_ok_def lock_rate_def tail_failures_def locks_spaced_def)

lemma access_log_empty: "log_empty access_db"
  by (simp add: log_empty_def access_db_parts)

text \<open>
  C24. Whatever is tried at the login and done in the staff pages, with background events
  written or lost and other requests in between, the chain over the authentication log
  verifies and its head agrees: \<open>verify_auth_audit\<close> reports no break.
\<close>

theorem auth_log_verifies:
  assumes "log_empty d0" "(auth_step sha cr cf)\<^sup>*\<^sup>* d0 d" "us_role actor = ADMIN"
  shows "\<exists>r. verify_auth_audit sha actor d = Inr r \<and> cr_status (av_report r) \<noteq> Broken
    \<and> cr_total_rows (av_report r) = length (auth_log d) \<and> av_head_matches r"
proof -
  have ok: "auth_ok sha d" using auth_reach_ok [OF assms(2)] log_empty_ok [OF assms(1)] by blast
  then have "sorted_wrt (<) (map aa_occurred_at (auth_log d))" by (simp add: auth_ok_def)
  then have "sorted (map (\<lambda>r. (aa_occurred_at r, aa_id r)) (auth_log d))"
    unfolding sorted_map sorted_wrt_map by (rule sorted_wrt_mono_rel [rotated]) simp
  then have s: "sort_key (\<lambda>r. (aa_occurred_at r, aa_id r)) (auth_log d) = auth_log d" by (rule sort_key_sorted)
  have "ac.linked sha GENESIS_HASH (auth_log d)" using ok by (simp add: auth_ok_def)
  from ac.walk_linked [OF this, of 0] show ?thesis
    using ok assms(3) by (auto simp: verify_auth_audit_def s verify_auth_chain_def require_admin_def raise_if_def Let_def
        auth_ok_def GENESIS_HASH_def)
qed

section \<open>Running the login\<close>

lemma demo_append:
  assumes "auth_ok demo_sha d"
  obtains d' where "append_auth_event demo_sha cf ev d = Inr d'"
proof -
  have l: "ac.linked demo_sha GENESIS_HASH (auth_log d)" using assms by (simp add: auth_ok_def)
  have h: "latest_entry_hash (auth_head d) = ac.last_hash GENESIS_HASH (auth_log d)"
    using assms by (simp add: auth_ok_def last_map)
  have "demo_sha (chain_blob (latest_entry_hash (auth_head d)) x) \<noteq> aa_entry_hash r" if "r \<in> set (auth_log d)" for x r
    using ac.linked_fresh [OF _ l that, of x] by (simp add: h demo_sha_def)
  moreover have "latest_entry_hash (auth_head d) \<noteq> []"
    using ac.linked_growing [OF _ l] by (auto simp: h demo_sha_def GENESIS_HASH_def split: if_splits)
  ultimately have "\<exists>d'. append_auth_event demo_sha cf ev d = Inr d'"
    by (auto simp: append_auth_event_def read_clock_def fresh_uid_def Let_def compute_auth_entry_hash_def compute_hash_def raise_if_def)
  then show ?thesis using that by blast
qed

lemma answers_clock [simp]:
  "locked_at (d\<lparr>clock := t\<rparr>) e now = locked_at d e now" "failures_at (d\<lparr>clock := t\<rparr>) e now = failures_at d e now"
  by (rule answers_cong, simp)+

text \<open>After \<open>n\<close> wrong passwords, a second apart at most, and before the tenth.\<close>

definition tried :: "nat \<Rightarrow> db \<Rightarrow> bool" where
  "tried n d \<longleftrightarrow> (auth_step demo_sha demo_crypto demo_auth_config)\<^sup>*\<^sup>* access_db d \<and> users d = users access_db
     \<and> clock d = demo_clock + 3 * int n
     \<and> (\<forall>r \<in> set (auth_log d). aa_event_type r = EVENT_LOGIN_FAILED)
     \<and> (\<forall>now. clock d \<le> now \<longrightarrow> now < demo_clock + LOCKOUT_WINDOW \<longrightarrow> failures_at d ''till@shop.lb'' now = n)"

lemma email_demo: "email_valid ''till@shop.lb''"
  by code_simp

lemma tried_ok: "tried n d \<Longrightarrow> auth_ok demo_sha d"
  using auth_reach_ok log_empty_ok [OF access_log_empty] unfolding tried_def by blast

lemma tried_0: "tried 0 access_db"
  by (simp add: tried_def access_db_parts failures_at_def max_at_def)

lemma tried_unlocked: "tried n d \<Longrightarrow> \<not> locked_at d e now"
  by (auto simp: tried_def locked_at_iff locked_row_def event_names)

lemma tried_wrong:
  assumes "tried n d"
  shows "scalar_one_or_none (\<lambda>u. us_email u = ''till@shop.lb'') (users d) = Inr (Some (demo_user 1 ''till@shop.lb'' CASHIER))"
    "\<not> verify_password demo_crypto ''guess'' (us_password_hash (demo_user 1 ''till@shop.lb'' CASHIER))"
  using assms by (simp_all add: tried_def access_db_parts scalar_one_or_none_def demo_user_def verify_password_def demo_crypto_def)

lemma tried_login:
  assumes "tried n d"
  shows "login demo_sha demo_crypto demo_auth_config demo_http ''till@shop.lb'' ''guess'' d = (Inl (unauthorized ''Invalid credentials''), [],
     record_failed_login demo_sha demo_auth_config ''till@shop.lb'' (Some ''10.0.0.7'') None (d\<lparr>clock := clock d + 1\<rparr>))"
  using wrong_password_login [OF tried_unlocked [OF assms] tried_wrong(1) [OF assms], of demo_crypto "''guess''" demo_sha demo_auth_config demo_http]
    tried_wrong(2) [OF assms] by (simp add: demo_http_def get_client_ip_def)

lemma tried_Suc:
  assumes "tried n d" "n < 9"
  obtains d' where "tried (Suc n) d'"
proof -
  let ?d = "d\<lparr>clock := clock d + 1\<rparr>" and ?e = "''till@shop.lb''"
  have ok: "auth_ok demo_sha ?d" by (rule same_auth_ok [OF tick_same_auth tried_ok [OF assms(1)]])
  obtain d1 where a: "append_auth_event demo_sha demo_auth_config (failed_login_event ?e (Some ''10.0.0.7'') None) ?d = Inr d1"
    by (rule demo_append [OF ok])
  have t: "clock d = demo_clock + 3 * int n" "users d = users access_db"
    and rows: "\<forall>r \<in> set (auth_log d). aa_event_type r = EVENT_LOGIN_FAILED"
    and f: "\<And>now. clock d \<le> now \<Longrightarrow> now < demo_clock + LOCKOUT_WINDOW \<Longrightarrow> failures_at d ?e now = n"
    using assms(1) by (simp_all add: tried_def)
  obtain r where r: "auth_log d1 = auth_log d @ [r]" "clock d1 = clock d + 2" "users d1 = users d" "aa_event_type r = EVENT_LOGIN_FAILED"
  proof (rule append_auth_event_steps [OF a])
    fix r
    assume "auth_log d1 = auth_log ?d @ [r]" "clock d1 = clock ?d + 1 \<and> users d1 = users ?d \<and> uid_next d1 = Suc (uid_next ?d)"
      "aa_event_type r = ev_event_type (failed_login_event ?e (Some ''10.0.0.7'') None)"
    then show ?thesis by (intro that [of r]) (simp_all add: failed_login_event_def)
  qed
  have g: "failures_at d1 ?e now = Suc n" if "clock d1 \<le> now" "now < demo_clock + LOCKOUT_WINDOW" for now
  proof -
    have "failures_at d1 ?e now = Suc (failures_at ?d ?e now)"
      by (rule failure_counted [OF a email_demo ok]) (use that r(2) t(1) in simp_all)
    also have "failures_at ?d ?e now = n" using f [of now] that r(2) by simp
    finally show ?thesis .
  qed
  have "clock d1 < demo_clock + LOCKOUT_WINDOW"
    using assms(2) r(2) t(1) by (simp add: LOCKOUT_WINDOW_def us_per_minute_def us_per_second_def)
  then have "failures_at d1 ?e (clock d1) = Suc n" by (intro g) simp_all
  then have "record_failed_login demo_sha demo_auth_config ?e (Some ''10.0.0.7'') None ?d = d1\<lparr>clock := clock d1 + 1\<rparr>"
    using a assms(2) by (simp add: record_failed_login_def write_failed_login_def LOCKOUT_THRESHOLD_def)
  then have "auth_step demo_sha demo_crypto demo_auth_config d (d1\<lparr>clock := clock d1 + 1\<rparr>)"
    using auth_step.login [OF tried_login [OF assms(1)] email_demo] by simp
  moreover have "(auth_step demo_sha demo_crypto demo_auth_config)\<^sup>*\<^sup>* access_db d" using assms(1) by (simp add: tried_def)
  ultimately have "(auth_step demo_sha demo_crypto demo_auth_config)\<^sup>*\<^sup>* access_db (d1\<lparr>clock := clock d1 + 1\<rparr>)" by simp
  then have "tried (Suc n) (d1\<lparr>clock := clock d1 + 1\<rparr>)"
    unfolding tried_def using r rows t g by auto
  then show ?thesis by (rule that)
qed

lemma tried_nine: "\<exists>d. tried 9 d"
proof -
  have "\<exists>d. tried n d" if "n \<le> 9" for n
    using that
  proof (induction n)
    case (Suc n)
    then obtain d where d: "tried n d" "n < 9" by auto
    show ?case by (rule tried_Suc [OF d]) (rule exI)
  qed (use tried_0 in blast)
  then show ?thesis by simp
qed

section \<open>The lockout\<close>

text \<open>
  C20. Ten in a row lock. When nine failures count against an email and a tenth login with a
  wrong password, or for an account that does not exist, is written to the log, the email is
  locked: the next login is refused with a 429 whatever its password, and writes nothing.
\<close>

theorem tenth_failure_locks:
  assumes "auth_ok sha d" "email_valid e" "\<not> locked_at d e (clock d)"
    and "scalar_one_or_none (\<lambda>u. us_email u = e) (users d) = Inr found"
    and "found = None \<or> \<not> verify_password cr p (us_password_hash (the found))"
    and "9 \<le> failures_at d e (clock d + 2)"
    and "login sha cr cf rq e p d = (out, evs, d')" "auth_log d' \<noteq> auth_log d"
  shows "login sha cr cf rq2 e q d' = (Inl (HTTPException 429 (Msg LOCKOUT_DETAIL [])), [], d'\<lparr>clock := clock d' + 1\<rparr>)"
proof -
  let ?d = "d\<lparr>clock := clock d + 1\<rparr>"
  have d': "d' = record_failed_login sha cf e (get_client_ip rq) (rq_user_agent rq) ?d"
    using wrong_password_login [OF assms(3-5), of sha cf rq] assms(7) by simp
  then have w: "failure_written sha cf e ?d d'"
    using record_failed_login_cases [of sha cf e "get_client_ip rq" "rq_user_agent rq" ?d] assms(8) by auto
  have "locked_at d' e (clock d')"
    by (rule tenth_failure [OF w assms(2) same_auth_ok [OF tick_same_auth assms(1)]])
      (use assms(6) in \<open>simp add: LOCKOUT_THRESHOLD_def add.commute\<close>)
  then show ?thesis by (rule locked_login)
qed

text \<open>The tenth attempt of the demo.\<close>

lemma demo_tenth:
  obtains d d' where "tried 9 d"
    "login demo_sha demo_crypto demo_auth_config demo_http ''till@shop.lb'' ''guess'' d = (Inl (unauthorized ''Invalid credentials''), [], d')"
    "failure_written demo_sha demo_auth_config ''till@shop.lb'' (d\<lparr>clock := clock d + 1\<rparr>) d'"
    "(auth_step demo_sha demo_crypto demo_auth_config)\<^sup>*\<^sup>* access_db d'"
proof -
  let ?e = "''till@shop.lb''"
  obtain d where d: "tried 9 d" using tried_nine by blast
  let ?d = "d\<lparr>clock := clock d + 1\<rparr>"
  let ?d' = "record_failed_login demo_sha demo_auth_config ?e (Some ''10.0.0.7'') None ?d"
  have ok: "auth_ok demo_sha ?d" by (rule same_auth_ok [OF tick_same_auth tried_ok [OF d]])
  obtain d1 where a: "append_auth_event demo_sha demo_auth_config (failed_login_event ?e (Some ''10.0.0.7'') None) ?d = Inr d1"
    by (rule demo_append [OF ok])
  have ok1: "auth_ok demo_sha (d1\<lparr>clock := clock d1 + 1\<rparr>)"
    by (rule same_auth_ok [OF tick_same_auth append_auth_event_ok [OF a ok]])
  obtain d2 where b: "append_auth_event demo_sha demo_auth_config (locked_event ?e (Some ''10.0.0.7'') None) (d1\<lparr>clock := clock d1 + 1\<rparr>) = Inr d2"
    by (rule demo_append [OF ok1])
  have "clock d1 = clock d + 2" by (rule append_auth_event_steps [OF a]) simp
  moreover have "failures_at d1 ?e (clock d1) = Suc (failures_at ?d ?e (clock d1))"
    by (rule failure_counted [OF a email_demo ok])
      (use calculation in \<open>simp_all add: LOCKOUT_WINDOW_def us_per_minute_def us_per_second_def\<close>)
  moreover have "failures_at d ?e (clock d + 2) = 9"
    using d by (simp add: tried_def LOCKOUT_WINDOW_def us_per_minute_def us_per_second_def)
  ultimately have n: "failures_at d1 ?e (clock d1) = 10" by simp
  then have d': "?d' = d2" using a b by (simp add: record_failed_login_def write_failed_login_def LOCKOUT_THRESHOLD_def)
  have w: "failure_written demo_sha demo_auth_config ?e ?d d2"
    unfolding failure_written_def LOCKOUT_THRESHOLD_def by (intro exI conjI, rule a) (simp add: n b)
  note l = tried_login [OF d, unfolded d']
  have "auth_step demo_sha demo_crypto demo_auth_config d d2" by (rule auth_step.login [OF l email_demo])
  then have "(auth_step demo_sha demo_crypto demo_auth_config)\<^sup>*\<^sup>* access_db d2"
    using d unfolding tried_def by (blast intro: rtranclp.rtrancl_into_rtrancl)
  with d l w show ?thesis by (rule that)
qed

lemma failure_written_log:
  assumes "failure_written sha cf e d d'"
  shows "auth_log d' \<noteq> auth_log d"
proof -
  obtain ip ua d1 where a: "append_auth_event sha cf (failed_login_event e ip ua) d = Inr d1"
    and b: "d' = d1\<lparr>clock := clock d1 + 1\<rparr> \<or> append_auth_event sha cf (locked_event e ip ua) (d1\<lparr>clock := clock d1 + 1\<rparr>) = Inr d'"
    using assms by (auto simp: failure_written_def)
  have "length (auth_log d) < length (auth_log d1)" by (rule append_auth_event_steps [OF a]) simp
  moreover have "length (auth_log d1) \<le> length (auth_log d')"
    using b by (auto elim!: append_auth_event_steps)
  ultimately show ?thesis by force
qed

theorem tenth_failure_locks_witness:
  "\<exists>d d'. tried 9 d
     \<and> login demo_sha demo_crypto demo_auth_config demo_http ''till@shop.lb'' ''guess'' d = (Inl (unauthorized ''Invalid credentials''), [], d')
     \<and> fst (login demo_sha demo_crypto demo_auth_config demo_http ''till@shop.lb'' ''secret'' d') = Inl (HTTPException 429 (Msg LOCKOUT_DETAIL []))"
proof (rule demo_tenth)
  fix d d'
  assume d: "tried 9 d"
    and l: "login demo_sha demo_crypto demo_auth_config demo_http ''till@shop.lb'' ''guess'' d = (Inl (unauthorized ''Invalid credentials''), [], d')"
    and w: "failure_written demo_sha demo_auth_config ''till@shop.lb'' (d\<lparr>clock := clock d + 1\<rparr>) d'"
  have n: "9 \<le> failures_at d ''till@shop.lb'' (clock d + 2)"
    using d by (simp add: tried_def LOCKOUT_WINDOW_def us_per_minute_def us_per_second_def)
  have "fst (login demo_sha demo_crypto demo_auth_config demo_http ''till@shop.lb'' ''secret'' d') = Inl (HTTPException 429 (Msg LOCKOUT_DETAIL []))"
    by (subst tenth_failure_locks [OF tried_ok [OF d] email_demo tried_unlocked [OF d] tried_wrong(1) [OF d] _ n l])
      (use tried_wrong(2) [OF d] failure_written_log [OF w] in simp_all)
  with d l show ?thesis by blast
qed

text \<open>
  C11. A lock is what the log says it is: in every state reached from an empty log, a login
  is refused with a 429 exactly when a lock of the email is less than fifteen minutes old and
  no admin lifted it since. So nothing but time and an admin ends a lock, and nothing extends it.
\<close>

theorem refused_iff_locked:
  assumes "log_empty d0" "(auth_step sha cr cf)\<^sup>*\<^sup>* d0 d"
  shows "fst (login sha cr cf rq e p d) = Inl (HTTPException 429 (Msg LOCKOUT_DETAIL []))
    \<longleftrightarrow> (\<exists>r \<in> set (auth_log d). claimed e r \<and> aa_event_type r = ''ACCOUNT_LOCKED'' \<and> clock d < aa_occurred_at r + 15 * 60 * 1000000
          \<and> \<not> (\<exists>u \<in> set (auth_log d). claimed e u \<and> aa_event_type u = ''ACCOUNT_UNLOCKED'' \<and> aa_occurred_at r < aa_occurred_at u))"
    (is "?l \<longleftrightarrow> ?r")
proof -
  have ok: "auth_ok sha d" using auth_reach_ok [OF assms(2)] log_empty_ok [OF assms(1)] by blast
  have dur: "LOCKOUT_DURATION = 15 * 60 * 1000000" by (simp add: LOCKOUT_DURATION_def us_per_minute_def us_per_second_def)
  have "?l \<longleftrightarrow> locked_at d e (clock d)"
  proof
    assume l: ?l
    show "locked_at d e (clock d)"
    proof (rule ccontr)
      assume "\<not> locked_at d e (clock d)"
      then show False using l
        by (auto simp: login_def Let_def unauthorized_def scalar_one_or_none_def issue_token_def create_access_token_def
            read_clock_def rsa_keys_def load_rsa_keys_def construct_key_def jwk_error_def res_simps
            split: if_split_asm sum.split_asm prod.split_asm option.split_asm list.split_asm)
    qed
  qed (simp add: locked_login)
  also have "\<dots> \<longleftrightarrow> ?r"
  proof
    assume "locked_at d e (clock d)"
    then obtain r where r: "r \<in> set (auth_log d)" "locked_row e r" "clock d < aa_occurred_at r + LOCKOUT_DURATION"
      and u: "\<And>u. u \<in> set (auth_log d) \<Longrightarrow> unlocked_row e u \<Longrightarrow> clock d < aa_occurred_at u + LOCKOUT_DURATION \<Longrightarrow> aa_occurred_at u < aa_occurred_at r"
      unfolding locked_at_iff by blast
    have "\<not> aa_occurred_at r < aa_occurred_at x" if "x \<in> set (auth_log d)" "unlocked_row e x" for x
      using u [OF that] r(3) by linarith
    then show ?r using r unfolding dur locked_row_def unlocked_row_def EVENT_ACCOUNT_LOCKED_def EVENT_ACCOUNT_UNLOCKED_def by blast
  next
    assume ?r
    then obtain r where r: "r \<in> set (auth_log d)" "locked_row e r" "clock d < aa_occurred_at r + LOCKOUT_DURATION"
      and u: "\<And>u. u \<in> set (auth_log d) \<Longrightarrow> unlocked_row e u \<Longrightarrow> \<not> aa_occurred_at r < aa_occurred_at u"
      unfolding dur locked_row_def unlocked_row_def EVENT_ACCOUNT_LOCKED_def EVENT_ACCOUNT_UNLOCKED_def by blast
    show "locked_at d e (clock d)" by (rule lock_holds [OF ok r]) (use u in \<open>force simp: not_less\<close>)
  qed
  finally show ?thesis .
qed

theorem refused_iff_locked_witness:
  "\<exists>d. (auth_step demo_sha demo_crypto demo_auth_config)\<^sup>*\<^sup>* access_db d
     \<and> (\<exists>r \<in> set (auth_log d). claimed ''till@shop.lb'' r \<and> aa_event_type r = ''ACCOUNT_LOCKED'' \<and> clock d < aa_occurred_at r + 15 * 60 * 1000000)"
proof (rule demo_tenth)
  fix d d'
  assume d: "tried 9 d" and re: "(auth_step demo_sha demo_crypto demo_auth_config)\<^sup>*\<^sup>* access_db d'"
    and l: "login demo_sha demo_crypto demo_auth_config demo_http ''till@shop.lb'' ''guess'' d = (Inl (unauthorized ''Invalid credentials''), [], d')"
    and w: "failure_written demo_sha demo_auth_config ''till@shop.lb'' (d\<lparr>clock := clock d + 1\<rparr>) d'"
  have "locked_at d' ''till@shop.lb'' (clock d')"
  proof (rule tenth_failure [OF w email_demo same_auth_ok [OF tick_same_auth tried_ok [OF d]]])
    show "LOCKOUT_THRESHOLD \<le> Suc (failures_at (d\<lparr>clock := clock d + 1\<rparr>) ''till@shop.lb'' (clock (d\<lparr>clock := clock d + 1\<rparr>) + 1))"
      using d by (simp add: tried_def LOCKOUT_WINDOW_def LOCKOUT_THRESHOLD_def us_per_minute_def us_per_second_def)
  qed
  then have "fst (login demo_sha demo_crypto demo_auth_config demo_http ''till@shop.lb'' ''secret'' d') = Inl (HTTPException 429 (Msg LOCKOUT_DETAIL []))"
    by (simp add: locked_login)
  then show ?thesis using refused_iff_locked [OF access_log_empty re] re by blast
qed

text \<open>
  C21. Locking is bounded: in every state reached from an empty log, an email has been locked
  at most once per ten failed logins, and two of its locks with no unlock between them are at
  least fifteen minutes apart.
\<close>

theorem lockout_bounded:
  assumes "log_empty d0" "(auth_step sha cr cf)\<^sup>*\<^sup>* d0 d"
  shows "10 * length (filter (locked_row e) (auth_log d)) \<le> length (filter (failed_row e) (auth_log d)) \<and> locks_spaced e d"
proof -
  have "lock_rate e d" "locks_spaced e d"
    using auth_reach_rate [OF assms(2)] auth_reach_spaced [OF assms(2)] log_empty_ok [OF assms(1)] by blast+
  then show ?thesis by (simp add: lock_rate_def LOCKOUT_THRESHOLD_def)
qed

theorem lockout_bounded_witness:
  "\<exists>d. (auth_step demo_sha demo_crypto demo_auth_config)\<^sup>*\<^sup>* access_db d
     \<and> 10 * length (filter (locked_row ''till@shop.lb'') (auth_log d)) \<le> length (filter (failed_row ''till@shop.lb'') (auth_log d))"
  by (rule demo_tenth) (use lockout_bounded [OF access_log_empty] in blast)

theorem auth_log_verifies_witness:
  "\<exists>d r. (auth_step demo_sha demo_crypto demo_auth_config)\<^sup>*\<^sup>* access_db d
     \<and> verify_auth_audit demo_sha (demo_user 0 ''boss@shop.lb'' ADMIN) d = Inr r \<and> av_head_matches r"
proof (rule demo_tenth)
  fix d d'
  assume re: "(auth_step demo_sha demo_crypto demo_auth_config)\<^sup>*\<^sup>* access_db d'"
  have "us_role (demo_user 0 ''boss@shop.lb'' ADMIN) = ADMIN" by (simp add: demo_user_def)
  from auth_log_verifies [OF access_log_empty re this] re show ?thesis by blast
qed

section \<open>Accounts and sessions\<close>

text \<open>
  C22. A login with a wrong password tells nothing about accounts: had the account not existed,
  the answer, the events, the log, its head and the clock would have been the same.
\<close>

theorem login_reveals_nothing:
  assumes "scalar_one_or_none (\<lambda>u. us_email u = e) (users d) = Inr (Some u)" "\<not> verify_password cr p (us_password_hash u)"
    and "login sha cr cf rq e p d = (out, evs, d')"
    and "login sha cr cf rq e p (d\<lparr>users := filter (\<lambda>u. us_email u \<noteq> e) (users d)\<rparr>) = (out2, evs2, d2)"
  shows "out2 = out \<and> evs2 = evs \<and> auth_log d2 = auth_log d' \<and> auth_head d2 = auth_head d' \<and> clock d2 = clock d'"
  by (rule login_without_account [OF assms])

theorem login_reveals_nothing_witness:
  "fst (login demo_sha demo_crypto demo_auth_config demo_http ''till@shop.lb'' ''guess'' (access_db\<lparr>users := [demo_user 0 ''boss@shop.lb'' ADMIN]\<rparr>))
     = fst (login demo_sha demo_crypto demo_auth_config demo_http ''till@shop.lb'' ''guess'' access_db)"
proof -
  obtain out evs d' where l: "login demo_sha demo_crypto demo_auth_config demo_http ''till@shop.lb'' ''guess'' access_db = (out, evs, d')"
    by (rule prod_cases3)
  have "filter (\<lambda>u. us_email u \<noteq> ''till@shop.lb'') (users access_db) = [demo_user 0 ''boss@shop.lb'' ADMIN]"
    by (simp add: access_db_parts demo_user_def)
  moreover obtain out2 evs2 d2 where m: "login demo_sha demo_crypto demo_auth_config demo_http ''till@shop.lb'' ''guess''
      (access_db\<lparr>users := filter (\<lambda>u. us_email u \<noteq> ''till@shop.lb'') (users access_db)\<rparr>) = (out2, evs2, d2)"
    by (rule prod_cases3)
  ultimately show ?thesis
    using login_reveals_nothing [OF tried_wrong [OF tried_0] l m] l m by simp
qed


lemma demo_started: "check_jwt_keys demo_crypto demo_auth_config demo_clock = Inr ()"
  by (simp add: check_jwt_keys_def rsa_keys_def load_rsa_keys_def demo_auth_config_def)

text \<open>The till's session.\<close>

lemma demo_session:
  obtains tok where "get_current_user demo_crypto demo_auth_config (Some tok) None access_db
    = Inr (demo_user 1 ''till@shop.lb'' CASHIER, access_db\<lparr>clock := demo_clock + 1\<rparr>)"
proof -
  let ?u = "demo_user 1 ''till@shop.lb'' CASHIER"
  have f: "filter (\<lambda>x. us_id x = us_id ?u) (users access_db) = [?u]" "us_is_active ?u"
    by (simp_all add: access_db_parts demo_user_def)
  have now: "clock access_db < clock access_db + ak_jwt_expires_minutes demo_auth_config * us_per_minute"
    by (simp add: demo_auth_config_def us_per_minute_def us_per_second_def)
  obtain tok where i: "issue_token demo_crypto demo_auth_config ?u access_db
      = Inr (\<lparr>tr_access_token = tok, tr_cookie = tok, tr_user = ?u\<rparr>, access_db\<lparr>clock := clock access_db + 1\<rparr>)"
    by (rule started_signs [OF demo_started demo_laws(3)])
  from started_accepts(1) [OF demo_started demo_laws(1-3) i now f refl, of None]
  show ?thesis by (intro that [of tok]) (simp add: access_db_parts(4))
qed


text \<open>
  C10. Revoked for good. Once a user's sessions are revoked, by an admin's forced logout, by a
  change or reset of the password, by deactivation or by deletion, no token that worked before
  is ever accepted again, whatever is done later.
\<close>

theorem revoked_sessions_stay_dead:
  assumes "decodes_alike cr" "users_ok d" "get_current_user cr cf c k d = Inr (u, d0)"
    and "(auth_step sha cr cf)\<^sup>*\<^sup>* d0 d1" "revokes sha cr cf (us_id u) d1 d2" "(auth_step sha cr cf)\<^sup>*\<^sup>* d2 d'"
  shows "\<exists>err. get_current_user cr cf c k d' = Inl err"
proof -
  have ok0: "users_ok d0"
    using same_users_step [OF current_user_frame(1,2) [OF assms(3)]] assms(2) by (simp add: users_step_def)
  have s1: "users_step d0 d1" by (rule auth_reach_users [OF assms(4) ok0])
  then have ok1: "users_ok d1" using ok0 by (simp add: users_step_def)
  then have ok2: "users_ok d2" using revokes_users_step [OF assms(5) ok1] by (simp add: users_step_def)
  have "get_current_user cr cf c k d' \<noteq> Inr w" for w
    by (rule revoked_for_good [OF assms(1-3,5) s1 auth_reach_users [OF assms(6) ok2]])
  then show ?thesis by (cases "get_current_user cr cf c k d'") auto
qed

theorem revoked_sessions_stay_dead_witness:
  "\<exists>tok d0 d'. get_current_user demo_crypto demo_auth_config (Some tok) None access_db = Inr (demo_user 1 ''till@shop.lb'' CASHIER, d0)
     \<and> force_logout_staff demo_sha (uid 1) (demo_user 0 ''boss@shop.lb'' ADMIN) d0 = Inr d'
     \<and> (\<exists>err. get_current_user demo_crypto demo_auth_config (Some tok) None d' = Inl err)"
proof -
  let ?boss = "demo_user 0 ''boss@shop.lb'' ADMIN" and ?d0 = "access_db\<lparr>clock := demo_clock + 1\<rparr>"
  obtain tok where t: "get_current_user demo_crypto demo_auth_config (Some tok) None access_db = Inr (demo_user 1 ''till@shop.lb'' CASHIER, ?d0)"
    by (rule demo_session)
  have u: "find_staff (uid 1) ?d0 = Inr (demo_user 1 ''till@shop.lb'' CASHIER)"
    by (simp add: find_staff_def fetch_def or_raise_def scalar_one_or_none_def access_db_parts demo_user_def)
  obtain v d1 where rv: "revoke_sessions (demo_user 1 ''till@shop.lb'' CASHIER) ?d0 = (v, d1)" by (rule prod.exhaust)
  have "inv_ledger d1 = []" "inv_head d1 = \<lparr>latest_entry_hash = GENESIS_HASH, row_count = 0\<rparr>"
    using rv by (auto simp: revoke_sessions_def Let_def access_db_def empty_db_def split: option.splits)
  then have "\<exists>r d'. ledger_record demo_sha EVENT_STAFF_FORCE_LOGOUT (us_id ?boss) ''user'' (us_id v)
      (PDict [(''email'', PStr (us_email v)), (''token_version'', PDict [(''from'', PInt (us_token_version v - 1)),
        (''to'', PInt (us_token_version v))])]) d1 = Inr (r, d')"
    by (intro ledger_record_fresh) (simp_all add: GENESIS_HASH_def)
  then obtain d' where f: "force_logout_staff demo_sha (uid 1) ?boss ?d0 = Inr d'"
    using u rv by (auto simp: force_logout_staff_def require_admin_def raise_if_def demo_user_def)
  have "revokes demo_sha demo_crypto demo_auth_config (us_id (demo_user 1 ''till@shop.lb'' CASHIER)) ?d0 d'"
    using revokes.forced_out [OF f] by (simp add: demo_user_def)
  from revoked_sessions_stay_dead [OF demo_laws(4) access_users_ok t rtranclp.rtrancl_refl this rtranclp.rtrancl_refl] t f
  show ?thesis by blast
qed

end
