(* ===== verification/Shop.thy ===== *)
theory Shop
  imports ShopRuns ReceivablesRuns
begin

text \<open>
  The properties of the shop's operations: the till, the walk-in counter, the lots, the
  suppliers and the stock-takes, each over the handlers as they are composed.
\<close>

section \<open>The books\<close>

text \<open>
  Every handler keeps the books: whatever sequence of sales, voids, refunds, buybacks,
  melts, polishings, lots, adjustments, purchases, repayments, stock-takes and accounting
  operations is run from an empty database, the trial balance balances in money and in
  every karat at every date, and both hash chains verify.
\<close>

theorem shop_keeps_books:
  assumes "(shop_step sha)\<^sup>*\<^sup>* (empty_db t) d"
  shows "tb_balanced (compute_trial_balance d as_of) \<and> tb_metal_balanced (compute_trial_balance d as_of)
    \<and> gl_chain_intact sha d = Inr True \<and> lc.linked sha GENESIS_HASH (inv_ledger d)"
proof -
  have "live_db sha (empty_db t)" unfolding live_db_def by (blast intro: reach.start)
  then have l: "live_db sha d" by (rule live.shop.shop_keeps [OF assms])
  have j: "journal_ok sha d" "ledger_ok sha d" by (rule live_db_ok [OF l])+
  show ?thesis using tb_is_balanced gl_chain_intact_ok [OF j(1)] j by (simp add: journal_ok_def ledger_ok_def)
qed

theorem shop_keeps_books_witness:
  "\<exists>s d. create_supplier demo_sha \<lparr>sn_name = ''Refinery'', sn_contact_name = None, sn_phone = None, sn_email = None,
       sn_address = None, sn_default_currency = ''USD'', sn_payment_terms = None, sn_notes = None\<rparr> ''u1'' (empty_db demo_clock) = Inr (s, d)
     \<and> gl_chain_intact demo_sha d = Inr True"
proof -
  let ?b = "\<lparr>sn_name = ''Refinery'', sn_contact_name = None, sn_phone = None, sn_email = None,
       sn_address = None, sn_default_currency = ''USD'', sn_payment_terms = None, sn_notes = None\<rparr>"
  have l: "live_db demo_sha (empty_db demo_clock)" unfolding live_db_def by (blast intro: reach.start)
  let ?s = "\<lparr>sup_id = uid 0, sup_name = ''Refinery'', sup_contact_name = None, sup_phone = None, sup_email = None,
       sup_address = None, sup_default_currency = ''USD'', sup_payment_terms = None, sup_notes = None, sup_is_active = True\<rparr>"
  let ?d = "(empty_db demo_clock)\<lparr>uid_next := Suc 0, suppliers := [?s]\<rparr>"
  have "live_db demo_sha ?d" by (rule live_same [OF l]) (simp add: same_books_def empty_db_def)
  then obtain r d where "ledger_record demo_sha EVENT_SUPPLIER_CREATED ''u1'' ''supplier'' (sup_id ?s)
      (PDict [(''name'', PStr (sup_name ?s))]) ?d = Inr (r, d)" by (rule demo_record)
  then have s: "create_supplier demo_sha ?b ''u1'' (empty_db demo_clock) = Inr (?s, d)"
    by (simp add: create_supplier_def fresh_uid_def empty_db_def)
  have "(shop_step demo_sha)\<^sup>*\<^sup>* (empty_db demo_clock) d" by (rule r_into_rtranclp) (rule shop_step.supplier_created [OF s])
  from shop_keeps_books [OF this] s show ?thesis by blast
qed

section \<open>The till\<close>

text \<open>The operations on orders, and every write that leaves the shelf and the orders alone.\<close>

inductive pos_step :: "(string \<Rightarrow> string) \<Rightarrow> db \<Rightarrow> db \<Rightarrow> bool" for sha where
  sold: "create_order sha cf st b u d = Inr (o', d') \<Longrightarrow> pos_step sha d d'"
| voided: "void_order sha st n reason u d = Inr (o', d') \<Longrightarrow> pos_step sha d d'"
| order_refunded: "refund_order sha st n u d = Inr (o', d') \<Longrightarrow> pos_step sha d d'"
| item_refunded: "refund_order_item sha st n x q u d = Inr (o', d') \<Longrightarrow> pos_step sha d d'"
| elsewhere: "products d' = products d \<Longrightarrow> coin_types d' = coin_types d \<Longrightarrow> ounce_types d' = ounce_types d
    \<Longrightarrow> orders d' = orders d \<Longrightarrow> pos_step sha d d'"

lemma pos_step_stock: "pos_step sha d d' \<Longrightarrow> stock_step k i d d'"
proof (induction rule: pos_step.induct)
  case (elsewhere d' d)
  then have "on_hand k i d' = on_hand k i d" "returnable k i d' = returnable k i d" "outstanding k i d' = outstanding k i d"
    by (cases k; simp add: on_hand_def returnable_def outstanding_def shelf_def)+
  then show ?case using elsewhere by (simp add: stock_step_def accounted_def orders_ok_def)
qed (blast intro: create_order_stock(1) void_order_stock refund_order_stock refund_order_item_stock)+

text \<open>
  C2. Stock is accounted for: for a piece, a coin or an ounce bar that is in the shop's
  tables, what is on the shelf plus what is out in orders not voided (sold and not refunded
  by item) is the same after any sequence of sales, voids and refunds, and the shelf never
  goes below zero.
\<close>

theorem stock_accounted:
  assumes "(pos_step sha)\<^sup>*\<^sup>* d0 d" "orders_ok d0" "returnable k i d0" "0 \<le> on_hand k i d0"
  shows "accounted k i d = accounted k i d0 \<and> 0 \<le> on_hand k i d"
proof -
  have "orders_ok d \<and> returnable k i d \<and> accounted k i d = accounted k i d0 \<and> 0 \<le> on_hand k i d"
    using assms
  proof (induction rule: rtranclp_induct)
    case (step d1 d2)
    then show ?case using pos_step_stock [OF step.hyps(2), of k i] by (auto simp: stock_step_def)
  qed simp
  then show ?thesis by simp
qed

lemma shop_db_shelf: "orders_ok shop_db" "returnable ITEM_COIN (uid 30) shop_db" "on_hand ITEM_COIN (uid 30) shop_db = 5"
  by (simp_all add: orders_ok_def returnable_def on_hand_def shelf_def shop_db_parts demo_coin_def)

theorem stock_accounted_witness:
  "\<exists>o' d. create_order demo_sha shop_rates (Some shop_settings) coin_sale ''u1'' shop_db = Inr (o', d)
     \<and> accounted ITEM_COIN (uid 30) d = accounted ITEM_COIN (uid 30) shop_db \<and> 0 \<le> on_hand ITEM_COIN (uid 30) d"
proof -
  obtain o' d where s: "create_order demo_sha shop_rates (Some shop_settings) coin_sale ''u1'' shop_db = Inr (o', d)"
    by (rule coin_sold)
  have "(pos_step demo_sha)\<^sup>*\<^sup>* shop_db d" by (rule r_into_rtranclp) (rule pos_step.sold [OF s])
  from stock_accounted [OF this shop_db_shelf(1,2)] show ?thesis using shop_db_shelf(3) s by auto
qed

lemma void_order_returns:
  assumes "void_order sha st n reason u d = Inr (o', d')" "orders_ok d" "returnable k i d"
  obtains o0 where "find_order n d = Inr o0" "on_hand k i d' = on_hand k i d + units_out k i (or_items o0)"
  using assms(1)
proof (cases rule: void_order_steps)
  case (1 o0 evs d1 p r d2 d3)
  let ?d = "put_order o' (d1\<lparr>clock := clock d1 + 1\<rparr>)"
  have "keeps_goods ?d d'"
    using ledger_record_goods [OF 1(5)] write_events_goods [OF 1(6)] refund_books_goods [OF 1(7)] by (blast intro: keeps_goods_trans)
  then have g: "goods d' = goods ?d" by (simp add: keeps_goods_def)
  have "filter (\<lambda>x. or_id x = n) (orders d) = [o0]" using 1(1) by (simp add: find_order_eq)
  then have "order_ok o0" using assms(2) filter_single by (fastforce simp: orders_ok_def)
  then have "\<forall>it \<in> set (or_items o0). oi_refunded_qty it = 0" using 1(2) by (simp add: order_ok_def)
  then have "on_hand k i d1 = on_hand k i d + units_out k i (or_items o0)"
    using return_lines_shifts [OF 1(3), of k i] assms(3) by simp
  then show ?thesis
    using that [OF 1(1)] goods_cong(1) [OF g] goods_cong(1) [OF goods_tick [where d = d1 and t = "clock d1 + 1"]] by simp
qed

text \<open>
  C16. Voiding a sale restores the shelf: after a checkout and the void of its order, every
  piece, coin and ounce bar that can be taken back is on the shelf in the number it was.
\<close>

theorem void_restores_shelf:
  assumes "create_order sha cf st b u d = Inr (o', d1)" "void_order sha st' (or_id o') reason u' d1 = Inr (o2, d2)"
    "orders_ok d" "returnable k i d"
  shows "on_hand k i d2 = on_hand k i d"
proof -
  note c = create_order_stock [OF assms(1)]
  have ok: "orders_ok d1" "returnable k i d1" using c(1) [of k i] assms(3,4) by (auto simp: stock_step_def)
  obtain o0 where o0: "find_order (or_id o') d1 = Inr o0" "on_hand k i d2 = on_hand k i d1 + units_out k i (or_items o0)"
    by (rule void_order_returns [OF assms(2) ok])
  have "o0 = o'" using o0(1) c(2) by (simp add: find_order_eq append_eq_Cons_conv)
  then show ?thesis using o0(2) c(3) [of k i] by simp
qed

theorem void_restores_shelf_witness:
  "\<exists>o' d1 o2 d2. create_order demo_sha shop_rates (Some shop_settings) coin_sale ''u1'' shop_db = Inr (o', d1)
     \<and> void_order demo_sha None (or_id o') ''mistake'' ''u1'' d1 = Inr (o2, d2) \<and> on_hand ITEM_COIN (uid 30) d2 = 5"
proof -
  obtain o' d1 o2 d2 where s: "create_order demo_sha shop_rates (Some shop_settings) coin_sale ''u1'' shop_db = Inr (o', d1)"
    "void_order demo_sha None (or_id o') ''mistake'' ''u1'' d1 = Inr (o2, d2)"
    by (rule coin_voided)
  from void_restores_shelf [OF s shop_db_shelf(1,2)] shop_db_shelf(3) s show ?thesis by auto
qed

text \<open>A line of the right shape: one reference, of its kind, a positive quantity, and its cost.\<close>

definition item_typed :: "order_item \<Rightarrow> bool" where
  "item_typed it \<longleftrightarrow> (case oi_item_kind it of
      ITEM_PRODUCT \<Rightarrow> \<not> falsy (oi_product_id it) \<and> oi_coin_type_id it = None \<and> oi_ounce_type_id it = None
    | ITEM_COIN \<Rightarrow> \<not> falsy (oi_coin_type_id it) \<and> oi_product_id it = None \<and> oi_ounce_type_id it = None
    | ITEM_OUNCE \<Rightarrow> \<not> falsy (oi_ounce_type_id it) \<and> oi_product_id it = None \<and> oi_coin_type_id it = None)
     \<and> 1 \<le> oi_quantity it \<and> oi_cost_basis_usd it \<noteq> None"

definition orders_typed :: "db \<Rightarrow> bool" where
  "orders_typed d \<longleftrightarrow> (\<forall>o' \<in> set (orders d). list_all item_typed (or_items o'))"

lemma checkout_line_typed:
  assumes "checkout_line s rate l d = Inr (it, tot, ev, d')"
  shows "item_typed it"
proof -
  have key: "filter (\<lambda>p. pr_id p = the x) ps = [p] \<Longrightarrow> \<not> falsy x \<Longrightarrow> pr_id p \<noteq> []" for x and ps :: "product list" and p
    by (auto simp: falsy_def filter_eq_Cons_iff)
  have unit: "ut_id y = x" if "find_unit c x d = Inr (Some y)" for c x y
    by (rule unit_shifted(3) [OF that refl])
  show ?thesis using assms
    by (auto simp: checkout_line_def checkout_product_line_def checkout_unit_line_def res_simps Let_def product_item_def
        unit_item_def item_typed_def falsy_def split: if_split_asm dest!: key unit)
qed

lemma checkout_lines_typed: "checkout_lines s rate ls d = Inr (its, tot, evs, d') \<Longrightarrow> list_all item_typed its"
  by (induction ls arbitrary: d its tot evs) (auto simp: res_simps dest!: checkout_line_typed)

lemma item_typed_updates [simp]: "item_typed (it\<lparr>oi_id := x, oi_order_id := y\<rparr>) = item_typed it"
  "item_typed (refund_item it n t) = item_typed it"
  by (simp_all add: item_typed_def refund_item_def cong: order_item_kind.case_cong)

lemma number_items_typed: "number_items oid its d = (its', d') \<Longrightarrow> list_all item_typed its' = list_all item_typed its"
  by (induction its arbitrary: d its' d') (auto simp: fresh_uid_def Let_def split: prod.split_asm)

lemma orders_typed_cong: "orders d' = orders d \<Longrightarrow> orders_typed d \<Longrightarrow> orders_typed d'"
  by (simp add: orders_typed_def)

lemma goods_typed: "keeps_goods d d' \<Longrightarrow> orders_typed d \<Longrightarrow> orders_typed d'"
  by (rule orders_typed_cong [of d' d]) (simp_all add: keeps_goods_def goods_def)

lemma put_order_typed: "orders_typed d \<Longrightarrow> list_all item_typed (or_items o') \<Longrightarrow> orders_typed (put_order o' d)"
  by (auto simp: orders_typed_def put_order_def elim!: set_upd_rowsE)

lemma find_order_typed: "find_order n d = Inr o' \<Longrightarrow> orders_typed d \<Longrightarrow> list_all item_typed (or_items o')"
  by (auto simp: find_order_eq orders_typed_def dest!: filter_single)

lemma return_stock_orders: "return_stock it n d = Inr (b, d') \<Longrightarrow> orders d' = orders d"
  using return_stock_shifts by blast

lemma return_lines_orders: "return_lines its d = Inr (evs, d') \<Longrightarrow> orders d' = orders d"
  by (induction its arbitrary: d evs) (auto simp: res_simps split: option.split_asm dest!: return_stock_orders)

lemma pos_step_typed:
  assumes "pos_step sha d d'" "orders_typed d"
  shows "orders_typed d'"
  using assms
proof (induction rule: pos_step.induct)
  case (sold cf st b u d o' d')
  from sold.hyps show ?case
  proof (cases rule: create_order_steps)
    case (1 s info d0 now items subtotal evs d1 m d2)
    obtain its d3 where "number_items (uid (uid_next d1)) items (d1\<lparr>uid_next := Suc (uid_next d1)\<rparr>) = (its, d3)" by fastforce
    then have "list_all item_typed (or_items o')"
      using 1(11) checkout_lines_typed [OF 1(8)] number_items_typed
      by (fastforce simp: add_order_def new_order_def res_simps Let_def fresh_uid_def read_clock_def)
    then show ?thesis using create_order_stock(2) [OF sold.hyps] sold.prems by (simp add: orders_typed_def)
  qed
next
  case (voided st n reason u d o' d')
  from voided.hyps show ?case
  proof (cases rule: void_order_steps)
    case (1 o0 evs d1 p r d2 d3)
    have "orders_typed (d1\<lparr>clock := clock d1 + 1\<rparr>)"
      by (rule orders_typed_cong [OF _ voided.prems]) (simp add: return_lines_orders [OF 1(3)])
    then have "orders_typed (put_order o' (d1\<lparr>clock := clock d1 + 1\<rparr>))"
      using find_order_typed [OF 1(1) voided.prems] by (intro put_order_typed) (simp_all add: 1(4))
    then show ?thesis
      using ledger_record_goods [OF 1(5)] write_events_goods [OF 1(6)] refund_books_goods [OF 1(7)] goods_typed by blast
  qed
next
  case (order_refunded st n u d o' d')
  then show ?case
    using put_order_typed find_order_typed goods_typed
    by (fastforce simp: refund_order_def res_simps Let_def dest!: refund_books_goods)
next
  case (item_refunded st n x q u d o' d')
  from item_refunded.hyps show ?case
  proof (cases rule: refund_order_item_steps)
    case (1 o0 it m bk d1 o1 p r d2 v)
    have t: "list_all item_typed (or_items o0)" by (rule find_order_typed [OF 1(1) item_refunded.prems])
    have "it \<in> set (or_items o0)" using 1(3) by (auto simp: find_Some_iff)
    then have "list_all item_typed (or_items o')"
      using t by (auto simp: 1(6,7) put_item_def list_all_iff elim!: set_upd_rowsE)
    moreover have "orders_typed (d1\<lparr>clock := clock d1 + 1\<rparr>)"
      by (rule orders_typed_cong [OF _ item_refunded.prems]) (simp add: return_stock_orders [OF 1(5)])
    ultimately have "orders_typed (put_order o' (d1\<lparr>clock := clock d1 + 1\<rparr>))" by (intro put_order_typed)
    then show ?thesis using ledger_record_goods [OF 1(8)] refund_books_goods [OF 1(9)] goods_typed by blast
  qed
qed (simp add: orders_typed_def)

text \<open>
  C36. Order lines are well formed: whatever sales, voids and refunds are run, every line of
  every order has exactly one reference, to a row of the kind it says it is, a positive
  quantity, and the cost it was sold at.
\<close>

theorem order_lines_well_formed:
  assumes "(pos_step sha)\<^sup>*\<^sup>* d0 d" "orders_typed d0"
  shows "orders_typed d"
  using assms by (induction rule: rtranclp_induct) (auto intro: pos_step_typed)

theorem order_lines_well_formed_witness:
  "\<exists>o' d. create_order demo_sha shop_rates (Some shop_settings) coin_sale ''u1'' shop_db = Inr (o', d)
     \<and> orders d = [o'] \<and> orders_typed d"
proof -
  obtain o' d where s: "create_order demo_sha shop_rates (Some shop_settings) coin_sale ''u1'' shop_db = Inr (o', d)" "orders d = [o']"
    by (rule coin_sold)
  have "(pos_step demo_sha)\<^sup>*\<^sup>* shop_db d" by (rule r_into_rtranclp) (rule pos_step.sold [OF s(1)])
  moreover have "orders_typed shop_db" by (simp add: orders_typed_def shop_db_parts)
  ultimately show ?thesis using order_lines_well_formed s by blast
qed





text \<open>
  C35. No trade passes on a closed market's rate unless the request acknowledges that very
  rate, to the second: a checkout or a buyback that succeeds on a rate that is not an
  override and is past the closing threshold carries such an acknowledgement.
\<close>

theorem stale_trade_acknowledged:
  assumes "get_current_gold_rate cf d = Inr (info, d0)" "ri_market_closed info" "ri_source info \<noteq> ''override''"
  shows "(create_order sha cf st b u d = Inr (o', d') \<longrightarrow>
        (\<exists>a. cr_stale_rate_ack b = Some a \<and> \<bar>as_utc a - ri_fetched_at info\<bar> < us_per_second))
    \<and> (create_buyback sha cf st' bb u' d = Inr (w, d'') \<longrightarrow>
        (\<exists>a. bi_stale_rate_ack bb = Some a \<and> \<bar>as_utc a - ri_fetched_at info\<bar> < us_per_second))"
proof (intro conjI impI)
  assume "create_order sha cf st b u d = Inr (o', d')"
  then obtain d1 where "assert_rate_acceptable info (cr_stale_rate_ack b) d0 = Inr ((), d1)"
    using assms(1) by (auto simp: create_order_def res_simps split: option.split_asm)
  then show "\<exists>a. cr_stale_rate_ack b = Some a \<and> \<bar>as_utc a - ri_fetched_at info\<bar> < us_per_second"
    using stale_trade_needs_ack [OF _ assms(2,3)] by metis
next
  assume "create_buyback sha cf st' bb u' d = Inr (w, d'')"
  then obtain d1 where "assert_rate_acceptable info (bi_stale_rate_ack bb) d0 = Inr ((), d1)"
    using assms(1) by (auto simp: create_buyback_def res_simps split: option.split_asm)
  then show "\<exists>a. bi_stale_rate_ack bb = Some a \<and> \<bar>as_utc a - ri_fetched_at info\<bar> < us_per_second"
    using stale_trade_needs_ack [OF _ assms(2,3)] by metis
qed

theorem stale_trade_acknowledged_witness:
  "\<exists>w d. create_buyback demo_sha shop_rates (Some shop_settings) piece_offer ''u1'' closed_db = Inr (w, d)
     \<and> bi_stale_rate_ack piece_offer \<noteq> None"
proof -
  obtain w d where w: "create_buyback demo_sha shop_rates (Some shop_settings) piece_offer ''u1'' closed_db = Inr (w, d)"
    by (rule closed_bought)
  from stale_trade_acknowledged [OF closed_rate_read closed_info_parts(1,2)] w show ?thesis by blast
qed

section \<open>Lots and pieces\<close>




text \<open>
  C12. A used piece is spent once: once it was melted, or polished into a product, every
  later attempt to melt or to polish it is refused, whatever happened in between.
\<close>

theorem used_piece_spent_once:
  assumes "create_melt sha st b u d0 = Inr (l, d1) \<and> ml_walkin_buyback_id b = Some i
      \<or> create_polish sha c u d0 = Inr (q, d1) \<and> pi_walkin_buyback_id c = i"
    "buyback_ids d0" "i \<noteq> []" "(shop_step sha)\<^sup>*\<^sup>* d1 d" "ml_walkin_buyback_id b' = Some i" "pi_walkin_buyback_id c' = i"
  shows "(\<exists>e. create_melt sha st' b' u' d = Inl e) \<and> (\<exists>e. create_polish sha c' u' d = Inl e)"
proof -
  have "spent i d1" using assms(1) melt_spends [OF _ _ assms(3,2)] polish_spends [OF _ _ assms(2)] by blast
  then have "spent i d" by (rule spent.shop_keeps [OF assms(4)])
  then show ?thesis using spent_refused assms(5,6) by blast
qed

theorem used_piece_spent_once_witness:
  "\<exists>l d e. create_melt demo_sha None piece_melt ''u1'' shop_db = Inr (l, d)
     \<and> create_melt demo_sha None piece_melt ''u1'' d = Inl e"
proof -
  obtain l d where m: "create_melt demo_sha None piece_melt ''u1'' shop_db = Inr (l, d)" by (rule piece_melted)
  have i: "ml_walkin_buyback_id piece_melt = Some (uid 31)" by (simp add: piece_melt_def)
  have ids: "buyback_ids shop_db" by (auto simp: buyback_ids_def shop_db_def demo_piece_def)
  have "\<exists>e. create_melt demo_sha None piece_melt ''u1'' d = Inl e"
    using used_piece_spent_once [of demo_sha None piece_melt "''u1''" shop_db l d "uid 31" undefined undefined d piece_melt
        "undefined\<lparr>pi_walkin_buyback_id := uid 31\<rparr>" None "''u1''"] m i ids by simp
  then show ?thesis using m by blast
qed

section \<open>Suppliers\<close>



text \<open>
  The store-wide view adds up: the total of cash owed, and of grams owed per karat, are
  the sums over all stored balances, when every balance has its one supplier.
\<close>

theorem accounts_payable_adds_up:
  assumes "distinct (map sup_id (suppliers d))" "\<forall>b \<in> set (supplier_balances d). sb_supplier_id b \<in> sup_id ` set (suppliers d)"
  shows "apo_total_cash_owed (accounts_payable d) = owed_sum DEBT_CASH None (supplier_balances d)
    \<and> or_zero (map_of (apo_total_grams_owed_by_karat (accounts_payable d)) k) = owed_sum DEBT_GOLD (Some k) (supplier_balances d)"
  using accounts_payable_sums [OF assms] by blast

theorem accounts_payable_adds_up_witness:
  "apo_total_cash_owed (accounts_payable (shop_db\<lparr>supplier_balances :=
     [\<lparr>sb_supplier_id = uid 33, sb_unit = DEBT_CASH, sb_karat = [], sb_balance = 60\<rparr>]\<rparr>)) = 60"
  using accounts_payable_adds_up [of "shop_db\<lparr>supplier_balances :=
     [\<lparr>sb_supplier_id = uid 33, sb_unit = DEBT_CASH, sb_karat = [], sb_balance = 60\<rparr>]\<rparr>" "[]"]
  by (simp add: shop_db_def demo_supplier_def owed_sum_def)

section \<open>Stock-takes\<close>

text \<open>
  C13. Stock-takes stay consistent: whatever handlers are run in whatever order, a draft has
  only open lines, a submitted take has every line's expectation and variance frozen and
  some line still pending, a closed one has none pending; and a line once resolved is never
  changed or removed.
\<close>

theorem stock_takes_consistent:
  assumes "(take_step sha)\<^sup>*\<^sup>* d0 d" "takes_ok d0"
  shows "(\<forall>t \<in> set (stock_takes d). take_ok (sto_status t) (lines_of d (sto_id t)))
    \<and> (\<forall>y \<in> set (stock_take_lines d0). stl_resolution y \<noteq> PENDING \<longrightarrow> y \<in> set (stock_take_lines d))"
proof -
  have "takes_ok d" by (rule take_reach_ok(1) [OF assms])
  then show ?thesis using take_reach_ok(2) [OF assms] by (simp add: takes_ok_def)
qed

theorem stock_takes_consistent_witness:
  "\<exists>l d. approve_line demo_sha (uid 35) (uid 36) ''u1'' counted_db = Inr (l, d)
     \<and> (\<forall>t \<in> set (stock_takes d). take_ok (sto_status t) (lines_of d (sto_id t)))"
proof -
  obtain l d where a: "approve_line demo_sha (uid 35) (uid 36) ''u1'' counted_db = Inr (l, d)" by (rule line_approved)
  have "(take_step demo_sha)\<^sup>*\<^sup>* counted_db d" by (rule r_into_rtranclp) (rule take_step.approved [OF a])
  from stock_takes_consistent [OF this counted_takes_ok] a show ?thesis by blast
qed

lemma take_rows_shelf: "on_hand k j (put_take ty d) = on_hand k j d" "on_hand k j (put_take_line l d) = on_hand k j d"
  "on_hand k j (d\<lparr>clock := c\<rparr>) = on_hand k j d"
  by (cases k; simp add: on_hand_def shelf_def put_take_def put_take_line_def)+

lemma maybe_close_shelf:
  assumes "maybe_close_take sha t u d = Inr (t', d')"
  shows "on_hand k j d' = on_hand k j d"
proof (cases "d' = d")
  case False
  then obtain ty p r where "ledger_record sha EVENT_STOCK_TAKE_CLOSED u ''stock_take'' (sto_id t) p
      (put_take ty (d\<lparr>clock := clock d + 1\<rparr>)) = Inr (r, d')"
    using assms by (auto simp: maybe_close_take_def res_simps Let_def read_clock_def split: if_split_asm)
  then have "goods d' = goods (put_take ty (d\<lparr>clock := clock d + 1\<rparr>))"
    using ledger_record_goods by (auto simp: keeps_goods_def)
  from goods_cong(1) [OF this] show ?thesis by (simp add: take_rows_shelf)
qed simp

text \<open>
  C14. Approving a line posts its variance: the count on the shelf moves by what was counted
  less what was expected at submission, nothing else moves, and nothing goes below zero; so
  a shelf that did not change since submission then holds what was counted.
\<close>

theorem approved_variance_posted:
  assumes "approve_line sha i x u d = Inr (l, d')" "takes_ok d"
  shows "\<exists>e. stl_expected_qty_at_submit l = Some e \<and> stl_variance l = Some (stl_counted_qty l - e)
    \<and> 0 \<le> on_hand (stock_kind (stl_ref_type l)) (stl_ref_id l) d'
    \<and> (\<forall>k j. on_hand k j d' = on_hand k j d
         + (if k = stock_kind (stl_ref_type l) \<and> j = stl_ref_id l then stl_counted_qty l - e else 0))"
  using assms(1)
proof (cases rule: approve_line_steps)
  case (1 t l0 a d1 p r d2 t2 v extra nts)
  let ?c = "to_adjustment_target (stl_ref_type l0) = TARGET_COIN_STOCK"
  have k: "unit_kind ?c = stock_kind (stl_ref_type l0)" by (cases "stl_ref_type l0") (simp_all add: unit_kind_def stock_kind_def)
  note tr = take_row [OF assms(2) 1(1)] and lr = take_line_row [OF 1(3)]
  have "frozen_ok l0" using tr lr 1(2) by simp
  then obtain e where e: "stl_expected_qty_at_submit l0 = Some e" "v = stl_counted_qty l0 - e"
    using 1(5) by (auto simp: frozen_ok_def)
  obtain n where n: "(of_int v :: dec) = of_int n"
    "\<forall>k j. on_hand k j d1 = on_hand k j d + (if k = unit_kind ?c \<and> j = stl_ref_id l0 then n else 0)"
    "0 \<le> on_hand (unit_kind ?c) (stl_ref_id l0) d1"
    using apply_unit_shifts [OF 1(7)] by blast
  have "goods d2 = goods (put_take_line l (d1\<lparr>clock := clock d1 + 1\<rparr>))"
    using ledger_record_goods [OF 1(9)] by (simp add: keeps_goods_def)
  from goods_cong(1) [OF this] have "on_hand k j d2 = on_hand k j d1" for k j by (simp add: take_rows_shelf)
  then have "on_hand k j d' = on_hand k j d1" for k j using maybe_close_shelf [OF 1(10)] by simp
  then show ?thesis using n e k 1(5,8) by (intro exI [of _ e]) (simp add: mark_line_def)
qed

theorem approved_variance_posted_witness:
  "\<exists>l d. approve_line demo_sha (uid 35) (uid 36) ''u1'' counted_db = Inr (l, d)
     \<and> 0 \<le> on_hand (stock_kind (stl_ref_type l)) (stl_ref_id l) d"
proof -
  obtain l d where a: "approve_line demo_sha (uid 35) (uid 36) ''u1'' counted_db = Inr (l, d)" by (rule line_approved)
  from approved_variance_posted [OF this counted_takes_ok] a show ?thesis by blast
qed

text \<open>
  C34. Resolving ends: every approval and every rejection leaves one pending line less in its
  take, and the take is closed exactly when none is left; so a take of n pending lines is
  closed by its n-th resolution.
\<close>

theorem each_resolution_counts_down:
  assumes "approve_line sha i x u d = Inr (l, d') \<or> reject_line sha i x reason u d = Inr (l, d')" "takes_ok d"
  shows "card (pending d i) = Suc (card (pending d' i))
    \<and> (\<exists>t \<in> set (stock_takes d'). sto_id t = i \<and> sto_status t = (if pending d' i = {} then CLOSED else SUBMITTED))"
proof -
  obtain l0 where r: "resolved_one i l0 l d d'"
    using assms(1) approve_line_resolves [OF _ assms(2)] reject_line_resolves [OF _ assms(2)] by metis
  note p = resolved_one_pending [OF r]
  have "card (pending d i) = Suc (card (pending d' i))"
    unfolding p(1) using p(2) by (metis card_Suc_Diff1 finite_pending)
  moreover have "(\<exists>y \<in> lines_of d' i. stl_resolution y = PENDING) \<longleftrightarrow> pending d' i \<noteq> {}" by (auto simp: pending_def)
  moreover obtain t where "t \<in> set (stock_takes d')" "sto_id t = i"
    "sto_status t = (if \<exists>y \<in> lines_of d' i. stl_resolution y = PENDING then SUBMITTED else CLOSED)"
    using r unfolding resolved_one_def by blast
  ultimately show ?thesis by (intro conjI bexI [of _ t]) simp_all
qed

theorem each_resolution_counts_down_witness:
  "\<exists>l d. approve_line demo_sha (uid 35) (uid 36) ''u1'' counted_db = Inr (l, d) \<and> pending d (uid 35) = {}"
proof -
  obtain l d where a: "approve_line demo_sha (uid 35) (uid 36) ''u1'' counted_db = Inr (l, d)" by (rule line_approved)
  have "card (pending counted_db (uid 35)) = 1"
    by (simp add: pending_def lines_of_def counted_db_def counted_line_def conj_commute cong: conj_cong)
  then have "card (pending d (uid 35)) = 0"
    using each_resolution_counts_down [OF disjI1 [OF a] counted_takes_ok] by simp
  then show ?thesis using a by auto
qed

end
