(* ===== verification/Spec2Isabelle.thy ===== *)
theory Spec2Isabelle
  imports Trading Reversal Reports Access Shop
begin

text \<open>
  A model of the accounting and operations core of a gold jeweller's back office
  (\<open>src/app\<close>: FastAPI handlers over SQLAlchemy), with the theorems that make its books
  correct.

  \<^bold>\<open>What the program is.\<close> The shop sells pieces, coins and ounce bars, buys gold from the
  street, from suppliers and from melting, and keeps it by piece, by count and by lot.
  Every change of stock is written to a hash-chained inventory ledger, and, when the
  accounting flag is on, to a general ledger that is dual: each line carries base money and
  grams of a karat, and an entry must balance in both. On top of the general ledger sit the
  receivables, the payables, the bank, VAT, the trial balance and the closing of months and
  years. All of it runs in one PostgreSQL database; a request is one transaction, which its
  handler commits at the end or an exception rolls back.

  \<^bold>\<open>How it is modelled.\<close> The database is one record, a list of rows per table in insertion
  order, with the clock and the supply of primary keys (\<open>Models\<close>). A handler is a function
  from the database to an error or a result with the new database; an error carries no
  database, because the transaction is rolled back. A Python exception is a value of \<open>err\<close>,
  its message a template with the values put into it. \<open>FOR UPDATE\<close> locks serialise the
  transactions, so one operation after another is all that can be observed, and the system
  is the step relation of \<open>System\<close>. A Decimal is the rational it stands for; products and
  quotients are rounded to the context's 28 digits (\<open>ctx\<close>) and \<open>quantize\<close> is written out
  (\<open>Decimals\<close>). What is not in the repository is a parameter: the hash function \<open>sha\<close>
  (SHA-256, of which only its collisions with stored hashes matter, as hypotheses where a
  posting must succeed), the row of settings, the gold rate a mapper is given.

  \<^bold>\<open>The theories\<close>, each importing those it calls:
  \<^item> \<open>Prelude\<close>: errors, sequencing, tables, sums over rows. \<open>Decimals\<close>: \<open>decimal.Decimal\<close>.
    \<open>Dates\<close>: \<open>datetime\<close> and \<open>calendar\<close>. \<open>Json\<close>: \<open>json.dumps\<close> as the hashes use it, with
    its injectivity. \<open>Models\<close>: \<open>app/models/__init__.py\<close>.
  \<^item> \<open>AuditChain\<close>: \<open>core/audit_chain.py\<close>, the three hash recipes and one verification loop,
    as a locale with three instances. \<open>Ledger\<close>: \<open>core/ledger.py\<close>.
  \<^item> \<open>GL\<close>: the posting engine of \<open>core/gl.py\<close>; \<open>GL_Invariants\<close>: what a posting changes, the
    invariants of the journal and the locale \<open>journal_invariant\<close> every writer is a client of;
    \<open>Liveness\<close>: when a posting succeeds; \<open>TrialBalance\<close>: \<open>compute_trial_balance\<close> and why it
    balances; \<open>Reversal\<close>: what a reversal does to the accounts.
  \<^item> \<open>PeriodClose\<close>: \<open>core/period_close.py\<close>. \<open>Pricing\<close>: \<open>core/pricing.py\<close>, \<open>core/money.py\<close>.
    \<open>GlPostings\<close>: \<open>core/gl_postings.py\<close>, the seven mappers from shop operations to entries, as
    instances of the locale \<open>auto_poster\<close>. \<open>CoaSeed\<close>: \<open>core/coa_seed.py\<close>.
  \<^item> \<open>GlFx\<close>: \<open>core/gl_fx.py\<close>, settlement legs with the realised exchange difference.
    \<open>Subledger\<close>: what the two subledgers share, with the locale of open documents;
    \<open>Receivables\<close>, \<open>Receivables_Facts\<close>, \<open>Receivables_Tie\<close>, \<open>Receivables_Reports\<close>:
    \<open>core/ar.py\<close> and \<open>api/ar.py\<close>; \<open>Payables\<close>, \<open>Payables_Facts\<close>: \<open>core/expenses.py\<close>.
  \<^item> \<open>Bank\<close>, \<open>Bank_Facts\<close>: \<open>core/bank.py\<close>, \<open>api/bank.py\<close>. \<open>Tax\<close>: \<open>core/tax.py\<close>,
    \<open>api/tax.py\<close>.
  \<^item> \<open>Stock\<close>: lots, supplier balances and adjustments (\<open>core/inventory.py\<close>,
    \<open>core/supplier_balance.py\<close>, \<open>api/lots.py\<close>, \<open>api/adjustments.py\<close>). \<open>GoldRate\<close>:
    \<open>core/gold_api.py\<close>, \<open>core/gold_guard.py\<close>. \<open>Orders\<close>: \<open>api/orders.py\<close>. \<open>Walkin\<close>:
    \<open>api/buybacks.py\<close>, \<open>api/melts.py\<close>, \<open>api/polish.py\<close>. \<open>Suppliers\<close>: \<open>api/suppliers.py\<close>.
    \<open>StockTakes\<close>: \<open>api/stock_takes.py\<close>, \<open>core/stock_take.py\<close>. \<open>Stock_Facts\<close>,
    \<open>Orders_Facts\<close>, \<open>StockTakes_Facts\<close>, \<open>Supply_Facts\<close>: what each handler writes and keeps;
    \<open>Store_Facts\<close>: the conservation of lots; \<open>Debts\<close>: the supplier balances. \<open>ShopRuns\<close>: a shop and
    its runs; \<open>Shop\<close>: the properties of all these.
  \<^item> \<open>Calendar\<close>: \<open>date.toordinal\<close> and the day before. \<open>Statements\<close>: \<open>core/statements.py\<close>,
    \<open>core/kpis.py\<close>; \<open>Statements_Facts\<close>: what they add up to. \<open>AccountingApi\<close>:
    \<open>api/accounting.py\<close>, \<open>core/permissions.py\<close>. \<open>Reports\<close>: their properties.
  \<^item> \<open>Auth\<close>: \<open>core/security.py\<close>, \<open>deps.py\<close>, \<open>core/auth_audit.py\<close>,
    \<open>core/login_lockout.py\<close>, \<open>api/auth.py\<close>, \<open>api/staff.py\<close>, \<open>api/auth_audit.py\<close>;
    \<open>Auth_Facts\<close>: the log and the lockout; \<open>Sessions\<close>: tokens and their revocation; \<open>Access\<close>:
    the properties, and a shop with two users.
  \<^item> \<open>System\<close>: the step relation over the books and reachability. \<open>Demo\<close>, \<open>DemoRuns\<close>,
    \<open>ReceivablesRuns\<close>: a small shop and its runs, for the witnesses.
  \<^item> \<open>Trading\<close>: the properties of the subledgers, the bank, VAT and the chart. This theory: the
    properties of the books, the chains, the close, and money.

  \<^bold>\<open>What the theorems show.\<close> A database \<open>live_db sha d\<close> is one the system can be in: reached
  from an empty one by steps in any order. In each, every trial balance balances in money and
  in grams, both chains verify, posted sources are live at most once, closed years and closed
  months stay closed. Postings are all or nothing and succeed exactly when the engine's checks
  pass. A reversal restores every account. The subledgers stay tied to their control accounts
  in dollars, with a proved counterexample in pounds. Prices, the VAT return, the allocation
  of receipts, the transfer lines and the cash split are exact to the cent under the ranges of
  the columns, which the statements name. Every handler of the shop and of the accounting pages
  is a path of that system. Pieces, lots and supplier debts are conserved through every handler;
  a used piece is spent once; a stock-take moves the shelf by what was counted. The statements
  balance, articulate and tie to the trial balance, with a proved counterexample for cash in
  pounds. A login is locked exactly as its log says, a revoked session stays dead, a wrong
  password tells nothing about accounts, and a server that started accepts what it signs.

  \<^bold>\<open>Conventions.\<close> Every recursive definition is structural or has a proved measure, so there is
  no fuel: a loop of the source that ends is a total function here (\<open>first_free\<close>, the search
  for a free account code, is the one with an argument: it skips used codes, and there are
  finitely many). The bounds in hypotheses are the NUMERIC columns' (\<open>money_col\<close>: below
  \<open>10 ^ 16\<close> at two places), within which 28 digits are exact. A record field of a request that may be left out is
  an option; a schema's own validation is a predicate \<open>..._valid\<close> in the hypotheses that need
  it. A Decimal of a request keeps its scale where the code prints it (\<open>sdec\<close>); a balance read
  from the database has the scale of its column; the rounding a column does on write is not
  modelled, and does nothing on the values the handlers write. A timestamp the database makes
  reads the clock. Request texts are ASCII; a typographic dash in a message is a hyphen. The
  rates of the environment, the settings row and the libraries \<open>jose\<close> and \<open>bcrypt\<close> are
  parameters; what is relied on of \<open>jose\<close> is stated as predicates in \<open>Sessions\<close>.

  \<^bold>\<open>Not modelled.\<close> Rendering and transport (PDF, XLSX, CSV, receipts as text, object storage,
  notifications, HTTP, the rate limit per client address), the paged lists, the catalogue pages,
  the dashboard, zakat, the read-only reports of stock and supplier debts, the operator's replay
  of old documents through the mappers, schema migrations, the polling job around the external
  price feed, one-off scripts. Response schemas only copy fields. Concurrency inside a transaction
  is the database's: rows are locked before they are judged.
\<close>

section \<open>The books\<close>

text \<open>
  C5. In every database the system can be in, the trial balance of every day balances,
  in base money and in the grams of every karat.
\<close>

theorem live_trial_balance_balances:
  assumes "live_db sha d"
  shows "tb_balanced (compute_trial_balance d as_of) \<and> tb_metal_balanced (compute_trial_balance d as_of)"
  using tb_is_balanced live_db_ok(1) [OF assms] by (simp add: journal_ok_def)

theorem live_trial_balance_balances_witness:
  "\<exists>e d. post_entry demo_sha demo_request demo_db = Inr (e, d)
     \<and> tb_balanced (compute_trial_balance d (Date 2026 1 31)) \<and> tb_metal_balanced (compute_trial_balance d (Date 2026 1 31))"
  by (rule demo_posted) (use live_trial_balance_balances in blast)

text \<open>
  In every database the system can be in, the journal's hash chain, read back in the
  order \<open>_gl_chain_intact\<close> reads it, verifies over every entry, and the period close's
  integrity check passes.
\<close>

theorem live_journal_chain_verifies:
  assumes "live_db sha d"
  shows "gl_chain_intact sha d = Inr True
    \<and> verify_gl_chain sha (ordered_gl_rows d) =
        Inr \<lparr>cr_status = (if gl_entries d = [] then EmptyChain else Intact),
             cr_total_rows = length (gl_entries d), cr_first_break = None\<rparr>"
  using gl_chain_verified gl_chain_intact_ok live_db_ok(1) [OF assms] by blast

theorem live_journal_chain_verifies_witness:
  "\<exists>e d. post_entry demo_sha demo_request demo_db = Inr (e, d) \<and> gl_chain_intact demo_sha d = Inr True"
  by (rule demo_posted) (use live_journal_chain_verifies in blast)

text \<open>
  In every database the system can be in, the inventory ledger's hash chain verifies
  over every row, and the chain head holds the last hash and the number of rows.
\<close>

theorem live_ledger_chain_verifies:
  assumes "live_db sha d"
  shows "verify_chain sha (inv_ledger d) =
      Inr \<lparr>cr_status = (if inv_ledger d = [] then EmptyChain else Intact),
           cr_total_rows = length (inv_ledger d), cr_first_break = None\<rparr>
    \<and> row_count (inv_head d) = length (inv_ledger d)
    \<and> latest_entry_hash (inv_head d) = (if inv_ledger d = [] then GENESIS_HASH else il_entry_hash (last (inv_ledger d)))"
proof -
  have l: "lc.linked sha GENESIS_HASH (inv_ledger d)"
    "row_count (inv_head d) = length (inv_ledger d)"
    "latest_entry_hash (inv_head d) = (if inv_ledger d = [] then GENESIS_HASH else il_entry_hash (last (inv_ledger d)))"
    using live_db_ok(2) [OF assms] by (simp_all add: ledger_ok_def)
  show ?thesis using lc.walk_linked [OF l(1), of 0] l(2,3) by (simp add: verify_chain_def)
qed

theorem live_ledger_chain_verifies_witness:
  "\<exists>e d. post_entry demo_sha demo_request demo_db = Inr (e, d) \<and> row_count (inv_head d) = length (inv_ledger d)"
  by (rule demo_posted) (use live_ledger_chain_verifies in blast)

text \<open>
  C6. The journal and the inventory ledger are append-only: whatever the system does, the
  entries, the lines and the events that were there stay, unchanged and in their order.
\<close>

theorem books_append_only:
  assumes "reach sha d d'"
  shows "(\<exists>es. gl_entries d' = gl_entries d @ es) \<and> (\<exists>ls. gl_lines d' = gl_lines d @ ls)
    \<and> (\<exists>rs. inv_ledger d' = inv_ledger d @ rs)"
  using ext.inv_reach [OF assms, of d] by (simp add: extends_def)

theorem books_append_only_witness:
  "\<exists>e d. post_entry demo_sha demo_request demo_db = Inr (e, d) \<and> (\<exists>es. gl_entries d = gl_entries demo_db @ es)"
proof -
  obtain e d where p: "post_entry demo_sha demo_request demo_db = Inr (e, d)" using demo_posts by blast
  have "reach demo_sha demo_db d" by (rule reach.step [OF reach.start step.posting [OF p demo_proper]])
  from books_append_only [OF this] p show ?thesis by blast
qed

text \<open>
  C7. In every database the system can be in, entry numbers are unique, an entry is reversed
  at most once, and a source of an automatic posting has at most one live entry.
\<close>

theorem live_no_duplicate_postings:
  assumes "live_db sha d"
  shows "distinct (map je_entry_no (gl_entries d))
    \<and> length (filter (\<lambda>e. je_reverses_entry_id e = Some i) (gl_entries d)) \<le> 1
    \<and> (st \<in> set GL_UNIQUE_LIVE_SOURCE_TYPES \<longrightarrow> length (filter (live_for st si) (gl_entries d)) \<le> 1)"
  using live_db_ok(1) [OF assms] by (simp add: journal_ok_def unique_ok_def)

theorem live_no_duplicate_postings_witness:
  "\<exists>e d. post_entry demo_sha demo_request demo_db = Inr (e, d) \<and> length (filter (live_for ''ORDER'' ''o1'') (gl_entries d)) \<le> 1"
  by (rule demo_posted) (use live_no_duplicate_postings [where st = "''ORDER''" and si = "''o1''"] in
      \<open>fastforce simp: GL_UNIQUE_LIVE_SOURCE_TYPES_def\<close>)



text \<open>
  The engine accepts a list of lines exactly when there is one, money and every karat's
  grams balance, and every line fits its account's denomination.
\<close>

theorem validation_is_balance:
  "validate_balanced lines = [] \<longleftrightarrow> lines \<noteq> [] \<and> balanced lines \<and> (\<forall>l \<in> set lines. line_fits l)"
  by (rule validate_balanced_iff)

theorem validation_is_balance_witness: "validate_balanced demo_lines = []"
  using validation_is_balance [of demo_lines]
  by (simp add: demo_lines_def balanced_def line_fits_def has_metal_def money_dr_def money_cr_def GLLine_def)

text \<open>
  C28. A reversal takes back, on every account, exactly what the entry it reverses put there:
  in base money and in the grams of every karat, from the reversal's date on.
\<close>

theorem reversal_takes_back:
  assumes "live_db sha d" "reverse_entry sha i actor dt memo d = Inr (e, d')"
  shows "account_net d' as_of a = account_net d as_of a - (if dt \<le> as_of then entry_net d i a else 0)
    \<and> metal_net d' as_of a k = metal_net d as_of a k - (if dt \<le> as_of then entry_metal d i a k else 0)"
  using reverse_entry_net [OF assms(2)] live_db_ok(1) [OF assms(1)] by (simp add: journal_ok_def)

theorem reversal_takes_back_witness:
  "\<exists>e d r d'. post_entry demo_sha demo_request demo_db = Inr (e, d)
     \<and> reverse_entry demo_sha (je_id e) ''u1'' (Date 2026 1 20) [] d = Inr (r, d')
     \<and> account_net d' (Date 2026 1 31) (uid 0)
         = account_net d (Date 2026 1 31) (uid 0) - entry_net d (je_id e) (uid 0)"
proof -
  obtain e d r d' where "post_entry demo_sha demo_request demo_db = Inr (e, d)" and l: "live_db demo_sha d"
    and r: "reverse_entry demo_sha (je_id e) ''u1'' (Date 2026 1 20) [] d = Inr (r, d')"
    by (rule demo_reversed)
  moreover from reversal_takes_back [OF l r, of "Date 2026 1 31" "uid 0"]
  have "account_net d' (Date 2026 1 31) (uid 0) = account_net d (Date 2026 1 31) (uid 0) - entry_net d (je_id e) (uid 0)"
    by (simp add: less_eq_date_def)
  ultimately show ?thesis by blast
qed

text \<open>
  After a reversal the same entry cannot be reversed again, whatever the system does in
  between: the second attempt is answered with a conflict.
\<close>

theorem reversed_once:
  assumes "live_db sha d" "reverse_entry sha i actor dt memo d = Inr (e, d')" "reach sha d' d2"
  shows "\<exists>m. reverse_entry sha i actor' dt' memo' d2 = Inl (HTTPException 409 m)"
proof -
  obtain f where f: "f \<in> set (gl_entries d)" "je_id f = i" and p: "post_entry sha (reversal_request f (entry_lines d i) actor dt memo) d = Inr (e, d')"
    by (rule reverse_entry_proper [OF assms(2)])
  obtain ls where po: "posted sha (reversal_request f (entry_lines d i) actor dt memo) d e ls d'"
    using post_entry_posted [OF p] by blast
  have e: "gl_entries d' = gl_entries d @ [e]" "je_reverses_entry_id e = Some i"
    using po f(2) by (simp_all add: posted_def reversal_request_def)
  obtain es where es: "gl_entries d2 = gl_entries d' @ es" using ext.inv_reach [OF assms(3), of d'] by (auto simp: extends_def)
  have in2: "f \<in> set (gl_entries d2)" "e \<in> set (gl_entries d2)" using f(1) e(1) es by auto
  obtain g where g: "find (\<lambda>e. je_id e = i) (gl_entries d2) = Some g" "je_id g = i"
    using in2(1) f(2) by (cases "find (\<lambda>e. je_id e = i) (gl_entries d2)") (auto simp: find_None_iff dest: find_SomeD)
  have "find_reversal d2 i \<noteq> None" using in2(2) e(2) by (auto simp: find_reversal_def find_None_iff)
  then show ?thesis by (auto simp: reverse_entry_def g raise_if_def)
qed

theorem reversed_once_witness:
  "\<exists>(e :: gl_journal_entry) d r d' m. reverse_entry demo_sha (je_id e) ''u1'' (Date 2026 1 20) [] d = Inr (r, d')
     \<and> reverse_entry demo_sha (je_id e) ''u2'' (Date 2026 1 21) [] d' = Inl (HTTPException 409 m)"
proof -
  obtain e d r d' where "post_entry demo_sha demo_request demo_db = Inr (e, d)" and l: "live_db demo_sha d"
    and r: "reverse_entry demo_sha (je_id e) ''u1'' (Date 2026 1 20) [] d = Inr (r, d')"
    by (rule demo_reversed)
  from reversed_once [OF l r reach.start, of "''u2''" "Date 2026 1 21" "[]"]
  obtain m where "reverse_entry demo_sha (je_id e) ''u2'' (Date 2026 1 21) [] d' = Inl (HTTPException 409 m)" ..
  with r show ?thesis by (intro exI conjI)
qed

text \<open>
  C30. Tamper evidence: two journals of the same length that both verify and end in the same
  hash hold the same facts, entry by entry and line by line, unless two of the hashed texts
  collide under the hash function. So the head hash, kept elsewhere, commits to the journal.
\<close>

theorem journal_head_commits:
  assumes "verify_gl_chain sha rs = Inr p" "cr_status p = Intact"
    and "verify_gl_chain sha ss = Inr q" "cr_status q = Intact"
    and "length rs = length ss" "je_entry_hash (fst (last rs)) = je_entry_hash (fst (last ss))"
    and "inj_on sha (gc.blobs rs \<union> gc.blobs ss)"
  shows "map gl_facts rs = map gl_facts ss"
proof (cases "rs = []")
  case False
  then have "ss \<noteq> []" using assms(5) by auto
  moreover have "gc.linked sha GENESIS_HASH rs" "gc.linked sha GENESIS_HASH ss"
    using assms(1-4) verify_gl_chain_iff by (metis chain_status.distinct(1))+
  ultimately show ?thesis using assms(5-7) False by (intro gc.linked_same_facts [where p = GENESIS_HASH and q = GENESIS_HASH]) auto
qed (use assms(5) in simp)

theorem journal_head_commits_witness:
  "\<exists>rs p. verify_gl_chain demo_sha rs = Inr p \<and> cr_status p = Intact \<and> length rs = 1 \<and> map gl_facts rs = map gl_facts rs"
proof -
  obtain e d where p: "post_entry demo_sha demo_request demo_db = Inr (e, d)" and l: "live_db demo_sha d" by (rule demo_posted)
  have ne: "gl_entries d = [e]" using demo_posted_parts(1) [OF p] .
  have v: "verify_gl_chain demo_sha (ordered_gl_rows d)
      = Inr \<lparr>cr_status = Intact, cr_total_rows = length (gl_entries d), cr_first_break = None\<rparr>"
    using gl_chain_verified [OF live_db_ok(1) [OF l]] ne by simp
  have "map gl_facts (ordered_gl_rows d) = map gl_facts (ordered_gl_rows d)"
    by (rule journal_head_commits [OF v _ v]) (simp_all add: demo_sha_def inj_on_def)
  moreover have "length (ordered_gl_rows d) = 1"
    using ne ordered_gl_rows_eq live_db_ok(1) [OF l] by (simp add: gl_rows_def journal_ok_def)
  ultimately show ?thesis using v by (intro exI conjI) (assumption | simp)+
qed

text \<open>
  C31. A journal that was intact up to an entry that does not fit is reported broken at that
  very entry, with the hash expected and the hash found.
\<close>

theorem journal_break_located:
  assumes "verify_gl_chain sha rs = Inr p" "cr_status p \<noteq> Broken" "je_prev_hash (fst r) \<noteq> []"
    and "je_prev_hash (fst r) \<noteq> gc.last_hash GENESIS_HASH rs
      \<or> je_entry_hash (fst r) \<noteq> sha (chain_blob (je_prev_hash (fst r)) (gl_facts r))"
  shows "verify_gl_chain sha (rs @ r # ss) =
    Inr \<lparr>cr_status = Broken, cr_total_rows = Suc (length rs),
         cr_first_break = Some
           \<lparr>cb_id = je_id (fst r), cb_expected_prev_hash = gc.last_hash GENESIS_HASH rs,
            cb_actual_prev_hash = je_prev_hash (fst r),
            cb_expected_entry_hash = sha (chain_blob (je_prev_hash (fst r)) (gl_facts r)),
            cb_actual_entry_hash = je_entry_hash (fst r)\<rparr>\<rparr>"
proof -
  have "gc.linked sha GENESIS_HASH rs" using assms(1,2) verify_gl_chain_iff by blast
  from gc.walk_first_break [OF this, of r "sha (chain_blob (je_prev_hash (fst r)) (gl_facts r))" 0 ss] assms(3,4)
  show ?thesis by (simp add: verify_gl_chain_def compute_gl_entry_hash_def compute_hash_def gl_facts_def raise_if_def)
qed

definition forged_entry :: gl_journal_entry where
  "forged_entry = \<lparr>je_id = ''x'', je_entry_no = ''JE-20260101-001'', je_entry_date = Date 2026 1 1, je_period_id = ''p'',
     je_memo = [], je_source_type = SOURCE_MANUAL, je_source_id = None, je_reverses_entry_id = None,
     je_actor_user_id = ''u'', je_occurred_at = 0, je_prev_hash = ''FORGED'', je_entry_hash = ''h''\<rparr>"

theorem journal_break_located_witness:
  "\<exists>rep. verify_gl_chain demo_sha [(forged_entry, [])] = Inr rep \<and> cr_status rep = Broken"
  using journal_break_located [of demo_sha "[]" _ "(forged_entry, [])" "[]"]
  by (simp add: verify_gl_chain_def forged_entry_def GENESIS_HASH_def)

text \<open>
  C25. The trial balance computed by one grouped query and a fold is the line-by-line replay:
  its rows are exactly the accounts with a line dated by the day, each once, with the sums of
  that account's lines.
\<close>

theorem trial_balance_is_replay:
  assumes "live_db sha d"
  shows "(\<forall>t \<in> set (tb_accounts (compute_trial_balance d as_of)).
        \<exists>a \<in> set (gl_accounts d). tb_row_for d as_of a t \<and> has_activity d as_of (acc_id a))
    \<and> (\<forall>i. has_activity d as_of i \<longrightarrow> i \<in> ta_account_id ` set (tb_accounts (compute_trial_balance d as_of)))
    \<and> distinct (map ta_account_id (tb_accounts (compute_trial_balance d as_of)))"
  using live_db_ok(1) [OF assms] tb_accounts_rows tb_accounts_complete tb_accounts_distinct
  unfolding journal_ok_def by (fastforce simp: image_iff)

theorem trial_balance_is_replay_witness:
  "\<exists>e d. post_entry demo_sha demo_request demo_db = Inr (e, d)
     \<and> distinct (map ta_account_id (tb_accounts (compute_trial_balance d (Date 2026 1 31))))"
  by (rule demo_posted) (use trial_balance_is_replay in blast)

section \<open>Closing a year\<close>

text \<open>
  C26. Closing a year brings every income and expense account to zero on December 31, moves
  retained earnings by exactly the net income of the preview, and leaves every other account.
\<close>

theorem year_close_zeroes_accounts:
  assumes "live_db sha d" "close_year sha year actor d = Inr (e, d')" "a \<in> set (gl_accounts d)"
    and "year_close_preview d year = Inr p"
  shows "\<exists>re \<in> set (gl_accounts d). acc_system_key re = Some ''RETAINED_EARNINGS'' \<and>
    account_net d' (Date year 12 31) (acc_id a) =
      (if is_pl (acc_type a) then 0 else account_net d (Date year 12 31) (acc_id a))
      - (if a = re then cp_net_income p else 0)"
  by (rule close_year_net [OF assms(2) live_db_ok(1) [OF assms(1)] assms(3,4)]) blast

theorem year_close_zeroes_accounts_witness:
  "\<exists>d c d'. close_year demo_sha 2026 ''u1'' d = Inr (c, d')
     \<and> account_net d' (Date 2026 12 31) (uid 1) = 0"
proof -
  obtain d c d' where l: "live_db demo_sha d" and a: "gl_accounts d = demo_accounts"
    and p: "year_close_preview d 2026 = Inr demo_preview" and c: "close_year demo_sha 2026 ''u1'' d = Inr (c, d')"
    by (rule demo_closed)
  let ?a = "demo_account 1 ''701000'' INCOME MONEY ''SALES_REVENUE''"
  have "?a \<in> set (gl_accounts d)" by (simp add: a demo_accounts_def)
  from year_close_zeroes_accounts [OF l c this p] obtain re where
    re: "acc_system_key re = Some ''RETAINED_EARNINGS''"
    and n: "account_net d' (Date 2026 12 31) (acc_id ?a) =
      (if is_pl (acc_type ?a) then 0 else account_net d (Date 2026 12 31) (acc_id ?a)) - (if ?a = re then cp_net_income demo_preview else 0)"
    by blast
  have "?a \<noteq> re" using re by (auto simp: demo_account_def)
  with n c show ?thesis by (auto simp: demo_account_def is_pl_def)
qed

text \<open>
  C27. A closed year stays closed: whatever the system does after the closing, reversals
  included, closing the year again is refused.
\<close>

theorem closed_year_stays_closed:
  assumes "live_db sha d" "close_year sha year actor d = Inr (e, d')" "reach sha d' d2"
  shows "year_already_closed d2 year = Inr True"
  using close_year_closes [OF live_db_ok(1) [OF assms(1)] assms(2)] yc.inv_reach [OF assms(3)] year_closed_found by blast

theorem closed_year_stays_closed_witness:
  "\<exists>d c d'. close_year demo_sha 2026 ''u1'' d = Inr (c, d') \<and> year_already_closed d' 2026 = Inr True"
proof -
  obtain d c d' where l: "live_db demo_sha d" and "gl_accounts d = demo_accounts"
    and "year_close_preview d 2026 = Inr demo_preview" and c: "close_year demo_sha 2026 ''u1'' d = Inr (c, d')"
    by (rule demo_closed)
  from closed_year_stays_closed [OF l c reach.start] c show ?thesis by blast
qed

section \<open>Money\<close>

text \<open>
  C32. The legs of a settlement balance in base money to the cent, whatever the currencies,
  the captured rates and the roundings: the plug to realized FX gain or loss absorbs the rest.
\<close>

theorem settlement_balances:
  assumes "settlement_legs kind recorded allocs control_key cash_key tender rate = Inr legs"
  shows "leg_debits legs = leg_credits legs \<and> (\<forall>l \<in> set legs. at_scale 2 (lg_base l))"
  using settlement_legs_balanced [OF assms] by blast

text \<open>A dollar invoice of 100 dollars settled in Lebanese pounds.\<close>

theorem settlement_balances_witness:
  "\<exists>legs. settlement_legs ''receipt'' ''USD'' [Allocation ''USD'' 1 100] ''AR'' ''CASH_LBP'' ''LBP'' 89500 = Inr legs
     \<and> leg_debits legs = leg_credits legs"
proof -
  obtain legs where l: "settlement_legs ''receipt'' ''USD'' [Allocation ''USD'' 1 100] ''AR'' ''CASH_LBP'' ''LBP'' 89500 = Inr legs"
    by (simp add: settlement_legs_def Allocation_def control_leg_def tender_money_def tender_base_def res_simps raise_if_def Let_def)
  from settlement_balances [OF l] l show ?thesis by blast
qed



text \<open>
  The lines of a per-item refund balance whatever the rounding of the VAT, making and
  discount shares: no refund is refused by the balance check.
\<close>

theorem refund_balances:
  assumes "at_scale 2 v" "0 \<le> ra_making_share (refund_amounts st ord it v qty)"
    "0 \<le> ra_discount_slice (refund_amounts st ord it v qty)"
  shows "rounded_balanced (refund_lines acc (refund_amounts st ord it v qty) it cost grams)"
  by (rule refund_lines_balanced [OF assms(1) refl assms(2,3)])

theorem refund_balances_witness:
  "\<exists>acc it. rounded_balanced (refund_lines acc (refund_amounts demo_settings demo_order it 50 1) it 40 1)"
proof -
  let ?it = "\<lparr>oi_id = ''i1'', oi_order_id = ''o1'', oi_item_kind = ITEM_COIN, oi_product_id = None, oi_coin_type_id = Some ''c1'',
    oi_ounce_type_id = None, oi_quantity = 2, oi_product_code = ''C'', oi_product_name = ''Coin'', oi_karat = K21,
    oi_weight_grams = 1, oi_gold_rate_at_sale = 40, oi_margin_percent = 0, oi_making_charge = 5, oi_final_price = 50,
    oi_cost_basis_usd = None, oi_stone_value_at_sale = None, oi_stone_cost_at_sale = None, oi_refunded_qty = 0,
    oi_refunded_amount = 0, oi_refunded_at = None\<rparr>"
  have "dmul 0 50 = 0" by (simp add: dmul_def)
  then have "0 \<le> ra_making_share (refund_amounts demo_settings demo_order ?it 50 1)"
    "0 \<le> ra_discount_slice (refund_amounts demo_settings demo_order ?it 50 1)"
    by (simp_all add: refund_amounts_def Let_def demo_order_def dquot_def dmul_nonneg)
  from refund_balances [OF _ this, where acc = undefined and cost = 40 and grams = 1] show ?thesis
    by (intro exI [of _ ?it] exI) simp
qed

text \<open>
  A supplier purchase that is not overpaid at creation balances: cash due against
  payable and cash paid, grams due against metal payable, karat by karat.
\<close>

theorem purchase_balances:
  assumes "purchase_cash_lines d pv ap cash pu stone = Inr ls"
    "at_scale 2 (sp_total_cash_due pu)" "at_scale 2 (sp_cash_paid_at_creation pu)" "at_scale 2 stone" "0 \<le> stone"
    "0 \<le> sp_cash_paid_at_creation pu" "sp_cash_paid_at_creation pu \<le> sp_total_cash_due pu"
  shows "rounded_balanced (ls @ purchase_gold_lines inva mp gc due paid)"
  by (rule rounded_balanced_append [OF purchase_cash_lines_balanced [OF assms] purchase_gold_lines_balanced])

theorem purchase_balances_witness:
  "\<exists>pu ls. purchase_cash_lines demo_db (uid 2) (uid 9) (uid 0) pu 0 = Inr ls
     \<and> rounded_balanced (ls @ purchase_gold_lines (uid 2) (uid 9) [] [(''K21'', 10)] [])"
proof -
  let ?pu = "\<lparr>sp_id = ''p1'', sp_supplier_id = ''s1'', sp_occurred_at = None, sp_payment_mode = MODE_CASH,
     sp_trade_markup_per_gram = None, sp_total_cash_due = 100,
     sp_total_grams_due_by_karat = [], sp_cash_paid_at_creation = 40, sp_grams_paid_at_creation_by_karat = [],
     sp_notes = None, sp_created_by_user_id = ''u1''\<rparr>"
  obtain ls where l: "purchase_cash_lines demo_db (uid 2) (uid 9) (uid 0) ?pu 0 = Inr ls"
    by (simp add: purchase_cash_lines_def Let_def)
  from purchase_balances [OF l, where inva = "uid 2" and mp = "uid 9" and gc = "[]" and due = "[(''K21'', 10)]" and paid = "[]"]
  have "rounded_balanced (ls @ purchase_gold_lines (uid 2) (uid 9) [] [(''K21'', 10)] [])" by simp
  with l show ?thesis by blast
qed

text \<open>
  Automatic posting is idempotent: once a sale has been posted, posting it again, at any
  later time, changes nothing.
\<close>

theorem sale_posts_once:
  assumes "post_sale sha ord st actor d = Inr (Some e, d')" "reach sha d' d2"
  shows "post_sale sha ord st actor' d2 = Inr (None, d2)"
  by (rule sale.skips [OF live_entry_persists [OF assms(2) sale.posts_once(1) [OF assms(1)]]])

theorem sale_posts_once_witness:
  "\<exists>e d. post_sale demo_sha demo_order demo_settings ''u1'' demo_db = Inr (Some e, d)
     \<and> post_sale demo_sha demo_order demo_settings ''u2'' d = Inr (None, d)"
  by (rule demo_sale) (use sale_posts_once reach.start in blast)



text \<open>
  Buying gold back: a price is quoted only for a known margin mode, a percentage below 100
  and a positive rate, and it is never negative.
\<close>

theorem buyback_price_guarded:
  assumes "compute_buyback_price rate k w mode margin = Inr p" "0 \<le> w"
  shows "(mode = ''USD_PER_GRAM'' \<or> mode = ''PERCENT'' \<and> margin < 100)
    \<and> 0 \<le> bx_buy_price p \<and> 0 \<le> bx_effective_rate_per_gram p"
  using compute_buyback_price_cases [OF assms] by blast

theorem buyback_price_guarded_witness:
  "\<exists>p. compute_buyback_price 80 K24 10 ''USD_PER_GRAM'' 2 = Inr p \<and> 0 \<le> bx_buy_price p"
proof -
  have "dmul 80 (KARAT_PURITY K24) = 80 * KARAT_PURITY K24"
    by (rule dmul_exact [OF _ purity_scale, of 0]) (use purity_bounds [of K24] in simp_all)
  then obtain p where "compute_buyback_price 80 K24 10 ''USD_PER_GRAM'' 2 = Inr p"
    by (simp add: compute_buyback_price_def raise_if_def Let_def)
  with buyback_price_guarded [OF this] show ?thesis by auto
qed

text \<open>
  The text hashed for a row of the inventory ledger determines its previous hash and
  every fact of the event: two rows with the same hashed text are the same event.
\<close>

theorem ledger_text_injective:
  assumes "chain_blob (il_prev_hash r) (ledger_chained (ledger_row_fields r))
    = chain_blob (il_prev_hash s) (ledger_chained (ledger_row_fields s))"
  shows "il_prev_hash r = il_prev_hash s
    \<and> ledger_chained (ledger_row_fields r) = ledger_chained (ledger_row_fields s)"
  using lc.blob_facts [of r s] assms by (simp add: ledger_facts_def)

definition demo_event :: inventory_ledger where
  "demo_event = \<lparr>il_id = ''e1'', il_event_type = ''LOT_CREATED'', il_actor_user_id = ''u1'', il_occurred_at = demo_clock,
     il_ref_type = ''gold_lot'', il_ref_id = ''l1'', il_payload = PDict [(''grams'', PStr ''10.000'')],
     il_prev_hash = GENESIS_HASH, il_entry_hash = ''h''\<rparr>"

theorem ledger_text_injective_witness:
  "ledger_chained (ledger_row_fields demo_event) = ledger_chained (ledger_row_fields (demo_event\<lparr>il_id := ''e2''\<rparr>))"
  using ledger_text_injective [of demo_event "demo_event\<lparr>il_id := ''e2''\<rparr>"]
  by (simp add: ledger_row_fields_def)

text \<open>
  The diff an audit event carries lists exactly the fields whose value changed.
\<close>

theorem field_diff_exact:
  "k \<in> set (map fst (field_diff before after)) \<longleftrightarrow>
     k \<in> set (map fst before) \<union> set (map fst after) \<and> \<not> py_eq (dict_get before k) (dict_get after k)"
  by (rule field_diff_keys)

end
